(* ===== verification/Prelude.thy ===== *)
theory Prelude
  imports Main "HOL-Library.Char_ord" "HOL-Library.List_Lexorder" "HOL-Library.Sublist"
begin

text \<open>
  Prelude of the DeusWatch development: the part of Go's language and standard library that the
  modelled components use, and the generic facts about it.

  Go strings are byte sequences, here \<open>char list\<close>. The case mapping and the white space of
  \<^verbatim>\<open>strings\<close> are those of the ASCII range; letters outside it are left unchanged by
  \<open>to_lower\<close>. \<^verbatim>\<open>time.Duration\<close> is a signed count of nanoseconds and \<^verbatim>\<open>time.Time\<close>
  the count of nanoseconds since the zero time, both \<open>int\<close>: \<^verbatim>\<open>t.IsZero()\<close> is
  \<open>t = 0\<close>; a time that can be missing is a \<open>gotime option\<close>. Go's 64-bit \<^verbatim>\<open>int\<close> is \<open>int\<close>
  with \<open>wrap64\<close> where a computation can leave the range. A call that returns
  \<^verbatim>\<open>(T, error)\<close> is a value of \<open>'e + 'a\<close>, with \<open>Inl\<close> for the error; a call that
  also changes the world is a function \<open>'w \<Rightarrow> ('e + 'a) \<times> 'w\<close>.
\<close>

named_theorems str_simps \<open>rewriting facts on Go strings\<close>
named_theorems list_facts \<open>facts on row lists: updates, counts and filters\<close>

section \<open>Machine integers, durations and times\<close>

type_synonym duration = int
type_synonym gotime = int

definition second :: duration where "second = 1000000000"
definition minute :: duration where "minute = 60 * second"
definition hour :: duration where "hour = 60 * minute"

text \<open>Conversion of an unbounded result to Go's two's complement \<^verbatim>\<open>int\<close>.\<close>

definition wrap64 :: "int \<Rightarrow> int" where
  "wrap64 n = (n + 2 ^ 63) mod 2 ^ 64 - 2 ^ 63"

lemma wrap64_id [simp]: "- (2 ^ 63) \<le> n \<Longrightarrow> n < 2 ^ 63 \<Longrightarrow> wrap64 n = n"
  by (simp add: wrap64_def)

lemma wrap64_range: "- (2 ^ 63) \<le> wrap64 n \<and> wrap64 n < 2 ^ 63"
proof -
  have "(0::int) \<le> (n + 2 ^ 63) mod 2 ^ 64" "(n + 2 ^ 63) mod 2 ^ 64 < (2::int) ^ 64"
    by simp_all
  then show ?thesis by (simp add: wrap64_def)
qed

text \<open>Go's integer division truncates towards zero.\<close>

definition go_div :: "int \<Rightarrow> int \<Rightarrow> int" where
  "go_div a b = sgn a * sgn b * (\<bar>a\<bar> div \<bar>b\<bar>)"

lemma go_div_nonneg [simp]: "0 \<le> a \<Longrightarrow> 0 < b \<Longrightarrow> go_div a b = a div b"
  by (cases "a = 0") (simp_all add: go_div_def)

text \<open>\<^verbatim>\<open>int(d.Seconds())\<close>: the whole seconds of a duration.\<close>

definition seconds_of :: "duration \<Rightarrow> int" where
  "seconds_of d = go_div d second"

lemma second_pos [simp]: "0 < second"
  by (simp add: second_def)

lemma seconds_of_mult [simp]: "0 \<le> n \<Longrightarrow> seconds_of (n * second) = n"
  by (simp add: seconds_of_def second_def)

lemma seconds_of_nonneg [simp]: "0 \<le> d \<Longrightarrow> 0 \<le> seconds_of d"
  by (simp add: seconds_of_def pos_imp_zdiv_nonneg_iff)

lemma seconds_of_le: "0 \<le> d \<Longrightarrow> seconds_of d * second \<le> d"
  by (simp add: seconds_of_def) (metis mult.commute second_pos mult_div_mod_eq
      add_increasing2 le_add_same_cancel1 pos_mod_sign)

lemma seconds_of_zero_iff: "0 \<le> d \<Longrightarrow> seconds_of d = 0 \<longleftrightarrow> d < second"
  by (simp add: seconds_of_def zdiv_eq_0_iff) (use second_pos in linarith)

section \<open>Characters and strings\<close>

definition lower_char :: "char \<Rightarrow> char" where
  "lower_char c = (let n = (of_char c :: nat) in if 65 \<le> n \<and> n \<le> 90 then char_of (n + 32) else c)"

definition to_lower :: "string \<Rightarrow> string" where
  "to_lower s = map lower_char s"

definition upper_char :: "char \<Rightarrow> char" where
  "upper_char c = (let n = (of_char c :: nat) in if 97 \<le> n \<and> n \<le> 122 then char_of (n - 32) else c)"

definition to_upper :: "string \<Rightarrow> string" where
  "to_upper s = map upper_char s"

definition is_space :: "char \<Rightarrow> bool" where
  "is_space c = (let n = (of_char c :: nat) in n = 32 \<or> (9 \<le> n \<and> n \<le> 13))"

definition is_digit :: "char \<Rightarrow> bool" where
  "is_digit c = (let n = (of_char c :: nat) in 48 \<le> n \<and> n \<le> 57)"

definition digit_val :: "char \<Rightarrow> nat" where
  "digit_val c = of_char c - 48"

definition trim_space :: "string \<Rightarrow> string" where
  "trim_space s = rev (dropWhile is_space (rev (dropWhile is_space s)))"

definition has_prefix :: "string \<Rightarrow> string \<Rightarrow> bool" where
  "has_prefix s p = (take (length p) s = p)"

definition has_suffix :: "string \<Rightarrow> string \<Rightarrow> bool" where
  "has_suffix s p = has_prefix (rev s) (rev p)"

fun contains_str :: "string \<Rightarrow> string \<Rightarrow> bool" where
  "contains_str [] p = (p = [])"
| "contains_str (c # s) p = (has_prefix (c # s) p \<or> contains_str s p)"

text \<open>\<^verbatim>\<open>strings.Fields\<close>: the maximal runs of non-space characters.\<close>

fun fields_acc :: "string \<Rightarrow> string \<Rightarrow> string list" where
  "fields_acc acc [] = (if acc = [] then [] else [rev acc])"
| "fields_acc acc (c # s) =
     (if is_space c then (if acc = [] then fields_acc [] s else rev acc # fields_acc [] s)
      else fields_acc (c # acc) s)"

definition fields :: "string \<Rightarrow> string list" where
  "fields s = fields_acc [] s"

text \<open>\<^verbatim>\<open>strings.Split\<close> on a one-character separator: always at least one part.\<close>

fun split_char :: "char \<Rightarrow> string \<Rightarrow> string list" where
  "split_char d [] = [[]]"
| "split_char d (c # s) =
     (if c = d then [] # split_char d s
      else (case split_char d s of [] \<Rightarrow> [[c]] | w # ws \<Rightarrow> (c # w) # ws))"

text \<open>\<^verbatim>\<open>strings.Join\<close>, the separator first.\<close>

fun join_with :: "string \<Rightarrow> string list \<Rightarrow> string" where
  "join_with sep [] = []"
| "join_with sep [x] = x"
| "join_with sep (x # y # xs) = x @ sep @ join_with sep (y # xs)"

definition nl :: string where "nl = [CHR 0x0A]"

text \<open>Index of the first and the last occurrence of a byte.\<close>

fun index_byte :: "string \<Rightarrow> char \<Rightarrow> nat option" where
  "index_byte [] d = None"
| "index_byte (c # s) d = (if c = d then Some 0 else map_option Suc (index_byte s d))"

fun last_index_byte :: "string \<Rightarrow> char \<Rightarrow> nat option" where
  "last_index_byte [] d = None"
| "last_index_byte (c # s) d =
     (case last_index_byte s d of Some i \<Rightarrow> Some (Suc i) | None \<Rightarrow> if c = d then Some 0 else None)"

subsection \<open>Facts\<close>

lemma lower_char_idem [simp, str_simps]: "lower_char (lower_char c) = lower_char c"
  by (simp add: lower_char_def Let_def)

lemma to_lower_idem [simp, str_simps]: "to_lower (to_lower s) = to_lower s"
  by (simp add: to_lower_def)

lemma to_lower_Nil [simp]: "to_lower [] = []" and to_lower_eq_Nil [simp]: "to_lower s = [] \<longleftrightarrow> s = []"
  by (simp_all add: to_lower_def)

lemma is_space_lower [simp, str_simps]: "is_space (lower_char c) = is_space c"
  by (auto simp: lower_char_def is_space_def Let_def)

lemma dropWhile_space_lower:
  "dropWhile is_space (map lower_char s) = map lower_char (dropWhile is_space s)"
  by (simp add: dropWhile_map comp_def)

lemma trim_space_lower [str_simps]: "trim_space (to_lower s) = to_lower (trim_space s)"
  by (simp add: trim_space_def to_lower_def dropWhile_space_lower rev_map)

lemma trim_space_Nil [simp]: "trim_space [] = []"
  by (simp add: trim_space_def)

lemma dropWhile_idem_rev:
  assumes "dropWhile P s = s"
  shows "dropWhile P (rev (dropWhile P (rev s))) = rev (dropWhile P (rev s))"
proof (cases s)
  case Nil
  then show ?thesis by simp
next
  case (Cons c t)
  from assms Cons have nc: "\<not> P c"
    by (metis dropWhile_eq_Cons_conv list.sel(1) hd_dropWhile list.distinct(1))
  have "dropWhile P (rev t @ [c]) = dropWhile P (rev t) @ [c] \<or> dropWhile P (rev t @ [c]) = [c]"
    using nc by (cases "\<forall>x \<in> set t. P x") (auto simp: dropWhile_append)
  with nc Cons show ?thesis by auto
qed

lemma trim_space_idem [simp, str_simps]: "trim_space (trim_space s) = trim_space s"
proof -
  let ?d = "dropWhile is_space s"
  have "dropWhile is_space ?d = ?d" by simp
  from dropWhile_idem_rev [OF this] show ?thesis
    unfolding trim_space_def by simp
qed

lemma has_prefix_iff: "has_prefix s p \<longleftrightarrow> prefix p s"
  by (metis has_prefix_def append_take_drop_id prefixI take_is_prefix prefix_def append_eq_conv_conj)

lemma has_suffix_iff: "has_suffix s p \<longleftrightarrow> suffix p s"
  by (simp add: has_suffix_def has_prefix_iff suffix_to_prefix)

lemma contains_str_iff: "contains_str s p \<longleftrightarrow> sublist p s"
  by (induction s) (auto simp: has_prefix_iff sublist_Cons_right)

definition is_word :: "string \<Rightarrow> bool" where
  "is_word w = (w \<noteq> [] \<and> (\<forall>c \<in> set w. \<not> is_space c))"

lemma fields_acc_words:
  "\<forall>c \<in> set acc. \<not> is_space c \<Longrightarrow> list_all is_word (fields_acc acc s)"
  by (induction s arbitrary: acc) (simp_all add: is_word_def)

lemma fields_words: "list_all is_word (fields s)"
  by (simp add: fields_def fields_acc_words)

lemma index_byte_None: "index_byte s d = None \<longleftrightarrow> d \<notin> set s"
  by (induction s) auto

lemma index_byte_Some:
  "index_byte s d = Some i \<Longrightarrow> i < length s \<and> s ! i = d \<and> d \<notin> set (take i s)"
  by (induction s arbitrary: i) (auto split: if_splits)

section \<open>Row lists\<close>

text \<open>
  An SQL table is the list of its rows. \<open>update_rows p f\<close> is
  \<^verbatim>\<open>UPDATE t SET ... WHERE p\<close>; its second component is \<^verbatim>\<open>RowsAffected\<close>.
\<close>

definition count_rows :: "('r \<Rightarrow> bool) \<Rightarrow> 'r list \<Rightarrow> int" where
  "count_rows p rs = int (length (filter p rs))"

definition update_rows :: "('r \<Rightarrow> bool) \<Rightarrow> ('r \<Rightarrow> 'r) \<Rightarrow> 'r list \<Rightarrow> 'r list \<times> int" where
  "update_rows p f rs = (map (\<lambda>r. if p r then f r else r) rs, count_rows p rs)"

lemma count_rows_simps [simp]:
  "count_rows p [] = 0"
  "count_rows p (r # rs) = (if p r then 1 else 0) + count_rows p rs"
  "count_rows p (rs @ rs') = count_rows p rs + count_rows p rs'"
  by (simp_all add: count_rows_def)

lemma count_rows_nonneg [simp]: "0 \<le> count_rows p rs"
  by (simp add: count_rows_def)

lemma count_rows_zero [list_facts]: "count_rows p rs = 0 \<longleftrightarrow> (\<forall>r \<in> set rs. \<not> p r)"
  by (auto simp: count_rows_def filter_empty_conv)

lemma count_rows_pos [list_facts]: "0 < count_rows p rs \<longleftrightarrow> (\<exists>r \<in> set rs. p r)"
  by (auto simp: count_rows_def filter_empty_conv)

lemma count_rows_mono: "(\<And>r. r \<in> set rs \<Longrightarrow> p r \<Longrightarrow> q r) \<Longrightarrow> count_rows p rs \<le> count_rows q rs"
  by (induction rs) auto

lemma count_rows_map: "count_rows p (map f rs) = count_rows (p \<circ> f) rs"
  by (simp add: count_rows_def filter_map)

lemma map_map_if_cong:
  "(\<And>r. r \<in> set rs \<Longrightarrow> p r \<Longrightarrow> g (f r) = g r) \<Longrightarrow>
   map g (map (\<lambda>r. if p r then f r else r) rs) = map g rs"
  by (induction rs) auto

end
