(* ===== verification/Events.thy ===== *)
theory Events
  imports Prelude
begin

text \<open>
  The DeusWatch common schema of \<^verbatim>\<open>internal/ingest/schema.go\<close>: the event every component
  passes along, with a record per Go struct, \<open>option\<close> for a pointer, and the severity scale.
\<close>

section \<open>Severity\<close>

text \<open>\<^verbatim>\<open>type Severity int8\<close>: the five named levels are 0 to 4, other values are not excluded.\<close>

type_synonym severity = int

definition SeverityInfo :: severity where "SeverityInfo = 0"
definition SeverityLow :: severity where "SeverityLow = 1"
definition SeverityMedium :: severity where "SeverityMedium = 2"
definition SeverityHigh :: severity where "SeverityHigh = 3"
definition SeverityCritical :: severity where "SeverityCritical = 4"

lemmas severity_defs = SeverityInfo_def SeverityLow_def SeverityMedium_def SeverityHigh_def
  SeverityCritical_def

definition severity_Valid :: "severity \<Rightarrow> bool" where
  "severity_Valid s = (SeverityInfo \<le> s \<and> s \<le> SeverityCritical)"

definition severity_String :: "severity \<Rightarrow> string" where
  "severity_String s =
     (if s = SeverityInfo then ''info''
      else if s = SeverityLow then ''low''
      else if s = SeverityMedium then ''medium''
      else if s = SeverityHigh then ''high''
      else if s = SeverityCritical then ''critical''
      else ''unknown'')"

definition ParseSeverity :: "string \<Rightarrow> severity \<Rightarrow> severity" where
  "ParseSeverity s fallback =
     (let t = to_lower (trim_space s)
      in if t = ''info'' \<or> t = ''informational'' then SeverityInfo
         else if t = ''low'' then SeverityLow
         else if t = ''medium'' then SeverityMedium
         else if t = ''high'' then SeverityHigh
         else if t = ''critical'' then SeverityCritical
         else fallback)"

section \<open>The event record\<close>

record event_fields =
  ef_Category :: string
  ef_Action :: string
  ef_Outcome :: string
  ef_Severity :: severity
  ef_Dataset :: string
  ef_Original :: string

record geo =
  geo_CountryISOCode :: string
  geo_CityName :: string

record autonomous_system =
  as_Number :: int
  as_Org :: string

record endpoint =
  ep_IP :: string
  ep_Port :: int
  ep_Geo :: "geo option"
  ep_AS :: "autonomous_system option"

record host =
  host_Name :: string
  host_OSType :: string
  host_IP :: string

record agent =
  agent_ID :: string
  agent_Version :: string

record event_user =
  eu_Name :: string
  eu_Domain :: string
  eu_Effective :: string

record network =
  net_Protocol :: string
  net_Transport :: string

record http =
  http_Method :: string
  http_URI :: string
  http_StatusCode :: int
  http_Host :: string

record event_file =
  file_Path :: string
  file_HashSHA256 :: string
  file_Owner :: string
  file_Mode :: string
  file_Diff :: string

record event_process =
  proc_Name :: string
  proc_PID :: int
  proc_CommandLine :: string
  proc_Start :: string

record event_rule =
  er_ID :: string
  er_Name :: string

record technique =
  tech_ID :: string
  tech_Name :: string

record indicator =
  ind_IP :: string
  ind_Confidence :: int
  ind_LastSeen :: "gotime option"

record threat =
  th_Technique :: technique
  th_TacticName :: string
  th_Indicator :: "indicator option"
  th_FeedName :: string

record enrichment =
  en_Status :: string
  en_AbuseConfidence :: "int option"
  en_OTXPulseCount :: "int option"

record llm =
  llm_Verdict :: string
  llm_Summary :: string
  llm_AnalyzedAt :: "gotime option"

record severity_meta =
  sm_Original :: severity
  sm_EscalatedBy :: string

record remediation =
  rm_Action :: string
  rm_Source :: string
  rm_Status :: string

record file_reputation =
  fr_Verdict :: string
  fr_Detail :: string

record containment_intent =
  ci_ActionType :: string
  ci_TimeoutSeconds :: int
  ci_Threshold :: severity

record deuswatch =
  dw_Enrichment :: enrichment
  dw_Label :: string
  dw_LLM :: llm
  dw_Severity :: severity_meta
  dw_Remediation :: remediation
  dw_FileHash :: file_reputation
  dw_Containment :: "containment_intent option"
  dw_TenantID :: string

record event =
  ev_Timestamp :: gotime
  ev_Event :: event_fields
  ev_Source :: "endpoint option"
  ev_Destination :: "endpoint option"
  ev_Host :: "host option"
  ev_Agent :: "agent option"
  ev_User :: "event_user option"
  ev_Network :: "network option"
  ev_HTTP :: "http option"
  ev_File :: "event_file option"
  ev_Process :: "event_process option"
  ev_Rule :: "event_rule option"
  ev_Threat :: "threat option"
  ev_DeusWatch :: deuswatch

definition empty_deuswatch :: deuswatch where
  "empty_deuswatch =
     \<lparr>dw_Enrichment = \<lparr>en_Status = [], en_AbuseConfidence = None, en_OTXPulseCount = None\<rparr>,
      dw_Label = [], dw_LLM = \<lparr>llm_Verdict = [], llm_Summary = [], llm_AnalyzedAt = None\<rparr>,
      dw_Severity = \<lparr>sm_Original = 0, sm_EscalatedBy = []\<rparr>,
      dw_Remediation = \<lparr>rm_Action = [], rm_Source = [], rm_Status = []\<rparr>,
      dw_FileHash = \<lparr>fr_Verdict = [], fr_Detail = []\<rparr>, dw_Containment = None, dw_TenantID = []\<rparr>"

text \<open>The zero value of the struct.\<close>

definition empty_event :: event where
  "empty_event =
     \<lparr>ev_Timestamp = 0,
      ev_Event = \<lparr>ef_Category = [], ef_Action = [], ef_Outcome = [], ef_Severity = 0,
                  ef_Dataset = [], ef_Original = []\<rparr>,
      ev_Source = None, ev_Destination = None, ev_Host = None, ev_Agent = None, ev_User = None,
      ev_Network = None, ev_HTTP = None, ev_File = None, ev_Process = None, ev_Rule = None,
      ev_Threat = None, ev_DeusWatch = empty_deuswatch\<rparr>"

definition endpoint_of :: "string \<Rightarrow> endpoint" where
  "endpoint_of addr = \<lparr>ep_IP = addr, ep_Port = 0, ep_Geo = None, ep_AS = None\<rparr>"

section \<open>Facts\<close>

text \<open>Printing a named level and parsing it back gives that level, whatever the fallback.\<close>

lemma ParseSeverity_String:
  assumes "severity_Valid s"
  shows "ParseSeverity (severity_String s) d = s"
proof -
  from assms have "s \<in> {0, 1, 2, 3, 4}" by (auto simp: severity_Valid_def severity_defs)
  then show ?thesis
    by (auto simp: ParseSeverity_def severity_String_def severity_defs Let_def to_lower_def
        trim_space_def lower_char_def is_space_def)
qed

lemma ParseSeverity_Valid:
  "severity_Valid d \<Longrightarrow> severity_Valid (ParseSeverity s d)"
  by (simp add: ParseSeverity_def Let_def severity_Valid_def severity_defs)

end
