(* ===== verification/Ban_Policy.thy ===== *)
theory Ban_Policy
  imports Prelude
begin

text \<open>
  The progressive ban policy of \<^verbatim>\<open>internal/respond/respond.go\<close> and its persistence in
  \<^verbatim>\<open>internal/respond/store.go\<close>: the escalation ladder, the duration of the n-th offense, and
  the single-row table the policy is saved in and loaded from.
\<close>

record ban_policy =
  Durations :: "duration list"
  Permanent :: bool
  Window :: duration
  AutoApprove :: bool

definition DefaultBanPolicy :: ban_policy where
  "DefaultBanPolicy =
     \<lparr>Durations = [10 * minute, hour, 24 * hour], Permanent = True, Window = 0, AutoApprove = False\<rparr>"

text \<open>\<^verbatim>\<open>BanPolicy.Duration\<close>: the offense is 1-based, and 0 means permanent.\<close>

definition Duration :: "ban_policy \<Rightarrow> int \<Rightarrow> duration" where
  "Duration p offense =
     (if Durations p = [] then 0
      else let n = (if offense < 1 then 1 else offense)
           in if n \<le> int (length (Durations p)) then Durations p ! nat (n - 1)
              else if Permanent p then 0
              else Durations p ! (length (Durations p) - 1))"

section \<open>Persistence\<close>

text \<open>
  The \<^verbatim>\<open>ban_policy\<close> row. Durations are saved as whole seconds (\<^verbatim>\<open>int32(d.Seconds())\<close>);
  the model covers durations whose seconds fit 32 bits, since Go leaves the conversion of a
  larger float to the implementation.
\<close>

record policy_row =
  pr_durations :: "int list"
  pr_permanent :: bool
  pr_window_secs :: int
  pr_auto_approve :: bool

definition row_of_policy :: "ban_policy \<Rightarrow> policy_row" where
  "row_of_policy p =
     \<lparr>pr_durations = map seconds_of (Durations p), pr_permanent = Permanent p,
      pr_window_secs = seconds_of (Window p), pr_auto_approve = AutoApprove p\<rparr>"

text \<open>\<^verbatim>\<open>LoadPolicy\<close> on the result of its query: \<open>None\<close> is \<^verbatim>\<open>pgx.ErrNoRows\<close>.\<close>

definition policy_of_row :: "policy_row option \<Rightarrow> ban_policy" where
  "policy_of_row r =
     (case r of
        None \<Rightarrow> DefaultBanPolicy
      | Some q \<Rightarrow>
          \<lparr>Durations = map (\<lambda>s. s * second) (pr_durations q), Permanent = pr_permanent q,
           Window = pr_window_secs q * second, AutoApprove = pr_auto_approve q\<rparr>)"

section \<open>The ladder\<close>

text \<open>
  The rung of the ladder an offense count falls on: rungs are numbered from 0, everything past
  the end is the same last step.
\<close>

definition ladder_spec :: "ban_policy \<Rightarrow> nat \<Rightarrow> duration" where
  "ladder_spec p k =
     (if k < length (Durations p) then Durations p ! k
      else if Permanent p \<or> Durations p = [] then 0 else last (Durations p))"

lemma Duration_ladder: "Duration p (int k + 1) = ladder_spec p k"
  by (auto simp: Duration_def ladder_spec_def Let_def last_conv_nth)

lemma Duration_low: "n \<le> 1 \<Longrightarrow> Duration p n = ladder_spec p 0"
  by (cases "Durations p") (auto simp: Duration_def ladder_spec_def Let_def)

lemma Duration_past_end:
  assumes "Permanent p" "int (length (Durations p)) < n"
  shows "Duration p n = 0"
  using assms by (auto simp: Duration_def Let_def)

lemma Duration_in_ladder:
  assumes "\<forall>d \<in> set (Durations p). 0 \<le> d"
  shows "0 \<le> Duration p n"
proof (cases "Durations p = []")
  case False
  then have "length (Durations p) - 1 < length (Durations p)" by simp
  with assms False show ?thesis by (auto simp: Duration_def Let_def)
qed (simp add: Duration_def)

lemma Duration_cap:
  assumes "\<not> Permanent p" "int (length (Durations p)) \<le> n" "Durations p \<noteq> []" "1 \<le> n"
  shows "Duration p n = last (Durations p)"
  using assms by (auto simp: Duration_def Let_def last_conv_nth intro!: arg_cong2 [where f = nth])

text \<open>On an increasing ladder a later offense is never banned for less: 0 counts as the longest ban.\<close>

definition at_least :: "duration \<Rightarrow> duration \<Rightarrow> bool" where
  "at_least d d' = (d = 0 \<or> (d' \<noteq> 0 \<and> d' \<le> d))"

lemma ladder_escalates:
  assumes srt: "sorted (Durations p)" and pos: "\<forall>d \<in> set (Durations p). 0 < d" and le: "j \<le> k"
  shows "at_least (ladder_spec p k) (ladder_spec p j)"
proof (cases "j < length (Durations p)")
  case True
  then have j: "Durations p ! j \<in> set (Durations p)" "Durations p \<noteq> []" by auto
  from j(1) pos have j0: "0 < Durations p ! j" by blast
  show ?thesis
  proof (cases "k < length (Durations p)")
    case True
    with srt le have "Durations p ! j \<le> Durations p ! k" by (simp add: sorted_iff_nth_mono)
    then show ?thesis using True le j0 by (simp add: at_least_def ladder_spec_def)
  next
    case False
    have "Durations p ! j \<le> last (Durations p)"
      using srt \<open>j < length (Durations p)\<close> j(2) by (simp add: last_conv_nth sorted_iff_nth_mono)
    with False \<open>j < length (Durations p)\<close> j0 show ?thesis by (auto simp: at_least_def ladder_spec_def)
  qed
next
  case False
  with le pos show ?thesis
    by (cases "Durations p = []") (auto simp: at_least_def ladder_spec_def)
qed

text \<open>Every offense count is a rung.\<close>

lemma Duration_rung: "Duration p n = ladder_spec p (nat (max n 1 - 1))"
proof (cases "n \<le> 1")
  case True
  then show ?thesis by (simp add: Duration_low max_def)
next
  case False
  then show ?thesis using Duration_ladder [of p "nat (n - 1)"] by (simp add: max_def)
qed

text \<open>
  On an increasing ladder of positive durations a later offense is never banned for less than an
  earlier one, where a ban of 0 is permanent and so the longest; past the ladder's end the ban is
  permanent when the policy says so and the last rung otherwise.
\<close>

theorem Duration_escalates:
  assumes "sorted (Durations p)" "\<forall>d \<in> set (Durations p). 0 < d" "m \<le> n" "Durations p \<noteq> []"
  shows "at_least (Duration p n) (Duration p m) \<and>
    (int (length (Durations p)) < n \<longrightarrow> Duration p n = (if Permanent p then 0 else last (Durations p)))"
proof -
  have "at_least (ladder_spec p (nat (max n 1 - 1))) (ladder_spec p (nat (max m 1 - 1)))"
    using assms(1-3) by (intro ladder_escalates) (auto simp: max_def)
  moreover have "Duration p n = (if Permanent p then 0 else last (Durations p))"
    if "int (length (Durations p)) < n"
    using that assms(4) Duration_past_end [of p n] Duration_cap [of p n] by (auto simp: Suc_le_eq)
  ultimately show ?thesis by (simp only: Duration_rung [symmetric]) simp
qed

theorem Duration_escalates_witness:
  "at_least (Duration DefaultBanPolicy 4) (Duration DefaultBanPolicy 2) \<and> Duration DefaultBanPolicy 4 = 0"
proof -
  have "sorted (Durations DefaultBanPolicy)" "\<forall>d \<in> set (Durations DefaultBanPolicy). 0 < d"
    "Durations DefaultBanPolicy \<noteq> []" "int (length (Durations DefaultBanPolicy)) < 4" "Permanent DefaultBanPolicy"
    by (simp_all add: DefaultBanPolicy_def minute_def hour_def second_def)
  then show ?thesis using Duration_escalates [of DefaultBanPolicy 2 4] by auto
qed

text \<open>
  Saving a policy of whole-second durations and loading it gives the same policy.
\<close>

theorem policy_row_roundtrip:
  assumes "\<forall>d \<in> set (Durations p). \<exists>n \<ge> 0. d = n * second" and "\<exists>n \<ge> 0. Window p = n * second"
  shows "policy_of_row (Some (row_of_policy p)) = p"
proof -
  have 1: "seconds_of d * second = d" if "\<exists>n \<ge> 0. d = n * second" for d
    using that by auto
  have "map (\<lambda>s. s * second) (map seconds_of (Durations p)) = Durations p"
    using assms(1) 1 by (induction "Durations p") (auto simp: map_idI)
  with 1 assms(2) show ?thesis
    by (simp add: policy_of_row_def row_of_policy_def)
qed

theorem policy_row_roundtrip_witness: "policy_of_row (Some (row_of_policy DefaultBanPolicy)) = DefaultBanPolicy"
proof (rule policy_row_roundtrip)
  show "\<forall>d \<in> set (Durations DefaultBanPolicy). \<exists>n \<ge> 0. d = n * second"
    by (auto simp: DefaultBanPolicy_def minute_def hour_def second_def intro: exI [of _ 600] exI [of _ 3600] exI [of _ 86400])
  show "\<exists>n \<ge> 0. Window DefaultBanPolicy = n * second"
    by (auto simp: DefaultBanPolicy_def intro: exI [of _ 0])
qed

end
