(* ===== verification/Go_Net.thy ===== *)
theory Go_Net
  imports Prelude "HOL-Library.Word"
begin

text \<open>
  The part of Go's \<^verbatim>\<open>net\<close> and \<^verbatim>\<open>net/netip\<close> packages that the response engine uses:
  \<^verbatim>\<open>net.ParseIP\<close>, \<^verbatim>\<open>net.ParseCIDR\<close>, \<^verbatim>\<open>IP.To4\<close>, \<^verbatim>\<open>IPNet.Contains\<close> and the
  printing of addresses and networks. The parsers follow the standard library's loops character
  by character. A 16-byte \<^verbatim>\<open>net.IP\<close> is a \<open>128 word\<close>; an IPv4 address is the
  IPv4-mapped value, as in Go.
\<close>

unbundle bit_operations_syntax

type_synonym ip = "128 word"

datatype addr = Addr4 "32 word" | Addr6 "128 word"

datatype ipnet = Net4 "32 word" nat | Net6 "128 word" nat

section \<open>Address parsing\<close>

text \<open>\<^verbatim>\<open>parseIPv4Fields\<close>: previous byte, value and length of the current octet, octets so far.\<close>

fun ipv4_loop :: "char option \<Rightarrow> nat \<Rightarrow> nat \<Rightarrow> nat list \<Rightarrow> string \<Rightarrow> nat list option" where
  "ipv4_loop prev val dl fs [] = (if length fs < 3 then None else Some (fs @ [val]))"
| "ipv4_loop prev val dl fs (c # s) =
     (if is_digit c then
        if dl = 1 \<and> val = 0 then None
        else let v = val * 10 + digit_val c
             in if v > 255 then None else ipv4_loop (Some c) v (Suc dl) fs s
      else if c = CHR ''.'' then
        if prev = None \<or> s = [] \<or> prev = Some CHR ''.'' then None
        else if length fs = 3 then None
        else ipv4_loop (Some c) 0 0 (fs @ [val]) s
      else None)"

definition ipv4_fields :: "string \<Rightarrow> nat list option" where
  "ipv4_fields s = ipv4_loop None 0 0 [] s"

definition bytes_value :: "nat list \<Rightarrow> int" where
  "bytes_value bs = foldl (\<lambda>acc b. acc * 256 + int b) 0 bs"

definition hex_val :: "char \<Rightarrow> nat option" where
  "hex_val c =
     (let n = (of_char c :: nat)
      in if 48 \<le> n \<and> n \<le> 57 then Some (n - 48)
         else if 97 \<le> n \<and> n \<le> 102 then Some (n - 87)
         else if 65 \<le> n \<and> n \<le> 70 then Some (n - 55)
         else None)"

fun hex_scan :: "nat \<Rightarrow> nat \<Rightarrow> string \<Rightarrow> (nat \<times> nat \<times> string) option" where
  "hex_scan off acc [] = Some (off, acc, [])"
| "hex_scan off acc (c # s) =
     (case hex_val c of
        None \<Rightarrow> Some (off, acc, c # s)
      | Some h \<Rightarrow>
          let a = acc * 16 + h
          in if off > 3 \<or> a > 65535 then None else hex_scan (Suc off) a s)"

lemma hex_scan_length: "hex_scan off acc s = Some (off', acc', s') \<Longrightarrow> length s' \<le> length s"
proof (induction s arbitrary: off acc)
  case Nil
  then show ?case by simp
next
  case (Cons c s)
  then show ?case by (fastforce simp: Let_def split: option.splits if_splits)
qed

text \<open>\<^verbatim>\<open>parseIPv6\<close>'s main loop: position of the ellipsis, bytes so far, rest of the text.\<close>

function ipv6_loop :: "nat option \<Rightarrow> nat list \<Rightarrow> string \<Rightarrow> (nat option \<times> nat list \<times> string) option" where
  "ipv6_loop ell bs s =
     (if length bs \<ge> 16 then Some (ell, bs, s)
      else case hex_scan 0 0 s of
        None \<Rightarrow> None
      | Some (off, acc, s') \<Rightarrow>
          if off = 0 then None
          else case s' of
            [] \<Rightarrow> Some (ell, bs @ [acc div 256, acc mod 256], [])
          | c # r \<Rightarrow>
              if c = CHR ''.'' then
                if ell = None \<and> length bs \<noteq> 12 then None
                else if length bs + 4 > 16 then None
                else map_option (\<lambda>fs. (ell, bs @ fs, [])) (ipv4_fields s)
              else if c \<noteq> CHR '':'' then None
              else (case r of
                  [] \<Rightarrow> None
                | d # r' \<Rightarrow>
                    if d = CHR '':'' then
                      if ell \<noteq> None then None
                      else if r' = [] then Some (Some (length bs + 2), bs @ [acc div 256, acc mod 256], [])
                      else ipv6_loop (Some (length bs + 2)) (bs @ [acc div 256, acc mod 256]) r'
                    else ipv6_loop ell (bs @ [acc div 256, acc mod 256]) r))"
  by pat_completeness auto
termination
  by (relation "measure (\<lambda>(ell, bs, s). length s)") (auto dest!: hex_scan_length)

declare ipv6_loop.simps [simp del]

definition parse_ipv6 :: "string \<Rightarrow> 128 word option" where
  "parse_ipv6 s =
     (if s = ''::'' then Some 0
      else case (if has_prefix s ''::'' then ipv6_loop (Some 0) [] (drop 2 s) else ipv6_loop None [] s) of
        None \<Rightarrow> None
      | Some (ell, bs, r) \<Rightarrow>
          if r \<noteq> [] then None
          else if length bs < 16 then
            (case ell of
               None \<Rightarrow> None
             | Some e \<Rightarrow> Some (word_of_int (bytes_value (take e bs @ replicate (16 - length bs) 0 @ drop e bs))))
          else if ell \<noteq> None then None
          else Some (word_of_int (bytes_value bs)))"

text \<open>\<^verbatim>\<open>netip.ParseAddr\<close> on texts without a zone: every caller rejects a zone.\<close>

definition parse_addr :: "string \<Rightarrow> addr option" where
  "parse_addr s =
     (if CHR ''%'' \<in> set s then None
      else case find (\<lambda>c. c = CHR ''.'' \<or> c = CHR '':'') s of
        None \<Rightarrow> None
      | Some c \<Rightarrow>
          if c = CHR ''.'' then map_option (\<lambda>fs. Addr4 (word_of_int (bytes_value fs))) (ipv4_fields s)
          else map_option Addr6 (parse_ipv6 s))"

definition v4_mapped :: "32 word \<Rightarrow> ip" where
  "v4_mapped w = push_bit 32 0xFFFF OR ucast w"

fun as16 :: "addr \<Rightarrow> ip" where
  "as16 (Addr4 w) = v4_mapped w"
| "as16 (Addr6 w) = w"

definition parse_ip :: "string \<Rightarrow> ip option" where
  "parse_ip s = map_option as16 (parse_addr s)"

definition to4 :: "ip \<Rightarrow> 32 word option" where
  "to4 a = (if drop_bit 32 a = 0xFFFF then Some (ucast a) else None)"

section \<open>Networks\<close>

definition mask_top :: "nat \<Rightarrow> 'a::len word \<Rightarrow> 'a word" where
  "mask_top n w = push_bit (LENGTH('a) - n) (drop_bit (LENGTH('a) - n) w)"

text \<open>\<^verbatim>\<open>dtoi\<close>: decimal digits up to the limit \<open>0xFFFFFF\<close>; \<^verbatim>\<open>ParseCIDR\<close> wants the whole text.\<close>

fun dtoi_loop :: "nat \<Rightarrow> string \<Rightarrow> nat option" where
  "dtoi_loop n [] = Some n"
| "dtoi_loop n (c # s) =
     (if is_digit c then
        let m = n * 10 + digit_val c in if m \<ge> 0xFFFFFF then None else dtoi_loop m s
      else None)"

definition dtoi_all :: "string \<Rightarrow> nat option" where
  "dtoi_all s = (if s = [] then None else dtoi_loop 0 s)"

definition parse_cidr :: "string \<Rightarrow> ipnet option" where
  "parse_cidr s =
     (case index_byte s CHR ''/'' of
        None \<Rightarrow> None
      | Some i \<Rightarrow>
          (case parse_addr (take i s) of
             None \<Rightarrow> None
           | Some a \<Rightarrow>
               (case dtoi_all (drop (Suc i) s) of
                  None \<Rightarrow> None
                | Some n \<Rightarrow>
                    (case a of
                       Addr4 w \<Rightarrow> if n > 32 then None else Some (Net4 (mask_top n w) n)
                     | Addr6 w \<Rightarrow> if n > 128 then None else Some (Net6 (mask_top n w) n)))))"

text \<open>\<^verbatim>\<open>networkNumberAndMask\<close>: an IPv4-mapped 16-byte network is read as a 4-byte one.\<close>

fun net_norm :: "ipnet \<Rightarrow> ipnet" where
  "net_norm (Net4 w n) = Net4 w n"
| "net_norm (Net6 w n) = (case to4 w of Some x \<Rightarrow> Net4 x (n - 96) | None \<Rightarrow> Net6 w n)"

definition net_contains :: "ipnet \<Rightarrow> ip \<Rightarrow> bool" where
  "net_contains nt a =
     (case net_norm nt of
        Net4 w n \<Rightarrow> (case to4 a of Some x \<Rightarrow> mask_top n w = mask_top n x | None \<Rightarrow> False)
      | Net6 w n \<Rightarrow> to4 a = None \<and> mask_top n w = mask_top n a)"

section \<open>Printing\<close>

fun dec_digit :: "nat \<Rightarrow> char" where
  "dec_digit n = char_of (48 + n)"

function nat_to_dec :: "nat \<Rightarrow> string" where
  "nat_to_dec n = (if n < 10 then [dec_digit n] else nat_to_dec (n div 10) @ [dec_digit (n mod 10)])"
  by pat_completeness auto
termination by (relation "measure id") auto

function nat_to_hex :: "nat \<Rightarrow> string" where
  "nat_to_hex n =
     (if n < 16 then [if n < 10 then char_of (48 + n) else char_of (87 + n)]
      else nat_to_hex (n div 16) @
        [if n mod 16 < 10 then char_of (48 + n mod 16) else char_of (87 + n mod 16)])"
  by pat_completeness auto
termination by (relation "measure id") auto

declare nat_to_dec.simps [simp del] nat_to_hex.simps [simp del]

text \<open>\<^verbatim>\<open>strconv.Itoa\<close> and \<^verbatim>\<open>%d\<close>.\<close>

definition go_itoa :: "int \<Rightarrow> string" where
  "go_itoa n = (if n < 0 then CHR ''-'' # nat_to_dec (nat (- n)) else nat_to_dec (nat n))"

text \<open>\<^verbatim>\<open>%0wd\<close>.\<close>

definition pad_dec :: "nat \<Rightarrow> nat \<Rightarrow> string" where
  "pad_dec w n = replicate (w - length (nat_to_dec n)) CHR ''0'' @ nat_to_dec n"

definition octet :: "nat \<Rightarrow> 'a::len word \<Rightarrow> nat" where
  "octet i w = nat (uint w div 256 ^ i mod 256)"

definition v4_string :: "32 word \<Rightarrow> string" where
  "v4_string w =
     nat_to_dec (octet 3 w) @ ''.'' @ nat_to_dec (octet 2 w) @ ''.'' @
     nat_to_dec (octet 1 w) @ ''.'' @ nat_to_dec (octet 0 w)"

definition group16 :: "128 word \<Rightarrow> nat \<Rightarrow> nat" where
  "group16 w i = nat (uint w div 65536 ^ (7 - i) mod 65536)"

definition zero_run :: "nat list \<Rightarrow> nat \<Rightarrow> nat" where
  "zero_run gs i = length (takeWhile (\<lambda>g. g = 0) (drop i gs))"

text \<open>The first longest run of at least two zero groups, as start and end.\<close>

definition longest_zeros :: "nat list \<Rightarrow> (nat \<times> nat) option" where
  "longest_zeros gs =
     fold (\<lambda>i best.
        let l = zero_run gs i;
            cur = (case best of None \<Rightarrow> 0 | Some (a, b) \<Rightarrow> b - a)
        in if l \<ge> 2 \<and> l > cur then Some (i, i + l) else best) [0..<8] None"

definition join_colon :: "nat list \<Rightarrow> string" where
  "join_colon gs = concat (map2 (\<lambda>i g. (if i = (0::nat) then '''' else '':'') @ nat_to_hex g) [0..<length gs] gs)"

definition v6_string :: "128 word \<Rightarrow> string" where
  "v6_string w =
     (let gs = map (group16 w) [0..<8]
      in case longest_zeros gs of
           None \<Rightarrow> join_colon gs
         | Some (a, b) \<Rightarrow> join_colon (take a gs) @ ''::'' @ join_colon (drop b gs))"

definition ip_string :: "ip \<Rightarrow> string" where
  "ip_string a = (case to4 a of Some w \<Rightarrow> v4_string w | None \<Rightarrow> v6_string a)"

fun ipnet_string :: "ipnet \<Rightarrow> string" where
  "ipnet_string nt =
     (case net_norm nt of
        Net4 w n \<Rightarrow> v4_string w @ ''/'' @ nat_to_dec n
      | Net6 w n \<Rightarrow> v6_string w @ ''/'' @ nat_to_dec n)"

section \<open>Facts\<close>

lemma low_half_or: "(ucast (push_bit 32 (h :: 128 word) OR ucast (w :: 32 word)) :: 32 word) = w"
  by (rule bit_word_eqI) (auto simp: bit_simps)

lemma high_half_or:
  "(h :: 128 word) < 2 ^ 96 \<Longrightarrow> drop_bit 32 (push_bit 32 h OR ucast (w :: 32 word)) = h"
proof (rule bit_word_eqI)
  fix n assume h: "h < 2 ^ 96" and "n < LENGTH(128)"
  from h have "take_bit 96 h = h"
    by (simp only: take_bit_eq_mask less_mask_eq)
  then have "bit h n \<Longrightarrow> n < 96" by (metis bit_take_bit_iff)
  then show "bit (drop_bit 32 (push_bit 32 h OR ucast w)) n = bit h n"
    by (auto simp: bit_simps dest: bit_imp_le_length)
qed

lemma to4_v4_mapped [simp]: "to4 (v4_mapped w) = Some w"
  unfolding to4_def v4_mapped_def by (subst high_half_or) (simp_all only: low_half_or, simp_all)

lemma v4_mapped_inj [simp]: "v4_mapped a = v4_mapped b \<longleftrightarrow> a = b"
  by (metis to4_v4_mapped option.inject)

lemma mask_top_idem [simp]: "mask_top n (mask_top n w) = mask_top n w"
  by (rule bit_word_eqI) (auto simp: mask_top_def bit_simps)

lemma mask_top_full [simp]: "LENGTH('a) \<le> n \<Longrightarrow> mask_top n (w :: 'a::len word) = w"
  by (simp add: mask_top_def)

lemma mask_top_eq_iff:
  "mask_top n (v :: 'a::len word) = mask_top n w \<longleftrightarrow>
     (\<forall>i < LENGTH('a). LENGTH('a) - n \<le> i \<longrightarrow> (bit v i \<longleftrightarrow> bit w i))"
  by (auto simp: bit_eq_iff mask_top_def bit_simps)

lemma net_contains_host [simp]: "net_contains (Net4 w 32) a \<longleftrightarrow> to4 a = Some w"
  by (auto simp: net_contains_def split: option.splits)

subsection \<open>Dotted decimal round trip\<close>

lemma of_char_dec [simp]: "n < 10 \<Longrightarrow> of_char (char_of (48 + n :: nat) :: char) = (48 + n :: nat)"
  by simp

lemma is_digit_dec [simp]: "n < 10 \<Longrightarrow> is_digit (char_of (48 + n :: nat))"
  by (simp add: is_digit_def Let_def)

lemma digit_val_dec [simp]: "n < 10 \<Longrightarrow> digit_val (char_of (48 + n :: nat)) = n"
  by (simp add: digit_val_def)

lemma is_digit_not_punct [simp]:
  "\<not> is_digit CHR ''.''" "\<not> is_digit CHR '':''" "\<not> is_digit CHR ''/''" "\<not> is_digit CHR ''%''"
  by (simp_all add: is_digit_def)

lemma nat_to_dec_cases:
  assumes "b < 1000"
  shows "nat_to_dec b =
     (if b < 10 then [char_of (48 + b)]
      else if b < 100 then [char_of (48 + b div 10), char_of (48 + b mod 10)]
      else [char_of (48 + b div 100), char_of (48 + b div 10 mod 10), char_of (48 + b mod 10)])"
proof -
  have "b div 10 div 10 = b div 100" by (simp add: div_mult2_eq [symmetric])
  moreover have "b div 100 < 10" using assms by simp
  moreover have "b div 10 < 10 \<longleftrightarrow> b < 100" by auto
  ultimately show ?thesis
    by (simp add: nat_to_dec.simps [of b] nat_to_dec.simps [of "b div 10"]
        nat_to_dec.simps [of "b div 100"])
qed

lemma ipv4_loop_octet:
  assumes "b < 256"
  shows "\<exists>c. is_digit c \<and> ipv4_loop prev 0 0 fs (nat_to_dec b @ s) = ipv4_loop (Some c) b (length (nat_to_dec b)) fs s"
proof -
  have q: "b div 100 < 10" "b div 10 mod 10 < 10" "b mod 10 < 10" using assms by simp_all
  have "b div 100 = b div 10 div 10" by (simp add: div_mult2_eq [symmetric])
  then have *: "b = b div 10 * 10 + b mod 10" "b div 10 = b div 100 * 10 + b div 10 mod 10"
    by simp_all
  consider "b < 10" | "10 \<le> b" "b < 100" | "100 \<le> b" by linarith
  then show ?thesis
  proof cases
    case 1
    then show ?thesis by (auto simp: nat_to_dec_cases Let_def intro!: exI [of _ "char_of (48 + b)"])
  next
    case 2
    then have "b div 10 < 10" "b div 10 \<noteq> 0" by auto
    with 2 q * show ?thesis
      by (auto simp: nat_to_dec_cases Let_def intro!: exI [of _ "char_of (48 + b mod 10)"])
  next
    case 3
    then have "b div 100 \<noteq> 0" by auto
    moreover have "b div 100 * 10 + b div 10 mod 10 \<le> 255" using * assms by linarith
    moreover have "(b div 100 * 10 + b div 10 mod 10) * 10 + b mod 10 = b" using * by simp
    ultimately show ?thesis using 3 q assms
      by (auto simp: nat_to_dec_cases Let_def intro!: exI [of _ "char_of (48 + b mod 10)"])
  qed
qed

lemma nat_to_dec_nonempty [simp]: "nat_to_dec n \<noteq> []"
  by (subst nat_to_dec.simps) simp

lemma ipv4_loop_dot:
  assumes "b < 256" "s \<noteq> []" "length fs < 3"
  shows "ipv4_loop prev 0 0 fs (nat_to_dec b @ CHR ''.'' # s) = ipv4_loop (Some CHR ''.'') 0 0 (fs @ [b]) s"
proof -
  obtain c where "is_digit c" and
    "ipv4_loop prev 0 0 fs (nat_to_dec b @ CHR ''.'' # s) =
       ipv4_loop (Some c) b (length (nat_to_dec b)) fs (CHR ''.'' # s)"
    using ipv4_loop_octet [OF assms(1)] by blast
  then show ?thesis using assms by (auto simp: is_digit_def)
qed

lemma ipv4_loop_last:
  assumes "b < 256" "length fs = 3"
  shows "ipv4_loop prev 0 0 fs (nat_to_dec b) = Some (fs @ [b])"
proof -
  obtain c where "ipv4_loop prev 0 0 fs (nat_to_dec b @ []) =
       ipv4_loop (Some c) b (length (nat_to_dec b)) fs []"
    using ipv4_loop_octet [OF assms(1)] by blast
  then show ?thesis using assms by simp
qed

lemma octet_less [simp]: "octet i w < 256"
  by (simp add: octet_def nat_less_iff)

lemma ipv4_fields_v4_string:
  "ipv4_fields (v4_string w) = Some [octet 3 w, octet 2 w, octet 1 w, octet 0 w]"
  by (simp add: ipv4_fields_def v4_string_def ipv4_loop_dot ipv4_loop_last)

lemma base256_digits:
  fixes x :: int
  assumes "0 \<le> x" "x < 2 ^ 32"
  shows "((x div 256 ^ 3 mod 256 * 256 + x div 256 ^ 2 mod 256) * 256 + x div 256 mod 256) * 256 + x mod 256 = x"
proof -
  define y z u where "y = x div 256" and "z = y div 256" and "u = z div 256"
  have 1: "x div 256 ^ 2 = z" "x div 256 ^ 3 = u"
    by (simp_all add: y_def z_def u_def zdiv_zmult2_eq [symmetric])
  have 2: "u mod 256 = u"
    using assms by (simp add: u_def z_def y_def zdiv_zmult2_eq [symmetric])
  have "y * 256 + x mod 256 = x" "z * 256 + y mod 256 = y" "u * 256 + z mod 256 = z"
    by (simp_all add: y_def z_def u_def)
  then have "((u * 256 + z mod 256) * 256 + y mod 256) * 256 + x mod 256 = x"
    by (simp only:)
  then show ?thesis unfolding 1 2 y_def [symmetric] .
qed

lemma int_octet: "int (octet i w) = uint w div 256 ^ i mod 256"
  by (simp add: octet_def)

lemma bytes_value_octets:
  "bytes_value [octet 3 w, octet 2 w, octet 1 w, octet 0 w] = uint (w :: 32 word)"
proof -
  have "uint w < 2 ^ 32" using uint_bounded [of w] by simp
  from base256_digits [OF _ this] show ?thesis
    by (simp only: bytes_value_def foldl.simps int_octet power_0 power_one_right div_by_1
        uint_ge_0 mult_zero_left add_0)
qed

lemma nat_to_dec_digits: "c \<in> set (nat_to_dec n) \<Longrightarrow> is_digit c"
  by (induction n rule: nat_to_dec.induct)
     (subst (asm) nat_to_dec.simps, auto split: if_splits)

lemma v4_string_chars: "c \<in> set (v4_string w) \<Longrightarrow> is_digit c \<or> c = CHR ''.''"
  by (auto simp: v4_string_def dest: nat_to_dec_digits)

lemma find_dot_v4_string:
  "find (\<lambda>c. c = CHR ''.'' \<or> c = CHR '':'') (v4_string w) = Some CHR ''.''"
proof -
  have skip: "find (\<lambda>c. c = CHR ''.'' \<or> c = CHR '':'') (ds @ CHR ''.'' # s) = Some CHR ''.''"
    if "\<forall>c \<in> set ds. is_digit c" for ds s
    using that by (induction ds) auto
  show ?thesis
    by (simp add: v4_string_def) (rule skip, blast dest: nat_to_dec_digits)
qed

lemma parse_addr_v4_string [simp]: "parse_addr (v4_string w) = Some (Addr4 w)"
proof -
  have "CHR ''%'' \<notin> set (v4_string w)"
    using v4_string_chars [of "CHR ''%''" w] by auto
  then show ?thesis
    by (simp add: parse_addr_def find_dot_v4_string ipv4_fields_v4_string
        bytes_value_octets [unfolded One_nat_def])
qed

lemma parse_ip_v4_string [simp]: "parse_ip (v4_string w) = Some (v4_mapped w)"
  by (simp add: parse_ip_def)

lemma dtoi_loop_dec:
  "n * 10 + b < 0xFFFFFF \<Longrightarrow> b < 10 \<Longrightarrow> dtoi_loop n (char_of (48 + b) # s) = dtoi_loop (n * 10 + b) s"
  by (simp add: Let_def)

lemma dtoi_all_dec: "n < 1000 \<Longrightarrow> dtoi_all (nat_to_dec n) = Some n"
proof -
  assume n: "n < 1000"
  have "n div 100 = n div 10 div 10" by (simp add: div_mult2_eq [symmetric])
  then have 3: "(n div 100 * 10 + n div 10 mod 10) * 10 + n mod 10 = n" by simp
  have 2: "n div 10 * 10 + n mod 10 = n" by simp
  have q: "n div 100 < 10" "n < 100 \<Longrightarrow> n div 10 < 10" using n by auto
  show ?thesis
    using n q 2 3 by (auto simp: dtoi_all_def nat_to_dec_cases dtoi_loop_dec simp del: dtoi_loop.simps(2))
qed

lemma index_byte_append: "d \<notin> set xs \<Longrightarrow> index_byte (xs @ d # ys) d = Some (length xs)"
  by (induction xs) auto

lemma parse_cidr_v4:
  assumes "n \<le> 32"
  shows "parse_cidr (v4_string w @ ''/'' @ nat_to_dec n) = Some (Net4 (mask_top n w) n)"
proof -
  have "CHR ''/'' \<notin> set (v4_string w)"
    using v4_string_chars [of "CHR ''/''" w] by auto
  then have "index_byte (v4_string w @ ''/'' @ nat_to_dec n) CHR ''/'' = Some (length (v4_string w))"
    by (simp add: index_byte_append)
  with assms show ?thesis by (simp add: parse_cidr_def dtoi_all_dec)
qed

text \<open>The canonical text of an IPv4 network denotes that network again.\<close>

lemma parse_cidr_ipnet_string:
  "n \<le> 32 \<Longrightarrow> parse_cidr (ipnet_string (Net4 (mask_top n w) n)) = Some (Net4 (mask_top n w) n)"
  using parse_cidr_v4 [of n "mask_top n w"] by simp

end
