(* ===== verification/Database.thy ===== *)
theory Database
  imports Prelude
begin

text \<open>
  What every Postgres-backed store shares. PostgreSQL itself is not part of the repository: the
  state a store works on carries the server's clock (\<^verbatim>\<open>now()\<close>, and \<^verbatim>\<open>time.Now()\<close> of the
  caller), the supply of generated identifiers and the outcome of the next statements. A
  statement takes the next outcome: \<open>True\<close> is a failed statement, which changes nothing; an
  exhausted list means success, so a run without faults is \<open>db_faults = []\<close>.
\<close>

record db =
  db_faults :: "bool list"
  db_clock :: gotime
  db_uuid :: "nat \<Rightarrow> string"
  db_seq :: nat

definition query :: "'z db_scheme \<Rightarrow> bool \<times> 'z db_scheme" where
  "query w = (case db_faults w of [] \<Rightarrow> (False, w) | b # bs \<Rightarrow> (b, w\<lparr>db_faults := bs\<rparr>))"

text \<open>\<^verbatim>\<open>DEFAULT gen_random_uuid()\<close>: the next identifier of the supply.\<close>

definition fresh_id :: "'z db_scheme \<Rightarrow> string \<times> 'z db_scheme" where
  "fresh_id w = (db_uuid w (db_seq w), w\<lparr>db_seq := Suc (db_seq w)\<rparr>)"

text \<open>\<^verbatim>\<open>strOrNil\<close> and \<^verbatim>\<open>COALESCE(x, '')\<close>: an empty string is stored as NULL and read back empty.\<close>

definition strOrNil :: "string \<Rightarrow> string option" where
  "strOrNil s = (if s = [] then None else Some s)"

definition coalesce_str :: "string option \<Rightarrow> string" where
  "coalesce_str x = (case x of None \<Rightarrow> [] | Some s \<Rightarrow> s)"

lemma coalesce_strOrNil [simp]: "coalesce_str (strOrNil s) = s"
  by (simp add: coalesce_str_def strOrNil_def)

text \<open>Columns declared \<^verbatim>\<open>integer\<close> hold 32 bits; the driver refuses other values.\<close>

definition int4_ok :: "int \<Rightarrow> bool" where
  "int4_ok n = (- (2 ^ 31) \<le> n \<and> n < 2 ^ 31)"

text \<open>The tenant every table names as the default of its \<^verbatim>\<open>tenant_id\<close> column.\<close>

definition DefaultTenantID :: string where "DefaultTenantID = ''00000000-0000-0000-0000-000000000001''"

definition used_ids :: "'z db_scheme \<Rightarrow> string set" where
  "used_ids w = db_uuid w ` {..< db_seq w}"

lemma query_cases:
  obtains (ok) w' where "query w = (False, w')" | (fault) w' where "query w = (True, w')"
  by (cases "query w") (auto)

lemma query_frame [simp]:
  assumes "query w = (b, w')"
  shows "db_clock w' = db_clock w" "db_uuid w' = db_uuid w" "db_seq w' = db_seq w"
    "db.more w' = db.more w" "used_ids w' = used_ids w"
  using assms by (auto simp: query_def used_ids_def split: list.splits)

lemma query_no_faults [simp]: "db_faults w = [] \<Longrightarrow> query w = (False, w)"
  by (simp add: query_def)

lemma fresh_id_not_used:
  assumes "inj (db_uuid w)"
  shows "db_uuid w (db_seq w) \<notin> used_ids w"
  using assms by (auto simp: used_ids_def inj_def)

end
