(* ===== verification/Whitelist.thy ===== *)
theory Whitelist
  imports Go_Net Database
begin

text \<open>
  The trusted-address list of \<^verbatim>\<open>internal/respond/whitelist.go\<close>: normalisation of an entry, the
  membership test the ban engine, the containment engine and the trusted-session gate share, and
  the \<^verbatim>\<open>ip_whitelist\<close> table with its operations.

  \<^verbatim>\<open>$1::cidr\<close> and \<^verbatim>\<open>cidr::text\<close> are PostgreSQL's: \<open>wl_cidr_in\<close> is the text the server
  gives back for a value it accepted, and \<open>None\<close> when it rejects it.
\<close>

record whitelist_entry =
  wl_ID :: string
  wl_CIDR :: string
  wl_Note :: string
  wl_Kind :: string
  wl_CreatedAt :: gotime

record wl_db = db +
  wl_rows :: "whitelist_entry list"
  wl_cidr_in :: "string \<Rightarrow> string option"

datatype wl_error = WlEmpty | WlInvalid string | WlDb | WlNotFound

definition validKind :: "string \<Rightarrow> string" where
  "validKind k = (if trim_space (to_lower k) = ''external'' then ''external'' else ''internal'')"

definition NormalizeCIDR :: "string \<Rightarrow> wl_error + string" where
  "NormalizeCIDR s0 =
     (let s = trim_space s0
      in if s = [] then Inl WlEmpty
         else case parse_cidr s of
           Some nt \<Rightarrow> Inr (ipnet_string nt)
         | None \<Rightarrow>
             (case parse_ip s of
                None \<Rightarrow> Inl (WlInvalid s)
              | Some a \<Rightarrow>
                  if to4 a \<noteq> None then Inr (ip_string a @ ''/32'') else Inr (ip_string a @ ''/128'')))"

text \<open>\<^verbatim>\<open>ipInNets\<close>; a nil network is skipped.\<close>

definition ipInNets :: "string \<Rightarrow> ipnet option list \<Rightarrow> bool" where
  "ipInNets s nets =
     (case parse_ip s of
        None \<Rightarrow> False
      | Some a \<Rightarrow> list_ex (\<lambda>n. case n of None \<Rightarrow> False | Some nt \<Rightarrow> net_contains nt a) nets)"

text \<open>\<^verbatim>\<open>ORDER BY created_at DESC\<close>.\<close>

definition ListWhitelist :: "wl_db \<Rightarrow> (wl_error + whitelist_entry list) \<times> wl_db" where
  "ListWhitelist w =
     (case query w of
        (True, w') \<Rightarrow> (Inl WlDb, w')
      | (False, w') \<Rightarrow> (Inr (sort_key (\<lambda>e. - wl_CreatedAt e) (wl_rows w')), w'))"

text \<open>
  \<^verbatim>\<open>AddWhitelist\<close>: one \<^verbatim>\<open>INSERT ... ON CONFLICT (cidr) DO UPDATE ... RETURNING\<close>.
\<close>

definition AddWhitelist ::
    "string \<Rightarrow> string \<Rightarrow> string \<Rightarrow> wl_db \<Rightarrow> (wl_error + whitelist_entry) \<times> wl_db" where
  "AddWhitelist cidr note kind w =
     (case NormalizeCIDR cidr of
        Inl e \<Rightarrow> (Inl e, w)
      | Inr norm \<Rightarrow>
          (case query w of
             (True, w') \<Rightarrow> (Inl WlDb, w')
           | (False, w') \<Rightarrow>
               (case wl_cidr_in w' norm of
                  None \<Rightarrow> (Inl WlDb, w')
                | Some c \<Rightarrow>
                    (case find (\<lambda>e. wl_CIDR e = c) (wl_rows w') of
                       Some e \<Rightarrow>
                         let e' = e\<lparr>wl_Note := note, wl_Kind := validKind kind\<rparr>
                         in (Inr e', w'\<lparr>wl_rows := map (\<lambda>r. if wl_CIDR r = c
                                then r\<lparr>wl_Note := note, wl_Kind := validKind kind\<rparr> else r) (wl_rows w')\<rparr>)
                     | None \<Rightarrow>
                         let (i, w'') = fresh_id w';
                             e = \<lparr>wl_ID = i, wl_CIDR = c, wl_Note = note, wl_Kind = validKind kind,
                                  wl_CreatedAt = db_clock w'\<rparr>
                         in (Inr e, w''\<lparr>wl_rows := wl_rows w'' @ [e]\<rparr>)))))"

definition DeleteWhitelist :: "string \<Rightarrow> wl_db \<Rightarrow> (wl_error + unit) \<times> wl_db" where
  "DeleteWhitelist i w =
     (case query w of
        (True, w') \<Rightarrow> (Inl WlDb, w')
      | (False, w') \<Rightarrow>
          if count_rows (\<lambda>e. wl_ID e = i) (wl_rows w') = 0 then (Inl WlNotFound, w')
          else (Inr (), w'\<lparr>wl_rows := filter (\<lambda>e. wl_ID e \<noteq> i) (wl_rows w')\<rparr>))"

definition nets_of :: "whitelist_entry list \<Rightarrow> ipnet option list" where
  "nets_of es = map Some (List.map_filter (\<lambda>e. parse_cidr (wl_CIDR e)) es)"

definition WhitelistNets :: "wl_db \<Rightarrow> (wl_error + ipnet option list) \<times> wl_db" where
  "WhitelistNets w =
     (case ListWhitelist w of
        (Inl e, w') \<Rightarrow> (Inl e, w')
      | (Inr es, w') \<Rightarrow> (Inr (nets_of es), w'))"

definition WhitelistInternalNets :: "wl_db \<Rightarrow> (wl_error + ipnet option list) \<times> wl_db" where
  "WhitelistInternalNets w =
     (case ListWhitelist w of
        (Inl e, w') \<Rightarrow> (Inl e, w')
      | (Inr es, w') \<Rightarrow> (Inr (nets_of (filter (\<lambda>e. wl_Kind e = ''internal'') es)), w'))"

section \<open>Facts\<close>

lemma ipInNets_iff:
  "ipInNets s nets \<longleftrightarrow> (\<exists>a nt. parse_ip s = Some a \<and> Some nt \<in> set nets \<and> net_contains nt a)"
  by (cases "parse_ip s") (force simp: ipInNets_def list_ex_iff split: option.splits)+

lemma ipInNets_mono: "set ns \<subseteq> set ms \<Longrightarrow> ipInNets s ns \<Longrightarrow> ipInNets s ms"
  by (auto simp: ipInNets_iff)

lemma set_nets_of: "Some nt \<in> set (nets_of es) \<longleftrightarrow> (\<exists>e \<in> set es. parse_cidr (wl_CIDR e) = Some nt)"
  by (force simp: nets_of_def map_filter_def)

lemma validKind_range: "validKind k = ''internal'' \<or> validKind k = ''external''"
  by (simp add: validKind_def)

text \<open>The table invariant: one row per network, and only the two kinds.\<close>

definition wl_inv :: "wl_db \<Rightarrow> bool" where
  "wl_inv w = (distinct (map wl_CIDR (wl_rows w)) \<and>
     (\<forall>e \<in> set (wl_rows w). wl_Kind e = ''internal'' \<or> wl_Kind e = ''external''))"

lemma query_wl [simp]:
  assumes "query w = (b, w')"
  shows "wl_rows w' = wl_rows w" "wl_cidr_in w' = wl_cidr_in w"
  using assms by (auto simp: query_def split: list.splits)

lemma wl_inv_delete: "wl_inv w \<Longrightarrow> DeleteWhitelist i w = (r, w') \<Longrightarrow> wl_inv w'"
  by (auto simp: DeleteWhitelist_def wl_inv_def distinct_map_filter split: prod.splits bool.splits if_splits)

lemma AddWhitelist_ok:
  assumes "AddWhitelist cidr note kind w = (Inr e, w')"
  obtains norm c where "NormalizeCIDR cidr = Inr norm" "wl_cidr_in w norm = Some c"
    "find (\<lambda>e. wl_CIDR e = c) (wl_rows w) = None \<Longrightarrow> wl_CIDR e = c \<and> wl_Kind e = validKind kind \<and>
       wl_rows w' = wl_rows w @ [e]"
    "find (\<lambda>e. wl_CIDR e = c) (wl_rows w) \<noteq> None \<Longrightarrow>
       wl_rows w' = map (\<lambda>r. if wl_CIDR r = c then r\<lparr>wl_Note := note, wl_Kind := validKind kind\<rparr> else r) (wl_rows w)"
proof -
  obtain b w1 where q: "query w = (b, w1)" by (cases "query w")
  with assms obtain norm c where nc: "NormalizeCIDR cidr = Inr norm" "\<not> b" "wl_cidr_in w norm = Some c"
    by (auto simp: AddWhitelist_def split: sum.splits bool.splits option.splits)
  show thesis
  proof (rule that [OF nc(1) nc(3)])
    assume "find (\<lambda>e. wl_CIDR e = c) (wl_rows w) = None"
    with assms q nc show "wl_CIDR e = c \<and> wl_Kind e = validKind kind \<and> wl_rows w' = wl_rows w @ [e]"
      by (auto simp: AddWhitelist_def Let_def fresh_id_def)
  next
    assume "find (\<lambda>e. wl_CIDR e = c) (wl_rows w) \<noteq> None"
    with assms q nc show "wl_rows w' =
       map (\<lambda>r. if wl_CIDR r = c then r\<lparr>wl_Note := note, wl_Kind := validKind kind\<rparr> else r) (wl_rows w)"
      by (auto simp: AddWhitelist_def Let_def)
  qed
qed

lemma AddWhitelist_error:
  "AddWhitelist cidr note kind w = (Inl err, w') \<Longrightarrow> wl_rows w' = wl_rows w"
  by (auto simp: AddWhitelist_def Let_def split: sum.splits prod.splits bool.splits option.splits)

lemma wl_inv_add:
  assumes inv: "wl_inv w" and add: "AddWhitelist cidr note kind w = (r, w')"
  shows "wl_inv w'"
proof (cases r)
  case (Inl err)
  with AddWhitelist_error add inv show ?thesis by (auto simp: wl_inv_def)
next
  case (Inr e)
  with add have ok: "AddWhitelist cidr note kind w = (Inr e, w')" by simp
  from ok show ?thesis
  proof (cases rule: AddWhitelist_ok)
    case (1 norm c)
    show ?thesis
    proof (cases "find (\<lambda>e. wl_CIDR e = c) (wl_rows w)")
      case None
      then have "c \<notin> wl_CIDR ` set (wl_rows w)" by (auto simp: find_None_iff)
      with None 1(3) inv validKind_range [of kind] show ?thesis
        by (auto simp: wl_inv_def)
    next
      case (Some y)
      then have rows: "wl_rows w' = map (\<lambda>r. if wl_CIDR r = c
          then r\<lparr>wl_Note := note, wl_Kind := validKind kind\<rparr> else r) (wl_rows w)" using 1(4) by simp
      then have "map wl_CIDR (wl_rows w') = map wl_CIDR (wl_rows w)" by simp
      then have "distinct (map wl_CIDR (wl_rows w'))" using inv by (simp only: wl_inv_def)
      moreover have "wl_Kind x = ''internal'' \<or> wl_Kind x = ''external''" if "x \<in> set (wl_rows w')" for x
        using that rows inv validKind_range [of kind] by (auto simp: wl_inv_def)
      ultimately show ?thesis unfolding wl_inv_def by blast
    qed
  qed
qed

text \<open>The nets the engine loads are those of the rows, and the internal ones are among them.\<close>

lemma WhitelistNets_Inr:
  "WhitelistNets w = (Inr nets, w') \<Longrightarrow>
     wl_rows w' = wl_rows w \<and>
     (\<forall>nt. Some nt \<in> set nets \<longleftrightarrow> (\<exists>e \<in> set (wl_rows w). parse_cidr (wl_CIDR e) = Some nt))"
  by (auto simp: WhitelistNets_def ListWhitelist_def set_nets_of split: prod.splits bool.splits sum.splits)

lemma WhitelistInternalNets_Inr:
  "WhitelistInternalNets w = (Inr nets, w') \<Longrightarrow>
     Some nt \<in> set nets \<longleftrightarrow>
       (\<exists>e \<in> set (wl_rows w). wl_Kind e = ''internal'' \<and> parse_cidr (wl_CIDR e) = Some nt)"
  by (auto simp: WhitelistInternalNets_def ListWhitelist_def set_nets_of
      split: prod.splits bool.splits sum.splits)

lemma trim_v4_string [simp]: "trim_space (v4_string a) = v4_string a"
proof -
  have nsp: "c \<in> set (v4_string a) \<Longrightarrow> \<not> is_space c" for c
    using v4_string_chars [of c a] by (auto simp: is_digit_def is_space_def Let_def)
  have "dropWhile is_space xs = xs" if "\<forall>c \<in> set xs. \<not> is_space c" for xs
    using that by (cases xs) auto
  from this [of "v4_string a"] this [of "rev (v4_string a)"] nsp show ?thesis
    by (simp add: trim_space_def)
qed

lemma v4_string_nonempty [simp]: "v4_string a \<noteq> []"
  by (simp add: v4_string_def)

lemma parse_cidr_bare [simp]: "parse_cidr (v4_string a) = None"
proof -
  have "CHR ''/'' \<notin> set (v4_string a)"
    using v4_string_chars [of "CHR ''/''" a] by auto
  then show ?thesis by (simp add: parse_cidr_def index_byte_None [THEN iffD2])
qed

lemma NormalizeCIDR_v4: "NormalizeCIDR (v4_string a) = Inr (v4_string a @ ''/32'')"
  by (simp add: NormalizeCIDR_def ip_string_def)

lemma parse_cidr_32: "parse_cidr (v4_string a @ ''/32'') = Some (Net4 a 32)"
proof -
  have "nat_to_dec 32 = ''32''" by code_simp
  with parse_cidr_v4 [of 32 a] show ?thesis by simp
qed

text \<open>
  An IPv4 address that was added to the whitelist, in whatever state the table was, is found by
  the membership test on the list the engines reload afterwards.
\<close>

theorem added_is_whitelisted:
  assumes add: "AddWhitelist (v4_string a) note kind w = (Inr e, w')"
    and cast: "wl_cidr_in w (v4_string a @ ''/32'') = Some (v4_string a @ ''/32'')"
    and load: "WhitelistNets w' = (Inr nets, w'')"
  shows "ipInNets (v4_string a) nets"
proof -
  let ?c = "v4_string a @ ''/32''"
  from add have "\<exists>r \<in> set (wl_rows w'). wl_CIDR r = ?c"
  proof (cases rule: AddWhitelist_ok)
    case (1 norm c)
    then have "norm = ?c" by (simp add: NormalizeCIDR_v4)
    with 1(2) cast have c: "c = ?c" by simp
    show ?thesis
    proof (cases "find (\<lambda>e. wl_CIDR e = c) (wl_rows w)")
      case None
      with 1(3) c show ?thesis by simp
    next
      case (Some r)
      then have "r \<in> set (wl_rows w)" "wl_CIDR r = c" by (auto simp: find_Some_iff)
      moreover have "wl_rows w' = map (\<lambda>r. if wl_CIDR r = c
          then r\<lparr>wl_Note := note, wl_Kind := validKind kind\<rparr> else r) (wl_rows w)"
        using Some 1(4) by simp
      ultimately have "r\<lparr>wl_Note := note, wl_Kind := validKind kind\<rparr> \<in> set (wl_rows w')" by force
      then show ?thesis using \<open>wl_CIDR r = c\<close> c by (intro bexI) simp_all
    qed
  qed
  then obtain r where "r \<in> set (wl_rows w')" "parse_cidr (wl_CIDR r) = Some (Net4 a 32)"
    using parse_cidr_32 by auto
  with WhitelistNets_Inr [OF load] have "Some (Net4 a 32) \<in> set nets" by blast
  then show ?thesis
    unfolding ipInNets_iff by (intro exI [of _ "v4_mapped a"] exI [of _ "Net4 a 32"]) simp
qed

definition demo_wl :: wl_db where
  "demo_wl = \<lparr>db_faults = [], db_clock = 0, db_uuid = (\<lambda>n. replicate n CHR ''w''), db_seq = 0,
     wl_rows = [], wl_cidr_in = Some\<rparr>"

definition demo_entry :: whitelist_entry where
  "demo_entry = \<lparr>wl_ID = [], wl_CIDR = v4_string 0x0A000001 @ ''/32'', wl_Note = [], wl_Kind = ''internal'',
     wl_CreatedAt = 0\<rparr>"

definition demo_wl1 :: wl_db where
  "demo_wl1 = demo_wl\<lparr>db_seq := 1, wl_rows := [demo_entry]\<rparr>"

lemma demo_wl_added: "AddWhitelist (v4_string 0x0A000001) [] [] demo_wl = (Inr demo_entry, demo_wl1)"
  by (simp add: AddWhitelist_def NormalizeCIDR_v4 demo_wl_def demo_wl1_def demo_entry_def fresh_id_def
      validKind_def Let_def)

lemma demo_wl_nets:
  "WhitelistNets demo_wl1 = (Inr (nets_of [demo_entry]), demo_wl1)"
  "WhitelistInternalNets demo_wl1 = (Inr (nets_of [demo_entry]), demo_wl1)"
  by (simp_all add: WhitelistNets_def WhitelistInternalNets_def ListWhitelist_def demo_wl_def demo_wl1_def
      demo_entry_def)

theorem added_is_whitelisted_witness: "ipInNets (v4_string 0x0A000001) (nets_of [demo_entry])"
  using added_is_whitelisted [OF demo_wl_added _ demo_wl_nets(1)] by (simp add: demo_wl_def)

section \<open>Reachable tables\<close>

text \<open>The tables an administrator can produce from an empty one, in any order and with any faults.\<close>

inductive wl_reach :: "wl_db \<Rightarrow> bool" where
  wl_empty: "wl_rows w = [] \<Longrightarrow> wl_reach w"
| wl_add: "wl_reach w \<Longrightarrow> AddWhitelist cidr msg kind w = (r, w') \<Longrightarrow> wl_reach w'"
| wl_delete: "wl_reach w \<Longrightarrow> DeleteWhitelist uid w = (rd, w') \<Longrightarrow> wl_reach w'"
| wl_world: "wl_reach w \<Longrightarrow> wl_reach (w\<lparr>db_clock := t, db_faults := fs\<rparr>)"

lemma wl_reach_inv: "wl_reach w \<Longrightarrow> wl_inv w"
proof (induction rule: wl_reach.induct)
  case (wl_empty w)
  then show ?case by (simp add: wl_inv_def)
next
  case (wl_add w cidr msg kind r w')
  then show ?case using wl_inv_add by blast
next
  case (wl_delete w uid rd w')
  then show ?case using wl_inv_delete by blast
next
  case (wl_world w t fs)
  have "wl_rows (w\<lparr>db_clock := t, db_faults := fs\<rparr>) = wl_rows w" for t fs by simp
  with wl_world show ?case unfolding wl_inv_def by simp
qed

text \<open>
  Every table reached by adding and deleting entries has at most one row per network and only
  the kinds internal and external, so the networks the trusted-session gate loads are always a
  subset of those that exempt an address from a ban.
\<close>

theorem wl_reach_tables:
  assumes "wl_reach w" "WhitelistNets w = (Inr nets, w1)" "WhitelistInternalNets w = (Inr inner, w2)"
  shows "distinct (map wl_CIDR (wl_rows w)) \<and>
    (\<forall>e \<in> set (wl_rows w). wl_Kind e \<in> {''internal'', ''external''}) \<and>
    (\<forall>s. ipInNets s inner \<longrightarrow> ipInNets s nets)"
proof -
  have "wl_inv w" using assms(1) by (rule wl_reach_inv)
  moreover have "ipInNets s nets" if "ipInNets s inner" for s
    using that WhitelistNets_Inr [OF assms(2)] WhitelistInternalNets_Inr [OF assms(3)]
    unfolding ipInNets_iff by blast
  ultimately show ?thesis by (auto simp: wl_inv_def)
qed

theorem wl_reach_tables_witness:
  "distinct (map wl_CIDR (wl_rows demo_wl1)) \<and> wl_Kind (hd (wl_rows demo_wl1)) \<in> {''internal'', ''external''}"
proof -
  have "wl_reach demo_wl" by (rule wl_empty) (simp add: demo_wl_def)
  then have "wl_reach demo_wl1" using demo_wl_added by (rule wl_add)
  from wl_reach_tables [OF this demo_wl_nets]
  have "distinct (map wl_CIDR (wl_rows demo_wl1))"
    "\<forall>e \<in> set (wl_rows demo_wl1). wl_Kind e \<in> {''internal'', ''external''}" by blast+
  then show ?thesis by (simp add: demo_wl1_def)
qed

end
