(* ===== verification/Action_Store.thy ===== *)
theory Action_Store
  imports Go_Net Database
begin

text \<open>
  Response actions and their store, from \<^verbatim>\<open>internal/respond/respond.go\<close>,
  \<^verbatim>\<open>internal/respond/engine.go\<close> (the \<^verbatim>\<open>ActionStore\<close> interface) and
  \<^verbatim>\<open>internal/respond/store.go\<close> (the \<^verbatim>\<open>response_actions\<close> table).

  A Go interface is a record of functions, so the engine is written against any store and any
  firewall backend, as in the source. \<open>pg_store\<close> is the Postgres implementation: each SQL
  statement is a function on the list of rows, with the columns' NULLs, and with PostgreSQL's
  \<^verbatim>\<open>inet\<close> type left open (\<open>ra_inet_in\<close> is the cast \<^verbatim>\<open>$1::inet\<close>, \<open>ra_inet_host\<close> is
  \<^verbatim>\<open>host()\<close>). The contract the engine relies on, and the proof
  that \<open>pg_store\<close> keeps it, are in \<^verbatim>\<open>Action_Log\<close>.
\<close>

section \<open>Actions\<close>

datatype status = Recommended | Approved | Executed | Dismissed | Failed | Unbanned

record action =
  a_ID :: string
  a_CreatedAt :: gotime
  a_SourceIP :: string
  a_AgentID :: string
  a_ActionType :: string
  a_Reason :: string
  a_RuleID :: string
  a_BanSeconds :: int
  a_OffenseCount :: int
  a_Source :: string
  a_Status :: status
  a_Responder :: string
  a_DecidedBy :: string
  a_DecidedAt :: "gotime option"
  a_ExecutedAt :: "gotime option"
  a_Error :: string

definition BanDuration :: "action \<Rightarrow> duration" where
  "BanDuration a = wrap64 (a_BanSeconds a * second)"

datatype resp_error =
    ErrDb
  | ErrNotFound
  | ErrStatus status
  | ErrNoResponder
  | ErrInvalidIP string
  | ErrWhitelisted string
  | ErrOpen string
  | ErrNotLifted string
  | ErrBackend string

text \<open>The message of \<^verbatim>\<open>errNoResponder\<close>; a backend's error is its message.\<close>

definition errNoResponder :: string where
  "errNoResponder = ''respond: no responder configured (RESPONDER=none)''"

record 'w action_store =
  st_Insert :: "action \<Rightarrow> 'w \<Rightarrow> (resp_error + string) \<times> 'w"
  st_Offenses :: "string \<Rightarrow> gotime option \<Rightarrow> 'w \<Rightarrow> (resp_error + int) \<times> 'w"
  st_HasOpenAction :: "string \<Rightarrow> 'w \<Rightarrow> (resp_error + bool) \<times> 'w"
  st_AppendReason :: "string \<Rightarrow> string \<Rightarrow> 'w \<Rightarrow> (resp_error + unit) \<times> 'w"
  st_Get :: "string \<Rightarrow> 'w \<Rightarrow> (resp_error + action) \<times> 'w"
  st_SetStatus :: "string \<Rightarrow> status \<Rightarrow> string \<Rightarrow> 'w \<Rightarrow> (resp_error + unit) \<times> 'w"
  st_SetExecuted :: "string \<Rightarrow> string \<Rightarrow> string option \<Rightarrow> 'w \<Rightarrow> (resp_error + unit) \<times> 'w"
  st_UnbanIP :: "string \<Rightarrow> string \<Rightarrow> 'w \<Rightarrow> (resp_error + int) \<times> 'w"

record 'w responder =
  rs_Name :: string
  rs_Block :: "string \<Rightarrow> duration \<Rightarrow> 'w \<Rightarrow> string option \<times> 'w"
  rs_Unblock :: "string \<Rightarrow> 'w \<Rightarrow> string option \<times> 'w"

section \<open>The table and its statements\<close>

record 'i action_row =
  r_id :: string
  r_created_at :: gotime
  r_source_ip :: 'i
  r_action :: string
  r_reason :: "string option"
  r_rule_id :: "string option"
  r_ban_seconds :: int
  r_offense_count :: int
  r_source :: string
  r_status :: status
  r_responder :: "string option"
  r_decided_by :: "string option"
  r_decided_at :: "gotime option"
  r_executed_at :: "gotime option"
  r_error :: "string option"
  r_agent_id :: "string option"

record ('i, 'f) resp_db = db +
  ra_rows :: "'i action_row list"
  ra_inet_in :: "string \<Rightarrow> 'i option"
  ra_inet_host :: "'i \<Rightarrow> string"
  ra_fw :: 'f

text \<open>\<^verbatim>\<open>COALESCE(executed_at, decided_at, created_at)\<close> and the expiry test built on it.\<close>

definition row_anchor :: "'i action_row \<Rightarrow> gotime" where
  "row_anchor r =
     (case r_executed_at r of
        Some t \<Rightarrow> t
      | None \<Rightarrow> (case r_decided_at r of Some t \<Rightarrow> t | None \<Rightarrow> r_created_at r))"

definition row_unexpired :: "gotime \<Rightarrow> 'i action_row \<Rightarrow> bool" where
  "row_unexpired now r = (r_ban_seconds r = 0 \<or> row_anchor r + r_ban_seconds r * second > now)"

definition row_open :: "gotime \<Rightarrow> 'i action_row \<Rightarrow> bool" where
  "row_open now r =
     (r_status r = Recommended \<or>
      ((r_status r = Approved \<or> r_status r = Executed) \<and> row_unexpired now r))"

text \<open>\<^verbatim>\<open>string_to_array(reason, ', ')\<close> and \<^verbatim>\<open>trim\<close>, which removes spaces only.\<close>

fun split_reasons :: "string \<Rightarrow> string list" where
  "split_reasons [] = [[]]"
| "split_reasons [c] = [[c]]"
| "split_reasons (c # d # s) =
     (if c = CHR '','' \<and> d = CHR '' '' then [] # split_reasons s
      else (case split_reasons (d # s) of [] \<Rightarrow> [[c]] | x # xs \<Rightarrow> (c # x) # xs))"

definition pg_trim :: "string \<Rightarrow> string" where
  "pg_trim s = rev (dropWhile (\<lambda>c. c = CHR '' '') (rev (dropWhile (\<lambda>c. c = CHR '' '') s)))"

definition merge_reason :: "string option \<Rightarrow> string \<Rightarrow> string option" where
  "merge_reason old new =
     (case old of
        None \<Rightarrow> Some new
      | Some r \<Rightarrow>
          if r = [] then Some new
          else if to_lower new \<in> set (map (\<lambda>x. to_lower (pg_trim x)) (split_reasons r)) then Some r
          else Some (r @ '', '' @ new))"

definition pg_Insert :: "action \<Rightarrow> ('i, 'f) resp_db \<Rightarrow> (resp_error + string) \<times> ('i, 'f) resp_db" where
  "pg_Insert a w =
     (case query w of
        (True, w1) \<Rightarrow> (Inl ErrDb, w1)
      | (False, w1) \<Rightarrow>
          (case ra_inet_in w1 (a_SourceIP a) of
             None \<Rightarrow> (Inl ErrDb, w1)
           | Some i \<Rightarrow>
               if \<not> int4_ok (a_BanSeconds a) \<or> \<not> int4_ok (a_OffenseCount a) then (Inl ErrDb, w1)
               else let (uid, w2) = fresh_id w1;
                        r = \<lparr>r_id = uid, r_created_at = db_clock w1, r_source_ip = i,
                             r_action = a_ActionType a, r_reason = strOrNil (a_Reason a),
                             r_rule_id = strOrNil (a_RuleID a), r_ban_seconds = a_BanSeconds a,
                             r_offense_count = a_OffenseCount a, r_source = a_Source a,
                             r_status = a_Status a, r_responder = None, r_decided_by = None,
                             r_decided_at = None, r_executed_at = None, r_error = None,
                             r_agent_id = strOrNil (a_AgentID a)\<rparr>
                    in (Inr uid, w2\<lparr>ra_rows := ra_rows w2 @ [r]\<rparr>)))"

text \<open>A statement over the rows of one address: the cast of the argument can fail it.\<close>

definition pg_for_ip ::
    "string \<Rightarrow> ('i \<Rightarrow> ('i, 'f) resp_db \<Rightarrow> 'a \<times> ('i, 'f) resp_db) \<Rightarrow>
     ('i, 'f) resp_db \<Rightarrow> (resp_error + 'a) \<times> ('i, 'f) resp_db" where
  "pg_for_ip addr stmt w =
     (case query w of
        (True, w1) \<Rightarrow> (Inl ErrDb, w1)
      | (False, w1) \<Rightarrow>
          (case ra_inet_in w1 addr of
             None \<Rightarrow> (Inl ErrDb, w1)
           | Some i \<Rightarrow> (let (x, w2) = stmt i w1 in (Inr x, w2))))"

definition offense_row :: "gotime option \<Rightarrow> 'i \<Rightarrow> 'i action_row \<Rightarrow> bool" where
  "offense_row since i r =
     (r_source_ip r = i \<and> r_status r = Executed \<and>
      (case since of
         None \<Rightarrow> True
       | Some t \<Rightarrow> (case r_executed_at r of Some x \<Rightarrow> x | None \<Rightarrow> r_created_at r) \<ge> t))"

definition pg_Offenses ::
    "string \<Rightarrow> gotime option \<Rightarrow> ('i, 'f) resp_db \<Rightarrow> (resp_error + int) \<times> ('i, 'f) resp_db" where
  "pg_Offenses addr since = pg_for_ip addr (\<lambda>i w. (count_rows (offense_row since i) (ra_rows w), w))"

definition pg_HasOpenAction ::
    "string \<Rightarrow> ('i, 'f) resp_db \<Rightarrow> (resp_error + bool) \<times> ('i, 'f) resp_db" where
  "pg_HasOpenAction addr =
     pg_for_ip addr (\<lambda>i w. (list_ex (\<lambda>r. r_source_ip r = i \<and> row_open (db_clock w) r) (ra_rows w), w))"

definition pg_AppendReason ::
    "string \<Rightarrow> string \<Rightarrow> ('i, 'f) resp_db \<Rightarrow> (resp_error + unit) \<times> ('i, 'f) resp_db" where
  "pg_AppendReason addr reason w =
     (let reason' = trim_space reason
      in if reason' = [] then (Inr (), w)
         else pg_for_ip addr (\<lambda>i w.
           ((), w\<lparr>ra_rows := fst (update_rows (\<lambda>r. r_source_ip r = i \<and> row_open (db_clock w) r)
                    (\<lambda>r. r\<lparr>r_reason := merge_reason (r_reason r) reason'\<rparr>) (ra_rows w))\<rparr>)) w)"

definition pg_DismissPendingForIP ::
    "string \<Rightarrow> string \<Rightarrow> ('i, 'f) resp_db \<Rightarrow> (resp_error + int) \<times> ('i, 'f) resp_db" where
  "pg_DismissPendingForIP addr by_user =
     pg_for_ip addr (\<lambda>i w.
       let (rs, n) = update_rows (\<lambda>r. r_source_ip r = i \<and> r_status r = Recommended)
             (\<lambda>r. r\<lparr>r_status := Dismissed, r_decided_by := strOrNil by_user,
                     r_decided_at := Some (db_clock w)\<rparr>) (ra_rows w)
       in (n, w\<lparr>ra_rows := rs\<rparr>))"

text \<open>\<^verbatim>\<open>scanAction\<close>: a row as the Go struct, NULL texts read as empty strings.\<close>

definition scanAction :: "('i \<Rightarrow> string) \<Rightarrow> 'i action_row \<Rightarrow> action" where
  "scanAction host r =
     \<lparr>a_ID = r_id r, a_CreatedAt = r_created_at r, a_SourceIP = host (r_source_ip r),
      a_AgentID = coalesce_str (r_agent_id r), a_ActionType = r_action r,
      a_Reason = coalesce_str (r_reason r), a_RuleID = coalesce_str (r_rule_id r),
      a_BanSeconds = r_ban_seconds r, a_OffenseCount = r_offense_count r, a_Source = r_source r,
      a_Status = r_status r, a_Responder = coalesce_str (r_responder r),
      a_DecidedBy = coalesce_str (r_decided_by r), a_DecidedAt = r_decided_at r,
      a_ExecutedAt = r_executed_at r, a_Error = coalesce_str (r_error r)\<rparr>"

definition pg_Get :: "string \<Rightarrow> ('i, 'f) resp_db \<Rightarrow> (resp_error + action) \<times> ('i, 'f) resp_db" where
  "pg_Get uid w =
     (case query w of
        (True, w1) \<Rightarrow> (Inl ErrDb, w1)
      | (False, w1) \<Rightarrow>
          (case find (\<lambda>r. r_id r = uid) (ra_rows w1) of
             None \<Rightarrow> (Inl ErrNotFound, w1)
           | Some r \<Rightarrow> (Inr (scanAction (ra_inet_host w1) r), w1)))"

definition pg_SetStatus ::
    "string \<Rightarrow> status \<Rightarrow> string \<Rightarrow> ('i, 'f) resp_db \<Rightarrow> (resp_error + unit) \<times> ('i, 'f) resp_db" where
  "pg_SetStatus uid st by_user w =
     (case query w of
        (True, w1) \<Rightarrow> (Inl ErrDb, w1)
      | (False, w1) \<Rightarrow>
          (let (rs, n) = update_rows (\<lambda>r. r_id r = uid)
                 (\<lambda>r. r\<lparr>r_status := st, r_decided_by := strOrNil by_user,
                         r_decided_at := Some (db_clock w1)\<rparr>) (ra_rows w1)
           in if n = 0 then (Inl ErrNotFound, w1) else (Inr (), w1\<lparr>ra_rows := rs\<rparr>)))"

text \<open>\<^verbatim>\<open>SetExecuted\<close> does not look at the number of rows it changed.\<close>

definition pg_SetExecuted ::
    "string \<Rightarrow> string \<Rightarrow> string option \<Rightarrow> ('i, 'f) resp_db \<Rightarrow> (resp_error + unit) \<times> ('i, 'f) resp_db" where
  "pg_SetExecuted uid resp err w =
     (case query w of
        (True, w1) \<Rightarrow> (Inl ErrDb, w1)
      | (False, w1) \<Rightarrow>
          (Inr (), w1\<lparr>ra_rows := fst (update_rows (\<lambda>r. r_id r = uid)
             (\<lambda>r. r\<lparr>r_status := (if err = None then Executed else Failed),
                     r_responder := strOrNil resp,
                     r_executed_at := (if err = None then Some (db_clock w1) else None),
                     r_error := (case err of None \<Rightarrow> None | Some e \<Rightarrow> strOrNil e)\<rparr>)
             (ra_rows w1))\<rparr>))"

definition active_block_row :: "'i action_row \<Rightarrow> bool" where
  "active_block_row r = (r_action r = ''block'' \<and> (r_status r = Approved \<or> r_status r = Executed))"

definition pg_UnbanIP ::
    "string \<Rightarrow> string \<Rightarrow> ('i, 'f) resp_db \<Rightarrow> (resp_error + int) \<times> ('i, 'f) resp_db" where
  "pg_UnbanIP addr by_user =
     pg_for_ip addr (\<lambda>i w.
       let (rs, n) = update_rows (\<lambda>r. active_block_row r \<and> r_source_ip r = i)
             (\<lambda>r. r\<lparr>r_status := Unbanned, r_decided_by := strOrNil by_user,
                     r_decided_at := Some (db_clock w)\<rparr>) (ra_rows w)
       in (n, w\<lparr>ra_rows := rs\<rparr>))"

definition pg_CountActiveBlocksForIP ::
    "string \<Rightarrow> ('i, 'f) resp_db \<Rightarrow> (resp_error + int) \<times> ('i, 'f) resp_db" where
  "pg_CountActiveBlocksForIP addr =
     pg_for_ip addr (\<lambda>i w. (count_rows (\<lambda>r. active_block_row r \<and> r_source_ip r = i \<and>
        row_unexpired (db_clock w) r) (ra_rows w), w))"

text \<open>\<^verbatim>\<open>ActiveBlocks\<close>: the distinct addresses every enforcement point is built from.\<close>

definition pg_ActiveBlocks ::
    "('i, 'f) resp_db \<Rightarrow> (resp_error + string list) \<times> ('i, 'f) resp_db" where
  "pg_ActiveBlocks w =
     (case query w of
        (True, w1) \<Rightarrow> (Inl ErrDb, w1)
      | (False, w1) \<Rightarrow>
          (Inr (remdups (map (\<lambda>r. ra_inet_host w1 (r_source_ip r))
             (filter (\<lambda>r. active_block_row r \<and> row_unexpired (db_clock w1) r) (ra_rows w1)))), w1))"

text \<open>\<^verbatim>\<open>Store.List\<close>: optional status filter, optional search, newest first, bounded.\<close>

definition list_limit :: "int \<Rightarrow> int" where
  "list_limit n = (if n \<le> 0 \<or> n > 500 then 100 else n)"

definition pg_List ::
    "(action \<Rightarrow> string \<Rightarrow> bool) \<Rightarrow> status option \<Rightarrow> string \<Rightarrow> int \<Rightarrow>
     ('i, 'f) resp_db \<Rightarrow> (resp_error + action list) \<times> ('i, 'f) resp_db" where
  "pg_List ilike st search lim w =
     (case query w of
        (True, w1) \<Rightarrow> (Inl ErrDb, w1)
      | (False, w1) \<Rightarrow>
          (Inr (take (nat (list_limit lim)) (sort_key (\<lambda>a. - a_CreatedAt a)
             (filter (\<lambda>a. (case st of None \<Rightarrow> True | Some x \<Rightarrow> a_Status a = x) \<and>
                          (search = [] \<or> ilike a search))
               (map (scanAction (ra_inet_host w1)) (ra_rows w1))))), w1))"

definition pg_store :: "('i, 'f) resp_db action_store" where
  "pg_store =
     \<lparr>st_Insert = pg_Insert, st_Offenses = pg_Offenses, st_HasOpenAction = pg_HasOpenAction,
      st_AppendReason = pg_AppendReason, st_Get = pg_Get, st_SetStatus = pg_SetStatus,
      st_SetExecuted = pg_SetExecuted, st_UnbanIP = pg_UnbanIP\<rparr>"

text \<open>A backend keeps its own state; it reaches the world through the firewall component.\<close>

definition fw_responder :: "'f responder \<Rightarrow> ('i, 'f) resp_db responder" where
  "fw_responder r =
     \<lparr>rs_Name = rs_Name r,
      rs_Block = (\<lambda>addr d w. let (e, f) = rs_Block r addr d (ra_fw w) in (e, w\<lparr>ra_fw := f\<rparr>)),
      rs_Unblock = (\<lambda>addr w. let (e, f) = rs_Unblock r addr (ra_fw w) in (e, w\<lparr>ra_fw := f\<rparr>))\<rparr>"

end
