(* ===== verification/Action_Log.thy ===== *)
theory Action_Log
  imports Action_Store
begin

text \<open>
  The contract of the \<^verbatim>\<open>ActionStore\<close> interface. A store presents a log of actions (what
  \<^verbatim>\<open>Get\<close> would return for each row); every operation is specified by its effect on that log,
  and a failed operation leaves the log alone. The interpretation \<open>pg\<close> proves it for the
  Postgres store, where the log is the list of rows read by \<open>scanAction\<close>.
\<close>

section \<open>The log of actions\<close>

definition act_anchor :: "action \<Rightarrow> gotime" where
  "act_anchor a =
     (case a_ExecutedAt a of
        Some t \<Rightarrow> t
      | None \<Rightarrow> (case a_DecidedAt a of Some t \<Rightarrow> t | None \<Rightarrow> a_CreatedAt a))"

definition act_unexpired :: "gotime \<Rightarrow> action \<Rightarrow> bool" where
  "act_unexpired now a = (a_BanSeconds a = 0 \<or> act_anchor a + a_BanSeconds a * second > now)"

definition act_open :: "gotime \<Rightarrow> action \<Rightarrow> bool" where
  "act_open now a =
     (a_Status a = Recommended \<or>
      ((a_Status a = Approved \<or> a_Status a = Executed) \<and> act_unexpired now a))"

definition act_active :: "action \<Rightarrow> bool" where
  "act_active a = (a_ActionType a = ''block'' \<and> (a_Status a = Approved \<or> a_Status a = Executed))"

definition act_offense :: "gotime option \<Rightarrow> string \<Rightarrow> action \<Rightarrow> bool" where
  "act_offense since addr a =
     (a_SourceIP a = addr \<and> a_Status a = Executed \<and>
      (case since of
         None \<Rightarrow> True
       | Some t \<Rightarrow> (case a_ExecutedAt a of Some x \<Rightarrow> x | None \<Rightarrow> a_CreatedAt a) \<ge> t))"

definition open_for :: "gotime \<Rightarrow> string \<Rightarrow> action list \<Rightarrow> int" where
  "open_for now addr as = count_rows (\<lambda>a. a_SourceIP a = addr \<and> act_open now a) as"

definition inserted :: "action \<Rightarrow> string \<Rightarrow> gotime \<Rightarrow> string \<Rightarrow> action" where
  "inserted a uid now addr =
     a\<lparr>a_ID := uid, a_CreatedAt := now, a_SourceIP := addr, a_Responder := [], a_DecidedBy := [],
       a_DecidedAt := None, a_ExecutedAt := None, a_Error := []\<rparr>"

definition log_status :: "string \<Rightarrow> status \<Rightarrow> string \<Rightarrow> gotime \<Rightarrow> action list \<Rightarrow> action list" where
  "log_status uid st by_user now =
     map (\<lambda>a. if a_ID a = uid then a\<lparr>a_Status := st, a_DecidedBy := by_user, a_DecidedAt := Some now\<rparr> else a)"

definition log_executed :: "string \<Rightarrow> string \<Rightarrow> string option \<Rightarrow> gotime \<Rightarrow> action list \<Rightarrow> action list" where
  "log_executed uid resp err now =
     map (\<lambda>a. if a_ID a = uid then
        a\<lparr>a_Status := (if err = None then Executed else Failed), a_Responder := resp,
          a_ExecutedAt := (if err = None then Some now else None),
          a_Error := (case err of None \<Rightarrow> [] | Some e \<Rightarrow> e)\<rparr> else a)"

definition log_unban :: "string \<Rightarrow> string \<Rightarrow> gotime \<Rightarrow> action list \<Rightarrow> action list" where
  "log_unban addr by_user now =
     map (\<lambda>a. if act_active a \<and> a_SourceIP a = addr
        then a\<lparr>a_Status := Unbanned, a_DecidedBy := by_user, a_DecidedAt := Some now\<rparr> else a)"

text \<open>Two logs that differ in reasons only.\<close>

definition same_but_reason :: "action list \<Rightarrow> action list \<Rightarrow> bool" where
  "same_but_reason as bs = (map (\<lambda>a. a\<lparr>a_Reason := []\<rparr>) as = map (\<lambda>a. a\<lparr>a_Reason := []\<rparr>) bs)"

lemma act_open_reason [simp]: "act_open now (a\<lparr>a_Reason := x\<rparr>) = act_open now a"
  by (simp add: act_open_def act_unexpired_def act_anchor_def split: option.splits)

lemma same_but_reason_open: "same_but_reason as bs \<Longrightarrow> open_for now addr as = open_for now addr bs"
proof -
  let ?z = "\<lambda>a. a\<lparr>a_Reason := []\<rparr>"
  assume "same_but_reason as bs"
  moreover have "open_for now addr xs = open_for now addr (map ?z xs)" for xs
    by (simp add: open_for_def count_rows_map comp_def)
  ultimately show ?thesis by (metis same_but_reason_def)
qed

section \<open>The contract\<close>

locale action_log =
  fixes st :: "'w action_store"
    and log :: "'w \<Rightarrow> action list"
    and now :: "'w \<Rightarrow> gotime"
    and canon :: "'w \<Rightarrow> string \<Rightarrow> string option"
    and inv :: "'w \<Rightarrow> bool"
  assumes distinct_ids: "inv w \<Longrightarrow> distinct (map a_ID (log w))"
    and canon_log: "inv w \<Longrightarrow> a \<in> set (log w) \<Longrightarrow> canon w (a_SourceIP a) = Some (a_SourceIP a)"
    and canon_parse: "inv w \<Longrightarrow> parse_ip s \<noteq> None \<Longrightarrow> canon w s = Some t \<Longrightarrow> parse_ip t = parse_ip s"
    and insert_ok: "inv w \<Longrightarrow> parse_ip (a_SourceIP a) \<noteq> None \<Longrightarrow> st_Insert st a w = (Inr uid, w') \<Longrightarrow>
      inv w' \<and> now w' = now w \<and> canon w' = canon w \<and> uid \<notin> a_ID ` set (log w) \<and>
      (\<exists>addr. canon w (a_SourceIP a) = Some addr \<and> log w' = log w @ [inserted a uid (now w) addr])"
    and insert_err: "inv w \<Longrightarrow> st_Insert st a w = (Inl e, w') \<Longrightarrow>
      inv w' \<and> now w' = now w \<and> canon w' = canon w \<and> log w' = log w"
    and offenses: "inv w \<Longrightarrow> st_Offenses st s since w = (ri, w') \<Longrightarrow>
      inv w' \<and> now w' = now w \<and> canon w' = canon w \<and> log w' = log w \<and>
      (\<forall>n. parse_ip s \<noteq> None \<longrightarrow> ri = Inr n \<longrightarrow> (\<exists>addr. canon w s = Some addr \<and> n = count_rows (act_offense since addr) (log w)))"
    and has_open: "inv w \<Longrightarrow> st_HasOpenAction st s w = (rb, w') \<Longrightarrow>
      inv w' \<and> now w' = now w \<and> canon w' = canon w \<and> log w' = log w \<and>
      (\<forall>b. parse_ip s \<noteq> None \<longrightarrow> rb = Inr b \<longrightarrow> (\<exists>addr. canon w s = Some addr \<and> (b \<longleftrightarrow> open_for (now w) addr (log w) > 0)))"
    and append_reason: "inv w \<Longrightarrow> st_AppendReason st s reason w = (ru, w') \<Longrightarrow>
      inv w' \<and> now w' = now w \<and> canon w' = canon w \<and> same_but_reason (log w') (log w)"
    and get: "inv w \<Longrightarrow> st_Get st uid w = (rg, w') \<Longrightarrow>
      inv w' \<and> now w' = now w \<and> canon w' = canon w \<and> log w' = log w \<and>
      (\<forall>a. rg = Inr a \<longrightarrow> a \<in> set (log w) \<and> a_ID a = uid)"
    and set_status_ok: "inv w \<Longrightarrow> st_SetStatus st uid sx by_user w = (Inr (), w') \<Longrightarrow>
      inv w' \<and> now w' = now w \<and> canon w' = canon w \<and> log w' = log_status uid sx by_user (now w) (log w)"
    and set_status_err: "inv w \<Longrightarrow> st_SetStatus st uid sx by_user w = (Inl e, w') \<Longrightarrow>
      inv w' \<and> now w' = now w \<and> canon w' = canon w \<and> log w' = log w"
    and set_executed_ok: "inv w \<Longrightarrow> st_SetExecuted st uid resp err w = (Inr (), w') \<Longrightarrow>
      inv w' \<and> now w' = now w \<and> canon w' = canon w \<and> log w' = log_executed uid resp err (now w) (log w)"
    and set_executed_err: "inv w \<Longrightarrow> st_SetExecuted st uid resp err w = (Inl e, w') \<Longrightarrow>
      inv w' \<and> now w' = now w \<and> canon w' = canon w \<and> log w' = log w"
    and unban_ok: "inv w \<Longrightarrow> canon w s = Some s \<Longrightarrow> st_UnbanIP st s by_user w = (Inr n, w') \<Longrightarrow>
      inv w' \<and> now w' = now w \<and> canon w' = canon w \<and> log w' = log_unban s by_user (now w) (log w) \<and>
      n = count_rows (\<lambda>a. act_active a \<and> a_SourceIP a = s) (log w)"
    and unban_err: "inv w \<Longrightarrow> st_UnbanIP st s by_user w = (Inl e, w') \<Longrightarrow>
      inv w' \<and> now w' = now w \<and> canon w' = canon w \<and> log w' = log w"

section \<open>Postgres keeps the contract\<close>

definition pg_log :: "('i, 'f) resp_db \<Rightarrow> action list" where
  "pg_log w = map (scanAction (ra_inet_host w)) (ra_rows w)"

definition pg_canon :: "('i, 'f) resp_db \<Rightarrow> string \<Rightarrow> string option" where
  "pg_canon w s = map_option (ra_inet_host w) (ra_inet_in w s)"

text \<open>
  What is assumed of PostgreSQL: generated identifiers do not repeat, and casting an address and
  printing it with \<^verbatim>\<open>host()\<close> gives a text of that address, which casts to the same value. The rest is what the
  statements keep: the stored identifiers are generated ones and distinct, and the stored
  addresses are host addresses.
\<close>

definition pg_laws :: "('i, 'f) resp_db \<Rightarrow> bool" where
  "pg_laws w = (inj (db_uuid w) \<and>
     (\<forall>s i. parse_ip s \<noteq> None \<longrightarrow> ra_inet_in w s = Some i \<longrightarrow>
        ra_inet_in w (ra_inet_host w i) = Some i \<and> parse_ip (ra_inet_host w i) = parse_ip s))"

definition pg_inv :: "('i, 'f) resp_db \<Rightarrow> bool" where
  "pg_inv w = (pg_laws w \<and> distinct (map r_id (ra_rows w)) \<and> r_id ` set (ra_rows w) \<subseteq> used_ids w \<and>
     (\<forall>i \<in> r_source_ip ` set (ra_rows w). ra_inet_in w (ra_inet_host w i) = Some i))"

lemma scan_simps [simp]:
  "a_ID (scanAction h r) = r_id r"
  "a_SourceIP (scanAction h r) = h (r_source_ip r)"
  "a_Status (scanAction h r) = r_status r"
  "a_ActionType (scanAction h r) = r_action r"
  "act_anchor (scanAction h r) = row_anchor r"
  "act_unexpired now (scanAction h r) = row_unexpired now r"
  "act_open now (scanAction h r) = row_open now r"
  "act_active (scanAction h r) = active_block_row r"
  by (simp_all add: scanAction_def act_anchor_def row_anchor_def act_unexpired_def
      row_unexpired_def act_open_def row_open_def act_active_def active_block_row_def
      split: option.splits)

lemma scan_offense [simp]:
  "act_offense since addr (scanAction h r) \<longleftrightarrow>
     h (r_source_ip r) = addr \<and> offense_row since (r_source_ip r) r"
  by (simp add: act_offense_def offense_row_def scanAction_def split: option.splits)

lemma query_ra [simp]:
  assumes "query w = (b, w')"
  shows "ra_rows w' = ra_rows w" "ra_inet_in w' = ra_inet_in w" "ra_inet_host w' = ra_inet_host w"
    "ra_fw w' = ra_fw w"
  using assms by (auto simp: query_def split: list.splits)

text \<open>The frame of a statement: what it leaves alone, and the invariant when the rows keep theirs.\<close>

definition pg_same :: "('i, 'f) resp_db \<Rightarrow> ('i, 'f) resp_db \<Rightarrow> bool" where
  "pg_same w w' = (db_clock w' = db_clock w \<and> db_uuid w' = db_uuid w \<and> db_seq w' = db_seq w \<and>
     ra_inet_in w' = ra_inet_in w \<and> ra_inet_host w' = ra_inet_host w)"

lemma query_same: "query w = (b, w') \<Longrightarrow> pg_same w w'"
  by (simp add: pg_same_def)

lemma pg_same_canon: "pg_same w w' \<Longrightarrow> pg_canon w' = pg_canon w"
  by (auto simp: pg_same_def pg_canon_def)

lemma pg_same_laws: "pg_same w w' \<Longrightarrow> pg_laws w' = pg_laws w"
  by (simp add: pg_same_def pg_laws_def)

lemma pg_inv_rows:
  assumes "pg_inv w" "pg_same w w'"
    and "map (\<lambda>r. (r_id r, r_source_ip r)) (ra_rows w') = map (\<lambda>r. (r_id r, r_source_ip r)) (ra_rows w)"
  shows "pg_inv w'"
proof -
  have ids: "map r_id (ra_rows w') = map r_id (ra_rows w)"
    and ips: "map r_source_ip (ra_rows w') = map r_source_ip (ra_rows w)"
    using arg_cong [OF assms(3), of "map fst"] arg_cong [OF assms(3), of "map snd"] by (simp_all add: comp_def)
  have "r_id ` set (ra_rows w') = r_id ` set (ra_rows w)"
    "r_source_ip ` set (ra_rows w') = r_source_ip ` set (ra_rows w)"
    using arg_cong [OF ids, of set] arg_cong [OF ips, of set] by simp_all
  moreover have "used_ids w' = used_ids w" using assms(2) by (simp add: pg_same_def used_ids_def)
  ultimately show ?thesis
    using assms(1,2) ids pg_same_laws [OF assms(2)] by (auto simp only: pg_inv_def pg_same_def)
qed

lemma host_inj:
  assumes "pg_inv w" "r \<in> set (ra_rows w)" "ra_inet_in w (ra_inet_host w i) = Some i"
  shows "ra_inet_host w (r_source_ip r) = ra_inet_host w i \<longleftrightarrow> r_source_ip r = i"
  using assms unfolding pg_inv_def by (metis option.inject imageI)

lemma pg_open_for:
  assumes "pg_inv w" "ra_inet_in w (ra_inet_host w i) = Some i"
  shows "open_for t (ra_inet_host w i) (pg_log w) = count_rows (\<lambda>r. r_source_ip r = i \<and> row_open t r) (ra_rows w)"
  unfolding open_for_def pg_log_def count_rows_map count_rows_def
  using host_inj [OF assms(1) _ assms(2)] by (auto cong: filter_cong)

text \<open>One rule for the statements that only update rows.\<close>

lemma pg_update_log:
  assumes "pg_inv w" "query w = (False, w1)"
    and "w' = w1\<lparr>ra_rows := map (\<lambda>r. if p r then f r else r) (ra_rows w1)\<rparr>"
    and "\<And>r. r_id (f r) = r_id r \<and> r_source_ip (f r) = r_source_ip r"
    and "\<And>r. r \<in> set (ra_rows w) \<Longrightarrow> q (scanAction (ra_inet_host w) r) = p r"
    and "\<And>r. scanAction (ra_inet_host w) (f r) = g (scanAction (ra_inet_host w) r)"
  shows "pg_inv w' \<and> db_clock w' = db_clock w \<and> pg_canon w' = pg_canon w \<and>
    pg_log w' = map (\<lambda>a. if q a then g a else a) (pg_log w)"
proof -
  have same: "pg_same w w'" using assms(2,3) by (simp add: pg_same_def)
  have "map (\<lambda>r. (r_id r, r_source_ip r)) (ra_rows w') = map (\<lambda>r. (r_id r, r_source_ip r)) (ra_rows w)"
    using assms(2,3,4) by simp
  from pg_inv_rows [OF assms(1) same this] have "pg_inv w'" .
  moreover have "pg_log w' = map (\<lambda>a. if q a then g a else a) (pg_log w)"
    using assms(2,3,5,6) by (simp add: pg_log_def)
  ultimately show ?thesis using same pg_same_canon [OF same] by (simp add: pg_same_def)
qed

lemma pg_query_log:
  assumes "pg_inv w" "query w = (b, w')"
  shows "pg_inv w' \<and> db_clock w' = db_clock w \<and> pg_canon w' = pg_canon w \<and> pg_log w' = pg_log w"
proof -
  have "pg_inv w'" using pg_inv_rows [OF assms(1) query_same [OF assms(2)]] assms(2) by simp
  then show ?thesis
    using assms(2) pg_same_canon [OF query_same [OF assms(2)]] by (simp add: pg_log_def)
qed

lemma pg_plain:
  assumes "pg_inv w" "parse_ip s \<noteq> None" "ra_inet_in w s = Some i"
  shows "ra_inet_in w (ra_inet_host w i) = Some i"
  using assms by (auto simp: pg_inv_def pg_laws_def)

lemma pg_for_ip_cases:
  assumes "pg_for_ip s stmt w = (r, w')"
  obtains (err) w1 b where "query w = (b, w1)" "r = Inl ErrDb" "w' = w1"
    | (ok) w1 i x where "query w = (False, w1)" "ra_inet_in w s = Some i" "stmt i w1 = (x, w')" "r = Inr x"
  using assms by (auto simp: pg_for_ip_def split: prod.splits bool.splits option.splits)

lemma pg_insert_ok:
  assumes "pg_inv w" "parse_ip (a_SourceIP a) \<noteq> None" "pg_Insert a w = (Inr uid, w')"
  shows "pg_inv w' \<and> db_clock w' = db_clock w \<and> pg_canon w' = pg_canon w \<and>
    uid \<notin> a_ID ` set (pg_log w) \<and>
    (\<exists>addr. pg_canon w (a_SourceIP a) = Some addr \<and>
      pg_log w' = pg_log w @ [inserted a uid (db_clock w) addr])"
proof -
  from assms(3) obtain w1 i where q: "query w = (False, w1)" and i: "ra_inet_in w (a_SourceIP a) = Some i"
    by (auto simp: pg_Insert_def split: prod.splits bool.splits option.splits)
  from assms(3) q i have uid: "uid = db_uuid w (db_seq w)"
    by (auto simp: pg_Insert_def fresh_id_def Let_def split: if_splits)
  from assms(3) q i obtain r where w': "w' = w1\<lparr>db_seq := Suc (db_seq w), ra_rows := ra_rows w @ [r]\<rparr>"
    and r: "r_id r = uid" "r_source_ip r = i"
      "scanAction (ra_inet_host w) r = inserted a uid (db_clock w) (ra_inet_host w i)"
    by (auto simp: pg_Insert_def fresh_id_def Let_def inserted_def scanAction_def coalesce_str_def
        split: if_splits) (auto simp: strOrNil_def)
  have fresh: "uid \<notin> used_ids w" using assms(1) uid by (simp add: pg_inv_def pg_laws_def fresh_id_not_used)
  then have nid: "uid \<notin> r_id ` set (ra_rows w)" using assms(1) by (auto simp: pg_inv_def)
  have used: "used_ids w' = insert uid (used_ids w)"
    using w' q uid by (simp add: used_ids_def lessThan_Suc)
  have laws: "pg_laws w' = pg_laws w" using w' q by (simp add: pg_laws_def)
  from pg_plain [OF assms(1,2) i] have pl: "ra_inet_in w (ra_inet_host w i) = Some i" .
  have "pg_inv w'"
    using assms(1) w' q r nid used laws pl by (auto simp: pg_inv_def)
  moreover have "pg_log w' = pg_log w @ [inserted a uid (db_clock w) (ra_inet_host w i)]"
    using w' q r by (simp add: pg_log_def)
  moreover have "uid \<notin> a_ID ` set (pg_log w)" using nid by (auto simp: pg_log_def)
  moreover have "pg_canon w (a_SourceIP a) = Some (ra_inet_host w i)" using i by (simp add: pg_canon_def)
  moreover have "db_clock w' = db_clock w" "pg_canon w' = pg_canon w"
    using w' q by (auto simp: pg_canon_def)
  ultimately show ?thesis by blast
qed

lemma pg_insert_err:
  assumes "pg_Insert a w = (Inl e, w')"
  shows "\<exists>b. query w = (b, w')"
  using assms by (auto simp: pg_Insert_def Let_def split: prod.splits bool.splits option.splits if_splits)

lemma pg_offenses:
  assumes inv: "pg_inv w" and op: "pg_Offenses s since w = (r, w')"
  shows "pg_inv w' \<and> db_clock w' = db_clock w \<and> pg_canon w' = pg_canon w \<and> pg_log w' = pg_log w \<and>
    (\<forall>n. parse_ip s \<noteq> None \<longrightarrow> r = Inr n \<longrightarrow>
      (\<exists>addr. pg_canon w s = Some addr \<and> n = count_rows (act_offense since addr) (pg_log w)))"
proof (rule pg_for_ip_cases [OF op [unfolded pg_Offenses_def]])
  fix w1 b assume "query w = (b, w1)" "r = Inl ErrDb" "w' = w1"
  with pg_query_log [OF inv] show ?thesis by simp
next
  fix w1 i x
  assume q: "query w = (False, w1)" and i: "ra_inet_in w s = Some i"
    and stmt: "(count_rows (offense_row since i) (ra_rows w1), w1) = (x, w')" and r: "r = Inr x"
  have "x = count_rows (act_offense since (ra_inet_host w i)) (pg_log w)" if "parse_ip s \<noteq> None"
  proof -
    have "(offense_row since i r' = (ra_inet_host w (r_source_ip r') = ra_inet_host w i \<and>
        offense_row since (r_source_ip r') r'))" if "r' \<in> set (ra_rows w)" for r'
      using host_inj [OF inv that pg_plain [OF inv \<open>parse_ip s \<noteq> None\<close> i]]
      by (auto simp: offense_row_def)
    then show ?thesis
      using stmt q by (auto simp: pg_log_def count_rows_map count_rows_def cong: filter_cong)
  qed
  then show ?thesis using pg_query_log [OF inv q] stmt r i by (auto simp: pg_canon_def)
qed

lemma pg_has_open:
  assumes inv: "pg_inv w" and op: "pg_HasOpenAction s w = (r, w')"
  shows "pg_inv w' \<and> db_clock w' = db_clock w \<and> pg_canon w' = pg_canon w \<and> pg_log w' = pg_log w \<and>
    (\<forall>b. parse_ip s \<noteq> None \<longrightarrow> r = Inr b \<longrightarrow>
      (\<exists>addr. pg_canon w s = Some addr \<and> (b \<longleftrightarrow> open_for (db_clock w) addr (pg_log w) > 0)))"
proof (rule pg_for_ip_cases [OF op [unfolded pg_HasOpenAction_def]])
  fix w1 b assume "query w = (b, w1)" "r = Inl ErrDb" "w' = w1"
  with pg_query_log [OF inv] show ?thesis by simp
next
  fix w1 i x
  assume q: "query w = (False, w1)" and i: "ra_inet_in w s = Some i" and r: "r = Inr x"
    and stmt: "(list_ex (\<lambda>r. r_source_ip r = i \<and> row_open (db_clock w1) r) (ra_rows w1), w1) = (x, w')"
  have "x \<longleftrightarrow> open_for (db_clock w) (ra_inet_host w i) (pg_log w) > 0" if "parse_ip s \<noteq> None"
    using stmt q pg_open_for [OF inv pg_plain [OF inv that i]] by (auto simp: list_ex_iff count_rows_pos)
  then show ?thesis using pg_query_log [OF inv q] stmt r i by (auto simp: pg_canon_def)
qed

lemma pg_append_reason:
  assumes inv: "pg_inv w" and op: "pg_AppendReason s reason w = (r, w')"
  shows "pg_inv w' \<and> db_clock w' = db_clock w \<and> pg_canon w' = pg_canon w \<and>
    same_but_reason (pg_log w') (pg_log w)"
proof (cases "trim_space reason = []")
  case True
  with op inv show ?thesis by (simp add: pg_AppendReason_def same_but_reason_def)
next
  case False
  let ?f = "\<lambda>r. r\<lparr>r_reason := merge_reason (r_reason r) (trim_space reason)\<rparr>"
  from False op have op': "pg_for_ip s (\<lambda>i w. ((), w\<lparr>ra_rows :=
      fst (update_rows (\<lambda>r. r_source_ip r = i \<and> row_open (db_clock w) r) ?f (ra_rows w))\<rparr>)) w = (r, w')"
    by (simp add: pg_AppendReason_def)
  show ?thesis
  proof (rule pg_for_ip_cases [OF op'])
    fix w1 b assume "query w = (b, w1)" "r = Inl ErrDb" "w' = w1"
    with pg_query_log [OF inv] show ?thesis by (simp add: same_but_reason_def)
  next
    fix w1 i x
    assume q: "query w = (False, w1)" and stmt: "((), w1\<lparr>ra_rows :=
      fst (update_rows (\<lambda>r. r_source_ip r = i \<and> row_open (db_clock w1) r) ?f (ra_rows w1))\<rparr>) = (x, w')"
    then have w': "w' = w1\<lparr>ra_rows := map (\<lambda>r. if r_source_ip r = i \<and> row_open (db_clock w1) r
        then ?f r else r) (ra_rows w1)\<rparr>" by (simp add: update_rows_def)
    then have same: "pg_same w w'" using q by (simp add: pg_same_def)
    have "pg_inv w'"
      by (rule pg_inv_rows [OF inv same]) (use w' q in simp)
    moreover have "same_but_reason (pg_log w') (pg_log w)"
      using w' q by (simp add: same_but_reason_def pg_log_def scanAction_def)
    ultimately show ?thesis using same pg_same_canon [OF same] by (simp add: pg_same_def)
  qed
qed

lemma pg_get:
  assumes "pg_inv w" "pg_Get uid w = (r, w')"
  shows "pg_inv w' \<and> db_clock w' = db_clock w \<and> pg_canon w' = pg_canon w \<and> pg_log w' = pg_log w \<and>
    (\<forall>a. r = Inr a \<longrightarrow> a \<in> set (pg_log w) \<and> a_ID a = uid)"
proof -
  obtain b where q: "query w = (b, w')"
    using assms(2) by (auto simp: pg_Get_def split: prod.splits bool.splits option.splits)
  have "\<forall>a. r = Inr a \<longrightarrow> a \<in> set (pg_log w) \<and> a_ID a = uid"
    using assms(2) q by (auto simp: pg_Get_def pg_log_def find_Some_iff split: bool.splits option.splits)
  with pg_query_log [OF assms(1) q] show ?thesis by blast
qed

lemma pg_set_status_ok:
  assumes "pg_inv w" "pg_SetStatus uid s by_user w = (Inr (), w')"
  shows "pg_inv w' \<and> db_clock w' = db_clock w \<and> pg_canon w' = pg_canon w \<and>
    pg_log w' = log_status uid s by_user (db_clock w) (pg_log w)"
proof -
  from assms(2) obtain w1 where q: "query w = (False, w1)"
    and w': "w' = w1\<lparr>ra_rows := map (\<lambda>r. if r_id r = uid then r\<lparr>r_status := s,
      r_decided_by := strOrNil by_user, r_decided_at := Some (db_clock w1)\<rparr> else r) (ra_rows w1)\<rparr>"
    by (auto simp: pg_SetStatus_def update_rows_def split: prod.splits bool.splits if_splits)
  show ?thesis
    unfolding log_status_def
    by (rule pg_update_log [OF assms(1) q w']) (use q in \<open>simp_all add: scanAction_def\<close>)
qed

lemma pg_set_status_err: "pg_SetStatus uid s by_user w = (Inl e, w') \<Longrightarrow> \<exists>b. query w = (b, w')"
  by (auto simp: pg_SetStatus_def Let_def split: prod.splits bool.splits if_splits)

lemma pg_set_executed_ok:
  assumes "pg_inv w" "pg_SetExecuted uid resp err w = (Inr (), w')"
  shows "pg_inv w' \<and> db_clock w' = db_clock w \<and> pg_canon w' = pg_canon w \<and>
    pg_log w' = log_executed uid resp err (db_clock w) (pg_log w)"
proof -
  from assms(2) obtain w1 where q: "query w = (False, w1)"
    and w': "w' = w1\<lparr>ra_rows := map (\<lambda>r. if r_id r = uid then
        r\<lparr>r_status := (if err = None then Executed else Failed), r_responder := strOrNil resp,
          r_executed_at := (if err = None then Some (db_clock w1) else None),
          r_error := (case err of None \<Rightarrow> None | Some e \<Rightarrow> strOrNil e)\<rparr> else r) (ra_rows w1)\<rparr>"
    by (auto simp: pg_SetExecuted_def update_rows_def split: prod.splits bool.splits)
  show ?thesis
    unfolding log_executed_def
    by (rule pg_update_log [OF assms(1) q w'])
       (use q in \<open>simp_all add: scanAction_def coalesce_str_def split: option.splits\<close>, auto simp: strOrNil_def)
qed

lemma pg_set_executed_err: "pg_SetExecuted uid resp err w = (Inl e, w') \<Longrightarrow> \<exists>b. query w = (b, w')"
  by (auto simp: pg_SetExecuted_def split: prod.splits bool.splits)

lemma pg_unban_ok:
  assumes "pg_inv w" "pg_canon w s = Some s" "pg_UnbanIP s by_user w = (Inr n, w')"
  shows "pg_inv w' \<and> db_clock w' = db_clock w \<and> pg_canon w' = pg_canon w \<and>
    pg_log w' = log_unban s by_user (db_clock w) (pg_log w) \<and>
    n = count_rows (\<lambda>a. act_active a \<and> a_SourceIP a = s) (pg_log w)"
proof (rule pg_for_ip_cases [OF assms(3) [unfolded pg_UnbanIP_def]])
  fix w1 b assume "Inr n = Inl ErrDb" then show ?thesis by simp
next
  fix w1 i x
  assume q: "query w = (False, w1)" and i: "ra_inet_in w s = Some i" and n: "Inr n = Inr x"
    and stmt: "(let (rs, n) = update_rows (\<lambda>r. active_block_row r \<and> r_source_ip r = i)
             (\<lambda>r. r\<lparr>r_status := Unbanned, r_decided_by := strOrNil by_user,
                     r_decided_at := Some (db_clock w1)\<rparr>) (ra_rows w1)
       in (n, w1\<lparr>ra_rows := rs\<rparr>)) = (x, w')"
  from assms(2) i have s: "ra_inet_host w i = s" by (simp add: pg_canon_def)
  with i have pl: "ra_inet_in w (ra_inet_host w i) = Some i" by simp
  from stmt have w': "w' = w1\<lparr>ra_rows := map (\<lambda>r. if active_block_row r \<and> r_source_ip r = i
       then r\<lparr>r_status := Unbanned, r_decided_by := strOrNil by_user,
               r_decided_at := Some (db_clock w1)\<rparr> else r) (ra_rows w1)\<rparr>"
    by (auto simp: update_rows_def)
  have pq: "(act_active (scanAction (ra_inet_host w) r) \<and> a_SourceIP (scanAction (ra_inet_host w) r) = s) =
      (active_block_row r \<and> r_source_ip r = i)" if "r \<in> set (ra_rows w)" for r
    using host_inj [OF assms(1) that pl] s by auto
  have "x = count_rows (\<lambda>r. active_block_row r \<and> r_source_ip r = i) (ra_rows w)"
    using stmt q by (auto simp: update_rows_def)
  also have "\<dots> = count_rows (\<lambda>a. act_active a \<and> a_SourceIP a = s) (pg_log w)"
    using pq by (auto simp: pg_log_def count_rows_map count_rows_def cong: filter_cong)
  finally have "n = count_rows (\<lambda>a. act_active a \<and> a_SourceIP a = s) (pg_log w)" using n by simp
  moreover have "pg_inv w' \<and> db_clock w' = db_clock w \<and> pg_canon w' = pg_canon w \<and>
      pg_log w' = log_unban s by_user (db_clock w) (pg_log w)"
    unfolding log_unban_def
    by (rule pg_update_log [OF assms(1) q w' _ pq]) (use q in \<open>simp_all add: scanAction_def\<close>)
  ultimately show ?thesis by blast
qed

lemma pg_unban_err: "pg_UnbanIP s by_user w = (Inl e, w') \<Longrightarrow> \<exists>b. query w = (b, w')"
  by (auto simp: pg_UnbanIP_def pg_for_ip_def Let_def split: prod.splits bool.splits option.splits)

lemma pg_err_log:
  assumes "pg_inv w" "\<exists>b. query w = (b, w')"
  shows "pg_inv w' \<and> db_clock w' = db_clock w \<and> pg_canon w' = pg_canon w \<and> pg_log w' = pg_log w"
  using assms pg_query_log by blast

lemma pg_distinct: "pg_inv w \<Longrightarrow> distinct (map a_ID (pg_log w))"
  by (simp add: pg_inv_def pg_log_def comp_def)

lemma pg_canon_log: "pg_inv w \<Longrightarrow> a \<in> set (pg_log w) \<Longrightarrow> pg_canon w (a_SourceIP a) = Some (a_SourceIP a)"
  by (auto simp: pg_inv_def pg_log_def pg_canon_def)

lemma pg_canon_parse:
  "pg_inv w \<Longrightarrow> parse_ip s \<noteq> None \<Longrightarrow> pg_canon w s = Some t \<Longrightarrow> parse_ip t = parse_ip s"
  by (auto simp: pg_inv_def pg_laws_def pg_canon_def)

lemma pg_store_select [simp]:
  "st_Insert pg_store = pg_Insert" "st_Offenses pg_store = pg_Offenses"
  "st_HasOpenAction pg_store = pg_HasOpenAction" "st_AppendReason pg_store = pg_AppendReason"
  "st_Get pg_store = pg_Get" "st_SetStatus pg_store = pg_SetStatus"
  "st_SetExecuted pg_store = pg_SetExecuted" "st_UnbanIP pg_store = pg_UnbanIP"
  by (simp_all add: pg_store_def)

interpretation pg: action_log pg_store pg_log db_clock pg_canon pg_inv
  by (unfold_locales; (unfold pg_store_select)?)
     (erule pg_distinct, erule (1) pg_canon_log, erule (2) pg_canon_parse, erule (2) pg_insert_ok,
      erule pg_err_log, erule pg_insert_err, erule (1) pg_offenses, erule (1) pg_has_open,
      erule (1) pg_append_reason, erule (1) pg_get, erule (1) pg_set_status_ok,
      erule pg_err_log, erule pg_set_status_err, erule (1) pg_set_executed_ok,
      erule pg_err_log, erule pg_set_executed_err, erule (2) pg_unban_ok,
      erule pg_err_log, erule pg_unban_err)

end
