(* ===== verification/Response_Engine.thy ===== *)
theory Response_Engine
  imports Events Ban_Policy Whitelist Action_Log
begin

text \<open>
  The response engine of \<^verbatim>\<open>internal/respond/engine.go\<close> and the decision table of
  \<^verbatim>\<open>internal/respond/decision.go\<close>. The engine is a record over the store and the backend it
  was built with; each method is a function of the engine, the current time, its arguments and
  the world. An engine operation happens at one instant: the clock does not move inside it.
\<close>

section \<open>Decision table\<close>

datatype entity_type = EntityExternalIP | EntityHost | EntityUser | EntityHash

record decision =
  d_Entity :: entity_type
  d_Action :: string
  d_Enforced :: bool
  d_Engine :: string

definition DefaultDecisionTable :: "decision list" where
  "DefaultDecisionTable =
     [\<lparr>d_Entity = EntityExternalIP, d_Action = ''block'', d_Enforced = True, d_Engine = ''ban engine''\<rparr>,
      \<lparr>d_Entity = EntityHost, d_Action = ''network_containment'', d_Enforced = True,
       d_Engine = ''containment engine''\<rparr>,
      \<lparr>d_Entity = EntityUser, d_Action = ''alert'', d_Enforced = False, d_Engine = ''''\<rparr>,
      \<lparr>d_Entity = EntityHash, d_Action = ''alert'', d_Enforced = False, d_Engine = ''''\<rparr>]"

definition DecisionFor :: "entity_type \<Rightarrow> decision option" where
  "DecisionFor e = find (\<lambda>d. d_Entity d = e) DefaultDecisionTable"

definition Entities :: "event option \<Rightarrow> entity_type list" where
  "Entities mev =
     (case mev of
        None \<Rightarrow> []
      | Some ev \<Rightarrow>
          (case ev_Source ev of Some x \<Rightarrow> if ep_IP x \<noteq> [] then [EntityExternalIP] else [] | None \<Rightarrow> []) @
          (case ev_Agent ev of Some x \<Rightarrow> if agent_ID x \<noteq> [] then [EntityHost] else [] | None \<Rightarrow> []) @
          (case ev_User ev of Some x \<Rightarrow> if eu_Name x \<noteq> [] then [EntityUser] else [] | None \<Rightarrow> []) @
          (case ev_File ev of Some x \<Rightarrow> if file_HashSHA256 x \<noteq> [] then [EntityHash] else [] | None \<Rightarrow> []))"

section \<open>The engine\<close>

record 'w engine =
  e_store :: "'w action_store"
  e_responder :: "'w responder option"
  e_envAuto :: bool
  e_policy :: ban_policy
  e_whitelist :: "ipnet option list"

definition NewEngine :: "'w action_store \<Rightarrow> 'w responder option \<Rightarrow> ban_policy \<Rightarrow> bool \<Rightarrow> 'w engine" where
  "NewEngine st resp p auto =
     (let p1 = (if Durations p = [] then DefaultBanPolicy else p);
          p2 = (if auto then p1\<lparr>AutoApprove := True\<rparr> else p1)
      in \<lparr>e_store = st, e_responder = resp, e_envAuto = auto, e_policy = p2, e_whitelist = []\<rparr>)"

definition SetPolicy :: "'w engine \<Rightarrow> ban_policy \<Rightarrow> 'w engine" where
  "SetPolicy e p =
     (if Durations p = [] then e
      else e\<lparr>e_policy := (if e_envAuto e then p\<lparr>AutoApprove := True\<rparr> else p)\<rparr>)"

definition SetWhitelist :: "'w engine \<Rightarrow> ipnet option list \<Rightarrow> 'w engine" where
  "SetWhitelist e nets = e\<lparr>e_whitelist := nets\<rparr>"

definition Whitelisted :: "'w engine \<Rightarrow> string \<Rightarrow> bool" where
  "Whitelisted e addr = ipInNets addr (e_whitelist e)"

definition reasonFor :: "event \<Rightarrow> string" where
  "reasonFor ev =
     (case ev_Rule ev of
        Some r \<Rightarrow> if er_Name r \<noteq> [] then er_Name r
                  else if dw_Label (ev_DeusWatch ev) \<noteq> [] then dw_Label (ev_DeusWatch ev) else ''alert''
      | None \<Rightarrow> if dw_Label (ev_DeusWatch ev) \<noteq> [] then dw_Label (ev_DeusWatch ev) else ''alert'')"

text \<open>\<^verbatim>\<open>execute\<close>: without a backend the only result is that of recording the failure.\<close>

definition execute :: "'w engine \<Rightarrow> action \<Rightarrow> 'w \<Rightarrow> (resp_error + unit) \<times> 'w" where
  "execute e a w =
     (case e_responder e of
        None \<Rightarrow> st_SetExecuted (e_store e) (a_ID a) [] (Some errNoResponder) w
      | Some r \<Rightarrow>
          (case rs_Block r (a_SourceIP a) (BanDuration a) w of
             (blockErr, w1) \<Rightarrow>
               (case st_SetExecuted (e_store e) (a_ID a) (rs_Name r) blockErr w1 of
                  (Inl x, w2) \<Rightarrow> (Inl x, w2)
                | (Inr _, w2) \<Rightarrow>
                    (case blockErr of None \<Rightarrow> (Inr (), w2) | Some m \<Rightarrow> (Inl (ErrBackend m), w2)))))"

text \<open>The observation window's start: \<open>None\<close> is the zero time, all history.\<close>

definition window_since :: "ban_policy \<Rightarrow> gotime \<Rightarrow> gotime option" where
  "window_since p t = (if Window p > 0 then Some (t - Window p) else None)"

definition block_action ::
    "string \<Rightarrow> string \<Rightarrow> string \<Rightarrow> string \<Rightarrow> duration \<Rightarrow> int \<Rightarrow> string \<Rightarrow> action" where
  "block_action addr reason rule agent dur offense src =
     \<lparr>a_ID = [], a_CreatedAt = 0, a_SourceIP = addr, a_AgentID = agent, a_ActionType = ''block'',
      a_Reason = reason, a_RuleID = rule, a_BanSeconds = seconds_of dur, a_OffenseCount = offense,
      a_Source = src, a_Status = Recommended, a_Responder = [], a_DecidedBy = [],
      a_DecidedAt = None, a_ExecutedAt = None, a_Error = []\<rparr>"

definition Recommend ::
    "'w engine \<Rightarrow> gotime \<Rightarrow> event option \<Rightarrow> 'w \<Rightarrow> (resp_error + action option) \<times> 'w" where
  "Recommend e t mev w =
     (case mev of
        None \<Rightarrow> (Inr None, w)
      | Some ev \<Rightarrow>
     (case ev_Source ev of
        None \<Rightarrow> (Inr None, w)
      | Some src \<Rightarrow>
     let addr = ep_IP src; policy = e_policy e; st = e_store e in
     if addr = [] then (Inr None, w)
     else if ipInNets addr (e_whitelist e) then (Inr None, w)
     else case st_HasOpenAction st addr w of
        (Inl x, w1) \<Rightarrow> (Inl x, w1)
      | (Inr True, w1) \<Rightarrow>
          (case st_AppendReason st addr (reasonFor ev) w1 of (_, w2) \<Rightarrow> (Inr None, w2))
      | (Inr False, w1) \<Rightarrow>
     (case st_Offenses st addr (window_since policy t) w1 of
        (Inl x, w2) \<Rightarrow> (Inl x, w2)
      | (Inr prior, w2) \<Rightarrow>
     let offense = prior + 1;
         a = block_action addr (reasonFor ev)
               (case ev_Rule ev of Some r \<Rightarrow> er_ID r | None \<Rightarrow> [])
               (case ev_Agent ev of Some g \<Rightarrow> agent_ID g | None \<Rightarrow> [])
               (Duration policy offense) offense ''playbook'' in
     (case st_Insert st a w2 of
        (Inl x, w3) \<Rightarrow> (Inl x, w3)
      | (Inr uid, w3) \<Rightarrow>
          let a' = a\<lparr>a_ID := uid\<rparr> in
          if AutoApprove policy \<and> e_responder e \<noteq> None then
            (case execute e a' w3 of (_, w4) \<Rightarrow> (Inr (Some a'), w4))
          else (Inr (Some a'), w3)))))"

definition BanIP ::
    "'w engine \<Rightarrow> gotime \<Rightarrow> string \<Rightarrow> duration \<Rightarrow> string \<Rightarrow> 'w \<Rightarrow> (resp_error + action) \<times> 'w" where
  "BanIP e t s dur by_user w =
     (let addr = trim_space s; policy = e_policy e; st = e_store e in
      if parse_ip addr = None then (Inl (ErrInvalidIP addr), w)
      else if e_responder e = None then (Inl ErrNoResponder, w)
      else if ipInNets addr (e_whitelist e) then (Inl (ErrWhitelisted addr), w)
      else case st_HasOpenAction st addr w of
         (Inl x, w1) \<Rightarrow> (Inl x, w1)
       | (Inr True, w1) \<Rightarrow> (Inl (ErrOpen addr), w1)
       | (Inr False, w1) \<Rightarrow>
      (case st_Offenses st addr (window_since policy t) w1 of
         (Inl x, w2) \<Rightarrow> (Inl x, w2)
       | (Inr prior, w2) \<Rightarrow>
      let offense = prior + 1;
          d = (if dur \<le> 0 then Duration policy offense else dur);
          a = block_action addr (''Manually banned by '' @ by_user) [] [] d offense ''manual'' in
      (case st_Insert st a w2 of
         (Inl x, w3) \<Rightarrow> (Inl x, w3)
       | (Inr uid, w3) \<Rightarrow>
      let a' = a\<lparr>a_ID := uid\<rparr> in
      (case st_SetStatus st uid Approved by_user w3 of
         (Inl x, w4) \<Rightarrow> (Inl x, w4)
       | (Inr _, w4) \<Rightarrow>
      (case execute e a' w4 of
         (Inl x, w5) \<Rightarrow> (Inl x, w5)
       | (Inr _, w5) \<Rightarrow>
      (case st_Get st uid w5 of
         (Inr final, w6) \<Rightarrow> (Inr final, w6)
       | (Inl _, w6) \<Rightarrow> (Inr a', w6)))))))"

definition Approve :: "'w engine \<Rightarrow> string \<Rightarrow> string \<Rightarrow> 'w \<Rightarrow> (resp_error + unit) \<times> 'w" where
  "Approve e uid by_user w =
     (case st_Get (e_store e) uid w of
        (Inl x, w1) \<Rightarrow> (Inl x, w1)
      | (Inr a, w1) \<Rightarrow>
          if a_Status a \<noteq> Recommended then (Inl (ErrStatus (a_Status a)), w1)
          else case st_SetStatus (e_store e) uid Approved by_user w1 of
             (Inl x, w2) \<Rightarrow> (Inl x, w2)
           | (Inr _, w2) \<Rightarrow> execute e a w2)"

definition Dismiss :: "'w engine \<Rightarrow> string \<Rightarrow> string \<Rightarrow> 'w \<Rightarrow> (resp_error + unit) \<times> 'w" where
  "Dismiss e uid by_user w =
     (case st_Get (e_store e) uid w of
        (Inl x, w1) \<Rightarrow> (Inl x, w1)
      | (Inr a, w1) \<Rightarrow>
          if a_Status a \<noteq> Recommended then (Inl (ErrStatus (a_Status a)), w1)
          else st_SetStatus (e_store e) uid Dismissed by_user w1)"

text \<open>
  \<^verbatim>\<open>Unban\<close>. For an action that is not a block, Go returns the count 1 together with the error
  of \<^verbatim>\<open>SetStatus\<close>; the model keeps the error and drops the meaningless count.
\<close>

definition Unban :: "'w engine \<Rightarrow> string \<Rightarrow> string \<Rightarrow> 'w \<Rightarrow> (resp_error + int) \<times> 'w" where
  "Unban e uid by_user w =
     (case st_Get (e_store e) uid w of
        (Inl x, w1) \<Rightarrow> (Inl x, w1)
      | (Inr a, w1) \<Rightarrow>
     if a_Status a \<noteq> Executed \<and> a_Status a \<noteq> Approved then (Inl (ErrStatus (a_Status a)), w1)
     else if a_ActionType a \<noteq> ''block'' then
       (case st_SetStatus (e_store e) uid Unbanned by_user w1 of
          (Inl x, w2) \<Rightarrow> (Inl x, w2)
        | (Inr _, w2) \<Rightarrow> (Inr 1, w2))
     else
       (case (case e_responder e of None \<Rightarrow> (None, w1) | Some r \<Rightarrow> rs_Unblock r (a_SourceIP a) w1) of
          (Some m, w2) \<Rightarrow> (Inl (ErrBackend m), w2)
        | (None, w2) \<Rightarrow>
            (case st_UnbanIP (e_store e) (a_SourceIP a) by_user w2 of
               (Inl x, w3) \<Rightarrow> (Inl x, w3)
             | (Inr n, w3) \<Rightarrow>
                 if n = 0 then (Inl (ErrNotLifted (a_SourceIP a)), w3) else (Inr n, w3))))"

end
