(* ===== verification/Response_Contract.thy ===== *)
theory Response_Contract
  imports Response_Engine
begin

text \<open>
  What the ban engine guarantees over any store that keeps the contract \<open>action_log\<close> and any
  backend that leaves the log alone (the locale \<open>ban_engine\<close>), and its instance on the
  Postgres store. The central fact is that an address never has two open actions.
\<close>

section \<open>Effects on the log\<close>

lemma count_rows_map_le:
  assumes "\<And>a. a \<in> set l \<Longrightarrow> p (f a) \<Longrightarrow> p a"
  shows "count_rows p (map f l) \<le> count_rows p l"
  unfolding count_rows_map using assms by (intro count_rows_mono) simp

text \<open>Changing only rows that are open, and never their address, opens nothing.\<close>

lemma open_for_update:
  assumes "\<And>a. a \<in> set l \<Longrightarrow> a_ID a = uid \<Longrightarrow> act_open t a"
    and "\<And>a. a_SourceIP (f a) = a_SourceIP a"
  shows "open_for t addr (map (\<lambda>a. if a_ID a = uid then f a else a) l) \<le> open_for t addr l"
  unfolding open_for_def using assms by (intro count_rows_map_le) (auto split: if_splits)

lemma act_open_recommended: "a_Status a = Recommended \<Longrightarrow> act_open t a"
  by (simp add: act_open_def)

lemma log_executed_after_status:
  "log_executed uid resp err t (log_status uid s by_user t l) =
     map (\<lambda>a. if a_ID a = uid then
        a\<lparr>a_Status := (if err = None then Executed else Failed), a_DecidedBy := by_user,
          a_DecidedAt := Some t, a_Responder := resp,
          a_ExecutedAt := (if err = None then Some t else None),
          a_Error := (case err of None \<Rightarrow> [] | Some e \<Rightarrow> e)\<rparr> else a) l"
  by (auto simp: log_executed_def log_status_def)

lemma log_ids [simp]:
  "map a_ID (log_status uid s by_user t l) = map a_ID l"
  "map a_ID (log_executed uid resp err t l) = map a_ID l"
  by (auto simp: log_status_def log_executed_def)

lemma log_ips [simp]:
  "map a_SourceIP (log_status uid s by_user t l) = map a_SourceIP l"
  "map a_SourceIP (log_executed uid resp err t l) = map a_SourceIP l"
  "map a_SourceIP (log_unban addr by_user t l) = map a_SourceIP l"
  by (auto simp: log_status_def log_executed_def log_unban_def)

lemma same_but_reason_ips: "same_but_reason l m \<Longrightarrow> map a_SourceIP l = map a_SourceIP m"
  unfolding same_but_reason_def by (drule arg_cong [where f = "map a_SourceIP"]) (simp add: comp_def)

lemma open_for_status:
  assumes "\<And>a. a \<in> set l \<Longrightarrow> a_ID a = uid \<Longrightarrow> a_Status a = Recommended"
  shows "open_for t addr (log_status uid s by_user t l) \<le> open_for t addr l"
  unfolding log_status_def using assms by (intro open_for_update) (auto intro: act_open_recommended)

lemma open_for_executed:
  assumes "\<And>a. a \<in> set l \<Longrightarrow> a_ID a = uid \<Longrightarrow> a_Status a = Recommended"
  shows "open_for t addr (log_executed uid resp err t l) \<le> open_for t addr l"
  unfolding log_executed_def using assms by (intro open_for_update) (auto intro: act_open_recommended)

lemma open_for_executed_status:
  assumes "\<And>a. a \<in> set l \<Longrightarrow> a_ID a = uid \<Longrightarrow> a_Status a = Recommended"
  shows "open_for t addr (log_executed uid resp err t (log_status uid s by_user t l)) \<le> open_for t addr l"
  unfolding log_executed_after_status using assms
  by (intro open_for_update) (auto intro: act_open_recommended)

lemma open_for_unban: "open_for t addr (log_unban addr' by_user t l) \<le> open_for t addr l"
  unfolding open_for_def log_unban_def
  by (intro count_rows_map_le) (auto simp: act_open_def split: if_splits)

lemma open_for_unbanned: "open_for t addr (log_status uid Unbanned by_user t' l) \<le> open_for t addr l"
  unfolding open_for_def log_status_def
  by (intro count_rows_map_le) (auto simp: act_open_def split: if_splits)

lemma inserted_simps [simp]:
  "a_ID (inserted a uid t addr) = uid" "a_SourceIP (inserted a uid t addr) = addr"
  "a_Status (inserted a uid t addr) = a_Status a"
  by (simp_all add: inserted_def)

lemma open_for_inserted:
  "a_Status a = Recommended \<Longrightarrow>
     open_for t x (l @ [inserted a uid t' addr]) = open_for t x l + (if x = addr then 1 else 0)"
  by (simp add: open_for_def act_open_def)

lemma open_for_time:
  assumes "t \<le> t'"
  shows "open_for t' addr l \<le> open_for t addr l"
  unfolding open_for_def using assms
  by (intro count_rows_mono) (auto simp: act_open_def act_unexpired_def)

section \<open>The engine over any store\<close>

locale ban_engine = action_log st log now canon inv
  for st :: "'w action_store" and log now canon inv +
  fixes resp :: "'w responder"
  assumes block_frame: "inv w \<Longrightarrow> rs_Block resp s d w = (er, w') \<Longrightarrow>
      inv w' \<and> now w' = now w \<and> canon w' = canon w \<and> log w' = log w"
    and unblock_frame: "inv w \<Longrightarrow> rs_Unblock resp s w = (er, w') \<Longrightarrow>
      inv w' \<and> now w' = now w \<and> canon w' = canon w \<and> log w' = log w"
begin

definition engine_ok :: "'w engine \<Rightarrow> bool" where
  "engine_ok e = (e_store e = st \<and> (e_responder e = None \<or> e_responder e = Some resp))"

definition one_open :: "'w \<Rightarrow> bool" where
  "one_open w = (\<forall>addr. open_for (now w) addr (log w) \<le> 1)"

text \<open>A step that keeps the environment; what it does to the log is stated separately.\<close>

definition step_ok :: "'w \<Rightarrow> 'w \<Rightarrow> bool" where
  "step_ok w w' = (inv w' \<and> now w' = now w \<and> canon w' = canon w)"

lemma step_ok_trans: "step_ok w w' \<Longrightarrow> step_ok w' w'' \<Longrightarrow> step_ok w w''"
  by (simp add: step_ok_def)

lemma execute_log:
  assumes "inv w" "engine_ok e" "execute e a w = (r, w')"
  shows "step_ok w w' \<and> (log w' = log w \<or> (\<exists>nm err. log w' = log_executed (a_ID a) nm err (now w) (log w)))"
proof (cases "e_responder e")
  case None
  with assms have "st_SetExecuted st (a_ID a) [] (Some errNoResponder) w = (r, w')"
    by (simp add: execute_def engine_ok_def)
  then show ?thesis
    using assms(1) set_executed_ok [of w "a_ID a" "[]" "Some errNoResponder" w']
      set_executed_err [of w "a_ID a" "[]" "Some errNoResponder" _ w']
    by (cases r) (auto simp: step_ok_def)
next
  case (Some rp)
  with assms have rp: "rp = resp" "e_store e = st" by (auto simp: engine_ok_def)
  obtain er w1 where b: "rs_Block resp (a_SourceIP a) (BanDuration a) w = (er, w1)"
    by (cases "rs_Block resp (a_SourceIP a) (BanDuration a) w")
  obtain r2 w2 where s: "st_SetExecuted st (a_ID a) (rs_Name resp) er w1 = (r2, w2)"
    by (cases "st_SetExecuted st (a_ID a) (rs_Name resp) er w1")
  from assms(3) Some rp b s have w': "w' = w2"
    by (auto simp: execute_def split: sum.splits option.splits)
  from block_frame [OF assms(1) b] have f: "inv w1" "now w1 = now w" "canon w1 = canon w" "log w1 = log w"
    by simp_all
  show ?thesis
  proof (cases r2)
    case (Inl x)
    with s set_executed_err [OF f(1)] f w' show ?thesis by (auto simp: step_ok_def)
  next
    case (Inr u)
    with s set_executed_ok [OF f(1)] f w' show ?thesis by (auto simp: step_ok_def)
  qed
qed

lemma recommended_rows:
  assumes "inv w" "a \<in> set (log w)" "a_Status a = Recommended"
  shows "\<And>b. b \<in> set (log w) \<Longrightarrow> a_ID b = a_ID a \<Longrightarrow> a_Status b = Recommended"
  using distinct_ids [OF assms(1)] assms(2,3) by (metis distinct_map inj_onD)

text \<open>Approval and dismissal work on one recommended row.\<close>

lemma approve_log:
  assumes "inv w" "engine_ok e" "Approve e uid by_user w = (r, w')"
  shows "step_ok w w' \<and> (\<forall>addr. open_for (now w) addr (log w') \<le> open_for (now w) addr (log w)) \<and>
    map a_SourceIP (log w') = map a_SourceIP (log w)"
proof -
  have st: "e_store e = st" using assms(2) by (simp add: engine_ok_def)
  obtain r1 w1 where g: "st_Get st uid w = (r1, w1)" by (cases "st_Get st uid w")
  note gf = get [OF assms(1) g]
  show ?thesis
  proof (cases "\<exists>a. r1 = Inr a \<and> a_Status a = Recommended")
    case False
    with assms(3) st g have "w' = w1" by (auto simp: Approve_def split: sum.splits if_splits)
    with gf show ?thesis by (simp add: step_ok_def)
  next
    case True
    then obtain a where a: "r1 = Inr a" "a_Status a = Recommended" by blast
    with gf have al: "a \<in> set (log w1)" "a_ID a = uid" "log w1 = log w" by auto
    note rec = recommended_rows [OF gf [THEN conjunct1] al(1) a(2)]
    obtain r2 w2 where s: "st_SetStatus st uid Approved by_user w1 = (r2, w2)"
      by (cases "st_SetStatus st uid Approved by_user w1")
    show ?thesis
    proof (cases r2)
      case (Inl x)
      with assms(3) st g a s have "w' = w2" by (simp add: Approve_def)
      with set_status_err [OF gf [THEN conjunct1]] s Inl gf show ?thesis by (simp add: step_ok_def)
    next
      case (Inr u)
      with assms(3) st g a s have ex: "execute e a w2 = (r, w')" by (simp add: Approve_def)
      from set_status_ok [OF gf [THEN conjunct1]] s Inr
      have w2: "inv w2" "now w2 = now w" "canon w2 = canon w"
        "log w2 = log_status uid Approved by_user (now w) (log w)" using gf by simp_all
      have rec': "a_Status b = Recommended" if "b \<in> set (log w)" "a_ID b = uid" for b
        using rec [of b] that al by simp
      have o1: "open_for (now w) addr (log_status uid Approved by_user (now w) (log w)) \<le> open_for (now w) addr (log w)"
        for addr by (rule open_for_status) (rule rec')
      have o2: "open_for (now w) addr (log_executed uid nm err (now w) (log_status uid Approved by_user (now w) (log w)))
          \<le> open_for (now w) addr (log w)" for addr nm err
        by (rule open_for_executed_status) (rule rec')
      from execute_log [OF w2(1) assms(2) ex] w2 al o1 o2 show ?thesis by (auto simp: step_ok_def)
    qed
  qed
qed

lemma dismiss_log:
  assumes "inv w" "engine_ok e" "Dismiss e uid by_user w = (r, w')"
  shows "step_ok w w' \<and> (\<forall>addr. open_for (now w) addr (log w') \<le> open_for (now w) addr (log w)) \<and>
    map a_SourceIP (log w') = map a_SourceIP (log w)"
proof -
  have st: "e_store e = st" using assms(2) by (simp add: engine_ok_def)
  obtain r1 w1 where g: "st_Get st uid w = (r1, w1)" by (cases "st_Get st uid w")
  note gf = get [OF assms(1) g]
  show ?thesis
  proof (cases "\<exists>a. r1 = Inr a \<and> a_Status a = Recommended")
    case False
    with assms(3) st g have "w' = w1" by (auto simp: Dismiss_def split: sum.splits if_splits)
    with gf show ?thesis by (simp add: step_ok_def)
  next
    case True
    then obtain a where a: "r1 = Inr a" "a_Status a = Recommended" by blast
    with gf have al: "a \<in> set (log w1)" "a_ID a = uid" by auto
    have rec: "a_Status b = Recommended" if "b \<in> set (log w1)" "a_ID b = uid" for b
      using recommended_rows [OF gf [THEN conjunct1] al(1) a(2), of b] that al by simp
    from assms(3) st g a have s: "st_SetStatus st uid Dismissed by_user w1 = (r, w')"
      by (simp add: Dismiss_def)
    have "open_for (now w) addr (log_status uid Dismissed by_user (now w) (log w1)) \<le> open_for (now w) addr (log w1)"
      for addr by (rule open_for_status) (rule rec)
    then show ?thesis
      using set_status_ok [OF gf [THEN conjunct1], of uid Dismissed by_user w']
        set_status_err [OF gf [THEN conjunct1], of uid Dismissed by_user _ w'] s gf
      by (cases r) (auto simp: step_ok_def)
  qed
qed

text \<open>Lifting a block clears every active block of the address, not only the named row.\<close>

lemma unban_log:
  assumes "inv w" "engine_ok e" "Unban e uid by_user w = (r, w')"
  shows "step_ok w w' \<and>
    (log w' = log w \<or>
     (\<exists>a \<in> set (log w). a_ID a = uid \<and> a_ActionType a \<noteq> ''block'' \<and>
        (a_Status a = Executed \<or> a_Status a = Approved) \<and> r = Inr 1 \<and>
        log w' = log_status uid Unbanned by_user (now w) (log w)) \<or>
     (\<exists>a \<in> set (log w). a_ID a = uid \<and> act_active a \<and>
        log w' = log_unban (a_SourceIP a) by_user (now w) (log w))) \<and>
    (\<forall>n. r = Inr n \<longrightarrow> (\<exists>a \<in> set (log w). a_ID a = uid \<and>
       (a_ActionType a = ''block'' \<longrightarrow> act_active a \<and>
          log w' = log_unban (a_SourceIP a) by_user (now w) (log w) \<and>
          n = count_rows (\<lambda>b. act_active b \<and> a_SourceIP b = a_SourceIP a) (log w))))"
proof -
  have st: "e_store e = st" using assms(2) by (simp add: engine_ok_def)
  obtain r1 w1 where g: "st_Get st uid w = (r1, w1)" by (cases "st_Get st uid w")
  note gf = get [OF assms(1) g]
  show ?thesis
  proof (cases "\<exists>a. r1 = Inr a \<and> (a_Status a = Executed \<or> a_Status a = Approved)")
    case False
    with assms(3) st g have "w' = w1 \<and> (\<exists>x. r = Inl x)"
      by (auto simp: Unban_def split: sum.splits if_splits)
    with gf show ?thesis by (auto simp: step_ok_def)
  next
    case True
    then obtain a where a: "r1 = Inr a" "a_Status a = Executed \<or> a_Status a = Approved" by blast
    with gf have al: "a \<in> set (log w)" "a_ID a = uid" and inv1: "inv w1" by auto
    show ?thesis
    proof (cases "a_ActionType a = ''block''")
      case False
      obtain r2 w2 where s: "st_SetStatus st uid Unbanned by_user w1 = (r2, w2)"
        by (cases "st_SetStatus st uid Unbanned by_user w1")
      from assms(3) st g a False s have w': "w' = w2" "r = (case r2 of Inl x \<Rightarrow> Inl x | Inr _ \<Rightarrow> Inr 1)"
        by (auto simp: Unban_def split: sum.splits)
      show ?thesis
        using set_status_ok [OF inv1, of uid Unbanned by_user w2]
          set_status_err [OF inv1, of uid Unbanned by_user _ w2] s gf w' al a False
        by (cases r2) (auto simp: step_ok_def)
    next
      case True
      then have act: "act_active a" using a(2) by (auto simp: act_active_def)
      obtain er w2 where u: "(case e_responder e of None \<Rightarrow> (None, w1)
          | Some r \<Rightarrow> rs_Unblock r (a_SourceIP a) w1) = (er, w2)" by fastforce
      have f: "inv w2" "now w2 = now w" "canon w2 = canon w" "log w2 = log w"
        using u gf unblock_frame [OF inv1] assms(2) by (auto simp: engine_ok_def split: option.splits)
      show ?thesis
      proof (cases er)
        case (Some m)
        with assms(3) st g a True u have "w' = w2 \<and> r = Inl (ErrBackend m)" by (auto simp: Unban_def)
        with f show ?thesis by (simp add: step_ok_def)
      next
        case None
        obtain r3 w3 where ub: "st_UnbanIP st (a_SourceIP a) by_user w2 = (r3, w3)"
          by (cases "st_UnbanIP st (a_SourceIP a) by_user w2")
        from assms(3) st g a True u None ub
        have r: "w' = w3" "r = (case r3 of Inl x \<Rightarrow> Inl x
            | Inr n \<Rightarrow> if n = 0 then Inl (ErrNotLifted (a_SourceIP a)) else Inr n)"
          by (auto simp: Unban_def split: sum.splits if_splits)
        have "canon w2 (a_SourceIP a) = Some (a_SourceIP a)"
          using canon_log [OF f(1)] al(1) f(4) by simp
        with unban_ok [OF f(1), of "a_SourceIP a" by_user] unban_err [OF f(1), of "a_SourceIP a" by_user] ub f
        show ?thesis using r al act by (cases r3) (auto simp: step_ok_def)
      qed
    qed
  qed
qed

lemma insert_step:
  assumes "inv w" "parse_ip s \<noteq> None"
    and h: "st_HasOpenAction st s w = (Inr False, w1)"
    and o: "st_Offenses st s since w1 = (Inr prior, w2)"
    and i: "st_Insert st a w2 = (Inr uid, w3)" "a_SourceIP a = s"
  shows "\<exists>addr. canon w s = Some addr \<and> open_for (now w) addr (log w) = 0 \<and>
    prior = count_rows (act_offense since addr) (log w) \<and> step_ok w w3 \<and>
    uid \<notin> a_ID ` set (log w) \<and> log w3 = log w @ [inserted a uid (now w) addr]"
proof -
  from has_open [OF assms(1) h] assms(2) obtain addr where 1: "inv w1" "now w1 = now w" "canon w1 = canon w"
    "log w1 = log w" "canon w s = Some addr" "\<not> open_for (now w) addr (log w) > 0" by auto
  from offenses [OF 1(1) o] assms(2) 1 have 2: "inv w2" "now w2 = now w" "canon w2 = canon w"
    "log w2 = log w" "prior = count_rows (act_offense since addr) (log w)" by auto
  have "0 \<le> open_for (now w) addr (log w)" by (simp add: open_for_def)
  with 1 have 0: "open_for (now w) addr (log w) = 0" by linarith
  from insert_ok [OF 2(1) _ i(1)] i(2) assms(2) 0 1 2 show ?thesis by (auto simp: step_ok_def)
qed

text \<open>Appending one recommendation to a log with no open action for its address keeps \<open>one_open\<close>.\<close>

lemma one_open_bound:
  assumes "one_open w" "open_for (now w) addr (log w) = 0" "a_Status a = Recommended"
  shows "open_for (now w) x (log w @ [inserted a uid (now w) addr]) \<le> 1"
  using assms by (cases "x = addr") (auto simp: open_for_inserted one_open_def)

lemma fresh_row:
  assumes "uid \<notin> a_ID ` set (log w)" "a_Status a = Recommended"
    and "b \<in> set (log w @ [inserted a uid t addr])" "a_ID b = uid"
  shows "a_Status b = Recommended"
proof (cases "b \<in> set (log w)")
  case True
  with assms show ?thesis by blast
next
  case False
  with assms(3) have "b = inserted a uid t addr" by simp
  with assms(2) show ?thesis by (metis inserted_simps(3))
qed

definition recommended_for :: "'w engine \<Rightarrow> gotime \<Rightarrow> string \<Rightarrow> 'w \<Rightarrow> 'w \<Rightarrow> action \<Rightarrow> bool" where
  "recommended_for e t s w w' a =
     (\<exists>addr. canon w s = Some addr \<and> \<not> ipInNets s (e_whitelist e) \<and> open_for (now w) addr (log w) = 0 \<and>
        a_SourceIP a = s \<and> a_ActionType a = ''block'' \<and>
        a_OffenseCount a = count_rows (act_offense (window_since (e_policy e) t) addr) (log w) + 1 \<and>
        a_BanSeconds a = seconds_of (Duration (e_policy e) (a_OffenseCount a)) \<and>
        map a_SourceIP (log w') = map a_SourceIP (log w) @ [addr])"

lemma keep_one_open:
  assumes "one_open w" "step_ok w w'" "\<And>addr. open_for (now w) addr (log w') \<le> open_for (now w) addr (log w)"
  shows "one_open w'"
  unfolding one_open_def
proof
  fix addr
  from assms(1) have "open_for (now w) addr (log w) \<le> 1" by (simp add: one_open_def)
  with assms(3) [of addr] assms(2) show "open_for (now w') addr (log w') \<le> 1" by (simp add: step_ok_def)
qed

lemma recommend_log:
  assumes inv: "inv w" and ok: "engine_ok e" and r: "Recommend e t (Some ev) w = (r, w')"
    and src: "ev_Source ev = Some src" "parse_ip (ep_IP src) \<noteq> None"
  shows "step_ok w w' \<and> (one_open w \<longrightarrow> one_open w') \<and>
    (case r of Inr (Some a) \<Rightarrow> recommended_for e t (ep_IP src) w w' a
     | _ \<Rightarrow> same_but_reason (log w') (log w))"
proof (cases "ep_IP src = [] \<or> ipInNets (ep_IP src) (e_whitelist e)")
  case True
  with r src(1) have "w' = w \<and> r = Inr None"
    by (cases "ep_IP src = []") (simp_all add: Recommend_def Let_def)
  with inv show ?thesis by (simp add: step_ok_def same_but_reason_def)
next
  case skip: False
  let ?s = "ep_IP src" and ?since = "window_since (e_policy e) t"
  have st: "e_store e = st" using ok by (simp add: engine_ok_def)
  obtain r1 w1 where h: "st_HasOpenAction st ?s w = (r1, w1)" by (cases "st_HasOpenAction st ?s w")
  note hf = has_open [OF inv h]
  have same1: "step_ok w w1 \<and> (one_open w \<longrightarrow> one_open w1) \<and> same_but_reason (log w1) (log w)"
    using hf by (simp add: step_ok_def one_open_def same_but_reason_def)
  consider (err) x where "r1 = Inl x" | (open') "r1 = Inr True" | (new) "r1 = Inr False"
    by (cases r1) (auto)
  then show ?thesis
  proof cases
    case err
    with r src(1) skip st h have "w' = w1" "r = Inl x" by (simp_all add: Recommend_def Let_def)
    with same1 show ?thesis by simp
  next
    case open'
    obtain r2 w2 where ap: "st_AppendReason st ?s (reasonFor ev) w1 = (r2, w2)"
      by (cases "st_AppendReason st ?s (reasonFor ev) w1")
    with open' r src(1) skip st h have w': "w' = w2" "r = Inr None" by (simp_all add: Recommend_def Let_def)
    note apf = append_reason [OF hf [THEN conjunct1] ap]
    have "open_for (now w) addr (log w2) = open_for (now w) addr (log w)" for addr
      using same_but_reason_open apf hf by metis
    then show ?thesis using apf hf w' by (auto simp: step_ok_def one_open_def)
  next
    case new
    obtain r2 w2 where o: "st_Offenses st ?s ?since w1 = (r2, w2)" by (cases "st_Offenses st ?s ?since w1")
    note of = offenses [OF hf [THEN conjunct1] o]
    show ?thesis
    proof (cases r2)
      case (Inl x)
      with new r src(1) skip st h o have "w' = w2" "r = Inl x" by (simp_all add: Recommend_def Let_def)
      with of hf show ?thesis by (simp add: step_ok_def one_open_def same_but_reason_def)
    next
      case (Inr prior)
      define a where "a = block_action ?s (reasonFor ev)
               (case ev_Rule ev of Some r \<Rightarrow> er_ID r | None \<Rightarrow> [])
               (case ev_Agent ev of Some g \<Rightarrow> agent_ID g | None \<Rightarrow> [])
               (Duration (e_policy e) (prior + 1)) (prior + 1) ''playbook''"
      have a: "a_SourceIP a = ?s" "a_Status a = Recommended" "a_OffenseCount a = prior + 1"
        "a_ActionType a = ''block''"
        "a_BanSeconds a = seconds_of (Duration (e_policy e) (prior + 1))"
        by (simp_all add: a_def block_action_def)
      obtain r3 w3 where i: "st_Insert st a w2 = (r3, w3)" by (cases "st_Insert st a w2")
      show ?thesis
      proof (cases r3)
        case (Inl x)
        with new r src(1) skip st h o Inr i have "w' = w3" "r = Inl x"
          by (simp_all add: Recommend_def Let_def a_def)
        with insert_err [OF of [THEN conjunct1]] Inl i of hf show ?thesis
          by (simp add: step_ok_def one_open_def same_but_reason_def)
      next
        case (Inr uid)
        note i' = i [unfolded Inr]
        from insert_step [OF inv src(2) h [unfolded new] o [unfolded \<open>r2 = Inr prior\<close>] i' a(1)]
        obtain addr where ad: "canon w ?s = Some addr" "open_for (now w) addr (log w) = 0"
          "prior = count_rows (act_offense ?since addr) (log w)" "step_ok w w3"
          "uid \<notin> a_ID ` set (log w)" "log w3 = log w @ [inserted a uid (now w) addr]" by blast
        have w': "r = Inr (Some (a\<lparr>a_ID := uid\<rparr>)) \<and> (w' = w3 \<or> (\<exists>x. execute e (a\<lparr>a_ID := uid\<rparr>) w3 = (x, w')))"
          using new r src(1) skip st h o \<open>r2 = Inr prior\<close> i'
          by (auto simp: Recommend_def Let_def a_def [symmetric] split: if_splits prod.splits)
        then have ex: "step_ok w w' \<and> (log w' = log w3 \<or> (\<exists>nm err. log w' = log_executed uid nm err (now w) (log w3)))"
          using execute_log [of w3 e "a\<lparr>a_ID := uid\<rparr>"] ok ad(4) by (auto simp: step_ok_def)
        have new_row: "a_Status b = Recommended" if "b \<in> set (log w3)" "a_ID b = uid" for b
          using fresh_row [OF ad(5) a(2)] that ad(6) by simp
        have le: "open_for (now w) x (log w') \<le> open_for (now w) x (log w3)" for x
          using ex open_for_executed [OF new_row] by auto
        have "one_open w \<longrightarrow> one_open w'"
          using one_open_bound [OF _ ad(2) a(2)] le ad(6) ex
          unfolding one_open_def step_ok_def by (metis order_trans)
        moreover have "map a_SourceIP (log w') = map a_SourceIP (log w) @ [addr]"
          using ex ad(6) by auto
        ultimately show ?thesis
          using w' ex ad a skip by (auto simp: recommended_for_def)
      qed
    qed
  qed
qed

text \<open>The end of a manual ban: record the decision, execute, read the row back.\<close>

definition ban_tail :: "'w engine \<Rightarrow> string \<Rightarrow> action \<Rightarrow> string \<Rightarrow> 'w \<Rightarrow> (resp_error + action) \<times> 'w" where
  "ban_tail e uid a by_user w3 =
     (case st_SetStatus st uid Approved by_user w3 of
         (Inl x, w4) \<Rightarrow> (Inl x, w4)
       | (Inr _, w4) \<Rightarrow>
      (case execute e (a\<lparr>a_ID := uid\<rparr>) w4 of
         (Inl x, w5) \<Rightarrow> (Inl x, w5)
       | (Inr _, w5) \<Rightarrow>
      (case st_Get st uid w5 of
         (Inr final, w6) \<Rightarrow> (Inr final, w6)
       | (Inl _, w6) \<Rightarrow> (Inr (a\<lparr>a_ID := uid\<rparr>), w6))))"

lemma ban_tail_log:
  assumes "inv w" "engine_ok e" "ban_tail e uid a by_user w = (r, w')"
  shows "step_ok w w' \<and> (log w' = log w \<or> log w' = log_status uid Approved by_user (now w) (log w) \<or>
    (\<exists>nm err. log w' = log_executed uid nm err (now w) (log_status uid Approved by_user (now w) (log w))))"
proof -
  obtain r1 w1 where s: "st_SetStatus st uid Approved by_user w = (r1, w1)"
    by (cases "st_SetStatus st uid Approved by_user w")
  show ?thesis
  proof (cases r1)
    case (Inl x)
    with assms(3) s have "w' = w1" by (simp add: ban_tail_def)
    with set_status_err [OF assms(1)] s Inl show ?thesis by (simp add: step_ok_def)
  next
    case (Inr u)
    with set_status_ok [OF assms(1)] s have 1: "inv w1" "now w1 = now w" "canon w1 = canon w"
      "log w1 = log_status uid Approved by_user (now w) (log w)" by simp_all
    obtain r2 w2 where x: "execute e (a\<lparr>a_ID := uid\<rparr>) w1 = (r2, w2)"
      by (cases "execute e (a\<lparr>a_ID := uid\<rparr>) w1")
    note xf = execute_log [OF 1(1) assms(2) x]
    obtain r3 w3 where g: "st_Get st uid w2 = (r3, w3)" by (cases "st_Get st uid w2")
    from xf have inv2: "inv w2" by (simp add: step_ok_def)
    have "w' = w2 \<or> w' = w3"
      using assms(3) s Inr x g by (auto simp: ban_tail_def split: sum.splits)
    then have "step_ok w2 w' \<and> log w' = log w2" using get [OF inv2 g] inv2 by (auto simp: step_ok_def)
    with xf 1 show ?thesis
      by (metis (no_types, lifting) action.select_convs(1) action.surjective action.update_convs(1) step_ok_def)
  qed
qed

lemma ban_log:
  assumes inv: "inv w" and ok: "engine_ok e" and r: "BanIP e t s dur by_user w = (r, w')"
  shows "step_ok w w' \<and> (one_open w \<longrightarrow> one_open w') \<and>
    (map a_SourceIP (log w') = map a_SourceIP (log w) \<or>
     (\<exists>addr. canon w (trim_space s) = Some addr \<and> parse_ip (trim_space s) \<noteq> None \<and>
        \<not> ipInNets (trim_space s) (e_whitelist e) \<and> open_for (now w) addr (log w) = 0 \<and>
        map a_SourceIP (log w') = map a_SourceIP (log w) @ [addr]))"
proof (cases "parse_ip (trim_space s) = None \<or> e_responder e = None \<or> ipInNets (trim_space s) (e_whitelist e)")
  case True
  with r have "w' = w" by (auto simp: BanIP_def Let_def split: if_splits)
  with inv show ?thesis by (simp add: step_ok_def)
next
  case pass: False
  let ?s = "trim_space s" and ?since = "window_since (e_policy e) t"
  have st: "e_store e = st" using ok by (simp add: engine_ok_def)
  from pass obtain ipv rp where xy: "parse_ip ?s = Some ipv" "e_responder e = Some rp"
    "\<not> ipInNets ?s (e_whitelist e)" by auto
  obtain r1 w1 where h: "st_HasOpenAction st ?s w = (r1, w1)" by (cases "st_HasOpenAction st ?s w")
  note hf = has_open [OF inv h]
  show ?thesis
  proof (cases "r1 = Inr False")
    case False
    with r xy st h have "w' = w1" by (auto simp: BanIP_def Let_def split: sum.splits bool.splits)
    with hf show ?thesis by (simp add: step_ok_def one_open_def)
  next
    case new: True
    obtain r2 w2 where o: "st_Offenses st ?s ?since w1 = (r2, w2)" by (cases "st_Offenses st ?s ?since w1")
    note of = offenses [OF hf [THEN conjunct1] o]
    show ?thesis
    proof (cases r2)
      case (Inl x)
      with new r xy st h o have "w' = w2" by (simp add: BanIP_def Let_def)
      with of hf show ?thesis by (simp add: step_ok_def one_open_def)
    next
      case prior: (Inr prior)
      define a where "a = block_action ?s (''Manually banned by '' @ by_user) [] []
         (if dur \<le> 0 then Duration (e_policy e) (prior + 1) else dur) (prior + 1) ''manual''"
      have a: "a_SourceIP a = ?s" "a_Status a = Recommended" by (simp_all add: a_def block_action_def)
      obtain r3 w3 where i: "st_Insert st a w2 = (r3, w3)" by (cases "st_Insert st a w2")
      show ?thesis
      proof (cases r3)
        case (Inl x)
        with new r xy st h o prior i have "w' = w3" by (simp add: BanIP_def Let_def a_def)
        with insert_err [OF of [THEN conjunct1]] Inl i of hf show ?thesis
          by (simp add: step_ok_def one_open_def)
      next
        case uid: (Inr uid)
        from pass have ip: "parse_ip ?s \<noteq> None" by simp
        from insert_step [OF inv ip h [unfolded new] o [unfolded prior] i [unfolded uid] a(1)]
        obtain addr where ad: "canon w ?s = Some addr" "open_for (now w) addr (log w) = 0" "step_ok w w3"
          "uid \<notin> a_ID ` set (log w)" "log w3 = log w @ [inserted a uid (now w) addr]" by blast
        have "ban_tail e uid a by_user w3 = (r, w')"
          using r xy st h new o prior i uid
          by (simp add: BanIP_def Let_def a_def ban_tail_def)
        from ban_tail_log [OF _ ok this] ad(3)
        have ex: "step_ok w w' \<and> (log w' = log w3 \<or> log w' = log_status uid Approved by_user (now w) (log w3) \<or>
          (\<exists>nm err. log w' = log_executed uid nm err (now w) (log_status uid Approved by_user (now w) (log w3))))"
          by (auto simp: step_ok_def)
        have new_row: "a_Status b = Recommended" if "b \<in> set (log w3)" "a_ID b = uid" for b
          using fresh_row [OF ad(4) a(2)] that ad(5) by simp
        have le: "open_for (now w) x (log w') \<le> open_for (now w) x (log w3)" for x
          using ex open_for_status [OF new_row] open_for_executed_status [OF new_row] by auto
        have "one_open w \<longrightarrow> one_open w'"
          using one_open_bound [OF _ ad(2) a(2)] le ad(5) ex
          unfolding one_open_def step_ok_def by (metis order_trans)
        moreover have "map a_SourceIP (log w') = map a_SourceIP (log w) @ [addr]"
          using ex ad(5) by auto
        ultimately show ?thesis using ex ad pass by blast
      qed
    qed
  qed
qed

end

end
