(* ===== verification/Response.thy ===== *)
theory Response
  imports Response_Contract
begin

text \<open>
  The response engine on the Postgres store: the instance of the contract, sequences of engine
  operations interleaved with policy and whitelist reloads, time and database faults, and the
  engine's properties.
\<close>

section \<open>Operation sequences\<close>

type_synonym ('i, 'f) resp_state = "('i, 'f) resp_db engine \<times> ('i, 'f) resp_db"

datatype resp_op =
    OpRecommend event
  | OpBan string duration string
  | OpApprove string string
  | OpDismiss string string
  | OpUnban string string
  | OpDismissPending string string
  | OpSetPolicy ban_policy
  | OpSetWhitelist "ipnet option list"
  | OpTick nat
  | OpFaults "bool list"

fun run_op :: "resp_op \<Rightarrow> ('i, 'f) resp_state \<Rightarrow> ('i, 'f) resp_state" where
  "run_op (OpRecommend ev) (e, w) = (e, snd (Recommend e (db_clock w) (Some ev) w))"
| "run_op (OpBan s d u) (e, w) = (e, snd (BanIP e (db_clock w) s d u w))"
| "run_op (OpApprove i u) (e, w) = (e, snd (Approve e i u w))"
| "run_op (OpDismiss i u) (e, w) = (e, snd (Dismiss e i u w))"
| "run_op (OpUnban i u) (e, w) = (e, snd (Unban e i u w))"
| "run_op (OpDismissPending s u) (e, w) = (e, snd (pg_DismissPendingForIP s u w))"
| "run_op (OpSetPolicy p) (e, w) = (SetPolicy e p, w)"
| "run_op (OpSetWhitelist ns) (e, w) = (SetWhitelist e ns, w)"
| "run_op (OpTick n) (e, w) = (e, w\<lparr>db_clock := db_clock w + int n\<rparr>)"
| "run_op (OpFaults fs) (e, w) = (e, w\<lparr>db_faults := fs\<rparr>)"

definition run_ops :: "resp_op list \<Rightarrow> ('i, 'f) resp_state \<Rightarrow> ('i, 'f) resp_state" where
  "run_ops ops s = fold run_op ops s"

text \<open>The events of a run carry an address or none.\<close>

fun wf_op :: "resp_op \<Rightarrow> bool" where
  "wf_op (OpRecommend ev) =
     (case ev_Source ev of None \<Rightarrow> True | Some s \<Rightarrow> ep_IP s = [] \<or> parse_ip (ep_IP s) \<noteq> None)"
| "wf_op _ = True"

fun is_set_whitelist :: "resp_op \<Rightarrow> bool" where
  "is_set_whitelist (OpSetWhitelist ns) = True"
| "is_set_whitelist _ = False"

definition start_state :: "('i, 'f) resp_db responder \<Rightarrow> ('i, 'f) resp_state \<Rightarrow> bool" where
  "start_state rp s = (pg_inv (snd s) \<and> ra_rows (snd s) = [] \<and> e_store (fst s) = pg_store \<and>
     (e_responder (fst s) = None \<or> e_responder (fst s) = Some rp))"

section \<open>The instance\<close>

lemma pg_inv_fw: "pg_inv (w\<lparr>ra_fw := f\<rparr>) = pg_inv w"
  by (simp add: pg_inv_def pg_laws_def used_ids_def)

lemma fw_frame:
  "rs_Block (fw_responder rp) s d w = (er, w') \<Longrightarrow> \<exists>f. w' = w\<lparr>ra_fw := f\<rparr>"
  "rs_Unblock (fw_responder rp) s w = (er, w') \<Longrightarrow> \<exists>f. w' = w\<lparr>ra_fw := f\<rparr>"
  by (auto simp: fw_responder_def split: prod.splits)

lemma fw_update [simp]:
  "pg_log (w\<lparr>ra_fw := f\<rparr>) = pg_log w" "pg_canon (w\<lparr>ra_fw := f\<rparr>) = pg_canon w"
  by (auto simp: pg_log_def pg_canon_def)

interpretation be: ban_engine pg_store pg_log db_clock pg_canon pg_inv "fw_responder rp" for rp
  by unfold_locales (auto dest!: fw_frame simp: pg_inv_fw)

lemma dismiss_pending_log:
  fixes w :: "('i, 'f) resp_db"
  assumes inv: "pg_inv w" and op: "pg_DismissPendingForIP s u w = (r, w')"
  shows "pg_inv w' \<and> db_clock w' = db_clock w \<and> pg_canon w' = pg_canon w \<and>
    (\<forall>t addr. open_for t addr (pg_log w') \<le> open_for t addr (pg_log w)) \<and>
    map a_SourceIP (pg_log w') = map a_SourceIP (pg_log w)"
proof (rule pg_for_ip_cases [OF op [unfolded pg_DismissPendingForIP_def]])
  fix w1 b assume "query w = (b, w1)" "w' = w1"
  with pg_query_log [OF inv] show ?thesis by simp
next
  fix w1 :: "('i, 'f) resp_db" and i x
  let ?f = "\<lambda>r. r\<lparr>r_status := Dismissed, r_decided_by := strOrNil u, r_decided_at := Some (db_clock w1)\<rparr>"
  assume q: "query w = (False, w1)"
    and stmt: "(let (rs, n) = update_rows (\<lambda>r. r_source_ip r = i \<and> r_status r = Recommended) ?f (ra_rows w1)
       in (n, w1\<lparr>ra_rows := rs\<rparr>)) = (x, w')"
  then have w': "w' = w1\<lparr>ra_rows := map (\<lambda>r. if r_source_ip r = i \<and> r_status r = Recommended then ?f r else r) (ra_rows w1)\<rparr>"
    by (auto simp: update_rows_def)
  then have same: "pg_same w w'" using q by (simp add: pg_same_def)
  have "pg_inv w'" by (rule pg_inv_rows [OF inv same]) (use w' q in simp)
  moreover have "open_for t addr (pg_log w') \<le> open_for t addr (pg_log w)" for t addr
  proof -
    have "count_rows (\<lambda>r. ra_inet_host w (r_source_ip r) = addr \<and> row_open t r) (ra_rows w') \<le>
        count_rows (\<lambda>r. ra_inet_host w (r_source_ip r) = addr \<and> row_open t r) (ra_rows w)"
      using w' q by (auto simp: row_open_def intro!: count_rows_map_le split: if_splits)
    then show ?thesis using same by (simp add: open_for_def pg_log_def count_rows_map comp_def pg_same_def)
  qed
  moreover have "map a_SourceIP (pg_log w') = map a_SourceIP (pg_log w)"
    using w' q by (simp add: pg_log_def)
  ultimately show ?thesis using same pg_same_canon [OF same] by (simp add: pg_same_def)
qed

section \<open>The invariant of a run\<close>

definition run_inv :: "'f responder \<Rightarrow> ('i, 'f) resp_state \<Rightarrow> bool" where
  "run_inv rp s = (pg_inv (snd s) \<and> be.engine_ok rp (fst s) \<and>
     (\<forall>addr. open_for (db_clock (snd s)) addr (pg_log (snd s)) \<le> 1))"

lemma recommend_nothing:
  "(case ev_Source ev of None \<Rightarrow> True | Some s \<Rightarrow> ep_IP s = []) \<Longrightarrow> Recommend e t (Some ev) w = (Inr None, w)"
  by (auto simp: Recommend_def Let_def split: option.splits)

lemma tick_log:
  "pg_inv (w\<lparr>db_clock := t\<rparr>) = pg_inv w" "pg_log (w\<lparr>db_clock := t\<rparr>) = pg_log w"
  "pg_inv (w\<lparr>db_faults := fs\<rparr>) = pg_inv w" "pg_log (w\<lparr>db_faults := fs\<rparr>) = pg_log w"
  by (simp_all add: pg_inv_def pg_laws_def used_ids_def pg_log_def)

lemma run_op_inv:
  assumes inv: "run_inv rp (e, w)" and wf: "wf_op op"
  shows "run_inv rp (run_op op (e, w))"
proof -
  from inv have pg: "pg_inv w" and ok: "be.engine_ok rp e"
    and one: "\<forall>addr. open_for (db_clock w) addr (pg_log w) \<le> 1" by (simp_all add: run_inv_def)
  have le: "run_inv rp (e, w')" if "pg_inv w'" "db_clock w' = db_clock w"
    "\<And>addr. open_for (db_clock w) addr (pg_log w') \<le> open_for (db_clock w) addr (pg_log w)" for w'
    unfolding run_inv_def using that ok one by (auto intro: order_trans)
  show ?thesis
  proof (cases op)
    case (OpRecommend ev)
    obtain r w' where r: "Recommend e (db_clock w) (Some ev) w = (r, w')"
      by (cases "Recommend e (db_clock w) (Some ev) w")
    show ?thesis
    proof (cases "case ev_Source ev of None \<Rightarrow> True | Some s \<Rightarrow> ep_IP s = []")
      case True
      have "run_op op (e, w) = (e, w)" by (simp add: OpRecommend recommend_nothing [OF True])
      with inv show ?thesis by simp
    next
      case False
      then obtain s where s: "ev_Source ev = Some s" "ep_IP s \<noteq> []" by (auto split: option.splits)
      with wf OpRecommend have "parse_ip (ep_IP s) \<noteq> None" by simp
      from be.recommend_log [OF pg ok r s(1) this] one
      have "pg_inv w'" "\<forall>addr. open_for (db_clock w') addr (pg_log w') \<le> 1"
        by (auto simp: be.step_ok_def be.one_open_def)
      with ok r OpRecommend show ?thesis by (simp add: run_inv_def)
    qed
  next
    case (OpBan s d u)
    obtain r w' where r: "BanIP e (db_clock w) s d u w = (r, w')" by (cases "BanIP e (db_clock w) s d u w")
    from be.ban_log [OF pg ok r] one have "pg_inv w'" "\<forall>addr. open_for (db_clock w') addr (pg_log w') \<le> 1"
      by (auto simp: be.step_ok_def be.one_open_def)
    with ok r OpBan show ?thesis by (simp add: run_inv_def)
  next
    case (OpApprove i u)
    obtain r w' where r: "Approve e i u w = (r, w')" by (cases "Approve e i u w")
    from be.approve_log [OF pg ok r] have "run_inv rp (e, w')" by (intro le) (auto simp: be.step_ok_def)
    with r OpApprove show ?thesis by simp
  next
    case (OpDismiss i u)
    obtain r w' where r: "Dismiss e i u w = (r, w')" by (cases "Dismiss e i u w")
    from be.dismiss_log [OF pg ok r] have "run_inv rp (e, w')" by (intro le) (auto simp: be.step_ok_def)
    with r OpDismiss show ?thesis by simp
  next
    case (OpUnban i u)
    obtain r w' where r: "Unban e i u w = (r, w')" by (cases "Unban e i u w")
    from be.unban_log [OF pg ok r] have "run_inv rp (e, w')"
      by (intro le) (auto simp: be.step_ok_def open_for_unban open_for_unbanned)
    with r OpUnban show ?thesis by simp
  next
    case (OpDismissPending s u)
    obtain r w' where r: "pg_DismissPendingForIP s u w = (r, w')" by (cases "pg_DismissPendingForIP s u w")
    from dismiss_pending_log [OF pg r] have "run_inv rp (e, w')" by (intro le) auto
    with r OpDismissPending show ?thesis by simp
  next
    case (OpSetPolicy p)
    with inv show ?thesis by (simp add: run_inv_def SetPolicy_def be.engine_ok_def)
  next
    case (OpSetWhitelist ns)
    with inv show ?thesis by (simp add: run_inv_def SetWhitelist_def be.engine_ok_def)
  next
    case (OpTick n)
    have "open_for (db_clock w + int n) addr (pg_log w) \<le> open_for (db_clock w) addr (pg_log w)" for addr
      by (rule open_for_time) simp
    then have "open_for (db_clock w + int n) addr (pg_log w) \<le> 1" for addr
      using one by (meson order_trans)
    with OpTick pg ok show ?thesis by (simp add: run_inv_def tick_log)
  next
    case (OpFaults fs)
    with inv show ?thesis by (simp add: run_inv_def tick_log)
  qed
qed

lemma run_ops_inv:
  assumes "run_inv rp s" "\<forall>op \<in> set ops. wf_op op"
  shows "run_inv rp (run_ops ops s)"
  using assms
proof (induction ops arbitrary: s)
  case Nil
  then show ?case by (simp add: run_ops_def)
next
  case (Cons op ops)
  obtain e w where s: "s = (e, w)" by (cases s)
  have "run_inv rp (run_op op (e, w))" by (rule run_op_inv) (use Cons.prems s in simp_all)
  with s have "run_inv rp (run_op op s)" by simp
  from Cons.IH [OF this] Cons.prems(2) show ?case by (simp add: run_ops_def)
qed

lemma start_run_inv:
  "start_state (fw_responder rp) s \<Longrightarrow> run_inv rp s"
  by (auto simp: start_state_def run_inv_def be.engine_ok_def open_for_def pg_log_def)

section \<open>The whitelist along a run\<close>

text \<open>Every address in the log is one the engine's whitelist does not cover.\<close>

definition log_clean :: "ipnet option list \<Rightarrow> ('i, 'f) resp_db \<Rightarrow> bool" where
  "log_clean nets w = (\<forall>s \<in> set (map a_SourceIP (pg_log w)). \<not> ipInNets s nets)"

lemma ipInNets_parse: "parse_ip s = parse_ip t \<Longrightarrow> ipInNets s nets = ipInNets t nets"
  by (simp add: ipInNets_def)

lemma log_clean_same: "map a_SourceIP (pg_log w') = map a_SourceIP (pg_log w) \<Longrightarrow> log_clean nets w' = log_clean nets w"
  by (simp only: log_clean_def)

lemma log_clean_snoc:
  assumes "map a_SourceIP (pg_log w') = map a_SourceIP (pg_log w) @ [addr]" "pg_inv w"
    "parse_ip s \<noteq> None" "pg_canon w s = Some addr" "\<not> ipInNets s nets" "log_clean nets w"
  shows "log_clean nets w'"
proof -
  from pg.canon_parse [OF assms(2-4)] have "ipInNets addr nets = ipInNets s nets" by (rule ipInNets_parse)
  with assms show ?thesis by (simp only: log_clean_def) auto
qed

lemma run_op_clean:
  assumes inv: "run_inv rp (e, w)" and wf: "wf_op op" "\<not> is_set_whitelist op"
    and clean: "log_clean (e_whitelist e) w" and step: "run_op op (e, w) = (e', w')"
  shows "e_whitelist e' = e_whitelist e \<and> log_clean (e_whitelist e) w'"
proof -
  from inv have pg: "pg_inv w" and ok: "be.engine_ok rp e" by (simp_all add: run_inv_def)
  have same: "e' = e \<Longrightarrow> map a_SourceIP (pg_log w') = map a_SourceIP (pg_log w) \<Longrightarrow> ?thesis"
    using clean log_clean_same [of w' w] by simp
  show ?thesis
  proof (cases op)
    case (OpRecommend ev)
    with step obtain r where e: "e' = e" and r: "Recommend e (db_clock w) (Some ev) w = (r, w')"
      by (cases "Recommend e (db_clock w) (Some ev) w") auto
    show ?thesis
    proof (cases "case ev_Source ev of None \<Rightarrow> True | Some s \<Rightarrow> ep_IP s = []")
      case True
      from r have "w' = w" by (simp add: recommend_nothing [OF True])
      with e clean show ?thesis by simp
    next
      case False
      then obtain s where s: "ev_Source ev = Some s" "ep_IP s \<noteq> []" by (auto split: option.splits)
      with wf OpRecommend have ip: "parse_ip (ep_IP s) \<noteq> None" by simp
      note rec = be.recommend_log [OF pg ok r s(1) ip]
      show ?thesis
      proof (cases "\<exists>a. r = Inr (Some a)")
        case True
        with rec obtain addr where "pg_canon w (ep_IP s) = Some addr" "\<not> ipInNets (ep_IP s) (e_whitelist e)"
          "map a_SourceIP (pg_log w') = map a_SourceIP (pg_log w) @ [addr]"
          by (auto simp: be.recommended_for_def)
        from log_clean_snoc [OF this(3) pg ip this(1,2) clean] e show ?thesis by simp
      next
        case False
        with rec have "same_but_reason (pg_log w') (pg_log w)" by (auto split: sum.splits option.splits)
        with e show ?thesis by (intro same same_but_reason_ips)
      qed
    qed
  next
    case (OpBan s d u)
    with step obtain r where e: "e' = e" and r: "BanIP e (db_clock w) s d u w = (r, w')"
      by (cases "BanIP e (db_clock w) s d u w") auto
    from be.ban_log [OF pg ok r] consider "map a_SourceIP (pg_log w') = map a_SourceIP (pg_log w)"
      | addr where "pg_canon w (trim_space s) = Some addr" "parse_ip (trim_space s) \<noteq> None"
        "\<not> ipInNets (trim_space s) (e_whitelist e)"
        "map a_SourceIP (pg_log w') = map a_SourceIP (pg_log w) @ [addr]" by auto
    then show ?thesis
    proof cases
      case 1
      with e show ?thesis by (rule same)
    next
      case 2
      from log_clean_snoc [OF 2(4) pg 2(2,1,3) clean] e show ?thesis by simp
    qed
  next
    case (OpApprove i u)
    with step obtain r where e: "e' = e" and r: "Approve e i u w = (r, w')" by (cases "Approve e i u w") auto
    from be.approve_log [OF pg ok r] e show ?thesis by (intro same) auto
  next
    case (OpDismiss i u)
    with step obtain r where e: "e' = e" and r: "Dismiss e i u w = (r, w')" by (cases "Dismiss e i u w") auto
    from be.dismiss_log [OF pg ok r] e show ?thesis by (intro same) auto
  next
    case (OpUnban i u)
    with step obtain r where e: "e' = e" and r: "Unban e i u w = (r, w')" by (cases "Unban e i u w") auto
    from be.unban_log [OF pg ok r] have "map a_SourceIP (pg_log w') = map a_SourceIP (pg_log w)"
      by (metis log_ips(1,3))
    with e show ?thesis by (rule same)
  next
    case (OpDismissPending s u)
    with step obtain r where e: "e' = e" and r: "pg_DismissPendingForIP s u w = (r, w')"
      by (cases "pg_DismissPendingForIP s u w") auto
    from dismiss_pending_log [OF pg r] e show ?thesis by (intro same) auto
  next
    case (OpSetPolicy p)
    with step clean show ?thesis by (auto simp: SetPolicy_def)
  next
    case (OpSetWhitelist ns)
    with wf show ?thesis by simp
  next
    case (OpTick n)
    with step show ?thesis by (intro same) (auto simp: tick_log)
  next
    case (OpFaults fs)
    with step show ?thesis by (intro same) (auto simp: tick_log)
  qed
qed

lemma run_ops_clean:
  assumes "run_inv rp (e, w)" "\<forall>op \<in> set ops. wf_op op \<and> \<not> is_set_whitelist op"
    "log_clean (e_whitelist e) w" "run_ops ops (e, w) = (e', w')"
  shows "e_whitelist e' = e_whitelist e \<and> log_clean (e_whitelist e) w'"
  using assms
proof (induction ops arbitrary: e w)
  case Nil
  then show ?case by (simp add: run_ops_def)
next
  case (Cons op ops)
  obtain e1 w1 where 1: "run_op op (e, w) = (e1, w1)" by (cases "run_op op (e, w)")
  have op: "wf_op op" "\<not> is_set_whitelist op" using Cons.prems(2) by simp_all
  have inv1: "run_inv rp (e1, w1)" using run_op_inv [OF Cons.prems(1) op(1)] 1 by simp
  from run_op_clean [OF Cons.prems(1) op Cons.prems(3) 1]
  have c: "e_whitelist e1 = e_whitelist e" "log_clean (e_whitelist e1) w1" by simp_all
  have "run_ops ops (e1, w1) = (e', w')" using Cons.prems(4) 1 by (simp add: run_ops_def)
  from Cons.IH [OF inv1 _ c(2) this] Cons.prems(2) c(1) show ?case by simp
qed

end
