(* ===== verification/Response_Props.thy ===== *)
theory Response_Props
  imports Response
begin

text \<open>
  The properties of the response engine on the Postgres store: one open action per address, the
  whitelist, escalation, lifting a block, merging reasons, and the deployment \<open>demo_db\<close> on which
  they are instantiated.
\<close>

section \<open>A concrete deployment\<close>

text \<open>Addresses are their texts, identifiers are numbered, and the firewall is the list of blocked texts.\<close>

definition demo_db :: "(string, string list) resp_db" where
  "demo_db = \<lparr>db_faults = [], db_clock = 0, db_uuid = (\<lambda>n. replicate n CHR ''x''), db_seq = 0,
     ra_rows = [], ra_inet_in = Some, ra_inet_host = id, ra_fw = []\<rparr>"

definition demo_fw :: "string list responder" where
  "demo_fw = \<lparr>rs_Name = ''local'', rs_Block = (\<lambda>s d f. (None, s # f)),
     rs_Unblock = (\<lambda>s f. (None, filter (\<lambda>x. x \<noteq> s) f))\<rparr>"

definition demo_engine :: "(string, string list) resp_db engine" where
  "demo_engine = NewEngine pg_store (Some (fw_responder demo_fw)) DefaultBanPolicy False"

definition demo_event :: "string \<Rightarrow> event" where
  "demo_event s = empty_event\<lparr>ev_Source := Some (endpoint_of s)\<rparr>"

lemma demo_inv [simp]: "pg_inv demo_db"
  by (auto simp: demo_db_def pg_inv_def pg_laws_def inj_def dest: arg_cong [where f = length])

lemma demo_start [simp]: "start_state (fw_responder demo_fw) (demo_engine, demo_db)"
  by (simp add: start_state_def demo_engine_def NewEngine_def Let_def) (simp add: demo_db_def)

section \<open>Runs\<close>



lemma active_blocks_log:
  assumes "pg_ActiveBlocks w = (Inr ips, w')"
  shows "set ips = {a_SourceIP a | a. a \<in> set (pg_log w) \<and> act_active a \<and> act_unexpired (db_clock w) a}"
proof -
  obtain w1 where q: "query w = (False, w1)"
    and ips: "ips = remdups (map (\<lambda>r. ra_inet_host w1 (r_source_ip r))
       (filter (\<lambda>r. active_block_row r \<and> row_unexpired (db_clock w1) r) (ra_rows w1)))"
    using assms by (auto simp: pg_ActiveBlocks_def split: prod.splits bool.splits)
  then show ?thesis using q by (force simp: pg_log_def)
qed

text \<open>
  C2: As long as the whitelist is not reloaded, no address it covers is ever enforced: it is not
  among the active blocks, the list every enforcement point is built from.
\<close>

theorem whitelisted_never_enforced:
  assumes "start_state (fw_responder rp) (e, w)"
    and "\<forall>op \<in> set ops. wf_op op \<and> \<not> is_set_whitelist op"
    and "run_ops ops (e, w) = (e', w')" "pg_ActiveBlocks w' = (Inr ips, w'')" "s \<in> set ips"
  shows "\<not> Whitelisted e' s"
proof -
  have "log_clean (e_whitelist e) w"
    using assms(1) by (simp add: start_state_def log_clean_def pg_log_def)
  from run_ops_clean [OF start_run_inv [OF assms(1)] assms(2) this assms(3)]
  have "e_whitelist e' = e_whitelist e" "log_clean (e_whitelist e) w'" by simp_all
  moreover from active_blocks_log [OF assms(4)] assms(5) have "s \<in> set (map a_SourceIP (pg_log w'))" by auto
  ultimately show ?thesis unfolding Whitelisted_def log_clean_def by metis
qed

definition demo_guarded :: "(string, string list) resp_db engine" where
  "demo_guarded = SetWhitelist demo_engine [Some (Net4 0xC0A80000 16)]"

definition demo_ban :: "(string, string list) resp_state" where
  "demo_ban = run_ops [OpBan ''10.0.0.1'' 0 ''ann''] (demo_guarded, demo_db)"

lemma demo_guarded_start [simp]: "start_state (fw_responder demo_fw) (demo_guarded, demo_db)"
  using demo_start by (simp add: start_state_def demo_guarded_def SetWhitelist_def)

lemma demo_ban_blocks: "fst (pg_ActiveBlocks (snd demo_ban)) = Inr [''10.0.0.1'']"
  by code_simp

theorem whitelisted_never_enforced_witness: "\<not> Whitelisted (fst demo_ban) ''10.0.0.1''"
proof (rule whitelisted_never_enforced [OF demo_guarded_start])
  show "run_ops [OpBan ''10.0.0.1'' 0 ''ann''] (demo_guarded, demo_db) = (fst demo_ban, snd demo_ban)"
    by (simp add: demo_ban_def)
  show "pg_ActiveBlocks (snd demo_ban) = (Inr [''10.0.0.1''], snd (pg_ActiveBlocks (snd demo_ban)))"
    by (simp add: demo_ban_blocks prod_eq_iff)
qed simp_all

lemma log_unban_active: "c \<in> set (log_unban addr u t l) \<Longrightarrow> act_active c \<Longrightarrow> a_SourceIP c \<noteq> addr"
proof -
  assume c: "c \<in> set (log_unban addr u t l)" "act_active c"
  then obtain b where b: "c = (if act_active b \<and> a_SourceIP b = addr
      then b\<lparr>a_Status := Unbanned, a_DecidedBy := u, a_DecidedAt := Some t\<rparr> else b)"
    unfolding log_unban_def set_map by (elim imageE)
  show "a_SourceIP c \<noteq> addr"
  proof (cases "act_active b \<and> a_SourceIP b = addr")
    case True
    with b c(2) show ?thesis by (simp add: act_active_def)
  next
    case False
    with b c(2) show ?thesis by metis
  qed
qed

text \<open>
  C3: A successful unban of a block lifts at least one row and leaves its address out of the
  active blocks, however many rows of that address were in force.
\<close>

theorem unban_lifts_every_block:
  assumes "pg_inv w" "e_store e = pg_store"
    and "e_responder e = None \<or> e_responder e = Some (fw_responder rp)"
    and "a \<in> set (pg_log w)" "a_ID a = uid" "a_ActionType a = ''block''"
    and "Unban e uid u w = (Inr n, w')" "pg_ActiveBlocks w' = (Inr ips, w'')"
  shows "0 < n \<and> a_SourceIP a \<notin> set ips"
proof -
  have ok: "be.engine_ok rp e" using assms(2,3) by (simp add: be.engine_ok_def)
  from be.unban_log [OF assms(1) ok assms(7), THEN conjunct2, THEN conjunct2, THEN spec, THEN mp, OF refl]
  obtain b where b: "b \<in> set (pg_log w)" "a_ID b = uid"
    and lift: "a_ActionType b = ''block'' \<longrightarrow> act_active b \<and>
      pg_log w' = log_unban (a_SourceIP b) u (db_clock w) (pg_log w) \<and>
      n = count_rows (\<lambda>c. act_active c \<and> a_SourceIP c = a_SourceIP b) (pg_log w)"
    by blast
  from pg.distinct_ids [OF assms(1)] have "inj_on a_ID (set (pg_log w))" by (simp add: distinct_map)
  with b assms(4,5) have "b = a" by (auto dest: inj_onD)
  with lift assms(6) have act: "act_active a" and log: "pg_log w' = log_unban (a_SourceIP a) u (db_clock w) (pg_log w)"
    and n: "n = count_rows (\<lambda>c. act_active c \<and> a_SourceIP c = a_SourceIP a) (pg_log w)" by simp_all
  have "0 < n" unfolding n count_rows_pos using act assms(4) by blast
  moreover have "a_SourceIP a \<notin> set ips"
  proof
    assume "a_SourceIP a \<in> set ips"
    with active_blocks_log [OF assms(8)] obtain c where "c \<in> set (pg_log w')" "act_active c"
      "a_SourceIP c = a_SourceIP a" by auto
    with log log_unban_active show False by metis
  qed
  ultimately show ?thesis by simp
qed


lemma demo_ban_inv: "pg_inv (snd demo_ban) \<and> e_store (fst demo_ban) = pg_store \<and>
    (e_responder (fst demo_ban) = None \<or> e_responder (fst demo_ban) = Some (fw_responder demo_fw))"
  using run_ops_inv [OF start_run_inv [OF demo_guarded_start], of "[OpBan ''10.0.0.1'' 0 ''ann'']"]
  by (auto simp: run_inv_def demo_ban_def be.engine_ok_def)

definition demo_row :: action where
  "demo_row = hd (pg_log (snd demo_ban))"

definition demo_lifted :: "(resp_error + int) \<times> (string, string list) resp_db" where
  "demo_lifted = Unban (fst demo_ban) [] ''ann'' (snd demo_ban)"

lemma demo_row_facts:
  "map a_ID (pg_log (snd demo_ban)) = [[]]" "a_ActionType demo_row = ''block''"
  "fst demo_lifted = Inr 1" "fst (pg_ActiveBlocks (snd demo_lifted)) = Inr []"
  by code_simp+

theorem unban_lifts_every_block_witness: "(0::int) < 1 \<and> a_SourceIP demo_row \<notin> set []"
proof (rule unban_lifts_every_block [where rp = demo_fw])
  show "demo_row \<in> set (pg_log (snd demo_ban))" "a_ID demo_row = []"
    using demo_row_facts(1) by (auto simp: demo_row_def)
  show "a_ActionType demo_row = ''block''" by (rule demo_row_facts)
  show "Unban (fst demo_ban) [] ''ann'' (snd demo_ban) = (Inr 1, snd demo_lifted)"
    using demo_row_facts(3) by (simp add: demo_lifted_def prod_eq_iff)
  show "pg_ActiveBlocks (snd demo_lifted) = (Inr [], snd (pg_ActiveBlocks (snd demo_lifted)))"
    using demo_row_facts(4) by (simp add: prod_eq_iff)
qed (use demo_ban_inv in simp_all)

section \<open>Recommendations\<close>

text \<open>
  A recommendation made for an address is for one that is not whitelisted and has no open
  action; its offense count is one more than the executed blocks in the observation window, its
  ban is the step of the ladder for that count, and exactly one row for that address is added.
\<close>

theorem recommend_escalates:
  assumes "pg_inv w" "e_store e = pg_store"
    and "e_responder e = None \<or> e_responder e = Some (fw_responder rp)"
    and "ev_Source ev = Some src" "parse_ip (ep_IP src) \<noteq> None"
    and "Recommend e t (Some ev) w = (Inr (Some a), w')"
  shows "\<exists>addr. pg_canon w (ep_IP src) = Some addr \<and> \<not> Whitelisted e (ep_IP src) \<and>
    open_for (db_clock w) addr (pg_log w) = 0 \<and>
    a_OffenseCount a = count_rows (act_offense (window_since (e_policy e) t) addr) (pg_log w) + 1 \<and>
    a_BanSeconds a = seconds_of (Duration (e_policy e) (a_OffenseCount a)) \<and>
    map a_SourceIP (pg_log w') = map a_SourceIP (pg_log w) @ [addr]"
proof -
  have ok: "be.engine_ok rp e" using assms(2,3) by (simp add: be.engine_ok_def)
  from be.recommend_log [OF assms(1) ok assms(6,4,5)] have "be.recommended_for e t (ep_IP src) w w' a" by simp
  then show ?thesis unfolding be.recommended_for_def Whitelisted_def by blast
qed

definition demo_second :: "(resp_error + action option) \<times> (string, string list) resp_db" where
  "demo_second = Recommend (fst demo_ban) (2 * hour) (Some (demo_event ''10.0.0.1''))
     ((snd demo_ban)\<lparr>db_clock := 2 * hour\<rparr>)"

definition demo_second_action :: action where
  "demo_second_action = (case fst demo_second of Inr (Some a) \<Rightarrow> a | _ \<Rightarrow> demo_row)"

lemma demo_second_facts:
  "(case fst demo_second of Inr (Some a) \<Rightarrow> True | _ \<Rightarrow> False)"
  "a_OffenseCount demo_second_action = 2" "a_BanSeconds demo_second_action = 3600"
  "parse_ip ''10.0.0.1'' \<noteq> None"
  by code_simp+

theorem recommend_escalates_witness:
  "\<exists>addr. pg_canon (snd demo_ban) ''10.0.0.1'' = Some addr \<and>
     a_BanSeconds demo_second_action = seconds_of (Duration (e_policy (fst demo_ban)) (a_OffenseCount demo_second_action))"
proof -
  let ?w = "(snd demo_ban)\<lparr>db_clock := 2 * hour\<rparr>"
  have inv: "pg_inv ?w" using demo_ban_inv by (simp add: tick_log)
  have rec: "Recommend (fst demo_ban) (2 * hour) (Some (demo_event ''10.0.0.1'')) ?w =
      (Inr (Some demo_second_action), snd demo_second)"
    using demo_second_facts(1)
    by (simp add: demo_second_def [symmetric] demo_second_action_def prod_eq_iff split: sum.splits option.splits)
  have src: "ev_Source (demo_event ''10.0.0.1'') = Some (endpoint_of ''10.0.0.1'')"
    and ip: "ep_IP (endpoint_of ''10.0.0.1'') = ''10.0.0.1''"
    by (simp_all add: demo_event_def endpoint_of_def)
  have "parse_ip (ep_IP (endpoint_of ''10.0.0.1'')) \<noteq> None" using demo_second_facts(4) ip by simp
  from recommend_escalates [OF inv _ _ src this rec, of demo_fw] demo_ban_inv ip
  obtain addr where "pg_canon ?w ''10.0.0.1'' = Some addr"
    "a_BanSeconds demo_second_action = seconds_of (Duration (e_policy (fst demo_ban)) (a_OffenseCount demo_second_action))"
    by auto
  then show ?thesis by (auto simp: pg_canon_def)
qed

lemma pg_read_frame:
  "pg_HasOpenAction s w = (rb, w') \<Longrightarrow> ra_fw w' = ra_fw w \<and> ra_rows w' = ra_rows w"
  "pg_Offenses s since w = (ri, w') \<Longrightarrow> ra_fw w' = ra_fw w \<and> ra_rows w' = ra_rows w"
  by (auto simp: pg_HasOpenAction_def pg_Offenses_def pg_for_ip_def split: prod.splits bool.splits option.splits)

text \<open>The rows that somebody or something decided on.\<close>

definition decided :: "('i, 'f) resp_db \<Rightarrow> (string \<times> status) list" where
  "decided w = map (\<lambda>r. (r_id r, r_status r)) (filter (\<lambda>r. r_status r \<noteq> Recommended) (ra_rows w))"

lemma decided_rows: "ra_rows w' = ra_rows w \<Longrightarrow> decided w' = decided w"
  by (simp add: decided_def)

lemma pg_append_frame:
  assumes "pg_AppendReason s reason w = (ru, w')"
  shows "ra_fw w' = ra_fw w \<and> decided w' = decided w"
proof -
  have "map (\<lambda>r. (r_id r, r_status r)) (filter (\<lambda>r. r_status r \<noteq> Recommended) (map (\<lambda>r. if p r then r\<lparr>r_reason := f r\<rparr> else r) rs)) =
      map (\<lambda>r. (r_id r, r_status r)) (filter (\<lambda>r. r_status r \<noteq> Recommended) rs)"
    for p :: "'x action_row \<Rightarrow> bool" and f rs by (induction rs) auto
  then show ?thesis using assms
    by (auto simp: pg_AppendReason_def pg_for_ip_def Let_def update_rows_def decided_def
        split: if_splits prod.splits bool.splits option.splits)
qed

lemma pg_insert_frame:
  assumes "pg_Insert a w = (rs, w')" "a_Status a = Recommended"
  shows "ra_fw w' = ra_fw w \<and> decided w' = decided w"
  using assms by (auto simp: pg_Insert_def Let_def fresh_id_def decided_def
      split: prod.splits bool.splits option.splits if_splits)

text \<open>
  With automatic approval off, an alert never reaches the firewall and never decides anything:
  the backend's state is unchanged and every row that was decided before is the same after.
\<close>

theorem recommend_needs_approval:
  assumes "e_store e = pg_store" "\<not> AutoApprove (e_policy e)" "Recommend e t mev w = (r, w')"
  shows "ra_fw w' = ra_fw w \<and> decided w' = decided w"
proof -
  note frames = pg_read_frame pg_append_frame pg_insert_frame
  have st: "st_HasOpenAction (e_store e) = pg_HasOpenAction" "st_Offenses (e_store e) = pg_Offenses"
    "st_AppendReason (e_store e) = pg_AppendReason" "st_Insert (e_store e) = pg_Insert"
    using assms(1) by (simp_all add: pg_store_def)
  from assms(2,3) show ?thesis
    by (auto simp: Recommend_def Let_def st block_action_def
        dest!: pg_read_frame pg_append_frame pg_insert_frame dest: decided_rows
        split: option.splits if_splits prod.splits sum.splits bool.splits)
qed

theorem recommend_needs_approval_witness:
  "ra_fw (snd demo_second) = ra_fw ((snd demo_ban)\<lparr>db_clock := 2 * hour\<rparr>) \<and>
   decided (snd demo_second) = decided ((snd demo_ban)\<lparr>db_clock := 2 * hour\<rparr>)"
proof (rule recommend_needs_approval)
  show "e_store (fst demo_ban) = pg_store" using demo_ban_inv by simp
  show "\<not> AutoApprove (e_policy (fst demo_ban))" by code_simp
  show "Recommend (fst demo_ban) (2 * hour) (Some (demo_event ''10.0.0.1'')) ((snd demo_ban)\<lparr>db_clock := 2 * hour\<rparr>) =
      (fst demo_second, snd demo_second)" by (simp add: demo_second_def)
qed

section \<open>Approval\<close>

lemma find_by_id:
  assumes "distinct (map r_id rs)" "r \<in> set rs"
  shows "find (\<lambda>x. r_id x = r_id r) rs = Some r"
  using assms by (induction rs) (auto simp: image_iff)

lemma active_blocks_row:
  assumes "pg_ActiveBlocks w = (Inr ips, w')" "rr \<in> set (ra_rows w)" "active_block_row rr"
    "row_unexpired (db_clock w) rr"
  shows "ra_inet_host w (r_source_ip rr) \<in> set ips"
  unfolding active_blocks_log [OF assms(1)]
  using assms(2-4) by (auto intro!: exI [of _ "scanAction (ra_inet_host w) rr"] simp: pg_log_def)

text \<open>
  Approving a pending block, with the database up and a backend that accepts it, succeeds and
  puts its address among the active blocks at once.
\<close>

theorem approve_enforces:
  assumes "pg_inv w" "db_faults w = []" "e_store e = pg_store" "e_responder e = Some (fw_responder rp)"
    and "a \<in> set (pg_log w)" "a_Status a = Recommended" "a_ActionType a = ''block''" "0 \<le> a_BanSeconds a"
    and "rs_Block rp (a_SourceIP a) (BanDuration a) (ra_fw w) = (None, f)"
  shows "\<exists>w' ips. Approve e (a_ID a) u w = (Inr (), w') \<and> pg_ActiveBlocks w' = (Inr ips, w') \<and>
    a_SourceIP a \<in> set ips \<and> ra_fw w' = f"
proof -
  from assms(5) obtain r where r: "r \<in> set (ra_rows w)" "a = scanAction (ra_inet_host w) r"
    by (auto simp: pg_log_def)
  let ?ap = "\<lambda>x. if r_id x = r_id r then x\<lparr>r_status := Approved, r_decided_by := strOrNil u,
      r_decided_at := Some (db_clock w)\<rparr> else x"
  let ?ex = "\<lambda>x. if r_id x = r_id r then x\<lparr>r_status := Executed, r_responder := strOrNil (rs_Name rp),
      r_executed_at := Some (db_clock w), r_error := None\<rparr> else x"
  let ?w' = "w\<lparr>ra_rows := map ?ex (map ?ap (ra_rows w)), ra_fw := f\<rparr>"
  have get: "pg_Get (r_id r) w = (Inr a, w)"
    using assms(1,2) r find_by_id [of "ra_rows w" r] by (simp add: pg_Get_def pg_inv_def)
  have set_st: "pg_SetStatus (r_id r) Approved u w = (Inr (), w\<lparr>ra_rows := map ?ap (ra_rows w)\<rparr>)"
    using assms(2) r count_rows_zero [of "\<lambda>x. r_id x = r_id r" "ra_rows w"]
    by (auto simp: pg_SetStatus_def update_rows_def)
  have exec: "execute e a (w\<lparr>ra_rows := map ?ap (ra_rows w)\<rparr>) = (Inr (), ?w')"
    using assms(2,3,4,9) r by (simp add: execute_def pg_store_def fw_responder_def pg_SetExecuted_def update_rows_def)
  have "Approve e (a_ID a) u w = (Inr (), ?w')"
    using get set_st exec r assms(3,6) by (simp add: Approve_def pg_store_def)
  moreover obtain ips where ips: "pg_ActiveBlocks ?w' = (Inr ips, ?w')" using assms(2) by (simp add: pg_ActiveBlocks_def)
  moreover have "a_SourceIP a \<in> set ips"
  proof -
    let ?r = "?ex (?ap r)"
    have "?r \<in> set (ra_rows ?w')" using r(1) by simp
    moreover have "active_block_row ?r" using assms(7) r by (simp add: active_block_row_def)
    moreover have "row_unexpired (db_clock w) ?r"
      using assms(8) r by (auto simp: row_unexpired_def row_anchor_def scanAction_def zero_less_mult_iff)
    ultimately have "ra_inet_host ?w' (r_source_ip ?r) \<in> set ips" using active_blocks_row [OF ips, of ?r] by simp
    then show ?thesis using r(2) by simp
  qed
  ultimately show ?thesis by auto
qed

definition demo_pending :: "(string, string list) resp_state" where
  "demo_pending = run_ops [OpRecommend (demo_event ''10.0.0.1'')] (demo_engine, demo_db)"

definition demo_pending_row :: action where
  "demo_pending_row = hd (pg_log (snd demo_pending))"

lemma demo_pending_inv: "pg_inv (snd demo_pending) \<and> fst demo_pending = demo_engine"
proof -
  have "\<forall>op \<in> set [OpRecommend (demo_event ''10.0.0.1'')]. wf_op op"
    using demo_second_facts(4) by (simp add: demo_event_def endpoint_of_def)
  from run_ops_inv [OF start_run_inv [OF demo_start] this] show ?thesis
    by (simp add: run_inv_def demo_pending_def run_ops_def)
qed

lemma demo_pending_facts:
  "map a_ID (pg_log (snd demo_pending)) = [[]]" "a_Status demo_pending_row = Recommended"
  "a_ActionType demo_pending_row = ''block''" "0 \<le> a_BanSeconds demo_pending_row"
  "a_SourceIP demo_pending_row = ''10.0.0.1''" "db_faults (snd demo_pending) = []"
  "ra_fw (snd demo_pending) = []"
  by code_simp+

theorem approve_enforces_witness:
  "\<exists>w' ips. Approve demo_engine (a_ID demo_pending_row) ''ann'' (snd demo_pending) = (Inr (), w') \<and>
     pg_ActiveBlocks w' = (Inr ips, w') \<and> a_SourceIP demo_pending_row \<in> set ips \<and> ra_fw w' = [''10.0.0.1'']"
proof (rule approve_enforces)
  show "demo_pending_row \<in> set (pg_log (snd demo_pending))"
    using demo_pending_facts(1) by (auto simp: demo_pending_row_def)
  show "e_store demo_engine = pg_store" "e_responder demo_engine = Some (fw_responder demo_fw)"
    by (simp_all add: demo_engine_def NewEngine_def Let_def)
  show "rs_Block demo_fw (a_SourceIP demo_pending_row) (BanDuration demo_pending_row) (ra_fw (snd demo_pending)) =
      (None, [''10.0.0.1''])" by (simp add: demo_fw_def demo_pending_facts)
qed (use demo_pending_inv demo_pending_facts in simp_all)

text \<open>
  The whitelist is consulted when an action is recommended and when an operator bans an
  address, but not when a pending action is approved: an address recommended first, whitelisted
  next and approved last is enforced although the engine reports it as whitelisted.
\<close>

theorem approve_after_whitelisting:
  "let (e, w) = run_ops [OpRecommend (demo_event ''10.0.0.1''), OpSetWhitelist [Some (Net4 0x0A000001 32)],
         OpApprove [] ''ann''] (demo_engine, demo_db)
   in Whitelisted e ''10.0.0.1'' \<and> fst (pg_ActiveBlocks w) = Inr [''10.0.0.1'']"
  by code_simp

section \<open>Merging reasons\<close>

text \<open>A reason without the separator is one element of the array it is appended to.\<close>

definition plain_reason :: "string \<Rightarrow> bool" where
  "plain_reason s = (s \<noteq> [] \<and> pg_trim s = s \<and> split_reasons s = [s])"

lemma split_reasons_nonempty [simp]: "split_reasons s \<noteq> []"
  by (induction s rule: split_reasons.induct) (auto split: list.splits)

lemma split_reasons_append: "split_reasons (r @ CHR '','' # CHR '' '' # s) = split_reasons r @ split_reasons s"
  by (induction r rule: split_reasons.induct) (auto split: list.splits)

text \<open>
  Merging is idempotent for a reason that does not contain the separator: the second alert
  with the same title changes nothing, and a merged reason is never lost.
\<close>

theorem merge_reason_idem:
  assumes "plain_reason new"
  shows "merge_reason (merge_reason old new) new = merge_reason old new \<and>
    (\<forall>r. old = Some r \<longrightarrow> r \<noteq> [] \<longrightarrow> (\<exists>s. merge_reason old new = Some (r @ s)))"
  using assms by (auto simp: merge_reason_def plain_reason_def split_reasons_append split: option.splits)

theorem merge_reason_idem_witness:
  "merge_reason (merge_reason (Some ''scan'') ''SSH brute force'') ''SSH brute force'' =
     merge_reason (Some ''scan'') ''SSH brute force''"
proof -
  have "plain_reason ''SSH brute force''" by code_simp
  from merge_reason_idem [OF this, of "Some ''scan''"] show ?thesis by simp
qed

text \<open>
  A title that contains the separator is appended again although it is already there: the
  array has its two halves as elements and never the whole title.
\<close>

theorem merge_reason_separator:
  "let t = ''WAF Block Burst, Web Scanner / Attacker (aggregation)''
   in merge_reason (Some t) t = Some (t @ '', '' @ t)"
  by code_simp

end
