(* ===== verification/Go_Strconv.thy ===== *)
theory Go_Strconv
  imports Prelude
begin

text \<open>
  The parsers of Go's standard library that the components use on configuration text and rules:
  \<^verbatim>\<open>strconv.Atoi\<close> and \<^verbatim>\<open>time.ParseDuration\<close>, the fraction of a number being cut off exactly.
\<close>

section \<open>Integers\<close>

text \<open>\<^verbatim>\<open>strconv.Atoi\<close>: an optional sign, digits only, within 64 bits.\<close>

fun dec_value :: "int \<Rightarrow> string \<Rightarrow> int option" where
  "dec_value n [] = Some n"
| "dec_value n (c # cs) = (if is_digit c then dec_value (n * 10 + int (digit_val c)) cs else None)"

definition go_atoi :: "string \<Rightarrow> int option" where
  "go_atoi s =
     (let (neg, ds) = (case s of [] \<Rightarrow> (False, [])
            | c # cs \<Rightarrow> if c = CHR ''-'' then (True, cs) else if c = CHR ''+'' then (False, cs) else (False, s))
      in if ds = [] then None
         else case dec_value 0 ds of
           None \<Rightarrow> None
         | Some n \<Rightarrow> let m = (if neg then - n else n)
                    in if - (2 ^ 63) \<le> m \<and> m < 2 ^ 63 then Some m else None)"

section \<open>Durations\<close>

fun span_digits :: "string \<Rightarrow> string \<times> string" where
  "span_digits [] = ([], [])"
| "span_digits (c # s) = (if is_digit c then (case span_digits s of (ds, r) \<Rightarrow> (c # ds, r)) else ([], c # s))"

lemma span_digits_len: "length (snd (span_digits s)) \<le> length s"
  by (induction s) (auto split: prod.splits)

fun span_unit :: "string \<Rightarrow> string \<times> string" where
  "span_unit [] = ([], [])"
| "span_unit (c # s) =
     (if c = CHR ''.'' \<or> is_digit c then ([], c # s) else (case span_unit s of (u, r) \<Rightarrow> (c # u, r)))"

lemma span_unit_len: "length (snd (span_unit s)) + length (fst (span_unit s)) = length s"
  by (induction s) (auto split: prod.splits)

definition dec_of :: "string \<Rightarrow> int" where
  "dec_of ds = (case dec_value 0 ds of Some n \<Rightarrow> n | None \<Rightarrow> 0)"

definition unitMap :: "(string \<times> duration) list" where
  "unitMap = [(''ns'', 1), (''us'', 1000), ([CHR 0xC2, CHR 0xB5] @ ''s'', 1000), ([CHR 0xCE, CHR 0xBC] @ ''s'', 1000),
     (''ms'', 1000000), (''s'', second), (''m'', minute), (''h'', hour)]"

text \<open>One number with its unit, and the rest of the text.\<close>

definition duration_item :: "string \<Rightarrow> (int \<times> string) option" where
  "duration_item s =
     (case span_digits s of
        (ds, r) \<Rightarrow>
          let (fs, r') = (case r of [] \<Rightarrow> ([], r) | c # r1 \<Rightarrow> if c = CHR ''.'' then span_digits r1 else ([], r))
          in if ds = [] \<and> fs = [] then None
             else (case span_unit r' of
                     (u, rest) \<Rightarrow>
                       (case map_of unitMap u of
                          None \<Rightarrow> None
                        | Some unit \<Rightarrow>
                            let v = dec_of ds * unit + dec_of fs * unit div 10 ^ length fs
                            in if v > 2 ^ 63 then None else Some (v, rest))))"

lemma duration_item_shorter: "duration_item s = Some (v, rest) \<Longrightarrow> length rest < length s"
proof -
  assume a: "duration_item s = Some (v, rest)"
  obtain ds r where d: "span_digits s = (ds, r)" by force
  define q where "q = (case r of [] \<Rightarrow> ([], r) | c # r1 \<Rightarrow> if c = CHR ''.'' then span_digits r1 else ([], r))"
  obtain fs r' where q: "q = (fs, r')" by force
  obtain u rest' where u: "span_unit r' = (u, rest')" by force
  have "length r \<le> length s" using span_digits_len [of s] d by simp
  moreover have "length r' \<le> length r" using q span_digits_len [of "tl r"]
    by (auto simp: q_def split: list.splits if_splits)
  moreover have "length rest' + length u = length r'" using span_unit_len [of r'] u by simp
  moreover have "rest = rest'" "map_of unitMap u \<noteq> None"
    using a unfolding duration_item_def d prod.case Let_def q_def [symmetric] q u
    by (auto split: if_splits option.splits)
  moreover have "map_of unitMap [] = None" by code_simp
  ultimately show ?thesis by (cases u) auto
qed

function duration_items :: "int \<Rightarrow> string \<Rightarrow> int option" where
  "duration_items d s =
     (if s = [] then Some d
      else case duration_item s of
        None \<Rightarrow> None
      | Some (v, rest) \<Rightarrow> if d + v > 2 ^ 63 then None else duration_items (d + v) rest)"
  by auto
termination by (relation "measure (\<lambda>(d, s). length s)") (auto dest: duration_item_shorter)

definition ParseDuration :: "string \<Rightarrow> duration option" where
  "ParseDuration s =
     (let neg = (s \<noteq> [] \<and> hd s = CHR ''-'');
          r = (if s \<noteq> [] \<and> (hd s = CHR ''-'' \<or> hd s = CHR ''+'') then tl s else s)
      in if r = ''0'' then Some 0
         else if r = [] then None
         else (case duration_items 0 r of
                 None \<Rightarrow> None
               | Some d \<Rightarrow> if neg then Some (- d) else if d > 2 ^ 63 - 1 then None else Some d))"

end
