(* ===== verification/Sigma.thy ===== *)
theory Sigma
  imports Events Go_Net Go_Strconv
begin

text \<open>
  The Sigma evaluator of \<^verbatim>\<open>internal/detect/sigma\<close>: the rule as parsed from YAML, the field
  taxonomy of \<^verbatim>\<open>mapping.go\<close>, selection matching, and the condition language with its
  recursive-descent evaluator.

  YAML decoding is a third-party package: a rule starts here as the decoded document. A Go map of
  \<^verbatim>\<open>any\<close> is an association list with distinct keys, in the order the runtime iterates it.
  \<^verbatim>\<open>regexp\<close> is a parameter of the matching functions: \<open>re e s\<close> is \<open>None\<close> when \<open>e\<close> does not
  compile, and otherwise whether it matches \<open>s\<close>.
\<close>

section \<open>Values\<close>

datatype go_any =
    AStr string
  | ANil
  | AInt int
  | AText string
  | AList "go_any list"
  | AMap "(string \<times> go_any) list"

text \<open>
  \<^verbatim>\<open>fmt.Sprint\<close> of a decoded value; \<open>AText\<close> stands for the other scalars (floats, booleans,
  times), given by their printed form. Map keys are printed in order.
\<close>

fun go_sprint :: "go_any \<Rightarrow> string"
and sprint_list :: "go_any list \<Rightarrow> string list"
and sprint_map :: "(string \<times> go_any) list \<Rightarrow> (string \<times> string) list"
where
  "go_sprint (AStr s) = s"
| "go_sprint ANil = ''<nil>''"
| "go_sprint (AInt n) = go_itoa n"
| "go_sprint (AText s) = s"
| "go_sprint (AList xs) = ''['' @ join_with '' '' (sprint_list xs) @ '']''"
| "go_sprint (AMap kvs) = ''map['' @ join_with '' '' (map (\<lambda>(k, v). k @ '':'' @ v) (sort_key fst (sprint_map kvs))) @ '']''"
| "sprint_list [] = []"
| "sprint_list (x # xs) = go_sprint x # sprint_list xs"
| "sprint_map [] = []"
| "sprint_map ((k, v) # kvs) = (k, go_sprint v) # sprint_map kvs"

definition toStr :: "go_any \<Rightarrow> string" where
  "toStr v = (case v of AStr x \<Rightarrow> x | ANil \<Rightarrow> [] | _ \<Rightarrow> go_sprint v)"

definition toStringSlice :: "go_any \<Rightarrow> string list" where
  "toStringSlice v = (case v of AList xs \<Rightarrow> map toStr xs | _ \<Rightarrow> [toStr v])"

text \<open>\<^verbatim>\<open>m[k]\<close> of a \<^verbatim>\<open>map[string]any\<close>: nil when the key is missing.\<close>

definition any_get :: "(string \<times> go_any) list \<Rightarrow> string \<Rightarrow> go_any" where
  "any_get m k = (case map_of m k of Some v \<Rightarrow> v | None \<Rightarrow> ANil)"

definition str_get :: "(string \<times> string) list \<Rightarrow> string \<Rightarrow> string" where
  "str_get m k = (case map_of m k of Some v \<Rightarrow> v | None \<Rightarrow> [])"

definition isNumber :: "string \<Rightarrow> bool" where
  "isNumber s = (go_atoi s \<noteq> None)"

section \<open>Rules\<close>

record field_cond =
  fc_name :: string
  fc_modifiers :: "string list"
  fc_values :: "string list"

record selection =
  sel_fields :: "field_cond list"
  sel_keywords :: "string list"

record mitigation_action =
  ma_ActionType :: string
  ma_TimeoutSeconds :: int
  ma_CriticalityThreshold :: string

record sigma_rule =
  sr_ID :: string
  sr_Title :: string
  sr_Level :: string
  sr_Tags :: "string list"
  sr_LogSource :: "(string \<times> string) list"
  sr_Mitigation :: "mitigation_action option"
  sr_condition :: string
  sr_selections :: "(string \<times> selection) list"

record raw_rule =
  raw_ID :: string
  raw_Title :: string
  raw_Level :: string
  raw_Tags :: "string list"
  raw_LogSource :: "(string \<times> string) list"
  raw_Detection :: "(string \<times> go_any) list"
  raw_Mitigation :: "mitigation_action option"

datatype sigma_error =
    ConditionRequired
  | ListCondition
  | AggregationCondition
  | UnsupportedSelection string

fun parse_fields :: "(string \<times> go_any) list \<Rightarrow> field_cond list" where
  "parse_fields [] = []"
| "parse_fields ((fk, fv) # kvs) =
     (let parts = split_char CHR ''|'' fk
      in \<lparr>fc_name = hd parts, fc_modifiers = tl parts, fc_values = toStringSlice fv\<rparr> # parse_fields kvs)"

fun parseSelections :: "(string \<times> go_any) list \<Rightarrow> sigma_error + (string \<times> selection) list" where
  "parseSelections [] = Inr []"
| "parseSelections ((name, v) # rest) =
     (if name = ''condition'' \<or> name = ''timeframe'' then parseSelections rest
      else case v of
        AMap kvs \<Rightarrow>
          (case parseSelections rest of
             Inl e \<Rightarrow> Inl e
           | Inr out \<Rightarrow> Inr ((name, \<lparr>sel_fields = parse_fields kvs, sel_keywords = []\<rparr>) # out))
      | AList xs \<Rightarrow>
          (case parseSelections rest of
             Inl e \<Rightarrow> Inl e
           | Inr out \<Rightarrow> Inr ((name, \<lparr>sel_fields = [], sel_keywords = toStringSlice v\<rparr>) # out))
      | _ \<Rightarrow> Inl (UnsupportedSelection name))"

text \<open>\<^verbatim>\<open>ParseRule\<close> after decoding.\<close>

definition ParseRule :: "raw_rule \<Rightarrow> sigma_error + sigma_rule" where
  "ParseRule raw =
     (case map_of (raw_Detection raw) ''condition'' of
        None \<Rightarrow> Inl ConditionRequired
      | Some c \<Rightarrow>
          (case c of
             AStr cond \<Rightarrow>
               if contains_str cond ''|'' then Inl AggregationCondition
               else (case parseSelections (raw_Detection raw) of
                  Inl e \<Rightarrow> Inl e
                | Inr sels \<Rightarrow>
                    Inr \<lparr>sr_ID = raw_ID raw, sr_Title = raw_Title raw, sr_Level = raw_Level raw,
                         sr_Tags = raw_Tags raw, sr_LogSource = raw_LogSource raw,
                         sr_Mitigation =
                           (case raw_Mitigation raw of
                              Some m \<Rightarrow>
                                if ma_ActionType m \<noteq> [] then
                                  Some \<lparr>ma_ActionType = to_lower (trim_space (ma_ActionType m)),
                                        ma_TimeoutSeconds = ma_TimeoutSeconds m,
                                        ma_CriticalityThreshold = to_lower (trim_space (ma_CriticalityThreshold m))\<rparr>
                                else None
                            | None \<Rightarrow> None),
                         sr_condition = cond, sr_selections = sels\<rparr>)
           | _ \<Rightarrow> Inl ListCondition))"

section \<open>Taxonomy\<close>

definition fieldAliases :: "(string \<times> string) list" where
  "fieldAliases =
     [(''user'', ''user.name''), (''username'', ''user.name''), (''src_ip'', ''source.ip''),
      (''sourceip'', ''source.ip''), (''srcip'', ''source.ip''), (''src_port'', ''source.port''),
      (''dst_ip'', ''destination.ip''), (''destinationip'', ''destination.ip''),
      (''commandline'', ''process.command_line''), (''cmdline'', ''process.command_line''),
      (''image'', ''process.name''), (''computer'', ''host.name''), (''hostname'', ''host.name''),
      (''uri'', ''http.uri''), (''url'', ''http.uri''), (''request_uri'', ''http.uri''), (''c-uri'', ''http.uri''),
      (''cs-method'', ''http.method''), (''sc-status'', ''http.status_code'')]"

definition resolveField :: "string \<Rightarrow> string" where
  "resolveField name = (case map_of fieldAliases (to_lower name) of Some v \<Rightarrow> v | None \<Rightarrow> name)"

definition put :: "string \<Rightarrow> string \<Rightarrow> (string \<times> go_any) list" where
  "put k v = (if v \<noteq> [] then [(k, AStr v)] else [])"

definition put_int :: "string \<Rightarrow> int \<Rightarrow> (string \<times> go_any) list" where
  "put_int k n = (if n \<noteq> 0 then [(k, AInt n)] else [])"

definition FlattenEvent :: "event \<Rightarrow> (string \<times> go_any) list" where
  "FlattenEvent e =
     [(''event.severity'', AInt (ef_Severity (ev_Event e)))] @
     put ''event.category'' (ef_Category (ev_Event e)) @
     put ''event.action'' (ef_Action (ev_Event e)) @
     put ''event.outcome'' (ef_Outcome (ev_Event e)) @
     put ''event.dataset'' (ef_Dataset (ev_Event e)) @
     put ''event.original'' (ef_Original (ev_Event e)) @
     (case ev_Source e of None \<Rightarrow> []
      | Some s \<Rightarrow> put ''source.ip'' (ep_IP s) @ put_int ''source.port'' (ep_Port s)) @
     (case ev_Destination e of None \<Rightarrow> []
      | Some s \<Rightarrow> put ''destination.ip'' (ep_IP s) @ put_int ''destination.port'' (ep_Port s)) @
     (case ev_Host e of None \<Rightarrow> []
      | Some h \<Rightarrow> put ''host.name'' (host_Name h) @ put ''host.os.type'' (host_OSType h)) @
     (case ev_User e of None \<Rightarrow> []
      | Some u \<Rightarrow> put ''user.name'' (eu_Name u) @ put ''user.domain'' (eu_Domain u)) @
     (case ev_Process e of None \<Rightarrow> []
      | Some p \<Rightarrow> put ''process.name'' (proc_Name p) @ put ''process.command_line'' (proc_CommandLine p) @
                  put_int ''process.pid'' (proc_PID p)) @
     (case ev_File e of None \<Rightarrow> []
      | Some f \<Rightarrow> put ''file.path'' (file_Path f) @ put ''file.hash.sha256'' (file_HashSHA256 f)) @
     put ''deuswatch.file_hash.verdict'' (fr_Verdict (dw_FileHash (ev_DeusWatch e))) @
     (case ev_Network e of None \<Rightarrow> []
      | Some n \<Rightarrow> put ''network.protocol'' (net_Protocol n) @ put ''network.transport'' (net_Transport n)) @
     (case ev_HTTP e of None \<Rightarrow> []
      | Some h \<Rightarrow> put ''http.method'' (http_Method h) @ put ''http.uri'' (http_URI h) @
                  put ''http.host'' (http_Host h) @ put_int ''http.status_code'' (http_StatusCode h)) @
     (case ev_Rule e of None \<Rightarrow> []
      | Some r \<Rightarrow> put ''rule.id'' (er_ID r) @ put ''rule.name'' (er_Name r))"

section \<open>Matching a selection\<close>

definition matchValue :: "(string \<Rightarrow> string \<Rightarrow> bool option) \<Rightarrow> string \<Rightarrow> string list \<Rightarrow> string \<Rightarrow> bool" where
  "matchValue re got modifiers expected =
     (let g = to_lower got; e = to_lower expected in
      case modifiers of
        [] \<Rightarrow> g = e
      | m # _ \<Rightarrow>
          if m = ''contains'' then contains_str g e
          else if m = ''startswith'' then has_prefix g e
          else if m = ''endswith'' then has_suffix g e
          else if m = ''re'' then re expected got = Some True
          else False)"

definition matchKeywords :: "string list \<Rightarrow> (string \<times> go_any) list \<Rightarrow> bool" where
  "matchKeywords keywords ev =
     (let hay = to_lower (toStr (any_get ev ''event.original''))
      in hay \<noteq> [] \<and> list_ex (\<lambda>kw. contains_str hay (to_lower kw)) keywords)"

definition fieldCond_match ::
    "(string \<Rightarrow> string \<Rightarrow> bool option) \<Rightarrow> field_cond \<Rightarrow> (string \<times> go_any) list \<Rightarrow> bool" where
  "fieldCond_match re fc ev =
     (case (case map_of ev (fc_name fc) of
              Some v \<Rightarrow> Some v
            | None \<Rightarrow> map_of ev (resolveField (fc_name fc))) of
        None \<Rightarrow> False
      | Some raw \<Rightarrow> list_ex (\<lambda>e. matchValue re (toStr raw) (fc_modifiers fc) e) (fc_values fc))"

definition selection_match ::
    "(string \<Rightarrow> string \<Rightarrow> bool option) \<Rightarrow> selection \<Rightarrow> (string \<times> go_any) list \<Rightarrow> bool" where
  "selection_match re s ev =
     (if sel_keywords s \<noteq> [] then matchKeywords (sel_keywords s) ev
      else list_all (\<lambda>fc. fieldCond_match re fc ev) (sel_fields s) \<and> sel_fields s \<noteq> [])"

section \<open>Scope\<close>

definition logsourceCategory :: "(string \<times> string) list" where
  "logsourceCategory =
     [(''web'', ''web''), (''webserver'', ''web''), (''file_event'', ''file''), (''file_change'', ''file''),
      (''process_creation'', ''process''), (''network_connection'', ''network''), (''firewall'', ''network''),
      (''dns'', ''network''), (''authentication'', ''authentication'')]"

definition AppliesTo :: "sigma_rule \<Rightarrow> (string \<times> go_any) list \<Rightarrow> bool" where
  "AppliesTo r ev =
     (if sr_LogSource r = [] then True
      else
        (let cat = trim_space (str_get (sr_LogSource r) ''category'');
             want = (case map_of logsourceCategory (to_lower cat) of Some m \<Rightarrow> m | None \<Rightarrow> to_lower cat);
             got = to_lower (toStr (any_get ev ''event.category''));
             prod = trim_space (str_get (sr_LogSource r) ''product'');
             os = toStr (any_get ev ''host.os.type'')
         in (cat \<noteq> [] \<longrightarrow> \<not> (got = [] \<or> got \<noteq> want)) \<and>
            (prod \<noteq> [] \<longrightarrow> \<not> (os \<noteq> [] \<and> to_lower os \<noteq> to_lower prod))))"

section \<open>The condition language\<close>

record cond_parser =
  cp_toks :: "string list"
  cp_sel :: "(string \<times> bool) list"
  cp_names :: "string list"

datatype cond_error =
    MissingParen
  | ExpectedOf string
  | IncompleteCondition
  | UnknownSelection string
  | LeftoverTokens "string list"

fun pad_parens :: "string \<Rightarrow> string" where
  "pad_parens [] = []"
| "pad_parens (c # s) =
     (if c = CHR ''('' then '' ( '' else if c = CHR '')'' then '' ) '' else [c]) @ pad_parens s"

definition tokenize :: "string \<Rightarrow> string list" where
  "tokenize cond = Prelude.fields (pad_parens cond)"

text \<open>The parser's position is a count of tokens taken; \<^verbatim>\<open>take\<close> counts on past the end.\<close>

definition tok_at :: "string list \<Rightarrow> nat \<Rightarrow> string" where
  "tok_at toks pos = (if pos < length toks then toks ! pos else [])"

definition peek :: "cond_parser \<Rightarrow> nat \<Rightarrow> string" where
  "peek p pos = tok_at (cp_toks p) pos"

definition resolveTargets :: "cond_parser \<Rightarrow> string \<Rightarrow> string list" where
  "resolveTargets p target =
     (if target = ''them'' then cp_names p
      else if has_suffix target ''*'' then filter (\<lambda>n. has_prefix n (butlast target)) (cp_names p)
      else [target])"

definition count_matched :: "cond_parser \<Rightarrow> string list \<Rightarrow> int" where
  "count_matched p names = count_rows (\<lambda>n. map_of (cp_sel p) n = Some True) names"

text \<open>The value of \<^verbatim>\<open>all of T\<close>, \<^verbatim>\<open>any of T\<close> and \<^verbatim>\<open>N of T\<close>.\<close>

definition quantified :: "cond_parser \<Rightarrow> string \<Rightarrow> string \<Rightarrow> bool" where
  "quantified p t target =
     (let names = resolveTargets p target; matched = count_matched p names in
      if t = ''all'' then names \<noteq> [] \<and> matched = int (length names)
      else matched \<ge> (case go_atoi t of Some n \<Rightarrow> n | None \<Rightarrow> 1))"

function (sequential)
    parseOr :: "cond_parser \<Rightarrow> nat \<Rightarrow> (cond_error + bool) \<times> nat"
and parseAnd :: "cond_parser \<Rightarrow> nat \<Rightarrow> (cond_error + bool) \<times> nat"
and or_loop :: "cond_parser \<Rightarrow> bool \<Rightarrow> nat \<Rightarrow> (cond_error + bool) \<times> nat"
and and_loop :: "cond_parser \<Rightarrow> bool \<Rightarrow> nat \<Rightarrow> (cond_error + bool) \<times> nat"
and parseUnary :: "cond_parser \<Rightarrow> nat \<Rightarrow> (cond_error + bool) \<times> nat"
and parsePrimary :: "cond_parser \<Rightarrow> nat \<Rightarrow> (cond_error + bool) \<times> nat"
where
  "parseOr p pos =
     (case parseAnd p pos of
        (Inl e, pos1) \<Rightarrow> (Inl e, pos1)
      | (Inr v, pos1) \<Rightarrow> or_loop p v pos1)"
| "or_loop p v pos =
     (if peek p pos = ''or'' then
        (case parseAnd p (pos + 1) of
           (Inl e, pos1) \<Rightarrow> (Inl e, pos1)
         | (Inr rhs, pos1) \<Rightarrow> or_loop p (v \<or> rhs) pos1)
      else (Inr v, pos))"
| "parseAnd p pos =
     (case parseUnary p pos of
        (Inl e, pos1) \<Rightarrow> (Inl e, pos1)
      | (Inr v, pos1) \<Rightarrow> and_loop p v pos1)"
| "and_loop p v pos =
     (if peek p pos = ''and'' then
        (case parseUnary p (pos + 1) of
           (Inl e, pos1) \<Rightarrow> (Inl e, pos1)
         | (Inr rhs, pos1) \<Rightarrow> and_loop p (v \<and> rhs) pos1)
      else (Inr v, pos))"
| "parseUnary p pos =
     (if peek p pos = ''not'' then
        (case parseUnary p (pos + 1) of
           (Inl e, pos1) \<Rightarrow> (Inl e, pos1)
         | (Inr v, pos1) \<Rightarrow> (Inr (\<not> v), pos1))
      else parsePrimary p pos)"
| "parsePrimary p pos =
     (let t = peek p pos in
      if t = ''('' then
        (case parseOr p (pos + 1) of
           (Inl e, pos1) \<Rightarrow> (Inl e, pos1)
         | (Inr v, pos1) \<Rightarrow>
             if peek p pos1 \<noteq> '')'' then (Inl MissingParen, pos1 + 1) else (Inr v, pos1 + 1))
      else if t = ''all'' \<or> t = ''any'' \<or> isNumber t then
        (if peek p (pos + 1) \<noteq> ''of'' then (Inl (ExpectedOf t), pos + 2)
         else (Inr (quantified p t (peek p (pos + 2))), pos + 3))
      else if t = [] then (Inl IncompleteCondition, pos + 1)
      else (case map_of (cp_sel p) t of
              None \<Rightarrow> (Inl (UnknownSelection t), pos + 1)
            | Some v \<Rightarrow> (Inr v, pos + 1)))"
  by pat_completeness auto

text \<open>
  Whatever is parsed consumes at least one token; a loop never goes back. This is proved on the
  domain of the functions, since their termination rests on it.
\<close>

lemma parse_progress_dom:
  "parseOr_parseAnd_or_loop_and_loop_parseUnary_parsePrimary_dom (Inl (Inl (p, pos))) \<Longrightarrow> pos < snd (parseOr p pos)"
  "parseOr_parseAnd_or_loop_and_loop_parseUnary_parsePrimary_dom (Inl (Inr (Inl (p, pos)))) \<Longrightarrow> pos < snd (parseAnd p pos)"
  "parseOr_parseAnd_or_loop_and_loop_parseUnary_parsePrimary_dom (Inl (Inr (Inr (p, v, pos)))) \<Longrightarrow> pos \<le> snd (or_loop p v pos)"
  "parseOr_parseAnd_or_loop_and_loop_parseUnary_parsePrimary_dom (Inr (Inl (p, v, pos))) \<Longrightarrow> pos \<le> snd (and_loop p v pos)"
  "parseOr_parseAnd_or_loop_and_loop_parseUnary_parsePrimary_dom (Inr (Inr (Inl (p, pos)))) \<Longrightarrow> pos < snd (parseUnary p pos)"
  "parseOr_parseAnd_or_loop_and_loop_parseUnary_parsePrimary_dom (Inr (Inr (Inr (p, pos)))) \<Longrightarrow> pos < snd (parsePrimary p pos)"
proof (induction p pos and p pos and p v pos and p v pos and p pos and p pos
    rule: parseOr_parseAnd_or_loop_and_loop_parseUnary_parsePrimary.pinduct)
  case (1 p pos)
  then show ?case by (fastforce simp: parseOr.psimps split: prod.splits sum.splits)
next
  case (2 p v pos)
  then show ?case by (fastforce simp: or_loop.psimps split: prod.splits sum.splits)
next
  case (3 p pos)
  then show ?case by (fastforce simp: parseAnd.psimps split: prod.splits sum.splits)
next
  case (4 p v pos)
  then show ?case by (fastforce simp: and_loop.psimps split: prod.splits sum.splits)
next
  case (5 p pos)
  then show ?case by (fastforce simp: parseUnary.psimps split: prod.splits sum.splits)
next
  case (6 p pos)
  then show ?case by (fastforce simp: parsePrimary.psimps Let_def split: prod.splits sum.splits option.splits)
qed

lemma peek_nonempty: "peek p pos \<noteq> [] \<Longrightarrow> pos < length (cp_toks p)"
  by (simp add: peek_def tok_at_def split: if_splits)

termination parseOr
proof (relation "measure (\<lambda>x. case x of
      Inl (Inl (p, pos)) \<Rightarrow> 4 * (length (cp_toks p) - pos) + 3
    | Inl (Inr (Inl (p, pos))) \<Rightarrow> 4 * (length (cp_toks p) - pos) + 2
    | Inl (Inr (Inr (p, v, pos))) \<Rightarrow> 4 * (length (cp_toks p) - pos)
    | Inr (Inl (p, v, pos)) \<Rightarrow> 4 * (length (cp_toks p) - pos)
    | Inr (Inr (Inl (p, pos))) \<Rightarrow> 4 * (length (cp_toks p) - pos) + 1
    | Inr (Inr (Inr (p, pos))) \<Rightarrow> 4 * (length (cp_toks p) - pos))", goal_cases)
  case 1
  show ?case by simp
next
  case (3 p pos x y b)
  then show ?case using parse_progress_dom(2) [of p pos] by (simp add: prod_eq_iff)
next
  case (4 p v pos)
  then show ?case using peek_nonempty [of p pos] by simp
next
  case (5 p v pos x y b)
  then show ?case using peek_nonempty [of p pos] parse_progress_dom(2) [of p "pos + 1"] by (simp add: prod_eq_iff)
next
  case (7 p pos x y b)
  then show ?case using parse_progress_dom(5) [of p pos] by (simp add: prod_eq_iff)
next
  case (8 p v pos)
  then show ?case using peek_nonempty [of p pos] by simp
next
  case (9 p v pos x y b)
  then show ?case using peek_nonempty [of p pos] parse_progress_dom(5) [of p "pos + 1"] by (simp add: prod_eq_iff)
next
  case (10 p pos)
  then show ?case using peek_nonempty [of p pos] by simp
next
  case (12 p pos x)
  then have "peek p pos \<noteq> []" by auto
  then show ?case using peek_nonempty [of p pos] by simp
qed simp_all

declare parseOr.simps [simp del] or_loop.simps [simp del] parseAnd.simps [simp del] and_loop.simps [simp del]
  parseUnary.simps [simp del] parsePrimary.simps [simp del]

text \<open>
  \<^verbatim>\<open>eval\<close>. The error for left-over tokens prints \<^verbatim>\<open>p.toks[p.pos:]\<close>, which panics when the
  position is past the end.
\<close>

datatype cond_outcome = CondValue bool | CondError cond_error | CondPanic

definition cond_eval :: "cond_parser \<Rightarrow> cond_outcome" where
  "cond_eval p =
     (case parseOr p 0 of
        (Inl e, _) \<Rightarrow> CondError e
      | (Inr v, pos) \<Rightarrow>
          if pos \<noteq> length (cp_toks p) then
            (if pos > length (cp_toks p) then CondPanic else CondError (LeftoverTokens (drop pos (cp_toks p))))
          else CondValue v)"

section \<open>Rules and rule sets\<close>

definition rule_parser ::
    "(string \<Rightarrow> string \<Rightarrow> bool option) \<Rightarrow> sigma_rule \<Rightarrow> (string \<times> go_any) list \<Rightarrow> cond_parser" where
  "rule_parser re r ev =
     \<lparr>cp_toks = tokenize (sr_condition r),
      cp_sel = map (\<lambda>(name, sel). (name, selection_match re sel ev)) (sr_selections r),
      cp_names = map fst (sr_selections r)\<rparr>"

definition rule_Matches ::
    "(string \<Rightarrow> string \<Rightarrow> bool option) \<Rightarrow> sigma_rule \<Rightarrow> (string \<times> go_any) list \<Rightarrow> cond_outcome" where
  "rule_Matches re r ev = cond_eval (rule_parser re r ev)"

text \<open>\<^verbatim>\<open>Ruleset.Match\<close>: \<open>None\<close> when the evaluation of a rule panics, which ends the call.\<close>

fun ruleset_Match ::
    "(string \<Rightarrow> string \<Rightarrow> bool option) \<Rightarrow> sigma_rule list \<Rightarrow> (string \<times> go_any) list \<Rightarrow> sigma_rule list option" where
  "ruleset_Match re [] ev = Some []"
| "ruleset_Match re (r # rs) ev =
     (if \<not> AppliesTo r ev then ruleset_Match re rs ev
      else case rule_Matches re r ev of
        CondPanic \<Rightarrow> None
      | CondValue True \<Rightarrow> map_option (\<lambda>hits. r # hits) (ruleset_Match re rs ev)
      | _ \<Rightarrow> ruleset_Match re rs ev)"

definition titleCase :: "string \<Rightarrow> string" where
  "titleCase s = join_with '' '' (map (\<lambda>w. case w of [] \<Rightarrow> [] | c # cs \<Rightarrow> upper_char c # cs) (Prelude.fields s))"

fun mitre_loop :: "string \<Rightarrow> string \<Rightarrow> string list \<Rightarrow> string \<times> string" where
  "mitre_loop tech tactic [] = (tech, tactic)"
| "mitre_loop tech tactic (t # ts) =
     (let low = to_lower t in
      if \<not> has_prefix low ''attack.'' then mitre_loop tech tactic ts
      else let val = drop 7 low in
        if length val > 1 \<and> val ! 0 = CHR ''t'' \<and> is_digit (val ! 1) then
          mitre_loop (if tech = [] then to_upper val else tech) tactic ts
        else mitre_loop tech (if tactic = [] then titleCase (map (\<lambda>c. if c = CHR ''_'' then CHR '' '' else c) val)
                              else tactic) ts)"

definition mitreFromTags :: "string list \<Rightarrow> string \<times> string" where
  "mitreFromTags tags = mitre_loop [] [] tags"

definition severityFromLevel :: "string \<Rightarrow> severity" where
  "severityFromLevel level =
     (let l = to_lower level
      in if l = ''critical'' then SeverityCritical
         else if l = ''high'' then SeverityHigh
         else if l = ''medium'' then SeverityMedium
         else if l = ''low'' then SeverityLow
         else SeverityInfo)"

end
