(* ===== verification/Sigma_Props.thy ===== *)
theory Sigma_Props
  imports Sigma
begin

text \<open>
  What the Sigma evaluator computes: the condition language has an abstract syntax with the usual
  precedence (\<^verbatim>\<open>not\<close>, \<^verbatim>\<open>and\<close>, \<^verbatim>\<open>or\<close>), and evaluating the text of a condition gives the
  value of its syntax tree; which conditions make the evaluator panic; the scope of a rule.
\<close>

section \<open>Abstract syntax\<close>

datatype cond = CSel string | CQuant string string | CNot cond | CAnd cond cond | COr cond cond

primrec cond_value :: "cond_parser \<Rightarrow> cond \<Rightarrow> bool" where
  "cond_value p (CSel s) = (map_of (cp_sel p) s = Some True)"
| "cond_value p (CQuant q t) = quantified p q t"
| "cond_value p (CNot c) = (\<not> cond_value p c)"
| "cond_value p (CAnd c d) = (cond_value p c \<and> cond_value p d)"
| "cond_value p (COr c d) = (cond_value p c \<or> cond_value p d)"

definition wf_name :: "string \<Rightarrow> bool" where
  "wf_name s = (s \<noteq> [] \<and> s \<noteq> ''('' \<and> s \<noteq> ''not'' \<and> s \<noteq> ''all'' \<and> s \<noteq> ''any'' \<and> \<not> isNumber s)"

primrec wf_cond :: "cond_parser \<Rightarrow> cond \<Rightarrow> bool" where
  "wf_cond p (CSel s) = (wf_name s \<and> map_of (cp_sel p) s \<noteq> None)"
| "wf_cond p (CQuant q t) = (q = ''all'' \<or> q = ''any'' \<or> isNumber q)"
| "wf_cond p (CNot c) = wf_cond p c"
| "wf_cond p (CAnd c d) = (wf_cond p c \<and> wf_cond p d)"
| "wf_cond p (COr c d) = (wf_cond p c \<and> wf_cond p d)"

definition paren :: "bool \<Rightarrow> string list \<Rightarrow> string list" where
  "paren b ts = (if b then ''('' # ts @ ['')''] else ts)"

text \<open>The tokens of a condition in a context of level 0 (\<^verbatim>\<open>or\<close>), 1 (\<^verbatim>\<open>and\<close>) or 2 (\<^verbatim>\<open>not\<close>).\<close>

primrec print_cond :: "nat \<Rightarrow> cond \<Rightarrow> string list" where
  "print_cond n (CSel s) = [s]"
| "print_cond n (CQuant q t) = [q, ''of'', t]"
| "print_cond n (CNot c) = ''not'' # print_cond 2 c"
| "print_cond n (CAnd c d) = paren (n > 1) (print_cond 1 c @ ''and'' # print_cond 2 d)"
| "print_cond n (COr c d) = paren (n > 0) (print_cond 0 c @ ''or'' # print_cond 1 d)"

section \<open>The evaluator follows the syntax\<close>

definition at :: "string list \<Rightarrow> nat \<Rightarrow> string list \<Rightarrow> bool" where
  "at toks pos ts = (\<exists>post. drop pos toks = ts @ post)"

lemma at_append: "at toks pos (xs @ ys) \<longleftrightarrow> at toks pos xs \<and> at toks (pos + length xs) ys"
proof
  assume "at toks pos (xs @ ys)"
  then obtain post where d: "drop pos toks = xs @ ys @ post" by (auto simp: at_def)
  have "drop (length xs) (drop pos toks) = ys @ post" unfolding d by simp
  then have "drop (pos + length xs) toks = ys @ post" by (simp add: add.commute)
  with d show "at toks pos xs \<and> at toks (pos + length xs) ys" by (auto simp: at_def)
next
  assume "at toks pos xs \<and> at toks (pos + length xs) ys"
  then obtain a b where a: "drop pos toks = xs @ a" and b: "drop (pos + length xs) toks = ys @ b"
    by (auto simp: at_def)
  have "drop (pos + length xs) toks = drop (length xs) (drop pos toks)" by (simp add: add.commute)
  with a b have "a = ys @ b" by simp
  with a show "at toks pos (xs @ ys)" by (auto simp: at_def)
qed

lemma at_Nil [simp]: "at toks pos []"
  by (simp add: at_def)

lemma at_tok: "at toks pos [x] \<Longrightarrow> tok_at toks pos = x"
  unfolding at_def tok_at_def by (metis append_Cons drop_all hd_drop_conv_nth leI list.distinct(1) list.sel(1))

lemma at_tokD: "at toks pos (x # xs) \<Longrightarrow> tok_at toks pos = x" "at toks pos (x # xs) \<Longrightarrow> at toks (pos + 1) xs"
  using at_append [of toks pos "[x]" xs] at_tok [of toks pos x] by simp_all

lemma at_peek: "at (cp_toks p) pos [x] \<Longrightarrow> peek p pos = x"
  unfolding peek_def by (rule at_tok)

lemma at_ConsD: "at (cp_toks p) pos (x # xs) \<Longrightarrow> peek p pos = x"
  "at (cp_toks p) pos (x # xs) \<Longrightarrow> at (cp_toks p) (pos + 1) xs"
  unfolding peek_def by (fact at_tokD)+

lemma at_appendD: "at toks pos (xs @ ys) \<Longrightarrow> at toks pos xs" "at toks pos (xs @ ys) \<Longrightarrow> at toks (pos + length xs) ys"
  unfolding at_append by blast+

lemma parseAnd_unary: "parseUnary p pos = (Inr v, pos1) \<Longrightarrow> parseAnd p pos = and_loop p v pos1"
  by (simp add: parseAnd.simps)

lemma or_loop_stop: "peek p pos \<noteq> ''or'' \<Longrightarrow> or_loop p v pos = (Inr v, pos)"
  by (simp add: or_loop.simps)

lemma and_loop_stop: "peek p pos \<noteq> ''and'' \<Longrightarrow> and_loop p v pos = (Inr v, pos)"
  by (simp add: and_loop.simps)

lemma parseOr_and:
  "parseAnd p pos = and_loop p v pos1 \<Longrightarrow> peek p pos1 \<noteq> ''and'' \<Longrightarrow> parseOr p pos = or_loop p v pos1"
  by (simp add: parseOr.simps and_loop_stop)

lemma at_paren:
  assumes "at (cp_toks p) pos (''('' # ts @ ['')''])"
  shows "peek p pos = ''(''" "at (cp_toks p) (pos + 1) ts" "peek p (pos + 1 + length ts) = '')''"
proof -
  note r = at_ConsD [OF assms]
  show "peek p pos = ''(''" by (rule r)
  show "at (cp_toks p) (pos + 1) ts" using r(2) by (rule at_appendD)
  show "peek p (pos + 1 + length ts) = '')''" using at_appendD(2) [OF r(2)] by (rule at_peek)
qed

text \<open>A parenthesised condition is a unary one.\<close>

lemma parseUnary_paren:
  assumes a: "at (cp_toks p) pos (''('' # ts @ ['')''])"
    and body: "\<And>pos. at (cp_toks p) pos ts \<Longrightarrow> peek p (pos + length ts) \<noteq> ''and'' \<Longrightarrow> parseOr p pos = or_loop p v (pos + length ts)"
  shows "parseUnary p pos = (Inr v, pos + length ts + 2)"
proof -
  note pk = at_paren [OF a]
  have b: "parseOr p (pos + 1) = or_loop p v (pos + 1 + length ts)" using body [OF pk(2)] pk(3) by simp
  have e: "or_loop p v (pos + 1 + length ts) = (Inr v, pos + 1 + length ts)" using pk(3) by (simp add: or_loop_stop)
  have "parseUnary p pos = parsePrimary p pos" using pk(1) by (simp add: parseUnary.simps)
  also have "\<dots> = (Inr v, pos + 1 + length ts + 1)"
    unfolding parsePrimary.simps [of p pos] using pk(1,3) b e by simp
  finally show ?thesis by simp
qed

lemma not_numbers: "\<not> isNumber ''not''" "\<not> isNumber ''(''"
  by code_simp+

definition parses :: "cond_parser \<Rightarrow> cond \<Rightarrow> bool" where
  "parses p c =
     ((\<forall>pos. at (cp_toks p) pos (print_cond 2 c) \<longrightarrow>
         parseUnary p pos = (Inr (cond_value p c), pos + length (print_cond 2 c))) \<and>
      (\<forall>pos. at (cp_toks p) pos (print_cond 1 c) \<longrightarrow>
         parseAnd p pos = and_loop p (cond_value p c) (pos + length (print_cond 1 c))) \<and>
      (\<forall>pos. at (cp_toks p) pos (print_cond 0 c) \<longrightarrow> peek p (pos + length (print_cond 0 c)) \<noteq> ''and'' \<longrightarrow>
         parseOr p pos = or_loop p (cond_value p c) (pos + length (print_cond 0 c))))"

text \<open>For a condition that prints the same at every level only the first part is left.\<close>

lemma parses_level:
  assumes "print_cond 1 c = print_cond 2 c" "print_cond 0 c = print_cond 2 c"
    and "\<And>pos. at (cp_toks p) pos (print_cond 2 c) \<Longrightarrow> parseUnary p pos = (Inr (cond_value p c), pos + length (print_cond 2 c))"
  shows "parses p c"
  unfolding parses_def assms(1,2) using assms(3) parseAnd_unary parseOr_and by blast

lemma parses_all: "wf_cond p c \<Longrightarrow> parses p c"
proof (induction c)
  case (CSel s)
  show ?case
  proof (rule parses_level)
    fix pos assume "at (cp_toks p) pos (print_cond 2 (CSel s))"
    then have "peek p pos = s" using at_peek by simp
    with CSel show "parseUnary p pos = (Inr (cond_value p (CSel s)), pos + length (print_cond 2 (CSel s)))"
      by (auto simp: parseUnary.simps parsePrimary.simps Let_def wf_name_def)
  qed simp_all
next
  case (CQuant q t)
  show ?case
  proof (rule parses_level)
    fix pos assume "at (cp_toks p) pos (print_cond 2 (CQuant q t))"
    then have a: "at (cp_toks p) pos [q, ''of'', t]" by simp
    note pk = at_ConsD(1) [OF a] at_ConsD(1) [OF at_ConsD(2) [OF a]] at_ConsD(1) [OF at_ConsD(2) [OF at_ConsD(2) [OF a]]]
    from CQuant.prems have q: "q = ''all'' \<or> q = ''any'' \<or> isNumber q" by simp
    then have n: "q \<noteq> ''not''" "q \<noteq> ''(''" using not_numbers by auto
    have "parseUnary p pos = parsePrimary p pos" using pk(1) n(1) by (simp add: parseUnary.simps)
    also have "\<dots> = (Inr (quantified p q t), pos + 3)"
      unfolding parsePrimary.simps [of p pos] Let_def using pk q n(2) by simp
    finally show "parseUnary p pos = (Inr (cond_value p (CQuant q t)), pos + length (print_cond 2 (CQuant q t)))"
      by simp
  qed simp_all
next
  case (CNot c)
  then have c: "parses p c" by simp
  show ?case
  proof (rule parses_level)
    fix pos assume a: "at (cp_toks p) pos (print_cond 2 (CNot c))"
    then have b: "at (cp_toks p) pos (''not'' # print_cond 2 c)" by simp
    have "parseUnary p (pos + 1) = (Inr (cond_value p c), pos + 1 + length (print_cond 2 c))"
      using c at_ConsD(2) [OF b] unfolding parses_def by blast
    with at_ConsD(1) [OF b] show "parseUnary p pos = (Inr (cond_value p (CNot c)), pos + length (print_cond 2 (CNot c)))"
      by (simp add: parseUnary.simps [of p pos])
  qed simp_all
next
  case (CAnd c d)
  then have c: "parses p c" and d: "parses p d" by simp_all
  let ?ts = "print_cond 1 c @ ''and'' # print_cond 2 d"
  have 1: "parseAnd p pos = and_loop p (cond_value p (CAnd c d)) (pos + length ?ts)" if "at (cp_toks p) pos ?ts" for pos
  proof -
    let ?q = "pos + length (print_cond 1 c)"
    note ac = at_appendD(1) [OF that] and an = at_ConsD(1) [OF at_appendD(2) [OF that]]
      and ad = at_ConsD(2) [OF at_appendD(2) [OF that]]
    from c ac have "parseAnd p pos = and_loop p (cond_value p c) ?q" by (simp add: parses_def)
    also have "\<dots> = and_loop p (cond_value p c \<and> cond_value p d) (?q + 1 + length (print_cond 2 d))"
      using an ad d by (subst and_loop.simps) (simp add: parses_def)
    finally show ?thesis by (simp add: add.assoc)
  qed
  have 0: "parseOr p pos = or_loop p (cond_value p (CAnd c d)) (pos + length ?ts)"
    if "at (cp_toks p) pos ?ts" "peek p (pos + length ?ts) \<noteq> ''and''" for pos
    using parseOr_and [OF 1 [OF that(1)] that(2)] .
  have 2: "parseUnary p pos = (Inr (cond_value p (CAnd c d)), pos + length (print_cond 2 (CAnd c d)))"
    if "at (cp_toks p) pos (print_cond 2 (CAnd c d))" for pos
  proof -
    from that have a: "at (cp_toks p) pos (''('' # ?ts @ ['')''])" by (simp add: paren_def)
    from parseUnary_paren [OF a 0] show ?thesis by (simp add: paren_def)
  qed
  from 0 1 2 show ?case by (simp add: parses_def paren_def)
next
  case (COr c d)
  then have c: "parses p c" and d: "parses p d" by simp_all
  let ?ts = "print_cond 0 c @ ''or'' # print_cond 1 d"
  have 0: "parseOr p pos = or_loop p (cond_value p (COr c d)) (pos + length ?ts)"
    if "at (cp_toks p) pos ?ts" "peek p (pos + length ?ts) \<noteq> ''and''" for pos
  proof -
    let ?q = "pos + length (print_cond 0 c)"
    note ac = at_appendD(1) [OF that(1)] and an = at_ConsD(1) [OF at_appendD(2) [OF that(1)]]
      and ad = at_ConsD(2) [OF at_appendD(2) [OF that(1)]]
    from c ac an have "parseOr p pos = or_loop p (cond_value p c) ?q" by (simp add: parses_def)
    also have "\<dots> = or_loop p (cond_value p c \<or> cond_value p d) (?q + 1 + length (print_cond 1 d))"
      using an ad d that(2) by (subst or_loop.simps) (simp add: parses_def and_loop_stop add.assoc)
    finally show ?thesis by (simp add: add.assoc)
  qed
  have 2: "parseUnary p pos = (Inr (cond_value p (COr c d)), pos + length (print_cond 2 (COr c d)))"
    if "at (cp_toks p) pos (print_cond 2 (COr c d))" for pos
  proof -
    from that have a: "at (cp_toks p) pos (''('' # ?ts @ ['')''])" by (simp add: paren_def)
    from parseUnary_paren [OF a 0] show ?thesis by (simp add: paren_def)
  qed
  have same: "print_cond 1 (COr c d) = print_cond 2 (COr c d)" by (simp add: paren_def)
  have 1: "parseAnd p pos = and_loop p (cond_value p (COr c d)) (pos + length (print_cond 1 (COr c d)))"
    if "at (cp_toks p) pos (print_cond 1 (COr c d))" for pos
    using parseAnd_unary [OF 2] that unfolding same by blast
  from 0 1 2 show ?case by (simp add: parses_def paren_def)
qed

section \<open>The text of a condition\<close>

definition plain_token :: "string \<Rightarrow> bool" where
  "plain_token t = (is_word t \<and> CHR ''('' \<notin> set t \<and> CHR '')'' \<notin> set t)"

definition token :: "string \<Rightarrow> bool" where
  "token t = (plain_token t \<or> t = ''('' \<or> t = '')'')"

lemma fields_acc_word:
  "\<forall>c \<in> set w. \<not> is_space c \<Longrightarrow> fields_acc acc (w @ s) = fields_acc (rev w @ acc) s"
  by (induction w arbitrary: acc) simp_all

lemma fields_word: "is_word w \<Longrightarrow> fields_acc [] (w @ CHR '' '' # s) = w # fields_acc [] s"
  "is_word w \<Longrightarrow> fields_acc [] w = [w]"
  using fields_acc_word [of w "[]" "CHR '' '' # s"] fields_acc_word [of w "[]" "[]"]
  by (auto simp: is_word_def is_space_def)

lemma fields_space: "fields_acc [] (CHR '' '' # s) = fields_acc [] s"
  by (simp add: is_space_def)

lemma is_word_parens: "is_word ''(''" "is_word '')''"
  by code_simp+

lemma pad_parens_append: "pad_parens (xs @ ys) = pad_parens xs @ pad_parens ys"
  by (induction xs) simp_all

lemma pad_parens_plain: "CHR ''('' \<notin> set w \<Longrightarrow> CHR '')'' \<notin> set w \<Longrightarrow> pad_parens w = w"
  by (induction w) auto

lemma fields_token:
  assumes "token t"
  shows "fields_acc [] (pad_parens t @ CHR '' '' # s) = t # fields_acc [] s" "fields_acc [] (pad_parens t) = [t]"
proof -
  have "pad_parens t = t \<and> is_word t \<or> pad_parens t = CHR '' '' # t @ '' '' \<and> is_word t"
    using assms is_word_parens pad_parens_plain [of t] by (auto simp: token_def plain_token_def)
  then show "fields_acc [] (pad_parens t @ CHR '' '' # s) = t # fields_acc [] s" "fields_acc [] (pad_parens t) = [t]"
    using fields_word [of t] fields_space fields_word(1) [of t "CHR '' '' # s"] fields_word(1) [of t "[]"]
    by (auto simp del: fields_acc.simps(2))
qed

lemma tokenize_join: "list_all token ts \<Longrightarrow> tokenize (join_with '' '' ts) = ts"
  unfolding tokenize_def Prelude.fields_def
proof (induction "'' ''" ts rule: join_with.induct)
  case (3 x y xs)
  then show ?case by (simp add: pad_parens_append fields_token del: fields_acc.simps(2))
qed (simp_all add: fields_token)

primrec clean :: "cond \<Rightarrow> bool" where
  "clean (CSel s) = plain_token s"
| "clean (CQuant q t) = (plain_token q \<and> plain_token t)"
| "clean (CNot c) = clean c"
| "clean (CAnd c d) = (clean c \<and> clean d)"
| "clean (COr c d) = (clean c \<and> clean d)"

lemma keyword_tokens: "token ''not''" "token ''and''" "token ''or''" "token ''of''" "token ''(''" "token '')''"
  by code_simp+

lemma print_cond_tokens: "clean c \<Longrightarrow> list_all token (print_cond n c)"
proof (induction c arbitrary: n)
  case (CSel s) then show ?case by (simp add: token_def)
next
  case (CQuant q t) then show ?case using keyword_tokens by (simp add: token_def)
qed (simp_all add: keyword_tokens paren_def)

definition cond_text :: "cond \<Rightarrow> string" where
  "cond_text c = join_with '' '' (print_cond 0 c)"

lemma cond_eval_print:
  assumes "cp_toks p = print_cond 0 c" "wf_cond p c"
  shows "cond_eval p = CondValue (cond_value p c)"
proof -
  have e: "peek p (length (print_cond 0 c)) = []" using assms(1) by (simp add: peek_def tok_at_def)
  have "at (cp_toks p) 0 (print_cond 0 c)" using assms(1) by (simp add: at_def)
  then have "parseOr p 0 = or_loop p (cond_value p c) (length (print_cond 0 c))"
    using parses_all [OF assms(2)] e unfolding parses_def by simp
  also have "\<dots> = (Inr (cond_value p c), length (print_cond 0 c))" using e by (simp add: or_loop_stop)
  finally show ?thesis using assms(1) by (simp add: cond_eval_def)
qed

text \<open>
  C8: A rule whose condition is the text of a condition over its selections is evaluated, always and without
  an error, to the value of that condition: \<^verbatim>\<open>not\<close> binds tighter than \<^verbatim>\<open>and\<close>, \<^verbatim>\<open>and\<close> tighter
  than \<^verbatim>\<open>or\<close>, both associate to the left and parentheses override.
\<close>

theorem rule_Matches_meaning:
  assumes "sr_condition r = cond_text c" "clean c" "wf_cond (rule_parser re r ev) c"
  shows "rule_Matches re r ev = CondValue (cond_value (rule_parser re r ev) c)"
proof -
  have "cp_toks (rule_parser re r ev) = print_cond 0 c"
    using assms(1,2) tokenize_join [OF print_cond_tokens] by (simp add: rule_parser_def cond_text_def)
  from cond_eval_print [OF this assms(3)] show ?thesis by (simp add: rule_Matches_def)
qed

definition demo_rule :: sigma_rule where
  "demo_rule = \<lparr>sr_ID = ''r1'', sr_Title = ''Root login'', sr_Level = ''high'', sr_Tags = [], sr_LogSource = [],
     sr_Mitigation = None, sr_condition = ''not a and ( b or 1 of them )'',
     sr_selections =
       [(''a'', \<lparr>sel_fields = [\<lparr>fc_name = ''user'', fc_modifiers = [], fc_values = [''root'']\<rparr>], sel_keywords = []\<rparr>),
        (''b'', \<lparr>sel_fields = [], sel_keywords = [''failed'']\<rparr>)]\<rparr>"

definition demo_flat :: "(string \<times> go_any) list" where
  "demo_flat = [(''event.original'', AStr ''Failed password''), (''user.name'', AStr ''bob'')]"

theorem rule_Matches_meaning_witness:
  "rule_Matches (\<lambda>e s. None) demo_rule demo_flat = CondValue True"
proof -
  let ?c = "CAnd (CNot (CSel ''a'')) (COr (CSel ''b'') (CQuant ''1'' ''them''))"
  let ?p = "rule_parser (\<lambda>e s. None) demo_rule demo_flat"
  have c: "sr_condition demo_rule = cond_text ?c" "clean ?c" "wf_cond ?p ?c" by code_simp+
  have "cond_value ?p ?c" by code_simp
  with rule_Matches_meaning [OF c] show ?thesis by simp
qed

section \<open>Panics\<close>

definition pos_ok :: "cond_parser \<Rightarrow> nat \<Rightarrow> bool" where
  "pos_ok p pos = (pos \<le> length (cp_toks p) \<or>
     pos = length (cp_toks p) + 1 \<and> cp_toks p \<noteq> [] \<and> last (cp_toks p) = ''of'')"

lemma peek_pos_ok: "peek p pos \<noteq> [] \<Longrightarrow> pos_ok p (pos + 1)"
  using peek_nonempty [of p pos] by (simp add: pos_ok_def)

lemma peek_of_pos_ok: 
  assumes "peek p (pos + 1) = ''of''" shows "pos_ok p (pos + 3)"
proof -
  have l: "pos + 1 < length (cp_toks p)" using assms peek_nonempty [of p "pos + 1"] by simp
  show ?thesis
  proof (cases "pos + 2 = length (cp_toks p)")
    case True
    then have "length (cp_toks p) - 1 = pos + 1" "cp_toks p \<noteq> []" by auto
    then have "last (cp_toks p) = ''of''" using assms l by (simp add: last_conv_nth peek_def tok_at_def)
    with True show ?thesis by (auto simp: pos_ok_def)
  next
    case False
    with l show ?thesis by (simp add: pos_ok_def)
  qed
qed

lemma parse_pos_ok:
  "parseOr p pos = (Inr v', pos') \<Longrightarrow> pos_ok p pos'"
  "parseAnd p pos = (Inr v', pos') \<Longrightarrow> pos_ok p pos'"
  "or_loop p v pos = (Inr v', pos') \<Longrightarrow> pos_ok p pos \<Longrightarrow> pos_ok p pos'"
  "and_loop p v pos = (Inr v', pos') \<Longrightarrow> pos_ok p pos \<Longrightarrow> pos_ok p pos'"
  "parseUnary p pos = (Inr v', pos') \<Longrightarrow> pos_ok p pos'"
  "parsePrimary p pos = (Inr v', pos') \<Longrightarrow> pos_ok p pos'"
proof (induction p pos and p pos and p v pos and p v pos and p pos and p pos arbitrary: v' pos' and v' pos' and v' pos' and v' pos' and v' pos' and v' pos'
    rule: parseOr_parseAnd_or_loop_and_loop_parseUnary_parsePrimary.induct)
  case (1 p pos)
  then show ?case by (simp add: parseOr.simps [of p pos] split: prod.splits sum.splits)
next
  case (2 p v pos)
  then show ?case by (simp add: or_loop.simps [of p v pos] split: prod.splits sum.splits if_splits)
next
  case (3 p pos)
  then show ?case by (simp add: parseAnd.simps [of p pos] split: prod.splits sum.splits)
next
  case (4 p v pos)
  then show ?case by (simp add: and_loop.simps [of p v pos] split: prod.splits sum.splits if_splits)
next
  case (5 p pos)
  then show ?case by (simp add: parseUnary.simps [of p pos] split: prod.splits sum.splits if_splits)
next
  case (6 p pos)
  consider "peek p pos = ''(''" | "peek p pos \<noteq> ''(''" "peek p pos = ''all'' \<or> peek p pos = ''any'' \<or> isNumber (peek p pos)"
   | "peek p pos \<noteq> ''(''" "\<not> (peek p pos = ''all'' \<or> peek p pos = ''any'' \<or> isNumber (peek p pos))" by blast
  then show ?case
  proof cases
    case 1
    with 6(2) obtain pos1 where "peek p pos1 = '')''" "pos' = pos1 + 1"
      by (auto simp: parsePrimary.simps [of p pos] split: prod.splits sum.splits if_splits)
    with peek_pos_ok [of p pos1] show ?thesis by simp
  next
    case 2
    with 6(2) have "peek p (pos + 1) = ''of''" "pos' = pos + 3"
      unfolding parsePrimary.simps [of p pos] Let_def by (simp_all split: if_splits)
    with peek_of_pos_ok [of p pos] show ?thesis by simp
  next
    case 3
    with 6(2) have "peek p pos \<noteq> []" "pos' = pos + 1"
      unfolding parsePrimary.simps [of p pos] Let_def by (simp_all split: if_splits option.splits)
    with peek_pos_ok [of p pos] show ?thesis by simp
  qed
qed

lemma panic_last_of:
  assumes "rule_Matches re r ev = CondPanic"
  shows "tokenize (sr_condition r) \<noteq> [] \<and> last (tokenize (sr_condition r)) = ''of''"
proof -
  let ?p = "rule_parser re r ev"
  from assms obtain v pos where "parseOr ?p 0 = (Inr v, pos)" "pos > length (cp_toks ?p)"
    unfolding rule_Matches_def cond_eval_def by (auto split: prod.splits sum.splits if_splits)
  then have "cp_toks ?p \<noteq> [] \<and> last (cp_toks ?p) = ''of''"
    using parse_pos_ok(1) [of ?p 0 v pos] by (simp add: pos_ok_def)
  then show ?thesis by (simp add: rule_parser_def)
qed

text \<open>
  Evaluating a condition panics only when its last token is \<^verbatim>\<open>of\<close>: every other text gives a
  truth value or one of the reported errors.
\<close>

theorem panic_needs_of:
  assumes "rule_Matches re r ev = CondPanic"
  shows "tokenize (sr_condition r) \<noteq> [] \<and> last (tokenize (sr_condition r)) = ''of''"
  using assms by (rule panic_last_of)

definition of_rule :: raw_rule where
  "of_rule = \<lparr>raw_ID = ''r1'', raw_Title = ''t'', raw_Level = ''high'', raw_Tags = [], raw_LogSource = [],
     raw_Detection = [(''sel'', AMap [(''user'', AStr ''root'')]), (''condition'', AStr ''1 of'')],
     raw_Mitigation = None\<rparr>"

lemma of_rule_parses: "ParseRule of_rule = Inr \<lparr>sr_ID = ''r1'', sr_Title = ''t'', sr_Level = ''high'', sr_Tags = [],
   sr_LogSource = [], sr_Mitigation = None, sr_condition = ''1 of'',
   sr_selections = [(''sel'', \<lparr>sel_fields = [\<lparr>fc_name = ''user'', fc_modifiers = [], fc_values = [''root'']\<rparr>], sel_keywords = []\<rparr>)]\<rparr>"
  by code_simp

theorem panic_needs_of_witness:
  "\<exists>r. ParseRule of_rule = Inr r \<and> rule_Matches (\<lambda>e s. None) r [] = CondPanic \<and> last (tokenize (sr_condition r)) = ''of''"
proof -
  let ?r = "\<lparr>sr_ID = ''r1'', sr_Title = ''t'', sr_Level = ''high'', sr_Tags = [],
   sr_LogSource = [], sr_Mitigation = None, sr_condition = ''1 of'',
   sr_selections = [(''sel'', \<lparr>sel_fields = [\<lparr>fc_name = ''user'', fc_modifiers = [], fc_values = [''root'']\<rparr>], sel_keywords = []\<rparr>)]\<rparr>"
  have "rule_Matches (\<lambda>e s. None) ?r [] = CondPanic" by code_simp
  with of_rule_parses panic_needs_of [OF this] show ?thesis by blast
qed

section \<open>Rule sets\<close>

text \<open>
  A rule set reports exactly the rules that are in scope for the event and whose condition
  evaluates to true, in their order; a rule with a broken condition never hides another one, unless
  its evaluation panics.
\<close>

theorem ruleset_Match_filter:
  assumes "list_all (\<lambda>r. AppliesTo r ev \<longrightarrow> rule_Matches re r ev \<noteq> CondPanic) rs"
  shows "ruleset_Match re rs ev = Some (filter (\<lambda>r. AppliesTo r ev \<and> rule_Matches re r ev = CondValue True) rs)"
  using assms
proof (induction rs)
  case (Cons r rs)
  then show ?case by (auto split: cond_outcome.splits bool.splits)
qed simp

theorem ruleset_Match_filter_witness:
  "ruleset_Match (\<lambda>e s. None) [demo_rule\<lparr>sr_condition := ''a or''\<rparr>, demo_rule, demo_rule\<lparr>sr_LogSource := [(''category'', ''webserver'')]\<rparr>]
     demo_flat = Some [demo_rule]"
proof -
  let ?rs = "[demo_rule\<lparr>sr_condition := ''a or''\<rparr>, demo_rule, demo_rule\<lparr>sr_LogSource := [(''category'', ''webserver'')]\<rparr>]"
  let ?re = "\<lambda>e s. None"
  have n: "list_all (\<lambda>r. AppliesTo r demo_flat \<longrightarrow> rule_Matches ?re r demo_flat \<noteq> CondPanic) ?rs" by code_simp
  have f: "filter (\<lambda>r. AppliesTo r demo_flat \<and> rule_Matches ?re r demo_flat = CondValue True) ?rs = [demo_rule]"
    by code_simp
  show ?thesis using ruleset_Match_filter [OF n] unfolding f .
qed

end
