(* ===== verification/Detector.thy ===== *)
theory Detector
  imports Sigma_Props
begin

text \<open>
  The single-event detector of \<^verbatim>\<open>internal/detect/detector.go\<close>: the rule set in force, the alert
  for the first rule that matches, and the containment directive a rule puts on it. The lock around
  the rule set makes each operation atomic.
\<close>

section \<open>Model\<close>

record sigma_detector =
  sd_rules :: "sigma_rule list"

definition NewSigmaDetector :: "sigma_rule list \<Rightarrow> sigma_detector" where
  "NewSigmaDetector rs = \<lparr>sd_rules = rs\<rparr>"

definition SetRules :: "sigma_rule list \<Rightarrow> sigma_detector \<Rightarrow> sigma_detector" where
  "SetRules rs d = d\<lparr>sd_rules := rs\<rparr>"

definition RuleCount :: "sigma_detector \<Rightarrow> int" where
  "RuleCount d = int (length (sd_rules d))"

definition alert_label :: "string \<Rightarrow> string \<Rightarrow> string" where
  "alert_label dflt tactic =
     (if tactic \<noteq> [] then to_lower (map (\<lambda>c. if c = CHR '' '' then CHR ''_'' else c) tactic) else dflt)"

text \<open>What a rule's \<^verbatim>\<open>mitigation_action\<close> puts on its alerts.\<close>

definition directive :: "mitigation_action option \<Rightarrow> containment_intent option" where
  "directive mm =
     (case mm of
        None \<Rightarrow> None
      | Some m \<Rightarrow>
          if ma_ActionType m = ''network_containment'' then
            Some \<lparr>ci_ActionType = ma_ActionType m, ci_TimeoutSeconds = ma_TimeoutSeconds m,
                  ci_Threshold = ParseSeverity (ma_CriticalityThreshold m) SeverityHigh\<rparr>
          else None)"

definition buildSigmaAlert :: "sigma_rule \<Rightarrow> event \<Rightarrow> event" where
  "buildSigmaAlert r src =
     (let (tech, tactic) = mitreFromTags (sr_Tags r); sev = severityFromLevel (sr_Level r) in
      empty_event
        \<lparr>ev_Timestamp := ev_Timestamp src,
         ev_Event := \<lparr>ef_Category = ''intrusion_detection'', ef_Action = ''sigma_match'', ef_Outcome = ''detected'',
           ef_Severity = sev, ef_Dataset = ''deuswatch.detect'', ef_Original = []\<rparr>,
         ev_Rule := Some \<lparr>er_ID = sr_ID r, er_Name = sr_Title r\<rparr>,
         ev_Threat := Some \<lparr>th_Technique = \<lparr>tech_ID = tech, tech_Name = []\<rparr>, th_TacticName = tactic,
           th_Indicator = None, th_FeedName = []\<rparr>,
         ev_DeusWatch := empty_deuswatch
           \<lparr>dw_Label := alert_label ''sigma_match'' tactic, dw_Enrichment := dw_Enrichment (ev_DeusWatch src),
            dw_Severity := \<lparr>sm_Original = sev, sm_EscalatedBy = []\<rparr>,
            dw_Containment := directive (sr_Mitigation r)\<rparr>,
         ev_Source := map_option (\<lambda>s. \<lparr>ep_IP = ep_IP s, ep_Port = ep_Port s, ep_Geo = ep_Geo s, ep_AS = None\<rparr>) (ev_Source src),
         ev_Host := map_option (\<lambda>h. \<lparr>host_Name = host_Name h, host_OSType = host_OSType h, host_IP = host_IP h\<rparr>) (ev_Host src),
         ev_Agent := map_option (\<lambda>g. \<lparr>agent_ID = agent_ID g, agent_Version = agent_Version g\<rparr>) (ev_Agent src),
         ev_User := map_option (\<lambda>u. \<lparr>eu_Name = eu_Name u, eu_Domain = eu_Domain u, eu_Effective = []\<rparr>) (ev_User src),
         ev_File := map_option (\<lambda>f. \<lparr>file_Path = file_Path f, file_HashSHA256 = file_HashSHA256 f,
           file_Owner = file_Owner f, file_Mode = file_Mode f, file_Diff = file_Diff f\<rparr>) (ev_File src),
         ev_Process := map_option (\<lambda>p. \<lparr>proc_Name = proc_Name p, proc_PID = proc_PID p,
           proc_CommandLine = proc_CommandLine p, proc_Start = []\<rparr>) (ev_Process src)\<rparr>)"

text \<open>\<^verbatim>\<open>Inspect\<close>: the outer \<open>None\<close> is a panic in a rule's condition, the inner one no alert.\<close>

definition Inspect ::
    "(string \<Rightarrow> string \<Rightarrow> bool option) \<Rightarrow> sigma_detector \<Rightarrow> event option \<Rightarrow> event option option" where
  "Inspect re d mev =
     (case mev of
        None \<Rightarrow> Some None
      | Some e \<Rightarrow>
          if sd_rules d = [] then Some None
          else (case ruleset_Match re (sd_rules d) (FlattenEvent e) of
                  None \<Rightarrow> None
                | Some [] \<Rightarrow> Some None
                | Some (r # _) \<Rightarrow> Some (Some (buildSigmaAlert r e))))"

section \<open>Facts\<close>

lemma severityFromLevel_Valid: "severity_Valid (severityFromLevel l)"
  by (simp add: severityFromLevel_def Let_def severity_Valid_def severity_defs)

lemma alert_fields:
  "ev_Event (buildSigmaAlert r e) = \<lparr>ef_Category = ''intrusion_detection'', ef_Action = ''sigma_match'',
     ef_Outcome = ''detected'', ef_Severity = severityFromLevel (sr_Level r), ef_Dataset = ''deuswatch.detect'', ef_Original = []\<rparr>"
  "dw_Containment (ev_DeusWatch (buildSigmaAlert r e)) = directive (sr_Mitigation r)"
  "fr_Verdict (dw_FileHash (ev_DeusWatch (buildSigmaAlert r e))) = []"
  "ev_Timestamp (buildSigmaAlert r e) = ev_Timestamp e"
  "ev_Rule (buildSigmaAlert r e) = Some \<lparr>er_ID = sr_ID r, er_Name = sr_Title r\<rparr>"
  by (simp_all add: buildSigmaAlert_def empty_event_def empty_deuswatch_def Let_def split: prod.splits)

lemma alert_who:
  "map_option agent_ID (ev_Agent (buildSigmaAlert r e)) = map_option agent_ID (ev_Agent e)"
  "ev_Host (buildSigmaAlert r e) = ev_Host e"
  "ev_Agent (buildSigmaAlert r e) = ev_Agent e"
  "map_option ep_IP (ev_Source (buildSigmaAlert r e)) = map_option ep_IP (ev_Source e)"
  "ev_Process (buildSigmaAlert r e) = map_option (\<lambda>p. p\<lparr>proc_Start := []\<rparr>) (ev_Process e)"
  by (cases "ev_Host e"; cases "ev_Agent e"; cases "ev_Process e"; cases "ev_Source e";
      simp add: buildSigmaAlert_def empty_event_def Let_def split: prod.splits)+

text \<open>The rule an alert is for: the first one in scope whose condition holds.\<close>

definition first_hit ::
    "(string \<Rightarrow> string \<Rightarrow> bool option) \<Rightarrow> sigma_rule list \<Rightarrow> event \<Rightarrow> sigma_rule option" where
  "first_hit re rs e =
     find (\<lambda>r. AppliesTo r (FlattenEvent e) \<and> rule_Matches re r (FlattenEvent e) = CondValue True) rs"

lemma ruleset_Match_hits:
  "ruleset_Match re rs ev = Some hits \<Longrightarrow>
   hits = filter (\<lambda>r. AppliesTo r ev \<and> rule_Matches re r ev = CondValue True) rs"
proof (induction rs arbitrary: hits)
  case (Cons r rs)
  show ?case
  proof (cases "AppliesTo r ev")
    case True
    with Cons show ?thesis by (cases "rule_Matches re r ev") (auto split: bool.splits)
  qed (use Cons in simp)
qed simp

lemma find_filter: "find P xs = (case filter P xs of [] \<Rightarrow> None | x # _ \<Rightarrow> Some x)"
  by (induction xs) simp_all

lemma Inspect_alert:
  assumes "Inspect re d (Some e) = Some (Some a)"
  shows "\<exists>r. first_hit re (sd_rules d) e = Some r \<and> a = buildSigmaAlert r e"
proof -
  from assms obtain r hits where m: "ruleset_Match re (sd_rules d) (FlattenEvent e) = Some (r # hits)"
    and a: "a = buildSigmaAlert r e"
    unfolding Inspect_def option.case by (auto split: if_splits option.splits list.splits)
  have "first_hit re (sd_rules d) e = Some r"
    unfolding first_hit_def find_filter using ruleset_Match_hits [OF m] by (metis list.case(2))
  with a show ?thesis by blast
qed

lemma Inspect_silent: "Inspect re d (Some e) = Some None \<Longrightarrow> first_hit re (sd_rules d) e = None"
  unfolding Inspect_def option.case first_hit_def find_filter
  by (auto split: if_splits option.splits list.splits dest: ruleset_Match_hits)

text \<open>
  When no condition ends in \<^verbatim>\<open>of\<close> inspecting an event never panics, and raises an alert exactly
  when some rule in scope matches it; the alert is for the first such rule, at the time and on the
  host and agent of the event, with the rule's severity.
\<close>

theorem Inspect_first_match:
  assumes "\<forall>r \<in> set (sd_rules d). last (tokenize (sr_condition r)) \<noteq> ''of''"
  shows "case first_hit re (sd_rules d) e of
       None \<Rightarrow> Inspect re d (Some e) = Some None
     | Some r \<Rightarrow> (\<exists>a. Inspect re d (Some e) = Some (Some a) \<and> ev_Timestamp a = ev_Timestamp e \<and>
         ev_Host a = ev_Host e \<and> ev_Agent a = ev_Agent e \<and> ef_Severity (ev_Event a) = severityFromLevel (sr_Level r) \<and>
         ev_Rule a = Some \<lparr>er_ID = sr_ID r, er_Name = sr_Title r\<rparr>)"
proof -
  have np: "rule_Matches re r ev \<noteq> CondPanic" if "r \<in> set (sd_rules d)" for r ev
    using panic_last_of [of re r ev] assms that by blast
  have nn: "ruleset_Match re rs ev \<noteq> None" if "set rs \<subseteq> set (sd_rules d)" for rs ev
    using that np [of _ ev] by (induction rs) (auto split: cond_outcome.splits bool.splits)
  have "Inspect re d (Some e) \<noteq> None"
    using nn [of "sd_rules d" "FlattenEvent e"] by (auto simp: Inspect_def split: option.splits list.splits)
  then obtain o' where o: "Inspect re d (Some e) = Some o'" by blast
  show ?thesis
  proof (cases o')
    case None
    with o Inspect_silent show ?thesis by simp
  next
    case (Some a)
    with o Inspect_alert obtain r where "first_hit re (sd_rules d) e = Some r" "a = buildSigmaAlert r e" by blast
    with o Some show ?thesis by (simp add: alert_fields alert_who)
  qed
qed

definition demo_sigma :: sigma_detector where
  "demo_sigma = NewSigmaDetector
     [demo_rule\<lparr>sr_LogSource := [(''category'', ''webserver'')]\<rparr>, demo_rule\<lparr>sr_ID := ''r2'', sr_condition := ''a or b''\<rparr>, demo_rule]"

definition demo_root :: event where
  "demo_root = empty_event\<lparr>ev_Timestamp := 7, ev_User := Some \<lparr>eu_Name = ''root'', eu_Domain = [], eu_Effective = []\<rparr>\<rparr>"

theorem Inspect_first_match_witness:
  "\<exists>a. Inspect (\<lambda>e s. None) demo_sigma (Some demo_root) = Some (Some a) \<and> ev_Timestamp a = 7 \<and>
     ev_Rule a = Some \<lparr>er_ID = ''r2'', er_Name = ''Root login''\<rparr>"
proof -
  have o: "\<forall>r \<in> set (sd_rules demo_sigma). last (tokenize (sr_condition r)) \<noteq> ''of''" by code_simp
  have f: "first_hit (\<lambda>e s. None) (sd_rules demo_sigma) demo_root = Some (demo_rule\<lparr>sr_ID := ''r2'', sr_condition := ''a or b''\<rparr>)"
    by code_simp
  have t: "ev_Timestamp demo_root = 7" "sr_Title demo_rule = ''Root login''" by (simp_all add: demo_root_def demo_rule_def)
  from Inspect_first_match [OF o, where re = "\<lambda>e s. None" and e = demo_root] show ?thesis
    unfolding f option.case using t by auto
qed

end
