(* ===== verification/Cooldown.thy ===== *)
theory Cooldown
  imports Prelude
begin

text \<open>
  The contract of an alert cooldown, which two detectors implement: a request for a key is let
  through unless the last one let through for that key is less than the cooldown ago. Proved once:
  along a run with a clock that does not go back, two requests of a key that were let through are at
  least a cooldown apart, and a request is refused only if such a one is less than a cooldown before it.
\<close>

locale cooldown_gate =
  fixes gate :: "'k \<Rightarrow> gotime \<Rightarrow> 's \<Rightarrow> bool \<times> 's"
    and cool :: "'s \<Rightarrow> duration"
    and last_pass :: "'s \<Rightarrow> 'k \<Rightarrow> gotime option"
  assumes gate_fst: "fst (gate k t s) \<longleftrightarrow> (\<forall>l. last_pass s k = Some l \<longrightarrow> t - l \<ge> cool s)"
    and gate_pass: "fst (gate k t s) \<Longrightarrow> last_pass (snd (gate k t s)) = (last_pass s)(k \<mapsto> t)"
    and gate_block: "\<not> fst (gate k t s) \<Longrightarrow> last_pass (snd (gate k t s)) = last_pass s"
    and gate_cool: "cool (snd (gate k t s)) = cool s"
begin

text \<open>The requests of a run that were let through, the newest first.\<close>

fun passes :: "('k \<times> gotime) list \<Rightarrow> 's \<Rightarrow> ('k \<times> gotime) list \<Rightarrow> ('k \<times> gotime) list" where
  "passes [] s acc = acc"
| "passes ((k, t) # reqs) s acc =
     (case gate k t s of (ok, s') \<Rightarrow> passes reqs s' (if ok then (k, t) # acc else acc))"

definition spaced :: "duration \<Rightarrow> ('k \<times> gotime) list \<Rightarrow> bool" where
  "spaced cd = sorted_wrt (\<lambda>(k, t) (k', t'). t' \<le> t \<and> (k = k' \<longrightarrow> t - t' \<ge> cd))"

text \<open>The state remembers, per key, the newest request let through.\<close>

definition tracks :: "'s \<Rightarrow> ('k \<times> gotime) list \<Rightarrow> bool" where
  "tracks s acc = (\<forall>k. last_pass s k = map_of acc k)"

lemma gate_step:
  assumes "tracks s acc" "spaced (cool s) acc" "\<forall>(k', t') \<in> set acc. t' \<le> t" "gate k t s = (ok, s')"
  shows "tracks s' (if ok then (k, t) # acc else acc)" "spaced (cool s) (if ok then (k, t) # acc else acc)"
    "cool s' = cool s" "ok \<longleftrightarrow> (\<forall>t'. (k, t') \<in> set acc \<longrightarrow> t - t' \<ge> cool s)"
proof -
  have ok: "ok \<longleftrightarrow> (\<forall>l. map_of acc k = Some l \<longrightarrow> t - l \<ge> cool s)"
    using gate_fst [of k t s] assms(1,4) by (simp add: tracks_def)
  have newest: "t' \<le> l" if "(k, t') \<in> set acc" "map_of acc k = Some l" for t' l
    using that assms(2) unfolding spaced_def by (induction acc) (fastforce split: if_splits)+
  show iff: "ok \<longleftrightarrow> (\<forall>t'. (k, t') \<in> set acc \<longrightarrow> t - t' \<ge> cool s)"
  proof
    assume o: ok
    show "\<forall>t'. (k, t') \<in> set acc \<longrightarrow> t - t' \<ge> cool s"
    proof (intro allI impI)
      fix t' assume m: "(k, t') \<in> set acc"
      then obtain l where l: "map_of acc k = Some l" by (meson weak_map_of_SomeI)
      with o ok newest [OF m l] show "t - t' \<ge> cool s" by force
    qed
  qed (use ok in \<open>auto dest: map_of_SomeD\<close>)
  show "cool s' = cool s" using gate_cool [of k t s] assms(4) by simp
  show "tracks s' (if ok then (k, t) # acc else acc)"
    using gate_pass [of k t s] gate_block [of k t s] assms(1,4) by (simp add: tracks_def)
  show "spaced (cool s) (if ok then (k, t) # acc else acc)"
    using assms(2,3) iff by (auto simp: spaced_def)
qed

lemma passes_spaced_gen:
  assumes "tracks s acc" "spaced (cool s) acc" "\<forall>(k', t') \<in> set acc. \<forall>(k, t) \<in> set reqs. t' \<le> t" "sorted (map snd reqs)"
  shows "spaced (cool s) (passes reqs s acc)"
  using assms
proof (induction reqs arbitrary: s acc)
  case (Cons r reqs)
  obtain k t where r: "r = (k, t)" by force
  obtain ok s' where g: "gate k t s = (ok, s')" by force
  have "\<forall>(k', t') \<in> set acc. t' \<le> t" using Cons.prems(3) r by fastforce
  note st = gate_step [OF Cons.prems(1,2) this g]
  have "\<forall>(k', t') \<in> set (if ok then (k, t) # acc else acc). \<forall>(k, t) \<in> set reqs. t' \<le> t"
    using Cons.prems(3,4) r by (auto split: if_splits)
  from Cons.IH [OF st(1) _ this] st(2,3) Cons.prems(4) show ?case by (simp add: r g)
qed simp

lemma passes_spaced:
  assumes "\<forall>k. last_pass s k = None" "sorted (map snd reqs)"
  shows "spaced (cool s) (passes reqs s [])"
  using passes_spaced_gen [of s "[]" reqs] assms by (simp add: tracks_def spaced_def)

end

end
