(* ===== verification/Brute_Force.thy ===== *)
theory Brute_Force
  imports Events Cooldown
begin

text \<open>
  The SSH brute-force detector of \<^verbatim>\<open>internal/detect/bruteforce.go\<close>: a sliding window of failure
  times per source address and an alert cooldown. A nil event is \<open>None\<close>; the zero
  \<^verbatim>\<open>time.Time\<close> is 0, and the clock read for it is an argument.
\<close>

section \<open>Model\<close>

record bf_config =
  bf_Threshold :: int
  bf_Window :: duration
  bf_Cooldown :: duration
  bf_RuleID :: string
  bf_RuleName :: string

definition DefaultBruteForceConfig :: bf_config where
  "DefaultBruteForceConfig =
     \<lparr>bf_Threshold = 5, bf_Window = minute, bf_Cooldown = 5 * minute,
      bf_RuleID = ''deuswatch-ssh-bruteforce'', bf_RuleName = ''SSH Brute Force''\<rparr>"

record bf_detector =
  bf_cfg :: bf_config
  bf_hits :: "string \<Rightarrow> gotime list"
  bf_lastAlert :: "string \<Rightarrow> gotime option"

definition NewBruteForceDetector :: "bf_config \<Rightarrow> bf_detector" where
  "NewBruteForceDetector cfg = \<lparr>bf_cfg = cfg, bf_hits = (\<lambda>_. []), bf_lastAlert = (\<lambda>_. None)\<rparr>"

definition isFailedSSHLogin :: "event \<Rightarrow> bool" where
  "isFailedSSHLogin e =
     (case ev_Source e of
        None \<Rightarrow> False
      | Some s \<Rightarrow>
          if ep_IP s = [] then False
          else if ef_Outcome (ev_Event e) \<noteq> ''failure'' then False
          else ef_Dataset (ev_Event e) = ''sshd'' \<or> ef_Action (ev_Event e) = ''ssh_login'')"

definition bf_buildAlert :: "bf_config \<Rightarrow> event \<Rightarrow> gotime \<Rightarrow> event" where
  "bf_buildAlert cfg src t =
     empty_event
       \<lparr>ev_Timestamp := t,
        ev_Event := \<lparr>ef_Category = ''intrusion_detection'', ef_Action = ''ssh_bruteforce_detected'',
          ef_Outcome = ''detected'', ef_Severity = SeverityHigh, ef_Dataset = ''deuswatch.detect'', ef_Original = []\<rparr>,
        ev_Source := map_option (\<lambda>s. \<lparr>ep_IP = ep_IP s, ep_Port = ep_Port s, ep_Geo = ep_Geo s, ep_AS = None\<rparr>) (ev_Source src),
        ev_Rule := Some \<lparr>er_ID = bf_RuleID cfg, er_Name = bf_RuleName cfg\<rparr>,
        ev_Threat := Some \<lparr>th_Technique = \<lparr>tech_ID = ''T1110'', tech_Name = ''Brute Force''\<rparr>,
          th_TacticName = ''Credential Access'', th_Indicator = None, th_FeedName = []\<rparr>,
        ev_DeusWatch := empty_deuswatch
          \<lparr>dw_Label := ''bruteforce'', dw_Enrichment := dw_Enrichment (ev_DeusWatch src),
           dw_Severity := \<lparr>sm_Original = SeverityHigh, sm_EscalatedBy = []\<rparr>\<rparr>,
        ev_Host := map_option (\<lambda>h. \<lparr>host_Name = host_Name h, host_OSType = host_OSType h, host_IP = host_IP h\<rparr>) (ev_Host src),
        ev_User := map_option (\<lambda>u. \<lparr>eu_Name = eu_Name u, eu_Domain = eu_Domain u, eu_Effective = []\<rparr>) (ev_User src)\<rparr>"

definition event_time :: "gotime \<Rightarrow> event \<Rightarrow> gotime" where
  "event_time clock e = (if ev_Timestamp e = 0 then clock else ev_Timestamp e)"

definition source_ip :: "event \<Rightarrow> string" where
  "source_ip e = (case ev_Source e of Some s \<Rightarrow> ep_IP s | None \<Rightarrow> [])"

text \<open>The cooldown test of \<^verbatim>\<open>Inspect\<close> and the update that follows it.\<close>

definition bf_gate :: "string \<Rightarrow> gotime \<Rightarrow> bf_detector \<Rightarrow> bool \<times> bf_detector" where
  "bf_gate addr t d =
     (case bf_lastAlert d addr of
        Some l \<Rightarrow> if t - l < bf_Cooldown (bf_cfg d) then (False, d)
                  else (True, d\<lparr>bf_lastAlert := (bf_lastAlert d)(addr \<mapsto> t)\<rparr>)
      | None \<Rightarrow> (True, d\<lparr>bf_lastAlert := (bf_lastAlert d)(addr \<mapsto> t)\<rparr>))"

definition bf_Inspect :: "bf_detector \<Rightarrow> gotime \<Rightarrow> event option \<Rightarrow> event option \<times> bf_detector" where
  "bf_Inspect d clock mev =
     (case mev of
        None \<Rightarrow> (None, d)
      | Some e \<Rightarrow>
          if \<not> isFailedSSHLogin e then (None, d)
          else
            let addr = source_ip e; t = event_time clock e; cutoff = t - bf_Window (bf_cfg d);
                kept = filter (\<lambda>x. x > cutoff) (bf_hits d addr) @ [t];
                d1 = d\<lparr>bf_hits := (bf_hits d)(addr := kept)\<rparr>
            in if int (length kept) < bf_Threshold (bf_cfg d) then (None, d1)
               else (case bf_gate addr t d1 of
                       (False, d2) \<Rightarrow> (None, d2)
                     | (True, d2) \<Rightarrow> (Some (bf_buildAlert (bf_cfg d) e t), d2)))"

interpretation bf: cooldown_gate bf_gate "\<lambda>d. bf_Cooldown (bf_cfg d)" bf_lastAlert
  by unfold_locales (auto simp: bf_gate_def split: option.splits if_splits)

section \<open>Reference: the whole history\<close>

text \<open>
  The reference detector forgets nothing: it has every failure (oldest first) and every alert (newest
  first) so far. It fires when the failures of the address within the window, with the new one, reach
  the threshold and no alert for the address is less than the cooldown ago.
\<close>

type_synonym bf_history = "(string \<times> gotime) list \<times> (string \<times> gotime) list"

definition times_of :: "string \<Rightarrow> (string \<times> gotime) list \<Rightarrow> gotime list" where
  "times_of addr h = map snd (filter (\<lambda>x. fst x = addr) h)"

definition ref_fires :: "bf_config \<Rightarrow> bf_history \<Rightarrow> string \<Rightarrow> gotime \<Rightarrow> bool" where
  "ref_fires cfg h addr t =
     (1 + int (length (filter (\<lambda>x. x > t - bf_Window cfg) (times_of addr (fst h)))) \<ge> bf_Threshold cfg \<and>
      (\<forall>t' \<in> set (times_of addr (snd h)). t - t' \<ge> bf_Cooldown cfg))"

fun ref_run :: "bf_config \<Rightarrow> bf_history \<Rightarrow> (gotime \<times> event) list \<Rightarrow> event option list" where
  "ref_run cfg h [] = []"
| "ref_run cfg h ((clock, e) # es) =
     (if \<not> isFailedSSHLogin e then None # ref_run cfg h es
      else let addr = source_ip e; t = event_time clock e; fire = ref_fires cfg h addr t in
        (if fire then Some (bf_buildAlert cfg e t) else None) #
        ref_run cfg (fst h @ [(addr, t)], if fire then (addr, t) # snd h else snd h) es)"

fun bf_run :: "bf_detector \<Rightarrow> (gotime \<times> event) list \<Rightarrow> event option list" where
  "bf_run d [] = []"
| "bf_run d ((clock, e) # es) = (case bf_Inspect d clock (Some e) of (a, d') \<Rightarrow> a # bf_run d' es)"

section \<open>Refinement\<close>

text \<open>From time \<open>T\<close> on the window of every address gives the failures the history gives.\<close>

definition window_ok :: "gotime \<Rightarrow> bf_detector \<Rightarrow> (string \<times> gotime) list \<Rightarrow> bool" where
  "window_ok T d fails =
     (\<forall>addr t. t \<ge> T \<longrightarrow> filter (\<lambda>x. x > t - bf_Window (bf_cfg d)) (bf_hits d addr) =
                          filter (\<lambda>x. x > t - bf_Window (bf_cfg d)) (times_of addr fails))"

definition bf_sim :: "gotime \<Rightarrow> bf_config \<Rightarrow> bf_detector \<Rightarrow> bf_history \<Rightarrow> bool" where
  "bf_sim T cfg d h =
     (bf_cfg d = cfg \<and> window_ok T d (fst h) \<and> bf.tracks d (snd h) \<and> bf.spaced (bf_Cooldown cfg) (snd h) \<and>
      (\<forall>(a, t) \<in> set (snd h). t \<le> T))"

lemma times_of_append: "times_of addr (h @ [(a, t)]) = times_of addr h @ (if a = addr then [t] else [])"
  by (simp add: times_of_def)

lemma set_times_of: "t \<in> set (times_of addr h) \<longleftrightarrow> (addr, t) \<in> set h"
  by (force simp: times_of_def)

lemma window_step:
  assumes "window_ok T d fails" "T \<le> t"
    and "d1 = d\<lparr>bf_hits := (bf_hits d)(a := filter (\<lambda>x. x > t - bf_Window (bf_cfg d)) (bf_hits d a) @ [t])\<rparr>"
  shows "window_ok t d1 (fails @ [(a, t)])"
  unfolding window_ok_def
proof (intro allI impI)
  fix addr u assume u: "t \<le> u"
  let ?W = "bf_Window (bf_cfg d)"
  have old: "filter (\<lambda>x. x > u - ?W) (bf_hits d addr) = filter (\<lambda>x. x > u - ?W) (times_of addr fails)"
    using assms(1,2) u by (simp add: window_ok_def)
  have "filter (\<lambda>x. x > u - ?W) (filter (\<lambda>x. x > t - ?W) xs) = filter (\<lambda>x. x > u - ?W) xs" for xs :: "gotime list"
    unfolding filter_filter using u by (intro filter_cong) auto
  then show "filter (\<lambda>x. x > u - bf_Window (bf_cfg d1)) (bf_hits d1 addr) =
      filter (\<lambda>x. x > u - bf_Window (bf_cfg d1)) (times_of addr (fails @ [(a, t)]))"
    using old by (cases "addr = a") (simp_all add: assms(3) times_of_append)
qed

lemma tracks_hits: "bf.tracks (d\<lparr>bf_hits := f\<rparr>) h = bf.tracks d h"
  by (simp add: bf.tracks_def)

lemma bf_gate_keeps: "bf_gate a t d = (ok, d') \<Longrightarrow> bf_hits d' = bf_hits d \<and> bf_cfg d' = bf_cfg d"
  by (auto simp: bf_gate_def split: option.splits if_splits)

lemma Inspect_step:
  assumes sim: "bf_sim T cfg d h" and e: "isFailedSSHLogin e" "addr = source_ip e" "t = event_time clock e" "T \<le> t"
    and r: "bf_Inspect d clock (Some e) = (out, d')"
  shows "out = (if ref_fires cfg h addr t then Some (bf_buildAlert cfg e t) else None)"
    "bf_sim t cfg d' (fst h @ [(addr, t)], if ref_fires cfg h addr t then (addr, t) # snd h else snd h)"
proof -
  define kept where "kept = filter (\<lambda>x. x > t - bf_Window cfg) (bf_hits d addr) @ [t]"
  define d1 where "d1 = d\<lparr>bf_hits := (bf_hits d)(addr := kept)\<rparr>"
  obtain ok d2 where g: "bf_gate addr t d1 = (ok, d2)" by force
  have cfg: "bf_cfg d = cfg" "bf_cfg d1 = cfg" using sim by (simp_all add: bf_sim_def d1_def)
  have len: "int (length kept) = 1 + int (length (filter (\<lambda>x. x > t - bf_Window cfg) (times_of addr (fst h))))"
    using sim e(4) unfolding kept_def bf_sim_def window_ok_def by auto
  have w: "window_ok t d1 (fst h @ [(addr, t)])"
    using window_step [of T d "fst h" t d1 addr] sim e(4) cfg(1) by (simp add: bf_sim_def d1_def kept_def)
  have old: "\<forall>(a, u) \<in> set (snd h). u \<le> t" using sim e(4) by (fastforce simp: bf_sim_def)
  have tr: "bf.tracks d1 (snd h)" "bf.spaced (bf_Cooldown (bf_cfg d1)) (snd h)"
    using sim cfg by (simp_all add: bf_sim_def d1_def tracks_hits)
  note st = bf.gate_step [OF tr old g]
  have ok: "ok \<longleftrightarrow> (\<forall>u \<in> set (times_of addr (snd h)). t - u \<ge> bf_Cooldown cfg)"
    using st(4) cfg by (auto simp: set_times_of)
  have fires: "ref_fires cfg h addr t \<longleftrightarrow> int (length kept) \<ge> bf_Threshold cfg \<and> ok"
    unfolding ref_fires_def ok len by simp
  have out: "(out, d') = (if int (length kept) < bf_Threshold cfg then (None, d1)
      else if ok then (Some (bf_buildAlert cfg e t), d2) else (None, d2))"
    using r e(1) g unfolding bf_Inspect_def option.case Let_def e(2,3) [symmetric] cfg(1) kept_def [symmetric] d1_def [symmetric]
    by (cases ok) (simp_all split: if_splits)
  then show "out = (if ref_fires cfg h addr t then Some (bf_buildAlert cfg e t) else None)"
    unfolding fires by (auto split: if_splits)
  show "bf_sim t cfg d' (fst h @ [(addr, t)], if ref_fires cfg h addr t then (addr, t) # snd h else snd h)"
  proof (cases "int (length kept) < bf_Threshold cfg")
    case True
    then have "d' = d1" "\<not> ref_fires cfg h addr t" using out fires by simp_all
    then show ?thesis using w tr old cfg by (simp add: bf_sim_def)
  next
    case False
    then have d': "d' = d2" and f: "ref_fires cfg h addr t = ok" using out fires by (auto split: if_splits)
    have "window_ok t d2 (fst h @ [(addr, t)])" using w bf_gate_keeps [OF g] by (simp add: window_ok_def)
    then show ?thesis using st(1,2) old cfg bf_gate_keeps [OF g] unfolding d' f bf_sim_def by auto
  qed
qed

lemma bf_run_ref:
  assumes "bf_sim T cfg d h" "sorted (T # map (\<lambda>(c, e). event_time c e) (filter (\<lambda>(c, e). isFailedSSHLogin e) es))"
  shows "bf_run d es = ref_run cfg h es"
  using assms
proof (induction es arbitrary: T d h)
  case (Cons ce es)
  obtain c e where ce: "ce = (c, e)" by force
  obtain out d' where r: "bf_Inspect d c (Some e) = (out, d')" by force
  show ?case
  proof (cases "isFailedSSHLogin e")
    case False
    then have "out = None" "d' = d" using r by (simp_all add: bf_Inspect_def)
    with Cons.IH [OF Cons.prems(1)] Cons.prems(2) False show ?thesis by (simp add: ce r)
  next
    case True
    let ?t = "event_time c e"
    have "T \<le> ?t" using Cons.prems(2) True by (simp add: ce)
    note st = Inspect_step [OF Cons.prems(1) True refl refl this r]
    from Cons.IH [OF st(2)] Cons.prems(2) True st(1) show ?thesis by (simp add: ce r Let_def)
  qed
qed simp

text \<open>
  C11: For every stream of events whose failed logins come with times that do not go back, a fresh
  detector raises exactly the alerts of the reference that keeps the whole history: the pruning of
  the window and the single remembered alert lose nothing.
\<close>

theorem bruteforce_refines_history:
  assumes "sorted (map (\<lambda>(c, e). event_time c e) (filter (\<lambda>(c, e). isFailedSSHLogin e) es))"
  shows "bf_run (NewBruteForceDetector cfg) es = ref_run cfg ([], []) es"
proof -
  let ?ts = "map (\<lambda>(c, e). event_time c e) (filter (\<lambda>(c, e). isFailedSSHLogin e) es)"
  let ?T = "case ?ts of [] \<Rightarrow> 0 | t # _ \<Rightarrow> t"
  have "bf_sim ?T cfg (NewBruteForceDetector cfg) ([], [])"
    by (simp add: bf_sim_def NewBruteForceDetector_def window_ok_def times_of_def bf.tracks_def bf.spaced_def)
  moreover have "sorted ((case ts of [] \<Rightarrow> 0 | t # _ \<Rightarrow> t) # ts)" if "sorted ts" for ts :: "gotime list"
    using that by (cases ts) auto
  note this [OF assms]
  ultimately show ?thesis by (rule bf_run_ref)
qed

definition failed_login :: "string \<Rightarrow> gotime \<Rightarrow> event" where
  "failed_login addr t = empty_event\<lparr>ev_Timestamp := t, ev_Source := Some (endpoint_of addr),
     ev_Event := \<lparr>ef_Category = ''authentication'', ef_Action = ''ssh_login'', ef_Outcome = ''failure'',
       ef_Severity = 1, ef_Dataset = ''sshd'', ef_Original = []\<rparr>\<rparr>"

theorem bruteforce_refines_history_witness:
  "map (\<lambda>a. a \<noteq> None) (bf_run (NewBruteForceDetector (DefaultBruteForceConfig\<lparr>bf_Threshold := 2\<rparr>))
     [(0, failed_login ''10.0.0.1'' 1), (0, failed_login ''10.0.0.2'' 2), (0, failed_login ''10.0.0.1'' 3),
      (0, failed_login ''10.0.0.1'' 4)]) = [False, False, True, False]"
proof -
  let ?es = "[(0, failed_login ''10.0.0.1'' 1), (0, failed_login ''10.0.0.2'' 2), (0, failed_login ''10.0.0.1'' 3),
      (0, failed_login ''10.0.0.1'' 4)]"
  let ?cfg = "DefaultBruteForceConfig\<lparr>bf_Threshold := 2\<rparr>"
  have s: "sorted (map (\<lambda>(c, e). event_time c e) (filter (\<lambda>(c, e). isFailedSSHLogin e) ?es))" by code_simp
  have "map (\<lambda>a. a \<noteq> None) (ref_run ?cfg ([], []) ?es) = [False, False, True, False]" by code_simp
  then show ?thesis unfolding bruteforce_refines_history [OF s] .
qed

end
