(* ===== verification/Sigma_SQL.thy ===== *)
theory Sigma_SQL
  imports Sigma_Props
begin

text \<open>
  The aggregation path of \<^verbatim>\<open>internal/detect/sigma/aggregate.go\<close>: a rule with a piped condition is
  compiled into one SQL query with numbered parameters. The compiler is modelled down to the text of
  the query; its arguments are the strings appended to the argument slice.

  \<^verbatim>\<open>aggPipeRe\<close> is written out as a matcher for that one expression.
\<close>

section \<open>Durations\<close>

definition parseSigmaDuration :: "string \<Rightarrow> duration option" where
  "parseSigmaDuration s0 =
     (let s = trim_space s0 in
      if s = [] then None
      else if has_suffix s ''d'' then map_option (\<lambda>n. wrap64 (n * 24 * hour)) (go_atoi (butlast s))
      else ParseDuration s)"

section \<open>Rules\<close>

record agg_rule =
  ag_ID :: string
  ag_Title :: string
  ag_Level :: string
  ag_Tags :: "string list"
  ag_LogSource :: "(string \<times> string) list"
  ag_GroupByField :: string
  ag_Op :: string
  ag_Threshold :: int
  ag_Window :: duration
  ag_Mitigation :: "mitigation_action option"
  ag_whereSQL :: string
  ag_whereArgs :: "string list"

datatype agg_error =
    CondNotString
  | NotAggregation
  | UnsupportedPipe string
  | BadTimeframe string
  | BadSelection sigma_error
  | SqlMissingParen
  | SqlQuantifier string
  | SqlIncomplete
  | SqlUnknownSelection string
  | SqlEmptySelection
  | SqlNoColumn string
  | SqlModifier string
  | SqlLeftover "string list"
  | NoGroupColumn string

definition detectionTimeframe :: "(string \<times> go_any) list \<Rightarrow> agg_error + duration" where
  "detectionTimeframe detection =
     (case map_of detection ''timeframe'' of
        None \<Rightarrow> Inr (5 * minute)
      | Some tf \<Rightarrow>
          (case parseSigmaDuration (toStr tf) of
             None \<Rightarrow> Inl (BadTimeframe (toStr tf))
           | Some d \<Rightarrow> Inr d))"

text \<open>\<^verbatim>\<open>aggPipeRe\<close>: \<^verbatim>\<open>\s\<close> is space, tab, newline, form feed and carriage return.\<close>

definition re_space :: "char \<Rightarrow> bool" where
  "re_space c = ((of_char c :: nat) \<in> {32, 9, 10, 12, 13})"

definition re_ident :: "char \<Rightarrow> bool" where
  "re_ident c = (let n = (of_char c :: nat)
     in 65 \<le> n \<and> n \<le> 90 \<or> 97 \<le> n \<and> n \<le> 122 \<or> is_digit c \<or> c = CHR ''_'' \<or> c = CHR ''.'')"

definition strip_prefix :: "string \<Rightarrow> string \<Rightarrow> string option" where
  "strip_prefix p s = (if has_prefix s p then Some (drop (length p) s) else None)"

definition re_group :: "string \<Rightarrow> (string \<times> string) option" where
  "re_group s =
     (case strip_prefix ''by'' s of
        None \<Rightarrow> Some ([], s)
      | Some s1 \<Rightarrow>
          let s2 = dropWhile re_space s1; name = takeWhile re_ident s2; s3 = dropWhile re_ident s2;
              s4 = dropWhile re_space s3
          in if s2 = s1 \<or> name = [] \<or> s4 = s3 then None else Some (name, s4))"

definition re_op :: "string \<Rightarrow> (string \<times> string) option" where
  "re_op s =
     (case strip_prefix ''>='' s of Some r \<Rightarrow> Some (''>='', r) | None \<Rightarrow>
     (case strip_prefix ''<='' s of Some r \<Rightarrow> Some (''<='', r) | None \<Rightarrow>
     (case strip_prefix ''>'' s of Some r \<Rightarrow> Some (''>'', r) | None \<Rightarrow>
     (case strip_prefix ''<'' s of Some r \<Rightarrow> Some (''<'', r) | None \<Rightarrow> None))))"

text \<open>The submatches: the group field (empty when absent), the operator, the digits.\<close>

definition aggPipeRe :: "string \<Rightarrow> (string \<times> string \<times> string) option" where
  "aggPipeRe s =
     (case strip_prefix ''count('' s of None \<Rightarrow> None | Some s1 \<Rightarrow>
     (case strip_prefix '')'' (dropWhile re_space s1) of None \<Rightarrow> None | Some s2 \<Rightarrow>
     (case re_group (dropWhile re_space s2) of None \<Rightarrow> None | Some (field, s3) \<Rightarrow>
     (case re_op s3 of None \<Rightarrow> None | Some (op, s4) \<Rightarrow>
        let ds = dropWhile re_space s4
        in if ds \<noteq> [] \<and> list_all is_digit ds then Some (field, op, ds) else None))))"

section \<open>Columns\<close>

record column =
  col_expr :: string
  col_inet :: bool

definition plain_col :: "string \<Rightarrow> column" where
  "plain_col e = \<lparr>col_expr = e, col_inet = False\<rparr>"

definition inet_col :: "string \<Rightarrow> column" where
  "inet_col e = \<lparr>col_expr = e, col_inet = True\<rparr>"

definition fieldColumns :: "(string \<times> column) list" where
  "fieldColumns =
     [(''event.category'', plain_col ''event_category''), (''event.action'', plain_col ''event_action''),
      (''event.outcome'', plain_col ''event_outcome''), (''event.dataset'', plain_col ''event_dataset''),
      (''event.severity'', plain_col ''event_severity''), (''event.original'', plain_col ''event_original''),
      (''source.ip'', inet_col ''source_ip''), (''source.port'', plain_col ''source_port''),
      (''destination.ip'', inet_col ''destination_ip''), (''destination.port'', plain_col ''destination_port''),
      (''host.name'', plain_col ''host_name''), (''host.os.type'', plain_col ''host_os_type''),
      (''user.name'', plain_col ''user_name''), (''user.domain'', plain_col ''user_domain''),
      (''process.name'', plain_col ''process_name''), (''process.command_line'', plain_col ''process_command_line''),
      (''file.path'', plain_col ''file_path''), (''file.hash.sha256'', plain_col ''file_hash_sha256''),
      (''network.protocol'', plain_col ''network_protocol''), (''network.transport'', plain_col ''network_transport'')]"

definition columnFor :: "string \<Rightarrow> column option" where
  "columnFor field =
     (case map_of fieldColumns field of
        Some c \<Rightarrow> Some c
      | None \<Rightarrow> map_of fieldColumns (resolveField field))"

definition selectExpr :: "column \<Rightarrow> string" where
  "selectExpr c = (if col_inet c then ''host('' @ col_expr c @ '')'' else col_expr c)"

text \<open>\<^verbatim>\<open>add\<close>: append an argument and name its placeholder.\<close>

definition placeholder :: "string list \<Rightarrow> string" where
  "placeholder args = ''$'' @ go_itoa (int (length args))"

definition compare ::
    "column \<Rightarrow> string \<Rightarrow> string \<Rightarrow> string list \<Rightarrow> (agg_error + string) \<times> string list" where
  "compare c md v args =
     (let lhs = (if col_inet c \<and> md \<noteq> [] then ''host('' @ col_expr c @ '')'' else col_expr c);
          add = (\<lambda>val. args @ [val])
      in if md = [] then
           (if col_inet c then (Inr (col_expr c @ '' = '' @ placeholder (add v) @ ''::inet''), add v)
            else (Inr (''lower('' @ col_expr c @ ''::text) = lower('' @ placeholder (add v) @ '')''), add v))
         else if md = ''contains'' then
           (Inr (lhs @ '' ILIKE '' @ placeholder (add (''%'' @ v @ ''%''))), add (''%'' @ v @ ''%''))
         else if md = ''startswith'' then
           (Inr (lhs @ '' ILIKE '' @ placeholder (add (v @ ''%''))), add (v @ ''%''))
         else if md = ''endswith'' then
           (Inr (lhs @ '' ILIKE '' @ placeholder (add (''%'' @ v))), add (''%'' @ v))
         else if md = ''re'' then (Inr (lhs @ '' ~ '' @ placeholder (add v)), add v)
         else (Inl (SqlModifier md), args))"

section \<open>Selections\<close>

fun compare_all ::
    "column \<Rightarrow> string \<Rightarrow> string list \<Rightarrow> string list \<Rightarrow> (agg_error + string list) \<times> string list" where
  "compare_all c md [] args = (Inr [], args)"
| "compare_all c md (v # vs) args =
     (case compare c md v args of
        (Inl e, args1) \<Rightarrow> (Inl e, args1)
      | (Inr frag, args1) \<Rightarrow>
          (case compare_all c md vs args1 of
             (Inl e, args2) \<Rightarrow> (Inl e, args2)
           | (Inr frags, args2) \<Rightarrow> (Inr (frag # frags), args2)))"

definition fieldCond_sql :: "field_cond \<Rightarrow> string list \<Rightarrow> (agg_error + string) \<times> string list" where
  "fieldCond_sql fc args =
     (case columnFor (fc_name fc) of
        None \<Rightarrow> (Inl (SqlNoColumn (fc_name fc)), args)
      | Some col \<Rightarrow>
          (case compare_all col (case fc_modifiers fc of [] \<Rightarrow> [] | m # _ \<Rightarrow> m) (fc_values fc) args of
             (Inl e, args1) \<Rightarrow> (Inl e, args1)
           | (Inr ors, args1) \<Rightarrow>
               (Inr (case ors of [x] \<Rightarrow> x | _ \<Rightarrow> ''('' @ join_with '' OR '' ors @ '')''), args1)))"

fun fields_sql :: "field_cond list \<Rightarrow> string list \<Rightarrow> (agg_error + string list) \<times> string list" where
  "fields_sql [] args = (Inr [], args)"
| "fields_sql (fc # fcs) args =
     (case fieldCond_sql fc args of
        (Inl e, args1) \<Rightarrow> (Inl e, args1)
      | (Inr frag, args1) \<Rightarrow>
          (case fields_sql fcs args1 of
             (Inl e, args2) \<Rightarrow> (Inl e, args2)
           | (Inr frags, args2) \<Rightarrow> (Inr (frag # frags), args2)))"

fun keywords_sql :: "string list \<Rightarrow> string list \<Rightarrow> string list \<times> string list" where
  "keywords_sql [] args = ([], args)"
| "keywords_sql (kw # kws) args =
     (let args1 = args @ [''%'' @ kw @ ''%'']
      in case keywords_sql kws args1 of
           (parts, args2) \<Rightarrow> ((''event_original ILIKE '' @ placeholder args1) # parts, args2))"

definition selection_sql :: "selection \<Rightarrow> string list \<Rightarrow> (agg_error + string) \<times> string list" where
  "selection_sql s args =
     (if sel_keywords s \<noteq> [] then
        (case keywords_sql (sel_keywords s) args of
           (parts, args1) \<Rightarrow> (Inr (''('' @ join_with '' OR '' parts @ '')''), args1))
      else if sel_fields s = [] then (Inl SqlEmptySelection, args)
      else (case fields_sql (sel_fields s) args of
              (Inl e, args1) \<Rightarrow> (Inl e, args1)
            | (Inr parts, args1) \<Rightarrow> (Inr (''('' @ join_with '' AND '' parts @ '')''), args1)))"

section \<open>Conditions\<close>

record sqlCond =
  sc_toks :: "string list"
  sc_sels :: "(string \<times> selection) list"

definition sql_peek :: "sqlCond \<Rightarrow> nat \<Rightarrow> string" where
  "sql_peek c pos = tok_at (sc_toks c) pos"

type_synonym sql_result = "(agg_error + string) \<times> nat \<times> string list"

text \<open>The functions of \<^verbatim>\<open>sqlCond\<close>; position and argument slice are threaded through.\<close>

function (sequential)
    sql_parseOr :: "sqlCond \<Rightarrow> nat \<Rightarrow> string list \<Rightarrow> sql_result"
and sql_parseAnd :: "sqlCond \<Rightarrow> nat \<Rightarrow> string list \<Rightarrow> sql_result"
and sql_or_loop :: "sqlCond \<Rightarrow> string \<Rightarrow> nat \<Rightarrow> string list \<Rightarrow> sql_result"
and sql_and_loop :: "sqlCond \<Rightarrow> string \<Rightarrow> nat \<Rightarrow> string list \<Rightarrow> sql_result"
and sql_parseUnary :: "sqlCond \<Rightarrow> nat \<Rightarrow> string list \<Rightarrow> sql_result"
and sql_parsePrimary :: "sqlCond \<Rightarrow> nat \<Rightarrow> string list \<Rightarrow> sql_result"
where
  "sql_parseOr c pos args =
     (case sql_parseAnd c pos args of
        (Inl e, r) \<Rightarrow> (Inl e, r)
      | (Inr v, pos1, args1) \<Rightarrow> sql_or_loop c v pos1 args1)"
| "sql_or_loop c v pos args =
     (if sql_peek c pos = ''or'' then
        (case sql_parseAnd c (pos + 1) args of
           (Inl e, r) \<Rightarrow> (Inl e, r)
         | (Inr rhs, pos1, args1) \<Rightarrow> sql_or_loop c (''('' @ v @ '' OR '' @ rhs @ '')'') pos1 args1)
      else (Inr v, pos, args))"
| "sql_parseAnd c pos args =
     (case sql_parseUnary c pos args of
        (Inl e, r) \<Rightarrow> (Inl e, r)
      | (Inr v, pos1, args1) \<Rightarrow> sql_and_loop c v pos1 args1)"
| "sql_and_loop c v pos args =
     (if sql_peek c pos = ''and'' then
        (case sql_parseUnary c (pos + 1) args of
           (Inl e, r) \<Rightarrow> (Inl e, r)
         | (Inr rhs, pos1, args1) \<Rightarrow> sql_and_loop c (''('' @ v @ '' AND '' @ rhs @ '')'') pos1 args1)
      else (Inr v, pos, args))"
| "sql_parseUnary c pos args =
     (if sql_peek c pos = ''not'' then
        (case sql_parseUnary c (pos + 1) args of
           (Inl e, r) \<Rightarrow> (Inl e, r)
         | (Inr v, r) \<Rightarrow> (Inr (''(NOT '' @ v @ '')''), r))
      else sql_parsePrimary c pos args)"
| "sql_parsePrimary c pos args =
     (let t = sql_peek c pos in
      if t = ''('' then
        (case sql_parseOr c (pos + 1) args of
           (Inl e, r) \<Rightarrow> (Inl e, r)
         | (Inr v, pos1, args1) \<Rightarrow>
             if sql_peek c pos1 \<noteq> '')'' then (Inl SqlMissingParen, pos1 + 1, args1) else (Inr v, pos1 + 1, args1))
      else if t = ''all'' \<or> t = ''any'' \<or> isNumber t then (Inl (SqlQuantifier t), pos + 1, args)
      else if t = [] then (Inl SqlIncomplete, pos + 1, args)
      else (case map_of (sc_sels c) t of
              None \<Rightarrow> (Inl (SqlUnknownSelection t), pos + 1, args)
            | Some sel \<Rightarrow> (case selection_sql sel args of (r, args1) \<Rightarrow> (r, pos + 1, args1))))"
  by pat_completeness auto

lemma sql_progress_dom:
  "sql_parseOr_sql_parseAnd_sql_or_loop_sql_and_loop_sql_parseUnary_sql_parsePrimary_dom (Inl (Inl (c, pos, args))) \<Longrightarrow> pos < fst (snd (sql_parseOr c pos args))"
  "sql_parseOr_sql_parseAnd_sql_or_loop_sql_and_loop_sql_parseUnary_sql_parsePrimary_dom (Inl (Inr (Inl (c, pos, args)))) \<Longrightarrow> pos < fst (snd (sql_parseAnd c pos args))"
  "sql_parseOr_sql_parseAnd_sql_or_loop_sql_and_loop_sql_parseUnary_sql_parsePrimary_dom (Inl (Inr (Inr (c, v, pos, args)))) \<Longrightarrow> pos \<le> fst (snd (sql_or_loop c v pos args))"
  "sql_parseOr_sql_parseAnd_sql_or_loop_sql_and_loop_sql_parseUnary_sql_parsePrimary_dom (Inr (Inl (c, v, pos, args))) \<Longrightarrow> pos \<le> fst (snd (sql_and_loop c v pos args))"
  "sql_parseOr_sql_parseAnd_sql_or_loop_sql_and_loop_sql_parseUnary_sql_parsePrimary_dom (Inr (Inr (Inl (c, pos, args)))) \<Longrightarrow> pos < fst (snd (sql_parseUnary c pos args))"
  "sql_parseOr_sql_parseAnd_sql_or_loop_sql_and_loop_sql_parseUnary_sql_parsePrimary_dom (Inr (Inr (Inr (c, pos, args)))) \<Longrightarrow> pos < fst (snd (sql_parsePrimary c pos args))"
proof (induction c pos args and c pos args and c v pos args and c v pos args and c pos args and c pos args
    rule: sql_parseOr_sql_parseAnd_sql_or_loop_sql_and_loop_sql_parseUnary_sql_parsePrimary.pinduct)
  case (1 c pos args)
  then show ?case by (fastforce simp: sql_parseOr.psimps split: prod.splits sum.splits)
next
  case (2 c v pos args)
  then show ?case by (fastforce simp: sql_or_loop.psimps split: prod.splits sum.splits)
next
  case (3 c pos args)
  then show ?case by (fastforce simp: sql_parseAnd.psimps split: prod.splits sum.splits)
next
  case (4 c v pos args)
  then show ?case by (fastforce simp: sql_and_loop.psimps split: prod.splits sum.splits)
next
  case (5 c pos args)
  then show ?case by (fastforce simp: sql_parseUnary.psimps split: prod.splits sum.splits)
next
  case (6 c pos args)
  then show ?case by (fastforce simp: sql_parsePrimary.psimps Let_def split: prod.splits sum.splits option.splits)
qed

lemma sql_peek_nonempty: "sql_peek c pos \<noteq> [] \<Longrightarrow> pos < length (sc_toks c)"
  by (simp add: sql_peek_def tok_at_def split: if_splits)

termination sql_parseOr
proof (relation "measure (\<lambda>x. case x of
      Inl (Inl (c, pos, args)) \<Rightarrow> 4 * (length (sc_toks c) - pos) + 3
    | Inl (Inr (Inl (c, pos, args))) \<Rightarrow> 4 * (length (sc_toks c) - pos) + 2
    | Inl (Inr (Inr (c, v, pos, args))) \<Rightarrow> 4 * (length (sc_toks c) - pos)
    | Inr (Inl (c, v, pos, args)) \<Rightarrow> 4 * (length (sc_toks c) - pos)
    | Inr (Inr (Inl (c, pos, args))) \<Rightarrow> 4 * (length (sc_toks c) - pos) + 1
    | Inr (Inr (Inr (c, pos, args))) \<Rightarrow> 4 * (length (sc_toks c) - pos))", goal_cases)
  case 1
  show ?case by simp
next
  case (3 c pos args x y b z d)
  then show ?case using sql_progress_dom(2) [of c pos args] by (auto simp: prod_eq_iff case_prod_beta)
next
  case (4 c v pos args)
  then show ?case using sql_peek_nonempty [of c pos] by simp
next
  case (5 c v pos args x y b z d)
  then show ?case using sql_peek_nonempty [of c pos] sql_progress_dom(2) [of c "pos + 1" args] by (auto simp: prod_eq_iff case_prod_beta)
next
  case (7 c pos args x y b z d)
  then show ?case using sql_progress_dom(5) [of c pos args] by (auto simp: prod_eq_iff case_prod_beta)
next
  case (8 c v pos args)
  then show ?case using sql_peek_nonempty [of c pos] by simp
next
  case (9 c v pos args x y b z d)
  then show ?case using sql_peek_nonempty [of c pos] sql_progress_dom(5) [of c "pos + 1" args] by (auto simp: prod_eq_iff case_prod_beta)
next
  case (10 c pos args)
  then show ?case using sql_peek_nonempty [of c pos] by simp
next
  case (12 c pos args x)
  then have "sql_peek c pos \<noteq> []" by auto
  then show ?case using sql_peek_nonempty [of c pos] by simp
qed simp_all

declare sql_parseOr.simps [simp del] sql_or_loop.simps [simp del] sql_parseAnd.simps [simp del]
  sql_and_loop.simps [simp del] sql_parseUnary.simps [simp del] sql_parsePrimary.simps [simp del]

lemma sql_peek_next: "sql_peek c pos \<noteq> [] \<Longrightarrow> pos + 1 \<le> length (sc_toks c)"
  using sql_peek_nonempty [of c pos] by simp

text \<open>On success the position is within the tokens, so the slice of the left-over tokens never panics.\<close>

lemma sql_pos_within:
  "sql_parseOr c pos args = (Inr v', pos', args') \<Longrightarrow> pos' \<le> length (sc_toks c)"
  "sql_parseAnd c pos args = (Inr v', pos', args') \<Longrightarrow> pos' \<le> length (sc_toks c)"
  "sql_or_loop c v pos args = (Inr v', pos', args') \<Longrightarrow> pos \<le> length (sc_toks c) \<Longrightarrow> pos' \<le> length (sc_toks c)"
  "sql_and_loop c v pos args = (Inr v', pos', args') \<Longrightarrow> pos \<le> length (sc_toks c) \<Longrightarrow> pos' \<le> length (sc_toks c)"
  "sql_parseUnary c pos args = (Inr v', pos', args') \<Longrightarrow> pos' \<le> length (sc_toks c)"
  "sql_parsePrimary c pos args = (Inr v', pos', args') \<Longrightarrow> pos' \<le> length (sc_toks c)"
proof (induction c pos args and c pos args and c v pos args and c v pos args and c pos args and c pos args
    arbitrary: v' pos' args' and v' pos' args' and v' pos' args' and v' pos' args' and v' pos' args' and v' pos' args'
    rule: sql_parseOr_sql_parseAnd_sql_or_loop_sql_and_loop_sql_parseUnary_sql_parsePrimary.induct)
  case (1 c pos args)
  then show ?case by (simp add: sql_parseOr.simps [of c pos] split: prod.splits sum.splits)
next
  case (2 c v pos args)
  then show ?case by (simp add: sql_or_loop.simps [of c v pos] split: prod.splits sum.splits if_splits)
next
  case (3 c pos args)
  then show ?case by (simp add: sql_parseAnd.simps [of c pos] split: prod.splits sum.splits)
next
  case (4 c v pos args)
  then show ?case by (simp add: sql_and_loop.simps [of c v pos] split: prod.splits sum.splits if_splits)
next
  case (5 c pos args)
  then show ?case by (auto simp: sql_parseUnary.simps [of c pos] split: prod.splits sum.splits if_splits)
next
  case (6 c pos args)
  show ?case
  proof (cases "sql_peek c pos = ''(''")
    case True
    with 6(2) obtain q where "sql_peek c q = '')''" "pos' = q + 1"
      by (auto simp: sql_parsePrimary.simps [of c pos] split: prod.splits sum.splits if_splits)
    then show ?thesis using sql_peek_next [of c q] by simp
  next
    case False
    with 6(2) have "sql_peek c pos \<noteq> []" "pos' = pos + 1"
      unfolding sql_parsePrimary.simps [of c pos] Let_def by (auto split: prod.splits if_splits option.splits)
    then show ?thesis using sql_peek_next [of c pos] by simp
  qed
qed

definition compileCondition ::
    "string \<Rightarrow> (string \<times> selection) list \<Rightarrow> agg_error + string \<times> string list" where
  "compileCondition cond sels =
     (let c = \<lparr>sc_toks = tokenize cond, sc_sels = sels\<rparr> in
      case sql_parseOr c 0 [] of
        (Inl e, _) \<Rightarrow> Inl e
      | (Inr sql, pos, args) \<Rightarrow>
          if pos \<noteq> length (sc_toks c) then Inl (SqlLeftover (drop pos (sc_toks c))) else Inr (sql, args))"

section \<open>Rules to queries\<close>

definition isAggregation :: "(string \<times> go_any) list \<Rightarrow> bool" where
  "isAggregation detection =
     (case map_of detection ''condition'' of Some (AStr cond) \<Rightarrow> contains_str cond ''|'' | _ \<Rightarrow> False)"

definition parse_mitigation :: "mitigation_action option \<Rightarrow> mitigation_action option" where
  "parse_mitigation mm =
     (case mm of
        Some m \<Rightarrow>
          if ma_ActionType m \<noteq> [] then
            Some \<lparr>ma_ActionType = to_lower (trim_space (ma_ActionType m)),
                  ma_TimeoutSeconds = ma_TimeoutSeconds m,
                  ma_CriticalityThreshold = to_lower (trim_space (ma_CriticalityThreshold m))\<rparr>
          else None
      | None \<Rightarrow> None)"

text \<open>\<^verbatim>\<open>threshold, _ := strconv.Atoi(m[3])\<close>: out of range gives the largest integer.\<close>

definition atoi_or_max :: "string \<Rightarrow> int" where
  "atoi_or_max ds = (case go_atoi ds of Some n \<Rightarrow> n | None \<Rightarrow> 2 ^ 63 - 1)"

definition ParseAggRule :: "raw_rule \<Rightarrow> agg_error + agg_rule" where
  "ParseAggRule raw =
     (case map_of (raw_Detection raw) ''condition'' of
        Some (AStr condRaw) \<Rightarrow>
          (case index_byte condRaw CHR ''|'' of
             None \<Rightarrow> Inl NotAggregation
           | Some i \<Rightarrow>
               let left = trim_space (take i condRaw); pipe = trim_space (drop (Suc i) condRaw) in
               (case aggPipeRe pipe of
                  None \<Rightarrow> Inl (UnsupportedPipe pipe)
                | Some (field, op, ds) \<Rightarrow>
               (case detectionTimeframe (raw_Detection raw) of
                  Inl e \<Rightarrow> Inl e
                | Inr window \<Rightarrow>
               (case parseSelections (raw_Detection raw) of
                  Inl e \<Rightarrow> Inl (BadSelection e)
                | Inr sels \<Rightarrow>
               (case compileCondition left sels of
                  Inl e \<Rightarrow> Inl e
                | Inr (wh, args) \<Rightarrow>
                    if field \<noteq> [] \<and> columnFor field = None then Inl (NoGroupColumn field)
                    else Inr \<lparr>ag_ID = raw_ID raw, ag_Title = raw_Title raw, ag_Level = raw_Level raw,
                      ag_Tags = raw_Tags raw, ag_LogSource = raw_LogSource raw, ag_GroupByField = field,
                      ag_Op = op, ag_Threshold = atoi_or_max ds, ag_Window = window,
                      ag_Mitigation = parse_mitigation (raw_Mitigation raw),
                      ag_whereSQL = wh, ag_whereArgs = args\<rparr>)))))
      | _ \<Rightarrow> Inl CondNotString)"

definition newline :: string where "newline = [CHR 0x0A]"
definition quotes :: string where "quotes = [CHR 0x27, CHR 0x27]"

definition CompileSQL :: "agg_rule \<Rightarrow> string \<times> string list" where
  "CompileSQL r =
     (let args = ag_whereArgs r @ [go_itoa (seconds_of (ag_Window r)) @ '' seconds''];
          (grpSelect, groupBy, notNull) =
            (if ag_GroupByField r = [] then (quotes @ ''::text'', [], [])
             else let col = (case columnFor (ag_GroupByField r) of Some c \<Rightarrow> c | None \<Rightarrow> plain_col [])
                  in (selectExpr col, newline @ ''GROUP BY '' @ col_expr col, '' AND '' @ col_expr col @ '' IS NOT NULL''))
      in (''SELECT '' @ grpSelect @ '' AS grp, count(*) AS n, max(time) AS last_seen, '' @
          ''COALESCE(max(agent_id),'' @ quotes @ '') AS agent, COALESCE(max(host_name),'' @ quotes @ '') AS host'' @
          newline @ ''FROM events'' @ newline @
          ''WHERE ('' @ ag_whereSQL r @ '') AND time > now() - '' @ placeholder args @ ''::interval'' @ notNull @
          groupBy @
          newline @ ''HAVING count(*) '' @ ag_Op r @ '' '' @ go_itoa (ag_Threshold r) @
          newline @ ''ORDER BY n DESC'', args))"

end
