(* ===== verification/Sigma_SQL_Props.thy ===== *)
theory Sigma_SQL_Props
  imports Sigma_SQL
begin

text \<open>
  What the SQL compiler promises: it reads a condition exactly as the in-memory evaluator does, and
  the text of a query never depends on the literal values of its rule, which reach the database
  only as arguments.
\<close>

section \<open>The compiler follows the syntax\<close>

text \<open>Whether a selection compiles does not depend on the arguments collected before it.\<close>

lemma compare_isl: "isl (fst (compare col md v args)) = isl (fst (compare col md v' args'))"
  by (simp add: compare_def Let_def)

lemma compare_all_isl: "isl (fst (compare_all col md vs args)) = isl (fst (compare_all col md vs args'))"
proof (induction vs arbitrary: args args')
  case (Cons v vs)
  obtain r a where r: "compare col md v args = (r, a)" by force
  obtain r' a' where r': "compare col md v args' = (r', a')" by force
  have "isl r = isl r'" using compare_isl [of col md v args v args'] r r' by simp
  with r r' Cons.IH [of a a'] show ?case by (auto split: sum.splits prod.splits simp: isl_def)
qed simp

lemma fieldCond_isl: "isl (fst (fieldCond_sql fc args)) = isl (fst (fieldCond_sql fc args'))"
proof (cases "columnFor (fc_name fc)")
  case (Some col)
  then show ?thesis using compare_all_isl [of col "case fc_modifiers fc of [] \<Rightarrow> [] | m # _ \<Rightarrow> m" "fc_values fc" args args']
    by (auto simp: fieldCond_sql_def isl_def split: sum.splits prod.splits)
qed (simp add: fieldCond_sql_def)

lemma fields_isl: "isl (fst (fields_sql fcs args)) = isl (fst (fields_sql fcs args'))"
proof (induction fcs arbitrary: args args')
  case (Cons fc fcs)
  obtain r a where r: "fieldCond_sql fc args = (r, a)" by force
  obtain r' a' where r': "fieldCond_sql fc args' = (r', a')" by force
  have "isl r = isl r'" using fieldCond_isl [of fc args args'] r r' by simp
  with r r' Cons.IH [of a a'] show ?case by (auto split: sum.splits prod.splits simp: isl_def)
qed simp

lemma selection_isl: "isl (fst (selection_sql s args)) = isl (fst (selection_sql s args'))"
  using fields_isl [of "sel_fields s" args args']
  by (auto simp: selection_sql_def isl_def split: sum.splits prod.splits)

definition sel_compiles :: "selection \<Rightarrow> bool" where
  "sel_compiles s = (\<not> isl (fst (selection_sql s [])))"

lemma sel_compiles_sql: "sel_compiles s \<Longrightarrow> \<exists>t args'. selection_sql s args = (Inr t, args')"
  using selection_isl [of s args "[]"] unfolding sel_compiles_def
  by (metis isl_def prod.collapse sum.collapse(2))

text \<open>The reference translation: the syntax tree, fully parenthesised, arguments from left to right.\<close>

primrec cond_sql :: "(string \<times> selection) list \<Rightarrow> cond \<Rightarrow> string list \<Rightarrow> string \<times> string list" where
  "cond_sql sels (CSel s) args =
     (case map_of sels s of
        None \<Rightarrow> ([], args)
      | Some sel \<Rightarrow> (case selection_sql sel args of (Inr t, args1) \<Rightarrow> (t, args1) | (Inl _, args1) \<Rightarrow> ([], args1)))"
| "cond_sql sels (CQuant q t) args = ([], args)"
| "cond_sql sels (CNot c) args = (case cond_sql sels c args of (v, args1) \<Rightarrow> (''(NOT '' @ v @ '')'', args1))"
| "cond_sql sels (CAnd c d) args =
     (case cond_sql sels c args of (v, args1) \<Rightarrow>
      (case cond_sql sels d args1 of (w, args2) \<Rightarrow> (''('' @ v @ '' AND '' @ w @ '')'', args2)))"
| "cond_sql sels (COr c d) args =
     (case cond_sql sels c args of (v, args1) \<Rightarrow>
      (case cond_sql sels d args1 of (w, args2) \<Rightarrow> (''('' @ v @ '' OR '' @ w @ '')'', args2)))"

primrec sql_wf :: "(string \<times> selection) list \<Rightarrow> cond \<Rightarrow> bool" where
  "sql_wf sels (CSel s) = (wf_name s \<and> (case map_of sels s of None \<Rightarrow> False | Some sel \<Rightarrow> sel_compiles sel))"
| "sql_wf sels (CQuant q t) = False"
| "sql_wf sels (CNot c) = sql_wf sels c"
| "sql_wf sels (CAnd c d) = (sql_wf sels c \<and> sql_wf sels d)"
| "sql_wf sels (COr c d) = (sql_wf sels c \<and> sql_wf sels d)"

lemma at_sqlD: "at (sc_toks c) pos (x # xs) \<Longrightarrow> sql_peek c pos = x"
  "at (sc_toks c) pos (x # xs) \<Longrightarrow> at (sc_toks c) (pos + 1) xs"
  unfolding sql_peek_def by (fact at_tokD)+

lemma sql_or_stop: "sql_peek c pos \<noteq> ''or'' \<Longrightarrow> sql_or_loop c v pos args = (Inr v, pos, args)"
  by (simp add: sql_or_loop.simps)

lemma sql_and_stop: "sql_peek c pos \<noteq> ''and'' \<Longrightarrow> sql_and_loop c v pos args = (Inr v, pos, args)"
  by (simp add: sql_and_loop.simps)

lemma sql_And_unary: "sql_parseUnary c pos args = (Inr v, pos1, args1) \<Longrightarrow> sql_parseAnd c pos args = sql_and_loop c v pos1 args1"
  by (simp add: sql_parseAnd.simps)

lemma sql_Or_and:
  "sql_parseAnd c pos args = sql_and_loop c v pos1 args1 \<Longrightarrow> sql_peek c pos1 \<noteq> ''and'' \<Longrightarrow>
   sql_parseOr c pos args = sql_or_loop c v pos1 args1"
  by (simp add: sql_parseOr.simps sql_and_stop)

lemma sql_Unary_paren:
  assumes a: "at (sc_toks c) pos (''('' # ts @ ['')''])"
    and body: "\<And>pos. at (sc_toks c) pos ts \<Longrightarrow> sql_peek c (pos + length ts) \<noteq> ''and'' \<Longrightarrow>
      sql_parseOr c pos args = sql_or_loop c v (pos + length ts) args1"
  shows "sql_parseUnary c pos args = (Inr v, pos + length ts + 2, args1)"
proof -
  note r = at_sqlD [OF a]
  have cl: "sql_peek c (pos + 1 + length ts) = '')''"
    using at_appendD(2) [OF r(2)] unfolding sql_peek_def by (rule at_tok)
  have b: "sql_parseOr c (pos + 1) args = (Inr v, pos + 1 + length ts, args1)"
    using body [OF at_appendD(1) [OF r(2)]] cl by (simp add: sql_or_stop)
  have "sql_parseUnary c pos args = sql_parsePrimary c pos args" using r(1) by (simp add: sql_parseUnary.simps)
  also have "\<dots> = (Inr v, pos + 1 + length ts + 1, args1)"
    unfolding sql_parsePrimary.simps [of c pos] Let_def using r(1) cl b by simp
  finally show ?thesis by simp
qed

definition compiles :: "sqlCond \<Rightarrow> cond \<Rightarrow> bool" where
  "compiles c k =
     ((\<forall>pos args. at (sc_toks c) pos (print_cond 2 k) \<longrightarrow>
         sql_parseUnary c pos args =
           (Inr (fst (cond_sql (sc_sels c) k args)), pos + length (print_cond 2 k), snd (cond_sql (sc_sels c) k args))) \<and>
      (\<forall>pos args. at (sc_toks c) pos (print_cond 1 k) \<longrightarrow>
         sql_parseAnd c pos args =
           sql_and_loop c (fst (cond_sql (sc_sels c) k args)) (pos + length (print_cond 1 k)) (snd (cond_sql (sc_sels c) k args))) \<and>
      (\<forall>pos args. at (sc_toks c) pos (print_cond 0 k) \<longrightarrow> sql_peek c (pos + length (print_cond 0 k)) \<noteq> ''and'' \<longrightarrow>
         sql_parseOr c pos args =
           sql_or_loop c (fst (cond_sql (sc_sels c) k args)) (pos + length (print_cond 0 k)) (snd (cond_sql (sc_sels c) k args))))"

lemma compiles_level:
  assumes "print_cond 1 k = print_cond 2 k" "print_cond 0 k = print_cond 2 k"
    and "\<And>pos args. at (sc_toks c) pos (print_cond 2 k) \<Longrightarrow> sql_parseUnary c pos args =
      (Inr (fst (cond_sql (sc_sels c) k args)), pos + length (print_cond 2 k), snd (cond_sql (sc_sels c) k args))"
  shows "compiles c k"
  unfolding compiles_def assms(1,2) using assms(3) sql_And_unary sql_Or_and by blast

lemma compiles_sel:
  assumes "sql_wf (sc_sels c) (CSel s)"
  shows "compiles c (CSel s)"
proof (rule compiles_level)
  fix pos args assume "at (sc_toks c) pos (print_cond 2 (CSel s))"
  then have pk: "sql_peek c pos = s" using at_sqlD(1) by simp
  from assms obtain sel where sel: "map_of (sc_sels c) s = Some sel" "sel_compiles sel" and nm: "wf_name s"
    by (auto split: option.splits)
  obtain t args1 where t: "selection_sql sel args = (Inr t, args1)" using sel_compiles_sql [OF sel(2)] by blast
  have "sql_parseUnary c pos args = sql_parsePrimary c pos args" using pk nm by (simp add: sql_parseUnary.simps wf_name_def)
  also have "\<dots> = (Inr t, pos + 1, args1)"
    unfolding sql_parsePrimary.simps [of c pos] Let_def pk using nm sel(1) t by (simp add: wf_name_def)
  finally show "sql_parseUnary c pos args =
      (Inr (fst (cond_sql (sc_sels c) (CSel s) args)), pos + length (print_cond 2 (CSel s)), snd (cond_sql (sc_sels c) (CSel s) args))"
    using sel(1) t by simp
qed simp_all

lemma compiles_not:
  assumes "compiles c k"
  shows "compiles c (CNot k)"
proof (rule compiles_level)
  fix pos args assume "at (sc_toks c) pos (print_cond 2 (CNot k))"
  then have b: "at (sc_toks c) pos (''not'' # print_cond 2 k)" by simp
  have "sql_parseUnary c (pos + 1) args =
      (Inr (fst (cond_sql (sc_sels c) k args)), pos + 1 + length (print_cond 2 k), snd (cond_sql (sc_sels c) k args))"
    using assms at_sqlD(2) [OF b] unfolding compiles_def by blast
  with at_sqlD(1) [OF b] show "sql_parseUnary c pos args =
      (Inr (fst (cond_sql (sc_sels c) (CNot k) args)), pos + length (print_cond 2 (CNot k)), snd (cond_sql (sc_sels c) (CNot k) args))"
    by (simp add: sql_parseUnary.simps [of c pos] split: prod.splits)
qed simp_all

lemma compiles_and:
  assumes k: "compiles c k" and l: "compiles c l"
  shows "compiles c (CAnd k l)"
proof -
  let ?ts = "print_cond 1 k @ ''and'' # print_cond 2 l"
  let ?s = "\<lambda>args. cond_sql (sc_sels c) (CAnd k l) args"
  have 1: "sql_parseAnd c pos args = sql_and_loop c (fst (?s args)) (pos + length ?ts) (snd (?s args))"
    if "at (sc_toks c) pos ?ts" for pos args
  proof -
    let ?q = "pos + length (print_cond 1 k)"
    note ak = at_appendD(1) [OF that] and an = at_sqlD(1) [OF at_appendD(2) [OF that]]
      and al = at_sqlD(2) [OF at_appendD(2) [OF that]]
    obtain v a1 where v: "cond_sql (sc_sels c) k args = (v, a1)" by force
    obtain w a2 where w: "cond_sql (sc_sels c) l a1 = (w, a2)" by force
    have "sql_parseAnd c pos args = sql_and_loop c v ?q a1" using k ak v by (simp add: compiles_def)
    also have "\<dots> = sql_and_loop c (''('' @ v @ '' AND '' @ w @ '')'') (?q + 1 + length (print_cond 2 l)) a2"
      using an al l w by (subst sql_and_loop.simps) (simp add: compiles_def)
    finally show ?thesis using v w by (simp add: add.assoc)
  qed
  have 0: "sql_parseOr c pos args = sql_or_loop c (fst (?s args)) (pos + length ?ts) (snd (?s args))"
    if "at (sc_toks c) pos ?ts" "sql_peek c (pos + length ?ts) \<noteq> ''and''" for pos args
    using sql_Or_and [OF 1 [OF that(1)] that(2)] .
  have 2: "sql_parseUnary c pos args = (Inr (fst (?s args)), pos + length (print_cond 2 (CAnd k l)), snd (?s args))"
    if "at (sc_toks c) pos (print_cond 2 (CAnd k l))" for pos args
  proof -
    from that have a: "at (sc_toks c) pos (''('' # ?ts @ ['')''])" by (simp add: paren_def)
    from sql_Unary_paren [OF a 0] show ?thesis by (simp add: paren_def)
  qed
  from 0 1 2 show ?thesis unfolding compiles_def by (simp add: paren_def)
qed

lemma compiles_or:
  assumes k: "compiles c k" and l: "compiles c l"
  shows "compiles c (COr k l)"
proof -
  let ?ts = "print_cond 0 k @ ''or'' # print_cond 1 l"
  let ?s = "\<lambda>args. cond_sql (sc_sels c) (COr k l) args"
  have 0: "sql_parseOr c pos args = sql_or_loop c (fst (?s args)) (pos + length ?ts) (snd (?s args))"
    if "at (sc_toks c) pos ?ts" "sql_peek c (pos + length ?ts) \<noteq> ''and''" for pos args
  proof -
    let ?q = "pos + length (print_cond 0 k)"
    note ak = at_appendD(1) [OF that(1)] and an = at_sqlD(1) [OF at_appendD(2) [OF that(1)]]
      and al = at_sqlD(2) [OF at_appendD(2) [OF that(1)]]
    obtain v a1 where v: "cond_sql (sc_sels c) k args = (v, a1)" by force
    obtain w a2 where w: "cond_sql (sc_sels c) l a1 = (w, a2)" by force
    have "sql_parseOr c pos args = sql_or_loop c v ?q a1" using k ak an v by (simp add: compiles_def)
    also have "\<dots> = sql_or_loop c (''('' @ v @ '' OR '' @ w @ '')'') (?q + 1 + length (print_cond 1 l)) a2"
      using an al l w that(2) by (subst sql_or_loop.simps) (simp add: compiles_def sql_and_stop add.assoc)
    finally show ?thesis using v w by (simp add: add.assoc)
  qed
  have 2: "sql_parseUnary c pos args = (Inr (fst (?s args)), pos + length (print_cond 2 (COr k l)), snd (?s args))"
    if "at (sc_toks c) pos (print_cond 2 (COr k l))" for pos args
  proof -
    from that have a: "at (sc_toks c) pos (''('' # ?ts @ ['')''])" by (simp add: paren_def)
    from sql_Unary_paren [OF a 0] show ?thesis by (simp add: paren_def)
  qed
  have same: "print_cond 1 (COr k l) = print_cond 2 (COr k l)" by (simp add: paren_def)
  have 1: "sql_parseAnd c pos args = sql_and_loop c (fst (?s args)) (pos + length (print_cond 1 (COr k l))) (snd (?s args))"
    if "at (sc_toks c) pos (print_cond 1 (COr k l))" for pos args
    using sql_And_unary [OF 2] that unfolding same by blast
  from 0 1 2 show ?thesis unfolding compiles_def by (simp add: paren_def)
qed

lemma compiles_all: "sql_wf (sc_sels c) k \<Longrightarrow> compiles c k"
  by (induction k) (simp_all add: compiles_sel compiles_not compiles_and compiles_or del: sql_wf.simps(1))

text \<open>
  C9: The condition before the pipe of an aggregation rule is compiled, without an error, to the
  fully parenthesised translation of the syntax tree the in-memory evaluator gives to the same text,
  with the arguments numbered from left to right.
\<close>

theorem compileCondition_meaning:
  assumes "clean k" "sql_wf sels k"
  shows "compileCondition (cond_text k) sels = Inr (cond_sql sels k [])"
proof -
  define c where "c = \<lparr>sc_toks = tokenize (cond_text k), sc_sels = sels\<rparr>"
  have t: "sc_toks c = print_cond 0 k"
    using tokenize_join [OF print_cond_tokens [OF assms(1)]] by (simp add: c_def cond_text_def)
  have e: "sql_peek c (length (print_cond 0 k)) = []" by (simp add: sql_peek_def tok_at_def t)
  have "at (sc_toks c) 0 (print_cond 0 k)" by (simp add: at_def t)
  moreover have "compiles c k" using assms(2) by (simp add: compiles_all c_def)
  ultimately have "sql_parseOr c 0 [] = sql_or_loop c (fst (cond_sql sels k [])) (length (print_cond 0 k)) (snd (cond_sql sels k []))"
    using e unfolding compiles_def by (simp add: c_def)
  also have "\<dots> = (Inr (fst (cond_sql sels k [])), length (print_cond 0 k), snd (cond_sql sels k []))"
    using e by (simp add: sql_or_stop)
  finally show ?thesis unfolding compileCondition_def c_def [symmetric] by (simp add: t)
qed

definition failed_logins :: "(string \<times> selection) list" where
  "failed_logins =
     [(''a'', \<lparr>sel_fields = [\<lparr>fc_name = ''event.outcome'', fc_modifiers = [], fc_values = [''failure'']\<rparr>], sel_keywords = []\<rparr>),
      (''b'', \<lparr>sel_fields = [\<lparr>fc_name = ''src_ip'', fc_modifiers = [''startswith''], fc_values = [''10.'']\<rparr>], sel_keywords = []\<rparr>)]"

theorem compileCondition_meaning_witness:
  "compileCondition ''a and not b'' failed_logins =
     Inr (''((lower(event_outcome::text) = lower($1)) AND (NOT (host(source_ip) ILIKE $2)))'', [''failure'', ''10.%''])"
proof -
  let ?k = "CAnd (CSel ''a'') (CNot (CSel ''b''))"
  have w: "clean ?k" "sql_wf failed_logins ?k" by code_simp+
  have "cond_text ?k = ''a and not b''" by code_simp
  moreover have "cond_sql failed_logins ?k [] =
      (''((lower(event_outcome::text) = lower($1)) AND (NOT (host(source_ip) ILIKE $2)))'', [''failure'', ''10.%''])"
    by code_simp
  ultimately show ?thesis using compileCondition_meaning [OF w] by simp
qed

section \<open>Values stay out of the text\<close>

definition same_field :: "field_cond \<Rightarrow> field_cond \<Rightarrow> bool" where
  "same_field f g = (fc_name f = fc_name g \<and> fc_modifiers f = fc_modifiers g \<and> length (fc_values f) = length (fc_values g))"

definition same_selection :: "selection \<Rightarrow> selection \<Rightarrow> bool" where
  "same_selection s t =
     (length (sel_keywords s) = length (sel_keywords t) \<and> list_all2 same_field (sel_fields s) (sel_fields t))"

text \<open>Two results with the same text, for argument lists of the same length.\<close>

definition same_text :: "('e + 'a) \<times> string list \<Rightarrow> ('e + 'a) \<times> string list \<Rightarrow> bool" where
  "same_text r r' = (fst r = fst r' \<and> length (snd r) = length (snd r'))"

lemma compare_text: "length args = length args' \<Longrightarrow> same_text (compare col md v args) (compare col md v' args')"
  by (simp add: compare_def same_text_def placeholder_def Let_def)

lemma compare_all_text:
  "length vs = length vs' \<Longrightarrow> length args = length args' \<Longrightarrow>
   same_text (compare_all col md vs args) (compare_all col md vs' args')"
proof (induction vs vs' arbitrary: args args' rule: list_induct2)
  case (Cons v vs v' vs')
  obtain r a where r: "compare col md v args = (r, a)" by force
  obtain r' a' where r': "compare col md v' args' = (r', a')" by force
  have "r = r'" "length a = length a'" using compare_text [OF Cons.prems, of col md v v'] r r' by (simp_all add: same_text_def)
  with r r' Cons.IH [of a a'] show ?case by (auto simp: same_text_def split: sum.splits prod.splits)
qed (simp add: same_text_def)

lemma fieldCond_text:
  assumes "same_field f g" "length args = length args'"
  shows "same_text (fieldCond_sql f args) (fieldCond_sql g args')"
proof -
  have *: "same_text (compare_all col md (fc_values f) args) (compare_all col md (fc_values g) args')" for col md
    using assms by (intro compare_all_text) (simp_all add: same_field_def)
  show ?thesis
  proof (cases "columnFor (fc_name g)")
    case (Some col)
    with * [of col "case fc_modifiers g of [] \<Rightarrow> [] | m # _ \<Rightarrow> m"] assms show ?thesis
      by (auto simp: fieldCond_sql_def same_field_def same_text_def split: prod.splits sum.splits)
  qed (use assms in \<open>simp add: fieldCond_sql_def same_field_def same_text_def\<close>)
qed

lemma fields_text:
  "list_all2 same_field fs gs \<Longrightarrow> length args = length args' \<Longrightarrow> same_text (fields_sql fs args) (fields_sql gs args')"
proof (induction arbitrary: args args' rule: list_all2_induct)
  case (Cons f fs g gs)
  obtain r a where r: "fieldCond_sql f args = (r, a)" by force
  obtain r' a' where r': "fieldCond_sql g args' = (r', a')" by force
  have "r = r'" "length a = length a'" using fieldCond_text [OF Cons.hyps(1) Cons.prems] r r' by (simp_all add: same_text_def)
  with r r' Cons.IH [of a a'] show ?case by (auto simp: same_text_def split: sum.splits prod.splits)
qed (simp add: same_text_def)

lemma keywords_text:
  "length ks = length ls \<Longrightarrow> length args = length args' \<Longrightarrow>
   fst (keywords_sql ks args) = fst (keywords_sql ls args') \<and>
   length (snd (keywords_sql ks args)) = length (snd (keywords_sql ls args'))"
proof (induction ks ls arbitrary: args args' rule: list_induct2)
  case (Cons k ks l ls)
  from Cons.IH [of "args @ [''%'' @ k @ ''%'']" "args' @ [''%'' @ l @ ''%'']"] Cons.prems show ?case
    by (auto simp: placeholder_def Let_def split: prod.splits)
qed simp

lemma selection_text:
  assumes "same_selection s t" "length args = length args'"
  shows "same_text (selection_sql s args) (selection_sql t args')"
proof (cases "sel_keywords t = []")
  case True
  with assms fields_text [of "sel_fields s" "sel_fields t" args args'] show ?thesis
    by (auto simp: selection_sql_def same_selection_def same_text_def split: prod.splits sum.splits)
next
  case False
  with assms have "sel_keywords s \<noteq> []" by (auto simp: same_selection_def)
  with False assms keywords_text [of "sel_keywords s" "sel_keywords t" args args'] show ?thesis
    by (auto simp: selection_sql_def same_selection_def same_text_def split: prod.splits)
qed

definition same_sels :: "(string \<times> selection) list \<Rightarrow> (string \<times> selection) list \<Rightarrow> bool" where
  "same_sels = list_all2 (\<lambda>(n, s) (m, t). n = m \<and> same_selection s t)"

lemma same_sels_lookup:
  "same_sels ss ts \<Longrightarrow> rel_option same_selection (map_of ss n) (map_of ts n)"
  unfolding same_sels_def by (induction rule: list_all2_induct) auto

definition same_result :: "sql_result \<Rightarrow> sql_result \<Rightarrow> bool" where
  "same_result r r' = (fst r = fst r' \<and> fst (snd r) = fst (snd r') \<and> length (snd (snd r)) = length (snd (snd r')))"

lemma same_result_bind:
  assumes "same_result x y"
    and "\<And>v p a a'. x = (Inr v, p, a) \<Longrightarrow> length a = length a' \<Longrightarrow> same_result (f v p a) (g v p a')"
  shows "same_result (case x of (Inl e, r) \<Rightarrow> (Inl e, r) | (Inr v, p, a) \<Rightarrow> f v p a)
    (case y of (Inl e, r) \<Rightarrow> (Inl e, r) | (Inr v, p, a) \<Rightarrow> g v p a)"
proof (cases x)
  case (fields r p a)
  with assms(1) obtain a' where y: "y = (r, p, a')" and l: "length a = length a'"
    by (auto simp: same_result_def prod_eq_iff)
  show ?thesis
  proof (cases r)
    case (Inl e)
    with fields y l show ?thesis by (simp add: same_result_def)
  next
    case (Inr v)
    from assms(2) [OF fields [unfolded Inr] l] show ?thesis by (simp add: fields y Inr)
  qed
qed

lemma sql_text:
  fixes d :: sqlCond
  assumes "same_sels sels (sc_sels d)"
  shows "c = d\<lparr>sc_sels := sels\<rparr> \<Longrightarrow> length args = length args' \<Longrightarrow> same_result (sql_parseOr c pos args) (sql_parseOr d pos args')"
  "c = d\<lparr>sc_sels := sels\<rparr> \<Longrightarrow> length args = length args' \<Longrightarrow> same_result (sql_parseAnd c pos args) (sql_parseAnd d pos args')"
  "c = d\<lparr>sc_sels := sels\<rparr> \<Longrightarrow> length args = length args' \<Longrightarrow> same_result (sql_or_loop c v pos args) (sql_or_loop d v pos args')"
  "c = d\<lparr>sc_sels := sels\<rparr> \<Longrightarrow> length args = length args' \<Longrightarrow> same_result (sql_and_loop c v pos args) (sql_and_loop d v pos args')"
  "c = d\<lparr>sc_sels := sels\<rparr> \<Longrightarrow> length args = length args' \<Longrightarrow> same_result (sql_parseUnary c pos args) (sql_parseUnary d pos args')"
  "c = d\<lparr>sc_sels := sels\<rparr> \<Longrightarrow> length args = length args' \<Longrightarrow> same_result (sql_parsePrimary c pos args) (sql_parsePrimary d pos args')"
proof (induction c pos args and c pos args and c v pos args and c v pos args and c pos args and c pos args
    arbitrary: args' and args' and args' and args' and args' and args'
    rule: sql_parseOr_sql_parseAnd_sql_or_loop_sql_and_loop_sql_parseUnary_sql_parsePrimary.induct)
  case (1 c pos args)
  show ?case unfolding sql_parseOr.simps [of c pos] sql_parseOr.simps [of d pos]
    by (rule same_result_bind) (use 1 in \<open>simp_all\<close>)
next
  case (2 c v pos args)
  have p: "sql_peek c pos = sql_peek d pos" using 2(3) by (simp add: sql_peek_def)
  show ?case
  proof (cases "sql_peek d pos = ''or''")
    case True
    show ?thesis unfolding sql_or_loop.simps [of c v pos] sql_or_loop.simps [of d v pos] p if_P [OF True]
      by (rule same_result_bind) (use 2 p True in simp_all)
  qed (use 2(4) p in \<open>simp add: sql_or_stop same_result_def\<close>)
next
  case (3 c pos args)
  show ?case unfolding sql_parseAnd.simps [of c pos] sql_parseAnd.simps [of d pos]
    by (rule same_result_bind) (use 3 in \<open>simp_all\<close>)
next
  case (4 c v pos args)
  have p: "sql_peek c pos = sql_peek d pos" using 4(3) by (simp add: sql_peek_def)
  show ?case
  proof (cases "sql_peek d pos = ''and''")
    case True
    show ?thesis unfolding sql_and_loop.simps [of c v pos] sql_and_loop.simps [of d v pos] p if_P [OF True]
      by (rule same_result_bind) (use 4 p True in simp_all)
  qed (use 4(4) p in \<open>simp add: sql_and_stop same_result_def\<close>)
next
  case (5 c pos args)
  have p: "sql_peek c pos = sql_peek d pos" using 5(3) by (simp add: sql_peek_def)
  show ?case
  proof (cases "sql_peek d pos = ''not''")
    case True
    with 5 p have "same_result (sql_parseUnary c (pos + 1) args) (sql_parseUnary d (pos + 1) args')" by simp
    with True p show ?thesis unfolding sql_parseUnary.simps [of c pos] sql_parseUnary.simps [of d pos]
      by (auto simp: same_result_def split: prod.splits sum.splits)
  next
    case False
    with 5(2) [OF _ 5(3,4)] p show ?thesis
      unfolding sql_parseUnary.simps [of c pos] sql_parseUnary.simps [of d pos] by simp
  qed
next
  case (6 c pos args)
  have p: "sql_peek c q = sql_peek d q" for q using 6(2) by (simp add: sql_peek_def)
  show ?case
  proof (cases "sql_peek d pos = ''(''")
    case True
    show ?thesis unfolding sql_parsePrimary.simps [of c pos] sql_parsePrimary.simps [of d pos] p Let_def if_P [OF True]
      by (rule same_result_bind) (use 6 p True in \<open>simp_all add: same_result_def\<close>)
  next
    case False
    have "rel_option same_selection (map_of (sc_sels c) (sql_peek d pos)) (map_of (sc_sels d) (sql_peek d pos))"
      using same_sels_lookup [OF assms] 6(2) by simp
    then show ?thesis
    proof cases
      case None
      with False 6(3) show ?thesis
        unfolding sql_parsePrimary.simps [of c pos] sql_parsePrimary.simps [of d pos] p Let_def
        by (simp add: same_result_def)
    next
      case (Some s t)
      from selection_text [OF Some(3) 6(3)] False 6(3) Some(1,2) show ?thesis
        unfolding sql_parsePrimary.simps [of c pos] sql_parsePrimary.simps [of d pos] p Let_def
        by (simp add: same_result_def same_text_def case_prod_beta)
    qed
  qed
qed

lemma compileCondition_text:
  assumes "same_sels sels sels'"
  shows "rel_sum (=) (rel_prod (=) (\<lambda>a b. length a = length b)) (compileCondition cond sels) (compileCondition cond sels')"
proof -
  let ?d = "\<lparr>sc_toks = tokenize cond, sc_sels = sels'\<rparr>"
  have "same_result (sql_parseOr (?d\<lparr>sc_sels := sels\<rparr>) 0 []) (sql_parseOr ?d 0 [])"
    using sql_text(1) [of sels ?d "?d\<lparr>sc_sels := sels\<rparr>" "[]" "[]" 0] assms by simp
  then show ?thesis
    by (auto simp: compileCondition_def same_result_def Let_def split: prod.splits sum.splits)
qed

text \<open>The literals of a detection: everything but keys, list lengths, the condition and the timeframe.\<close>

fun same_any :: "go_any \<Rightarrow> go_any \<Rightarrow> bool" where
  "same_any (AMap kvs) (AMap lws) =
     list_all2 (\<lambda>(k, v) (l, w). k = l \<and> length (toStringSlice v) = length (toStringSlice w)) kvs lws"
| "same_any (AList xs) (AList ys) = (length xs = length ys)"
| "same_any v w = (v = w)"

definition same_literals :: "(string \<times> go_any) list \<Rightarrow> (string \<times> go_any) list \<Rightarrow> bool" where
  "same_literals =
     list_all2 (\<lambda>(k, v) (l, w). k = l \<and> (if k = ''condition'' \<or> k = ''timeframe'' then v = w else same_any v w))"

lemma parse_fields_same:
  "list_all2 (\<lambda>(k, v) (l, w). k = l \<and> length (toStringSlice v) = length (toStringSlice w)) kvs lws \<Longrightarrow>
   list_all2 same_field (parse_fields kvs) (parse_fields lws)"
  by (induction rule: list_all2_induct) (auto simp: same_field_def Let_def)

lemma same_literals_lookup:
  "same_literals d d' \<Longrightarrow> k = ''condition'' \<or> k = ''timeframe'' \<Longrightarrow> map_of d k = map_of d' k"
  unfolding same_literals_def by (induction rule: list_all2_induct) auto

lemma parseSelections_same:
  "same_literals d d' \<Longrightarrow> rel_sum (=) same_sels (parseSelections d) (parseSelections d')"
  unfolding same_literals_def
proof (induction rule: list_all2_induct)
  case Nil
  then show ?case by (simp add: same_sels_def)
next
  case (Cons kv d kw d')
  obtain k v where kv: "kv = (k, v)" by force
  obtain w where kw: "kw = (k, w)" using Cons.hyps(1) kv by (cases kw) auto
  show ?case
  proof (cases "k = ''condition'' \<or> k = ''timeframe''")
    case True
    with Cons.IH show ?thesis by (auto simp: kv kw)
  next
    case False
    with Cons.hyps(1) have "same_any v w" by (simp add: kv kw)
    with False Cons.IH show ?thesis
      by (cases v; cases w) (auto simp: kv kw same_sels_def same_selection_def parse_fields_same toStringSlice_def
          split: sum.splits)
  qed
qed

text \<open>
  C10: The text of an aggregation query does not depend on the literals of its rule: replacing the
  values, keywords and lists of a detection by others of the same shape gives a rule that compiles to
  the same text, with as many arguments. No literal is ever part of the SQL.
\<close>

theorem query_text_has_no_literal:
  assumes "ParseAggRule raw = Inr r" "same_literals (raw_Detection raw) d"
  shows "\<exists>r'. ParseAggRule (raw\<lparr>raw_Detection := d\<rparr>) = Inr r' \<and> fst (CompileSQL r') = fst (CompileSQL r) \<and>
    length (snd (CompileSQL r')) = length (snd (CompileSQL r))"
proof -
  let ?det = "raw_Detection raw"
  have look: "map_of d ''condition'' = map_of ?det ''condition''" "map_of d ''timeframe'' = map_of ?det ''timeframe''"
    using same_literals_lookup [OF assms(2)] by simp_all
  from assms(1) obtain condRaw i field op ds window sels wh args where
      p: "map_of ?det ''condition'' = Some (AStr condRaw)" "index_byte condRaw CHR ''|'' = Some i"
        "aggPipeRe (trim_space (drop (Suc i) condRaw)) = Some (field, op, ds)"
        "detectionTimeframe ?det = Inr window" "parseSelections ?det = Inr sels"
        "compileCondition (trim_space (take i condRaw)) sels = Inr (wh, args)"
        "\<not> (field \<noteq> [] \<and> columnFor field = None)"
    and r: "r = \<lparr>ag_ID = raw_ID raw, ag_Title = raw_Title raw, ag_Level = raw_Level raw, ag_Tags = raw_Tags raw,
        ag_LogSource = raw_LogSource raw, ag_GroupByField = field, ag_Op = op, ag_Threshold = atoi_or_max ds,
        ag_Window = window, ag_Mitigation = parse_mitigation (raw_Mitigation raw), ag_whereSQL = wh, ag_whereArgs = args\<rparr>"
    unfolding ParseAggRule_def Let_def
    by (auto split: option.splits go_any.splits sum.splits prod.splits if_splits)
  from parseSelections_same [OF assms(2)] p(5) obtain sels' where s': "parseSelections d = Inr sels'" "same_sels sels sels'"
    by (auto elim: rel_sum.cases)
  from compileCondition_text [OF s'(2), of "trim_space (take i condRaw)"] p(6) obtain args' where
      c': "compileCondition (trim_space (take i condRaw)) sels' = Inr (wh, args')" "length args = length args'"
    by (auto elim!: rel_sum.cases)
  have tf: "detectionTimeframe d = Inr window" using p(4) unfolding detectionTimeframe_def look .
  have "ParseAggRule (raw\<lparr>raw_Detection := d\<rparr>) = Inr (r\<lparr>ag_whereArgs := args'\<rparr>)"
    using p(1,2,3,7) s'(1) c'(1) tf look by (simp add: ParseAggRule_def r)
  moreover have "fst (CompileSQL (r\<lparr>ag_whereArgs := args'\<rparr>)) = fst (CompileSQL r)"
    "length (snd (CompileSQL (r\<lparr>ag_whereArgs := args'\<rparr>))) = length (snd (CompileSQL r))"
    using c'(2) by (simp_all add: CompileSQL_def r placeholder_def Let_def split: prod.splits)
  ultimately show ?thesis by blast
qed

definition brute_rule :: raw_rule where
  "brute_rule = \<lparr>raw_ID = ''r9'', raw_Title = ''Brute force'', raw_Level = ''high'', raw_Tags = [], raw_LogSource = [],
     raw_Detection = [(''sel'', AMap [(''user|contains'', AStr ''root'')]), (''timeframe'', AStr ''10m''),
       (''condition'', AStr ''sel | count() by src_ip >= 5'')], raw_Mitigation = None\<rparr>"

definition evil_detection :: "(string \<times> go_any) list" where
  "evil_detection = [(''sel'', AMap [(''user|contains'', AStr ''x) OR 1=1 --'')]), (''timeframe'', AStr ''10m''),
     (''condition'', AStr ''sel | count() by src_ip >= 5'')]"

definition brute_compiled :: agg_rule where
  "brute_compiled = \<lparr>ag_ID = ''r9'', ag_Title = ''Brute force'', ag_Level = ''high'', ag_Tags = [], ag_LogSource = [],
     ag_GroupByField = ''src_ip'', ag_Op = ''>='', ag_Threshold = 5, ag_Window = 10 * minute, ag_Mitigation = None,
     ag_whereSQL = ''(user_name ILIKE $1)'', ag_whereArgs = [''%root%'']\<rparr>"

lemma brute_rule_compiles: "ParseAggRule brute_rule = Inr brute_compiled"
  by code_simp

theorem query_text_has_no_literal_witness:
  "\<exists>r'. ParseAggRule (brute_rule\<lparr>raw_Detection := evil_detection\<rparr>) = Inr r' \<and>
     fst (CompileSQL r') = fst (CompileSQL brute_compiled) \<and>
     length (snd (CompileSQL r')) = length (snd (CompileSQL brute_compiled))"
  by (rule query_text_has_no_literal [OF brute_rule_compiles]) code_simp

end
