(* ===== verification/Aggregation.thy ===== *)
theory Aggregation
  imports Detector Sigma_SQL_Props Cooldown
begin

text \<open>
  The aggregation runner of \<^verbatim>\<open>internal/detect/aggregate.go\<close>: every cycle runs each compiled rule
  against the events table and raises an alert per group, unless the group had one within the
  cooldown. The query executor is the field it is in the code; the database it reads is the world
  argument \<open>'w\<close>, and the clock read for a group without a time is an argument.
\<close>

section \<open>Model\<close>

record agg_group =
  gr_Group :: string
  gr_Count :: int
  gr_LastSeen :: gotime
  gr_Agent :: string
  gr_Host :: string

definition DefaultAggCooldown :: duration where
  "DefaultAggCooldown = 5 * minute"

record ('w, 'e) agg_runner =
  ar_rules :: "agg_rule list"
  ar_exec :: "'w \<Rightarrow> string \<Rightarrow> string list \<Rightarrow> 'e + agg_group list"
  ar_cooldown :: duration
  ar_lastAlert :: "string \<Rightarrow> gotime option"

definition NewAggregateRunner ::
    "('w \<Rightarrow> string \<Rightarrow> string list \<Rightarrow> 'e + agg_group list) \<Rightarrow> agg_rule list \<Rightarrow> duration \<Rightarrow> ('w, 'e) agg_runner" where
  "NewAggregateRunner exec rules cd =
     \<lparr>ar_rules = rules, ar_exec = exec, ar_cooldown = (if cd \<le> 0 then DefaultAggCooldown else cd),
      ar_lastAlert = (\<lambda>_. None)\<rparr>"

definition agg_RuleCount :: "('w, 'e) agg_runner \<Rightarrow> int" where
  "agg_RuleCount r = int (length (ar_rules r))"

definition agg_SetRules :: "agg_rule list \<Rightarrow> ('w, 'e) agg_runner \<Rightarrow> ('w, 'e) agg_runner" where
  "agg_SetRules rules r = r\<lparr>ar_rules := rules\<rparr>"

definition buildAggAlert :: "gotime \<Rightarrow> agg_rule \<Rightarrow> agg_group \<Rightarrow> event" where
  "buildAggAlert clock rule g =
     (let (tech, tactic) = mitreFromTags (ag_Tags rule); sev = severityFromLevel (ag_Level rule);
          field = ag_GroupByField rule; grp = gr_Group g;
          byIP = grp \<noteq> [] \<and> field \<in> {''source.ip'', ''src_ip'', ''srcip'', ''sourceip''};
          byHost = grp \<noteq> [] \<and> field \<in> {''host.name'', ''hostname'', ''computer''};
          byUser = grp \<noteq> [] \<and> field \<in> {''user.name'', ''user'', ''username''}
      in empty_event
        \<lparr>ev_Timestamp := (if gr_LastSeen g = 0 then clock else gr_LastSeen g),
         ev_Event := \<lparr>ef_Category = ''intrusion_detection'', ef_Action = ''sigma_aggregation_detected'',
           ef_Outcome = ''detected'', ef_Severity = sev, ef_Dataset = ''deuswatch.detect'', ef_Original = []\<rparr>,
         ev_Rule := Some \<lparr>er_ID = ag_ID rule, er_Name = ag_Title rule\<rparr>,
         ev_Threat := Some \<lparr>th_Technique = \<lparr>tech_ID = tech, tech_Name = []\<rparr>, th_TacticName = tactic,
           th_Indicator = None, th_FeedName = []\<rparr>,
         ev_DeusWatch := empty_deuswatch
           \<lparr>dw_Label := alert_label ''sigma_agg'' tactic,
            dw_Enrichment := \<lparr>en_Status = ''pending'', en_AbuseConfidence = None, en_OTXPulseCount = None\<rparr>,
            dw_Severity := \<lparr>sm_Original = sev, sm_EscalatedBy = []\<rparr>,
            dw_Containment := directive (ag_Mitigation rule)\<rparr>,
         ev_Source := (if byIP then Some (endpoint_of grp) else None),
         ev_Host := (if byHost then Some \<lparr>host_Name = grp, host_OSType = [], host_IP = []\<rparr>
                     else if gr_Host g \<noteq> [] then Some \<lparr>host_Name = gr_Host g, host_OSType = [], host_IP = []\<rparr> else None),
         ev_User := (if byUser then Some \<lparr>eu_Name = grp, eu_Domain = [], eu_Effective = []\<rparr> else None),
         ev_Agent := (if gr_Agent g \<noteq> [] then Some \<lparr>agent_ID = gr_Agent g, agent_Version = []\<rparr> else None)\<rparr>)"

definition allow_key :: "string \<Rightarrow> gotime \<Rightarrow> ('w, 'e) agg_runner \<Rightarrow> bool \<times> ('w, 'e) agg_runner" where
  "allow_key key t r =
     (case ar_lastAlert r key of
        Some l \<Rightarrow> if t - l < ar_cooldown r then (False, r) else (True, r\<lparr>ar_lastAlert := (ar_lastAlert r)(key \<mapsto> t)\<rparr>)
      | None \<Rightarrow> (True, r\<lparr>ar_lastAlert := (ar_lastAlert r)(key \<mapsto> t)\<rparr>))"

definition agg_key :: "string \<Rightarrow> string \<Rightarrow> string" where
  "agg_key ruleID grp = ruleID @ [CHR 0x00] @ grp"

definition allow :: "string \<Rightarrow> string \<Rightarrow> gotime \<Rightarrow> ('w, 'e) agg_runner \<Rightarrow> bool \<times> ('w, 'e) agg_runner" where
  "allow ruleID grp t r = allow_key (agg_key ruleID grp) t r"

fun run_groups ::
    "gotime \<Rightarrow> gotime \<Rightarrow> agg_rule \<Rightarrow> agg_group list \<Rightarrow> ('w, 'e) agg_runner \<Rightarrow> event list \<times> ('w, 'e) agg_runner" where
  "run_groups clock t rule [] r = ([], r)"
| "run_groups clock t rule (g # gs) r =
     (case allow (ag_ID rule) (gr_Group g) t r of
        (False, r1) \<Rightarrow> run_groups clock t rule gs r1
      | (True, r1) \<Rightarrow> (case run_groups clock t rule gs r1 of (as, r2) \<Rightarrow> (buildAggAlert clock rule g # as, r2)))"

fun run_rules ::
    "'w \<Rightarrow> gotime \<Rightarrow> gotime \<Rightarrow> agg_rule list \<Rightarrow> ('w, 'e) agg_runner \<Rightarrow>
     event list \<times> (string \<times> 'e) option \<times> ('w, 'e) agg_runner" where
  "run_rules w clock t [] r = ([], None, r)"
| "run_rules w clock t (rule # rules) r =
     (case CompileSQL rule of (query, args) \<Rightarrow>
      (case ar_exec r w query args of
         Inl e \<Rightarrow>
           (case run_rules w clock t rules r of (as, _, r1) \<Rightarrow> (as, Some (ag_ID rule, e), r1))
       | Inr groups \<Rightarrow>
           (case run_groups clock t rule groups r of (as, r1) \<Rightarrow>
            (case run_rules w clock t rules r1 of (bs, err, r2) \<Rightarrow> (as @ bs, err, r2)))))"

definition RunOnce ::
    "'w \<Rightarrow> gotime \<Rightarrow> gotime \<Rightarrow> ('w, 'e) agg_runner \<Rightarrow> event list \<times> (string \<times> 'e) option \<times> ('w, 'e) agg_runner" where
  "RunOnce w clock t r = run_rules w clock t (ar_rules r) r"

definition agg_DryRun :: "'w \<Rightarrow> agg_rule \<Rightarrow> ('w, 'e) agg_runner \<Rightarrow> 'e + agg_group list" where
  "agg_DryRun w rule r = (case CompileSQL rule of (query, args) \<Rightarrow> ar_exec r w query args)"

section \<open>The cooldown\<close>

interpretation ag: cooldown_gate allow_key ar_cooldown ar_lastAlert
  by unfold_locales (auto simp: allow_key_def split: option.splits if_splits)

text \<open>The runner remembers the alerts \<open>acc\<close>, which are spaced and none of them after \<open>t\<close>.\<close>

definition ag_inv :: "duration \<Rightarrow> gotime \<Rightarrow> ('w, 'e) agg_runner \<Rightarrow> (string \<times> gotime) list \<Rightarrow> bool" where
  "ag_inv cd t r acc = (ar_cooldown r = cd \<and> ag.tracks r acc \<and> ag.spaced cd acc \<and> (\<forall>(k, u) \<in> set acc. u \<le> t))"

abbreviation entry_key :: "gotime \<Rightarrow> agg_rule \<times> agg_group \<Rightarrow> string \<times> gotime" where
  "entry_key t x \<equiv> (agg_key (ag_ID (fst x)) (gr_Group (snd x)), t)"

lemma allow_key_keeps: "allow_key k t r = (ok, r') \<Longrightarrow> ar_rules r' = ar_rules r \<and> ar_exec r' = ar_exec r"
  by (auto simp: allow_key_def split: option.splits if_splits)

lemma ag_inv_mono: "ag_inv cd t r acc \<Longrightarrow> t \<le> t' \<Longrightarrow> ag_inv cd t' r acc"
  unfolding ag_inv_def by fastforce

lemma allow_step:
  assumes "ag_inv cd t r acc" "allow i g t r = (ok, r')"
  shows "ag_inv cd t r' (if ok then (agg_key i g, t) # acc else acc)"
proof -
  from assms(1) have p: "ag.tracks r acc" "ag.spaced (ar_cooldown r) acc" "\<forall>(k, u) \<in> set acc. u \<le> t"
    by (simp_all add: ag_inv_def)
  from ag.gate_step [OF p assms(2) [unfolded allow_def]] assms(1) p(3) show ?thesis by (auto simp: ag_inv_def)
qed

lemma run_groups_log:
  assumes "ag_inv cd t r acc" "run_groups clock t rule gs r = (as, r')"
  shows "\<exists>l. as = map (buildAggAlert clock rule) l \<and> set l \<subseteq> set gs \<and>
    ag_inv cd t r' (rev (map (\<lambda>g. entry_key t (rule, g)) l) @ acc) \<and> ar_rules r' = ar_rules r \<and> ar_exec r' = ar_exec r"
  using assms
proof (induction gs arbitrary: r acc as)
  case (Cons g gs)
  obtain ok r1 where a: "allow (ag_ID rule) (gr_Group g) t r = (ok, r1)" by force
  obtain bs where b: "run_groups clock t rule gs r1 = (bs, r')" "as = (if ok then buildAggAlert clock rule g # bs else bs)"
    using Cons.prems(2) a by (auto split: bool.splits prod.splits)
  obtain l where l: "bs = map (buildAggAlert clock rule) l" "set l \<subseteq> set gs" "ar_rules r' = ar_rules r1" "ar_exec r' = ar_exec r1"
      "ag_inv cd t r' (rev (map (\<lambda>g. entry_key t (rule, g)) l) @ (if ok then entry_key t (rule, g) # acc else acc))"
    using Cons.IH [OF allow_step [OF Cons.prems(1) a] b(1)] unfolding fst_conv snd_conv by blast
  have k: "ar_rules r1 = ar_rules r" "ar_exec r1 = ar_exec r" using allow_key_keeps a unfolding allow_def by blast+
  show ?case
    by (rule exI [of _ "if ok then g # l else l"]) (use b(2) l k in auto)
qed auto

lemma run_rules_log:
  assumes "ag_inv cd t r acc" "run_rules w clock t rules r = (as, err, r')"
  shows "\<exists>l. as = map (\<lambda>(rule, g). buildAggAlert clock rule g) l \<and>
    (\<forall>(rule, g) \<in> set l. rule \<in> set rules \<and> (\<exists>gs. agg_DryRun w rule r = Inr gs \<and> g \<in> set gs)) \<and>
    ag_inv cd t r' (rev (map (entry_key t) l) @ acc) \<and> ar_rules r' = ar_rules r \<and> ar_exec r' = ar_exec r"
  using assms
proof (induction rules arbitrary: r acc as err)
  case (Cons rule rules)
  obtain query args where c: "CompileSQL rule = (query, args)" by force
  show ?case
  proof (cases "ar_exec r w query args")
    case (Inl e)
    then obtain err' where "run_rules w clock t rules r = (as, err', r')"
      using Cons.prems(2) by (auto simp: c split: prod.splits)
    from Cons.IH [OF Cons.prems(1) this] show ?thesis by fastforce
  next
    case (Inr groups)
    obtain bs r1 where g: "run_groups clock t rule groups r = (bs, r1)" by force
    obtain cs where s: "run_rules w clock t rules r1 = (cs, err, r')" "as = bs @ cs"
      using Cons.prems(2) Inr g by (auto simp: c split: prod.splits)
    from run_groups_log [OF Cons.prems(1) g] obtain l where l: "bs = map (buildAggAlert clock rule) l" "set l \<subseteq> set groups"
        "ag_inv cd t r1 (rev (map (\<lambda>g. entry_key t (rule, g)) l) @ acc)" "ar_rules r1 = ar_rules r" "ar_exec r1 = ar_exec r"
      by blast
    from Cons.IH [OF l(3) s(1)] obtain m where m: "cs = map (\<lambda>(rule, g). buildAggAlert clock rule g) m"
        "\<forall>(rule, g) \<in> set m. rule \<in> set rules \<and> (\<exists>gs. agg_DryRun w rule r1 = Inr gs \<and> g \<in> set gs)"
        "ag_inv cd t r' (rev (map (entry_key t) m) @ rev (map (\<lambda>g. entry_key t (rule, g)) l) @ acc)"
        "ar_rules r' = ar_rules r1" "ar_exec r' = ar_exec r1" by blast
    have d: "agg_DryRun w x r1 = agg_DryRun w x r" for x by (simp add: agg_DryRun_def l(5))
    have dr: "agg_DryRun w rule r = Inr groups" by (simp add: agg_DryRun_def c Inr)
    show ?thesis
      by (rule exI [of _ "map (Pair rule) l @ m"]) (use l m s(2) d dr in \<open>auto simp: comp_def\<close>)
  qed
qed auto

section \<open>Cycles\<close>

text \<open>A run of the worker's ticker: the time of each cycle, the clock and the database it reads.\<close>

fun run_cycles :: "('w, 'e) agg_runner \<Rightarrow> (gotime \<times> gotime \<times> 'w) list \<Rightarrow> event list list" where
  "run_cycles r [] = []"
| "run_cycles r ((t, clock, w) # cs) = (case RunOnce w clock t r of (as, _, r') \<Rightarrow> as # run_cycles r' cs)"

definition cycle_alerts :: "gotime \<times> gotime \<times> 'w \<Rightarrow> (agg_rule \<times> agg_group) list \<Rightarrow> event list" where
  "cycle_alerts c l = (case c of (t, clock, w) \<Rightarrow> map (\<lambda>(rule, g). buildAggAlert clock rule g) l)"

definition cycle_log :: "(gotime \<times> gotime \<times> 'w) list \<Rightarrow> (agg_rule \<times> agg_group) list list \<Rightarrow> (string \<times> gotime) list" where
  "cycle_log cs ls = concat (map2 (\<lambda>(t, clock, w) l. map (entry_key t) l) cs ls)"

lemma run_cycles_log:
  assumes "ag_inv cd t0 r acc" "sorted (t0 # map fst cs)"
  shows "\<exists>ls. length ls = length cs \<and> run_cycles r cs = map2 cycle_alerts cs ls \<and>
    (\<forall>i < length cs. \<forall>(rule, g) \<in> set (ls ! i). rule \<in> set (ar_rules r) \<and>
       (\<exists>gs. agg_DryRun (snd (snd (cs ! i))) rule r = Inr gs \<and> g \<in> set gs)) \<and>
    ag.spaced cd (rev (cycle_log cs ls) @ acc)"
  using assms
proof (induction cs arbitrary: t0 r acc)
  case Nil
  then show ?case by (simp add: ag_inv_def cycle_log_def)
next
  case (Cons c cs)
  obtain t clock w where c: "c = (t, clock, w)" by (cases c) auto
  obtain as err r' where o: "RunOnce w clock t r = (as, err, r')" by (cases "RunOnce w clock t r") auto
  have "t0 \<le> t" using Cons.prems(2) by (simp add: c)
  from run_rules_log [OF ag_inv_mono [OF Cons.prems(1) this] o [unfolded RunOnce_def]] obtain l where
      l: "as = map (\<lambda>(rule, g). buildAggAlert clock rule g) l"
        "\<forall>(rule, g) \<in> set l. rule \<in> set (ar_rules r) \<and> (\<exists>gs. agg_DryRun w rule r = Inr gs \<and> g \<in> set gs)"
        "ag_inv cd t r' (rev (map (entry_key t) l) @ acc)" "ar_rules r' = ar_rules r" "ar_exec r' = ar_exec r" by blast
  have d: "agg_DryRun v x r' = agg_DryRun v x r" for v x by (simp add: agg_DryRun_def l(5))
  have "sorted (t # map fst cs)" using Cons.prems(2) by (simp add: c)
  from Cons.IH [OF l(3) this] obtain ls where ls: "length ls = length cs" "run_cycles r' cs = map2 cycle_alerts cs ls"
      "\<forall>i < length cs. \<forall>(rule, g) \<in> set (ls ! i). rule \<in> set (ar_rules r') \<and>
         (\<exists>gs. agg_DryRun (snd (snd (cs ! i))) rule r' = Inr gs \<and> g \<in> set gs)"
      "ag.spaced cd (rev (cycle_log cs ls) @ rev (map (entry_key t) l) @ acc)" by blast
  have src: "\<forall>i < length (c # cs). \<forall>(rule, g) \<in> set ((l # ls) ! i). rule \<in> set (ar_rules r) \<and>
       (\<exists>gs. agg_DryRun (snd (snd ((c # cs) ! i))) rule r = Inr gs \<and> g \<in> set gs)"
  proof (intro allI impI)
    fix i assume "i < length (c # cs)"
    then show "\<forall>(rule, g) \<in> set ((l # ls) ! i). rule \<in> set (ar_rules r) \<and>
        (\<exists>gs. agg_DryRun (snd (snd ((c # cs) ! i))) rule r = Inr gs \<and> g \<in> set gs)"
      using l(2) ls(3) unfolding d l(4) by (cases i) (simp_all add: c)
  qed
  show ?case
    by (rule exI [of _ "l # ls"]) (use l(1) ls src o in \<open>simp add: c cycle_alerts_def cycle_log_def\<close>)
qed

text \<open>
  C12: In every run of cycles at times that do not go back, whatever the database answers, each alert
  is for a group the rule's query returned in that cycle, and two alerts for the same rule and group
  are at least the cooldown apart.
\<close>

theorem aggregation_alerts_spaced:
  assumes "sorted (map fst cs)"
  shows "\<exists>ls. length ls = length cs \<and>
    run_cycles (NewAggregateRunner exec rules cd) cs = map2 cycle_alerts cs ls \<and>
    (\<forall>i < length cs. \<forall>(rule, g) \<in> set (ls ! i). rule \<in> set rules \<and>
       (\<exists>gs. exec (snd (snd (cs ! i))) (fst (CompileSQL rule)) (snd (CompileSQL rule)) = Inr gs \<and> g \<in> set gs)) \<and>
    sorted_wrt (\<lambda>(k, t) (k', t'). t \<le> t' \<and> (k = k' \<longrightarrow> t' - t \<ge> ar_cooldown (NewAggregateRunner exec rules cd)))
      (cycle_log cs ls)"
proof -
  let ?r = "NewAggregateRunner exec rules cd"
  let ?t0 = "case cs of [] \<Rightarrow> 0 | c # _ \<Rightarrow> fst c"
  have "ag_inv (ar_cooldown ?r) ?t0 ?r []"
    by (simp add: ag_inv_def ag.tracks_def ag.spaced_def NewAggregateRunner_def)
  moreover have "sorted (?t0 # map fst cs)" using assms by (cases cs) auto
  ultimately obtain ls where ls: "length ls = length cs" "run_cycles ?r cs = map2 cycle_alerts cs ls"
      "\<forall>i < length cs. \<forall>(rule, g) \<in> set (ls ! i). rule \<in> set (ar_rules ?r) \<and>
         (\<exists>gs. agg_DryRun (snd (snd (cs ! i))) rule ?r = Inr gs \<and> g \<in> set gs)"
      "ag.spaced (ar_cooldown ?r) (rev (cycle_log cs ls))"
    using run_cycles_log [of "ar_cooldown ?r" ?t0 ?r "[]" cs] by auto
  have e: "agg_DryRun v x ?r = exec v (fst (CompileSQL x)) (snd (CompileSQL x))" "ar_rules ?r = rules" for v x
    by (simp_all add: agg_DryRun_def NewAggregateRunner_def case_prod_beta)
  have "sorted_wrt (\<lambda>(k, t) (k', t'). t \<le> t' \<and> (k = k' \<longrightarrow> t' - t \<ge> ar_cooldown ?r)) (cycle_log cs ls)"
    using ls(4) unfolding ag.spaced_def sorted_wrt_rev by (rule sorted_wrt_mono_rel [rotated]) auto
  with ls(1,2,3) show ?thesis unfolding e by blast
qed

definition demo_exec :: "bool \<Rightarrow> string \<Rightarrow> string list \<Rightarrow> string + agg_group list" where
  "demo_exec up q args =
     (if up then Inr [\<lparr>gr_Group = ''10.0.0.1'', gr_Count = 9, gr_LastSeen = 5, gr_Agent = ''a1'', gr_Host = ''web''\<rparr>] else Inl ''down'')"

definition demo_cycles :: "(gotime \<times> gotime \<times> bool) list" where
  "demo_cycles = [(0, 0, True), (minute, 0, True), (2 * minute, 0, False), (5 * minute, 0, True)]"

lemma demo_cycles_alerts:
  "map length (run_cycles (NewAggregateRunner demo_exec [brute_compiled] 0) demo_cycles) = [1, 0, 0, 1]"
  by code_simp

theorem aggregation_alerts_spaced_witness:
  "\<exists>ls. length ls = 4 \<and>
     run_cycles (NewAggregateRunner demo_exec [brute_compiled] 0) demo_cycles = map2 cycle_alerts demo_cycles ls \<and>
     map length (map2 cycle_alerts demo_cycles ls) = [1, 0, 0, 1]"
proof -
  have "sorted (map fst demo_cycles)" by code_simp
  from aggregation_alerts_spaced [OF this, of demo_exec "[brute_compiled]" 0] obtain ls where
    "length ls = length demo_cycles" "run_cycles (NewAggregateRunner demo_exec [brute_compiled] 0) demo_cycles = map2 cycle_alerts demo_cycles ls"
    by blast
  moreover have "length demo_cycles = 4" by (simp add: demo_cycles_def)
  ultimately show ?thesis using demo_cycles_alerts by (metis (no_types))
qed

end
