(* ===== verification/Containment.thy ===== *)
theory Containment
  imports Response_Engine
begin

text \<open>
  Host isolation: the engine of \<^verbatim>\<open>internal/respond/containment.go\<close>, the
  \<^verbatim>\<open>ContainmentStore\<close> interface it is written against, and the Postgres statements of
  \<^verbatim>\<open>internal/respond/containment_store.go\<close> with the partial unique index on the open rows of
  an agent.
\<close>

section \<open>Records and the store interface\<close>

datatype containment_status =
  ContainRecommended | ContainContained | ContainReleased | ContainDismissed | ContainFailed

record containment =
  c_ID :: string
  c_CreatedAt :: gotime
  c_AgentID :: string
  c_HostName :: string
  c_IP :: string
  c_Reason :: string
  c_RuleID :: string
  c_TimeoutSeconds :: int
  c_Status :: containment_status
  c_Auto :: bool
  c_DecidedBy :: string
  c_ContainedAt :: "gotime option"
  c_ExpiresAt :: "gotime option"
  c_ReleasedAt :: "gotime option"
  c_Error :: string

definition contain_BanDuration :: "containment \<Rightarrow> duration" where
  "contain_BanDuration c = wrap64 (c_TimeoutSeconds c * second)"

datatype cn_error = CnDb | CnNotFound | CnStatus containment_status

text \<open>\<^verbatim>\<open>InsertContainment\<close> gives \<open>None\<close> for \<^verbatim>\<open>created=false\<close>.\<close>

record 'w containment_store =
  cs_Insert :: "containment \<Rightarrow> 'w \<Rightarrow> (cn_error + string option) \<times> 'w"
  cs_Get :: "string \<Rightarrow> 'w \<Rightarrow> (cn_error + containment) \<times> 'w"
  cs_MarkContained :: "string \<Rightarrow> gotime option \<Rightarrow> 'w \<Rightarrow> (cn_error + unit) \<times> 'w"
  cs_SetStatus :: "string \<Rightarrow> containment_status \<Rightarrow> string \<Rightarrow> 'w \<Rightarrow> (cn_error + unit) \<times> 'w"
  cs_SetError :: "string \<Rightarrow> string \<Rightarrow> 'w \<Rightarrow> (cn_error + unit) \<times> 'w"
  cs_ActiveByAgent :: "string \<Rightarrow> 'w \<Rightarrow> (cn_error + containment option) \<times> 'w"
  cs_Expired :: "gotime \<Rightarrow> 'w \<Rightarrow> (cn_error + containment list) \<times> 'w"

section \<open>The engine\<close>

record 'w containment_engine =
  ce_store :: "'w containment_store"
  ce_edge :: "'w responder option"
  ce_auto :: bool
  ce_allowIPs :: "string list"
  ce_managerNet :: "ipnet option list"

definition NewContainmentEngine ::
    "'w containment_store \<Rightarrow> 'w responder option \<Rightarrow> bool \<Rightarrow> 'w containment_engine" where
  "NewContainmentEngine st edge auto =
     \<lparr>ce_store = st, ce_edge = edge, ce_auto = auto, ce_allowIPs = [], ce_managerNet = []\<rparr>"

definition SetAllowIPs :: "'w containment_engine \<Rightarrow> string list \<Rightarrow> 'w containment_engine" where
  "SetAllowIPs e ips = e\<lparr>ce_allowIPs := ips\<rparr>"

definition SetManagerNets :: "'w containment_engine \<Rightarrow> ipnet option list \<Rightarrow> 'w containment_engine" where
  "SetManagerNets e nets = e\<lparr>ce_managerNet := nets\<rparr>"

definition hostIP :: "event \<Rightarrow> string" where
  "hostIP ev =
     (case (case ev_Host ev of Some h \<Rightarrow> host_IP h | None \<Rightarrow> []) of
        [] \<Rightarrow> (case ev_Source ev of Some s \<Rightarrow> ep_IP s | None \<Rightarrow> [])
      | addr \<Rightarrow> addr)"

text \<open>
  \<^verbatim>\<open>contain\<close>: the record is marked first, the edge block is best effort. The result is the
  in-memory record the caller goes on with.
\<close>

definition contain ::
    "'w containment_engine \<Rightarrow> gotime \<Rightarrow> containment \<Rightarrow> string \<Rightarrow> 'w \<Rightarrow> (cn_error + containment) \<times> 'w" where
  "contain e t c by_user w =
     (let expiresAt = (if c_TimeoutSeconds c > 0 then Some (t + contain_BanDuration c) else None) in
      case cs_MarkContained (ce_store e) (c_ID c) expiresAt w of
        (Inl x, w1) \<Rightarrow> (Inl x, w1)
      | (Inr _, w1) \<Rightarrow>
          let c' = c\<lparr>c_Status := ContainContained, c_ExpiresAt := expiresAt, c_DecidedBy := by_user\<rparr> in
          (case ce_edge e of
             Some r \<Rightarrow>
               if c_IP c = [] then (Inr c', w1)
               else (case rs_Block r (c_IP c) (contain_BanDuration c) w1 of
                  (None, w2) \<Rightarrow> (Inr c', w2)
                | (Some m, w2) \<Rightarrow>
                    (case cs_SetError (ce_store e) (c_ID c) (''edge block: '' @ m) w2 of (_, w3) \<Rightarrow> (Inr c', w3)))
           | None \<Rightarrow> (Inr c', w1)))"

definition contain_record :: "'w containment_engine \<Rightarrow> event \<Rightarrow> containment_intent \<Rightarrow> containment" where
  "contain_record e ev intent =
     \<lparr>c_ID = [], c_CreatedAt = 0,
      c_AgentID = (case ev_Agent ev of Some g \<Rightarrow> agent_ID g | None \<Rightarrow> []),
      c_HostName = (case ev_Host ev of Some h \<Rightarrow> host_Name h | None \<Rightarrow> []), c_IP = hostIP ev,
      c_Reason = reasonFor ev, c_RuleID = (case ev_Rule ev of Some r \<Rightarrow> er_ID r | None \<Rightarrow> []),
      c_TimeoutSeconds = ci_TimeoutSeconds intent, c_Status = ContainRecommended,
      c_Auto = (ce_auto e \<and> ef_Severity (ev_Event ev) \<ge> ci_Threshold intent), c_DecidedBy = [],
      c_ContainedAt = None, c_ExpiresAt = None, c_ReleasedAt = None, c_Error = []\<rparr>"

definition Evaluate ::
    "'w containment_engine \<Rightarrow> gotime \<Rightarrow> event option \<Rightarrow> 'w \<Rightarrow> (cn_error + containment option) \<times> 'w" where
  "Evaluate e t mev w =
     (case mev of
        None \<Rightarrow> (Inr None, w)
      | Some ev \<Rightarrow>
     (case dw_Containment (ev_DeusWatch ev) of
        None \<Rightarrow> (Inr None, w)
      | Some intent \<Rightarrow>
     let agentID = (case ev_Agent ev of Some g \<Rightarrow> agent_ID g | None \<Rightarrow> []);
         addr = hostIP ev;
         qualifiesAuto = (ce_auto e \<and> ef_Severity (ev_Event ev) \<ge> ci_Threshold intent);
         rec = contain_record e ev intent in
     if ci_ActionType intent \<noteq> ''network_containment'' then (Inr None, w)
     else if agentID = [] then (Inr None, w)
     else if addr \<noteq> [] \<and> ipInNets addr (ce_managerNet e) then (Inr None, w)
     else case cs_Insert (ce_store e) rec w of
        (Inl x, w1) \<Rightarrow> (Inl x, w1)
      | (Inr None, w1) \<Rightarrow> (Inr None, w1)
      | (Inr (Some uid), w1) \<Rightarrow>
          let rec' = rec\<lparr>c_ID := uid\<rparr> in
          if qualifiesAuto then
            (case contain e t rec' ''auto'' w1 of
               (Inl _, w2) \<Rightarrow> (Inr (Some rec'), w2)
             | (Inr rec'', w2) \<Rightarrow> (Inr (Some rec''), w2))
          else (Inr (Some rec'), w1)))"

definition ContainApprove ::
    "'w containment_engine \<Rightarrow> gotime \<Rightarrow> string \<Rightarrow> string \<Rightarrow> 'w \<Rightarrow> (cn_error + unit) \<times> 'w" where
  "ContainApprove e t uid by_user w =
     (case cs_Get (ce_store e) uid w of
        (Inl x, w1) \<Rightarrow> (Inl x, w1)
      | (Inr c, w1) \<Rightarrow>
          if c_Status c \<noteq> ContainRecommended then (Inl (CnStatus (c_Status c)), w1)
          else (case contain e t c by_user w1 of
                  (Inl x, w2) \<Rightarrow> (Inl x, w2)
                | (Inr _, w2) \<Rightarrow> (Inr (), w2)))"

definition ContainDismiss ::
    "'w containment_engine \<Rightarrow> string \<Rightarrow> string \<Rightarrow> 'w \<Rightarrow> (cn_error + unit) \<times> 'w" where
  "ContainDismiss e uid by_user w =
     (case cs_Get (ce_store e) uid w of
        (Inl x, w1) \<Rightarrow> (Inl x, w1)
      | (Inr c, w1) \<Rightarrow>
          if c_Status c \<noteq> ContainRecommended then (Inl (CnStatus (c_Status c)), w1)
          else cs_SetStatus (ce_store e) uid ContainDismissed by_user w1)"

definition Release ::
    "'w containment_engine \<Rightarrow> string \<Rightarrow> string \<Rightarrow> 'w \<Rightarrow> (cn_error + unit) \<times> 'w" where
  "Release e uid by_user w =
     (case cs_Get (ce_store e) uid w of
        (Inl x, w1) \<Rightarrow> (Inl x, w1)
      | (Inr c, w1) \<Rightarrow>
          if c_Status c \<noteq> ContainContained then (Inl (CnStatus (c_Status c)), w1)
          else
            (case (case ce_edge e of
                     Some r \<Rightarrow> if c_IP c = [] then (None, w1) else rs_Unblock r (c_IP c) w1
                   | None \<Rightarrow> (None, w1)) of
               (_, w2) \<Rightarrow> cs_SetStatus (ce_store e) uid ContainReleased by_user w2))"

text \<open>The loop of \<^verbatim>\<open>SweepExpired\<close>: a row that cannot be released is skipped.\<close>

fun sweep_rows :: "'w containment_engine \<Rightarrow> containment list \<Rightarrow> 'w \<Rightarrow> int \<times> 'w" where
  "sweep_rows e [] w = (0, w)"
| "sweep_rows e (c # cs) w =
     (case Release e (c_ID c) ''auto-expire'' w of
        (Inl _, w1) \<Rightarrow> sweep_rows e cs w1
      | (Inr _, w1) \<Rightarrow> (case sweep_rows e cs w1 of (n, w2) \<Rightarrow> (n + 1, w2)))"

definition SweepExpired :: "'w containment_engine \<Rightarrow> gotime \<Rightarrow> 'w \<Rightarrow> (cn_error + int) \<times> 'w" where
  "SweepExpired e t w =
     (case cs_Expired (ce_store e) t w of
        (Inl x, w1) \<Rightarrow> (Inl x, w1)
      | (Inr cs, w1) \<Rightarrow> (case sweep_rows e cs w1 of (n, w2) \<Rightarrow> (Inr n, w2)))"

section \<open>The contract of a containment store\<close>

definition c_open :: "containment \<Rightarrow> bool" where
  "c_open c = (c_Status c = ContainRecommended \<or> c_Status c = ContainContained)"

definition contained_in :: "string \<Rightarrow> containment list \<Rightarrow> bool" where
  "contained_in agent cs = list_ex (\<lambda>c. c_AgentID c = agent \<and> c_Status c = ContainContained) cs"

definition c_expired :: "gotime \<Rightarrow> containment \<Rightarrow> bool" where
  "c_expired t c = (c_Status c = ContainContained \<and> (case c_ExpiresAt c of None \<Rightarrow> False | Some x \<Rightarrow> x < t))"

definition rows_marked :: "string \<Rightarrow> gotime option \<Rightarrow> gotime \<Rightarrow> containment list \<Rightarrow> containment list" where
  "rows_marked uid ex t = map (\<lambda>c. if c_ID c = uid
     then c\<lparr>c_Status := ContainContained, c_ContainedAt := Some t, c_ExpiresAt := ex\<rparr> else c)"

definition rows_status :: "string \<Rightarrow> containment_status \<Rightarrow> string \<Rightarrow> gotime \<Rightarrow> containment list \<Rightarrow> containment list" where
  "rows_status uid st by_user t = map (\<lambda>c. if c_ID c = uid
     then c\<lparr>c_Status := st, c_DecidedBy := by_user,
            c_ReleasedAt := (if st = ContainReleased then Some t else c_ReleasedAt c)\<rparr> else c)"

definition rows_error :: "string \<Rightarrow> string \<Rightarrow> containment list \<Rightarrow> containment list" where
  "rows_error uid m = map (\<lambda>c. if c_ID c = uid then c\<lparr>c_Error := m\<rparr> else c)"

definition c_inserted :: "containment \<Rightarrow> string \<Rightarrow> gotime \<Rightarrow> string \<Rightarrow> containment" where
  "c_inserted c uid t addr = c\<lparr>c_ID := uid, c_CreatedAt := t, c_IP := addr, c_DecidedBy := [],
     c_ContainedAt := None, c_ExpiresAt := None, c_ReleasedAt := None, c_Error := []\<rparr>"

lemmas rows_effects = rows_marked_def rows_status_def rows_error_def

lemma contained_marked:
  "contained_in g (rows_marked uid ex t cs) \<Longrightarrow>
     contained_in g cs \<or> (\<exists>c \<in> set cs. c_ID c = uid \<and> c_AgentID c = g)"
  by (auto simp: contained_in_def rows_marked_def list_ex_iff split: if_splits)

lemma contained_error [simp]: "contained_in g (rows_error uid m cs) = contained_in g cs"
  by (induction cs) (auto simp: contained_in_def rows_error_def)

lemma contained_append [simp]: "contained_in g (cs @ [c]) \<longleftrightarrow>
    contained_in g cs \<or> (c_AgentID c = g \<and> c_Status c = ContainContained)"
  by (auto simp: contained_in_def)

lemma c_inserted_simps [simp]:
  "c_ID (c_inserted c uid t addr) = uid" "c_AgentID (c_inserted c uid t addr) = c_AgentID c"
  "c_Status (c_inserted c uid t addr) = c_Status c"
  by (simp_all add: c_inserted_def)

text \<open>What the rule, the event and the configuration must say before a host can be isolated.\<close>

definition may_contain :: "'w containment_engine \<Rightarrow> event \<Rightarrow> string \<Rightarrow> bool" where
  "may_contain e ev g = (g \<noteq> [] \<and> (case ev_Agent ev of Some a \<Rightarrow> agent_ID a | None \<Rightarrow> []) = g \<and>
     (case dw_Containment (ev_DeusWatch ev) of Some i \<Rightarrow> ci_ActionType i = ''network_containment'' | None \<Rightarrow> False) \<and>
     \<not> (hostIP ev \<noteq> [] \<and> ipInNets (hostIP ev) (ce_managerNet e)))"

definition may_auto :: "'w containment_engine \<Rightarrow> event \<Rightarrow> bool" where
  "may_auto e ev = (ce_auto e \<and>
     (case dw_Containment (ev_DeusWatch ev) of Some i \<Rightarrow> ef_Severity (ev_Event ev) \<ge> ci_Threshold i | None \<Rightarrow> False))"

text \<open>
  \<open>rows\<close> is what a reader of the store sees, \<open>up\<close> says that no statement is about to fail. The
  last laws are the liveness of the statements the expiry sweep uses.
\<close>

locale containment_contract =
  fixes st :: "'w containment_store" and rows :: "'w \<Rightarrow> containment list" and now :: "'w \<Rightarrow> gotime"
    and inv :: "'w \<Rightarrow> bool" and up :: "'w \<Rightarrow> bool" and edge :: "'w responder"
  assumes one_open: "inv w \<Longrightarrow> distinct (map c_AgentID (filter c_open (rows w)))"
    and ids: "inv w \<Longrightarrow> distinct (map c_ID (rows w))"
    and insert_created: "inv w \<Longrightarrow> cs_Insert st c w = (Inr (Some uid), w') \<Longrightarrow>
      inv w' \<and> now w' = now w \<and> uid \<notin> c_ID ` set (rows w) \<and>
      (\<exists>addr. rows w' = rows w @ [c_inserted c uid (now w) addr])"
    and insert_skipped: "inv w \<Longrightarrow> cs_Insert st c w = (ri, w') \<Longrightarrow> (\<nexists>uid. ri = Inr (Some uid)) \<Longrightarrow>
      inv w' \<and> now w' = now w \<and> rows w' = rows w"
    and get: "inv w \<Longrightarrow> cs_Get st uid w = (rg, w') \<Longrightarrow>
      inv w' \<and> now w' = now w \<and> rows w' = rows w \<and> (\<forall>c. rg = Inr c \<longrightarrow> c \<in> set (rows w) \<and> c_ID c = uid)"
    and mark: "inv w \<Longrightarrow> cs_MarkContained st uid ex w = (rm, w') \<Longrightarrow>
      inv w' \<and> now w' = now w \<and> rows w' = (case rm of Inl _ \<Rightarrow> rows w | Inr _ \<Rightarrow> rows_marked uid ex (now w) (rows w))"
    and set_status: "inv w \<Longrightarrow> cs_SetStatus st uid sx by_user w = (rs, w') \<Longrightarrow>
      inv w' \<and> now w' = now w \<and> rows w' = (case rs of Inl _ \<Rightarrow> rows w | Inr _ \<Rightarrow> rows_status uid sx by_user (now w) (rows w))"
    and set_error: "inv w \<Longrightarrow> cs_SetError st uid m w = (re, w') \<Longrightarrow>
      inv w' \<and> now w' = now w \<and> rows w' = (case re of Inl _ \<Rightarrow> rows w | Inr _ \<Rightarrow> rows_error uid m (rows w))"
    and expired: "inv w \<Longrightarrow> cs_Expired st t w = (rx, w') \<Longrightarrow>
      inv w' \<and> now w' = now w \<and> rows w' = rows w \<and> (\<forall>cs. rx = Inr cs \<longrightarrow> cs = filter (c_expired t) (rows w))"
    and block_frame: "inv w \<Longrightarrow> rs_Block edge s d w = (er, w') \<Longrightarrow> inv w' \<and> now w' = now w \<and> rows w' = rows w"
    and unblock_frame: "inv w \<Longrightarrow> rs_Unblock edge s w = (er, w') \<Longrightarrow>
      inv w' \<and> now w' = now w \<and> rows w' = rows w \<and> (up w \<longrightarrow> up w')"
    and get_up: "inv w \<Longrightarrow> up w \<Longrightarrow> uid \<in> c_ID ` set (rows w) \<Longrightarrow> \<exists>c w'. cs_Get st uid w = (Inr c, w') \<and> up w'"
    and expired_up: "inv w \<Longrightarrow> up w \<Longrightarrow> \<exists>cs w'. cs_Expired st t w = (Inr cs, w') \<and> up w'"
    and release_up: "inv w \<Longrightarrow> up w \<Longrightarrow> uid \<in> c_ID ` set (rows w) \<Longrightarrow>
      \<exists>w'. cs_SetStatus st uid ContainReleased by_user w = (Inr (), w') \<and> up w'"
begin

definition engine_ok :: "'w containment_engine \<Rightarrow> bool" where
  "engine_ok e = (ce_store e = st \<and> (ce_edge e = None \<or> ce_edge e = Some edge))"

text \<open>A successful containment marks exactly its row; the edge may add an error note to it.\<close>

lemma contain_rows:
  assumes inv: "inv w" and ok: "engine_ok e" and c: "contain e t c by_user w = (r, w')"
  shows "inv w' \<and> now w' = now w \<and>
    (case r of Inl _ \<Rightarrow> rows w' = rows w
     | Inr c' \<Rightarrow> \<exists>ex. c_ExpiresAt c' = ex \<and> c_Status c' = ContainContained \<and>
        (rows w' = rows_marked (c_ID c) ex (now w) (rows w) \<or>
         (\<exists>m. rows w' = rows_error (c_ID c) m (rows_marked (c_ID c) ex (now w) (rows w)))))"
proof -
  let ?ex = "if c_TimeoutSeconds c > 0 then Some (t + contain_BanDuration c) else None"
  have st: "ce_store e = st" using ok by (simp add: engine_ok_def)
  obtain rm w1 where m: "cs_MarkContained st (c_ID c) ?ex w = (rm, w1)" by (cases "cs_MarkContained st (c_ID c) ?ex w")
  note mf = mark [OF inv m]
  show ?thesis
  proof (cases rm)
    case (Inl x)
    with c st m have "r = Inl x" "w' = w1" by (simp_all add: contain_def Let_def)
    with mf Inl show ?thesis by simp
  next
    case (Inr u)
    with mf have 1: "inv w1" "now w1 = now w" "rows w1 = rows_marked (c_ID c) ?ex (now w) (rows w)" by simp_all
    show ?thesis
    proof (cases "ce_edge e = None \<or> c_IP c = []")
      case True
      with c st m Inr have "r = Inr (c\<lparr>c_Status := ContainContained, c_ExpiresAt := ?ex, c_DecidedBy := by_user\<rparr>)" "w' = w1"
        by (auto simp: contain_def Let_def split: option.splits)
      with 1 show ?thesis by simp
    next
      case False
      with ok have ed: "ce_edge e = Some edge" "c_IP c \<noteq> []" by (auto simp: engine_ok_def)
      obtain er w2 where b: "rs_Block edge (c_IP c) (contain_BanDuration c) w1 = (er, w2)"
        by (cases "rs_Block edge (c_IP c) (contain_BanDuration c) w1")
      note bf = block_frame [OF 1(1) b]
      show ?thesis
      proof (cases er)
        case None
        with c st m Inr ed b
        have "r = Inr (c\<lparr>c_Status := ContainContained, c_ExpiresAt := ?ex, c_DecidedBy := by_user\<rparr>)" "w' = w2"
          by (auto simp: contain_def Let_def)
        with 1 bf show ?thesis by simp
      next
        case (Some x)
        obtain re w3 where s: "cs_SetError st (c_ID c) (''edge block: '' @ x) w2 = (re, w3)"
          by (cases "cs_SetError st (c_ID c) (''edge block: '' @ x) w2")
        with c st m Inr ed b Some
        have "r = Inr (c\<lparr>c_Status := ContainContained, c_ExpiresAt := ?ex, c_DecidedBy := by_user\<rparr>)" "w' = w3"
          by (auto simp: contain_def Let_def)
        with 1 bf set_error [OF _ s] show ?thesis by (cases re) auto
      qed
    qed
  qed
qed

lemma evaluate_rows:
  assumes inv: "inv w" and ok: "engine_ok e" and r: "Evaluate e t (Some ev) w = (r, w')"
  shows "inv w' \<and> now w' = now w \<and>
    (rows w' = rows w \<or>
     (\<exists>g. may_contain e ev g \<and> length (rows w') = length (rows w) + 1 \<and>
        (\<forall>h. contained_in h (rows w') \<longrightarrow> contained_in h (rows w) \<or> (h = g \<and> may_auto e ev))))"
proof (cases "\<exists>g. may_contain e ev g")
  case False
  with r have "w' = w"
    by (auto simp: Evaluate_def Let_def may_contain_def split: option.splits if_splits)
  with inv show ?thesis by simp
next
  case True
  then obtain g where g: "may_contain e ev g" by blast
  then obtain intent where intent: "dw_Containment (ev_DeusWatch ev) = Some intent"
    by (auto simp: may_contain_def split: option.splits)
  have st: "ce_store e = st" using ok by (simp add: engine_ok_def)
  let ?c = "contain_record e ev intent"
  have c: "c_AgentID ?c = g" "c_Status ?c = ContainRecommended"
    using g by (simp_all add: contain_record_def may_contain_def)
  obtain ri w1 where i: "cs_Insert st ?c w = (ri, w1)" by (cases "cs_Insert st ?c w")
  show ?thesis
  proof (cases "\<exists>uid. ri = Inr (Some uid)")
    case False
    with r g intent st i have "w' = w1"
      by (auto simp: Evaluate_def Let_def may_contain_def split: sum.splits option.splits)
    with insert_skipped [OF inv i False] show ?thesis by simp
  next
    case True
    then obtain uid where uid: "ri = Inr (Some uid)" by blast
    from insert_created [OF inv i [unfolded uid]] obtain addr where
      1: "inv w1" "now w1 = now w" "uid \<notin> c_ID ` set (rows w)" "rows w1 = rows w @ [c_inserted ?c uid (now w) addr]"
      by blast
    show ?thesis
    proof (cases "may_auto e ev")
      case False
      with r g intent st i uid have "w' = w1"
        by (auto simp: Evaluate_def Let_def may_contain_def may_auto_def)
      with 1 c g show ?thesis by auto
    next
      case True
      obtain rc w2 where k: "contain e t (?c\<lparr>c_ID := uid\<rparr>) ''auto'' w1 = (rc, w2)"
        by (cases "contain e t (?c\<lparr>c_ID := uid\<rparr>) ''auto'' w1")
      with True r g intent st i uid have w': "w' = w2"
        by (auto simp: Evaluate_def Let_def may_contain_def may_auto_def split: sum.splits)
      note kf = contain_rows [OF 1(1) ok k]
      then have 2: "rows w' = rows w1 \<or> (\<exists>ex. rows w' = rows_marked uid ex (now w) (rows w1) \<or>
          (\<exists>m. rows w' = rows_error uid m (rows_marked uid ex (now w) (rows w1))))"
        using w' 1(2) by (auto split: sum.splits)
      have new: "h = g" if "x \<in> set (rows w1)" "c_ID x = uid" "c_AgentID x = h" for x h
      proof -
        have "x = c_inserted ?c uid (now w) addr" using that 1(3,4) by auto
        then show ?thesis using c(1) that(3) c_inserted_simps(2) by metis
      qed
      have "contained_in h (rows w) \<or> h = g" if h: "contained_in h (rows w')" for h
        using 2
      proof (elim disjE exE)
        assume "rows w' = rows w1"
        with h 1(4) c show ?thesis by auto
      next
        fix ex assume "rows w' = rows_marked uid ex (now w) (rows w1)"
        with contained_marked [of h uid ex "now w" "rows w1"] h have "contained_in h (rows w1) \<or> h = g"
          using new by metis
        with 1(4) c show ?thesis by auto
      next
        fix ex m assume "rows w' = rows_error uid m (rows_marked uid ex (now w) (rows w1))"
        with contained_marked [of h uid ex "now w" "rows w1"] h have "contained_in h (rows w1) \<or> h = g"
          using new contained_error by metis
        with 1(4) c show ?thesis by auto
      qed
      moreover have "length (rows w') = length (rows w) + 1" using 2 1(4) by (auto simp: rows_effects)
      ultimately show ?thesis using kf w' 1(2) g True by auto
    qed
  qed
qed

lemma approve_rows:
  assumes "inv w" "engine_ok e" "ContainApprove e t uid by_user w = (r, w')"
  shows "inv w' \<and> now w' = now w \<and>
    (\<forall>u. r = Inr u \<longrightarrow> (\<exists>c \<in> set (rows w). c_ID c = uid \<and> c_Status c = ContainRecommended) \<and>
       (\<exists>ex m. rows w' = rows_marked uid ex (now w) (rows w) \<or>
          rows w' = rows_error uid m (rows_marked uid ex (now w) (rows w)))) \<and>
    (\<forall>x. r = Inl x \<longrightarrow> rows w' = rows w)"
proof -
  have st: "ce_store e = st" using assms(2) by (simp add: engine_ok_def)
  obtain rg w1 where g: "cs_Get st uid w = (rg, w1)" by (cases "cs_Get st uid w")
  note gf = get [OF assms(1) g]
  show ?thesis
  proof (cases "\<exists>c. rg = Inr c \<and> c_Status c = ContainRecommended")
    case False
    with assms(3) st g have "w' = w1 \<and> (\<exists>x. r = Inl x)"
      by (auto simp: ContainApprove_def split: sum.splits if_splits)
    with gf show ?thesis by auto
  next
    case True
    then obtain c where c: "rg = Inr c" "c_Status c = ContainRecommended" by blast
    with gf have al: "c \<in> set (rows w)" "c_ID c = uid" and inv1: "inv w1" "now w1 = now w" "rows w1 = rows w" by auto
    obtain rc w2 where k: "contain e t c by_user w1 = (rc, w2)" by (cases "contain e t c by_user w1")
    from assms(3) st g c k have "w' = w2" "r = (case rc of Inl x \<Rightarrow> Inl x | Inr _ \<Rightarrow> Inr ())"
      by (auto simp: ContainApprove_def split: sum.splits)
    with contain_rows [OF inv1(1) assms(2) k] al c inv1 show ?thesis
      by (cases rc) auto
  qed
qed

lemma dismiss_rows:
  assumes "inv w" "engine_ok e" "ContainDismiss e uid by_user w = (r, w')"
  shows "inv w' \<and> now w' = now w \<and>
    (case r of Inl _ \<Rightarrow> rows w' = rows w | Inr _ \<Rightarrow> rows w' = rows_status uid ContainDismissed by_user (now w) (rows w))"
proof -
  have st: "ce_store e = st" using assms(2) by (simp add: engine_ok_def)
  obtain rg w1 where g: "cs_Get st uid w = (rg, w1)" by (cases "cs_Get st uid w")
  note gf = get [OF assms(1) g]
  show ?thesis
  proof (cases "\<exists>c. rg = Inr c \<and> c_Status c = ContainRecommended")
    case False
    with assms(3) st g have "w' = w1 \<and> (\<exists>x. r = Inl x)"
      by (auto simp: ContainDismiss_def split: sum.splits if_splits)
    with gf show ?thesis by auto
  next
    case True
    with assms(3) st g have "cs_SetStatus st uid ContainDismissed by_user w1 = (r, w')"
      by (auto simp: ContainDismiss_def)
    with set_status [OF gf [THEN conjunct1]] gf show ?thesis by (auto split: sum.splits)
  qed
qed

text \<open>
  The release of a row: when it succeeds the row was contained and is released, whatever the edge
  said; and with the store up it does succeed.
\<close>

lemma release_rows:
  assumes "inv w" "engine_ok e" "Release e uid by_user w = (r, w')"
  shows "inv w' \<and> now w' = now w \<and>
    (case r of Inl _ \<Rightarrow> rows w' = rows w
     | Inr _ \<Rightarrow> (\<exists>c \<in> set (rows w). c_ID c = uid \<and> c_Status c = ContainContained) \<and>
         rows w' = rows_status uid ContainReleased by_user (now w) (rows w)) \<and>
    (up w \<longrightarrow> (\<exists>c \<in> set (rows w). c_ID c = uid \<and> c_Status c = ContainContained) \<longrightarrow> r = Inr () \<and> up w')"
proof -
  have st: "ce_store e = st" using assms(2) by (simp add: engine_ok_def)
  obtain rg w1 where g: "cs_Get st uid w = (rg, w1)" by (cases "cs_Get st uid w")
  note gf = get [OF assms(1) g]
  have gup: "up w \<Longrightarrow> uid \<in> c_ID ` set (rows w) \<Longrightarrow> (\<exists>c. rg = Inr c) \<and> up w1"
    using get_up [OF assms(1), of uid] g by auto
  have same: "c = c'" if "c \<in> set (rows w)" "c' \<in> set (rows w)" "c_ID c = c_ID c'" for c c'
    using ids [OF assms(1)] that by (metis distinct_map inj_onD)
  show ?thesis
  proof (cases "\<exists>c. rg = Inr c \<and> c_Status c = ContainContained")
    case False
    with assms(3) st g have w': "w' = w1 \<and> (\<exists>x. r = Inl x)"
      by (auto simp: Release_def split: sum.splits if_splits)
    have "\<not> (\<exists>c \<in> set (rows w). c_ID c = uid \<and> c_Status c = ContainContained)" if "up w"
    proof
      assume "\<exists>c \<in> set (rows w). c_ID c = uid \<and> c_Status c = ContainContained"
      then obtain c where c: "c \<in> set (rows w)" "c_ID c = uid" "c_Status c = ContainContained" by blast
      with gup that obtain c' where "rg = Inr c'" by auto
      with gf c same [of c c'] False show False by auto
    qed
    with w' gf show ?thesis by auto
  next
    case True
    then obtain c where c: "rg = Inr c" "c_Status c = ContainContained" by blast
    with gf have al: "c \<in> set (rows w)" "c_ID c = uid" and 1: "inv w1" "now w1 = now w" "rows w1 = rows w" by auto
    obtain er w2 where u: "(case ce_edge e of Some r \<Rightarrow> if c_IP c = [] then (None, w1) else rs_Unblock r (c_IP c) w1
        | None \<Rightarrow> (None, w1)) = (er, w2)" by fastforce
    have 2: "inv w2" "now w2 = now w" "rows w2 = rows w" "up w1 \<longrightarrow> up w2"
      using u 1 unblock_frame [OF 1(1)] assms(2) by (auto simp: engine_ok_def split: option.splits if_splits)
    from assms(3) st g c u have s: "cs_SetStatus st uid ContainReleased by_user w2 = (r, w')"
      by (simp add: Release_def)
    have "up w \<Longrightarrow> r = Inr () \<and> up w'"
      using gup al 2 release_up [OF 2(1), of uid by_user] s by (auto simp: image_iff)
    with set_status [OF 2(1) s] 2 al c show ?thesis by (cases r) auto
  qed
qed

definition swept :: "string set \<Rightarrow> gotime \<Rightarrow> containment list \<Rightarrow> containment list" where
  "swept us t = map (\<lambda>c. if c_ID c \<in> us then c\<lparr>c_Status := ContainReleased, c_DecidedBy := ''auto-expire'',
     c_ReleasedAt := Some t\<rparr> else c)"

lemma sweep_rows_up:
  assumes "inv w" "engine_ok e" "up w" "sweep_rows e cs w = (n, w')" "distinct (map c_ID cs)"
    and "\<forall>c \<in> set cs. c \<in> set (rows w) \<and> c_Status c = ContainContained"
  shows "n = int (length cs) \<and> inv w' \<and> now w' = now w \<and> rows w' = swept (c_ID ` set cs) (now w) (rows w)"
  using assms
proof (induction cs arbitrary: w n w')
  case Nil
  then show ?case by (simp add: swept_def)
next
  case (Cons c cs)
  obtain r w1 where rel: "Release e (c_ID c) ''auto-expire'' w = (r, w1)" by (cases "Release e (c_ID c) ''auto-expire'' w")
  note rf = release_rows [OF Cons.prems(1,2) rel]
  have c: "c \<in> set (rows w)" "c_Status c = ContainContained" using Cons.prems(6) by simp_all
  then have r: "r = Inr ()" "up w1" using rf Cons.prems(3) by auto
  with rf have 1: "inv w1" "now w1 = now w" "rows w1 = rows_status (c_ID c) ContainReleased ''auto-expire'' (now w) (rows w)"
    by simp_all
  obtain k w2 where k: "sweep_rows e cs w1 = (k, w2)" by (cases "sweep_rows e cs w1")
  with Cons.prems(4) rel r have n: "n = k + 1" "w' = w2" by simp_all
  have "d \<in> set (rows w1) \<and> c_Status d = ContainContained" if "d \<in> set cs" for d
  proof -
    have "c_ID d \<in> c_ID ` set cs" using that by (rule imageI)
    then have "c_ID d \<noteq> c_ID c" using Cons.prems(5) by auto
    moreover have "d \<in> set (rows w)" "c_Status d = ContainContained" using Cons.prems(6) that by simp_all
    ultimately show ?thesis unfolding 1(3) rows_status_def by (auto simp: image_iff intro!: bexI [of _ d])
  qed
  with Cons.IH [OF 1(1) Cons.prems(2) r(2) k] Cons.prems(5)
  have 2: "k = int (length cs)" "inv w2" "now w2 = now w1" "rows w2 = swept (c_ID ` set cs) (now w1) (rows w1)" by auto
  have "rows w2 = swept (c_ID ` set (c # cs)) (now w) (rows w)"
    unfolding 2(4) 1(2,3) by (auto simp: swept_def rows_status_def)
  with n 1 2 show ?case by simp
qed

lemma sweep_expired_up:
  assumes "inv w" "engine_ok e" "up w" "SweepExpired e t w = (r, w')"
  shows "inv w' \<and> now w' = now w \<and> r = Inr (count_rows (c_expired t) (rows w)) \<and>
    rows w' = swept (c_ID ` set (filter (c_expired t) (rows w))) (now w) (rows w)"
proof -
  have st: "ce_store e = st" using assms(2) by (simp add: engine_ok_def)
  from expired_up [OF assms(1,3)] obtain cs w1 where x: "cs_Expired st t w = (Inr cs, w1)" "up w1" by blast
  from expired [OF assms(1) x(1)] have 1: "inv w1" "now w1 = now w" "rows w1 = rows w" "cs = filter (c_expired t) (rows w)" by auto
  obtain n w2 where sw: "sweep_rows e cs w1 = (n, w2)" by (cases "sweep_rows e cs w1")
  from assms(4) st x sw have r: "r = Inr n" "w' = w2" by (simp_all add: SweepExpired_def)
  have "distinct (map c_ID cs)" using ids [OF assms(1)] 1(4) by (simp add: distinct_map_filter)
  moreover have "\<forall>c \<in> set cs. c \<in> set (rows w1) \<and> c_Status c = ContainContained" using 1 by (auto simp: c_expired_def)
  ultimately have "n = int (length cs) \<and> inv w2 \<and> now w2 = now w1 \<and> rows w2 = swept (c_ID ` set cs) (now w1) (rows w1)"
    by (rule sweep_rows_up [OF 1(1) assms(2) x(2) sw])
  with 1 r show ?thesis by (simp add: count_rows_def)
qed

text \<open>Without the assumption that the store is up the sweep still keeps the contract.\<close>

lemma sweep_rows_inv:
  assumes "inv w" "engine_ok e" "sweep_rows e cs w = (n, w')"
  shows "inv w' \<and> now w' = now w"
  using assms
proof (induction cs arbitrary: w n w')
  case Nil
  then show ?case by simp
next
  case (Cons c cs)
  obtain r w1 where rel: "Release e (c_ID c) ''auto-expire'' w = (r, w1)" by (cases "Release e (c_ID c) ''auto-expire'' w")
  obtain k w2 where k: "sweep_rows e cs w1 = (k, w2)" by (cases "sweep_rows e cs w1")
  from Cons.prems(3) rel k have "w' = w2" by (auto split: sum.splits)
  with Cons.IH [of w1 k] Cons.prems(2) k release_rows [OF Cons.prems(1,2) rel] show ?case by auto
qed

lemma sweep_inv:
  assumes "inv w" "engine_ok e" "SweepExpired e t w = (r, w')"
  shows "inv w' \<and> now w' = now w"
proof -
  have st: "ce_store e = st" using assms(2) by (simp add: engine_ok_def)
  obtain rx w1 where x: "cs_Expired st t w = (rx, w1)" by (cases "cs_Expired st t w")
  note xf = expired [OF assms(1) x]
  show ?thesis
  proof (cases rx)
    case (Inl a)
    with assms(3) st x xf show ?thesis by (simp add: SweepExpired_def)
  next
    case (Inr cs)
    obtain n w2 where sw: "sweep_rows e cs w1 = (n, w2)" by (cases "sweep_rows e cs w1")
    with assms(3) st x Inr have "w' = w2" by (simp add: SweepExpired_def)
    with sweep_rows_inv [OF _ assms(2) sw] xf show ?thesis by simp
  qed
qed

end

end
