(* ===== verification/Containment_Store.thy ===== *)
theory Containment_Store
  imports Containment
begin

text \<open>
  The \<^verbatim>\<open>containment_actions\<close> table of \<^verbatim>\<open>internal/respond/containment_store.go\<close> and
  migration 22, the proof that it keeps the contract of a containment store, the runs of the
  engine as a step relation, and the properties of the engine on this store.

  \<^verbatim>\<open>$3::inet\<close> is \<open>cn_inet_in\<close> and \<^verbatim>\<open>ip::text\<close> is \<open>cn_inet_text\<close>; both are PostgreSQL's.
\<close>

section \<open>The table and its statements\<close>

record 'i cn_row =
  k_id :: string
  k_created_at :: gotime
  k_agent_id :: string
  k_host_name :: "string option"
  k_ip :: "'i option"
  k_reason :: "string option"
  k_rule_id :: "string option"
  k_timeout_seconds :: int
  k_status :: containment_status
  k_auto :: bool
  k_decided_by :: "string option"
  k_contained_at :: "gotime option"
  k_expires_at :: "gotime option"
  k_released_at :: "gotime option"
  k_error :: "string option"

record ('i, 'f) cn_db = db +
  cn_rows :: "'i cn_row list"
  cn_inet_in :: "string \<Rightarrow> 'i option"
  cn_inet_text :: "'i \<Rightarrow> string"
  cn_fw :: 'f

text \<open>The partial unique index: at most one open row per agent.\<close>

definition k_open :: "'i cn_row \<Rightarrow> bool" where
  "k_open r = (k_status r = ContainRecommended \<or> k_status r = ContainContained)"

definition uq_containment_open :: "'i cn_row list \<Rightarrow> bool" where
  "uq_containment_open rs = distinct (map k_agent_id (filter k_open rs))"

definition scanContainment :: "('i \<Rightarrow> string) \<Rightarrow> 'i cn_row \<Rightarrow> containment" where
  "scanContainment inet_text r =
     \<lparr>c_ID = k_id r, c_CreatedAt = k_created_at r, c_AgentID = k_agent_id r,
      c_HostName = coalesce_str (k_host_name r),
      c_IP = (case k_ip r of None \<Rightarrow> [] | Some i \<Rightarrow> inet_text i), c_Reason = coalesce_str (k_reason r),
      c_RuleID = coalesce_str (k_rule_id r), c_TimeoutSeconds = k_timeout_seconds r,
      c_Status = k_status r, c_Auto = k_auto r, c_DecidedBy = coalesce_str (k_decided_by r),
      c_ContainedAt = k_contained_at r, c_ExpiresAt = k_expires_at r,
      c_ReleasedAt = k_released_at r, c_Error = coalesce_str (k_error r)\<rparr>"

text \<open>\<^verbatim>\<open>ipOrNil\<close> and the cast: \<open>None\<close> when the cast fails, \<open>Some None\<close> is SQL NULL.\<close>

definition ipOrNil :: "(string \<Rightarrow> 'i option) \<Rightarrow> string \<Rightarrow> 'i option option" where
  "ipOrNil inet_in s = (if s = [] then Some None else map_option Some (inet_in s))"

definition pg_InsertContainment ::
    "containment \<Rightarrow> ('i, 'f) cn_db \<Rightarrow> (cn_error + string option) \<times> ('i, 'f) cn_db" where
  "pg_InsertContainment c w =
     (case query w of
        (True, w1) \<Rightarrow> (Inl CnDb, w1)
      | (False, w1) \<Rightarrow>
          (case ipOrNil (cn_inet_in w1) (c_IP c) of
             None \<Rightarrow> (Inl CnDb, w1)
           | Some ip \<Rightarrow>
               if \<not> int4_ok (c_TimeoutSeconds c) then (Inl CnDb, w1)
               else let (uid, w2) = fresh_id w1;
                        r = \<lparr>k_id = uid, k_created_at = db_clock w1, k_agent_id = c_AgentID c,
                             k_host_name = strOrNil (c_HostName c), k_ip = ip,
                             k_reason = strOrNil (c_Reason c), k_rule_id = strOrNil (c_RuleID c),
                             k_timeout_seconds = c_TimeoutSeconds c, k_status = c_Status c,
                             k_auto = c_Auto c, k_decided_by = None, k_contained_at = None,
                             k_expires_at = None, k_released_at = None, k_error = None\<rparr>
                    in if uq_containment_open (cn_rows w2 @ [r])
                       then (Inr (Some uid), w2\<lparr>cn_rows := cn_rows w2 @ [r]\<rparr>)
                       else (Inr None, w2)))"

definition pg_GetContainment ::
    "string \<Rightarrow> ('i, 'f) cn_db \<Rightarrow> (cn_error + containment) \<times> ('i, 'f) cn_db" where
  "pg_GetContainment uid w =
     (case query w of
        (True, w1) \<Rightarrow> (Inl CnDb, w1)
      | (False, w1) \<Rightarrow>
          (case find (\<lambda>r. k_id r = uid) (cn_rows w1) of
             None \<Rightarrow> (Inl CnNotFound, w1)
           | Some r \<Rightarrow> (Inr (scanContainment (cn_inet_text w1) r), w1)))"

text \<open>
  An \<^verbatim>\<open>UPDATE ... WHERE id = $1\<close> whose result would break the unique index is refused, and
  changes nothing.
\<close>

definition cn_update ::
    "string \<Rightarrow> ('i cn_row \<Rightarrow> 'i cn_row) \<Rightarrow> ('i, 'f) cn_db \<Rightarrow> (cn_error + int) \<times> ('i, 'f) cn_db" where
  "cn_update uid f w =
     (case query w of
        (True, w1) \<Rightarrow> (Inl CnDb, w1)
      | (False, w1) \<Rightarrow>
          (let (rs, n) = update_rows (\<lambda>r. k_id r = uid) f (cn_rows w1)
           in if uq_containment_open rs then (Inr n, w1\<lparr>cn_rows := rs\<rparr>) else (Inl CnDb, w1)))"

definition affected :: "(cn_error + int) \<times> ('i, 'f) cn_db \<Rightarrow> (cn_error + unit) \<times> ('i, 'f) cn_db" where
  "affected x = (case x of (Inl e, w) \<Rightarrow> (Inl e, w)
     | (Inr n, w) \<Rightarrow> if n = 0 then (Inl CnNotFound, w) else (Inr (), w))"

definition pg_MarkContained ::
    "string \<Rightarrow> gotime option \<Rightarrow> ('i, 'f) cn_db \<Rightarrow> (cn_error + unit) \<times> ('i, 'f) cn_db" where
  "pg_MarkContained uid expiresAt w =
     affected (cn_update uid (\<lambda>r. r\<lparr>k_status := ContainContained, k_contained_at := Some (db_clock w),
       k_expires_at := expiresAt\<rparr>) w)"

definition pg_SetContainmentStatus ::
    "string \<Rightarrow> containment_status \<Rightarrow> string \<Rightarrow> ('i, 'f) cn_db \<Rightarrow> (cn_error + unit) \<times> ('i, 'f) cn_db" where
  "pg_SetContainmentStatus uid st by_user w =
     (let releasedAt = (if st = ContainReleased then Some (db_clock w) else None) in
      affected (cn_update uid (\<lambda>r. r\<lparr>k_status := st, k_decided_by := strOrNil by_user,
        k_released_at := (case releasedAt of Some t \<Rightarrow> Some t | None \<Rightarrow> k_released_at r)\<rparr>) w))"

definition pg_SetContainmentError ::
    "string \<Rightarrow> string \<Rightarrow> ('i, 'f) cn_db \<Rightarrow> (cn_error + unit) \<times> ('i, 'f) cn_db" where
  "pg_SetContainmentError uid m w =
     (case cn_update uid (\<lambda>r. r\<lparr>k_error := strOrNil m\<rparr>) w of
        (Inl e, w1) \<Rightarrow> (Inl e, w1)
      | (Inr _, w1) \<Rightarrow> (Inr (), w1))"

definition pg_ActiveContainmentByAgent ::
    "string \<Rightarrow> ('i, 'f) cn_db \<Rightarrow> (cn_error + containment option) \<times> ('i, 'f) cn_db" where
  "pg_ActiveContainmentByAgent agentName w =
     (case query w of
        (True, w1) \<Rightarrow> (Inl CnDb, w1)
      | (False, w1) \<Rightarrow>
          (case sort_key (\<lambda>r. - k_created_at r)
                  (filter (\<lambda>r. k_agent_id r = agentName \<and> k_status r = ContainContained) (cn_rows w1)) of
             [] \<Rightarrow> (Inr None, w1)
           | r # _ \<Rightarrow> (Inr (Some (scanContainment (cn_inet_text w1) r)), w1)))"

definition pg_ExpiredContained ::
    "gotime \<Rightarrow> ('i, 'f) cn_db \<Rightarrow> (cn_error + containment list) \<times> ('i, 'f) cn_db" where
  "pg_ExpiredContained t w =
     (case query w of
        (True, w1) \<Rightarrow> (Inl CnDb, w1)
      | (False, w1) \<Rightarrow>
          (Inr (map (scanContainment (cn_inet_text w1))
             (filter (\<lambda>r. k_status r = ContainContained \<and>
                (case k_expires_at r of None \<Rightarrow> False | Some x \<Rightarrow> x < t)) (cn_rows w1))), w1))"

definition pg_ListContainments ::
    "containment_status option \<Rightarrow> int \<Rightarrow> ('i, 'f) cn_db \<Rightarrow> (cn_error + containment list) \<times> ('i, 'f) cn_db" where
  "pg_ListContainments st lim w =
     (case query w of
        (True, w1) \<Rightarrow> (Inl CnDb, w1)
      | (False, w1) \<Rightarrow>
          (Inr (take (nat (list_limit lim)) (sort_key (\<lambda>c. - c_CreatedAt c)
             (filter (\<lambda>c. case st of None \<Rightarrow> True | Some x \<Rightarrow> c_Status c = x)
               (map (scanContainment (cn_inet_text w1)) (cn_rows w1))))), w1))"

definition pg_containment :: "('i, 'f) cn_db containment_store" where
  "pg_containment =
     \<lparr>cs_Insert = pg_InsertContainment, cs_Get = pg_GetContainment, cs_MarkContained = pg_MarkContained,
      cs_SetStatus = pg_SetContainmentStatus, cs_SetError = pg_SetContainmentError,
      cs_ActiveByAgent = pg_ActiveContainmentByAgent, cs_Expired = pg_ExpiredContained\<rparr>"

definition edge_responder :: "'f responder \<Rightarrow> ('i, 'f) cn_db responder" where
  "edge_responder r =
     \<lparr>rs_Name = rs_Name r,
      rs_Block = (\<lambda>addr d w. let (e, f) = rs_Block r addr d (cn_fw w) in (e, w\<lparr>cn_fw := f\<rparr>)),
      rs_Unblock = (\<lambda>addr w. let (e, f) = rs_Unblock r addr (cn_fw w) in (e, w\<lparr>cn_fw := f\<rparr>))\<rparr>"

section \<open>The store keeps the contract\<close>

definition cn_view :: "('i, 'f) cn_db \<Rightarrow> containment list" where
  "cn_view w = map (scanContainment (cn_inet_text w)) (cn_rows w)"

definition cn_inv :: "('i, 'f) cn_db \<Rightarrow> bool" where
  "cn_inv w = (inj (db_uuid w) \<and> distinct (map k_id (cn_rows w)) \<and> k_id ` set (cn_rows w) \<subseteq> used_ids w \<and>
     uq_containment_open (cn_rows w))"

definition cn_up :: "('i, 'f) cn_db \<Rightarrow> bool" where
  "cn_up w = (db_faults w = [])"

lemma query_cn [simp]:
  assumes "query w = (b, w')"
  shows "cn_rows w' = cn_rows w" "cn_inet_in w' = cn_inet_in w" "cn_inet_text w' = cn_inet_text w" "cn_fw w' = cn_fw w"
  using assms by (auto simp: query_def split: list.splits)

lemma query_up: "query w = (b, w') \<Longrightarrow> cn_up w \<Longrightarrow> \<not> b \<and> cn_up w'"
  by (auto simp: query_def cn_up_def)

lemma cn_scan [simp]:
  "c_ID (scanContainment f r) = k_id r" "c_AgentID (scanContainment f r) = k_agent_id r"
  "c_Status (scanContainment f r) = k_status r" "c_ExpiresAt (scanContainment f r) = k_expires_at r"
  "c_open (scanContainment f r) = k_open r" "c_CreatedAt (scanContainment f r) = k_created_at r"
  by (simp_all add: scanContainment_def c_open_def k_open_def)

lemma cn_query_inv:
  assumes "cn_inv w" "query w = (b, w')"
  shows "cn_inv w' \<and> db_clock w' = db_clock w \<and> cn_view w' = cn_view w"
  using assms by (simp add: cn_inv_def cn_view_def)

text \<open>The rows after an update by identifier, seen through \<open>scanContainment\<close>.\<close>

lemma cn_update_view:
  assumes inv: "cn_inv w" and upd: "cn_update uid f w = (r, w')"
    and f: "\<And>x. k_id (f x) = k_id x" "\<And>x. scanContainment (cn_inet_text w) (f x) = g (scanContainment (cn_inet_text w) x)"
  shows "cn_inv w' \<and> db_clock w' = db_clock w \<and>
    (case r of Inl _ \<Rightarrow> cn_view w' = cn_view w
     | Inr n \<Rightarrow> cn_view w' = map (\<lambda>c. if c_ID c = uid then g c else c) (cn_view w) \<and>
         (n = 0 \<longrightarrow> cn_view w' = cn_view w))"
proof -
  obtain b w1 where q: "query w = (b, w1)" by (cases "query w")
  let ?rs = "map (\<lambda>x. if k_id x = uid then f x else x) (cn_rows w)"
  note qi = cn_query_inv [OF inv q]
  show ?thesis
  proof (cases "\<not> b \<and> uq_containment_open ?rs")
    case False
    with upd q have "w' = w1 \<and> r = Inl CnDb"
      by (cases b) (auto simp: cn_update_def update_rows_def split: if_splits)
    with qi show ?thesis by simp
  next
    case True
    with upd q have w': "w' = w1\<lparr>cn_rows := ?rs\<rparr>" "r = Inr (count_rows (\<lambda>x. k_id x = uid) (cn_rows w))"
      by (auto simp: cn_update_def update_rows_def)
    have ids: "map k_id ?rs = map k_id (cn_rows w)" using f(1) by simp
    then have "k_id ` set ?rs = k_id ` set (cn_rows w)" by (metis set_map)
    moreover have rows: "cn_rows w' = ?rs" "used_ids w' = used_ids w" "db_uuid w' = db_uuid w"
      using w' q by (simp_all add: used_ids_def)
    ultimately have "cn_inv w'" using inv True ids unfolding cn_inv_def rows by (simp only: simp_thms)
    moreover have view: "cn_view w' = map (\<lambda>c. if c_ID c = uid then g c else c) (cn_view w)"
      using w' q f(2) by (simp add: cn_view_def)
    moreover have "cn_view w' = cn_view w" if "count_rows (\<lambda>x. k_id x = uid) (cn_rows w) = 0"
      using that unfolding view by (auto simp: cn_view_def count_rows_zero intro!: map_cong)
    ultimately show ?thesis using w' q by simp
  qed
qed

lemma used_ids_fresh: "used_ids (snd (fresh_id w)) = insert (db_uuid w (db_seq w)) (used_ids w)"
  by (simp add: used_ids_def fresh_id_def lessThan_Suc)

lemma pg_insert_containment:
  assumes inv: "cn_inv w" and ins: "pg_InsertContainment c w = (r, w')"
  shows "cn_inv w' \<and> db_clock w' = db_clock w \<and>
    (case r of
       Inr (Some uid) \<Rightarrow> uid \<notin> c_ID ` set (cn_view w) \<and>
         (\<exists>addr. cn_view w' = cn_view w @ [c_inserted c uid (db_clock w) addr])
     | _ \<Rightarrow> cn_view w' = cn_view w)"
proof -
  obtain b w1 where q: "query w = (b, w1)" by (cases "query w")
  note qi = cn_query_inv [OF inv q]
  show ?thesis
  proof (cases "\<not> b \<and> ipOrNil (cn_inet_in w) (c_IP c) \<noteq> None \<and> int4_ok (c_TimeoutSeconds c)")
    case False
    with ins q have "w' = w1 \<and> r = Inl CnDb"
      by (cases b) (auto simp: pg_InsertContainment_def split: option.splits if_splits)
    with qi show ?thesis by simp
  next
    case True
    then obtain ip where ip: "ipOrNil (cn_inet_in w) (c_IP c) = Some ip" by blast
    define uid where "uid = db_uuid w (db_seq w)"
    define w2 where "w2 = w1\<lparr>db_seq := Suc (db_seq w)\<rparr>"
    define x where "x = \<lparr>k_id = uid, k_created_at = db_clock w, k_agent_id = c_AgentID c,
       k_host_name = strOrNil (c_HostName c), k_ip = ip, k_reason = strOrNil (c_Reason c),
       k_rule_id = strOrNil (c_RuleID c), k_timeout_seconds = c_TimeoutSeconds c, k_status = c_Status c,
       k_auto = c_Auto c, k_decided_by = None, k_contained_at = None, k_expires_at = None,
       k_released_at = None, k_error = None\<rparr>"
    have r: "(r, w') = (if uq_containment_open (cn_rows w @ [x]) then (Inr (Some uid), w2\<lparr>cn_rows := cn_rows w @ [x]\<rparr>)
        else (Inr None, w2))"
      using True ip q ins by (auto simp: pg_InsertContainment_def fresh_id_def Let_def x_def uid_def w2_def)
    have w2: "used_ids w2 = insert uid (used_ids w)" "cn_rows w2 = cn_rows w" "db_uuid w2 = db_uuid w"
      "db_clock w2 = db_clock w" "cn_inet_text w2 = cn_inet_text w"
      using q by (simp_all add: w2_def used_ids_def uid_def lessThan_Suc)
    have fresh: "uid \<notin> k_id ` set (cn_rows w)"
      using inv fresh_id_not_used [of w] by (auto simp: cn_inv_def uid_def)
    have inv2: "cn_inv w2" using inv unfolding cn_inv_def w2 by blast
    show ?thesis
    proof (cases "uq_containment_open (cn_rows w @ [x])")
      case False
      with r inv2 w2 show ?thesis by (simp add: cn_view_def)
    next
      case True
      with r have w': "r = Inr (Some uid)" "w' = w2\<lparr>cn_rows := cn_rows w @ [x]\<rparr>" by simp_all
      have "used_ids w' = insert uid (used_ids w)" using w' w2 by (simp add: used_ids_def)
      then have "cn_inv w'" using inv True fresh w' w2 by (auto simp: cn_inv_def x_def)
      moreover have "cn_view w' = cn_view w @ [c_inserted c uid (db_clock w) (c_IP (scanContainment (cn_inet_text w) x))]"
        using w' w2 by (simp add: cn_view_def scanContainment_def c_inserted_def x_def coalesce_str_def strOrNil_def)
      moreover have "uid \<notin> c_ID ` set (cn_view w)" using fresh by (auto simp: cn_view_def)
      ultimately show ?thesis using w' w2 by auto
    qed
  qed
qed

lemma pg_get_containment:
  assumes "cn_inv w" "pg_GetContainment uid w = (r, w')"
  shows "cn_inv w' \<and> db_clock w' = db_clock w \<and> cn_view w' = cn_view w \<and>
    (\<forall>c. r = Inr c \<longrightarrow> c \<in> set (cn_view w) \<and> c_ID c = uid)"
proof -
  obtain b w1 where q: "query w = (b, w1)" by (cases "query w")
  with assms(2) have "w' = w1" and "\<forall>c. r = Inr c \<longrightarrow> c \<in> set (cn_view w) \<and> c_ID c = uid"
    by (auto simp: pg_GetContainment_def cn_view_def find_Some_iff split: bool.splits option.splits)
  with cn_query_inv [OF assms(1) q] show ?thesis by simp
qed

lemma pg_mark_contained:
  assumes "cn_inv w" "pg_MarkContained uid ex w = (r, w')"
  shows "cn_inv w' \<and> db_clock w' = db_clock w \<and>
    cn_view w' = (case r of Inl _ \<Rightarrow> cn_view w | Inr _ \<Rightarrow> rows_marked uid ex (db_clock w) (cn_view w))"
proof -
  let ?f = "\<lambda>x. x\<lparr>k_status := ContainContained, k_contained_at := Some (db_clock w), k_expires_at := ex\<rparr>"
  obtain ri w1 where u: "cn_update uid ?f w = (ri, w1)" by (cases "cn_update uid ?f w")
  from cn_update_view [OF assms(1) u, of "\<lambda>c. c\<lparr>c_Status := ContainContained, c_ContainedAt := Some (db_clock w), c_ExpiresAt := ex\<rparr>"]
  show ?thesis using assms(2) u
    by (auto simp: pg_MarkContained_def affected_def rows_marked_def scanContainment_def split: sum.splits if_splits)
qed

lemma pg_set_containment_status:
  assumes "cn_inv w" "pg_SetContainmentStatus uid sx by_user w = (r, w')"
  shows "cn_inv w' \<and> db_clock w' = db_clock w \<and>
    cn_view w' = (case r of Inl _ \<Rightarrow> cn_view w | Inr _ \<Rightarrow> rows_status uid sx by_user (db_clock w) (cn_view w))"
proof -
  let ?f = "\<lambda>x. x\<lparr>k_status := sx, k_decided_by := strOrNil by_user, k_released_at :=
      (case (if sx = ContainReleased then Some (db_clock w) else None) of Some t \<Rightarrow> Some t | None \<Rightarrow> k_released_at x)\<rparr>"
  obtain ri w1 where u: "cn_update uid ?f w = (ri, w1)" by (cases "cn_update uid ?f w")
  from cn_update_view [OF assms(1) u, of "\<lambda>c. c\<lparr>c_Status := sx, c_DecidedBy := by_user,
      c_ReleasedAt := (if sx = ContainReleased then Some (db_clock w) else c_ReleasedAt c)\<rparr>"]
  show ?thesis using assms(2) u
    by (auto simp: pg_SetContainmentStatus_def Let_def affected_def rows_status_def scanContainment_def
        split: sum.splits if_splits)
qed

lemma pg_set_containment_error:
  assumes "cn_inv w" "pg_SetContainmentError uid m w = (r, w')"
  shows "cn_inv w' \<and> db_clock w' = db_clock w \<and>
    cn_view w' = (case r of Inl _ \<Rightarrow> cn_view w | Inr _ \<Rightarrow> rows_error uid m (cn_view w))"
proof -
  let ?f = "\<lambda>x. x\<lparr>k_error := strOrNil m\<rparr>"
  obtain ri w1 where u: "cn_update uid ?f w = (ri, w1)" by (cases "cn_update uid ?f w")
  from cn_update_view [OF assms(1) u, of "\<lambda>c. c\<lparr>c_Error := m\<rparr>"]
  show ?thesis using assms(2) u
    by (auto simp: pg_SetContainmentError_def rows_error_def scanContainment_def split: sum.splits)
qed

lemma pg_expired_contained:
  assumes "cn_inv w" "pg_ExpiredContained t w = (r, w')"
  shows "cn_inv w' \<and> db_clock w' = db_clock w \<and> cn_view w' = cn_view w \<and>
    (\<forall>cs. r = Inr cs \<longrightarrow> cs = filter (c_expired t) (cn_view w))"
proof -
  obtain b w1 where q: "query w = (b, w1)" by (cases "query w")
  with assms(2) have "w' = w1" and "\<forall>cs. r = Inr cs \<longrightarrow> cs = filter (c_expired t) (cn_view w)"
    by (auto simp: pg_ExpiredContained_def cn_view_def filter_map c_expired_def comp_def split: bool.splits)
  with cn_query_inv [OF assms(1) q] show ?thesis by simp
qed

text \<open>Closing a row never breaks the index, so with the database up a release goes through.\<close>

lemma uq_close:
  assumes "uq_containment_open rs" "\<And>x. \<not> k_open (f x)"
  shows "uq_containment_open (map (\<lambda>x. if p x then f x else x) rs)"
proof -
  have "filter k_open (map (\<lambda>x. if p x then f x else x) rs) = filter (\<lambda>x. \<not> p x) (filter k_open rs)"
    using assms(2) by (induction rs) auto
  with assms(1) show ?thesis by (simp only: uq_containment_open_def distinct_map_filter)
qed

lemma pg_release_up:
  assumes "cn_inv w" "cn_up w" "uid \<in> c_ID ` set (cn_view w)"
  shows "\<exists>w'. pg_SetContainmentStatus uid ContainReleased by_user w = (Inr (), w') \<and> cn_up w'"
proof -
  let ?f = "\<lambda>x. x\<lparr>k_status := ContainReleased, k_decided_by := strOrNil by_user, k_released_at := Some (db_clock w)\<rparr>"
  have "uq_containment_open (map (\<lambda>x. if k_id x = uid then ?f x else x) (cn_rows w))"
    using assms(1) by (intro uq_close) (auto simp: cn_inv_def k_open_def)
  moreover have "count_rows (\<lambda>x. k_id x = uid) (cn_rows w) \<noteq> 0"
    using assms(3) unfolding count_rows_zero by (auto simp: cn_view_def)
  ultimately show ?thesis
    using assms(2) by (simp add: pg_SetContainmentStatus_def Let_def affected_def cn_update_def update_rows_def cn_up_def
        cong: if_cong)
qed

lemma pg_get_up:
  assumes "cn_up w" "uid \<in> c_ID ` set (cn_view w)"
  shows "\<exists>c w'. pg_GetContainment uid w = (Inr c, w') \<and> cn_up w'"
proof -
  have "find (\<lambda>r. k_id r = uid) (cn_rows w) \<noteq> None" using assms(2) by (auto simp: find_None_iff cn_view_def)
  then show ?thesis using assms(1) by (auto simp: pg_GetContainment_def cn_up_def)
qed

lemma edge_frame:
  "rs_Block (edge_responder rp) s d w = (er, w') \<Longrightarrow> \<exists>f. w' = w\<lparr>cn_fw := f\<rparr>"
  "rs_Unblock (edge_responder rp) s w = (er, w') \<Longrightarrow> \<exists>f. w' = w\<lparr>cn_fw := f\<rparr>"
  by (auto simp: edge_responder_def split: prod.splits)

lemma cn_fw_update [simp]:
  "cn_view (w\<lparr>cn_fw := f\<rparr>) = cn_view w" "cn_inv (w\<lparr>cn_fw := f\<rparr>) = cn_inv w" "cn_up (w\<lparr>cn_fw := f\<rparr>) = cn_up w"
  by (simp_all add: cn_view_def cn_inv_def cn_up_def used_ids_def)

lemma cn_world_update [simp]:
  "cn_view (w\<lparr>db_clock := t, db_faults := fs\<rparr>) = cn_view w" "cn_inv (w\<lparr>db_clock := t, db_faults := fs\<rparr>) = cn_inv w"
  by (simp_all add: cn_view_def cn_inv_def used_ids_def)

interpretation cn: containment_contract pg_containment cn_view db_clock cn_inv cn_up "edge_responder rp" for rp
proof
  fix w :: "('a, 'b) cn_db" assume inv: "cn_inv w"
  show "distinct (map c_AgentID (filter c_open (cn_view w)))"
    using inv by (simp add: cn_inv_def uq_containment_open_def cn_view_def filter_map comp_def)
  show "distinct (map c_ID (cn_view w))" using inv by (simp add: cn_inv_def cn_view_def comp_def)
  note cs = pg_containment_def
  {
    fix c uid w' assume "cs_Insert pg_containment c w = (Inr (Some uid), w')"
    with pg_insert_containment [OF inv, of c] show "cn_inv w' \<and> db_clock w' = db_clock w \<and> uid \<notin> c_ID ` set (cn_view w) \<and>
      (\<exists>addr. cn_view w' = cn_view w @ [c_inserted c uid (db_clock w) addr])" by (simp add: cs)
  next
    fix c ri w' assume "cs_Insert pg_containment c w = (ri, w')" "\<nexists>uid. ri = Inr (Some uid)"
    with pg_insert_containment [OF inv, of c ri w'] show "cn_inv w' \<and> db_clock w' = db_clock w \<and> cn_view w' = cn_view w"
      by (auto simp: cs split: sum.splits option.splits)
  next
    fix uid rg w' assume "cs_Get pg_containment uid w = (rg, w')"
    then show "cn_inv w' \<and> db_clock w' = db_clock w \<and> cn_view w' = cn_view w \<and>
      (\<forall>c. rg = Inr c \<longrightarrow> c \<in> set (cn_view w) \<and> c_ID c = uid)"
      using pg_get_containment [OF inv, of uid rg w'] by (simp add: cs)
  next
    fix uid ex rm w' assume "cs_MarkContained pg_containment uid ex w = (rm, w')"
    then show "cn_inv w' \<and> db_clock w' = db_clock w \<and>
      cn_view w' = (case rm of Inl _ \<Rightarrow> cn_view w | Inr _ \<Rightarrow> rows_marked uid ex (db_clock w) (cn_view w))"
      using pg_mark_contained [OF inv, of uid ex rm w'] by (simp add: cs)
  next
    fix uid sx by_user rs w' assume "cs_SetStatus pg_containment uid sx by_user w = (rs, w')"
    then show "cn_inv w' \<and> db_clock w' = db_clock w \<and>
      cn_view w' = (case rs of Inl _ \<Rightarrow> cn_view w | Inr _ \<Rightarrow> rows_status uid sx by_user (db_clock w) (cn_view w))"
      using pg_set_containment_status [OF inv, of uid sx by_user rs w'] by (simp add: cs)
  next
    fix uid m re w' assume "cs_SetError pg_containment uid m w = (re, w')"
    then show "cn_inv w' \<and> db_clock w' = db_clock w \<and>
      cn_view w' = (case re of Inl _ \<Rightarrow> cn_view w | Inr _ \<Rightarrow> rows_error uid m (cn_view w))"
      using pg_set_containment_error [OF inv, of uid m re w'] by (simp add: cs)
  next
    fix t rx w' assume "cs_Expired pg_containment t w = (rx, w')"
    then show "cn_inv w' \<and> db_clock w' = db_clock w \<and> cn_view w' = cn_view w \<and>
      (\<forall>cs. rx = Inr cs \<longrightarrow> cs = filter (c_expired t) (cn_view w))"
      using pg_expired_contained [OF inv, of t rx w'] by (simp add: cs)
  next
    fix s d er w' assume "rs_Block (edge_responder rp) s d w = (er, w')"
    with inv show "cn_inv w' \<and> db_clock w' = db_clock w \<and> cn_view w' = cn_view w" by (auto dest!: edge_frame(1))
  next
    fix s er w' assume "rs_Unblock (edge_responder rp) s w = (er, w')"
    with inv show "cn_inv w' \<and> db_clock w' = db_clock w \<and> cn_view w' = cn_view w \<and> (cn_up w \<longrightarrow> cn_up w')"
      by (auto dest!: edge_frame(2))
  next
    fix uid assume "cn_up w" "uid \<in> c_ID ` set (cn_view w)"
    then show "\<exists>c w'. cs_Get pg_containment uid w = (Inr c, w') \<and> cn_up w'"
      using pg_get_up by (simp add: cs)
  next
    fix t assume "cn_up w"
    then show "\<exists>xs w'. cs_Expired pg_containment t w = (Inr xs, w') \<and> cn_up w'"
      by (simp add: cs pg_ExpiredContained_def cn_up_def)
  next
    fix uid by_user assume "cn_up w" "uid \<in> c_ID ` set (cn_view w)"
    then show "\<exists>w'. cs_SetStatus pg_containment uid ContainReleased by_user w = (Inr (), w') \<and> cn_up w'"
      using pg_release_up [OF inv] by (simp add: cs)
  }
qed

end
