(* ===== verification/Containment_Props.thy ===== *)
theory Containment_Props
  imports Containment_Store
begin

text \<open>
  The runs of the containment engine on the Postgres store as a step relation, and the engine's
  properties: one open containment per agent, the conditions for isolating a host, what approval,
  release and the expiry sweep achieve.
\<close>

section \<open>Runs\<close>

type_synonym ('i, 'f) cn_state = "('i, 'f) cn_db containment_engine \<times> ('i, 'f) cn_db"

inductive cn_step :: "('i, 'f) cn_state \<Rightarrow> ('i, 'f) cn_state \<Rightarrow> bool" where
  evaluate: "Evaluate e (db_clock w) mev w = (r, w') \<Longrightarrow> cn_step (e, w) (e, w')"
| approve: "ContainApprove e (db_clock w) uid u w = (r1, w') \<Longrightarrow> cn_step (e, w) (e, w')"
| dismiss: "ContainDismiss e uid u w = (r1, w') \<Longrightarrow> cn_step (e, w) (e, w')"
| release: "Release e uid u w = (r1, w') \<Longrightarrow> cn_step (e, w) (e, w')"
| sweep: "SweepExpired e (db_clock w) w = (r2, w') \<Longrightarrow> cn_step (e, w) (e, w')"
| managers: "cn_step (e, w) (SetManagerNets e nets, w)"
| allow: "cn_step (e, w) (SetAllowIPs e ips, w)"
| world: "db_clock w \<le> t \<Longrightarrow> cn_step (e, w) (e, w\<lparr>db_clock := t, db_faults := fs\<rparr>)"

definition cn_ok :: "'f responder \<Rightarrow> ('i, 'f) cn_state \<Rightarrow> bool" where
  "cn_ok rp s = (cn_inv (snd s) \<and> cn.engine_ok rp (fst s))"

lemma evaluate_none [simp]: "Evaluate e t None w = (Inr None, w)"
  by (simp add: Evaluate_def)

lemma cn_step_ok:
  assumes "cn_step s s'" "cn_ok rp s"
  shows "cn_ok rp s'"
  using assms
proof (induction rule: cn_step.induct)
  case (evaluate e w mev r w')
  then show ?case using cn.evaluate_rows [of w rp e "db_clock w" "the mev" r w'] by (cases mev) (auto simp: cn_ok_def)
next
  case (approve e w uid u r1 w')
  then show ?case using cn.approve_rows [of w rp e "db_clock w" uid u r1 w'] by (simp add: cn_ok_def)
next
  case (dismiss e uid u w r1 w')
  then show ?case using cn.dismiss_rows [of w rp e uid u r1 w'] by (simp add: cn_ok_def)
next
  case (release e uid u w r1 w')
  then show ?case using cn.release_rows [of w rp e uid u r1 w'] by (simp add: cn_ok_def)
next
  case (sweep e w r2 w')
  then show ?case using cn.sweep_inv [of w rp e "db_clock w" r2 w'] by (simp add: cn_ok_def)
qed (simp_all add: cn_ok_def cn.engine_ok_def SetManagerNets_def SetAllowIPs_def)

definition cn_start :: "'f responder \<Rightarrow> ('i, 'f) cn_state \<Rightarrow> bool" where
  "cn_start rp s = (cn_rows (snd s) = [] \<and> inj (db_uuid (snd s)) \<and> ce_store (fst s) = pg_containment \<and>
     (ce_edge (fst s) = None \<or> ce_edge (fst s) = Some (edge_responder rp)))"

lemma cn_start_ok: "cn_start rp s \<Longrightarrow> cn_ok rp s"
  by (auto simp: cn_start_def cn_ok_def cn_inv_def cn.engine_ok_def uq_containment_open_def)

lemma cn_reach_ok:
  assumes "cn_step\<^sup>*\<^sup>* s s'" "cn_start rp s"
  shows "cn_ok rp s'"
  using assms by (induction rule: rtranclp_induct) (auto intro: cn_start_ok cn_step_ok)

lemma same_open:
  assumes "distinct (map f (filter p xs))" "x \<in> set xs" "y \<in> set xs" "p x" "p y" "f x = f y"
  shows "x = y"
  using assms by (auto simp: distinct_map dest: inj_onD)


section \<open>Authority\<close>

text \<open>
  An alert creates at most one record, and only when its rule authorised network containment, it
  names an agent, and the host is not one of the manager's own; a host becomes isolated by an alert
  only if, besides, the automatic switch is on and the severity reaches the rule's threshold.
\<close>

theorem containment_needs_authority:
  assumes "cn_inv w" "ce_store e = pg_containment" "ce_edge e = None \<or> ce_edge e = Some (edge_responder rp)"
    and "Evaluate e t (Some ev) w = (r, w')"
  shows "cn_view w' = cn_view w \<or>
    (\<exists>g. may_contain e ev g \<and> length (cn_view w') = length (cn_view w) + 1 \<and>
       (\<forall>h. contained_in h (cn_view w') \<longrightarrow> contained_in h (cn_view w) \<or> (h = g \<and> may_auto e ev)))"
proof -
  have ok: "cn.engine_ok rp e" using assms(2,3) by (simp add: cn.engine_ok_def)
  from cn.evaluate_rows [OF assms(1) ok assms(4)] show ?thesis by blast
qed

section \<open>Approval, release and expiry\<close>

lemma uq_keep:
  assumes "uq_containment_open rs" "\<And>x. x \<in> set rs \<Longrightarrow> p x \<Longrightarrow> k_open x \<and> k_open (f x) \<and> k_agent_id (f x) = k_agent_id x"
  shows "uq_containment_open (map (\<lambda>x. if p x then f x else x) rs)"
proof -
  have "map k_agent_id (filter k_open (map (\<lambda>x. if p x then f x else x) rs)) = map k_agent_id (filter k_open rs)"
    using assms(2) by (induction rs) auto
  with assms(1) show ?thesis by (simp only: uq_containment_open_def)
qed

lemma pg_mark_up:
  assumes inv: "cn_inv w" and up: "cn_up w" and c: "c \<in> set (cn_view w)" "c_open c"
  shows "\<exists>w'. pg_MarkContained (c_ID c) ex w = (Inr (), w')"
proof -
  let ?f = "\<lambda>x. x\<lparr>k_status := ContainContained, k_contained_at := Some (db_clock w), k_expires_at := ex\<rparr>"
  from c obtain x where x: "x \<in> set (cn_rows w)" "c = scanContainment (cn_inet_text w) x" by (auto simp: cn_view_def)
  have "y = x" if "y \<in> set (cn_rows w)" "k_id y = c_ID c" for y
    using that x inv by (auto simp: cn_inv_def distinct_map dest: inj_onD)
  then have "uq_containment_open (map (\<lambda>y. if k_id y = c_ID c then ?f y else y) (cn_rows w))"
    using inv c(2) x(2) by (intro uq_keep) (auto simp: cn_inv_def k_open_def c_open_def)
  moreover have "count_rows (\<lambda>y. k_id y = c_ID c) (cn_rows w) \<noteq> 0"
    using x unfolding count_rows_zero by auto
  ultimately show ?thesis
    using up by (simp add: pg_MarkContained_def affected_def cn_update_def update_rows_def cn_up_def)
qed

lemma contain_some:
  assumes "ce_store e = pg_containment" "pg_MarkContained (c_ID c) (if c_TimeoutSeconds c > 0 then Some (t + contain_BanDuration c) else None) w = (Inr (), w1)"
  shows "\<exists>c' w'. contain e t c u w = (Inr c', w')"
  using assms by (auto simp: contain_def Let_def pg_containment_def split: option.splits prod.splits)

lemma contained_marked_own: "c \<in> set cs \<Longrightarrow> contained_in (c_AgentID c) (rows_marked (c_ID c) ex t cs)"
  by (induction cs) (auto simp: contained_in_def rows_marked_def)

text \<open>
  With the database up, approving a recommended containment succeeds and isolates its agent even
  when the edge firewall refuses the block.
\<close>

theorem approve_contains:
  assumes "cn_inv w" "cn_up w" "ce_store e = pg_containment"
    and "ce_edge e = None \<or> ce_edge e = Some (edge_responder rp)"
    and "c \<in> set (cn_view w)" "c_Status c = ContainRecommended"
  shows "\<exists>w'. ContainApprove e t (c_ID c) u w = (Inr (), w') \<and> contained_in (c_AgentID c) (cn_view w')"
proof -
  have ok: "cn.engine_ok rp e" using assms(3,4) by (simp add: cn.engine_ok_def)
  have "c_ID c \<in> c_ID ` set (cn_view w)" using assms(5) by simp
  from pg_get_up [OF assms(2) this] obtain d w1 where g: "pg_GetContainment (c_ID c) w = (Inr d, w1)" "cn_up w1" by blast
  from pg_get_containment [OF assms(1) g(1)]
  have d: "d \<in> set (cn_view w)" "c_ID d = c_ID c" and 1: "cn_inv w1" "cn_view w1 = cn_view w" by auto
  have dc: "d = c" using cn.ids [OF assms(1)] d assms(5) by (auto simp: distinct_map dest: inj_onD)
  have "c_open c" using assms(6) by (simp add: c_open_def)
  then have "\<exists>w'. pg_MarkContained (c_ID c) ex w1 = (Inr (), w')" for ex
    using pg_mark_up [OF 1(1) g(2)] assms(5) 1(2) by simp
  then obtain c' w' where k: "contain e t c u w1 = (Inr c', w')" using contain_some [OF assms(3)] by blast
  then have ap: "ContainApprove e t (c_ID c) u w = (Inr (), w')"
    using g(1) dc assms(3,6) by (simp add: ContainApprove_def pg_containment_def)
  from contained_marked_own [OF assms(5)] cn.approve_rows [OF assms(1) ok ap] have "contained_in (c_AgentID c) (cn_view w')" by auto
  with ap show ?thesis by blast
qed

text \<open>
  Approving a containment does not record who approved it: no record's decided-by changes.
\<close>

theorem approve_keeps_decided_by:
  assumes "cn_inv w" "ce_store e = pg_containment"
    and "ce_edge e = None \<or> ce_edge e = Some (edge_responder rp)" "ContainApprove e t uid u w = (r, w')"
  shows "map c_DecidedBy (cn_view w') = map c_DecidedBy (cn_view w)"
proof -
  have ok: "cn.engine_ok rp e" using assms(2,3) by (simp add: cn.engine_ok_def)
  have "map c_DecidedBy (rows_marked uid ex t' cs) = map c_DecidedBy cs"
    "map c_DecidedBy (rows_error uid m cs) = map c_DecidedBy cs" for ex t' m cs by (auto simp: rows_effects)
  note keep = this
  show ?thesis
  proof (cases r)
    case (Inl x)
    with cn.approve_rows [OF assms(1) ok assms(4)] show ?thesis by simp
  next
    case (Inr v)
    with cn.approve_rows [OF assms(1) ok assms(4)] obtain ex m where
      "cn_view w' = rows_marked uid ex (db_clock w) (cn_view w) \<or>
       cn_view w' = rows_error uid m (rows_marked uid ex (db_clock w) (cn_view w))" by blast
    then show ?thesis by (elim disjE) (simp_all only: keep)
  qed
qed

text \<open>
  A successful release leaves the agent without an active containment, so its next poll lifts the
  isolation, whatever the edge firewall answered.
\<close>

theorem release_frees_agent:
  assumes "cn_inv w" "ce_store e = pg_containment"
    and "ce_edge e = None \<or> ce_edge e = Some (edge_responder rp)"
    and "c \<in> set (cn_view w)" "Release e (c_ID c) u w = (Inr (), w')"
    and "pg_ActiveContainmentByAgent (c_AgentID c) w' = (Inr x, w'')"
  shows "x = None"
proof -
  have ok: "cn.engine_ok rp e" using assms(2,3) by (simp add: cn.engine_ok_def)
  from cn.release_rows [OF assms(1) ok assms(5)] obtain d where d: "d \<in> set (cn_view w)" "c_ID d = c_ID c"
    "c_Status d = ContainContained" and view: "cn_view w' = rows_status (c_ID c) ContainReleased u (db_clock w) (cn_view w)" by auto
  have dc: "d = c" using cn.ids [OF assms(1)] d assms(4) by (auto simp: distinct_map dest: inj_onD)
  have none: "\<not> (c_AgentID b = c_AgentID c \<and> c_Status b = ContainContained)" if b: "b \<in> set (cn_view w')" for b
  proof
    assume bc: "c_AgentID b = c_AgentID c \<and> c_Status b = ContainContained"
    from b obtain a where a: "a \<in> set (cn_view w)" "b = (if c_ID a = c_ID c then a\<lparr>c_Status := ContainReleased,
        c_DecidedBy := u, c_ReleasedAt := Some (db_clock w)\<rparr> else a)"
      unfolding view rows_status_def set_map by auto
    with bc have ba: "b = a" "c_ID a \<noteq> c_ID c" by (auto split: if_splits)
    with same_open [OF cn.one_open [OF assms(1)] a(1) assms(4)] bc d(3) dc show False by (auto simp: c_open_def)
  qed
  then have "filter (\<lambda>r. k_agent_id r = c_AgentID c \<and> k_status r = ContainContained) (cn_rows w') = []"
    by (force simp: filter_empty_conv cn_view_def)
  with assms(6) show ?thesis
    by (auto simp: pg_ActiveContainmentByAgent_def split: prod.splits bool.splits)
qed

text \<open>
  With the database up a sweep releases every contained host whose expiry has passed, counts
  exactly those, and leaves none of them isolated.
\<close>

theorem sweep_releases_expired:
  assumes "cn_inv w" "cn_up w" "ce_store e = pg_containment"
    and "ce_edge e = None \<or> ce_edge e = Some (edge_responder rp)" "SweepExpired e t w = (r, w')"
  shows "r = Inr (count_rows (c_expired t) (cn_view w)) \<and> \<not> list_ex (c_expired t) (cn_view w')"
proof -
  have ok: "cn.engine_ok rp e" using assms(3,4) by (simp add: cn.engine_ok_def)
  from cn.sweep_expired_up [OF assms(1) ok assms(2,5)]
  have r: "r = Inr (count_rows (c_expired t) (cn_view w))"
    and view: "cn_view w' = cn.swept (c_ID ` set (filter (c_expired t) (cn_view w))) (db_clock w) (cn_view w)" by simp_all
  have "\<not> c_expired t c" if "c \<in> set (cn_view w')" for c
    using that unfolding view cn.swept_def by (auto simp: c_expired_def)
  with r show ?thesis by (auto simp: list_ex_iff)
qed

section \<open>A concrete deployment\<close>

text \<open>PostgreSQL prints a host address cast to text with its mask; the edge keeps the blocked texts.\<close>

definition demo_cn :: "(string, string list) cn_db" where
  "demo_cn = \<lparr>db_faults = [], db_clock = 0, db_uuid = (\<lambda>n. replicate n CHR ''x''), db_seq = 0,
     cn_rows = [], cn_inet_in = Some, cn_inet_text = (\<lambda>i. i @ ''/32''), cn_fw = []\<rparr>"

definition demo_edge :: "string list responder" where
  "demo_edge = \<lparr>rs_Name = ''local'', rs_Block = (\<lambda>s d f. (None, s # f)),
     rs_Unblock = (\<lambda>s f. (None, filter (\<lambda>x. x \<noteq> s) f))\<rparr>"

definition demo_ce :: "bool \<Rightarrow> (string, string list) cn_db containment_engine" where
  "demo_ce auto = NewContainmentEngine pg_containment (Some (edge_responder demo_edge)) auto"

definition demo_alert :: event where
  "demo_alert = empty_event\<lparr>
     ev_Event := (ev_Event empty_event)\<lparr>ef_Severity := 4\<rparr>,
     ev_Host := Some \<lparr>host_Name = ''web'', host_OSType = [], host_IP = ''10.0.0.5''\<rparr>,
     ev_Agent := Some \<lparr>agent_ID = ''web-1'', agent_Version = []\<rparr>,
     ev_DeusWatch := empty_deuswatch\<lparr>dw_Containment :=
       Some \<lparr>ci_ActionType = ''network_containment'', ci_TimeoutSeconds = 60, ci_Threshold = 3\<rparr>\<rparr>\<rparr>"

definition demo_rec :: "(string, string list) cn_db" where
  "demo_rec = snd (Evaluate (demo_ce False) 0 (Some demo_alert) demo_cn)"

definition demo_iso :: "(string, string list) cn_db" where
  "demo_iso = snd (Evaluate (demo_ce True) 0 (Some demo_alert) demo_cn)"

lemma demo_ce_ok [simp]: "ce_store (demo_ce b) = pg_containment" "ce_edge (demo_ce b) = Some (edge_responder demo_edge)"
  by (simp_all add: demo_ce_def NewContainmentEngine_def)

lemma demo_cn_start: "cn_start demo_edge (demo_ce b, demo_cn)"
  by (auto simp: cn_start_def demo_cn_def inj_def dest: arg_cong [where f = length])

lemma demo_clock: "db_clock demo_cn = 0" by (simp add: demo_cn_def)

lemma demo_reach: "cn_step\<^sup>*\<^sup>* (demo_ce False, demo_cn) (demo_ce False, demo_rec)"
  "cn_step\<^sup>*\<^sup>* (demo_ce True, demo_cn) (demo_ce True, demo_iso)"
proof -
  have "Evaluate (demo_ce b) (db_clock demo_cn) (Some demo_alert) demo_cn =
      (fst (Evaluate (demo_ce b) 0 (Some demo_alert) demo_cn), snd (Evaluate (demo_ce b) 0 (Some demo_alert) demo_cn))" for b
    by (simp add: demo_clock)
  from cn_step.evaluate [OF this] show "cn_step\<^sup>*\<^sup>* (demo_ce False, demo_cn) (demo_ce False, demo_rec)"
    "cn_step\<^sup>*\<^sup>* (demo_ce True, demo_cn) (demo_ce True, demo_iso)"
    by (auto simp: demo_rec_def demo_iso_def)
qed

lemma demo_cn_inv: "cn_inv demo_cn" "cn_inv demo_rec" "cn_inv demo_iso"
  using cn_reach_ok [OF _ demo_cn_start, of False] cn_reach_ok [OF demo_reach(1) demo_cn_start]
    cn_reach_ok [OF demo_reach(2) demo_cn_start] cn_start_ok [OF demo_cn_start] by (simp_all add: cn_ok_def)

definition demo_c :: containment where "demo_c = hd (cn_view demo_rec)"
definition demo_k :: containment where "demo_k = hd (cn_view demo_iso)"

lemma demo_facts:
  "map c_AgentID (cn_view demo_rec) = [''web-1'']" "c_Status demo_c = ContainRecommended" "db_faults demo_rec = []"
  "map c_AgentID (cn_view demo_iso) = [''web-1'']" "c_Status demo_k = ContainContained" "db_faults demo_iso = []"
  "map c_ID (cn_view demo_iso) = [[]]"
  by code_simp+

lemma demo_in: "demo_c \<in> set (cn_view demo_rec)" "demo_k \<in> set (cn_view demo_iso)"
  using demo_facts(1,4) by (auto simp: demo_c_def demo_k_def)

lemma demo_active: "fst (pg_ActiveContainmentByAgent ''web-1'' demo_iso) = Inr (Some demo_k)"
  by code_simp


theorem containment_needs_authority_witness:
  "\<exists>g. may_contain (demo_ce True) demo_alert g \<and> length (cn_view demo_iso) = length (cn_view demo_cn) + 1"
proof -
  have "Evaluate (demo_ce True) 0 (Some demo_alert) demo_cn =
      (fst (Evaluate (demo_ce True) 0 (Some demo_alert) demo_cn), demo_iso)" by (simp add: demo_iso_def)
  from containment_needs_authority [OF demo_cn_inv(1) demo_ce_ok(1) disjI2 [OF demo_ce_ok(2)] this] demo_facts(4)
  show ?thesis by (auto simp: demo_cn_def cn_view_def)
qed

theorem approve_contains_witness:
  "\<exists>w'. ContainApprove (demo_ce False) 0 (c_ID demo_c) ''ann'' demo_rec = (Inr (), w') \<and>
     contained_in (c_AgentID demo_c) (cn_view w')"
  using approve_contains [OF demo_cn_inv(2) _ demo_ce_ok(1) disjI2 [OF demo_ce_ok(2)] demo_in(1) demo_facts(2)] demo_facts(3)
  by (simp add: cn_up_def)

theorem approve_keeps_decided_by_witness:
  "map c_DecidedBy (cn_view (snd (ContainApprove (demo_ce False) 0 (c_ID demo_c) ''ann'' demo_rec))) =
     map c_DecidedBy (cn_view demo_rec)"
  by (rule approve_keeps_decided_by [OF demo_cn_inv(2) demo_ce_ok(1) disjI2 [OF demo_ce_ok(2)] prod.collapse [symmetric]])

definition demo_rel :: "(cn_error + unit) \<times> (string, string list) cn_db" where
  "demo_rel = Release (demo_ce True) [] ''ann'' demo_iso"

lemma demo_rel_facts: "fst demo_rel = Inr ()" "fst (pg_ActiveContainmentByAgent ''web-1'' (snd demo_rel)) = Inr None"
  by code_simp+

theorem release_frees_agent_witness:
  "projr (fst (pg_ActiveContainmentByAgent (c_AgentID demo_k) (snd demo_rel))) = None"
proof (rule release_frees_agent [OF demo_cn_inv(3) demo_ce_ok(1) disjI2 [OF demo_ce_ok(2)] demo_in(2)])
  have "c_ID demo_k = []" using demo_facts(7) by (auto simp: demo_k_def)
  then show "Release (demo_ce True) (c_ID demo_k) ''ann'' demo_iso = (Inr (), snd demo_rel)"
    using demo_rel_facts(1) by (simp add: demo_rel_def prod_eq_iff)
  have "c_AgentID demo_k = ''web-1''" using demo_facts(4) by (auto simp: demo_k_def)
  then show "pg_ActiveContainmentByAgent (c_AgentID demo_k) (snd demo_rel) =
      (Inr (projr (fst (pg_ActiveContainmentByAgent (c_AgentID demo_k) (snd demo_rel)))),
       snd (pg_ActiveContainmentByAgent (c_AgentID demo_k) (snd demo_rel)))"
    using demo_rel_facts(2) by (simp add: prod_eq_iff)
qed

theorem sweep_releases_expired_witness:
  "fst (SweepExpired (demo_ce True) hour demo_iso) = Inr (count_rows (c_expired hour) (cn_view demo_iso)) \<and>
   \<not> list_ex (c_expired hour) (cn_view (snd (SweepExpired (demo_ce True) hour demo_iso)))"
  using sweep_releases_expired [OF demo_cn_inv(3) _ demo_ce_ok(1) disjI2 [OF demo_ce_ok(2)] prod.collapse [symmetric]] demo_facts(6)
  by (simp add: cn_up_def)

text \<open>
  An automatic containment blocks the host's address at the edge as the alert spells it; the
  release unblocks the text the database prints for it, which carries the mask: after a successful
  release the edge still blocks the host.
\<close>

theorem release_leaves_edge_block: "fst demo_rel = Inr () \<and> cn_fw (snd demo_rel) = [''10.0.0.5'']"
  by code_simp

end
