(* ===== verification/File_Actions.thy ===== *)
theory File_Actions
  imports Database
begin

text \<open>
  The work queue from the manager to its agents, the table \<^verbatim>\<open>agent_file_actions\<close>: the
  kill-switch statements of \<^verbatim>\<open>internal/store/killswitch.go\<close> and the delivery statements of
  \<^verbatim>\<open>internal/store/fimsnapshots.go\<close>. An action is delivered at most once, and a kill only
  after it was approved or requested automatically.
\<close>

section \<open>The table and its statements\<close>

record fa_row =
  q_id :: int
  q_agent_name :: string
  q_path :: string
  q_action :: string
  q_status :: string
  q_requested_by :: "string option"
  q_result :: "string option"
  q_created_at :: gotime
  q_delivered_at :: "gotime option"
  q_result_at :: "gotime option"
  q_version_sha256 :: "string option"
  q_pid :: "int option"
  q_proc_name :: "string option"
  q_proc_start :: "string option"

record fa_db = db +
  fa_rows :: "fa_row list"
  fa_next :: int

record file_action =
  fa_ID :: int
  fa_AgentName :: string
  fa_Path :: string
  fa_Action :: string
  fa_VersionSHA :: string
  fa_Status :: string
  fa_RequestedBy :: string
  fa_PID :: int
  fa_ProcName :: string
  fa_ProcStart :: string
  fa_Result :: string
  fa_CreatedAt :: gotime
  fa_ResultAt :: "gotime option"

datatype fa_error = FaArgs | FaUnknownAction | FaBadStatus | FaDb | FaNotFound

definition fa_new :: "string \<Rightarrow> string \<Rightarrow> string \<Rightarrow> string \<Rightarrow> fa_row" where
  "fa_new agentName path act by_user =
     \<lparr>q_id = 0, q_agent_name = agentName, q_path = path, q_action = act, q_status = ''requested'',
      q_requested_by = Some by_user, q_result = None, q_created_at = 0, q_delivered_at = None,
      q_result_at = None, q_version_sha256 = None, q_pid = None, q_proc_name = None, q_proc_start = None\<rparr>"

text \<open>
  \<^verbatim>\<open>INSERT ... SELECT ... WHERE NOT EXISTS (...)\<close>: the row gets the next serial number unless a
  row that counts as the same request is there.
\<close>

definition fa_insert ::
    "(fa_row \<Rightarrow> bool) \<Rightarrow> fa_row \<Rightarrow> fa_db \<Rightarrow> (fa_error + unit) \<times> fa_db" where
  "fa_insert dup r w =
     (case query w of
        (True, w1) \<Rightarrow> (Inl FaDb, w1)
      | (False, w1) \<Rightarrow>
          if list_ex dup (fa_rows w1) then (Inr (), w1)
          else (Inr (), w1\<lparr>fa_rows := fa_rows w1 @ [r\<lparr>q_id := fa_next w1, q_created_at := db_clock w1\<rparr>],
                           fa_next := fa_next w1 + 1\<rparr>))"

definition pending :: "fa_row \<Rightarrow> bool" where
  "pending r = (q_status r = ''requested'' \<or> q_status r = ''delivered'')"

definition RequestFileAction ::
    "string \<Rightarrow> string \<Rightarrow> string \<Rightarrow> string \<Rightarrow> fa_db \<Rightarrow> (fa_error + unit) \<times> fa_db" where
  "RequestFileAction agentName path act requestedBy w =
     (if agentName = [] \<or> path = [] then (Inl FaArgs, w)
      else if act \<noteq> ''snapshot_now'' \<and> act \<noteq> ''quarantine'' then (Inl FaUnknownAction, w)
      else fa_insert (\<lambda>r. q_agent_name r = agentName \<and> q_path r = path \<and> q_action r = act \<and> pending r)
             (fa_new agentName path act requestedBy) w)"

definition RequestRestoreVersion ::
    "string \<Rightarrow> string \<Rightarrow> string \<Rightarrow> string \<Rightarrow> fa_db \<Rightarrow> (fa_error + unit) \<times> fa_db" where
  "RequestRestoreVersion agentName path versionSHA requestedBy w =
     (if agentName = [] \<or> path = [] \<or> length versionSHA \<noteq> 64 then (Inl FaArgs, w)
      else fa_insert (\<lambda>r. q_agent_name r = agentName \<and> q_path r = path \<and> q_action r = ''restore_version'' \<and>
               q_version_sha256 r = Some versionSHA \<and> pending r)
             ((fa_new agentName path ''restore_version'' requestedBy)\<lparr>q_version_sha256 := Some versionSHA\<rparr>) w)"

text \<open>The \<^verbatim>\<open>pid\<close> column is a 32-bit integer; the driver refuses a larger value.\<close>

definition RecommendKill ::
    "string \<Rightarrow> int \<Rightarrow> string \<Rightarrow> string \<Rightarrow> string \<Rightarrow> string \<Rightarrow> string \<Rightarrow> bool \<Rightarrow>
     fa_db \<Rightarrow> (fa_error + unit) \<times> fa_db" where
  "RecommendKill agentName pid procName exe procStart reason requestedBy auto w =
     (if agentName = [] \<or> pid \<le> 0 then (Inl FaArgs, w)
      else if procStart = [] \<and> exe = [] then (Inl FaArgs, w)
      else if pid \<ge> 2 ^ 31 then (Inl FaDb, w)
      else fa_insert
             (\<lambda>r. q_agent_name r = agentName \<and> q_action r = ''kill_process'' \<and> q_pid r = Some pid \<and>
                  coalesce_str (q_proc_start r) = procStart \<and> (q_status r = ''recommended'' \<or> pending r))
             ((fa_new agentName exe ''kill_process'' requestedBy)
               \<lparr>q_status := (if auto then ''requested'' else ''recommended''), q_pid := Some pid,
                q_proc_name := Some procName, q_proc_start := Some procStart, q_result := Some reason\<rparr>) w)"

text \<open>\<^verbatim>\<open>UPDATE ... WHERE\<close> followed by the test of \<^verbatim>\<open>RowsAffected\<close>.\<close>

definition fa_update ::
    "(fa_row \<Rightarrow> bool) \<Rightarrow> (fa_row \<Rightarrow> fa_row) \<Rightarrow> fa_db \<Rightarrow> (fa_error + int) \<times> fa_db" where
  "fa_update p f w =
     (case query w of
        (True, w1) \<Rightarrow> (Inl FaDb, w1)
      | (False, w1) \<Rightarrow> (let (rs, n) = update_rows p f (fa_rows w1) in (Inr n, w1\<lparr>fa_rows := rs\<rparr>)))"

definition ApproveKill :: "int \<Rightarrow> string \<Rightarrow> fa_db \<Rightarrow> (fa_error + unit) \<times> fa_db" where
  "ApproveKill i approvedBy w =
     (case fa_update (\<lambda>r. q_id r = i \<and> q_action r = ''kill_process'' \<and> q_status r = ''recommended'')
             (\<lambda>r. r\<lparr>q_status := ''requested'', q_requested_by := Some approvedBy\<rparr>) w of
        (Inl e, w1) \<Rightarrow> (Inl e, w1)
      | (Inr n, w1) \<Rightarrow> if n = 0 then (Inl FaNotFound, w1) else (Inr (), w1))"

definition DismissKill :: "int \<Rightarrow> string \<Rightarrow> fa_db \<Rightarrow> (fa_error + unit) \<times> fa_db" where
  "DismissKill i by_user w =
     (case fa_update (\<lambda>r. q_id r = i \<and> q_action r = ''kill_process'' \<and> q_status r = ''recommended'')
             (\<lambda>r. r\<lparr>q_status := ''done'',
                     q_result := Some (''dismissed by '' @ (if by_user = [] then ''operator'' else by_user)),
                     q_result_at := Some (db_clock w)\<rparr>) w of
        (Inl e, w1) \<Rightarrow> (Inl e, w1)
      | (Inr n, w1) \<Rightarrow> if n = 0 then (Inl FaNotFound, w1) else (Inr (), w1))"

definition file_action_of :: "fa_row \<Rightarrow> file_action" where
  "file_action_of r =
     \<lparr>fa_ID = q_id r, fa_AgentName = q_agent_name r, fa_Path = q_path r, fa_Action = q_action r,
      fa_VersionSHA = coalesce_str (q_version_sha256 r), fa_Status = q_status r,
      fa_RequestedBy = coalesce_str (q_requested_by r),
      fa_PID = (case q_pid r of None \<Rightarrow> 0 | Some p \<Rightarrow> p), fa_ProcName = coalesce_str (q_proc_name r),
      fa_ProcStart = coalesce_str (q_proc_start r), fa_Result = coalesce_str (q_result r),
      fa_CreatedAt = q_created_at r, fa_ResultAt = q_result_at r\<rparr>"

text \<open>\<^verbatim>\<open>PendingFileActions\<close>: one statement marks the agent's requests delivered and returns them.\<close>

definition PendingFileActions :: "string \<Rightarrow> fa_db \<Rightarrow> (fa_error + file_action list) \<times> fa_db" where
  "PendingFileActions agentName w =
     (case query w of
        (True, w1) \<Rightarrow> (Inl FaDb, w1)
      | (False, w1) \<Rightarrow>
          let p = (\<lambda>r. q_agent_name r = agentName \<and> q_status r = ''requested'');
              f = (\<lambda>r. r\<lparr>q_status := ''delivered'', q_delivered_at := Some (db_clock w1)\<rparr>)
          in (Inr (map (\<lambda>r. file_action_of (f r)) (filter p (fa_rows w1))),
              w1\<lparr>fa_rows := fst (update_rows p f (fa_rows w1))\<rparr>))"

definition SetFileActionResult ::
    "int \<Rightarrow> string \<Rightarrow> string \<Rightarrow> fa_db \<Rightarrow> (fa_error + unit) \<times> fa_db" where
  "SetFileActionResult i st res w =
     (if st \<noteq> ''done'' \<and> st \<noteq> ''failed'' then (Inl FaBadStatus, w)
      else case fa_update (\<lambda>r. q_id r = i)
             (\<lambda>r. r\<lparr>q_status := st, q_result := Some res, q_result_at := Some (db_clock w)\<rparr>) w of
        (Inl e, w1) \<Rightarrow> (Inl e, w1)
      | (Inr n, w1) \<Rightarrow> (Inr (), w1))"

definition ListFileActions ::
    "string \<Rightarrow> string \<Rightarrow> int \<Rightarrow> fa_db \<Rightarrow> (fa_error + file_action list) \<times> fa_db" where
  "ListFileActions agentName path lim w =
     (let n = (if lim \<le> 0 \<or> lim > 100 then 25 else lim) in
      case query w of
        (True, w1) \<Rightarrow> (Inl FaDb, w1)
      | (False, w1) \<Rightarrow>
          (Inr (take (nat n) (map (\<lambda>r. (file_action_of r)\<lparr>fa_PID := 0, fa_ProcName := [], fa_ProcStart := []\<rparr>)
             (sort_key (\<lambda>r. - q_created_at r)
               (filter (\<lambda>r. q_agent_name r = agentName \<and> q_path r = path) (fa_rows w1))))), w1))"

record kill_request =
  kq_ID :: int
  kq_AgentName :: string
  kq_PID :: int
  kq_ProcName :: string
  kq_Exe :: string
  kq_ProcStart :: string
  kq_Status :: string
  kq_Reason :: string
  kq_RequestedBy :: string
  kq_Result :: string
  kq_CreatedAt :: gotime
  kq_ResultAt :: "gotime option"

definition kill_request_of :: "fa_row \<Rightarrow> kill_request" where
  "kill_request_of r =
     (let res = coalesce_str (q_result r);
          open_row = (q_status r = ''recommended'' \<or> pending r)
      in \<lparr>kq_ID = q_id r, kq_AgentName = q_agent_name r, kq_PID = (case q_pid r of None \<Rightarrow> 0 | Some p \<Rightarrow> p),
          kq_ProcName = coalesce_str (q_proc_name r), kq_Exe = q_path r,
          kq_ProcStart = coalesce_str (q_proc_start r), kq_Status = q_status r,
          kq_Reason = (if open_row then res else []), kq_RequestedBy = coalesce_str (q_requested_by r),
          kq_Result = (if open_row then [] else res), kq_CreatedAt = q_created_at r, kq_ResultAt = q_result_at r\<rparr>)"

definition ListKillRequests :: "bool \<Rightarrow> int \<Rightarrow> fa_db \<Rightarrow> (fa_error + kill_request list) \<times> fa_db" where
  "ListKillRequests pendingOnly lim w =
     (let n = (if lim \<le> 0 \<or> lim > 200 then 50 else lim) in
      case query w of
        (True, w1) \<Rightarrow> (Inl FaDb, w1)
      | (False, w1) \<Rightarrow>
          (Inr (take (nat n) (map kill_request_of (sort_key (\<lambda>r. - q_created_at r)
             (filter (\<lambda>r. q_action r = ''kill_process'' \<and> (pendingOnly \<longrightarrow> q_status r = ''recommended''))
               (fa_rows w1))))), w1))"

section \<open>Runs of the queue\<close>

text \<open>
  A run carries two ghost components: what was handed to agents so far, and the identifiers of kills
  that were approved by an operator or requested automatically.
\<close>

type_synonym fa_state = "fa_db \<times> file_action list \<times> int list"

inductive fa_step :: "fa_state \<Rightarrow> fa_state \<Rightarrow> bool" where
  request: "RequestFileAction g path act u w = (r, w') \<Longrightarrow> fa_step (w, d, a) (w', d, a)"
| restore: "RequestRestoreVersion g path sha u w = (r, w') \<Longrightarrow> fa_step (w, d, a) (w', d, a)"
| recommend: "RecommendKill g pid nm exe start why u auto w = (r, w') \<Longrightarrow>
    fa_step (w, d, a) (w', d, if auto \<and> fa_next w' \<noteq> fa_next w then fa_next w # a else a)"
| approve: "ApproveKill i u w = (Inr x, w') \<Longrightarrow> fa_step (w, d, a) (w', d, i # a)"
| approve_error: "ApproveKill i u w = (Inl e, w') \<Longrightarrow> fa_step (w, d, a) (w', d, a)"
| dismiss: "DismissKill i u w = (r, w') \<Longrightarrow> fa_step (w, d, a) (w', d, a)"
| poll: "PendingFileActions g w = (Inr xs, w') \<Longrightarrow> fa_step (w, d, a) (w', d @ xs, a)"
| poll_error: "PendingFileActions g w = (Inl e, w') \<Longrightarrow> fa_step (w, d, a) (w', d, a)"
| outcome: "SetFileActionResult i st res w = (r, w') \<Longrightarrow> fa_step (w, d, a) (w', d, a)"
| world: "fa_step (w, d, a) (w\<lparr>db_clock := t, db_faults := fs\<rparr>, d, a)"

definition live :: "fa_row \<Rightarrow> bool" where
  "live r = (q_status r = ''recommended'' \<or> q_status r = ''requested'')"

definition sanctioned :: "int list \<Rightarrow> fa_row \<Rightarrow> bool" where
  "sanctioned a r = (q_action r = ''kill_process'' \<longrightarrow> q_status r = ''requested'' \<longrightarrow> q_id r \<in> set a)"

definition fa_ok :: "fa_row list \<Rightarrow> int \<Rightarrow> file_action list \<Rightarrow> int list \<Rightarrow> bool" where
  "fa_ok rs nx d a = (distinct (map q_id rs) \<and> (\<forall>r \<in> set rs. q_id r < nx) \<and> (\<forall>x \<in> set d. fa_ID x < nx) \<and>
     distinct (map fa_ID d) \<and> (\<forall>r \<in> set rs. live r \<longrightarrow> q_id r \<notin> fa_ID ` set d) \<and>
     (\<forall>r \<in> set rs. sanctioned a r) \<and>
     (\<forall>x \<in> set d. fa_Action x = ''kill_process'' \<longrightarrow> fa_ID x \<in> set a))"

definition fa_inv :: "fa_state \<Rightarrow> bool" where
  "fa_inv s = (case s of (w, d, a) \<Rightarrow> fa_ok (fa_rows w) (fa_next w) d a)"

lemma query_fa [simp]:
  assumes "query w = (b, w')"
  shows "fa_rows w' = fa_rows w" "fa_next w' = fa_next w"
  using assms by (auto simp: query_def split: list.splits)

lemma fa_ok_more:
  assumes "fa_ok rs nx d a" "set a \<subseteq> set b"
  shows "fa_ok rs nx d b"
  using assms unfolding fa_ok_def sanctioned_def by (meson subsetD)

lemma fa_ok_insert:
  assumes "fa_ok rs nx d a" "q_id r = nx" "set a \<subseteq> set b" "sanctioned b r"
  shows "fa_ok (rs @ [r]) (nx + 1) d b"
proof -
  from fa_ok_more [OF assms(1,3)] have ok: "fa_ok rs nx d b" .
  then have "nx \<notin> q_id ` set rs" "nx \<notin> fa_ID ` set d" by (auto simp: fa_ok_def)
  moreover have "\<forall>r \<in> set rs. q_id r < nx + 1" "\<forall>x \<in> set d. fa_ID x < nx + 1"
    using ok by (auto simp: fa_ok_def intro: less_trans)
  ultimately show ?thesis using ok assms(2,4) by (auto simp: fa_ok_def)
qed

lemma fa_ok_update:
  assumes ok: "fa_ok rs nx d a" and sub: "set a \<subseteq> set b"
    and keep: "\<And>r. q_id (f r) = q_id r"
    and f: "\<And>r. r \<in> set rs \<Longrightarrow> p r \<Longrightarrow> (live (f r) \<longrightarrow> live r) \<and> sanctioned b (f r)"
  shows "fa_ok (map (\<lambda>r. if p r then f r else r) rs) nx d b"
proof -
  from fa_ok_more [OF ok sub] have ok: "fa_ok rs nx d b" .
  let ?g = "\<lambda>r. if p r then f r else r"
  have ids: "map q_id (map ?g rs) = map q_id rs" using keep by simp
  have g: "(live (?g r) \<longrightarrow> live r) \<and> sanctioned b (?g r)" if "r \<in> set rs" for r
    using f [OF that] ok that by (auto simp: fa_ok_def)
  have row: "q_id r < nx \<and> (live r \<longrightarrow> q_id r \<notin> fa_ID ` set d) \<and> sanctioned b r" if "r \<in> set (map ?g rs)" for r
  proof -
    from that obtain x where x: "x \<in> set rs" "r = ?g x" unfolding set_map by blast
    have "q_id r = q_id x" using x(2) keep by simp
    with g [OF x(1)] x ok show ?thesis by (auto simp: fa_ok_def)
  qed
  have "distinct (map q_id (map ?g rs))" using ok unfolding ids fa_ok_def by blast
  with row ok show ?thesis unfolding fa_ok_def by blast
qed

lemma fa_insert_ok:
  assumes ok: "fa_ok (fa_rows w) (fa_next w) d a" and ins: "fa_insert dup r w = (x, w')"
    and sub: "set a \<subseteq> set b" and s: "fa_next w' \<noteq> fa_next w \<Longrightarrow> sanctioned b (r\<lparr>q_id := fa_next w, q_created_at := db_clock w\<rparr>)"
  shows "fa_ok (fa_rows w') (fa_next w') d b"
proof -
  obtain c w1 where q: "query w = (c, w1)" by (cases "query w")
  show ?thesis
  proof (cases "c \<or> list_ex dup (fa_rows w)")
    case True
    with ins q have "w' = w1" by (auto simp: fa_insert_def split: bool.splits if_splits)
    with fa_ok_more [OF ok sub] q show ?thesis by simp
  next
    case False
    let ?r = "r\<lparr>q_id := fa_next w, q_created_at := db_clock w\<rparr>"
    from False ins q have w': "fa_rows w' = fa_rows w @ [?r]" "fa_next w' = fa_next w + 1"
      by (auto simp: fa_insert_def)
    with s have "sanctioned b ?r" by simp
    with fa_ok_insert [OF ok _ sub] w' show ?thesis by simp
  qed
qed

lemma fa_update_ok:
  assumes ok: "fa_ok (fa_rows w) (fa_next w) d a" and up: "fa_update p f w = (x, w')"
    and sub: "set a \<subseteq> set b" and keep: "\<And>r. q_id (f r) = q_id r"
    and f: "\<And>r. r \<in> set (fa_rows w) \<Longrightarrow> p r \<Longrightarrow> (live (f r) \<longrightarrow> live r) \<and> sanctioned b (f r)"
  shows "fa_ok (fa_rows w') (fa_next w') d b"
proof -
  obtain c w1 where q: "query w = (c, w1)" by (cases "query w")
  show ?thesis
  proof (cases c)
    case True
    with up q have "w' = w1" by (simp add: fa_update_def)
    with fa_ok_more [OF ok sub] q show ?thesis by simp
  next
    case False
    with up q have "fa_rows w' = map (\<lambda>r. if p r then f r else r) (fa_rows w)" "fa_next w' = fa_next w"
      by (auto simp: fa_update_def update_rows_def)
    with fa_ok_update [OF ok sub keep f] show ?thesis by simp
  qed
qed

lemma fa_update_none:
  assumes "fa_update p f w = (x, w')" "x = Inr 0 \<or> x = Inl e"
  shows "fa_rows w' = fa_rows w \<and> fa_next w' = fa_next w"
proof -
  obtain c w1 where q: "query w = (c, w1)" by (cases "query w")
  have "map (\<lambda>r. if p r then f r else r) (fa_rows w) = fa_rows w" if "count_rows p (fa_rows w) = 0"
    using that by (auto simp: count_rows_zero intro!: map_idI)
  with q assms show ?thesis by (cases c) (auto simp: fa_update_def update_rows_def)
qed

lemma fa_poll_ok:
  assumes ok: "fa_ok (fa_rows w) (fa_next w) d a" and po: "PendingFileActions g w = (Inr xs, w')"
  shows "fa_ok (fa_rows w') (fa_next w') (d @ xs) a"
proof -
  obtain w1 where q: "query w = (False, w1)"
    using po by (auto simp: PendingFileActions_def split: prod.splits bool.splits)
  let ?p = "\<lambda>r. q_agent_name r = g \<and> q_status r = ''requested''"
  let ?f = "\<lambda>r. r\<lparr>q_status := ''delivered'', q_delivered_at := Some (db_clock w)\<rparr>"
  let ?rs = "fa_rows w"
  have xs: "xs = map (\<lambda>r. file_action_of (?f r)) (filter ?p ?rs)"
    and rs: "fa_rows w' = map (\<lambda>r. if ?p r then ?f r else r) ?rs" and nx: "fa_next w' = fa_next w"
    using po q by (auto simp: PendingFileActions_def update_rows_def)
  have ids: "map fa_ID xs = map q_id (filter ?p ?rs)" by (simp add: xs file_action_of_def)
  have set_ids: "fa_ID ` set xs = q_id ` set (filter ?p ?rs)" using ids by (metis set_map)
  have upd: "fa_ok (fa_rows w') (fa_next w') d a"
    unfolding rs nx by (rule fa_ok_update [OF ok]) (auto simp: live_def sanctioned_def)
  have fresh: "q_id r \<notin> fa_ID ` set xs" if r: "r \<in> set (fa_rows w')" "live r" for r
  proof
    assume "q_id r \<in> fa_ID ` set xs"
    then obtain y where y: "y \<in> set ?rs" "?p y" "q_id y = q_id r" unfolding set_ids by auto
    from r obtain z where z: "z \<in> set ?rs" "r = (if ?p z then ?f z else z)" unfolding rs by auto
    then have zr: "q_id z = q_id r" by (auto split: if_splits)
    from ok have "inj_on q_id (set ?rs)" by (simp add: fa_ok_def distinct_map)
    from inj_onD [OF this _ z(1) y(1)] y(3) zr have "z = y" by simp
    with y(2) z(2) r(2) show False by (simp add: live_def)
  qed
  have dist: "distinct (map fa_ID (d @ xs))"
  proof -
    have "distinct (map q_id (filter ?p ?rs))" using ok by (simp add: fa_ok_def distinct_map_filter)
    moreover have "fa_ID ` set xs \<inter> fa_ID ` set d = {}"
    proof -
      have "q_id r \<notin> fa_ID ` set d" if "r \<in> set (filter ?p ?rs)" for r using that ok by (simp add: fa_ok_def live_def)
      then show ?thesis unfolding set_ids by blast
    qed
    moreover have "distinct (map fa_ID d)" using ok by (simp add: fa_ok_def)
    ultimately show ?thesis unfolding map_append distinct_append ids set_map set_ids by blast
  qed
  have lt: "fa_ID x < fa_next w" if "x \<in> set xs" for x
  proof -
    have "fa_ID x \<in> q_id ` set (filter ?p ?rs)" using that set_ids by blast
    with ok show ?thesis by (auto simp: fa_ok_def)
  qed
  have kill: "fa_ID x \<in> set a" if "x \<in> set xs" "fa_Action x = ''kill_process''" for x
  proof -
    from that(1) obtain r where r: "r \<in> set ?rs" "?p r" "x = file_action_of (?f r)" unfolding xs by auto
    with ok have "sanctioned a r" by (simp add: fa_ok_def)
    with r that(2) show ?thesis by (simp add: sanctioned_def file_action_of_def)
  qed
  show ?thesis unfolding fa_ok_def
  proof (intro conjI)
    show "distinct (map q_id (fa_rows w'))" "\<forall>r \<in> set (fa_rows w'). q_id r < fa_next w'"
      "\<forall>r \<in> set (fa_rows w'). sanctioned a r" using upd by (simp_all add: fa_ok_def)
    show "\<forall>x \<in> set (d @ xs). fa_ID x < fa_next w'" using upd lt nx by (auto simp: fa_ok_def)
    show "\<forall>r \<in> set (fa_rows w'). live r \<longrightarrow> q_id r \<notin> fa_ID ` set (d @ xs)"
      using upd fresh unfolding fa_ok_def set_append image_Un by blast
    show "\<forall>x \<in> set (d @ xs). fa_Action x = ''kill_process'' \<longrightarrow> fa_ID x \<in> set a"
      using upd kill unfolding fa_ok_def set_append by blast
  qed (rule dist)
qed

lemma fa_step_inv:
  assumes "fa_step s s'" "fa_inv s"
  shows "fa_inv s'"
  using assms
proof (induction rule: fa_step.induct)
  case (request g path act u w r w' d a)
  then have "w' = w \<or> (\<exists>dup x. fa_insert dup (fa_new g path act u) w = (x, w') \<and> act \<noteq> ''kill_process'')"
    by (auto simp: RequestFileAction_def split: if_splits)
  with request show ?case
    by (auto simp: fa_inv_def fa_new_def sanctioned_def elim!: fa_insert_ok [where b = a])
next
  case (restore g path sha u w r w' d a)
  then have "w' = w \<or> (\<exists>dup x. fa_insert dup ((fa_new g path ''restore_version'' u)\<lparr>q_version_sha256 := Some sha\<rparr>) w = (x, w'))"
    by (auto simp: RequestRestoreVersion_def split: if_splits)
  with restore show ?case
    by (auto simp: fa_inv_def fa_new_def sanctioned_def elim!: fa_insert_ok [where b = a])
next
  case (recommend g pid nm exe start why u auto w r w' d a)
  let ?r = "(fa_new g exe ''kill_process'' u)\<lparr>q_status := (if auto then ''requested'' else ''recommended''), q_pid := Some pid,
      q_proc_name := Some nm, q_proc_start := Some start, q_result := Some why\<rparr>"
  let ?b = "if auto \<and> fa_next w' \<noteq> fa_next w then fa_next w # a else a"
  from recommend(1) have "w' = w \<or> (\<exists>dup x. fa_insert dup ?r w = (x, w'))"
    by (auto simp: RecommendKill_def split: if_splits)
  then show ?case
  proof (elim disjE exE)
    assume "w' = w"
    with recommend(2) show ?thesis by (simp add: fa_inv_def)
  next
    fix dup x assume ins: "fa_insert dup ?r w = (x, w')"
    have "fa_ok (fa_rows w') (fa_next w') d ?b"
      by (rule fa_insert_ok [OF _ ins]) (use recommend(2) in \<open>auto simp: fa_inv_def sanctioned_def\<close>)
    then show ?thesis by (simp add: fa_inv_def)
  qed
next
  case (approve i u w x w' d a)
  then obtain y where "fa_update (\<lambda>r. q_id r = i \<and> q_action r = ''kill_process'' \<and> q_status r = ''recommended'')
      (\<lambda>r. r\<lparr>q_status := ''requested'', q_requested_by := Some u\<rparr>) w = (y, w')"
    by (auto simp: ApproveKill_def split: prod.splits sum.splits if_splits)
  from fa_update_ok [OF _ this, of d a "i # a"] approve(2) show ?case
    by (auto simp: fa_inv_def live_def sanctioned_def)
next
  case (approve_error i u w e w' d a)
  then have "fa_rows w' = fa_rows w \<and> fa_next w' = fa_next w"
    by (auto simp: ApproveKill_def split: prod.splits sum.splits if_splits dest: fa_update_none)
  with approve_error show ?case by (simp add: fa_inv_def)
next
  case (dismiss i u w r w' d a)
  then obtain y where "fa_update (\<lambda>r. q_id r = i \<and> q_action r = ''kill_process'' \<and> q_status r = ''recommended'')
      (\<lambda>r. r\<lparr>q_status := ''done'', q_result := Some (''dismissed by '' @ (if u = [] then ''operator'' else u)),
         q_result_at := Some (db_clock w)\<rparr>) w = (y, w')"
    by (auto simp: DismissKill_def split: prod.splits sum.splits if_splits)
  from fa_update_ok [OF _ this, of d a a] dismiss(2) show ?case by (auto simp: fa_inv_def live_def sanctioned_def)
next
  case (poll g w xs w' d a)
  then show ?case using fa_poll_ok by (simp add: fa_inv_def)
next
  case (poll_error g w e w' d a)
  then have "fa_rows w' = fa_rows w \<and> fa_next w' = fa_next w"
    by (auto simp: PendingFileActions_def Let_def split: prod.splits bool.splits)
  with poll_error show ?case by (simp add: fa_inv_def)
next
  case (outcome i st res w r w' d a)
  then consider "w' = w" | y where "st = ''done'' \<or> st = ''failed''" "fa_update (\<lambda>r. q_id r = i)
      (\<lambda>r. r\<lparr>q_status := st, q_result := Some res, q_result_at := Some (db_clock w)\<rparr>) w = (y, w')"
    by (auto simp: SetFileActionResult_def split: prod.splits sum.splits if_splits)
  then show ?case
  proof cases
    case 1
    with outcome show ?thesis by (simp add: fa_inv_def)
  next
    case 2
    from fa_update_ok [OF _ 2(2), of d a a] outcome(2) 2(1) show ?thesis
      by (auto simp: fa_inv_def live_def sanctioned_def)
  qed
next
  case (world w d a t fs)
  then show ?case by (simp add: fa_inv_def)
qed

text \<open>
  C5: In every run of the queue from an empty table, with any faults and any outcomes reported by
  agents, an action is handed to its agent at most once, and a process kill is handed out only if an
  operator approved it or the manager requested it automatically.
\<close>

theorem delivered_once_and_sanctioned:
  assumes "fa_step\<^sup>*\<^sup>* (w0, [], []) (w, d, a)" "fa_rows w0 = []"
  shows "distinct (map fa_ID d) \<and> (\<forall>x \<in> set d. fa_Action x = ''kill_process'' \<longrightarrow> fa_ID x \<in> set a)"
proof -
  have "fa_inv (w, d, a)" using assms(1)
  proof (induction rule: rtranclp_induct)
    case base
    then show ?case using assms(2) by (simp add: fa_inv_def fa_ok_def)
  next
    case (step s s')
    then show ?case using fa_step_inv by blast
  qed
  then show ?thesis by (simp add: fa_inv_def fa_ok_def)
qed

definition demo_fa :: fa_db where
  "demo_fa = \<lparr>db_faults = [], db_clock = 0, db_uuid = (\<lambda>n. replicate n CHR ''x''), db_seq = 0, fa_rows = [], fa_next = 1\<rparr>"

definition demo_fa1 :: fa_db where
  "demo_fa1 = snd (RecommendKill ''web-1'' 4242 ''evil'' ''/tmp/evil'' ''77'' ''encrypted'' ''deuswatch-detection'' False demo_fa)"
definition demo_fa2 :: fa_db where "demo_fa2 = snd (ApproveKill 1 ''ann'' demo_fa1)"
definition demo_fa3 :: "(fa_error + file_action list) \<times> fa_db" where "demo_fa3 = PendingFileActions ''web-1'' demo_fa2"

lemma demo_fa_facts:
  "fst (ApproveKill 1 ''ann'' demo_fa1) = Inr ()" "map fa_ID (projr (fst demo_fa3)) = [1]"
  "map fa_Action (projr (fst demo_fa3)) = [''kill_process'']"
  "(case fst demo_fa3 of Inl _ \<Rightarrow> False | Inr _ \<Rightarrow> True)"
  by code_simp+

theorem delivered_once_and_sanctioned_witness:
  "distinct (map fa_ID (projr (fst demo_fa3))) \<and> fa_Action (hd (projr (fst demo_fa3))) = ''kill_process'' \<and>
   fa_ID (hd (projr (fst demo_fa3))) \<in> set [1]"
proof -
  let ?d = "projr (fst demo_fa3)"
  have "RecommendKill ''web-1'' 4242 ''evil'' ''/tmp/evil'' ''77'' ''encrypted'' ''deuswatch-detection'' False demo_fa =
      (fst (RecommendKill ''web-1'' 4242 ''evil'' ''/tmp/evil'' ''77'' ''encrypted'' ''deuswatch-detection'' False demo_fa), demo_fa1)"
    by (simp only: demo_fa1_def prod.collapse)
  from fa_step.recommend [OF this, of "[]" "[]"] have 1: "fa_step (demo_fa, [], []) (demo_fa1, [], [])"
    by (simp only: simp_thms if_False)
  have 2: "fa_step (demo_fa1, [], []) (demo_fa2, [], [1])"
    by (rule fa_step.approve [where u = "''ann''" and x = "()"]) (simp add: demo_fa2_def prod_eq_iff demo_fa_facts(1))
  have "PendingFileActions ''web-1'' demo_fa2 = (Inr ?d, snd demo_fa3)"
    using demo_fa_facts(4) by (simp add: demo_fa3_def prod_eq_iff split: sum.splits)
  from fa_step.poll [OF this, of "[]" "[1]"] have "fa_step\<^sup>*\<^sup>* (demo_fa, [], []) (snd demo_fa3, ?d, [1])"
    using 1 2 by (auto intro: rtranclp.rtrancl_into_rtrancl)
  from delivered_once_and_sanctioned [OF this]
  have "distinct (map fa_ID ?d)" "\<forall>x \<in> set ?d. fa_Action x = ''kill_process'' \<longrightarrow> fa_ID x \<in> set [1]"
    by (simp_all add: demo_fa_def)
  with demo_fa_facts(3) show ?thesis by auto
qed

text \<open>
  Approving is one-shot: right after an approval, dismissal or delivery of a row, approving it
  again is refused and changes no row.
\<close>

theorem approve_kill_once:
  assumes "ApproveKill i u w = (Inr x, w')" "db_faults w' = []"
  shows "ApproveKill i v w' = (Inl FaNotFound, w') \<and>
    (\<forall>r \<in> set (fa_rows w'). q_id r = i \<longrightarrow> q_action r = ''kill_process'' \<longrightarrow> q_status r \<noteq> ''recommended'')"
proof -
  let ?p = "\<lambda>r. q_id r = i \<and> q_action r = ''kill_process'' \<and> q_status r = ''recommended''"
  let ?f = "\<lambda>r. r\<lparr>q_status := ''requested'', q_requested_by := Some u\<rparr>"
  obtain b w1 where q: "query w = (b, w1)" by (cases "query w")
  with assms(1) have w': "fa_rows w' = map (\<lambda>r. if ?p r then ?f r else r) (fa_rows w)"
    by (auto simp: ApproveKill_def fa_update_def update_rows_def split: bool.splits if_splits)
  have none: "\<not> ?p r" if r: "r \<in> set (fa_rows w')" for r
  proof
    assume p: "?p r"
    from r obtain z where "r = (if ?p z then ?f z else z)" unfolding w' set_map by blast
    with p show False by (cases "?p z") auto
  qed
  then have "map (\<lambda>r. if ?p r then r\<lparr>q_status := ''requested'', q_requested_by := Some v\<rparr> else r) (fa_rows w') = fa_rows w'"
    by (intro map_idI if_not_P none)
  moreover have "count_rows ?p (fa_rows w') = 0" using none unfolding count_rows_zero by blast
  ultimately have "ApproveKill i v w' = (Inl FaNotFound, w')"
    using assms(2) by (simp add: ApproveKill_def fa_update_def update_rows_def)
  with none show ?thesis by blast
qed

theorem approve_kill_once_witness: "ApproveKill 1 ''bob'' demo_fa2 = (Inl FaNotFound, demo_fa2)"
proof -
  have "ApproveKill 1 ''ann'' demo_fa1 = (Inr (), demo_fa2)"
    by (simp add: demo_fa2_def prod_eq_iff demo_fa_facts(1))
  moreover have "db_faults demo_fa2 = []" by code_simp
  ultimately show ?thesis using approve_kill_once [of 1 "''ann''" demo_fa1 "()" demo_fa2 "''bob''"] by simp
qed

end
