(* ===== verification/Kill_Switch.thy ===== *)
theory Kill_Switch
  imports Events Go_Net File_Actions
begin

text \<open>
  The ransomware kill-switch of \<^verbatim>\<open>internal/respond/killswitch.go\<close> and its policy,
  \<^verbatim>\<open>internal/respond/kill_policy.go\<close>: which alerts deserve a kill, when it may run without a
  human, the guard rails and the sliding-window rate limit.
\<close>

section \<open>Policy\<close>

record kill_policy =
  kp_AutoApprove :: bool
  kp_Whitelist :: "string list"
  kp_RateLimitPerMin :: int

definition DefaultKillPolicy :: kill_policy where
  "DefaultKillPolicy =
     \<lparr>kp_AutoApprove = False,
      kp_Whitelist =
        [''systemd'', ''init'', ''sshd'', ''dockerd'', ''containerd'',
         ''postgres'', ''mysqld'', ''nginx'', ''apache2'', ''nats-server'',
         ''deuswatch-agent'', ''deuswatch-worker'', ''deuswatch-api'', ''deuswatch-gateway''],
      kp_RateLimitPerMin = 3\<rparr>"

text \<open>The loop of \<^verbatim>\<open>normaliseWhitelist\<close>: the entries kept so far are the ones seen.\<close>

fun normalise_loop :: "string list \<Rightarrow> string list \<Rightarrow> string list" where
  "normalise_loop out [] = out"
| "normalise_loop out (x # xs) =
     (let s = to_lower (trim_space x)
      in if s = [] \<or> s \<in> set out then normalise_loop out xs else normalise_loop (out @ [s]) xs)"

definition normaliseWhitelist :: "string list \<Rightarrow> string list" where
  "normaliseWhitelist xs = sort (normalise_loop [] xs)"

text \<open>
  The singleton row of \<^verbatim>\<open>kill_policy\<close>; \<open>None\<close> is a missing row or a missing table, which
  \<^verbatim>\<open>LoadKillPolicy\<close> answers with the default.
\<close>

record kp_db = db +
  kp_row :: "kill_policy option"

datatype kp_error = KpEmptyWhitelist | KpRate int | KpDb

definition LoadKillPolicy :: "kp_db \<Rightarrow> (kp_error option \<times> kill_policy) \<times> kp_db" where
  "LoadKillPolicy w =
     (case query w of
        (True, w1) \<Rightarrow> ((Some KpDb, DefaultKillPolicy), w1)
      | (False, w1) \<Rightarrow>
          (case kp_row w1 of
             None \<Rightarrow> ((None, DefaultKillPolicy), w1)
           | Some p \<Rightarrow> ((None, p), w1)))"

definition SaveKillPolicy :: "kill_policy \<Rightarrow> kp_db \<Rightarrow> (kp_error + unit) \<times> kp_db" where
  "SaveKillPolicy p w =
     (let wl = normaliseWhitelist (kp_Whitelist p) in
      if wl = [] then (Inl KpEmptyWhitelist, w)
      else if kp_RateLimitPerMin p < 1 \<or> kp_RateLimitPerMin p > 60 then (Inl (KpRate (kp_RateLimitPerMin p)), w)
      else case query w of
         (True, w1) \<Rightarrow> (Inl KpDb, w1)
       | (False, w1) \<Rightarrow> (Inr (), w1\<lparr>kp_row := Some (p\<lparr>kp_Whitelist := wl\<rparr>)\<rparr>))"

section \<open>Classification\<close>

datatype trigger = TriggerRansomware | TriggerYARA | TriggerKnownBad | TriggerRansomRule

fun trigger_string :: "trigger \<Rightarrow> string" where
  "trigger_string TriggerRansomware = ''ransomware''"
| "trigger_string TriggerYARA = ''yara''"
| "trigger_string TriggerKnownBad = ''filehash''"
| "trigger_string TriggerRansomRule = ''ransom_rule''"

definition knownBadVendorFloor :: int where "knownBadVendorFloor = 10"

fun parse_leading :: "int \<Rightarrow> bool \<Rightarrow> string \<Rightarrow> int \<times> bool" where
  "parse_leading n seen [] = (n, seen)"
| "parse_leading n seen (c # cs) =
     (if \<not> is_digit c then (n, seen)
      else parse_leading (wrap64 (n * 10 + int (digit_val c))) True cs)"

definition parseLeadingInt :: "string \<Rightarrow> int \<times> bool" where
  "parseLeadingInt s = parse_leading 0 False s"

text \<open>\<open>None\<close> is \<^verbatim>\<open>worthy=false\<close>; otherwise the trigger, whether it may run by itself, and the reason.\<close>

definition killWorthy :: "event option \<Rightarrow> (trigger \<times> bool \<times> string) option" where
  "killWorthy alert =
     (case alert of
        None \<Rightarrow> None
      | Some ev \<Rightarrow>
     let dw = ev_DeusWatch ev; detail = fr_Detail (dw_FileHash dw) in
     if ef_Action (ev_Event ev) = ''file_encrypted'' then
       Some (TriggerRansomware, True,
         ''encrypted '' @ (case ev_File ev of Some f \<Rightarrow> file_Path f | None \<Rightarrow> []) @
         '' (entropy jump measured on the host)'')
     else if dw_Label dw = ''yara_malicious'' then
       Some (TriggerYARA, True, ''YARA rule match on file content, '' @ detail)
     else if fr_Verdict (dw_FileHash dw) = ''known_bad'' then
       (case parseLeadingInt detail of
          (n, ok) \<Rightarrow>
            if ok \<and> n \<ge> knownBadVendorFloor then
              Some (TriggerKnownBad, True, ''file hash flagged by '' @ go_itoa n @ '' vendors ('' @ detail @ '')'')
            else Some (TriggerKnownBad, False, ''file hash flagged as known-bad by reputation feed: '' @ detail))
     else
       (case (dw_Containment dw, ev_Rule ev) of
          (Some _, Some r) \<Rightarrow>
            if contains_str (to_lower (er_Name r)) ''ransomware'' then
              Some (TriggerRansomRule, True, ''ransomware rule authorised automated response: '' @ er_Name r)
            else None
        | _ \<Rightarrow> None))"

section \<open>The recommender\<close>

record 'w kill_recommender =
  kr_store :: "string \<Rightarrow> int \<Rightarrow> string \<Rightarrow> string \<Rightarrow> string \<Rightarrow> string \<Rightarrow> string \<Rightarrow> bool \<Rightarrow> 'w \<Rightarrow> (fa_error + unit) \<times> 'w"
  kr_envAuto :: bool
  kr_policy :: kill_policy
  kr_recent :: "string \<Rightarrow> gotime list"

definition NewKillRecommender ::
    "(string \<Rightarrow> int \<Rightarrow> string \<Rightarrow> string \<Rightarrow> string \<Rightarrow> string \<Rightarrow> string \<Rightarrow> bool \<Rightarrow> 'w \<Rightarrow> (fa_error + unit) \<times> 'w) \<Rightarrow>
     bool \<Rightarrow> 'w kill_recommender" where
  "NewKillRecommender st envAuto =
     \<lparr>kr_store = st, kr_envAuto = envAuto,
      kr_policy = (if envAuto then DefaultKillPolicy\<lparr>kp_AutoApprove := True\<rparr> else DefaultKillPolicy),
      kr_recent = (\<lambda>_. [])\<rparr>"

definition SetKillPolicy :: "'w kill_recommender \<Rightarrow> kill_policy \<Rightarrow> 'w kill_recommender" where
  "SetKillPolicy k p =
     (let p1 = (if kr_envAuto k then p\<lparr>kp_AutoApprove := True\<rparr> else p)
      in k\<lparr>kr_policy := p1\<lparr>kp_Whitelist := normaliseWhitelist (kp_Whitelist p1)\<rparr>\<rparr>)"

datatype guard = GuardPid int | GuardWhitelist string

definition blockedByGuardRails :: "int \<Rightarrow> string \<Rightarrow> string list \<Rightarrow> guard option" where
  "blockedByGuardRails pid procName whitelist =
     (if pid \<le> 100 then Some (GuardPid pid)
      else let n = to_lower (trim_space procName)
           in if n = [] then None
              else if n \<in> set whitelist then Some (GuardWhitelist procName) else None)"

definition allowRate ::
    "string \<Rightarrow> int \<Rightarrow> gotime \<Rightarrow> (string \<Rightarrow> gotime list) \<Rightarrow> bool \<times> (string \<Rightarrow> gotime list)" where
  "allowRate agentID maxPerMin t recent =
     (if maxPerMin \<le> 0 then (False, recent)
      else let kept = filter (\<lambda>x. x > t - minute) (recent agentID)
           in if int (length kept) \<ge> maxPerMin then (False, recent(agentID := kept))
              else (True, recent(agentID := kept @ [t])))"

text \<open>Whether the alert says which process on which agent it is about, and how to recognise it.\<close>

definition attribution :: "event \<Rightarrow> (event_process \<times> agent) option" where
  "attribution ev =
     (case ev_Process ev of
        None \<Rightarrow> None
      | Some p \<Rightarrow>
          if proc_PID p \<le> 0 then None
          else if proc_Start p = [] \<and> proc_CommandLine p = [] then None
          else (case ev_Agent ev of
                  None \<Rightarrow> None
                | Some g \<Rightarrow> if agent_ID g = [] then None else Some (p, g)))"

definition KillEvaluate ::
    "'w kill_recommender \<Rightarrow> gotime \<Rightarrow> event option \<Rightarrow> 'w \<Rightarrow> (fa_error + bool) \<times> 'w kill_recommender \<times> 'w" where
  "KillEvaluate k t alert w =
     (case (alert, killWorthy alert) of
        (Some ev, Some (trig, autoApprovable, reason)) \<Rightarrow>
          (case attribution ev of
             None \<Rightarrow> (Inr False, k, w)
           | Some (p, g) \<Rightarrow>
               let policy = kr_policy k;
                   (auto, recent') =
                     (if kp_AutoApprove policy \<and> autoApprovable \<and>
                         blockedByGuardRails (proc_PID p) (proc_Name p) (kp_Whitelist policy) = None
                      then allowRate (agent_ID g) (kp_RateLimitPerMin policy) t (kr_recent k)
                      else (False, kr_recent k));
                   k' = k\<lparr>kr_recent := recent'\<rparr>;
                   requestedBy = (if auto then ''auto:'' @ trigger_string trig else ''deuswatch-detection'');
                   reason1 = reason @ (if proc_Name p \<noteq> []
                      then '' - by '' @ proc_Name p @ '' (pid '' @ go_itoa (proc_PID p) @ '')'' else []);
                   reason2 = reason1 @ (case ev_User ev of
                      Some u \<Rightarrow> if eu_Name u \<noteq> [] then '' as '' @ eu_Name u else [] | None \<Rightarrow> [])
               in case kr_store k (agent_ID g) (proc_PID p) (proc_Name p) (proc_CommandLine p)
                         (proc_Start p) reason2 requestedBy auto w of
                    (Inl e, w') \<Rightarrow> (Inl e, k', w')
                  | (Inr _, w') \<Rightarrow> (Inr True, k', w'))
      | _ \<Rightarrow> (Inr False, k, w))"

section \<open>The whitelist\<close>

lemma normalise_loop_set:
  "set (normalise_loop out xs) = set out \<union> ((\<lambda>x. to_lower (trim_space x)) ` set xs - {[]})"
  by (induction xs arbitrary: out) (auto simp: Let_def)

lemma normalise_loop_distinct: "distinct out \<Longrightarrow> distinct (normalise_loop out xs)"
  by (induction xs arbitrary: out) (auto simp: Let_def)

lemma normalise_set: "set (normaliseWhitelist xs) = (\<lambda>x. to_lower (trim_space x)) ` set xs - {[]}"
  by (simp add: normaliseWhitelist_def normalise_loop_set)

lemma normalise_sorted: "sorted (normaliseWhitelist xs)" "distinct (normaliseWhitelist xs)"
  by (simp_all add: normaliseWhitelist_def normalise_loop_distinct)

lemma normalised_entry: "s \<in> set (normaliseWhitelist xs) \<Longrightarrow> to_lower (trim_space s) = s \<and> s \<noteq> []"
  by (auto simp: normalise_set trim_space_lower)

text \<open>
  A normalised whitelist is sorted and has no duplicates or empty names, it contains exactly the
  trimmed lower-case forms of the entries, and normalising again changes nothing.
\<close>

theorem normaliseWhitelist_canonical:
  "sorted (normaliseWhitelist xs) \<and> distinct (normaliseWhitelist xs) \<and>
   set (normaliseWhitelist xs) = (\<lambda>x. to_lower (trim_space x)) ` set xs - {[]} \<and>
   normaliseWhitelist (normaliseWhitelist xs) = normaliseWhitelist xs"
proof -
  have "set (normaliseWhitelist (normaliseWhitelist xs)) = set (normaliseWhitelist xs)"
    using normalised_entry [of _ xs] unfolding normalise_set [of "normaliseWhitelist xs"] by force
  then have "normaliseWhitelist (normaliseWhitelist xs) = normaliseWhitelist xs"
    by (intro sorted_distinct_set_unique normalise_sorted)
  then show ?thesis by (simp add: normalise_sorted normalise_set)
qed

lemma query_kp [simp]:
  assumes "query w = (b, w')"
  shows "kp_row w' = kp_row w"
  using assms by (auto simp: query_def split: list.splits)

text \<open>
  A policy that was saved is loaded with its whitelist normalised and not empty and its rate
  limit between 1 and 60; a policy that is refused changes nothing.
\<close>

theorem kill_policy_save_load:
  assumes "SaveKillPolicy p w = (r, w')" "db_faults w' = []"
  shows "case r of
      Inr _ \<Rightarrow> fst (LoadKillPolicy w') = (None, p\<lparr>kp_Whitelist := normaliseWhitelist (kp_Whitelist p)\<rparr>) \<and>
        normaliseWhitelist (kp_Whitelist p) \<noteq> [] \<and> 1 \<le> kp_RateLimitPerMin p \<and> kp_RateLimitPerMin p \<le> 60
    | Inl _ \<Rightarrow> kp_row w' = kp_row w"
  using assms by (auto simp: SaveKillPolicy_def LoadKillPolicy_def Let_def split: prod.splits bool.splits if_splits)

definition demo_kp :: kp_db where
  "demo_kp = \<lparr>db_faults = [], db_clock = 0, db_uuid = (\<lambda>n. replicate n CHR ''x''), db_seq = 0, kp_row = None\<rparr>"

theorem kill_policy_save_load_witness:
  "fst (LoadKillPolicy (snd (SaveKillPolicy DefaultKillPolicy demo_kp))) =
     (None, DefaultKillPolicy\<lparr>kp_Whitelist := normaliseWhitelist (kp_Whitelist DefaultKillPolicy)\<rparr>)"
proof -
  have "fst (SaveKillPolicy DefaultKillPolicy demo_kp) = Inr ()"
    "db_faults (snd (SaveKillPolicy DefaultKillPolicy demo_kp)) = []" by code_simp+
  then show ?thesis using kill_policy_save_load [of DefaultKillPolicy demo_kp "Inr ()"] by (simp add: prod_eq_iff)
qed

section \<open>The rate limit\<close>

text \<open>The kills granted by a sequence of requests, each with its agent and its time.\<close>

fun rate_run :: "int \<Rightarrow> (string \<times> gotime) list \<Rightarrow> (string \<Rightarrow> gotime list) \<Rightarrow> (string \<times> gotime) list" where
  "rate_run m [] recent = []"
| "rate_run m ((g, t) # xs) recent =
     (case allowRate g m t recent of (ok, recent') \<Rightarrow> (if ok then [(g, t)] else []) @ rate_run m xs recent')"

definition window_count :: "string \<Rightarrow> gotime \<Rightarrow> (string \<times> gotime) list \<Rightarrow> int" where
  "window_count g t xs = count_rows (\<lambda>(h, x). h = g \<and> t - minute < x \<and> x \<le> t) xs"

text \<open>
  What the limiter knows at time \<open>t\<close>: per agent, every earlier grant of the last minute is in its
  list, and no window ending earlier was exceeded.
\<close>

definition rate_inv :: "int \<Rightarrow> gotime \<Rightarrow> (string \<times> gotime) list \<Rightarrow> (string \<Rightarrow> gotime list) \<Rightarrow> bool" where
  "rate_inv m t granted recent =
     ((\<forall>(h, x) \<in> set granted. x \<le> t) \<and>
      (\<forall>g. filter (\<lambda>x. x > t - minute) (recent g) =
           filter (\<lambda>x. x > t - minute) (map snd (filter (\<lambda>(h, _). h = g) granted))) \<and>
      (\<forall>g u. window_count g u granted \<le> m))"

lemma filter_later: "t \<le> t' \<Longrightarrow> filter (\<lambda>x. x > t' - minute) xs = filter (\<lambda>x. x > t' - minute) (filter (\<lambda>x. x > t - minute) xs)"
  by (induction xs) auto

lemma window_filter:
  "window_count g u xs = int (length (filter (\<lambda>x. u - minute < x \<and> x \<le> u) (map snd (filter (\<lambda>(h, _). h = g) xs))))"
  unfolding window_count_def count_rows_def by (induction xs) auto

lemma length_filter_mono: "(\<And>x. p x \<Longrightarrow> q x) \<Longrightarrow> length (filter p xs) \<le> length (filter q xs)"
  by (induction xs) auto

lemma rate_inv_step:
  assumes inv: "rate_inv m t granted recent" and le: "t \<le> t'" and m: "0 \<le> m"
    and allow: "allowRate g m t' recent = (ok, recent')"
  shows "rate_inv m t' (granted @ (if ok then [(g, t')] else [])) recent'"
proof -
  let ?kept = "filter (\<lambda>x. x > t' - minute) (recent g)"
  let ?of = "\<lambda>h. map snd (filter (\<lambda>(h', _). h' = h) granted)"
  have old: "filter (\<lambda>x. x > t' - minute) (recent h) = filter (\<lambda>x. x > t' - minute) (?of h)" for h
  proof -
    have "filter (\<lambda>x. x > t' - minute) (recent h) = filter (\<lambda>x. x > t' - minute) (filter (\<lambda>x. x > t - minute) (recent h))"
      by (rule filter_later [OF le])
    also have "\<dots> = filter (\<lambda>x. x > t' - minute) (filter (\<lambda>x. x > t - minute) (?of h))"
      using inv by (simp only: rate_inv_def)
    also have "\<dots> = filter (\<lambda>x. x > t' - minute) (?of h)" by (rule filter_later [OF le, symmetric])
    finally show ?thesis .
  qed
  have before: "\<forall>(h, x) \<in> set granted. x \<le> t'" using inv le by (fastforce simp: rate_inv_def)
  show ?thesis
  proof (cases ok)
    case False
    have "filter (\<lambda>x. x > t' - minute) (recent' h) = filter (\<lambda>x. x > t' - minute) (recent h)" for h
      using False allow by (auto simp: allowRate_def Let_def split: if_splits)
    with False old before inv show ?thesis by (simp add: rate_inv_def)
  next
    case True
    then have k: "int (length ?kept) < m" "recent' = recent(g := ?kept @ [t'])"
      using allow by (auto simp: allowRate_def Let_def split: if_splits)
    have "filter (\<lambda>x. x > t' - minute) (recent' h) =
        filter (\<lambda>x. x > t' - minute) (map snd (filter (\<lambda>(h', _). h' = h) (granted @ [(g, t')])))" for h
      using old [of h] k(2) by (cases "h = g") (simp_all add: minute_def)
    moreover have "window_count h u (granted @ [(g, t')]) \<le> m" for h u
    proof (cases "h = g \<and> u - minute < t' \<and> t' \<le> u")
      case False
      then have "window_count h u (granted @ [(g, t')]) = window_count h u granted" by (auto simp: window_count_def)
      with inv show ?thesis by (simp add: rate_inv_def)
    next
      case True
      have "length (filter (\<lambda>x. u - minute < x \<and> x \<le> u) (?of g)) \<le> length (filter (\<lambda>x. x > t' - minute) (?of g))"
        by (rule length_filter_mono) (use True in auto)
      with k(1) old [of g] have "window_count g u granted + 1 \<le> m" unfolding window_filter by simp
      with True show ?thesis by (simp add: window_count_def)
    qed
    ultimately show ?thesis using True before by (simp add: rate_inv_def)
  qed
qed

lemma rate_run_inv:
  assumes "rate_inv m t granted recent" "sorted (t # map snd xs)" "0 \<le> m"
  shows "window_count g u (granted @ rate_run m xs recent) \<le> m"
  using assms
proof (induction xs arbitrary: t granted recent)
  case Nil
  then show ?case by (simp add: rate_inv_def)
next
  case (Cons x xs)
  obtain h t' where x: "x = (h, t')" by (cases x)
  obtain ok recent' where a: "allowRate h m t' recent = (ok, recent')" by (cases "allowRate h m t' recent")
  from Cons.prems(2) x have "t \<le> t'" "sorted (t' # map snd xs)" by simp_all
  from Cons.IH [OF rate_inv_step [OF Cons.prems(1) this(1) Cons.prems(3) a] this(2) Cons.prems(3)] x a
  show ?case by simp
qed

text \<open>
  C7: Over any sequence of requests in time order, starting from a fresh limiter, no agent is granted
  more automatic kills in any one-minute window than the policy's rate limit.
\<close>

theorem kill_rate_bounded:
  assumes "sorted (map snd xs)" "0 \<le> m"
  shows "window_count g u (rate_run m xs (\<lambda>_. [])) \<le> m"
proof (cases xs)
  case Nil
  with assms(2) show ?thesis by (simp add: window_count_def)
next
  case (Cons x ys)
  have "rate_inv m (snd x) [] (\<lambda>_. [])" using assms(2) by (simp add: rate_inv_def window_count_def)
  from rate_run_inv [OF this _ assms(2), of xs] assms(1) Cons show ?thesis by simp
qed

theorem kill_rate_bounded_witness:
  "window_count ''web-1'' (2 * second) (rate_run 2 [(''web-1'', 0), (''web-1'', second), (''web-1'', 2 * second)] (\<lambda>_. [])) \<le> 2"
  using kill_rate_bounded [of "[(''web-1'', 0), (''web-1'', second), (''web-1'', 2 * second)]" 2] by (simp add: second_def)

section \<open>Guard rails\<close>

text \<open>What an alert must satisfy for the kill to be requested without a human.\<close>

definition auto_ok :: "'w kill_recommender \<Rightarrow> event \<Rightarrow> event_process \<Rightarrow> agent \<Rightarrow> bool" where
  "auto_ok k ev p g =
     (kp_AutoApprove (kr_policy k) \<and> (\<exists>trig why. killWorthy (Some ev) = Some (trig, True, why)) \<and>
      attribution ev = Some (p, g) \<and> 100 < proc_PID p \<and>
      (proc_Start p \<noteq> [] \<or> proc_CommandLine p \<noteq> []) \<and>
      (to_lower (trim_space (proc_Name p)) \<noteq> [] \<longrightarrow>
         to_lower (trim_space (proc_Name p)) \<notin> set (kp_Whitelist (kr_policy k))))"

lemma attribution_identity: "attribution ev = Some (p, g) \<Longrightarrow> proc_Start p \<noteq> [] \<or> proc_CommandLine p \<noteq> []"
  by (auto simp: attribution_def split: option.splits if_splits)

lemma guard_none:
  "blockedByGuardRails pid nm wl = None \<Longrightarrow>
     100 < pid \<and> (to_lower (trim_space nm) \<noteq> [] \<longrightarrow> to_lower (trim_space nm) \<notin> set wl)"
  by (auto simp: blockedByGuardRails_def Let_def split: if_splits)

text \<open>Every call of the store, and whether it asks for an immediate kill.\<close>

lemma kill_evaluate_call:
  assumes "KillEvaluate k t (Some ev) w = (r, k', w')" "w' \<noteq> w"
  shows "\<exists>p g auto why u x. attribution ev = Some (p, g) \<and>
    kr_store k (agent_ID g) (proc_PID p) (proc_Name p) (proc_CommandLine p) (proc_Start p) why u auto w = (x, w') \<and>
    (auto \<longrightarrow> auto_ok k ev p g)"
proof -
  from assms obtain trig aa why where kw: "killWorthy (Some ev) = Some (trig, aa, why)"
    by (auto simp: KillEvaluate_def split: option.splits)
  with assms obtain p g where at: "attribution ev = Some (p, g)"
    by (auto simp: KillEvaluate_def split: option.splits)
  let ?c = "kp_AutoApprove (kr_policy k) \<and> aa \<and> blockedByGuardRails (proc_PID p) (proc_Name p) (kp_Whitelist (kr_policy k)) = None"
  obtain auto rc where ar: "(if ?c then allowRate (agent_ID g) (kp_RateLimitPerMin (kr_policy k)) t (kr_recent k)
      else (False, kr_recent k)) = (auto, rc)" by fastforce
  define u where "u = (if auto then ''auto:'' @ trigger_string trig else ''deuswatch-detection'')"
  define why2 where "why2 = (why @ (if proc_Name p \<noteq> []
      then '' - by '' @ proc_Name p @ '' (pid '' @ go_itoa (proc_PID p) @ '')'' else [])) @ (case ev_User ev of
      Some u \<Rightarrow> if eu_Name u \<noteq> [] then '' as '' @ eu_Name u else [] | None \<Rightarrow> [])"
  obtain x wx where c: "kr_store k (agent_ID g) (proc_PID p) (proc_Name p) (proc_CommandLine p) (proc_Start p) why2 u auto w = (x, wx)"
    by (cases "kr_store k (agent_ID g) (proc_PID p) (proc_Name p) (proc_CommandLine p) (proc_Start p) why2 u auto w")
  have "KillEvaluate k t (Some ev) w =
      (case (x, wx) of (Inl e, w') \<Rightarrow> (Inl e, k\<lparr>kr_recent := rc\<rparr>, w') | (Inr _, w') \<Rightarrow> (Inr True, k\<lparr>kr_recent := rc\<rparr>, w'))"
    unfolding KillEvaluate_def kw at option.case prod.case Let_def ar u_def [symmetric] why2_def [symmetric] c ..
  with assms(1) have "wx = w'" by (cases x) auto
  moreover have "auto \<longrightarrow> auto_ok k ev p g"
    using ar kw at guard_none attribution_identity [OF at] by (auto simp: auto_ok_def split: if_splits)
  ultimately show ?thesis using at c by blast
qed

lemma recommend_kill_rows:
  assumes "RecommendKill g pid nm exe start why u auto w = (x, w')" "r \<in> set (fa_rows w')" "r \<notin> set (fa_rows w)"
  shows "q_pid r = Some pid \<and> q_agent_name r = g \<and> (q_status r = ''requested'' \<longrightarrow> auto) \<and>
    (q_status r = ''requested'' \<or> q_status r = ''recommended'')"
  using assms by (auto simp: RecommendKill_def fa_insert_def fa_new_def split: if_splits prod.splits bool.splits)

text \<open>
  C6: A kill is queued for immediate execution only for an auto-approvable alert under a policy with
  automatic approval, for the attributed process, whose number is above 100, whose identity the agent
  can verify, and whose name is not whitelisted; every other kill an alert queues awaits a human.
\<close>

theorem auto_kill_guarded:
  assumes "kr_store k = RecommendKill" "KillEvaluate k t (Some ev) w = (r, k', w')"
    and "row \<in> set (fa_rows w')" "row \<notin> set (fa_rows w)"
  shows "\<exists>p g. attribution ev = Some (p, g) \<and> q_pid row = Some (proc_PID p) \<and> q_agent_name row = agent_ID g \<and>
    (q_status row = ''recommended'' \<or> (q_status row = ''requested'' \<and> auto_ok k ev p g))"
proof -
  have ne: "w' \<noteq> w" using assms(3,4) by blast
  from kill_evaluate_call [OF assms(2) ne, unfolded assms(1)]
  obtain p g auto why u x where at: "attribution ev = Some (p, g)"
    and c: "RecommendKill (agent_ID g) (proc_PID p) (proc_Name p) (proc_CommandLine p) (proc_Start p) why u auto w = (x, w')"
    and ok: "auto \<longrightarrow> auto_ok k ev p g" by blast
  note recommend_kill_rows [OF c assms(3,4)]
  with at ok show ?thesis by blast
qed

definition demo_kr :: "fa_db kill_recommender" where
  "demo_kr = NewKillRecommender RecommendKill True"

definition demo_kill_event :: event where
  "demo_kill_event = empty_event\<lparr>ev_Event := (ev_Event empty_event)\<lparr>ef_Action := ''file_encrypted''\<rparr>,
     ev_Process := Some \<lparr>proc_Name = ''evil'', proc_PID = 4242, proc_CommandLine = ''/tmp/evil'', proc_Start = ''77''\<rparr>,
     ev_Agent := Some \<lparr>agent_ID = ''web-1'', agent_Version = []\<rparr>\<rparr>"

definition demo_killed :: "fa_db" where
  "demo_killed = snd (snd (KillEvaluate demo_kr 0 (Some demo_kill_event) demo_fa))"

lemma demo_killed_facts: "map q_status (fa_rows demo_killed) = [''requested'']" "fa_rows demo_fa = []"
  by code_simp+

theorem auto_kill_guarded_witness:
  "\<exists>p g. attribution demo_kill_event = Some (p, g) \<and> auto_ok demo_kr demo_kill_event p g"
proof -
  let ?row = "hd (fa_rows demo_killed)"
  have row: "?row \<in> set (fa_rows demo_killed)" "q_status ?row = ''requested''"
    using demo_killed_facts(1) by auto
  have ev: "KillEvaluate demo_kr 0 (Some demo_kill_event) demo_fa =
    (fst (KillEvaluate demo_kr 0 (Some demo_kill_event) demo_fa),
     fst (snd (KillEvaluate demo_kr 0 (Some demo_kill_event) demo_fa)), demo_killed)"
    by (simp add: demo_killed_def)
  from auto_kill_guarded [OF _ ev row(1)] demo_killed_facts(2) row(2) show ?thesis
    by (auto simp: demo_kr_def NewKillRecommender_def)
qed

text \<open>
  A process whose name is on the configured whitelist, in any case and with any surrounding
  spaces, is never killed automatically once the policy is set.
\<close>

theorem whitelisted_process_never_auto:
  assumes "n \<in> set (kp_Whitelist pol)" "to_lower (trim_space n) = to_lower (trim_space (proc_Name p))"
    and "to_lower (trim_space n) \<noteq> []"
  shows "\<not> auto_ok (SetKillPolicy k pol) ev p g"
proof -
  have "to_lower (trim_space (proc_Name p)) \<in> set (normaliseWhitelist (kp_Whitelist pol))"
    using imageI [OF assms(1), of "\<lambda>x. to_lower (trim_space x)"] assms(2,3) unfolding normalise_set by simp
  with assms(2,3) show ?thesis by (auto simp: auto_ok_def SetKillPolicy_def Let_def)
qed

theorem whitelisted_process_never_auto_witness:
  "\<not> auto_ok (SetKillPolicy demo_kr DefaultKillPolicy) demo_kill_event
     \<lparr>proc_Name = '' SSHD '', proc_PID = 4242, proc_CommandLine = [], proc_Start = ''77''\<rparr>
     \<lparr>agent_ID = ''web-1'', agent_Version = []\<rparr>"
proof (rule whitelisted_process_never_auto)
  show "''sshd'' \<in> set (kp_Whitelist DefaultKillPolicy)" by code_simp
qed code_simp+

end
