(* ===== verification/Pipeline.thy ===== *)
theory Pipeline
  imports Detector Brute_Force Aggregation Containment_Props Kill_Switch
begin

text \<open>
  The worker's pipeline from an event to a response, composed from the components: a Sigma alert and
  the containment engine, and a Sigma alert and the kill switch.
\<close>

lemma directive_Some:
  "directive m = Some i \<Longrightarrow> \<exists>a. m = Some a \<and> ma_ActionType a = ''network_containment'' \<and>
     ci_ActionType i = ''network_containment'' \<and> ci_TimeoutSeconds i = ma_TimeoutSeconds a \<and>
     ci_Threshold i = ParseSeverity (ma_CriticalityThreshold a) SeverityHigh"
  by (auto simp: directive_def split: option.splits if_splits)

lemma hostIP_alert: "hostIP (buildSigmaAlert r e) = hostIP e"
  using alert_who(2,4) [of r e] by (auto simp: hostIP_def split: option.splits list.splits)

text \<open>
  C13: From an event to isolation: the containment engine creates a record for a Sigma alert only if
  the first matching rule declares network containment and the event names an agent whose host is not
  one of the manager's; and it isolates a host by itself only if the automatic switch is on and the
  rule's level reaches the rule's threshold, which is high when the rule gives none.
\<close>

theorem sigma_containment_authority:
  assumes "cn_inv w" "ce_store c = pg_containment" "ce_edge c = None \<or> ce_edge c = Some (edge_responder rp)"
    and "Inspect re d (Some ev) = Some (Some a)" "Evaluate c t (Some a) w = (res, w')"
  shows "cn_view w' = cn_view w \<or>
    (\<exists>rule m g. first_hit re (sd_rules d) ev = Some rule \<and> sr_Mitigation rule = Some m \<and>
       ma_ActionType m = ''network_containment'' \<and> map_option agent_ID (ev_Agent ev) = Some g \<and> g \<noteq> [] \<and>
       \<not> (hostIP ev \<noteq> [] \<and> ipInNets (hostIP ev) (ce_managerNet c)) \<and>
       length (cn_view w') = length (cn_view w) + 1 \<and>
       (\<forall>h. contained_in h (cn_view w') \<longrightarrow> contained_in h (cn_view w) \<or>
          h = g \<and> ce_auto c \<and>
          severityFromLevel (sr_Level rule) \<ge> ParseSeverity (ma_CriticalityThreshold m) SeverityHigh))"
proof -
  have ok: "cn.engine_ok rp c" using assms(2,3) by (simp add: cn.engine_ok_def)
  from Inspect_alert [OF assms(4)] obtain rule where rule: "first_hit re (sd_rules d) ev = Some rule"
    and a: "a = buildSigmaAlert rule ev" by blast
  from cn.evaluate_rows [OF assms(1) ok assms(5)] consider "cn_view w' = cn_view w"
    | g where "may_contain c a g" "length (cn_view w') = length (cn_view w) + 1"
        "\<forall>h. contained_in h (cn_view w') \<longrightarrow> contained_in h (cn_view w) \<or> (h = g \<and> may_auto c a)" by blast
  then show ?thesis
  proof cases
    case (2 g)
    from 2(1) obtain i where i: "directive (sr_Mitigation rule) = Some i"
      by (auto simp: may_contain_def a alert_fields split: option.splits)
    with directive_Some obtain m where m: "sr_Mitigation rule = Some m" "ma_ActionType m = ''network_containment''"
      "ci_Threshold i = ParseSeverity (ma_CriticalityThreshold m) SeverityHigh" by blast
    have "map_option agent_ID (ev_Agent ev) = Some g" "g \<noteq> []"
      "\<not> (hostIP ev \<noteq> [] \<and> ipInNets (hostIP ev) (ce_managerNet c))"
      using 2(1) by (auto simp: may_contain_def a alert_who hostIP_alert split: option.splits)
    moreover have "may_auto c a \<longleftrightarrow> ce_auto c \<and>
        severityFromLevel (sr_Level rule) \<ge> ParseSeverity (ma_CriticalityThreshold m) SeverityHigh"
      by (simp add: may_auto_def a alert_fields i m(3))
    ultimately show ?thesis using rule m 2 by blast
  qed simp
qed

definition iso_rule :: sigma_rule where
  "iso_rule = demo_rule\<lparr>sr_condition := ''a'',
     sr_Mitigation := Some \<lparr>ma_ActionType = ''network_containment'', ma_TimeoutSeconds = 60, ma_CriticalityThreshold = []\<rparr>\<rparr>"

definition iso_event :: event where
  "iso_event = demo_root\<lparr>ev_Agent := Some \<lparr>agent_ID = ''web-1'', agent_Version = []\<rparr>\<rparr>"

definition iso_alert :: event where
  "iso_alert = buildSigmaAlert iso_rule iso_event"

lemma iso_facts:
  "Inspect (\<lambda>e s. None) (NewSigmaDetector [iso_rule]) (Some iso_event) = Some (Some iso_alert)"
  "map c_AgentID (cn_view (snd (Evaluate (demo_ce True) 0 (Some iso_alert) demo_cn))) = [''web-1'']"
  by code_simp+

theorem sigma_containment_authority_witness:
  "\<exists>rule m. first_hit (\<lambda>e s. None) [iso_rule] iso_event = Some rule \<and> sr_Mitigation rule = Some m \<and>
     ma_ActionType m = ''network_containment'' \<and> map_option agent_ID (ev_Agent iso_event) = Some ''web-1''"
proof -
  let ?w = "snd (Evaluate (demo_ce True) 0 (Some iso_alert) demo_cn)"
  have ne: "cn_view ?w \<noteq> cn_view demo_cn" using iso_facts(2) by (auto simp: demo_cn_def cn_view_def)
  have ag: "map_option agent_ID (ev_Agent iso_event) = Some ''web-1''" by (simp add: iso_event_def)
  from sigma_containment_authority [OF demo_cn_inv(1) demo_ce_ok(1) disjI2 [OF demo_ce_ok(2)] iso_facts(1)
      surjective_pairing [of "Evaluate (demo_ce True) 0 (Some iso_alert) demo_cn"]] ne ag
  show ?thesis by (simp add: NewSigmaDetector_def) blast
qed

text \<open>
  A Sigma alert carries the process of its event without the start time, so when the event has no
  command line either (a file event that names the writing process by identifier and start time) the
  kill switch never acts on the alert, although the event itself identifies the process.
\<close>

theorem sigma_alert_loses_identity:
  assumes "Inspect re d (Some ev) = Some (Some a)" "ev_Process ev = Some p" "proc_CommandLine p = []"
  shows "KillEvaluate k t (Some a) w = (Inr False, k, w)"
proof -
  from Inspect_alert [OF assms(1)] obtain rule where "a = buildSigmaAlert rule ev" by blast
  then have "attribution a = None" using assms(2,3) by (simp add: attribution_def alert_who)
  then show ?thesis by (simp add: KillEvaluate_def split: option.splits)
qed

definition who_event :: event where
  "who_event = iso_event\<lparr>ev_Process := Some \<lparr>proc_Name = ''cryptor'', proc_PID = 4242, proc_CommandLine = [], proc_Start = ''88123''\<rparr>\<rparr>"

lemma who_facts:
  "Inspect (\<lambda>e s. None) (NewSigmaDetector [iso_rule\<lparr>sr_Title := ''Ransomware burst''\<rparr>]) (Some who_event) =
     Some (Some (buildSigmaAlert (iso_rule\<lparr>sr_Title := ''Ransomware burst''\<rparr>) who_event))"
  "attribution who_event \<noteq> None"
  by code_simp+

theorem sigma_alert_loses_identity_witness:
  "attribution who_event \<noteq> None \<and>
   KillEvaluate demo_kr 0 (Some (buildSigmaAlert (iso_rule\<lparr>sr_Title := ''Ransomware burst''\<rparr>) who_event)) demo_fa =
     (Inr False, demo_kr, demo_fa)"
proof -
  have "KillEvaluate demo_kr 0 (Some (buildSigmaAlert (iso_rule\<lparr>sr_Title := ''Ransomware burst''\<rparr>) who_event)) demo_fa =
      (Inr False, demo_kr, demo_fa)"
    by (rule sigma_alert_loses_identity [OF who_facts(1), where p =
        "\<lparr>proc_Name = ''cryptor'', proc_PID = 4242, proc_CommandLine = [], proc_Start = ''88123''\<rparr>"])
      (simp_all add: who_event_def)
  with who_facts(2) show ?thesis by simp
qed

text \<open>
  The networks that must never be contained have no effect on aggregation alerts that are not
  grouped by an address: such an alert carries no address of the host, so the test of the manager's
  networks is skipped and the outcome is the one with no protected network at all.
\<close>

theorem aggregation_skips_manager_guard:
  assumes "ag_GroupByField rule \<notin> {''source.ip'', ''src_ip'', ''srcip'', ''sourceip''}"
  shows "Evaluate (SetManagerNets c nets) t (Some (buildAggAlert clock rule g)) w =
    Evaluate (SetManagerNets c []) t (Some (buildAggAlert clock rule g)) w"
proof -
  let ?a = "buildAggAlert clock rule g"
  have h: "hostIP ?a = []"
    using assms by (auto simp: hostIP_def buildAggAlert_def empty_event_def Let_def split: prod.splits option.splits)
  have f: "ce_store (SetManagerNets c n) = ce_store c" "ce_edge (SetManagerNets c n) = ce_edge c"
    "ce_auto (SetManagerNets c n) = ce_auto c" for n by (simp_all add: SetManagerNets_def)
  have r: "contain_record (SetManagerNets c n) ev i = contain_record c ev i" for n ev i
    unfolding contain_record_def f ..
  have k: "contain (SetManagerNets c n) u x b v = contain c u x b v" for n u x b v
    unfolding contain_def f ..
  have z: "(([] :: string) \<noteq> [] \<and> P) = False" for P by simp
  show ?thesis unfolding Evaluate_def option.case Let_def h r k f z ..
qed

definition burst_rule :: agg_rule where
  "burst_rule = brute_compiled\<lparr>ag_Level := ''critical'', ag_GroupByField := ''host.name'',
     ag_Mitigation := Some \<lparr>ma_ActionType = ''network_containment'', ma_TimeoutSeconds = 0, ma_CriticalityThreshold = ''high''\<rparr>\<rparr>"

definition burst_group :: agg_group where
  "burst_group = \<lparr>gr_Group = ''siem'', gr_Count = 50, gr_LastSeen = 5, gr_Agent = ''siem-1'', gr_Host = ''siem''\<rparr>"

theorem aggregation_skips_manager_guard_witness:
  "map c_AgentID (cn_view (snd (Evaluate (SetManagerNets (demo_ce True) [Some (Net4 0 0)]) 0
     (Some (buildAggAlert 0 burst_rule burst_group)) demo_cn))) = [''siem-1'']"
proof -
  have f: "ag_GroupByField burst_rule \<notin> {''source.ip'', ''src_ip'', ''srcip'', ''sourceip''}" by (simp add: burst_rule_def)
  have "map c_AgentID (cn_view (snd (Evaluate (SetManagerNets (demo_ce True) []) 0
     (Some (buildAggAlert 0 burst_rule burst_group)) demo_cn))) = [''siem-1'']" by code_simp
  then show ?thesis unfolding aggregation_skips_manager_guard [OF f, of _ "[Some (Net4 0 0)]"] .
qed

end
