(* ===== verification/Auth_RBAC.thy ===== *)
theory Auth_RBAC
  imports Prelude
begin

text \<open>
  Roles, permissions and the password policy: \<^verbatim>\<open>internal/auth/rbac.go\<close> and
  \<^verbatim>\<open>internal/auth/policy.go\<close>. Roles and permissions are strings, as in the code; a nil override
  set is \<open>None\<close>. The minimum password length, a package variable, is an argument.
\<close>

section \<open>Roles and permissions\<close>

type_synonym role = string
type_synonym permission = string

definition RoleViewer :: role where "RoleViewer = ''viewer''"
definition RoleAnalyst :: role where "RoleAnalyst = ''analyst''"
definition RoleAdmin :: role where "RoleAdmin = ''admin''"

definition PermManageUsers :: permission where "PermManageUsers = ''manage_users''"

record permission_info =
  pi_Key :: permission
  pi_Label :: string
  pi_Group :: string

definition AllPermissions :: "permission_info list" where
  "AllPermissions = map (\<lambda>(k, l, g). \<lparr>pi_Key = k, pi_Label = l, pi_Group = g\<rparr>)
     [(''view_dashboard'', ''View dashboard & alerts'', ''Monitoring''),
      (''ack_alert'', ''Acknowledge alerts'', ''Monitoring''),
      (''view_tickets'', ''View tickets'', ''Ticketing''),
      (''manage_tickets'', ''Manage tickets (create / assign / close)'', ''Ticketing''),
      (''approve_remediation'', ''Approve / dismiss remediation'', ''Response''),
      (''execute_block'', ''Execute block actions'', ''Response''),
      (''manage_rules'', ''Manage detection rules'', ''Administration''),
      (''manage_agents'', ''Manage agents'', ''Administration''),
      (''manage_integrations'', ''Manage integrations'', ''Administration''),
      (PermManageUsers, ''Manage users & RBAC'', ''Administration''),
      (''manage_settings'', ''Manage settings'', ''Administration''),
      (''manage_workspaces'', ''Manage workspaces & members'', ''Administration''),
      (''manage_tenants'', ''Manage tenants (platform super-admin)'', ''Administration'')]"

definition allPermissionsMap :: "permission list" where
  "allPermissionsMap = map pi_Key AllPermissions"

definition validPermission :: "permission \<Rightarrow> bool" where
  "validPermission p = (p \<in> set (map pi_Key AllPermissions))"

definition rolePermissions :: "(role \<times> permission list) list" where
  "rolePermissions =
     [(RoleViewer, [''view_dashboard'']),
      (RoleAnalyst, [''view_dashboard'', ''ack_alert'', ''approve_remediation'', ''view_tickets'', ''manage_tickets'']),
      (RoleAdmin, allPermissionsMap)]"

definition role_Can :: "role \<Rightarrow> permission \<Rightarrow> bool" where
  "role_Can r p = (case map_of rolePermissions r of None \<Rightarrow> False | Some ps \<Rightarrow> p \<in> set ps)"

definition role_Valid :: "role \<Rightarrow> bool" where
  "role_Valid r = (map_of rolePermissions r \<noteq> None)"

definition role_Permissions :: "role \<Rightarrow> permission list" where
  "role_Permissions r = map pi_Key (filter (\<lambda>p. role_Can r (pi_Key p)) AllPermissions)"

datatype auth_error =
    ErrUnknownRole string
  | ErrUnknownPermission string
  | ErrInvalidRole string
  | ErrAuth
  | Err2FARequired
  | ErrMismatch
  | ErrLastAdmin string
  | ErrUserNotFound
  | ErrHash
  | ErrDB

definition ParseRole :: "string \<Rightarrow> auth_error + role" where
  "ParseRole s = (if role_Valid s then Inr s else Inl (ErrUnknownRole s))"

definition ParsePermission :: "string \<Rightarrow> auth_error + permission" where
  "ParsePermission s = (if validPermission s then Inr s else Inl (ErrUnknownPermission s))"

fun parse_perms :: "string list \<Rightarrow> auth_error + permission list" where
  "parse_perms [] = Inr []"
| "parse_perms (s # ss) =
     (case ParsePermission s of
        Inl e \<Rightarrow> Inl e
      | Inr p \<Rightarrow> (case parse_perms ss of Inl e \<Rightarrow> Inl e | Inr ps \<Rightarrow> Inr (p # ps)))"

definition parsePermissions :: "string list option \<Rightarrow> auth_error + permission list option" where
  "parsePermissions raw =
     (case raw of
        None \<Rightarrow> Inr None
      | Some ss \<Rightarrow> (case parse_perms ss of Inl e \<Rightarrow> Inl e | Inr ps \<Rightarrow> Inr (Some ps)))"

record auth_user =
  au_ID :: string
  au_Username :: string
  au_Role :: role
  au_Disabled :: bool
  au_Permissions :: "permission list option"

definition user_Can :: "auth_user \<Rightarrow> permission \<Rightarrow> bool" where
  "user_Can u p = (case au_Permissions u of Some ps \<Rightarrow> p \<in> set ps | None \<Rightarrow> role_Can (au_Role u) p)"

definition EffectivePermissions :: "auth_user \<Rightarrow> permission list" where
  "EffectivePermissions u =
     (case au_Permissions u of Some ps \<Rightarrow> ps | None \<Rightarrow> role_Permissions (au_Role u))"

lemma rolePermissions_catalog: "list_all (\<lambda>(r, ps). list_all (\<lambda>p. p \<in> set (map pi_Key AllPermissions)) ps) rolePermissions"
  by code_simp

lemma role_Can_catalog: "role_Can r p \<Longrightarrow> p \<in> set (map pi_Key AllPermissions)"
  using rolePermissions_catalog map_of_SomeD
  by (fastforce simp: role_Can_def list_all_iff split: option.splits)

lemma parse_perms_valid: "parse_perms ss = Inr ps \<Longrightarrow> ps = ss \<and> list_all validPermission ps"
  by (induction ss arbitrary: ps) (auto simp: ParsePermission_def split: sum.splits if_splits)

text \<open>
  What the interface shows as a user's permissions is what the server enforces: a permission is
  in the effective list exactly when the check of every request grants it, whether the user has an
  override set or inherits the role's defaults, and an unknown role grants nothing.
\<close>

theorem effective_permissions_exact:
  "p \<in> set (EffectivePermissions u) \<longleftrightarrow> user_Can u p"
proof (cases "au_Permissions u")
  case None
  have "p \<in> set (role_Permissions (au_Role u)) \<longleftrightarrow> p \<in> set (map pi_Key AllPermissions) \<and> role_Can (au_Role u) p"
    by (auto simp: role_Permissions_def)
  with None role_Can_catalog show ?thesis by (auto simp: EffectivePermissions_def user_Can_def)
qed (simp add: EffectivePermissions_def user_Can_def)

section \<open>Passwords\<close>

definition SetMinPasswordLen :: "int \<Rightarrow> int" where
  "SetMinPasswordLen n = (if n < 8 then 8 else n)"

definition commonPasswords :: "string list" where
  "commonPasswords =
     [''password'', ''password1'', ''password123'', ''passw0rd'', ''12345678'', ''123456789'', ''1234567890'',
      ''qwertyuiop'', ''qwerty123'', ''letmein1'', ''iloveyou'', ''sunshine'', ''admin123'', ''administrator'',
      ''welcome1'', ''changeme'', ''deuswatch'', ''thewatcher'']"

text \<open>On ASCII text; a character outside it is several bytes and one rune.\<close>

definition allSameRune :: "string \<Rightarrow> bool" where
  "allSameRune s = (case s of [] \<Rightarrow> True | c # cs \<Rightarrow> list_all (\<lambda>d. d = c) cs)"

datatype password_error = TooShort int | TooCommon | SameAsUsername | OneRepeatedCharacter

definition ValidatePassword :: "int \<Rightarrow> string \<Rightarrow> string \<Rightarrow> password_error option" where
  "ValidatePassword minLen username password =
     (if int (length password) < minLen then Some (TooShort minLen)
      else if to_lower password \<in> set commonPasswords then Some TooCommon
      else if username \<noteq> [] \<and> to_lower password = to_lower username then Some SameAsUsername
      else if allSameRune password then Some OneRepeatedCharacter
      else None)"

end
