(* ===== verification/Login_Limiter.thy ===== *)
theory Login_Limiter
  imports Go_Strconv "HOL-Library.AList"
begin

text \<open>
  The brute-force guard of the login endpoint, \<^verbatim>\<open>internal/auth/ratelimit.go\<close>. The map of entries
  is an association list with distinct keys, so its length is \<^verbatim>\<open>len\<close>; the clock read by a call is
  an argument, the lock makes each call atomic, and the environment variables are optional strings.
  A nil limiter behaves as one with a limit of zero.
\<close>

section \<open>Model\<close>

record limiter_entry =
  le_failures :: int
  le_windowStart :: gotime
  le_lockedUntil :: gotime

record login_limiter =
  ll_maxFailures :: int
  ll_window :: duration
  ll_lockout :: duration
  ll_entries :: "(string \<times> limiter_entry) list"
  ll_lastPrune :: gotime

definition NewLoginLimiter :: "int \<Rightarrow> duration \<Rightarrow> duration \<Rightarrow> login_limiter" where
  "NewLoginLimiter maxFailures window lockout =
     \<lparr>ll_maxFailures = maxFailures, ll_window = window, ll_lockout = lockout, ll_entries = [], ll_lastPrune = 0\<rparr>"

definition newLoginLimiterFromEnv :: "string \<Rightarrow> string \<Rightarrow> login_limiter" where
  "newLoginLimiterFromEnv maxEnv lockoutEnv =
     (let maxFailures = (if maxEnv = [] then 5 else case go_atoi maxEnv of Some n \<Rightarrow> n | None \<Rightarrow> 5);
          lockout = (if lockoutEnv = [] then 15 * minute
                     else case ParseDuration lockoutEnv of
                            Some d \<Rightarrow> if d > 0 then d else 15 * minute
                          | None \<Rightarrow> 15 * minute)
      in NewLoginLimiter maxFailures lockout lockout)"

definition RetryAfter :: "gotime \<Rightarrow> string list \<Rightarrow> login_limiter \<Rightarrow> duration" where
  "RetryAfter t keys l =
     (if ll_maxFailures l \<le> 0 then 0
      else fold (\<lambda>k wait. case map_of (ll_entries l) k of
             Some e \<Rightarrow> if le_lockedUntil e > t \<and> le_lockedUntil e - t > wait then le_lockedUntil e - t else wait
           | None \<Rightarrow> wait) keys 0)"

definition prune :: "gotime \<Rightarrow> login_limiter \<Rightarrow> login_limiter" where
  "prune t l =
     (if t - ll_lastPrune l < minute \<and> int (length (ll_entries l)) < 100000 then l
      else l\<lparr>ll_lastPrune := t,
             ll_entries := filter (\<lambda>(k, e). \<not> (t - le_windowStart e > ll_window l \<and> \<not> le_lockedUntil e > t)) (ll_entries l)\<rparr>)"

text \<open>The body of the loop of \<^verbatim>\<open>Fail\<close> for one key.\<close>

definition bump :: "gotime \<Rightarrow> login_limiter \<Rightarrow> limiter_entry option \<Rightarrow> limiter_entry \<times> bool" where
  "bump t l eo =
     (let new = \<lparr>le_failures = 0, le_windowStart = t, le_lockedUntil = 0\<rparr>;
          e = (case eo of None \<Rightarrow> new | Some e \<Rightarrow> if t - le_windowStart e > ll_window l then new else e);
          e' = e\<lparr>le_failures := le_failures e + 1\<rparr>
      in if le_failures e' = ll_maxFailures l then (e'\<lparr>le_lockedUntil := t + ll_lockout l\<rparr>, True) else (e', False))"

fun fail_keys :: "gotime \<Rightarrow> string list \<Rightarrow> login_limiter \<Rightarrow> bool \<times> login_limiter" where
  "fail_keys t [] l = (False, l)"
| "fail_keys t (k # ks) l =
     (case bump t l (map_of (ll_entries l) k) of
        (e, locked) \<Rightarrow>
          (case fail_keys t ks (l\<lparr>ll_entries := AList.update k e (ll_entries l)\<rparr>) of
             (locked', l') \<Rightarrow> (locked \<or> locked', l')))"

definition Fail :: "gotime \<Rightarrow> string list \<Rightarrow> login_limiter \<Rightarrow> bool \<times> login_limiter" where
  "Fail t keys l = (if ll_maxFailures l \<le> 0 then (False, l) else fail_keys t keys (prune t l))"

definition Reset :: "string list \<Rightarrow> login_limiter \<Rightarrow> login_limiter" where
  "Reset keys l =
     (if ll_maxFailures l \<le> 0 then l
      else l\<lparr>ll_entries := fold AList.delete keys (ll_entries l)\<rparr>)"

section \<open>Facts\<close>

lemma RetryAfter_fold:
  "fold (\<lambda>k wait. case m k of
       Some e \<Rightarrow> if le_lockedUntil e > t \<and> le_lockedUntil e - t > wait then le_lockedUntil e - t else wait
     | None \<Rightarrow> wait) keys w > w' \<longleftrightarrow>
   w > w' \<or> (\<exists>k \<in> set keys. \<exists>e. m k = Some e \<and> le_lockedUntil e > t \<and> le_lockedUntil e - t > max w w')"
  for m :: "string \<Rightarrow> limiter_entry option"
  by (induction keys arbitrary: w) (auto split: option.splits simp: max_def)

lemma RetryAfter_pos:
  "RetryAfter t keys l > 0 \<longleftrightarrow>
   0 < ll_maxFailures l \<and> (\<exists>k \<in> set keys. \<exists>e. map_of (ll_entries l) k = Some e \<and> le_lockedUntil e > t)"
  unfolding RetryAfter_def using RetryAfter_fold [where w = 0 and w' = 0 and keys = keys] by auto

lemma prune_frame [simp]:
  "ll_maxFailures (prune t l) = ll_maxFailures l" "ll_window (prune t l) = ll_window l" "ll_lockout (prune t l) = ll_lockout l"
  by (simp_all add: prune_def)

lemma map_of_filter_keep:
  "distinct (map fst es) \<Longrightarrow> map_of (filter (\<lambda>(k, e). P e) es) k =
     (case map_of es k of Some e \<Rightarrow> if P e then Some e else None | None \<Rightarrow> None)"
proof (induction es)
  case (Cons x es)
  then show ?case
    by (cases x) (auto simp: map_of_eq_None_iff split: option.splits dest: map_of_SomeD)
qed simp

lemma fail_keys_frame [simp]:
  "ll_maxFailures (snd (fail_keys t ks l)) = ll_maxFailures l" "ll_window (snd (fail_keys t ks l)) = ll_window l"
  "ll_lockout (snd (fail_keys t ks l)) = ll_lockout l"
  by (induction t ks l rule: fail_keys.induct) (auto split: prod.splits)

lemma bump_entries [simp]: "bump t (l\<lparr>ll_entries := es\<rparr>) eo = bump t l eo"
  by (cases eo) (simp_all add: bump_def Let_def)

lemma fail_keys_lookup:
  "distinct ks \<Longrightarrow> map_of (ll_entries (snd (fail_keys t ks l))) k =
     (if k \<in> set ks then Some (fst (bump t l (map_of (ll_entries l) k))) else map_of (ll_entries l) k)"
  by (induction t ks l rule: fail_keys.induct) (auto split: prod.splits simp: update_conv')

lemma fail_keys_distinct:
  "distinct (map fst (ll_entries l)) \<Longrightarrow> distinct (map fst (ll_entries (snd (fail_keys t ks l))))"
  by (induction t ks l rule: fail_keys.induct) (auto split: prod.splits simp: distinct_update)

lemma prune_distinct: "distinct (map fst (ll_entries l)) \<Longrightarrow> distinct (map fst (ll_entries (prune t l)))"
  by (simp add: prune_def distinct_map_filter)

section \<open>How many guesses get through\<close>

text \<open>
  A run of failing attempts as the login handler makes them: an attempt with a locked key is refused,
  any other is checked against the database and recorded. \<open>guesses k\<close> are the times at which an
  attempt with the key \<open>k\<close> was checked, the newest first.
\<close>

fun guesses :: "string \<Rightarrow> login_limiter \<Rightarrow> gotime list \<Rightarrow> (gotime \<times> string list) list \<Rightarrow> gotime list" where
  "guesses k l acc [] = acc"
| "guesses k l acc ((t, keys) # as) =
     (if RetryAfter t keys l > 0 then guesses k l acc as
      else guesses k (snd (Fail t keys l)) (if k \<in> set keys then t # acc else acc) as)"

text \<open>
  The invariant for a limit of \<open>m\<close> and a window and lockout of \<open>w\<close>: the entry counts the newest
  guesses, the oldest of which opened the window; the guess \<open>m\<close> places before that is more than
  \<open>w\<close> older; and any \<open>2m\<close> consecutive guesses span more than \<open>w\<close>.
\<close>

definition window_of :: "nat \<Rightarrow> duration \<Rightarrow> gotime list \<Rightarrow> limiter_entry \<Rightarrow> bool" where
  "window_of m w acc e =
     (1 \<le> le_failures e \<and> nat (le_failures e) \<le> m \<and> nat (le_failures e) \<le> length acc \<and>
      acc ! (nat (le_failures e) - 1) = le_windowStart e \<and>
      (nat (le_failures e) - 1 + m < length acc \<longrightarrow> le_windowStart e - acc ! (nat (le_failures e) - 1 + m) > w) \<and>
      (nat (le_failures e) = m \<longrightarrow> le_lockedUntil e = acc ! 0 + w))"

definition entry_ok :: "nat \<Rightarrow> duration \<Rightarrow> gotime \<Rightarrow> gotime list \<Rightarrow> limiter_entry option \<Rightarrow> bool" where
  "entry_ok m w T acc eo =
     (case eo of None \<Rightarrow> m - 1 < length acc \<longrightarrow> T - acc ! (m - 1) > w | Some e \<Rightarrow> window_of m w acc e)"

definition spread :: "nat \<Rightarrow> duration \<Rightarrow> gotime list \<Rightarrow> bool" where
  "spread m w acc = (\<forall>i. i + (2 * m - 1) < length acc \<longrightarrow> acc ! i - acc ! (i + (2 * m - 1)) > w)"

lemma entry_ok_later: "entry_ok m w T acc eo \<Longrightarrow> T \<le> T' \<Longrightarrow> entry_ok m w T' acc eo"
  by (auto simp: entry_ok_def split: option.splits)

lemma spread_Cons:
  assumes "spread m w acc" "2 \<le> m" "2 * m - 2 < length acc \<Longrightarrow> t - acc ! (2 * m - 2) > w"
  shows "spread m w (t # acc)"
  unfolding spread_def
proof (intro allI impI)
  fix i assume "i + (2 * m - 1) < length (t # acc)"
  then show "(t # acc) ! i - (t # acc) ! (i + (2 * m - 1)) > w"
    using assms by (cases i) (auto simp: spread_def nth_Cons' numeral_2_eq_2)
qed

lemma sorted_desc_nth:
  "sorted_wrt (>) acc \<Longrightarrow> i \<le> j \<Longrightarrow> j < length acc \<Longrightarrow> acc ! j \<le> (acc ! i :: int)"
  by (metis le_neq_implies_less less_imp_le order_refl sorted_wrt_nth_less)

lemma window_first:
  assumes "window_of m w acc e" "sorted_wrt (>) acc" "m - 1 < length acc"
  shows "acc ! (m - 1) \<le> le_windowStart e"
proof -
  have f: "nat (le_failures e) \<le> m" "acc ! (nat (le_failures e) - 1) = le_windowStart e"
    using assms(1) unfolding window_of_def by blast+
  have "acc ! (m - 1) \<le> acc ! (nat (le_failures e) - 1)"
    by (rule sorted_desc_nth [OF assms(2) diff_le_mono [OF f(1)] assms(3)])
  then show ?thesis unfolding f(2) .
qed

text \<open>A guess that opens a window.\<close>

lemma open_window:
  assumes "2 \<le> m" "sorted_wrt (>) acc" "m - 1 < length acc \<longrightarrow> t - acc ! (m - 1) > w" "spread m w acc"
    and "e = \<lparr>le_failures = 1, le_windowStart = t, le_lockedUntil = u\<rparr>"
  shows "window_of m w (t # acc) e" "spread m w (t # acc)"
proof -
  show "window_of m w (t # acc) e" using assms(1,3) by (auto simp: window_of_def assms(5) nth_Cons')
  show "spread m w (t # acc)"
  proof (rule spread_Cons [OF assms(4,1)])
    assume l: "2 * m - 2 < length acc"
    have "acc ! (2 * m - 2) \<le> acc ! (m - 1)" by (rule sorted_desc_nth [OF assms(2) _ l]) (use assms(1) in simp)
    with assms(1,3) l show "t - acc ! (2 * m - 2) > w" by auto
  qed
qed

text \<open>A guess within an open window.\<close>

lemma stay_window:
  assumes m: "2 \<le> m" and so: "sorted_wrt (>) acc" "\<forall>x \<in> set acc. x < t" and sp: "spread m w acc"
    and e: "window_of m w acc e" and u: "le_lockedUntil e \<le> t" and w: "t - le_windowStart e \<le> w"
    and e': "e' = e\<lparr>le_failures := le_failures e + 1, le_lockedUntil := (if nat (le_failures e + 1) = m then t + w else le_lockedUntil e)\<rparr>"
  shows "window_of m w (t # acc) e'" "spread m w (t # acc)"
proof -
  define f where "f = nat (le_failures e)"
  have f: "1 \<le> f" "f \<le> m" "f \<le> length acc" "acc ! (f - 1) = le_windowStart e"
      "f - 1 + m < length acc \<Longrightarrow> le_windowStart e - acc ! (f - 1 + m) > w" "f = m \<Longrightarrow> le_lockedUntil e = acc ! 0 + w"
      "nat (le_failures e + 1) = f + 1"
    using e unfolding window_of_def f_def by (auto simp: nat_add_distrib)
  have "f < m"
  proof (rule ccontr)
    assume "\<not> f < m"
    with f have fm: "f = m" "acc ! (m - 1) = le_windowStart e" by auto
    have "acc ! (m - 1) < acc ! 0"
      using sorted_wrt_nth_less [OF so(1), of 0 "m - 1"] m f(3) fm(1) by simp
    with u w f(6) fm show False by simp
  qed
  then show "window_of m w (t # acc) e'"
    using f unfolding window_of_def e' by (auto simp: nth_Cons' simp flip: f_def)
  show "spread m w (t # acc)"
  proof (rule spread_Cons [OF sp m])
    assume l: "2 * m - 2 < length acc"
    have "acc ! (2 * m - 2) \<le> acc ! (f - 1 + m)" by (rule sorted_desc_nth [OF so(1) _ l]) (use \<open>f < m\<close> f(1) in linarith)
    moreover have "le_windowStart e < t" using so(2) nth_mem [of "f - 1" acc] f(1,3,4) by fastforce
    moreover have "f - 1 + m < length acc" using l \<open>f < m\<close> f(1) by linarith
    note f(5) [OF this]
    ultimately show "t - acc ! (2 * m - 2) > w" by linarith
  qed
qed

definition guess_inv :: "string \<Rightarrow> nat \<Rightarrow> duration \<Rightarrow> gotime \<Rightarrow> login_limiter \<Rightarrow> gotime list \<Rightarrow> bool" where
  "guess_inv k m w T l acc =
     (ll_maxFailures l = int m \<and> ll_window l = w \<and> ll_lockout l = w \<and> distinct (map fst (ll_entries l)) \<and>
      sorted_wrt (>) acc \<and> (\<forall>x \<in> set acc. x \<le> T) \<and> spread m w acc \<and> entry_ok m w T acc (map_of (ll_entries l) k))"

lemma prune_lookup:
  assumes "distinct (map fst (ll_entries l))"
  shows "map_of (ll_entries (prune t l)) k = map_of (ll_entries l) k \<or>
    map_of (ll_entries (prune t l)) k = None \<and> (\<exists>e. map_of (ll_entries l) k = Some e \<and> t - le_windowStart e > ll_window l)"
  using map_of_filter_keep [OF assms] unfolding prune_def by (cases "map_of (ll_entries l) k") auto

lemma prune_entry:
  assumes "guess_inv k m w T l acc" "2 \<le> m" "T < t"
  shows "guess_inv k m w t (prune t l) acc"
proof -
  have d: "distinct (map fst (ll_entries l))" and eo: "entry_ok m w t acc (map_of (ll_entries l) k)"
    using assms entry_ok_later [of m w T acc _ t] by (auto simp: guess_inv_def)
  have gone: "entry_ok m w t acc None" if "map_of (ll_entries l) k = Some e" "t - le_windowStart e > w" for e
  proof -
    from eo that(1) have e: "window_of m w acc e" by (simp add: entry_ok_def)
    have "acc ! (m - 1) \<le> le_windowStart e" if "m - 1 < length acc"
      using window_first [OF e _ that] assms(1) by (simp add: guess_inv_def)
    with that(2) show ?thesis by (auto simp: entry_ok_def)
  qed
  have "entry_ok m w t acc (map_of (ll_entries (prune t l)) k)"
    using prune_lookup [OF d, of t k] eo gone assms(1) unfolding guess_inv_def by metis
  with assms prune_distinct [OF d] show ?thesis by (fastforce simp: guess_inv_def)
qed

lemma bump_entry:
  assumes inv: "guess_inv k m w T l acc" and m: "2 \<le> m" and t: "\<forall>x \<in> set acc. x < t" "T \<le> t"
    and u: "\<And>e. map_of (ll_entries l) k = Some e \<Longrightarrow> le_lockedUntil e \<le> t"
  shows "window_of m w (t # acc) (fst (bump t l (map_of (ll_entries l) k)))" "spread m w (t # acc)"
proof -
  let ?new = "\<lparr>le_failures = 1, le_windowStart = t, le_lockedUntil = 0\<rparr>"
  have i: "ll_maxFailures l = int m" "ll_window l = w" "ll_lockout l = w" "sorted_wrt (>) acc" "spread m w acc"
    and eo: "entry_ok m w t acc (map_of (ll_entries l) k)"
    using inv entry_ok_later [OF _ t(2)] by (auto simp: guess_inv_def)
  have new: "window_of m w (t # acc) ?new \<and> spread m w (t # acc)" if "m - 1 < length acc \<longrightarrow> t - acc ! (m - 1) > w"
    using open_window [OF m i(4) that i(5) refl] by blast
  have nb: "bump t l eo = (?new, False)" if "eo = None \<or> (\<exists>e. eo = Some e \<and> t - le_windowStart e > w)" for eo
    using that m i(1,2) by (auto simp: bump_def Let_def)
  have "window_of m w (t # acc) (fst (bump t l (map_of (ll_entries l) k))) \<and> spread m w (t # acc)"
  proof (cases "map_of (ll_entries l) k")
    case None
    with eo new nb show ?thesis by (simp add: entry_ok_def)
  next
    case (Some e)
    with eo have e: "window_of m w acc e" by (simp add: entry_ok_def)
    show ?thesis
    proof (cases "t - le_windowStart e > w")
      case True
      have "m - 1 < length acc \<longrightarrow> t - acc ! (m - 1) > w" using window_first [OF e i(4)] True by fastforce
      with new nb [of "Some e"] True Some show ?thesis by simp
    next
      case False
      have "fst (bump t l (Some e)) = e\<lparr>le_failures := le_failures e + 1,
          le_lockedUntil := (if nat (le_failures e + 1) = m then t + w else le_lockedUntil e)\<rparr>"
        using False i e by (auto simp: bump_def Let_def window_of_def)
      with stay_window [OF m i(4) t(1) i(5) e u [OF Some] _ this] False Some show ?thesis by simp
    qed
  qed
  then show "window_of m w (t # acc) (fst (bump t l (map_of (ll_entries l) k)))" "spread m w (t # acc)" by blast+
qed

lemma attempt_inv:
  assumes inv: "guess_inv k m w T l acc" and m: "2 \<le> m" and t: "T < t" and d: "distinct keys"
    and free: "\<not> RetryAfter t keys l > 0"
  shows "guess_inv k m w t (snd (Fail t keys l)) (if k \<in> set keys then t # acc else acc)"
proof -
  let ?l = "prune t l"
  have p: "guess_inv k m w t ?l acc" by (rule prune_entry [OF inv m t])
  have mx: "ll_maxFailures l = int m" using inv by (simp add: guess_inv_def)
  have old: "\<forall>x \<in> set acc. x < t" using inv t by (auto simp: guess_inv_def)
  have F: "Fail t keys l = fail_keys t keys ?l" using mx m by (simp add: Fail_def)
  have dd: "distinct (map fst (ll_entries l))" using inv by (simp add: guess_inv_def)
  have sub: "map_of (ll_entries l) k = Some e" if "map_of (ll_entries ?l) k = Some e" for e
    using that map_of_filter_keep [OF dd] by (auto simp: prune_def split: if_splits option.splits)
  have u: "le_lockedUntil e \<le> t" if "k \<in> set keys" "map_of (ll_entries ?l) k = Some e" for e
    using free mx m that(1) sub [OF that(2)] unfolding RetryAfter_pos by (force simp: not_less)
  have look: "map_of (ll_entries (snd (Fail t keys l))) k =
      (if k \<in> set keys then Some (fst (bump t ?l (map_of (ll_entries ?l) k))) else map_of (ll_entries ?l) k)"
    unfolding F by (rule fail_keys_lookup [OF d])
  show ?thesis
  proof (cases "k \<in> set keys")
    case True
    note b = bump_entry [OF p m old order_refl u [OF True]]
    have "entry_ok m w t (t # acc) (map_of (ll_entries (snd (Fail t keys l))) k)"
      unfolding look using True b(1) by (simp add: entry_ok_def)
    then show ?thesis using p b(2) old True unfolding guess_inv_def F by (simp add: fail_keys_distinct)
  next
    case False
    then have "entry_ok m w t acc (map_of (ll_entries (snd (Fail t keys l))) k)"
      unfolding look using p by (simp add: guess_inv_def)
    then show ?thesis using p False unfolding guess_inv_def F by (simp add: fail_keys_distinct)
  qed
qed

lemma guesses_inv:
  assumes "guess_inv k m w T l acc" "2 \<le> m" "sorted_wrt (<) (T # map fst as)" "\<forall>(t, keys) \<in> set as. distinct keys"
  shows "spread m w (guesses k l acc as) \<and> sorted_wrt (>) (guesses k l acc as)"
  using assms
proof (induction as arbitrary: T l acc)
  case Nil
  then show ?case by (simp add: guess_inv_def)
next
  case (Cons a as)
  obtain t keys where a: "a = (t, keys)" by force
  from Cons.prems(3) have t: "T < t" "sorted_wrt (<) (t # map fst as)" by (simp_all add: a)
  from Cons.prems(4) have d: "distinct keys" "\<forall>(t, keys) \<in> set as. distinct keys" by (simp_all add: a)
  show ?case
  proof (cases "RetryAfter t keys l > 0")
    case True
    have "sorted_wrt (<) (T # map fst as)" using Cons.prems(3) by (simp add: a)
    from Cons.IH [OF Cons.prems(1,2) this d(2)] True show ?thesis by (simp add: a)
  next
    case False
    from Cons.IH [OF attempt_inv [OF Cons.prems(1,2) t(1) d(1) False] Cons.prems(2) t(2) d(2)] False
    show ?thesis by (simp add: a)
  qed
qed

text \<open>Spread guesses are few in every interval.\<close>

lemma sorted_desc_interval:
  "sorted_wrt (>) xs \<Longrightarrow> filter (\<lambda>x. a \<le> x \<and> x \<le> b) xs = takeWhile (\<lambda>x. a \<le> x) (dropWhile (\<lambda>x. b < x) xs)"
  for xs :: "int list"
proof (induction xs)
  case (Cons x xs)
  show ?case
  proof (cases "b < x")
    case True
    with Cons show ?thesis by simp
  next
    case False
    have below: "filter (\<lambda>x. a \<le> x \<and> x \<le> b) zs = takeWhile (\<lambda>x. a \<le> x) zs" if "\<forall>y \<in> set zs. y \<le> b" "sorted_wrt (>) zs" for zs
      using that
    proof (induction zs)
      case (Cons y ys)
      show ?case
      proof (cases "a \<le> y")
        case False
        with Cons.prems(2) have "\<forall>z \<in> set ys. \<not> a \<le> z" by force
        with False show ?thesis by (simp add: filter_empty_conv)
      qed (use Cons in simp)
    qed simp
    have "\<forall>y \<in> set (x # xs). y \<le> b" using False Cons.prems by fastforce
    from below [OF this Cons.prems] False show ?thesis by simp
  qed
qed simp

lemma spread_interval:
  assumes "spread m w xs" "sorted_wrt (>) xs" "2 \<le> m"
  shows "length (filter (\<lambda>x. a \<le> x \<and> x \<le> a + w) xs) \<le> 2 * m - 1"
proof (rule ccontr)
  let ?d = "dropWhile (\<lambda>x. a + w < x) xs"
  let ?f = "takeWhile (\<lambda>x. a \<le> x) ?d"
  let ?n = "length (takeWhile (\<lambda>x. a + w < x) xs)"
  assume "\<not> ?thesis"
  then have n: "2 * m - 1 < length ?f" unfolding sorted_desc_interval [OF assms(2)] by simp
  have lf: "length ?f \<le> length ?d" by (rule length_takeWhile_le)
  have d: "?d = drop ?n xs" by (rule dropWhile_eq_drop)
  have at: "?f ! i = xs ! (?n + i)" if "i < length ?f" for i
    using that lf takeWhile_nth [OF that] unfolding d by simp
  have len: "?n + (2 * m - 1) < length xs" using n lf unfolding d by simp
  have "?f ! 0 \<in> set ?f" "?f ! (2 * m - 1) \<in> set ?f" using n by (auto intro!: nth_mem)
  then have "?f ! 0 \<le> a + w" "a \<le> ?f ! (2 * m - 1)"
    unfolding sorted_desc_interval [OF assms(2), symmetric] by auto
  moreover have "xs ! ?n - xs ! (?n + (2 * m - 1)) > w" using assms(1) len by (simp add: spread_def)
  moreover have "?f ! 0 = xs ! ?n" "?f ! (2 * m - 1) = xs ! (?n + (2 * m - 1))"
    using at [of 0] at [OF n] n by (metis add_0_right gr_zeroI not_less_zero) (rule at [OF n])
  ultimately show False by simp
qed


definition spray :: "(gotime \<times> string list) list" where
  "spray = map (\<lambda>i. (int i * second, [''ip:10.0.0.9'', ''user:root''])) [1 ..< 40]"

lemma spray_facts:
  "guesses ''user:root'' (NewLoginLimiter (int 2) minute minute) [] spray = map (\<lambda>i. i * second) [2, 1]"
  "sorted_wrt (<) (map fst spray)" "list_all (\<lambda>(t, keys). distinct keys) spray"
  by code_simp+


end
