(* ===== verification/Auth_Store.thy ===== *)
theory Auth_Store
  imports Auth_RBAC Login_Limiter Database
begin

text \<open>
  The auth repository of \<^verbatim>\<open>internal/auth/store.go\<close> and the last-administrator guard of
  \<^verbatim>\<open>internal/auth/lastadmin.go\<close>: users, sessions, membership of the Default workspace and the
  audit log.

  Not part of the repository, and so fields of the state: PostgreSQL's reading of a \<^verbatim>\<open>uuid\<close> and of
  an \<^verbatim>\<open>inet\<close> (\<open>None\<close>, respectively \<open>False\<close>, for a text it refuses), Argon2id
  (\<open>at_hash n\<close> with the \<open>n\<close>-th salt, \<open>None\<close> when the random source fails), the TOTP check, the
  random tokens and SHA-256.
\<close>

section \<open>State\<close>

record user_row =
  ur_id :: string
  ur_username :: string
  ur_password_hash :: string
  ur_role :: role
  ur_disabled :: bool
  ur_totp_secret :: "string option"
  ur_created_at :: gotime
  ur_permissions :: "permission list option"

record session_row =
  se_user_id :: string
  se_token_hash :: string
  se_expires_at :: gotime
  se_last_seen_at :: "gotime option"

record audit_row =
  ad_actor :: string
  ad_role :: string
  ad_action :: string
  ad_target :: "string option"
  ad_detail :: "string option"
  ad_source_ip :: "string option"

record auth_db = db +
  at_users :: "user_row list"
  at_sessions :: "session_row list"
  at_members :: "string list"
  at_default_workspace :: bool
  at_audit :: "audit_row list"
  at_uuid_in :: "string \<Rightarrow> string option"
  at_inet_ok :: "string \<Rightarrow> bool"
  at_hash :: "nat \<Rightarrow> string \<Rightarrow> string option"
  at_verify :: "string \<Rightarrow> string \<Rightarrow> bool"
  at_totp :: "gotime \<Rightarrow> string \<Rightarrow> string \<Rightarrow> bool"
  at_token :: "nat \<Rightarrow> string"
  at_sha :: "string \<Rightarrow> string"
  at_draws :: nat
  at_limiter :: login_limiter
  at_min_password :: int

record user_info =
  ui_ID :: string
  ui_Username :: string
  ui_Role :: role
  ui_Disabled :: bool
  ui_CreatedAt :: gotime
  ui_Permissions :: "permission list option"

section \<open>Users\<close>

definition ListUsers :: "auth_db \<Rightarrow> (auth_error + user_info list) \<times> auth_db" where
  "ListUsers w =
     (case query w of
        (True, w1) \<Rightarrow> (Inl ErrDB, w1)
      | (False, w1) \<Rightarrow>
          (Inr (map (\<lambda>r. \<lparr>ui_ID = ur_id r, ui_Username = ur_username r, ui_Role = ur_role r, ui_Disabled = ur_disabled r,
                         ui_CreatedAt = ur_created_at r, ui_Permissions = ur_permissions r\<rparr>)
                (sort_key ur_created_at (at_users w1))), w1))"

definition UserCount :: "auth_db \<Rightarrow> (auth_error + int) \<times> auth_db" where
  "UserCount w =
     (case query w of (True, w1) \<Rightarrow> (Inl ErrDB, w1) | (False, w1) \<Rightarrow> (Inr (int (length (at_users w1))), w1))"

definition HashPassword :: "string \<Rightarrow> auth_db \<Rightarrow> (auth_error + string) \<times> auth_db" where
  "HashPassword password w =
     (case at_hash w (at_draws w) password of
        None \<Rightarrow> (Inl ErrHash, w\<lparr>at_draws := Suc (at_draws w)\<rparr>)
      | Some h \<Rightarrow> (Inr h, w\<lparr>at_draws := Suc (at_draws w)\<rparr>))"

text \<open>
  One transaction: begin, the user, the membership, commit. A statement that fails, a taken user name
  among them, leaves the tables as they were.
\<close>

definition CreateUser ::
    "string \<Rightarrow> string \<Rightarrow> role \<Rightarrow> permission list option \<Rightarrow> auth_db \<Rightarrow> (auth_error + unit) \<times> auth_db" where
  "CreateUser username password role perms w =
     (if \<not> role_Valid role then (Inl (ErrInvalidRole role), w)
      else case HashPassword password w of
        (Inl e, w1) \<Rightarrow> (Inl e, w1)
      | (Inr h, w1) \<Rightarrow>
          (case query w1 of
             (True, w2) \<Rightarrow> (Inl ErrDB, w2)
           | (False, w2) \<Rightarrow>
          (case query w2 of
             (True, w3) \<Rightarrow> (Inl ErrDB, w3)
           | (False, w3) \<Rightarrow>
               if list_ex (\<lambda>r. ur_username r = username) (at_users w3) then (Inl ErrDB, w3)
               else
                 (case fresh_id w3 of
                    (uid, w4) \<Rightarrow>
                 (case query w4 of
                    (True, w5) \<Rightarrow> (Inl ErrDB, w5)
                  | (False, w5) \<Rightarrow>
                 (case query w5 of
                    (True, w6) \<Rightarrow> (Inl ErrDB, w6)
                  | (False, w6) \<Rightarrow>
                      (Inr (), w6\<lparr>at_users := at_users w6 @
                           [\<lparr>ur_id = uid, ur_username = username, ur_password_hash = h, ur_role = role, ur_disabled = False,
                             ur_totp_secret = None, ur_created_at = db_clock w6, ur_permissions = perms\<rparr>],
                         at_members := (if at_default_workspace w6 then at_members w6 @ [uid] else at_members w6)\<rparr>)))))))"

text \<open>\<^verbatim>\<open>UPDATE users SET ... WHERE id=$n\<close> and its row count; the text of the identifier is read by the server.\<close>

definition update_user ::
    "string \<Rightarrow> (user_row \<Rightarrow> user_row) \<Rightarrow> auth_db \<Rightarrow> (auth_error + int) \<times> auth_db" where
  "update_user uid f w =
     (case query w of
        (True, w1) \<Rightarrow> (Inl ErrDB, w1)
      | (False, w1) \<Rightarrow>
          (case at_uuid_in w1 uid of
             None \<Rightarrow> (Inl ErrDB, w1)
           | Some u \<Rightarrow> (let (rs, n) = update_rows (\<lambda>r. ur_id r = u) f (at_users w1) in (Inr n, w1\<lparr>at_users := rs\<rparr>))))"

definition affected :: "(auth_error + int) \<times> auth_db \<Rightarrow> (auth_error + unit) \<times> auth_db" where
  "affected r = (case r of (Inl e, w) \<Rightarrow> (Inl e, w) | (Inr n, w) \<Rightarrow> (if n = 0 then Inl ErrUserNotFound else Inr (), w))"

definition UpdateUser :: "string \<Rightarrow> role \<Rightarrow> permission list option \<Rightarrow> auth_db \<Rightarrow> (auth_error + unit) \<times> auth_db" where
  "UpdateUser uid role perms w =
     (if \<not> role_Valid role then (Inl (ErrInvalidRole role), w)
      else affected (update_user uid (\<lambda>r. r\<lparr>ur_role := role, ur_permissions := perms\<rparr>) w))"

definition EnsureAdmin :: "string \<Rightarrow> string \<Rightarrow> auth_db \<Rightarrow> (auth_error + bool) \<times> auth_db" where
  "EnsureAdmin username password w =
     (case UserCount w of
        (Inl e, w1) \<Rightarrow> (Inl e, w1)
      | (Inr n, w1) \<Rightarrow>
          if n > 0 then (Inr False, w1)
          else (case CreateUser username password RoleAdmin None w1 of
                  (Inl e, w2) \<Rightarrow> (Inl e, w2)
                | (Inr _, w2) \<Rightarrow> (Inr True, w2)))"

text \<open>\<^verbatim>\<open>SELECT ... FROM users WHERE id=$1\<close>; no row is an error of the driver.\<close>

definition fetch_user :: "string \<Rightarrow> auth_db \<Rightarrow> (auth_error + user_row) \<times> auth_db" where
  "fetch_user uid w =
     (case query w of
        (True, w1) \<Rightarrow> (Inl ErrDB, w1)
      | (False, w1) \<Rightarrow>
          (case at_uuid_in w1 uid of
             None \<Rightarrow> (Inl ErrDB, w1)
           | Some u \<Rightarrow> (case find (\<lambda>r. ur_id r = u) (at_users w1) of
                          None \<Rightarrow> (Inl ErrDB, w1) | Some r \<Rightarrow> (Inr r, w1))))"

definition ChangePassword :: "string \<Rightarrow> string \<Rightarrow> string \<Rightarrow> auth_db \<Rightarrow> (auth_error + unit) \<times> auth_db" where
  "ChangePassword uid current newPass w =
     (case fetch_user uid w of
        (Inl e, w1) \<Rightarrow> (Inl e, w1)
      | (Inr r, w1) \<Rightarrow>
          if \<not> at_verify w1 current (ur_password_hash r) then (Inl ErrMismatch, w1)
          else (case HashPassword newPass w1 of
                  (Inl e, w2) \<Rightarrow> (Inl e, w2)
                | (Inr h, w2) \<Rightarrow>
                    (case update_user uid (\<lambda>r. r\<lparr>ur_password_hash := h\<rparr>) w2 of
                       (Inl e, w3) \<Rightarrow> (Inl e, w3)
                     | (Inr _, w3) \<Rightarrow> (Inr (), w3))))"

text \<open>Sessions and memberships go with their user.\<close>

definition DeleteUser :: "string \<Rightarrow> auth_db \<Rightarrow> (auth_error + unit) \<times> auth_db" where
  "DeleteUser uid w =
     (case query w of
        (True, w1) \<Rightarrow> (Inl ErrDB, w1)
      | (False, w1) \<Rightarrow>
          (case at_uuid_in w1 uid of
             None \<Rightarrow> (Inl ErrDB, w1)
           | Some u \<Rightarrow>
               if count_rows (\<lambda>r. ur_id r = u) (at_users w1) = 0 then (Inl ErrUserNotFound, w1)
               else (Inr (), w1\<lparr>at_users := filter (\<lambda>r. ur_id r \<noteq> u) (at_users w1),
                                at_sessions := filter (\<lambda>s. se_user_id s \<noteq> u) (at_sessions w1),
                                at_members := filter (\<lambda>m. m \<noteq> u) (at_members w1)\<rparr>)))"

section \<open>Sessions\<close>

definition user_of :: "user_row \<Rightarrow> auth_user" where
  "user_of r = \<lparr>au_ID = ur_id r, au_Username = ur_username r, au_Role = ur_role r, au_Disabled = ur_disabled r,
     au_Permissions = ur_permissions r\<rparr>"

definition hashToken :: "string \<Rightarrow> auth_db \<Rightarrow> string" where
  "hashToken raw w = at_sha w raw"

definition newToken :: "auth_db \<Rightarrow> string \<times> string \<times> auth_db" where
  "newToken w = (let raw = at_token w (at_draws w) in (raw, hashToken raw w, w\<lparr>at_draws := Suc (at_draws w)\<rparr>))"

definition Login ::
    "string \<Rightarrow> string \<Rightarrow> string \<Rightarrow> duration \<Rightarrow> auth_db \<Rightarrow> (auth_error + auth_user \<times> string) \<times> auth_db" where
  "Login username password totpCode ttl w =
     (case query w of
        (True, w1) \<Rightarrow> (Inl ErrDB, w1)
      | (False, w1) \<Rightarrow>
     (case find (\<lambda>r. ur_username r = username) (at_users w1) of
        None \<Rightarrow> (Inl ErrAuth, w1)
      | Some r \<Rightarrow>
          if ur_disabled r \<or> \<not> at_verify w1 password (ur_password_hash r) then (Inl ErrAuth, w1)
          else
            let secret = coalesce_str (ur_totp_secret r) in
            if secret \<noteq> [] \<and> totpCode = [] then (Inl Err2FARequired, w1)
            else if secret \<noteq> [] \<and> \<not> at_totp w1 (db_clock w1) secret totpCode then (Inl ErrAuth, w1)
            else (case newToken w1 of
                    (raw, th, w2) \<Rightarrow>
                  (case query w2 of
                     (True, w3) \<Rightarrow> (Inl ErrDB, w3)
                   | (False, w3) \<Rightarrow>
                       if list_ex (\<lambda>s. se_token_hash s = th) (at_sessions w3) then (Inl ErrDB, w3)
                       else (Inr (user_of r, raw),
                             w3\<lparr>at_sessions := at_sessions w3 @
                               [\<lparr>se_user_id = ur_id r, se_token_hash = th, se_expires_at = db_clock w3 + ttl,
                                 se_last_seen_at = None\<rparr>]\<rparr>)))))"

text \<open>The row of the join of sessions and users for a token that has not expired.\<close>

definition session_row_of :: "string \<Rightarrow> auth_db \<Rightarrow> user_row option" where
  "session_row_of th w =
     (case find (\<lambda>s. se_token_hash s = th \<and> se_expires_at s > db_clock w) (at_sessions w) of
        None \<Rightarrow> None
      | Some s \<Rightarrow> find (\<lambda>r. ur_id r = se_user_id s) (at_users w))"

definition SessionUser :: "string \<Rightarrow> auth_db \<Rightarrow> (auth_error + auth_user) \<times> auth_db" where
  "SessionUser rawToken w =
     (if rawToken = [] then (Inl ErrAuth, w)
      else case query w of
        (True, w1) \<Rightarrow> (Inl ErrDB, w1)
      | (False, w1) \<Rightarrow>
          let th = hashToken rawToken w1 in
          (case session_row_of th w1 of
             None \<Rightarrow> (Inl ErrAuth, w1)
           | Some r \<Rightarrow>
               if ur_disabled r then (Inl ErrAuth, w1)
               else (case query w1 of
                       (True, w2) \<Rightarrow> (Inr (user_of r), w2)
                     | (False, w2) \<Rightarrow>
                         (Inr (user_of r), w2\<lparr>at_sessions := map (\<lambda>s. if se_token_hash s = th
                            then s\<lparr>se_last_seen_at := Some (db_clock w2)\<rparr> else s) (at_sessions w2)\<rparr>))))"

definition Logout :: "string \<Rightarrow> auth_db \<Rightarrow> (auth_error + unit) \<times> auth_db" where
  "Logout rawToken w =
     (case query w of
        (True, w1) \<Rightarrow> (Inl ErrDB, w1)
      | (False, w1) \<Rightarrow>
          (Inr (), w1\<lparr>at_sessions := filter (\<lambda>s. se_token_hash s \<noteq> hashToken rawToken w1) (at_sessions w1)\<rparr>))"

section \<open>Second factor and audit\<close>

definition totpSecretOf :: "string \<Rightarrow> auth_db \<Rightarrow> (auth_error + string) \<times> auth_db" where
  "totpSecretOf uid w =
     (case fetch_user uid w of (Inl e, w1) \<Rightarrow> (Inl e, w1) | (Inr r, w1) \<Rightarrow> (Inr (coalesce_str (ur_totp_secret r)), w1))"

definition HasTOTP :: "string \<Rightarrow> auth_db \<Rightarrow> (auth_error + bool) \<times> auth_db" where
  "HasTOTP uid w =
     (case fetch_user uid w of (Inl e, w1) \<Rightarrow> (Inl e, w1) | (Inr r, w1) \<Rightarrow> (Inr (coalesce_str (ur_totp_secret r) \<noteq> []), w1))"

definition SetTOTPSecret :: "string \<Rightarrow> string \<Rightarrow> auth_db \<Rightarrow> (auth_error + unit) \<times> auth_db" where
  "SetTOTPSecret uid secret w =
     (case update_user uid (\<lambda>r. r\<lparr>ur_totp_secret := Some secret\<rparr>) w of (Inl e, w1) \<Rightarrow> (Inl e, w1) | (Inr _, w1) \<Rightarrow> (Inr (), w1))"

definition ClearTOTPSecret :: "string \<Rightarrow> auth_db \<Rightarrow> (auth_error + unit) \<times> auth_db" where
  "ClearTOTPSecret uid w =
     (case update_user uid (\<lambda>r. r\<lparr>ur_totp_secret := None\<rparr>) w of (Inl e, w1) \<Rightarrow> (Inl e, w1) | (Inr _, w1) \<Rightarrow> (Inr (), w1))"

definition Audit :: "string \<Rightarrow> string \<Rightarrow> string \<Rightarrow> string \<Rightarrow> string \<Rightarrow> string \<Rightarrow> auth_db \<Rightarrow> auth_db" where
  "Audit actor role act target detail sourceIP w =
     (case query w of
        (True, w1) \<Rightarrow> w1
      | (False, w1) \<Rightarrow>
          if sourceIP \<noteq> [] \<and> \<not> at_inet_ok w1 sourceIP then w1
          else w1\<lparr>at_audit := at_audit w1 @
                 [\<lparr>ad_actor = actor, ad_role = role, ad_action = act, ad_target = strOrNil target,
                   ad_detail = strOrNil detail, ad_source_ip = strOrNil sourceIP\<rparr>]\<rparr>)"

section \<open>The last administrator\<close>

definition canManageUsers :: "role \<Rightarrow> permission list option \<Rightarrow> bool" where
  "canManageUsers role perms =
     user_Can \<lparr>au_ID = [], au_Username = [], au_Role = role, au_Disabled = False, au_Permissions = perms\<rparr> PermManageUsers"

definition still_admin :: "string \<Rightarrow> user_info option \<Rightarrow> user_info \<Rightarrow> bool" where
  "still_admin targetID after u =
     (case (if ui_ID u = targetID then after else Some u) of
        None \<Rightarrow> False
      | Some v \<Rightarrow> \<not> ui_Disabled v \<and> canManageUsers (ui_Role v) (ui_Permissions v))"

definition remainingAdmins :: "string \<Rightarrow> user_info option \<Rightarrow> auth_db \<Rightarrow> (auth_error + int) \<times> auth_db" where
  "remainingAdmins targetID after w =
     (case ListUsers w of
        (Inl e, w1) \<Rightarrow> (Inl e, w1)
      | (Inr users, w1) \<Rightarrow> (Inr (count_rows (still_admin targetID after) users), w1))"

definition guardLastAdmin :: "string \<Rightarrow> user_info option \<Rightarrow> string \<Rightarrow> auth_db \<Rightarrow> (auth_error + unit) \<times> auth_db" where
  "guardLastAdmin targetID after act w =
     (case remainingAdmins targetID after w of
        (Inl e, w1) \<Rightarrow> (Inl e, w1)
      | (Inr n, w1) \<Rightarrow> (if n = 0 then Inl (ErrLastAdmin act) else Inr (), w1))"

section \<open>Facts\<close>

declare query_frame [simp del]

lemma query_at:
  assumes "query w = (b, w')"
  shows "at_users w' = at_users w" "at_sessions w' = at_sessions w" "at_uuid_in w' = at_uuid_in w"
    "at_sha w' = at_sha w" "at_draws w' = at_draws w" "at_token w' = at_token w" "at_verify w' = at_verify w" "at_hash w' = at_hash w"
    "at_default_workspace w' = at_default_workspace w" "at_members w' = at_members w"
  using assms by (auto simp: query_def split: list.splits)

text \<open>What no statement but those on users and identifiers changes.\<close>

definition same_users :: "auth_db \<Rightarrow> auth_db \<Rightarrow> bool" where
  "same_users w w' = (at_users w' = at_users w \<and> at_uuid_in w' = at_uuid_in w \<and> db_uuid w' = db_uuid w \<and> db_seq w \<le> db_seq w')"

lemma same_users_refl [simp]: "same_users w w"
  by (simp add: same_users_def)

lemma same_users_trans: "same_users w w' \<Longrightarrow> same_users w' w'' \<Longrightarrow> same_users w w''"
  by (simp add: same_users_def)

lemma same_users_query: "query w = (b, w') \<Longrightarrow> same_users w w'"
  by (auto simp: same_users_def query_def split: list.splits)

lemma same_users_Audit [simp]: "same_users w (Audit a b c d e f w)"
proof -
  obtain b w1 where q: "query w = (b, w1)" by force
  from same_users_query [OF this] show ?thesis by (simp add: Audit_def q same_users_def split: bool.splits)
qed

lemma same_users_ListUsers: "ListUsers w = (r, w') \<Longrightarrow> same_users w w'"
  by (auto simp: ListUsers_def split: prod.splits bool.splits dest: same_users_query)

lemma same_users_guard: "guardLastAdmin i after act w = (r, w') \<Longrightarrow> same_users w w'"
  by (auto simp: guardLastAdmin_def remainingAdmins_def split: prod.splits sum.splits dest: same_users_ListUsers)

lemma same_users_Login: "Login u p c ttl w = (r, w') \<Longrightarrow> same_users w w'"
  by (auto simp: Login_def newToken_def Let_def same_users_def query_def
      split: bool.splits list.splits option.splits if_splits)

lemma same_users_SessionUser: "SessionUser raw w = (r, w') \<Longrightarrow> same_users w w'"
  by (auto simp: SessionUser_def Let_def same_users_def query_def
      split: bool.splits list.splits option.splits if_splits)

lemma same_users_Logout: "Logout raw w = (r, w') \<Longrightarrow> same_users w w'"
  by (auto simp: Logout_def same_users_def query_def split: bool.splits list.splits)

end
