(* ===== verification/Auth_Handlers.thy ===== *)
theory Auth_Handlers
  imports Auth_Store Go_Net
begin

text \<open>
  The HTTP layer of \<^verbatim>\<open>internal/auth\<close>: \<^verbatim>\<open>middleware.go\<close> and the state-changing handlers of
  \<^verbatim>\<open>handlers.go\<close>. Decoding JSON is the standard library's: a handler gets the decoded body, \<open>None\<close>
  for one that does not decode, and the user the middleware put into the context. Of a response the
  status, the session token and the Retry-After header are kept.
\<close>

section \<open>Requests\<close>

record http_req =
  hr_method :: string
  hr_remote :: string
  hr_xff :: string
  hr_authorization :: string

record http_resp =
  hs_status :: int
  hs_token :: "string option"
  hs_retry_after :: "int option"

definition http_status :: "int \<Rightarrow> http_resp" where
  "http_status n = \<lparr>hs_status = n, hs_token = None, hs_retry_after = None\<rparr>"

definition bearerToken :: "http_req \<Rightarrow> string" where
  "bearerToken r =
     (if has_prefix (hr_authorization r) ''Bearer '' then drop 7 (hr_authorization r) else [])"

text \<open>\<^verbatim>\<open>net.SplitHostPort\<close>: the host part, or \<open>None\<close> for an error.\<close>

definition split_host_port :: "string \<Rightarrow> string option" where
  "split_host_port s =
     (case last_index_byte s CHR '':'' of
        None \<Rightarrow> None
      | Some i \<Rightarrow>
          if s ! 0 = CHR ''['' then
            (case index_byte s CHR '']'' of
               None \<Rightarrow> None
             | Some e \<Rightarrow>
                 if e + 1 \<noteq> i then None
                 else if CHR ''['' \<in> set (drop 1 s) \<or> CHR '']'' \<in> set (drop (e + 1) s) then None
                 else Some (take (e - 1) (drop 1 s)))
          else if CHR '':'' \<in> set (take i s) then None
          else if CHR ''['' \<in> set s \<or> CHR '']'' \<in> set s then None
          else Some (take i s))"

section \<open>The caller's address\<close>

fun proxy_nets :: "string list \<Rightarrow> ipnet list \<times> string list" where
  "proxy_nets [] = ([], [])"
| "proxy_nets (p # ps) =
     (let part = trim_space p;
          part' = (if CHR ''/'' \<in> set part then part
                   else if CHR '':'' \<in> set part then part @ ''/128'' else part @ ''/32'')
      in case proxy_nets ps of
           (nets, bad) \<Rightarrow>
             if part = [] then (nets, bad)
             else (case parse_cidr part' of Some n \<Rightarrow> (n # nets, bad) | None \<Rightarrow> (nets, part' # bad)))"

definition SetTrustedProxies :: "string \<Rightarrow> ipnet list \<times> string list" where
  "SetTrustedProxies lst = proxy_nets (split_char CHR '','' lst)"

definition isTrustedProxy :: "ipnet list \<Rightarrow> ip \<Rightarrow> bool" where
  "isTrustedProxy trusted a = list_ex (\<lambda>n. net_contains n a) trusted"

text \<open>The hops from the right; \<open>None\<close> when the loop ends without an untrusted one.\<close>

fun walk_hops :: "ipnet list \<Rightarrow> string list \<Rightarrow> string option" where
  "walk_hops trusted [] = None"
| "walk_hops trusted (h # hs) =
     (let hop = trim_space h in
      case parse_ip hop of
        None \<Rightarrow> None
      | Some a \<Rightarrow> if \<not> isTrustedProxy trusted a then Some hop else walk_hops trusted hs)"

definition ClientIP :: "ipnet list \<Rightarrow> http_req \<Rightarrow> string" where
  "ClientIP trusted r =
     (let host = (case split_host_port (hr_remote r) of Some h \<Rightarrow> h | None \<Rightarrow> hr_remote r) in
      case parse_ip host of
        None \<Rightarrow> host
      | Some peer \<Rightarrow>
          if \<not> isTrustedProxy trusted peer then host
          else (case walk_hops trusted (rev (split_char CHR '','' (hr_xff r))) of Some hop \<Rightarrow> hop | None \<Rightarrow> host))"

section \<open>Middleware\<close>

definition Middleware :: "http_req \<Rightarrow> auth_db \<Rightarrow> (http_resp + auth_user) \<times> auth_db" where
  "Middleware r w =
     (case SessionUser (bearerToken r) w of
        (Inr u, w1) \<Rightarrow> (Inr u, w1)
      | (Inl e, w1) \<Rightarrow> (Inl (http_status (if e = ErrAuth then 401 else 503)), w1))"

definition RequirePermission :: "permission \<Rightarrow> auth_user option \<Rightarrow> http_resp option" where
  "RequirePermission p mu =
     (case mu of
        None \<Rightarrow> Some (http_status 403)
      | Some u \<Rightarrow> if \<not> user_Can u p then Some (http_status 403) else None)"

section \<open>Login and registration\<close>

definition SessionTTL :: duration where
  "SessionTTL = 24 * hour"

definition too_many :: "duration \<Rightarrow> http_resp" where
  "too_many wait = \<lparr>hs_status = 429, hs_token = None, hs_retry_after = Some (seconds_of wait + 1)\<rparr>"

definition limiter_fail :: "string list \<Rightarrow> auth_db \<Rightarrow> bool \<times> auth_db" where
  "limiter_fail keys w =
     (case Fail (db_clock w) keys (at_limiter w) of (locked, l) \<Rightarrow> (locked, w\<lparr>at_limiter := l\<rparr>))"

definition login_keys :: "string \<Rightarrow> string \<Rightarrow> string list" where
  "login_keys addr username = [''ip:'' @ addr, ''user:'' @ to_lower username]"

definition LoginHandler ::
    "ipnet list \<Rightarrow> http_req \<Rightarrow> (string \<times> string \<times> string) option \<Rightarrow> auth_db \<Rightarrow> http_resp \<times> auth_db" where
  "LoginHandler trusted r body w =
     (if hr_method r \<noteq> ''POST'' then (http_status 405, w)
      else case body of
        None \<Rightarrow> (http_status 400, w)
      | Some (username, password, totp) \<Rightarrow>
          let addr = ClientIP trusted r; keys = login_keys addr username;
              wait = RetryAfter (db_clock w) keys (at_limiter w)
          in if wait > 0 then (too_many wait, w)
             else (case Login username password totp SessionTTL w of
                     (Inl e, w1) \<Rightarrow>
                       if e = Err2FARequired then (http_status 401, w1)
                       else (case limiter_fail keys w1 of
                               (locked, w2) \<Rightarrow>
                                 let w3 = (if locked then Audit username [] ''login_locked'' [] ''too many failed attempts'' addr w2
                                           else w2)
                                 in (http_status 401, Audit username [] ''login_failed'' [] [] addr w3))
                   | (Inr (u, token), w1) \<Rightarrow>
                       let w2 = w1\<lparr>at_limiter := Reset keys (at_limiter w1)\<rparr>
                       in (\<lparr>hs_status = 200, hs_token = Some token, hs_retry_after = None\<rparr>,
                           Audit (au_Username u) (au_Role u) ''login'' [] [] addr w2)))"

definition RegisterHandler ::
    "ipnet list \<Rightarrow> http_req \<Rightarrow> (string \<times> string) option \<Rightarrow> auth_db \<Rightarrow> http_resp \<times> auth_db" where
  "RegisterHandler trusted r body w =
     (if hr_method r \<noteq> ''POST'' then (http_status 405, w)
      else case body of
        None \<Rightarrow> (http_status 400, w)
      | Some (username, password) \<Rightarrow>
          if length username < 3 then (http_status 400, w)
          else if ValidatePassword (at_min_password w) username password \<noteq> None then (http_status 400, w)
          else
            let addr = ClientIP trusted r; wait = RetryAfter (db_clock w) [''reg:'' @ addr] (at_limiter w)
            in if wait > 0 then (too_many wait, w)
               else (case limiter_fail [''reg:'' @ addr] w of
                       (_, w1) \<Rightarrow>
                     (case CreateUser username password RoleViewer None w1 of
                        (Inl _, w2) \<Rightarrow> (http_status 400, w2)
                      | (Inr _, w2) \<Rightarrow>
                          (case Login username password [] SessionTTL (Audit username RoleViewer ''register'' username [] addr w2) of
                             (Inl _, w3) \<Rightarrow> (http_status 201, w3)
                           | (Inr (u, token), w3) \<Rightarrow>
                               (\<lparr>hs_status = 201, hs_token = Some token, hs_retry_after = None\<rparr>, w3)))))"

definition LogoutHandler :: "http_req \<Rightarrow> auth_db \<Rightarrow> http_resp \<times> auth_db" where
  "LogoutHandler r w =
     (http_status 204, if bearerToken r \<noteq> [] then snd (Logout (bearerToken r) w) else w)"

section \<open>Managing users\<close>

definition actorName :: "auth_user option \<Rightarrow> string" where
  "actorName mu = (case mu of Some u \<Rightarrow> au_Username u | None \<Rightarrow> ''unknown'')"

definition actorRole :: "auth_user option \<Rightarrow> string" where
  "actorRole mu = (case mu of Some u \<Rightarrow> au_Role u | None \<Rightarrow> [])"

definition UsersHandler ::
    "ipnet list \<Rightarrow> http_req \<Rightarrow> auth_user option \<Rightarrow> (string \<times> string \<times> string \<times> string list option) option \<Rightarrow>
     auth_db \<Rightarrow> http_resp \<times> auth_db" where
  "UsersHandler trusted r actor body w =
     (if hr_method r = ''GET'' then
        (case ListUsers w of (Inl _, w1) \<Rightarrow> (http_status 500, w1) | (Inr _, w1) \<Rightarrow> (http_status 200, w1))
      else if hr_method r = ''POST'' then
        (case body of
           None \<Rightarrow> (http_status 400, w)
         | Some (username, password, roleText, permsRaw) \<Rightarrow>
             (case (ParseRole roleText, parsePermissions permsRaw) of
                (Inr role, Inr perms) \<Rightarrow>
                  if length username < 3 then (http_status 400, w)
                  else if ValidatePassword (at_min_password w) username password \<noteq> None then (http_status 400, w)
                  else (case CreateUser username password role perms w of
                          (Inl _, w1) \<Rightarrow> (http_status 400, w1)
                        | (Inr _, w1) \<Rightarrow>
                            (http_status 201, Audit (actorName actor) (actorRole actor) ''create_user'' username
                               (''role='' @ roleText) (ClientIP trusted r) w1))
              | _ \<Rightarrow> (http_status 400, w)))
      else (http_status 405, w))"

definition UpdateUserHandler ::
    "ipnet list \<Rightarrow> http_req \<Rightarrow> auth_user option \<Rightarrow> string \<Rightarrow> (string \<times> string list option) option \<Rightarrow>
     auth_db \<Rightarrow> http_resp \<times> auth_db" where
  "UpdateUserHandler trusted r actor uid body w =
     (if uid = [] then (http_status 400, w)
      else case body of
        None \<Rightarrow> (http_status 400, w)
      | Some (roleText, permsRaw) \<Rightarrow>
          (case (ParseRole roleText, parsePermissions permsRaw) of
             (Inr role, Inr perms) \<Rightarrow>
               let after = \<lparr>ui_ID = uid, ui_Username = [], ui_Role = role, ui_Disabled = False, ui_CreatedAt = 0,
                            ui_Permissions = perms\<rparr>
               in (case guardLastAdmin uid (Some after) (''change this user'' @ [CHR 0x27] @ ''s access'') w of
                     (Inl _, w1) \<Rightarrow> (http_status 400, w1)
                   | (Inr _, w1) \<Rightarrow>
                       (case UpdateUser uid role perms w1 of
                          (Inl _, w2) \<Rightarrow> (http_status 400, w2)
                        | (Inr _, w2) \<Rightarrow>
                            (http_status 200, Audit (actorName actor) (actorRole actor) ''update_user'' uid
                               (''role='' @ roleText) (ClientIP trusted r) w2)))
           | _ \<Rightarrow> (http_status 400, w)))"

definition DeleteUserHandler ::
    "ipnet list \<Rightarrow> http_req \<Rightarrow> auth_user option \<Rightarrow> string \<Rightarrow> auth_db \<Rightarrow> http_resp \<times> auth_db" where
  "DeleteUserHandler trusted r actor uid w =
     (if uid = [] then (http_status 400, w)
      else if (case actor of Some u \<Rightarrow> au_ID u = uid | None \<Rightarrow> False) then (http_status 400, w)
      else (case guardLastAdmin uid None ''delete this user'' w of
              (Inl _, w1) \<Rightarrow> (http_status 400, w1)
            | (Inr _, w1) \<Rightarrow>
                (case DeleteUser uid w1 of
                   (Inl _, w2) \<Rightarrow> (http_status 400, w2)
                 | (Inr _, w2) \<Rightarrow>
                     (http_status 200, Audit (actorName actor) (actorRole actor) ''delete_user'' uid []
                        (ClientIP trusted r) w2))))"

section \<open>The caller's own account\<close>

definition Enable2FAHandler ::
    "ipnet list \<Rightarrow> http_req \<Rightarrow> auth_user option \<Rightarrow> (string \<times> string) option \<Rightarrow> auth_db \<Rightarrow> http_resp \<times> auth_db" where
  "Enable2FAHandler trusted r actor body w =
     (case actor of
        None \<Rightarrow> (http_status 401, w)
      | Some u \<Rightarrow>
          (case body of
             None \<Rightarrow> (http_status 400, w)
           | Some (secret, code) \<Rightarrow>
               if secret = [] \<or> \<not> at_totp w (db_clock w) secret code then (http_status 400, w)
               else (case SetTOTPSecret (au_ID u) secret w of
                       (Inl _, w1) \<Rightarrow> (http_status 500, w1)
                     | (Inr _, w1) \<Rightarrow>
                         (http_status 200, Audit (au_Username u) (au_Role u) ''enable_2fa'' (au_Username u) []
                            (ClientIP trusted r) w1))))"

definition Disable2FAHandler ::
    "ipnet list \<Rightarrow> http_req \<Rightarrow> auth_user option \<Rightarrow> string option \<Rightarrow> auth_db \<Rightarrow> http_resp \<times> auth_db" where
  "Disable2FAHandler trusted r actor body w =
     (case actor of
        None \<Rightarrow> (http_status 401, w)
      | Some u \<Rightarrow>
          (case body of
             None \<Rightarrow> (http_status 400, w)
           | Some code \<Rightarrow>
               (case totpSecretOf (au_ID u) w of
                  (Inl _, w1) \<Rightarrow> (http_status 400, w1)
                | (Inr secret, w1) \<Rightarrow>
                    if secret = [] then (http_status 400, w1)
                    else if \<not> at_totp w1 (db_clock w1) secret code then (http_status 400, w1)
                    else (case ClearTOTPSecret (au_ID u) w1 of
                            (Inl _, w2) \<Rightarrow> (http_status 500, w2)
                          | (Inr _, w2) \<Rightarrow>
                              (http_status 200, Audit (au_Username u) (au_Role u) ''disable_2fa'' (au_Username u) []
                                 (ClientIP trusted r) w2)))))"

definition ChangePasswordHandler ::
    "ipnet list \<Rightarrow> http_req \<Rightarrow> auth_user option \<Rightarrow> (string \<times> string) option \<Rightarrow> auth_db \<Rightarrow> http_resp \<times> auth_db" where
  "ChangePasswordHandler trusted r actor body w =
     (case actor of
        None \<Rightarrow> (http_status 401, w)
      | Some u \<Rightarrow>
          (case body of
             None \<Rightarrow> (http_status 400, w)
           | Some (current, newPass) \<Rightarrow>
               if ValidatePassword (at_min_password w) (au_Username u) newPass \<noteq> None then (http_status 400, w)
               else (case ChangePassword (au_ID u) current newPass w of
                       (Inl _, w1) \<Rightarrow> (http_status 400, w1)
                     | (Inr _, w1) \<Rightarrow>
                         (http_status 200, Audit (au_Username u) (au_Role u) ''change_password'' (au_Username u) []
                            (ClientIP trusted r) w1))))"

end
