(* ===== verification/Auth_Props.thy ===== *)
theory Auth_Props
  imports Auth_Handlers
begin

text \<open>
  What the auth component guarantees: somebody can always manage users, along every run of requests;
  which requests break that; sessions live as long as they should; and a client cannot choose the
  address it is known by.
\<close>

section \<open>Somebody can manage users\<close>

definition admin_row :: "user_row \<Rightarrow> bool" where
  "admin_row r = (\<not> ur_disabled r \<and> canManageUsers (ur_role r) (ur_permissions r))"

definition has_admin :: "auth_db \<Rightarrow> bool" where
  "has_admin w = list_ex admin_row (at_users w)"

lemma has_admin_same: "same_users w w' \<Longrightarrow> has_admin w' = has_admin w"
  by (simp add: has_admin_def same_users_def)

lemma has_admin_Audit [simp]: "has_admin (Audit a b c d e f w) = has_admin w"
  by (rule has_admin_same) simp

lemma has_admin_limiter [simp]: "has_admin (w\<lparr>at_limiter := l\<rparr>) = has_admin w"
  by (simp add: has_admin_def)

lemma CreateUser_users:
  "CreateUser u p role perms w = (r, w') \<Longrightarrow> at_users w' = at_users w \<or> (\<exists>row. at_users w' = at_users w @ [row])"
  unfolding CreateUser_def HashPassword_def fresh_id_def
  by (auto simp: query_at split: if_splits option.splits prod.splits bool.splits)

lemma has_admin_Create: "CreateUser u p role perms w = (r, w') \<Longrightarrow> has_admin w \<Longrightarrow> has_admin w'"
  using CreateUser_users [of u p role perms w r w'] by (auto simp: has_admin_def)

lemma update_user_users:
  "update_user uid f w = (r, w') \<Longrightarrow>
   at_users w' = at_users w \<or> at_users w' = map (\<lambda>x. if Some (ur_id x) = at_uuid_in w uid then f x else x) (at_users w)"
  unfolding update_user_def by (auto simp: query_at update_rows_def split: option.splits prod.splits bool.splits)

lemma has_admin_map:
  "at_users w' = map g rs \<Longrightarrow> r \<in> set rs \<Longrightarrow> admin_row (g r) \<Longrightarrow> has_admin w'"
  unfolding has_admin_def list_ex_iff by force

lemma has_admin_update:
  assumes "update_user uid f w = (r, w')" "has_admin w" "\<And>x. admin_row x \<Longrightarrow> admin_row (f x)"
  shows "has_admin w'"
proof -
  from assms(2) obtain a where a: "a \<in> set (at_users w)" "admin_row a" by (auto simp: has_admin_def list_ex_iff)
  from update_user_users [OF assms(1)] show ?thesis
  proof
    assume "at_users w' = at_users w"
    with assms(2) show ?thesis by (simp add: has_admin_def)
  next
    assume "at_users w' = map (\<lambda>x. if Some (ur_id x) = at_uuid_in w uid then f x else x) (at_users w)"
    from has_admin_map [OF this a(1)] a(2) assms(3) show ?thesis by simp
  qed
qed

lemma HashPassword_users: "HashPassword p w = (r, w') \<Longrightarrow> at_users w' = at_users w \<and> at_uuid_in w' = at_uuid_in w"
  by (auto simp: HashPassword_def split: option.splits)

lemma fetch_user_same: "fetch_user uid w = (r, w') \<Longrightarrow> same_users w w'"
  by (auto simp: fetch_user_def split: option.splits prod.splits bool.splits dest: same_users_query)

text \<open>What the guard establishes when it lets a change pass.\<close>

lemma guard_passes:
  assumes "guardLastAdmin uid after act w = (Inr (), w')"
  shows "(\<exists>r \<in> set (at_users w). ur_id r \<noteq> uid \<and> admin_row r) \<or>
    (\<exists>v. after = Some v \<and> \<not> ui_Disabled v \<and> canManageUsers (ui_Role v) (ui_Permissions v))"
proof -
  from assms obtain users where l: "ListUsers w = (Inr users, w')" and n: "count_rows (still_admin uid after) users \<noteq> 0"
    by (auto simp: guardLastAdmin_def remainingAdmins_def split: prod.splits sum.splits if_splits)
  then have "0 < count_rows (still_admin uid after) users" using count_rows_nonneg [of "still_admin uid after" users] by linarith
  then obtain u where u: "u \<in> set users" "still_admin uid after u" unfolding count_rows_pos by blast
  from l u(1) obtain r where r: "r \<in> set (at_users w)" "ui_ID u = ur_id r" "ui_Role u = ur_role r"
      "ui_Disabled u = ur_disabled r" "ui_Permissions u = ur_permissions r"
    by (auto simp: ListUsers_def query_at split: prod.splits bool.splits)
  show ?thesis
  proof (cases "ur_id r = uid")
    case True
    with u(2) r show ?thesis by (auto simp: still_admin_def split: option.splits)
  next
    case False
    with u(2) r have "admin_row r" by (simp add: still_admin_def admin_row_def)
    with False r(1) show ?thesis by blast
  qed
qed

text \<open>The identifier is spelled as the server prints it, or is none at all.\<close>

definition canonical :: "auth_db \<Rightarrow> string \<Rightarrow> bool" where
  "canonical w uid = (at_uuid_in w uid = None \<or> at_uuid_in w uid = Some uid)"

lemma delete_keeps_admin:
  assumes "DeleteUserHandler trusted q actor uid w = (resp, w')" "canonical w uid" "has_admin w"
  shows "has_admin w'"
proof (cases "\<exists>w1. guardLastAdmin uid None ''delete this user'' w = (Inr (), w1) \<and> uid \<noteq> []")
  case True
  then obtain w1 where g: "guardLastAdmin uid None ''delete this user'' w = (Inr (), w1)" by blast
  from guard_passes [OF g] obtain r where r: "r \<in> set (at_users w)" "ur_id r \<noteq> uid" "admin_row r" by blast
  note s = same_users_guard [OF g]
  have "has_admin w2" if "DeleteUser uid w1 = (x, w2)" for x w2
    using that r s assms(2) unfolding DeleteUser_def canonical_def
    by (auto simp: has_admin_def list_ex_iff same_users_def query_at split: option.splits prod.splits bool.splits if_splits)
  with assms(1,3) g s has_admin_same show ?thesis
    unfolding DeleteUserHandler_def by (auto split: if_splits prod.splits sum.splits)
next
  case False
  with assms(1,3) show ?thesis unfolding DeleteUserHandler_def
    by (auto split: if_splits prod.splits sum.splits dest: same_users_guard simp: has_admin_same)
qed

lemma update_keeps_admin:
  assumes "UpdateUserHandler trusted q actor uid body w = (resp, w')" "canonical w uid" "has_admin w"
  shows "has_admin w'"
proof -
  have step: "has_admin w2"
    if g: "guardLastAdmin uid (Some v) act w = (Inr (), w1)" and u: "UpdateUser uid role perms w1 = (x, w2)"
      and v: "ui_Role v = role" "ui_Permissions v = perms" for v act w1 w2 x role perms
  proof -
    note s = same_users_guard [OF g]
    from assms(3) obtain a where a: "a \<in> set (at_users w)" "admin_row a" by (auto simp: has_admin_def list_ex_iff)
    have "\<exists>r \<in> set (at_users w). admin_row r \<and> (ur_id r \<noteq> uid \<or> canManageUsers role perms)"
      using guard_passes [OF g] a v by auto
    then obtain r where r: "r \<in> set (at_users w)" "admin_row r" "ur_id r \<noteq> uid \<or> canManageUsers role perms" by blast
    from u obtain y where "at_users w2 = at_users w1 \<or> update_user uid (\<lambda>r. r\<lparr>ur_role := role, ur_permissions := perms\<rparr>) w1 = (y, w2)"
      unfolding UpdateUser_def affected_def by (auto split: if_splits prod.splits sum.splits)
    then consider "at_users w2 = at_users w1"
      | "at_users w2 = map (\<lambda>x. if Some (ur_id x) = at_uuid_in w1 uid then x\<lparr>ur_role := role, ur_permissions := perms\<rparr> else x) (at_users w1)"
      using update_user_users by blast
    then show ?thesis
    proof cases
      case 1
      with a s show ?thesis by (auto simp: has_admin_def list_ex_iff same_users_def)
    next
      case 2
      have "admin_row (if Some (ur_id r) = at_uuid_in w1 uid then r\<lparr>ur_role := role, ur_permissions := perms\<rparr> else r)"
        using r s assms(2) by (auto simp: admin_row_def same_users_def canonical_def)
      with has_admin_map [OF 2, of r] r(1) s show ?thesis by (simp add: same_users_def)
    qed
  qed
  show ?thesis
  proof (cases "uid = [] \<or> body = None")
    case True
    with assms(1,3) show ?thesis by (auto simp: UpdateUserHandler_def split: if_splits)
  next
    case False
    then obtain roleText permsRaw where b: "body = Some (roleText, permsRaw)" by force
    show ?thesis
    proof (cases "ParseRole roleText")
      case (Inr role)
      show ?thesis
      proof (cases "parsePermissions permsRaw")
        case (Inr perms)
        with assms(1) False b \<open>ParseRole roleText = Inr role\<close> step assms(3) has_admin_same [OF same_users_guard]
        show ?thesis unfolding UpdateUserHandler_def Let_def by (auto split: prod.splits sum.splits)
      qed (use assms(1,3) False b Inr in \<open>auto simp: UpdateUserHandler_def\<close>)
    qed (use assms(1,3) False b in \<open>auto simp: UpdateUserHandler_def\<close>)
  qed
qed

lemma login_same: "LoginHandler trusted q body w = (resp, w') \<Longrightarrow> has_admin w' = has_admin w"
  unfolding LoginHandler_def limiter_fail_def Let_def
  by (auto split: if_splits option.splits prod.splits sum.splits dest: same_users_Login simp: has_admin_same)

lemma register_keeps_admin:
  "RegisterHandler trusted q body w = (resp, w') \<Longrightarrow> has_admin w \<Longrightarrow> has_admin w'"
  unfolding RegisterHandler_def limiter_fail_def Let_def
  by (auto split: if_splits option.splits prod.splits sum.splits dest!: same_users_Login has_admin_Create
      simp: has_admin_same)

lemma users_keeps_admin:
  "UsersHandler trusted q actor body w = (resp, w') \<Longrightarrow> has_admin w \<Longrightarrow> has_admin w'"
  unfolding UsersHandler_def
  by (auto split: if_splits option.splits prod.splits sum.splits dest!: same_users_ListUsers has_admin_Create
      simp: has_admin_same)

lemma admin_row_other:
  "admin_row x \<Longrightarrow> admin_row (x\<lparr>ur_totp_secret := s\<rparr>)" "admin_row x \<Longrightarrow> admin_row (x\<lparr>ur_password_hash := h\<rparr>)"
  by (simp_all add: admin_row_def)

lemma enable_keeps_admin:
  "Enable2FAHandler trusted q actor body w = (resp, w') \<Longrightarrow> has_admin w \<Longrightarrow> has_admin w'"
  unfolding Enable2FAHandler_def SetTOTPSecret_def
  by (auto split: if_splits option.splits prod.splits sum.splits dest!: has_admin_update simp: admin_row_other)

lemma disable_keeps_admin:
  "Disable2FAHandler trusted q actor body w = (resp, w') \<Longrightarrow> has_admin w \<Longrightarrow> has_admin w'"
  unfolding Disable2FAHandler_def ClearTOTPSecret_def totpSecretOf_def
  by (auto split: if_splits option.splits prod.splits sum.splits dest!: fetch_user_same has_admin_update
      simp: admin_row_other has_admin_same)

lemma password_keeps_admin:
  assumes "ChangePasswordHandler trusted q actor body w = (resp, w')" "has_admin w"
  shows "has_admin w'"
proof -
  have "has_admin w2" if c: "ChangePassword uid cur new w = (r, w2)" for uid cur new r w2
  proof -
    obtain f w1 where f: "fetch_user uid w = (f, w1)" by force
    have a1: "has_admin w1" using has_admin_same [OF fetch_user_same [OF f]] assms(2) by simp
    obtain h w3 where h: "HashPassword new w1 = (h, w3)" by force
    have a3: "has_admin w3" using HashPassword_users [OF h] a1 by (simp add: has_admin_def)
    have "has_admin w4" if "update_user uid (\<lambda>r. r\<lparr>ur_password_hash := z\<rparr>) w3 = (y, w4)" for z y w4
      using has_admin_update [OF that a3] admin_row_other(2) by blast
    with c f h a1 a3 show ?thesis
      unfolding ChangePassword_def by (auto split: sum.splits if_splits prod.splits)
  qed
  with assms show ?thesis
    unfolding ChangePasswordHandler_def by (auto split: option.splits if_splits prod.splits sum.splits)
qed

text \<open>One request, one tick of the clock, or the seeding at start-up.\<close>

inductive auth_step :: "auth_db \<Rightarrow> auth_db \<Rightarrow> bool" where
  login: "LoginHandler trusted q b w = (resp, w') \<Longrightarrow> auth_step w w'"
| register: "RegisterHandler trusted q b2 w = (resp, w') \<Longrightarrow> auth_step w w'"
| logout: "LogoutHandler q w = (resp, w') \<Longrightarrow> auth_step w w'"
| session: "Middleware q w = (r, w') \<Longrightarrow> auth_step w w'"
| users: "UsersHandler trusted q actor b4 w = (resp, w') \<Longrightarrow> auth_step w w'"
| update: "UpdateUserHandler trusted q actor uid b3 w = (resp, w') \<Longrightarrow> canonical w uid \<Longrightarrow> auth_step w w'"
| delete: "DeleteUserHandler trusted q actor uid w = (resp, w') \<Longrightarrow> canonical w uid \<Longrightarrow> auth_step w w'"
| enable: "Enable2FAHandler trusted q actor b2 w = (resp, w') \<Longrightarrow> auth_step w w'"
| disable: "Disable2FAHandler trusted q actor b1 w = (resp, w') \<Longrightarrow> auth_step w w'"
| password: "ChangePasswordHandler trusted q actor b2 w = (resp, w') \<Longrightarrow> auth_step w w'"
| seed: "EnsureAdmin u p w = (r2, w') \<Longrightarrow> auth_step w w'"
| tick: "auth_step w (w\<lparr>db_clock := t\<rparr>)"

inductive_cases auth_stepE: "auth_step w w'"

lemma seed_keeps_admin: "EnsureAdmin u p w = (r, w') \<Longrightarrow> has_admin w \<Longrightarrow> has_admin w'"
  unfolding EnsureAdmin_def UserCount_def
  by (auto split: if_splits prod.splits sum.splits bool.splits dest!: has_admin_Create same_users_query simp: has_admin_same)

lemma logout_same: "LogoutHandler q w = (resp, w') \<Longrightarrow> has_admin w' = has_admin w"
  using same_users_Logout [of "bearerToken q" w "fst (Logout (bearerToken q) w)" "snd (Logout (bearerToken q) w)"]
  by (auto simp: LogoutHandler_def has_admin_same split: if_splits)

lemma middleware_same: "Middleware q w = (r, w') \<Longrightarrow> has_admin w' = has_admin w"
  by (auto simp: Middleware_def has_admin_same dest!: same_users_SessionUser split: prod.splits sum.splits)

lemma auth_step_admin: "auth_step w w' \<Longrightarrow> has_admin w \<Longrightarrow> has_admin w'"
  by (induction rule: auth_step.induct)
    (simp_all add: login_same register_keeps_admin logout_same middleware_same users_keeps_admin update_keeps_admin
      delete_keeps_admin enable_keeps_admin disable_keeps_admin password_keeps_admin seed_keeps_admin, simp add: has_admin_def)

text \<open>
  C15: Once some enabled account can manage users there is always one, along every run of requests
  served one after the other: logins, registrations, creations, role changes, deletions, second
  factors, passwords, whatever database statements fail, as long as the identifier in the path is
  spelled as the server prints it.
\<close>

theorem an_administrator_remains:
  assumes "auth_step\<^sup>*\<^sup>* w w'" "has_admin w"
  shows "has_admin w'"
  using assms by (induction rule: rtranclp_induct) (auto intro: auth_step_admin)

definition demo_user :: "string \<Rightarrow> string \<Rightarrow> role \<Rightarrow> user_row" where
  "demo_user uid name r = \<lparr>ur_id = uid, ur_username = name, ur_password_hash = ''#pw'', ur_role = r, ur_disabled = False,
     ur_totp_secret = None, ur_created_at = 0, ur_permissions = None\<rparr>"

text \<open>A server that reads identifiers in either case, as PostgreSQL does.\<close>

definition demo_auth :: "user_row list \<Rightarrow> auth_db" where
  "demo_auth us = \<lparr>db_faults = [], db_clock = 100, db_uuid = (\<lambda>n. replicate n CHR ''f''), db_seq = 1,
     at_users = us, at_sessions = [], at_members = [], at_default_workspace = True, at_audit = [],
     at_uuid_in = (\<lambda>s. Some (to_lower s)), at_inet_ok = (\<lambda>s. True), at_hash = (\<lambda>n p. Some (CHR ''#'' # p)),
     at_verify = (\<lambda>p h. h = CHR ''#'' # p), at_totp = (\<lambda>t s c. c = s), at_token = (\<lambda>n. replicate (Suc n) CHR ''t''),
     at_sha = (\<lambda>s. CHR ''h'' # s), at_draws = 0, at_limiter = newLoginLimiterFromEnv [] [], at_min_password = 8\<rparr>"

definition post :: http_req where
  "post = \<lparr>hr_method = ''POST'', hr_remote = ''10.0.0.7:4711'', hr_xff = [], hr_authorization = []\<rparr>"

definition two_admins :: auth_db where
  "two_admins = demo_auth [demo_user ''a1'' ''ann'' RoleAdmin, demo_user ''b2'' ''bob'' RoleAdmin]"

theorem an_administrator_remains_witness:
  "has_admin (snd (DeleteUserHandler [] post None ''b2''
     (snd (DeleteUserHandler [] post None ''a1'' two_admins))))"
proof -
  let ?w = "snd (DeleteUserHandler [] post None ''a1'' two_admins)"
  have c: "canonical two_admins ''a1''" "canonical ?w ''b2''" "has_admin two_admins" by code_simp+
  have "auth_step two_admins ?w" using c(1) by (auto intro: auth_step.delete simp: prod_eq_iff)
  moreover have "auth_step ?w (snd (DeleteUserHandler [] post None ''b2'' ?w))"
    using c(2) by (auto intro: auth_step.delete simp: prod_eq_iff)
  ultimately have "auth_step\<^sup>*\<^sup>* two_admins (snd (DeleteUserHandler [] post None ''b2'' ?w))" by auto
  from an_administrator_remains [OF this c(3)] show ?thesis .
qed

section \<open>What the guard misses\<close>

lemma guard_one: 
  assumes "db_faults w = []" "r \<in> set (at_users w)" "admin_row r" "ur_id r \<noteq> uid"
  shows "guardLastAdmin uid None act w = (Inr (), w)"
proof -
  let ?u = "\<lambda>r. \<lparr>ui_ID = ur_id r, ui_Username = ur_username r, ui_Role = ur_role r, ui_Disabled = ur_disabled r,
    ui_CreatedAt = ur_created_at r, ui_Permissions = ur_permissions r\<rparr>"
  have "still_admin uid None (?u r)" using assms(3,4) by (simp add: still_admin_def admin_row_def)
  then have "count_rows (still_admin uid None) (map ?u (sort_key ur_created_at (at_users w))) \<noteq> 0"
    unfolding count_rows_zero using assms(2) by force
  then show ?thesis using assms(1) by (simp add: guardLastAdmin_def remainingAdmins_def ListUsers_def)
qed

text \<open>
  The guard and the test against deleting oneself compare texts, the database compares
  identifiers: with its identifier spelled in another way the server reads the same, the only
  account that can manage users deletes itself, and no account is left.
\<close>

theorem respelled_identifier_deletes_last_admin:
  assumes "db_faults w = []" "at_users w = [r]" "admin_row r"
    and "at_uuid_in w uid = Some (ur_id r)" "uid \<noteq> ur_id r" "uid \<noteq> []"
  shows "\<exists>w'. DeleteUserHandler trusted q (Some (user_of r)) uid w = (http_status 200, w') \<and> at_users w' = []"
proof -
  have g: "guardLastAdmin uid None ''delete this user'' w = (Inr (), w)"
    using guard_one [of w r uid] assms by simp
  obtain w2 where d: "DeleteUser uid w = (Inr (), w2)" "at_users w2 = []" using assms by (simp add: DeleteUser_def)
  have "at_users (Audit a b c x y z w2) = []" for a b c x y z
    using same_users_Audit [of w2 a b c x y z] d(2) by (simp add: same_users_def)
  then show ?thesis using assms(5,6) g d(1) by (simp add: DeleteUserHandler_def user_of_def)
qed

theorem respelled_identifier_deletes_last_admin_witness:
  "\<exists>w'. DeleteUserHandler [] post (Some (user_of (demo_user ''a1'' ''ann'' RoleAdmin))) ''A1''
     (demo_auth [demo_user ''a1'' ''ann'' RoleAdmin]) = (http_status 200, w') \<and> at_users w' = []"
proof (rule respelled_identifier_deletes_last_admin)
  show "at_users (demo_auth [demo_user ''a1'' ''ann'' RoleAdmin]) = [demo_user ''a1'' ''ann'' RoleAdmin]"
    by (simp add: demo_auth_def)
qed code_simp+

text \<open>
  The guard and the deletion are two statements: when two administrators delete each other and
  both guards run before either deletion, both pass and nobody who can manage users is left.
\<close>

theorem crossing_deletions_leave_no_admin:
  assumes "db_faults w = []" "at_users w = [a, b]" "admin_row a" "admin_row b" "ur_id a \<noteq> ur_id b"
    and "at_uuid_in w (ur_id a) = Some (ur_id a)" "at_uuid_in w (ur_id b) = Some (ur_id b)"
  shows "\<exists>w1 w2 w3 w4. guardLastAdmin (ur_id b) None ''delete this user'' w = (Inr (), w1) \<and>
    guardLastAdmin (ur_id a) None ''delete this user'' w1 = (Inr (), w2) \<and>
    DeleteUser (ur_id b) w2 = (Inr (), w3) \<and> DeleteUser (ur_id a) w3 = (Inr (), w4) \<and> at_users w4 = []"
proof -
  have "guardLastAdmin (ur_id b) None ''delete this user'' w = (Inr (), w)" using guard_one [of w a] assms by simp
  moreover have "guardLastAdmin (ur_id a) None ''delete this user'' w = (Inr (), w)" using guard_one [of w b] assms by simp
  moreover obtain w3 where "DeleteUser (ur_id b) w = (Inr (), w3)" "at_users w3 = [a]" "db_faults w3 = []" "at_uuid_in w3 = at_uuid_in w"
    using assms by (simp add: DeleteUser_def)
  moreover from this obtain w4 where "DeleteUser (ur_id a) w3 = (Inr (), w4)" "at_users w4 = []"
    using assms by (simp add: DeleteUser_def)
  ultimately show ?thesis by blast
qed

theorem crossing_deletions_leave_no_admin_witness:
  "\<exists>w1 w2 w3 w4. guardLastAdmin ''b2'' None ''delete this user'' two_admins = (Inr (), w1) \<and>
    guardLastAdmin ''a1'' None ''delete this user'' w1 = (Inr (), w2) \<and>
    DeleteUser ''b2'' w2 = (Inr (), w3) \<and> DeleteUser ''a1'' w3 = (Inr (), w4) \<and> at_users w4 = []"
proof -
  have u: "at_users two_admins = [demo_user ''a1'' ''ann'' RoleAdmin, demo_user ''b2'' ''bob'' RoleAdmin]"
    by (simp add: two_admins_def demo_auth_def)
  have f: "db_faults two_admins = []" "admin_row (demo_user ''a1'' ''ann'' RoleAdmin)" "admin_row (demo_user ''b2'' ''bob'' RoleAdmin)"
    "ur_id (demo_user ''a1'' ''ann'' RoleAdmin) \<noteq> ur_id (demo_user ''b2'' ''bob'' RoleAdmin)"
    "at_uuid_in two_admins (ur_id (demo_user ''a1'' ''ann'' RoleAdmin)) = Some (ur_id (demo_user ''a1'' ''ann'' RoleAdmin))"
    "at_uuid_in two_admins (ur_id (demo_user ''b2'' ''bob'' RoleAdmin)) = Some (ur_id (demo_user ''b2'' ''bob'' RoleAdmin))"
    by code_simp+
  from crossing_deletions_leave_no_admin [OF f(1) u f(2-6)] show ?thesis by (simp add: demo_user_def)
qed

section \<open>Sessions\<close>

lemma find_mem: "find P xs = Some x \<Longrightarrow> x \<in> set xs"
  by (auto simp: find_Some_iff)

lemma find_id: "r \<in> set rs \<Longrightarrow> distinct (map ur_id rs) \<Longrightarrow> find (\<lambda>x. ur_id x = ur_id r) rs = Some r"
  by (induction rs) auto

lemma find_skip: "list_all (\<lambda>s. \<not> Q s) xs \<Longrightarrow> find (\<lambda>s. Q s \<and> P s) (xs @ ys) = find (\<lambda>s. Q s \<and> P s) ys"
  by (induction xs) auto

text \<open>What a successful login has done.\<close>

lemma Login_user:
  assumes "Login username password code ttl w = (Inr (u, raw), w')"
  shows "\<exists>r. r \<in> set (at_users w) \<and> \<not> ur_disabled r \<and> u = user_of r \<and>
    list_all (\<lambda>s. se_token_hash s \<noteq> at_sha w raw) (at_sessions w) \<and> at_users w' = at_users w \<and> at_sha w' = at_sha w \<and>
    at_sessions w' = at_sessions w @ [\<lparr>se_user_id = ur_id r, se_token_hash = at_sha w raw, se_expires_at = db_clock w' + ttl,
      se_last_seen_at = None\<rparr>]"
proof -
  obtain b w1 where q: "query w = (b, w1)" by force
  note f = query_at [OF q]
  define w2 where "w2 = w1\<lparr>at_draws := Suc (at_draws w1)\<rparr>"
  obtain b' w3 where q': "query w2 = (b', w3)" by force
  note g = query_at [OF q'] query_frame(1) [OF q']
  from assms obtain r where r: "find (\<lambda>r. ur_username r = username) (at_users w1) = Some r" "\<not> ur_disabled r" "u = user_of r"
      "raw = at_token w1 (at_draws w1)" "\<not> list_ex (\<lambda>s. se_token_hash s = at_sha w1 raw) (at_sessions w3)"
      "w' = w3\<lparr>at_sessions := at_sessions w3 @ [\<lparr>se_user_id = ur_id r, se_token_hash = at_sha w1 raw,
         se_expires_at = db_clock w3 + ttl, se_last_seen_at = None\<rparr>]\<rparr>"
    unfolding Login_def q newToken_def Let_def hashToken_def w2_def [symmetric] q' prod.case
    by (auto simp: q' split: bool.splits option.splits if_splits)
  then show ?thesis using find_mem [OF r(1)] f g by (auto simp: w2_def list_ex_iff list_all_iff)
qed

text \<open>
  A login's token authenticates its user, with the role and permissions of the account, until
  exactly the session's lifetime has passed, and not after a logout.
\<close>

theorem login_session_roundtrip:
  assumes "Login username password code ttl w = (Inr (u, raw), w')" "raw \<noteq> []" "db_faults w' = []"
    and "distinct (map ur_id (at_users w))"
  shows "fst (SessionUser raw (w'\<lparr>db_clock := db_clock w' + dt\<rparr>)) = (if dt < ttl then Inr u else Inl ErrAuth) \<and>
    fst (SessionUser raw (snd (Logout raw w'))) = Inl ErrAuth"
proof -
  from Login_user [OF assms(1)] obtain r where r: "r \<in> set (at_users w)" "\<not> ur_disabled r" "u = user_of r"
    and new: "list_all (\<lambda>s. se_token_hash s \<noteq> at_sha w raw) (at_sessions w)"
    and w': "at_users w' = at_users w" "at_sha w' = at_sha w"
      "at_sessions w' = at_sessions w @ [\<lparr>se_user_id = ur_id r, se_token_hash = at_sha w raw, se_expires_at = db_clock w' + ttl,
         se_last_seen_at = None\<rparr>]" by blast
  note one = find_id [OF r(1) assms(4)] and old = find_skip [OF new]
  let ?l = "snd (Logout raw w')"
  have l: "db_faults ?l = []" "at_sessions ?l = filter (\<lambda>s. se_token_hash s \<noteq> at_sha w' raw) (at_sessions w')" "at_sha ?l = at_sha w'"
    using assms(3) by (simp_all add: Logout_def hashToken_def)
  have "find (\<lambda>s. se_token_hash s = at_sha w' raw \<and> db_clock ?l < se_expires_at s) (at_sessions ?l) = None"
    unfolding l(2) by (auto simp: find_None_iff)
  then have "session_row_of (hashToken raw ?l) ?l = None" unfolding session_row_of_def hashToken_def l(3) by simp
  then have "fst (SessionUser raw ?l) = Inl ErrAuth"
    using assms(2) unfolding SessionUser_def query_no_faults [OF l(1)] prod.case bool.case Let_def by simp
  moreover have "fst (SessionUser raw (w'\<lparr>db_clock := db_clock w' + dt\<rparr>)) = (if dt < ttl then Inr u else Inl ErrAuth)"
    using assms(2,3) r(2,3) w' old one
    by (simp add: SessionUser_def session_row_of_def hashToken_def Let_def)
  ultimately show ?thesis by blast
qed

section \<open>The caller's address\<close>

lemma split_char_append:
  "split_char d (xs @ d # ys) = split_char d xs @ split_char d ys"
proof (induction xs)
  case (Cons x xs)
  have "split_char d xs \<noteq> []" by (induction xs) (auto split: list.splits)
  with Cons show ?case by (auto split: list.splits)
qed simp

definition trusted_hop :: "ipnet list \<Rightarrow> string \<Rightarrow> bool" where
  "trusted_hop trusted h = (case parse_ip (trim_space h) of Some a \<Rightarrow> isTrustedProxy trusted a | None \<Rightarrow> False)"

definition untrusted_hop :: "ipnet list \<Rightarrow> string \<Rightarrow> bool" where
  "untrusted_hop trusted h = (case parse_ip (trim_space h) of Some a \<Rightarrow> \<not> isTrustedProxy trusted a | None \<Rightarrow> False)"

lemma walk_hops_real:
  "list_all (trusted_hop trusted) ps \<Longrightarrow> untrusted_hop trusted real \<Longrightarrow>
   walk_hops trusted (ps @ real # rest) = Some (trim_space real)"
  by (induction ps) (auto simp: trusted_hop_def untrusted_hop_def split: option.splits)

text \<open>
  C16: A client cannot choose the address it is known by: behind the trusted proxies it is the address
  the outermost of them saw, whatever the client wrote in front of it in the header, and from any
  other peer the header is ignored altogether.
\<close>

theorem client_address_unforgeable:
  assumes "split_host_port (hr_remote r) = Some host" "parse_ip host = Some peer"
    and "split_char CHR '','' rest = real # proxies" "untrusted_hop trusted real" "list_all (trusted_hop trusted) proxies"
  shows "ClientIP trusted (r\<lparr>hr_xff := forged @ CHR '','' # rest\<rparr>) =
    (if isTrustedProxy trusted peer then trim_space real else host)"
proof -
  have "rev (split_char CHR '','' (forged @ CHR '','' # rest)) = rev proxies @ real # rev (split_char CHR '','' forged)"
    by (simp add: split_char_append assms(3))
  with walk_hops_real [of trusted "rev proxies" real "rev (split_char CHR '','' forged)"] assms
  show ?thesis by (simp add: ClientIP_def)
qed

theorem client_address_unforgeable_witness:
  "ClientIP [Net4 0x0A000000 8] (post\<lparr>hr_xff := ''6.6.6.6'' @ CHR '','' # '' 203.0.113.9, 10.0.0.2''\<rparr>) = ''203.0.113.9''"
proof -
  have f: "split_host_port (hr_remote post) = Some ''10.0.0.7''" "parse_ip ''10.0.0.7'' = Some (v4_mapped 0x0A000007)"
    "split_char CHR '','' '' 203.0.113.9, 10.0.0.2'' = '' 203.0.113.9'' # ['' 10.0.0.2'']"
    "untrusted_hop [Net4 0x0A000000 8] '' 203.0.113.9''" "list_all (trusted_hop [Net4 0x0A000000 8]) ['' 10.0.0.2'']"
    by code_simp+
  have "isTrustedProxy [Net4 0x0A000000 8] (v4_mapped 0x0A000007)" "trim_space '' 203.0.113.9'' = ''203.0.113.9''" by code_simp+
  with client_address_unforgeable [OF f, of "''6.6.6.6''"] show ?thesis by simp
qed

definition ann_login :: "(auth_error + auth_user \<times> string) \<times> auth_db" where
  "ann_login = Login ''ann'' ''pw'' [] SessionTTL two_admins"

lemma ann_facts:
  "fst ann_login = Inr (user_of (demo_user ''a1'' ''ann'' RoleAdmin), ''t'')" "db_faults (snd ann_login) = []"
  "distinct (map ur_id (at_users two_admins))"
  by code_simp+

theorem login_session_roundtrip_witness:
  "fst (SessionUser ''t'' ((snd ann_login)\<lparr>db_clock := db_clock (snd ann_login) + hour\<rparr>)) =
     Inr (user_of (demo_user ''a1'' ''ann'' RoleAdmin)) \<and>
   fst (SessionUser ''t'' ((snd ann_login)\<lparr>db_clock := db_clock (snd ann_login) + SessionTTL\<rparr>)) = Inl ErrAuth"
proof -
  have l: "Login ''ann'' ''pw'' [] SessionTTL two_admins = (Inr (user_of (demo_user ''a1'' ''ann'' RoleAdmin), ''t''), snd ann_login)"
    using ann_facts(1) by (simp add: ann_login_def prod_eq_iff)
  have "hour < SessionTTL" by code_simp
  with login_session_roundtrip [OF l _ ann_facts(2,3), of hour] login_session_roundtrip [OF l _ ann_facts(2,3), of SessionTTL]
  show ?thesis by simp
qed

end
