(* ===== verification/Versions.thy ===== *)
theory Versions
  imports Prelude
begin

text \<open>
  The Debian version comparison of \<^verbatim>\<open>internal/vuln/dpkgver.go\<close>. A position in a segment is the rest
  of it, so the loops consume lists; the epoch is a 64-bit integer.
\<close>

section \<open>Model\<close>

definition isAlpha :: "char \<Rightarrow> bool" where
  "isAlpha c = (let n = (of_char c :: nat) in 97 \<le> n \<and> n \<le> 122 \<or> 65 \<le> n \<and> n \<le> 90)"

definition order :: "char \<Rightarrow> int" where
  "order c =
     (if is_digit c then 0
      else if isAlpha c then of_char c
      else if c = CHR ''~'' then - 1
      else if c = CHR 0x00 then 0
      else of_char c + 256)"

text \<open>The loop conditions: there is a next character and it is, or is not, a digit.\<close>

definition at_digit :: "string \<Rightarrow> bool" where
  "at_digit s = (s \<noteq> [] \<and> is_digit (hd s))"

definition at_nondigit :: "string \<Rightarrow> bool" where
  "at_nondigit s = (s \<noteq> [] \<and> \<not> is_digit (hd s))"

definition next_order :: "string \<Rightarrow> int" where
  "next_order s = order (if s = [] then CHR 0x00 else hd s)"

function nondigit_run :: "string \<Rightarrow> string \<Rightarrow> int + string \<times> string" where
  "nondigit_run a b =
     (if at_nondigit a \<or> at_nondigit b then
        let oc = next_order a - next_order b in
        if oc \<noteq> 0 then Inl (sgn oc) else nondigit_run (tl a) (tl b)
      else Inr (a, b))"
  by auto
termination by (relation "measure (\<lambda>(a, b). length a + length b)") (auto simp: at_nondigit_def simp flip: length_greater_0_conv)

declare nondigit_run.simps [simp del]

fun digit_run :: "int \<Rightarrow> string \<Rightarrow> string \<Rightarrow> int \<times> string \<times> string" where
  "digit_run fd (c # a) (d # b) =
     (if is_digit c \<and> is_digit d then digit_run (if fd = 0 then of_char c - of_char d else fd) a b
      else (fd, c # a, d # b))"
| "digit_run fd a b = (fd, a, b)"

lemma nondigit_run_stops:
  "nondigit_run a b = Inr (a', b') \<Longrightarrow> \<not> at_nondigit a' \<and> \<not> at_nondigit b' \<and>
     (a' = a \<and> b' = b \<and> \<not> at_nondigit a \<and> \<not> at_nondigit b \<or> length a' + length b' < length a + length b)"
proof (induction a b rule: nondigit_run.induct)
  case (1 a b)
  show ?case
  proof (cases "at_nondigit a \<or> at_nondigit b")
    case False
    with 1(2) show ?thesis by (subst (asm) nondigit_run.simps) simp
  next
    case True
    with 1(2) have "next_order a - next_order b = 0" "nondigit_run (tl a) (tl b) = Inr (a', b')"
      by (simp_all add: nondigit_run.simps [of a b] Let_def split: if_splits)
    with 1(1) True show ?thesis by (cases a; cases b) (auto simp: at_nondigit_def)
  qed
qed

abbreviation digits :: "string \<Rightarrow> string" where
  "digits s \<equiv> takeWhile is_digit s"

abbreviation after_digits :: "string \<Rightarrow> string" where
  "after_digits s \<equiv> dropWhile is_digit s"

definition skip_zeros :: "string \<Rightarrow> string" where
  "skip_zeros s = dropWhile (\<lambda>c. c = CHR ''0'') s"

lemma at_digit_iff: "at_digit s \<longleftrightarrow> digits s \<noteq> []"
  by (cases s) (auto simp: at_digit_def)

lemma no_digits [simp]: "digits s = [] \<Longrightarrow> after_digits s = s"
  by (cases s) (auto split: if_splits)

text \<open>The loop stops within the longer run, or behind both when they are equally long.\<close>

lemma digit_run_ends:
  "digit_run fd a b = (fd', a', b') \<Longrightarrow>
   (at_digit a' \<longleftrightarrow> length (digits b) < length (digits a)) \<and>
   (at_digit b' \<longleftrightarrow> length (digits a) < length (digits b)) \<and>
   (length (digits a) = length (digits b) \<longrightarrow> a' = after_digits a \<and> b' = after_digits b)"
  by (induction fd a b rule: digit_run.induct) (auto simp: at_digit_iff split: if_splits)

lemma after_digits_skip: "after_digits (skip_zeros s) = after_digits s"
  unfolding skip_zeros_def by (induction s) (auto simp: is_digit_def)

lemma after_digits_shorter: "at_digit s \<Longrightarrow> length (after_digits s) < length s"
  by (cases s) (auto simp: at_digit_def intro: le_less_trans [OF length_dropWhile_le])

lemma at_either: "s \<noteq> [] \<Longrightarrow> \<not> at_nondigit s \<Longrightarrow> at_digit s"
  by (simp add: at_digit_def at_nondigit_def)

lemma segment_progress:
  assumes "nondigit_run a b = Inr (a1, b1)" "digit_run 0 (skip_zeros a1) (skip_zeros b1) = (fd, a', b')"
    and "\<not> at_digit a'" "\<not> at_digit b'" "a \<noteq> [] \<or> b \<noteq> []"
  shows "length a' + length b' < length a + length b"
proof -
  note n = nondigit_run_stops [OF assms(1)]
  have e: "a' = after_digits a1" "b' = after_digits b1"
    using digit_run_ends [OF assms(2)] assms(3,4) by (simp_all add: after_digits_skip)
  have le: "length (after_digits s) \<le> length s" for s by (rule length_dropWhile_le)
  show ?thesis
  proof (cases "a1 = a \<and> b1 = b")
    case True
    from assms(5) show ?thesis
    proof
      assume "a \<noteq> []"
      with n True have "length (after_digits a) < length a" by (intro after_digits_shorter at_either) auto
      with e True le [of b] show ?thesis by simp
    next
      assume "b \<noteq> []"
      with n True have "length (after_digits b) < length b" by (intro after_digits_shorter at_either) auto
      with e True le [of a] show ?thesis by simp
    qed
  next
    case False
    with n e le [of a1] le [of b1] show ?thesis by auto
  qed
qed

function verrevcmp :: "string \<Rightarrow> string \<Rightarrow> int" where
  "verrevcmp a b =
     (if a = [] \<and> b = [] then 0
      else case nondigit_run a b of
        Inl r \<Rightarrow> r
      | Inr (a1, b1) \<Rightarrow>
          (case digit_run 0 (skip_zeros a1) (skip_zeros b1) of
             (firstDiff, a2, b2) \<Rightarrow>
               if at_digit a2 then 1
               else if at_digit b2 then - 1
               else if firstDiff \<noteq> 0 then sgn firstDiff
               else verrevcmp a2 b2))"
  by auto
termination verrevcmp
  by (relation "measure (\<lambda>(a, b). length a + length b)") (auto dest: segment_progress [OF _ sym])

declare verrevcmp.simps [simp del]

fun atoi_loop :: "int \<Rightarrow> string \<Rightarrow> int" where
  "atoi_loop n [] = n"
| "atoi_loop n (c # s) = (if is_digit c then atoi_loop (wrap64 (n * 10 + int (digit_val c))) s else n)"

definition atoiSafe :: "string \<Rightarrow> int" where
  "atoiSafe s = atoi_loop 0 s"

definition splitVersion :: "string \<Rightarrow> int \<times> string \<times> string" where
  "splitVersion v0 =
     (let v = trim_space v0;
          (epoch, v1) = (case index_byte v CHR '':'' of
             Some i \<Rightarrow> (atoiSafe (take i v), drop (i + 1) v) | None \<Rightarrow> (0, v))
      in case last_index_byte v1 CHR ''-'' of
           Some i \<Rightarrow> (epoch, take i v1, drop (i + 1) v1)
         | None \<Rightarrow> (epoch, v1, []))"

definition CompareVersions :: "string \<Rightarrow> string \<Rightarrow> int" where
  "CompareVersions a b =
     (case (splitVersion a, splitVersion b) of
        ((ea, ua, ra), (eb, ub, rb)) \<Rightarrow>
          if ea \<noteq> eb then (if ea < eb then - 1 else 1)
          else let c = verrevcmp ua ub in if c \<noteq> 0 then c else verrevcmp ra rb)"

section \<open>Three-way comparisons\<close>

text \<open>The contract of a comparison on the values \<open>ok\<close>: the sign of a total preorder.\<close>

locale comparison =
  fixes ok :: "'a \<Rightarrow> bool" and cmp :: "'a \<Rightarrow> 'a \<Rightarrow> int"
  assumes cmp_refl: "ok a \<Longrightarrow> cmp a a = 0"
    and cmp_swap: "ok a \<Longrightarrow> ok b \<Longrightarrow> cmp b a = - cmp a b"
    and cmp_trans: "ok a \<Longrightarrow> ok b \<Longrightarrow> ok c \<Longrightarrow> cmp a b \<le> 0 \<Longrightarrow> cmp b c \<le> 0 \<Longrightarrow> cmp a c \<le> 0"
begin

lemma cmp_less_trans:
  assumes "ok a" "ok b" "ok c" "cmp a b < 0" "cmp b c \<le> 0"
  shows "cmp a c < 0"
proof (rule ccontr)
  assume "\<not> cmp a c < 0"
  then have "cmp c a \<le> 0" using cmp_swap [of a c] assms(1,3) by simp
  from cmp_trans [OF assms(2,3,1) assms(5) this] have "cmp b a \<le> 0" .
  with cmp_swap [of a b] assms(1,2,4) show False by simp
qed

lemma cmp_le_less_trans:
  assumes "ok a" "ok b" "ok c" "cmp a b \<le> 0" "cmp b c < 0"
  shows "cmp a c < 0"
proof (rule ccontr)
  assume "\<not> cmp a c < 0"
  then have "cmp c a \<le> 0" using cmp_swap [of a c] assms(1,3) by simp
  from cmp_trans [OF assms(3,1,2) this assms(4)] have "cmp c b \<le> 0" .
  with cmp_swap [of b c] assms(2,3,5) show False by simp
qed

lemma cmp_eq_trans:
  assumes "ok a" "ok b" "ok c" "cmp a b = 0" "cmp b c = 0"
  shows "cmp a c = 0"
proof -
  have "cmp a c \<le> 0" using cmp_trans [OF assms(1-3)] assms(4,5) by simp
  moreover have "cmp b a \<le> 0" "cmp c b \<le> 0" using cmp_swap [OF assms(1,2)] cmp_swap [OF assms(2,3)] assms(4,5) by simp_all
  then have "cmp c a \<le> 0" using cmp_trans [OF assms(3,2,1)] by blast
  ultimately show ?thesis using cmp_swap [OF assms(1,3)] by simp
qed

end

text \<open>The lexicographic combination of two comparisons is one.\<close>

lemma comparison_lex:
  assumes "comparison P c" "comparison Q d"
  shows "comparison (\<lambda>(x, y). P x \<and> Q y) (\<lambda>(x, y) (x', y'). if c x x' \<noteq> 0 then c x x' else d y y')"
proof (unfold_locales, goal_cases)
  case (1 a)
  then show ?case using comparison.cmp_refl [OF assms(1)] comparison.cmp_refl [OF assms(2)] by (auto split: prod.splits)
next
  case (2 a b)
  obtain a1 a2 b1 b2 where ab: "a = (a1, a2)" "b = (b1, b2)" by (cases a, cases b) auto
  have "c b1 a1 = - c a1 b1" "d b2 a2 = - d a2 b2"
    using 2 comparison.cmp_swap [OF assms(1), of a1 b1] comparison.cmp_swap [OF assms(2), of a2 b2] by (simp_all add: ab)
  then show ?case by (simp add: ab)
next
  case (3 a b e)
  obtain a1 a2 b1 b2 e1 e2 where ab: "a = (a1, a2)" "b = (b1, b2)" "e = (e1, e2)" by (cases a, cases b, cases e) auto
  have P: "P a1" "P b1" "P e1" and Q: "Q a2" "Q b2" "Q e2" using 3(1-3) by (simp_all add: ab)
  have le: "c a1 b1 \<le> 0" "c b1 e1 \<le> 0" using 3(4,5) by (auto simp: ab split: if_splits)
  show ?case
  proof (cases "c a1 b1 = 0 \<and> c b1 e1 = 0")
    case True
    then show ?thesis using 3(4,5) comparison.cmp_eq_trans [OF assms(1) P] comparison.cmp_trans [OF assms(2) Q] unfolding ab by auto
  next
    case False
    then have "c a1 e1 < 0"
      using le comparison.cmp_less_trans [OF assms(1) P] comparison.cmp_le_less_trans [OF assms(1) P] by linarith
    then show ?thesis by (simp add: ab)
  qed
qed

lemma comparison_image:
  assumes "comparison Q d" "\<And>x. P x \<Longrightarrow> Q (f x)" "\<And>x y. P x \<Longrightarrow> P y \<Longrightarrow> c x y = d (f x) (f y)"
  shows "comparison P c"
proof (unfold_locales, goal_cases)
  case (1 a)
  then show ?case using assms(2,3) comparison.cmp_refl [OF assms(1)] by simp
next
  case (2 a b)
  then show ?case using assms(2) assms(3) [of a b] assms(3) [of b a] comparison.cmp_swap [OF assms(1), of "f a" "f b"] by simp
next
  case (3 a b e)
  then show ?case using assms(2) assms(3) [of a b] assms(3) [of b e] assms(3) [of a e]
      comparison.cmp_trans [OF assms(1), of "f a" "f b" "f e"] by simp
qed

section \<open>The segment comparison as a lexicographic order\<close>

text \<open>
  The key of a segment: the weights of the characters of a non-digit run, a 0 where it ends, the
  length of the number after it without its leading zeros, its digits, and the key of the rest. An
  exhausted key counts as zeros.
\<close>

function vkey :: "string \<Rightarrow> int list" where
  "vkey s =
     (if s = [] then []
      else let z = skip_zeros (dropWhile (\<lambda>c. \<not> is_digit c) s)
        in map order (takeWhile (\<lambda>c. \<not> is_digit c) s) @
           0 # int (length (digits z)) # map of_char (digits z) @ vkey (after_digits z))"
  by auto

lemma vkey_decreases:
  assumes "s \<noteq> []"
  shows "length (after_digits (skip_zeros (dropWhile (\<lambda>c. \<not> is_digit c) s))) < length s"
proof (cases "is_digit (hd s)")
  case True
  with assms show ?thesis by (cases s) (auto simp: after_digits_skip intro: le_less_trans [OF length_dropWhile_le])
next
  case False
  with assms obtain c r where s: "s = c # r" "\<not> is_digit c" by (cases s) auto
  have "length (after_digits (dropWhile (\<lambda>c. \<not> is_digit c) r)) \<le> length r"
    by (rule order_trans [OF length_dropWhile_le length_dropWhile_le])
  with s show ?thesis by (simp add: after_digits_skip)
qed

termination vkey by (relation "measure length") (auto simp: vkey_decreases)

declare vkey.simps [simp del]

function pcmp :: "int list \<Rightarrow> int list \<Rightarrow> int" where
  "pcmp xs ys =
     (if xs = [] \<and> ys = [] then 0
      else let x = (if xs = [] then 0 else hd xs); y = (if ys = [] then 0 else hd ys)
        in if x \<noteq> y then sgn (x - y) else pcmp (tl xs) (tl ys))"
  by auto
termination by (relation "measure (\<lambda>(a, b). length a + length b)") (auto simp flip: length_greater_0_conv)

definition hd0 :: "int list \<Rightarrow> int" where
  "hd0 xs = (if xs = [] then 0 else hd xs)"

lemma hd0_simps [simp]: "hd0 [] = 0" "hd0 (x # xs) = x"
  by (simp_all add: hd0_def)

lemma pcmp_step: "pcmp xs ys = (if hd0 xs \<noteq> hd0 ys then sgn (hd0 xs - hd0 ys) else pcmp (tl xs) (tl ys))"
  by (cases "xs = [] \<and> ys = []") (simp_all add: pcmp.simps [of xs ys] hd0_def Let_def)

declare pcmp.simps [simp del]

lemma pcmp_Cons [simp]: "pcmp (x # xs) (y # ys) = (if x \<noteq> y then sgn (x - y) else pcmp xs ys)"
  using pcmp_step [of "x # xs" "y # ys"] by simp

lemma pcmp_padding [simp]: "pcmp (0 # xs) [] = pcmp xs []" "pcmp [] (0 # ys) = pcmp [] ys" "pcmp [] [] = 0"
  using pcmp_step [of "0 # xs" "[]"] pcmp_step [of "[]" "0 # ys"] pcmp.simps [of "[]" "[]"] by simp_all

lemma comparison_pcmp: "comparison (\<lambda>_. True) pcmp"
proof (unfold_locales, goal_cases)
  case (1 a)
  show ?case by (induction a) simp_all
next
  case (2 a b)
  show ?case
  proof (induction a b rule: pcmp.induct)
    case (1 a b)
    then show ?case
      using pcmp_step [of a b] pcmp_step [of b a] by (cases "a = [] \<and> b = []") (auto simp: hd0_def sgn_if)
  qed
next
  case (3 a b c)
  then show ?case
  proof (induction "length a + length b + length c" arbitrary: a b c rule: less_induct)
    case less
    show ?case
    proof (cases "hd0 a = hd0 b \<and> hd0 b = hd0 c")
      case True
      then have tl: "pcmp (tl a) (tl b) \<le> 0" "pcmp (tl b) (tl c) \<le> 0"
        using less.prems(4,5) pcmp_step [of a b] pcmp_step [of b c] by simp_all
      show ?thesis
      proof (cases "a = [] \<and> b = [] \<and> c = []")
        case False
        then have "length (tl a) + length (tl b) + length (tl c) < length a + length b + length c"
          by (cases a; cases b; cases c) simp_all
        from less.hyps [OF this _ _ _ tl] True show ?thesis using pcmp_step [of a c] by simp
      qed simp
    next
      case False
      then show ?thesis
        using less.prems(4,5) pcmp_step [of a b] pcmp_step [of b c] pcmp_step [of a c]
        by (simp add: sgn_if split: if_splits)
    qed
  qed
qed

text \<open>The key from the end of a non-digit run on, and the key that an exhausted segment gets as well.\<close>

definition number_key :: "string \<Rightarrow> int list" where
  "number_key s = (let z = skip_zeros s
     in 0 # int (length (digits z)) # map of_char (digits z) @ vkey (after_digits z))"

definition run_key :: "string \<Rightarrow> int list" where
  "run_key s = map order (takeWhile (\<lambda>c. \<not> is_digit c) s) @ number_key (dropWhile (\<lambda>c. \<not> is_digit c) s)"

lemma run_key_vkey: "s \<noteq> [] \<Longrightarrow> vkey s = run_key s"
  by (simp add: vkey.simps [of s] run_key_def number_key_def Let_def)

lemma run_key_Nil: "run_key [] = [0, 0]"
  by (simp add: run_key_def number_key_def skip_zeros_def vkey.simps)

lemma pcmp_vkey: "pcmp (vkey a) (vkey b) = pcmp (run_key a) (run_key b)"
proof -
  have l: "pcmp [] ys = pcmp [0, 0] ys" for ys
    using pcmp_step [of "[]" ys] pcmp_step [of "[0, 0]" ys] pcmp_step [of "[]" "tl ys"] pcmp_step [of "[0]" "tl ys"] by simp
  have r: "pcmp xs [] = pcmp xs [0, 0]" for xs
    using pcmp_step [of xs "[]"] pcmp_step [of xs "[0, 0]"] pcmp_step [of "tl xs" "[]"] pcmp_step [of "tl xs" "[0]"] by simp
  have "vkey [] = []" by (simp add: vkey.simps)
  then show ?thesis using l r run_key_vkey run_key_Nil by (metis (no_types, lifting))
qed

lemma order_nonzero: "\<not> is_digit c \<Longrightarrow> c \<noteq> CHR 0x00 \<Longrightarrow> order c \<noteq> 0"
proof -
  assume "\<not> is_digit c" "c \<noteq> CHR 0x00"
  have "0 \<le> (of_char c :: int)" by (simp add: of_char_def)
  moreover have "isAlpha c \<Longrightarrow> (of_char c :: int) \<noteq> 0"
  proof -
    assume "isAlpha c"
    then have "(of_char c :: nat) \<noteq> 0" by (auto simp: isAlpha_def Let_def)
    then show "(of_char c :: int) \<noteq> 0" by (metis of_nat_of_char of_nat_0_eq_iff)
  qed
  ultimately show ?thesis using \<open>\<not> is_digit c\<close> \<open>c \<noteq> CHR 0x00\<close> by (auto simp: order_def)
qed

lemma run_key_at_nondigit:
  "at_nondigit s \<Longrightarrow> run_key s = next_order s # run_key (tl s)"
  by (cases s) (auto simp: at_nondigit_def run_key_def next_order_def)

lemma run_key_not_nondigit:
  "\<not> at_nondigit s \<Longrightarrow> run_key s = number_key s \<and> next_order s = 0"
  by (cases s) (auto simp: at_nondigit_def run_key_def next_order_def order_def)

lemma hd0_run_key: "hd0 (run_key s) = next_order s"
  by (cases "at_nondigit s") (auto simp: run_key_at_nondigit run_key_not_nondigit number_key_def Let_def)

lemma at_nondigit_order: "at_nondigit s \<Longrightarrow> CHR 0x00 \<notin> set s \<Longrightarrow> next_order s \<noteq> 0"
  by (cases s) (auto simp: at_nondigit_def next_order_def order_nonzero)

lemma nondigit_run_key:
  assumes "CHR 0x00 \<notin> set a" "CHR 0x00 \<notin> set b"
  shows "(case nondigit_run a b of Inl r \<Rightarrow> pcmp (run_key a) (run_key b) = r
    | Inr (a', b') \<Rightarrow> pcmp (run_key a) (run_key b) = pcmp (number_key a') (number_key b') \<and>
        set a' \<subseteq> set a \<and> set b' \<subseteq> set b)"
  using assms
proof (induction a b rule: nondigit_run.induct)
  case (1 a b)
  show ?case
  proof (cases "at_nondigit a \<or> at_nondigit b")
    case False
    then show ?thesis by (simp add: nondigit_run.simps [of a b] run_key_not_nondigit)
  next
    case nd: True
    show ?thesis
    proof (cases "next_order a = next_order b")
      case False
      with nd show ?thesis
        using pcmp_step [of "run_key a" "run_key b"] by (simp add: nondigit_run.simps [of a b] hd0_run_key)
    next
      case True
      with nd 1(2,3) have both: "at_nondigit a" "at_nondigit b"
        using at_nondigit_order [of a] at_nondigit_order [of b] run_key_not_nondigit [of a] run_key_not_nondigit [of b]
        by auto
      have sub: "set (tl a) \<subseteq> set a" "set (tl b) \<subseteq> set b" by (cases a, auto) (cases b, auto)
      have k: "pcmp (run_key a) (run_key b) = pcmp (run_key (tl a)) (run_key (tl b))"
        using both True by (simp add: run_key_at_nondigit)
      have "nondigit_run a b = nondigit_run (tl a) (tl b)"
        using nd True by (simp add: nondigit_run.simps [of a b])
      moreover have "CHR 0x00 \<notin> set (tl a)" "CHR 0x00 \<notin> set (tl b)" using sub 1(2,3) by blast+
      ultimately show ?thesis
        using 1(1) [OF nd refl] True sub k by (fastforce split: sum.splits prod.splits)
    qed
  qed
qed

lemma digit_run_fixed: "fd \<noteq> 0 \<Longrightarrow> digit_run fd a b = (fd', a', b') \<Longrightarrow> fd' = fd"
  by (induction fd a b rule: digit_run.induct) (auto split: if_splits)

lemma digit_run_key:
  assumes "digit_run 0 a b = (fd, a', b')" "length (digits a) = length (digits b)"
  shows "pcmp (map of_char (digits a) @ xs) (map of_char (digits b) @ ys) = (if fd \<noteq> 0 then sgn fd else pcmp xs ys)"
  using assms
proof (induction a arbitrary: b)
  case Nil
  then show ?case by (cases b) (auto split: if_splits)
next
  case (Cons c a)
  show ?case
  proof (cases "is_digit c")
    case False
    with Cons.prems show ?thesis by (cases b) (auto split: if_splits)
  next
    case True
    with Cons.prems(2) obtain d r where b: "b = d # r" "is_digit d" by (cases b) (auto split: if_splits)
    show ?thesis
    proof (cases "(of_char c :: int) = of_char d")
      case True
      with \<open>is_digit c\<close> b Cons.prems Cons.IH [of r] show ?thesis by simp
    next
      case False
      with \<open>is_digit c\<close> b Cons.prems(1) have "fd = of_char c - of_char d"
        using digit_run_fixed [of "of_char c - of_char d" a r fd a' b'] by simp
      with False \<open>is_digit c\<close> b show ?thesis by simp
    qed
  qed
qed

lemma verrevcmp_key:
  "CHR 0x00 \<notin> set a \<Longrightarrow> CHR 0x00 \<notin> set b \<Longrightarrow> verrevcmp a b = pcmp (vkey a) (vkey b)"
proof (induction a b rule: verrevcmp.induct)
  case (1 a b)
  show ?case
  proof (cases "a = [] \<and> b = []")
    case True
    then show ?thesis by (simp add: verrevcmp.simps vkey.simps)
  next
    case ne: False
    note n = nondigit_run_key [OF 1(2,3)]
    show ?thesis
    proof (cases "nondigit_run a b")
      case (Inl r)
      with n ne show ?thesis by (auto simp: verrevcmp.simps [of a b] pcmp_vkey)
    next
      case (Inr p)
      obtain a1 b1 where p: "p = (a1, b1)" by (cases p)
      obtain fd a2 b2 where dr: "digit_run 0 (skip_zeros a1) (skip_zeros b1) = (fd, a2, b2)" by (metis prod_cases3)
      note e = digit_run_ends [OF dr]
      have k: "pcmp (vkey a) (vkey b) = pcmp (number_key a1) (number_key b1)"
        and sub: "set a1 \<subseteq> set a" "set b1 \<subseteq> set b" using n Inr p by (simp_all add: pcmp_vkey)
      show ?thesis
      proof (cases "length (digits (skip_zeros a1)) = length (digits (skip_zeros b1))")
        case False
        with e ne Inr p dr k show ?thesis
          by (auto simp: verrevcmp.simps [of a b] number_key_def Let_def)
      next
        case True
        with e have ad: "\<not> at_digit a2" "\<not> at_digit b2"
            "a2 = after_digits (skip_zeros a1)" "b2 = after_digits (skip_zeros b1)" by (metis nat_neq_iff)+
        have v: "verrevcmp a b = (if fd \<noteq> 0 then sgn fd else verrevcmp a2 b2)"
          using ne Inr p dr ad(1,2) by (subst verrevcmp.simps) auto
        have q: "pcmp (number_key a1) (number_key b1) = (if fd \<noteq> 0 then sgn fd else pcmp (vkey a2) (vkey b2))"
          using digit_run_key [OF dr True] True ad(3,4) by (simp add: number_key_def Let_def)
        have "set a2 \<subseteq> set a" "set b2 \<subseteq> set b"
          using sub ad(3,4) by (auto simp: skip_zeros_def dest!: set_dropWhileD)
        with 1(2,3) have nul: "CHR 0x00 \<notin> set a2" "CHR 0x00 \<notin> set b2" by auto
        show ?thesis
        proof (cases "fd = 0")
          case True
          from 1(1) [OF ne Inr, of a1 b1 fd "(a2, b2)" a2 b2] p dr ad(1,2) True nul have "verrevcmp a2 b2 = pcmp (vkey a2) (vkey b2)" by simp
          with v q k True show ?thesis by simp
        qed (use v q k in simp)
      qed
    qed
  qed
qed

lemma nondigit_run_sign: "nondigit_run a b = Inl r \<Longrightarrow> r \<in> {- 1, 0, 1}"
  by (induction a b rule: nondigit_run.induct) (subst (asm) (2) nondigit_run.simps, auto simp: Let_def sgn_if split: if_splits)

lemma verrevcmp_sign: "verrevcmp a b \<in> {- 1, 0, 1}"
proof (induction a b rule: verrevcmp.induct)
  case (1 a b)
  then show ?case
    using nondigit_run_sign [of a b]
    by (subst verrevcmp.simps) (auto simp: sgn_if split: sum.splits prod.splits)
qed

section \<open>Version comparison\<close>

definition nul_free :: "string \<Rightarrow> bool" where
  "nul_free s = (CHR 0x00 \<notin> set s)"

lemma comparison_verrevcmp: "comparison nul_free verrevcmp"
  by (rule comparison_image [where f = vkey, OF comparison_pcmp]) (simp_all add: nul_free_def verrevcmp_key)

lemma comparison_int: "comparison (\<lambda>_. True) (\<lambda>x y :: int. if x = y then 0 else if x < y then - 1 else 1)"
  by unfold_locales (auto split: if_splits)

lemma set_trim_space: "set (trim_space s) \<subseteq> set s"
  by (auto simp: trim_space_def dest!: set_dropWhileD)

lemma splitVersion_nul_free:
  "nul_free v \<Longrightarrow> splitVersion v = (e, u, r) \<Longrightarrow> nul_free u \<and> nul_free r"
  using set_trim_space [of v]
  by (auto simp: splitVersion_def Let_def nul_free_def split: option.splits prod.splits dest!: in_set_takeD in_set_dropD)

lemma CompareVersions_lex:
  "CompareVersions a b =
     (\<lambda>(x, y) (x', y'). if (if x = x' then 0 else if x < x' then - 1 else 1) \<noteq> (0 :: int)
        then (if x = x' then 0 else if x < x' then - 1 else 1)
        else (\<lambda>(x, y) (x', y'). if verrevcmp x x' \<noteq> 0 then verrevcmp x x' else verrevcmp y y') y y')
       (splitVersion a) (splitVersion b)"
  by (auto simp: CompareVersions_def Let_def split: prod.splits)

interpretation version: comparison nul_free CompareVersions
proof (rule comparison_image [where f = splitVersion, OF comparison_lex [OF comparison_int
      comparison_lex [OF comparison_verrevcmp comparison_verrevcmp]]])
  show "case splitVersion v of (x, y) \<Rightarrow> True \<and> (case y of (u, r) \<Rightarrow> nul_free u \<and> nul_free r)" if "nul_free v" for v
    using splitVersion_nul_free [OF that] by (cases "splitVersion v") auto
qed (rule CompareVersions_lex)

text \<open>
  C17: The version comparison orders the versions without NUL bytes as a total preorder: a version
  equals itself, swapping the arguments negates the result, and "not newer than" is transitive, over
  every epoch, upstream version and revision, with or without \<open>~\<close>, leading zeros, or a common prefix.
  So sorting by it and the test "installed is older than the fix" are well defined.
\<close>
theorem version_order:
  assumes "nul_free a" "nul_free b" "nul_free c"
  shows "CompareVersions a a = 0 \<and> CompareVersions b a = - CompareVersions a b \<and>
    CompareVersions a b \<in> {- 1, 0, 1} \<and>
    (CompareVersions a b \<le> 0 \<longrightarrow> CompareVersions b c \<le> 0 \<longrightarrow> CompareVersions a c \<le> 0)"
proof -
  have sgn: "verrevcmp x y \<in> {- 1, 0, 1}" for x y
    by (rule verrevcmp_sign)
  have "CompareVersions a b \<in> {- 1, 0, 1}"
    using sgn splitVersion_nul_free [OF assms(1)] splitVersion_nul_free [OF assms(2)]
    by (auto simp: CompareVersions_def Let_def split: prod.splits)
  then show ?thesis
    using version.cmp_refl [OF assms(1)] version.cmp_swap [OF assms(1,2)] version.cmp_trans [OF assms] by blast
qed

text \<open>A pre-release, its release, and the release with an epoch.\<close>

lemma version_order_witness:
  "CompareVersions ''1.0~rc1-1'' ''1.0-1'' = - 1 \<and> CompareVersions ''1.0-1'' ''1:0.9'' = - 1 \<and>
   CompareVersions ''1.0~rc1-1'' ''1:0.9'' \<le> 0"
proof -
  have "CompareVersions ''1.0~rc1-1'' ''1.0-1'' = - 1" "CompareVersions ''1.0-1'' ''1:0.9'' = - 1" by code_simp+
  moreover have "nul_free ''1.0~rc1-1''" "nul_free ''1.0-1''" "nul_free ''1:0.9''" by code_simp+
  ultimately show ?thesis using version_order [of "''1.0~rc1-1''" "''1.0-1''" "''1:0.9''"] by simp
qed

end
