(* ===== verification/Vuln_Match.thy ===== *)
theory Vuln_Match
  imports Versions
begin

text \<open>
  The vulnerability matcher of \<^verbatim>\<open>internal/vuln/match.go\<close>: installed packages against the advisories
  of the host's release. The map of advisories by source package is a function that is empty where
  the Go map has no entry. The score field of a finding is not set by the matcher and is left out.
\<close>

section \<open>Model\<close>

record advisory =
  adv_Source :: string
  adv_CVE :: string
  adv_Package :: string
  adv_Release :: string
  adv_FixedVersion :: string
  adv_Severity :: string
  adv_Title :: string

record installed_package =
  ip_Name :: string
  ip_Version :: string
  ip_Source :: string

record vuln_finding =
  vf_Package :: string
  vf_InstalledVersion :: string
  vf_FixedVersion :: string
  vf_CVE :: string
  vf_Severity :: string
  vf_Source :: string

definition sourceOf :: "installed_package \<Rightarrow> string" where
  "sourceOf p = (if ip_Source p \<noteq> [] then ip_Source p else ip_Name p)"

definition IsVulnerable :: "string \<Rightarrow> advisory \<Rightarrow> bool" where
  "IsVulnerable installed a = (adv_FixedVersion a = [] \<or> CompareVersions installed (adv_FixedVersion a) < 0)"

definition normalizeSeverity :: "string \<Rightarrow> string" where
  "normalizeSeverity s =
     (let t = to_lower (trim_space s)
      in if t = ''critical'' then ''critical''
         else if t = ''high'' then ''high''
         else if t = ''medium'' then ''medium''
         else if t = ''low'' then ''low''
         else if t = ''negligible'' \<or> t = ''unimportant'' then ''negligible''
         else ''unknown'')"

definition SeverityRank :: "string \<Rightarrow> int" where
  "SeverityRank sev =
     (let t = normalizeSeverity sev
      in if t = ''critical'' then 5
         else if t = ''high'' then 4
         else if t = ''medium'' then 3
         else if t = ''low'' then 2
         else if t = ''negligible'' then 1
         else 0)"

definition match_key :: "string \<Rightarrow> string \<Rightarrow> string" where
  "match_key src cve = src @ [CHR 0x00] @ cve"

definition finding_of :: "installed_package \<Rightarrow> advisory \<Rightarrow> vuln_finding" where
  "finding_of p a = \<lparr>vf_Package = sourceOf p, vf_InstalledVersion = ip_Version p, vf_FixedVersion = adv_FixedVersion a,
     vf_CVE = adv_CVE a, vf_Severity = normalizeSeverity (adv_Severity a), vf_Source = adv_Source a\<rparr>"

text \<open>The inner loop: the advisories of one package, with the keys seen and the findings so far.\<close>

fun match_package ::
  "installed_package \<Rightarrow> advisory list \<Rightarrow> string set \<times> vuln_finding list \<Rightarrow> string set \<times> vuln_finding list" where
  "match_package p [] s = s"
| "match_package p (a # as) (seen, out) =
     (if \<not> IsVulnerable (ip_Version p) a then match_package p as (seen, out)
      else let key = match_key (sourceOf p) (adv_CVE a)
        in if key \<in> seen then match_package p as (seen, out)
           else match_package p as (insert key seen, out @ [finding_of p a]))"

fun match_packages ::
  "installed_package list \<Rightarrow> (string \<Rightarrow> advisory list) \<Rightarrow> string set \<times> vuln_finding list \<Rightarrow> string set \<times> vuln_finding list" where
  "match_packages [] advs s = s"
| "match_packages (p # ps) advs s = match_packages ps advs (match_package p (advs (sourceOf p)) s)"

definition Match :: "installed_package list \<Rightarrow> (string \<Rightarrow> advisory list) \<Rightarrow> vuln_finding list" where
  "Match pkgs advs = snd (match_packages pkgs advs ({}, []))"

section \<open>What is found\<close>

text \<open>The hits of the two loops, before duplicates are dropped.\<close>

definition hits :: "installed_package list \<Rightarrow> (string \<Rightarrow> advisory list) \<Rightarrow> (installed_package \<times> advisory) set" where
  "hits pkgs advs = {(p, a). p \<in> set pkgs \<and> a \<in> set (advs (sourceOf p)) \<and> IsVulnerable (ip_Version p) a}"

definition package_hits :: "installed_package \<Rightarrow> advisory list \<Rightarrow> (installed_package \<times> advisory) set" where
  "package_hits p as = Pair p ` {a \<in> set as. IsVulnerable (ip_Version p) a}"

definition key_of :: "vuln_finding \<Rightarrow> string" where
  "key_of f = match_key (vf_Package f) (vf_CVE f)"

abbreviation hit_key :: "installed_package \<times> advisory \<Rightarrow> string" where
  "hit_key h \<equiv> match_key (sourceOf (fst h)) (adv_CVE (snd h))"

abbreviation hit_finding :: "installed_package \<times> advisory \<Rightarrow> vuln_finding" where
  "hit_finding h \<equiv> finding_of (fst h) (snd h)"

lemma key_of_finding [simp]: "key_of (finding_of p a) = match_key (sourceOf p) (adv_CVE a)"
  by (simp add: key_of_def finding_of_def)

lemma hits_simps [simp]:
  "hits [] advs = {}"
  "hits (p # ps) advs = package_hits p (advs (sourceOf p)) \<union> hits ps advs"
  by (auto simp: hits_def package_hits_def)

lemma package_hits_simps [simp]:
  "package_hits p [] = {}"
  "package_hits p (a # as) = (if IsVulnerable (ip_Version p) a then insert (p, a) (package_hits p as) else package_hits p as)"
  by (auto simp: package_hits_def)

text \<open>The state of the loops: the keys seen are those of the findings, which are distinct.\<close>

definition matched :: "string set \<times> vuln_finding list \<Rightarrow> bool" where
  "matched s = (fst s = key_of ` set (snd s) \<and> distinct (map key_of (snd s)))"

text \<open>What a loop over the hits \<open>H\<close> adds to its state.\<close>

definition adds :: "(installed_package \<times> advisory) set \<Rightarrow> string set \<times> vuln_finding list \<Rightarrow> string set \<times> vuln_finding list \<Rightarrow> bool" where
  "adds H s s' = (fst s' = fst s \<union> hit_key ` H \<and> set (snd s') \<subseteq> set (snd s) \<union> hit_finding ` H)"

lemma adds_trans: "adds H s s' \<Longrightarrow> adds K s' s'' \<Longrightarrow> adds (H \<union> K) s s''"
  by (auto simp: adds_def image_Un)

lemma match_package_matched:
  "matched s \<Longrightarrow> matched (match_package p as s) \<and> adds (package_hits p as) s (match_package p as s)"
proof (induction p as s rule: match_package.induct)
  case (1 p s)
  then show ?case by (simp add: adds_def)
next
  case (2 p a as seen out)
  let ?k = "match_key (sourceOf p) (adv_CVE a)"
  consider "\<not> IsVulnerable (ip_Version p) a" | "IsVulnerable (ip_Version p) a" "?k \<in> seen"
    | "IsVulnerable (ip_Version p) a" "?k \<notin> seen" by blast
  then show ?case
  proof cases
    case 1
    with 2(1,4) show ?thesis by simp
  next
    case 2
    then have "adds {(p, a)} (seen, out) (seen, out)" by (auto simp: adds_def)
    with "2.IH"(2) [OF _ refl] "2.prems" 2 adds_trans [of "{(p, a)}"] show ?thesis by simp
  next
    case 3
    let ?s = "(insert ?k seen, out @ [finding_of p a])"
    have "matched ?s" using "2.prems" 3 by (auto simp: matched_def)
    moreover have "adds {(p, a)} (seen, out) ?s" by (auto simp: adds_def)
    ultimately show ?thesis
      using "2.IH"(3) [OF _ refl] 3 adds_trans [of "{(p, a)}"] by (simp add: Let_def)
  qed
qed

lemma match_packages_matched:
  "matched s \<Longrightarrow> matched (match_packages ps advs s) \<and> adds (hits ps advs) s (match_packages ps advs s)"
proof (induction ps arbitrary: s)
  case Nil
  then show ?case by (simp add: adds_def)
next
  case (Cons p ps)
  note m = match_package_matched [OF Cons.prems, of p "advs (sourceOf p)"]
  with Cons.IH [of "match_package p (advs (sourceOf p)) s"] show ?case
    using adds_trans by (simp only: match_packages.simps hits_simps) blast
qed

lemma Match_findings:
  shows Match_keys: "key_of ` set (Match pkgs advs) = hit_key ` hits pkgs advs"
    and Match_distinct: "distinct (map key_of (Match pkgs advs))"
    and Match_from: "set (Match pkgs advs) \<subseteq> hit_finding ` hits pkgs advs"
proof -
  have "matched ({}, [])" by (simp add: matched_def)
  note m = match_packages_matched [OF this, of pkgs advs]
  then show "distinct (map key_of (Match pkgs advs))" "set (Match pkgs advs) \<subseteq> hit_finding ` hits pkgs advs"
    by (simp_all add: Match_def matched_def adds_def)
  from m have "fst (match_packages pkgs advs ({}, [])) = hit_key ` hits pkgs advs" by (simp add: adds_def)
  with m show "key_of ` set (Match pkgs advs) = hit_key ` hits pkgs advs" by (simp add: Match_def matched_def)
qed

lemma match_key_inject:
  "nul_free s \<Longrightarrow> nul_free s' \<Longrightarrow> match_key s c = match_key s' c' \<longleftrightarrow> s = s' \<and> c = c'"
proof (induction s arbitrary: s')
  case Nil
  then show ?case by (cases s') (auto simp: match_key_def nul_free_def)
next
  case (Cons x s)
  then show ?case by (cases s') (auto simp: match_key_def nul_free_def)
qed

text \<open>
  C18: The matcher reports exactly the vulnerable packages: a source package and CVE are reported if
  and only if some installed binary of that source is hit by an advisory of that source for the CVE
  (it has no fix, or the installed version is older), each pair once however many binaries and
  advisories agree, and each finding carries the version, the fix and the severity of such a hit.
\<close>
theorem Match_exact:
  assumes "\<forall>p \<in> set pkgs. nul_free (sourceOf p)"
  shows "distinct (map (\<lambda>f. (vf_Package f, vf_CVE f)) (Match pkgs advs)) \<and>
    (\<forall>src cve. nul_free src \<longrightarrow>
       ((\<exists>f \<in> set (Match pkgs advs). vf_Package f = src \<and> vf_CVE f = cve) \<longleftrightarrow>
        (\<exists>p \<in> set pkgs. \<exists>a \<in> set (advs src). sourceOf p = src \<and> adv_CVE a = cve \<and>
           (adv_FixedVersion a = [] \<or> CompareVersions (ip_Version p) (adv_FixedVersion a) < 0)))) \<and>
    (\<forall>f \<in> set (Match pkgs advs). \<exists>p \<in> set pkgs. \<exists>a \<in> set (advs (sourceOf p)). f = finding_of p a \<and> IsVulnerable (ip_Version p) a)"
proof (intro conjI allI impI)
  have "distinct (map (\<lambda>(s, c). match_key s c) (map (\<lambda>f. (vf_Package f, vf_CVE f)) (Match pkgs advs)))"
    using Match_distinct [of pkgs advs] by (simp add: key_of_def [abs_def] comp_def)
  then show "distinct (map (\<lambda>f. (vf_Package f, vf_CVE f)) (Match pkgs advs))"
    unfolding distinct_map by blast
next
  fix src cve assume src: "nul_free src"
  have nf: "nul_free (vf_Package f)" if "f \<in> set (Match pkgs advs)" for f
    using that Match_from [of pkgs advs] assms by (auto simp: hits_def finding_of_def)
  have "(\<exists>f \<in> set (Match pkgs advs). vf_Package f = src \<and> vf_CVE f = cve) \<longleftrightarrow>
      match_key src cve \<in> key_of ` set (Match pkgs advs)"
    using nf src by (auto simp: key_of_def match_key_inject image_iff)
  also have "\<dots> \<longleftrightarrow> match_key src cve \<in> hit_key ` hits pkgs advs" by (simp add: Match_keys)
  also have "\<dots> \<longleftrightarrow> (\<exists>p \<in> set pkgs. \<exists>a \<in> set (advs src). sourceOf p = src \<and> adv_CVE a = cve \<and>
      (adv_FixedVersion a = [] \<or> CompareVersions (ip_Version p) (adv_FixedVersion a) < 0))"
    using src assms by (force simp: hits_def match_key_inject image_iff IsVulnerable_def)
  finally show "(\<exists>f \<in> set (Match pkgs advs). vf_Package f = src \<and> vf_CVE f = cve) \<longleftrightarrow>
      (\<exists>p \<in> set pkgs. \<exists>a \<in> set (advs src). sourceOf p = src \<and> adv_CVE a = cve \<and>
      (adv_FixedVersion a = [] \<or> CompareVersions (ip_Version p) (adv_FixedVersion a) < 0))" .
next
  show "\<forall>f \<in> set (Match pkgs advs). \<exists>p \<in> set pkgs. \<exists>a \<in> set (advs (sourceOf p)). f = finding_of p a \<and> IsVulnerable (ip_Version p) a"
    using Match_from [of pkgs advs] by (fastforce simp: hits_def)
qed

text \<open>
  Upgrading packages never adds a finding: when every package keeps its source and gets a
  version that is not older, each source package and CVE reported afterwards was reported before.
\<close>
theorem upgrade_never_adds:
  assumes "list_all2 (\<lambda>p q. sourceOf q = sourceOf p \<and> nul_free (ip_Version p) \<and> nul_free (ip_Version q) \<and>
      CompareVersions (ip_Version p) (ip_Version q) \<le> 0) pkgs pkgs'"
    and "\<And>p a. p \<in> set pkgs \<Longrightarrow> a \<in> set (advs (sourceOf p)) \<Longrightarrow> nul_free (adv_FixedVersion a)"
  shows "key_of ` set (Match pkgs' advs) \<subseteq> key_of ` set (Match pkgs advs)"
proof -
  have "hit_key (q, a) \<in> hit_key ` hits pkgs advs" if h: "(q, a) \<in> hits pkgs' advs" for q a
  proof -
    from h have q: "q \<in> set pkgs'" "a \<in> set (advs (sourceOf q))" "IsVulnerable (ip_Version q) a"
      by (simp_all add: hits_def)
    then obtain p where p: "p \<in> set pkgs" "sourceOf q = sourceOf p" "nul_free (ip_Version p)" "nul_free (ip_Version q)"
        "CompareVersions (ip_Version p) (ip_Version q) \<le> 0"
      using assms(1) unfolding list_all2_conv_all_nth in_set_conv_nth by metis
    have "IsVulnerable (ip_Version p) a"
      using q p version.cmp_le_less_trans [OF p(3,4) assms(2) p(5)] by (auto simp: IsVulnerable_def)
    with p q have "(p, a) \<in> hits pkgs advs" by (simp add: hits_def)
    with p(2) show ?thesis by (force intro: rev_image_eqI)
  qed
  then show ?thesis unfolding Match_keys by auto
qed

text \<open>Two binaries of one source, of which the older one is affected; a package without a fix.\<close>

definition w_pkgs :: "installed_package list" where
  "w_pkgs = [\<lparr>ip_Name = ''libssl3'', ip_Version = ''3.0.2-0'', ip_Source = ''openssl''\<rparr>,
             \<lparr>ip_Name = ''openssl'', ip_Version = ''3.0.2-0'', ip_Source = []\<rparr>,
             \<lparr>ip_Name = ''vim'', ip_Version = ''2:9.1'', ip_Source = []\<rparr>]"

definition w_advisory :: "string \<Rightarrow> string \<Rightarrow> advisory" where
  "w_advisory cve fix = \<lparr>adv_Source = ''usn'', adv_CVE = cve, adv_Package = [], adv_Release = ''jammy'', adv_FixedVersion = fix,
     adv_Severity = '' High'', adv_Title = []\<rparr>"

definition w_advs :: "string \<Rightarrow> advisory list" where
  "w_advs src = (if src = ''openssl'' then [w_advisory ''CVE-1'' ''3.0.2-0ubuntu1.10''] else if src = ''vim'' then [w_advisory ''CVE-2'' ''2:8.2''] else [])"

lemma Match_exact_witness:
  "Match w_pkgs w_advs = [finding_of (w_pkgs ! 0) (w_advisory ''CVE-1'' ''3.0.2-0ubuntu1.10'')] \<and>
   \<not> (\<exists>f \<in> set (Match w_pkgs w_advs). vf_Package f = ''vim'' \<and> vf_CVE f = ''CVE-2'')"
proof -
  have nf: "\<forall>p \<in> set w_pkgs. nul_free (sourceOf p)" by code_simp
  have v: "nul_free ''vim''" by code_simp
  have m: "Match w_pkgs w_advs = [finding_of (w_pkgs ! 0) (w_advisory ''CVE-1'' ''3.0.2-0ubuntu1.10'')]" by code_simp
  have no: "\<not> (\<exists>p \<in> set w_pkgs. \<exists>a \<in> set (w_advs ''vim''). sourceOf p = ''vim'' \<and> adv_CVE a = ''CVE-2'' \<and>
      (adv_FixedVersion a = [] \<or> CompareVersions (ip_Version p) (adv_FixedVersion a) < 0))" by code_simp
  from Match_exact [OF nf, of w_advs] v have
    "(\<exists>f \<in> set (Match w_pkgs w_advs). vf_Package f = ''vim'' \<and> vf_CVE f = ''CVE-2'') \<longleftrightarrow>
     (\<exists>p \<in> set w_pkgs. \<exists>a \<in> set (w_advs ''vim''). sourceOf p = ''vim'' \<and> adv_CVE a = ''CVE-2'' \<and>
      (adv_FixedVersion a = [] \<or> CompareVersions (ip_Version p) (adv_FixedVersion a) < 0))" by blast
  with no m show ?thesis by simp
qed

definition w_upgraded :: "installed_package list" where
  "w_upgraded = map (\<lambda>p. p\<lparr>ip_Version := if sourceOf p = ''openssl'' then ''3.0.2-0ubuntu1.10'' else ip_Version p\<rparr>) w_pkgs"

lemma upgrade_never_adds_witness:
  "Match w_upgraded w_advs = [] \<and> key_of ` set (Match w_upgraded w_advs) \<subseteq> key_of ` set (Match w_pkgs w_advs)"
proof -
  have up: "list_all2 (\<lambda>p q. sourceOf q = sourceOf p \<and> nul_free (ip_Version p) \<and> nul_free (ip_Version q) \<and>
      CompareVersions (ip_Version p) (ip_Version q) \<le> 0) w_pkgs w_upgraded" by code_simp
  have "\<forall>p \<in> set w_pkgs. \<forall>a \<in> set (w_advs (sourceOf p)). nul_free (adv_FixedVersion a)" by code_simp
  then have "\<And>p a. p \<in> set w_pkgs \<Longrightarrow> a \<in> set (w_advs (sourceOf p)) \<Longrightarrow> nul_free (adv_FixedVersion a)" by blast
  then have sub: "key_of ` set (Match w_upgraded w_advs) \<subseteq> key_of ` set (Match w_pkgs w_advs)"
    by (rule upgrade_never_adds [OF up])
  have "Match w_upgraded w_advs = []" by code_simp
  with sub show ?thesis by blast
qed

end
