(* ===== verification/Worker.thy ===== *)
theory Worker
  imports Events Database
begin

text \<open>
  The detect worker of \<^verbatim>\<open>internal/worker\<close>: what happens to one message of the bus
  (\<^verbatim>\<open>worker.go\<close>), the batch queue that stores ordinary events (\<^verbatim>\<open>batcher.go\<close>), and the
  insert they share (\<^verbatim>\<open>internal/store/store.go\<close>). A message that does not decode is \<open>None\<close>.

  The enricher, the detectors, the suppressor, the annotator and the alert hook are the fields of a
  configuration that read and change an environment \<open>wk_env\<close>, as the code takes them as functions.
  \<open>wk_refuses\<close> is PostgreSQL's: the rows whose text it cannot read, such as a source address that is
  no \<^verbatim>\<open>inet\<close>. The outcome of a delivery (\<open>True\<close> for an acknowledgement, \<open>False\<close> for a negative one)
  is kept with the number of the delivery. Log output is not kept.
\<close>

section \<open>State\<close>

type_synonym delivery = nat

record 'x worker_db = db +
  wk_env :: 'x
  wk_rows :: "event list"
  wk_refuses :: "event \<Rightarrow> bool"
  wk_acks :: "(delivery \<times> bool) list"
  wk_alerts :: "event list"
  wk_chan :: "(event \<times> delivery) list"
  wk_batch :: "(event \<times> delivery) list"
  wk_maxRows :: int
  wk_linger :: duration
  wk_timing :: bool
  wk_stopped :: bool

record 'x pipeline =
  pl_enricher :: "(event \<Rightarrow> 'x \<Rightarrow> event \<times> 'x) option"
  pl_onAlert :: "(event \<Rightarrow> 'x \<Rightarrow> 'x) option"
  pl_suppress :: "(event \<Rightarrow> 'x \<Rightarrow> bool \<times> 'x) option"
  pl_annotate :: "(event \<Rightarrow> event) option"
  pl_detectors :: "(event \<Rightarrow> 'x \<Rightarrow> event option \<times> 'x) list"

type_synonym 'x queue_add = "event \<Rightarrow> delivery \<Rightarrow> 'x worker_db \<Rightarrow> 'x worker_db"

definition ack :: "delivery \<Rightarrow> bool \<Rightarrow> 'x worker_db \<Rightarrow> 'x worker_db" where
  "ack m ok w = w\<lparr>wk_acks := wk_acks w @ [(m, ok)]\<rparr>"

section \<open>Storing events\<close>

text \<open>The first component is \<open>True\<close> for an error.\<close>

definition InsertEvent :: "event \<Rightarrow> 'x worker_db \<Rightarrow> bool \<times> 'x worker_db" where
  "InsertEvent e w =
     (case query w of
        (True, w1) \<Rightarrow> (True, w1)
      | (False, w1) \<Rightarrow> if wk_refuses w1 e then (True, w1) else (False, w1\<lparr>wk_rows := wk_rows w1 @ [e]\<rparr>))"

definition maxEventsPerInsert :: nat where
  "maxEventsPerInsert = 500"

text \<open>One statement per chunk; a chunk with a row the server refuses fails as a whole.\<close>

function InsertEvents :: "event list \<Rightarrow> 'x worker_db \<Rightarrow> bool \<times> 'x worker_db" where
  "InsertEvents evs w =
     (if evs = [] then (False, w)
      else let n = min (length evs) maxEventsPerInsert in
        (case query w of
           (True, w1) \<Rightarrow> (True, w1)
         | (False, w1) \<Rightarrow>
             if list_ex (wk_refuses w1) (take n evs) then (True, w1)
             else InsertEvents (drop n evs) (w1\<lparr>wk_rows := wk_rows w1 @ take n evs\<rparr>)))"
  by auto
termination
  by (relation "measure (\<lambda>(evs, w). length evs)") (auto simp: maxEventsPerInsert_def min_def)

declare InsertEvents.simps [simp del]

section \<open>The queues\<close>

text \<open>\<^verbatim>\<open>DirectQueue\<close>: one insert per event, acknowledged at once.\<close>

definition DirectAdd :: "'x queue_add" where
  "DirectAdd e m w = (case InsertEvent e w of (err, w1) \<Rightarrow> ack m (\<not> err) w1)"

definition DefaultBatchRows :: int where "DefaultBatchRows = 200"
definition DefaultBatchLinger :: duration where "DefaultBatchLinger = 200000000"

definition NewBatcher :: "int \<Rightarrow> duration \<Rightarrow> 'x worker_db \<Rightarrow> 'x worker_db" where
  "NewBatcher maxRows linger w =
     w\<lparr>wk_chan := [], wk_batch := [], wk_maxRows := (if maxRows \<le> 0 then DefaultBatchRows else maxRows),
       wk_linger := (if linger \<le> 0 then DefaultBatchLinger else linger), wk_timing := False, wk_stopped := False\<rparr>"

text \<open>
  \<^verbatim>\<open>Add\<close> looks at \<^verbatim>\<open>stopped\<close> twice: first alone (\<open>seen\<close> is what it saw), then in a select whose
  choice among the ready cases is the runtime's.
\<close>

datatype select_choice = SendCase | StoppedCase | DoneCase

definition BatchAdd :: "bool \<Rightarrow> select_choice \<Rightarrow> 'x queue_add" where
  "BatchAdd seen choice e m w =
     (if seen then ack m False w
      else case choice of
        SendCase \<Rightarrow> w\<lparr>wk_chan := wk_chan w @ [(e, m)]\<rparr>
      | StoppedCase \<Rightarrow> ack m False w
      | DoneCase \<Rightarrow> ack m False w)"

text \<open>When the two looks and the choice are possible; a full channel blocks the send.\<close>

definition add_enabled :: "bool \<Rightarrow> select_choice \<Rightarrow> 'x worker_db \<Rightarrow> bool" where
  "add_enabled seen choice w =
     ((seen \<or> choice = StoppedCase \<longrightarrow> wk_stopped w) \<and>
      (\<not> seen \<and> choice = SendCase \<longrightarrow> int (length (wk_chan w)) < 2 * wk_maxRows w))"

text \<open>\<^verbatim>\<open>flush\<close>: one outcome for every event of the batch.\<close>

definition flush :: "(event \<times> delivery) list \<Rightarrow> 'x worker_db \<Rightarrow> 'x worker_db" where
  "flush batch w =
     (if batch = [] then w
      else case InsertEvents (map fst batch) w of
        (err, w1) \<Rightarrow> w1\<lparr>wk_acks := wk_acks w1 @ map (\<lambda>(e, m). (m, \<not> err)) batch\<rparr>)"

text \<open>The closure of \<^verbatim>\<open>run\<close> that stops the timer, flushes and empties the batch.\<close>

definition flush_batch :: "'x worker_db \<Rightarrow> 'x worker_db" where
  "flush_batch w = (flush (wk_batch w) (w\<lparr>wk_timing := False\<rparr>))\<lparr>wk_batch := []\<rparr>"

text \<open>The cases of the loop: an event from the channel, the timer, and the drain after \<^verbatim>\<open>quit\<close>.\<close>

definition run_receive :: "event \<times> delivery \<Rightarrow> 'x worker_db \<Rightarrow> 'x worker_db" where
  "run_receive q w =
     (let w1 = w\<lparr>wk_batch := wk_batch w @ [q]\<rparr>
      in if int (length (wk_batch w1)) \<ge> wk_maxRows w1 then flush_batch w1 else w1\<lparr>wk_timing := True\<rparr>)"

definition run_timer :: "'x worker_db \<Rightarrow> 'x worker_db" where
  "run_timer w = flush_batch (w\<lparr>wk_timing := False\<rparr>)"

fun drain :: "(event \<times> delivery) list \<Rightarrow> 'x worker_db \<Rightarrow> 'x worker_db" where
  "drain [] w = w"
| "drain (q # qs) w =
     (let w1 = w\<lparr>wk_batch := wk_batch w @ [q]\<rparr>
      in drain qs (if int (length (wk_batch w1)) \<ge> wk_maxRows w1
                   then (flush (wk_batch w1) w1)\<lparr>wk_batch := []\<rparr> else w1))"

definition Close :: "'x worker_db \<Rightarrow> 'x worker_db" where
  "Close w =
     (if wk_stopped w then w
      else (flush_batch (drain (wk_chan w) (w\<lparr>wk_chan := []\<rparr>)))\<lparr>wk_stopped := True\<rparr>)"

section \<open>One message\<close>

definition futureSkewGrace :: duration where
  "futureSkewGrace = 2 * minute"

definition markAuthorizedChange :: "event \<Rightarrow> event" where
  "markAuthorizedChange alert =
     (let d = ev_DeusWatch alert; ef = ev_Event alert in
      alert\<lparr>ev_DeusWatch := d\<lparr>dw_Severity := \<lparr>sm_Original = ef_Severity ef,
                                 sm_EscalatedBy = ''trusted-session (authorized change)''\<rparr>,
                              dw_Label := ''authorized_change'',
                              dw_Remediation := \<lparr>rm_Action = [], rm_Source = [], rm_Status = []\<rparr>,
                              dw_Containment := None\<rparr>,
            ev_Event := ef\<lparr>ef_Severity := SeverityLow,
                           ef_Outcome := (if ef_Outcome ef = [] then ''success'' else ef_Outcome ef)\<rparr>\<rparr>)"

definition annotate_with :: "'x pipeline \<Rightarrow> event \<Rightarrow> event" where
  "annotate_with p e = (case pl_annotate p of None \<Rightarrow> e | Some f \<Rightarrow> f e)"

definition suppress_with :: "'x pipeline \<Rightarrow> event \<Rightarrow> 'x worker_db \<Rightarrow> bool \<times> 'x worker_db" where
  "suppress_with p e w =
     (case pl_suppress p of
        None \<Rightarrow> (False, w)
      | Some f \<Rightarrow> (case f e (wk_env w) of (b, x) \<Rightarrow> (b, w\<lparr>wk_env := x\<rparr>)))"

definition announce :: "'x pipeline \<Rightarrow> event \<Rightarrow> 'x worker_db \<Rightarrow> 'x worker_db" where
  "announce p a w =
     (case pl_onAlert p of
        None \<Rightarrow> w
      | Some f \<Rightarrow> w\<lparr>wk_alerts := wk_alerts w @ [a], wk_env := f a (wk_env w)\<rparr>)"

text \<open>Time, enrichment and, for an event that comes with a label, the annotation.\<close>

definition clamp_time :: "gotime \<Rightarrow> event \<Rightarrow> event" where
  "clamp_time now e =
     (if ev_Timestamp e = 0 then e\<lparr>ev_Timestamp := now\<rparr>
      else if ev_Timestamp e > now + futureSkewGrace then e\<lparr>ev_Timestamp := now\<rparr>
      else e)"

definition prepare :: "'x pipeline \<Rightarrow> event \<Rightarrow> 'x worker_db \<Rightarrow> event \<times> 'x worker_db" where
  "prepare p e0 w =
     (let e1 = clamp_time (db_clock w) e0;
          (e2, w1) = (case pl_enricher p of
             None \<Rightarrow> (e1, w)
           | Some f \<Rightarrow> (case f e1 (wk_env w) of (e, x) \<Rightarrow> (e, w\<lparr>wk_env := x\<rparr>)))
      in (if dw_Label (ev_DeusWatch e2) \<noteq> [] then annotate_with p e2 else e2, w1))"

text \<open>The loop over the detectors: an error, the alerts to announce, the state.\<close>

fun run_detectors ::
    "'x pipeline \<Rightarrow> event \<Rightarrow> (event \<Rightarrow> 'x \<Rightarrow> event option \<times> 'x) list \<Rightarrow> event list \<Rightarrow> 'x worker_db \<Rightarrow>
     (bool \<times> event list) \<times> 'x worker_db" where
  "run_detectors p e [] fired w = ((False, fired), w)"
| "run_detectors p e (inspect # ds) fired w =
     (case inspect e (wk_env w) of
        (None, x) \<Rightarrow> run_detectors p e ds fired (w\<lparr>wk_env := x\<rparr>)
      | (Some alert, x) \<Rightarrow>
          (case suppress_with p alert (w\<lparr>wk_env := x\<rparr>) of
             (True, w1) \<Rightarrow>
               (case InsertEvent (markAuthorizedChange alert) w1 of
                  (True, w2) \<Rightarrow> ((True, fired), w2)
                | (False, w2) \<Rightarrow> run_detectors p e ds fired w2)
           | (False, w1) \<Rightarrow>
               let alert' = annotate_with p alert in
               (case InsertEvent alert' w1 of
                  (True, w2) \<Rightarrow> ((True, fired), w2)
                | (False, w2) \<Rightarrow> run_detectors p e ds (fired @ [alert']) w2)))"

definition MsgHandler :: "'x pipeline \<Rightarrow> 'x queue_add \<Rightarrow> delivery \<Rightarrow> event option \<Rightarrow> 'x worker_db \<Rightarrow> 'x worker_db" where
  "MsgHandler p add m data w =
     (case data of
        None \<Rightarrow> ack m True w
      | Some e0 \<Rightarrow>
     (case prepare p e0 w of
        (e, w1) \<Rightarrow>
     (case run_detectors p e (pl_detectors p) [] w1 of
        ((True, _), w2) \<Rightarrow> ack m False w2
      | ((False, fired), w2) \<Rightarrow>
          if dw_Label (ev_DeusWatch e) \<noteq> [] then
            (case suppress_with p e w2 of
               (quiet, w3) \<Rightarrow>
                 (case InsertEvent e w3 of
                    (True, w4) \<Rightarrow> ack m False w4
                  | (False, w4) \<Rightarrow>
                      fold (announce p) fired (if \<not> quiet then announce p e (ack m True w4) else ack m True w4)))
          else fold (announce p) fired (add e m w2))))"

text \<open>\<^verbatim>\<open>Handler\<close>: the same over a \<^verbatim>\<open>DirectQueue\<close>.\<close>

definition Handler :: "'x pipeline \<Rightarrow> delivery \<Rightarrow> event option \<Rightarrow> 'x worker_db \<Rightarrow> 'x worker_db" where
  "Handler p = MsgHandler p DirectAdd"

end
