(* ===== verification/Worker_Props.thy ===== *)
theory Worker_Props
  imports Worker Brute_Force "HOL-Library.Multiset"
begin

text \<open>
  What the worker promises: every delivery is answered at most once and never forgotten, an
  acknowledged event is in the table, an announced alert is in the table, and the events in memory
  are bounded. The contract of the queue is the locale \<open>event_queue\<close>, kept by both queues.
\<close>

section \<open>Accounting for deliveries\<close>

type_synonym delivery_log = "(delivery \<times> event option) list"

text \<open>
  \<open>log\<close> has every delivery so far with the event as prepared for storage (\<open>None\<close> for one that did
  not decode); \<open>wait\<close> the events taken over and not yet answered.
\<close>

definition accounted ::
    "delivery_log \<Rightarrow> event list \<Rightarrow> (delivery \<times> bool) list \<Rightarrow> event list \<Rightarrow> (event \<times> delivery) list \<Rightarrow> bool" where
  "accounted log rows acks alerts wait =
     (distinct (map fst log) \<and>
      mset (map fst acks) + mset (map snd wait) = mset (map fst log) \<and>
      (\<forall>m. (m, True) \<in> set acks \<longrightarrow> (m, None) \<in> set log \<or> (\<exists>e \<in> set rows. (m, Some e) \<in> set log)) \<and>
      (\<forall>(e, m) \<in> set wait. (m, Some e) \<in> set log) \<and>
      set alerts \<subseteq> set rows)"

lemma accounted_rows:
  "accounted log rows acks alerts wait \<Longrightarrow> set rows \<subseteq> set rows' \<Longrightarrow> accounted log rows' acks alerts wait"
  by (fastforce simp: accounted_def)

lemma accounted_alerts:
  "accounted log rows acks alerts wait \<Longrightarrow> set as \<subseteq> set rows \<Longrightarrow> accounted log rows acks (alerts @ as) wait"
  by (simp add: accounted_def)

lemma accounted_ack:
  assumes "accounted log rows acks alerts wait" "m \<notin> fst ` set log"
    and "ok \<Longrightarrow> mev = None \<or> (\<exists>e \<in> set rows. mev = Some e)"
  shows "accounted (log @ [(m, mev)]) rows (acks @ [(m, ok)]) alerts wait"
  using assms by (auto simp: accounted_def)

lemma accounted_queue:
  assumes "accounted log rows acks alerts wait" "m \<notin> fst ` set log"
    and "mset wait' = mset wait + {#(e, m)#}"
  shows "accounted (log @ [(m, Some e)]) rows acks alerts wait'"
proof -
  have "set wait' = insert (e, m) (set wait)" using assms(3) by (metis add_mset_add_single mset_append set_mset_add_mset_insert set_mset_mset)
  moreover have "mset (map snd wait') = mset (map snd wait) + {#m#}" using assms(3) by simp
  ultimately show ?thesis using assms(1,2) by (auto simp: accounted_def)
qed

lemma accounted_flush:
  assumes "accounted log rows acks alerts (batch @ rest)" "ok \<Longrightarrow> fst ` set batch \<subseteq> set rows"
  shows "accounted log rows (acks @ map (\<lambda>(e, m). (m, ok)) batch) alerts rest"
  unfolding accounted_def
proof (intro conjI allI impI)
  have eq: "map fst (map (\<lambda>(e, m). (m, ok)) batch) = map snd batch" by (simp add: case_prod_beta comp_def)
  have "mset (map fst acks) + (mset (map snd batch) + mset (map snd rest)) = mset (map fst log)"
    using assms(1) by (simp add: accounted_def)
  then show "mset (map fst (acks @ map (\<lambda>(e, m). (m, ok)) batch)) + mset (map snd rest) = mset (map fst log)"
    by (simp only: map_append mset_append eq add.assoc)
  fix m assume "(m, True) \<in> set (acks @ map (\<lambda>(e, m). (m, ok)) batch)"
  then consider "(m, True) \<in> set acks" | e where "ok" "(e, m) \<in> set batch" by auto
  then show "(m, None) \<in> set log \<or> (\<exists>e \<in> set rows. (m, Some e) \<in> set log)"
  proof cases
    case 1
    with assms(1) show ?thesis by (simp add: accounted_def)
  next
    case (2 e)
    then have "(m, Some e) \<in> set log" "e \<in> set rows" using assms by (auto simp: accounted_def)
    then show ?thesis by blast
  qed
qed (use assms(1) in \<open>auto simp: accounted_def\<close>)

section \<open>What the inserts change\<close>

text \<open>An insert only adds rows and consumes outcomes of the database.\<close>

definition grows :: "'x worker_db \<Rightarrow> 'x worker_db \<Rightarrow> bool" where
  "grows w w' =
     (set (wk_rows w) \<subseteq> set (wk_rows w') \<and> wk_acks w' = wk_acks w \<and> wk_alerts w' = wk_alerts w \<and>
      wk_chan w' = wk_chan w \<and> wk_batch w' = wk_batch w \<and> wk_maxRows w' = wk_maxRows w \<and> wk_stopped w' = wk_stopped w)"

lemma grows_refl [simp]: "grows w w"
  by (simp add: grows_def)

lemma grows_trans: "grows w w' \<Longrightarrow> grows w' w'' \<Longrightarrow> grows w w''"
  by (auto simp: grows_def)

lemma grows_env [simp]: "grows w (w\<lparr>wk_env := x\<rparr>)"
  by (simp add: grows_def)

lemma query_wk:
  assumes "query w = (b, w')"
  shows "grows w w'" "wk_refuses w' = wk_refuses w" "wk_env w' = wk_env w" "wk_rows w' = wk_rows w"
  using assms by (auto simp: query_def grows_def split: list.splits)

lemma InsertEvent_grows:
  "InsertEvent e w = (err, w') \<Longrightarrow> grows w w' \<and> (\<not> err \<longrightarrow> e \<in> set (wk_rows w'))"
  by (auto simp: InsertEvent_def grows_def dest: query_wk split: prod.splits bool.splits if_splits)

lemma InsertEvents_grows:
  "InsertEvents evs w = (err, w') \<Longrightarrow> grows w w' \<and> (\<not> err \<longrightarrow> set evs \<subseteq> set (wk_rows w'))"
proof (induction evs w rule: InsertEvents.induct)
  case (1 evs w)
  show ?case
  proof (cases "evs = []")
    case True
    with 1(2) show ?thesis by (simp add: InsertEvents.simps)
  next
    case ne: False
    define n where "n = min (length evs) maxEventsPerInsert"
    obtain b w1 where q: "query w = (b, w1)" by force
    show ?thesis
    proof (cases "b \<or> list_ex (wk_refuses w1) (take n evs)")
      case True
      with 1(2) ne q show ?thesis by (auto simp: InsertEvents.simps [of evs w] n_def Let_def dest: query_wk split: bool.splits)
    next
      case False
      define w2 where "w2 = w1\<lparr>wk_rows := wk_rows w1 @ take n evs\<rparr>"
      have r: "InsertEvents (drop n evs) w2 = (err, w')"
        using 1(2) ne q False by (subst (asm) InsertEvents.simps) (simp add: Let_def n_def w2_def)
      have g: "grows w w2" using query_wk [OF q] by (auto simp: grows_def w2_def)
      have "grows w2 w' \<and> (\<not> err \<longrightarrow> set (drop n evs) \<subseteq> set (wk_rows w'))"
        using 1(1) [OF ne n_def _ _ _ r [unfolded w2_def], of b] q False r by (auto simp: w2_def)
      moreover have "set evs = set (take n evs) \<union> set (drop n evs)" by (metis append_take_drop_id set_append)
      moreover have "set (take n evs) \<subseteq> set (wk_rows w2)" by (simp add: w2_def)
      ultimately show ?thesis using g by (auto simp: grows_def)
    qed
  qed
qed

lemma suppress_grows: "suppress_with p e w = (b, w') \<Longrightarrow> grows w w'"
  by (auto simp: suppress_with_def split: option.splits prod.splits)

lemma prepare_grows: "prepare p e w = (e', w') \<Longrightarrow> grows w w'"
  by (auto simp: prepare_def Let_def split: option.splits prod.splits)

lemma run_detectors_grows:
  "run_detectors p e ds fired w = ((err, fired'), w') \<Longrightarrow> set fired \<subseteq> set (wk_rows w) \<Longrightarrow>
   grows w w' \<and> set fired' \<subseteq> set (wk_rows w')"
proof (induction ds arbitrary: fired w)
  case (Cons inspect ds)
  obtain a x where i: "inspect e (wk_env w) = (a, x)" by force
  let ?w = "w\<lparr>wk_env := x\<rparr>"
  show ?case
  proof (cases a)
    case None
    with Cons.prems i Cons.IH [of fired ?w] have "grows ?w w' \<and> set fired' \<subseteq> set (wk_rows w')" by simp
    then show ?thesis using grows_trans [of w ?w w'] by simp
  next
    case (Some al)
    obtain b w1 where s: "suppress_with p al ?w = (b, w1)" by force
    have g1: "grows w w1" using grows_trans [OF grows_env suppress_grows [OF s]] .
    show ?thesis
    proof (cases b)
      case True
      obtain er w2 where ins: "InsertEvent (markAuthorizedChange al) w1 = (er, w2)" by force
      have g2: "grows w w2" using InsertEvent_grows [OF ins] g1 by (blast intro: grows_trans)
      with Cons.prems(2) have f: "set fired \<subseteq> set (wk_rows w2)" by (auto simp: grows_def)
      show ?thesis
      proof (cases er)
        case True
        with Cons.prems(1) i Some s \<open>b\<close> ins g2 f show ?thesis by simp
      next
        case False
        with Cons.prems(1) i Some s \<open>b\<close> ins have "run_detectors p e ds fired w2 = ((err, fired'), w')" by simp
        from Cons.IH [OF this f] g2 show ?thesis by (blast intro: grows_trans)
      qed
    next
      case False
      let ?al = "annotate_with p al"
      obtain er w2 where ins: "InsertEvent ?al w1 = (er, w2)" by force
      have g2: "grows w w2" using InsertEvent_grows [OF ins] g1 by (blast intro: grows_trans)
      with Cons.prems(2) have f: "set fired \<subseteq> set (wk_rows w2)" by (auto simp: grows_def)
      show ?thesis
      proof (cases er)
        case True
        with Cons.prems(1) i Some s \<open>\<not> b\<close> ins g2 f show ?thesis by (simp add: Let_def)
      next
        case False
        with Cons.prems(1) i Some s \<open>\<not> b\<close> ins have "run_detectors p e ds (fired @ [?al]) w2 = ((err, fired'), w')"
          by (simp add: Let_def)
        moreover have "set (fired @ [?al]) \<subseteq> set (wk_rows w2)" using f InsertEvent_grows [OF ins] False by simp
        ultimately show ?thesis using Cons.IH g2 by (blast intro: grows_trans)
      qed
    qed
  qed
qed simp

lemma fold_announce:
  "wk_rows (fold (announce p) as w) = wk_rows w" "wk_acks (fold (announce p) as w) = wk_acks w"
  "wk_chan (fold (announce p) as w) = wk_chan w" "wk_batch (fold (announce p) as w) = wk_batch w"
  "wk_maxRows (fold (announce p) as w) = wk_maxRows w" "wk_stopped (fold (announce p) as w) = wk_stopped w"
  "wk_alerts (fold (announce p) as w) = wk_alerts w @ (if pl_onAlert p = None then [] else as)"
  by (induction as arbitrary: w) (auto simp: announce_def split: option.splits)

section \<open>The contract of the queue\<close>

text \<open>
  An added event is either taken over, to be answered later, or answered now; a positive answer only
  when it is stored. \<open>waiting\<close> are the events taken over; it depends on the channel and the batch alone.
\<close>

definition takes :: "('x worker_db \<Rightarrow> (event \<times> delivery) list) \<Rightarrow> event \<Rightarrow> delivery \<Rightarrow> 'x worker_db \<Rightarrow> 'x worker_db \<Rightarrow> bool" where
  "takes waiting e m w w' =
     (set (wk_rows w) \<subseteq> set (wk_rows w') \<and> wk_alerts w' = wk_alerts w \<and> wk_maxRows w' = wk_maxRows w \<and>
      (wk_acks w' = wk_acks w \<and> mset (waiting w') = mset (waiting w) + {#(e, m)#} \<or>
       (\<exists>ok. wk_acks w' = wk_acks w @ [(m, ok)] \<and> waiting w' = waiting w \<and> (ok \<longrightarrow> e \<in> set (wk_rows w')))))"

locale event_queue =
  fixes add :: "'x queue_add" and waiting :: "'x worker_db \<Rightarrow> (event \<times> delivery) list"
  assumes add_takes: "takes waiting e m w (add e m w)"
    and waiting_cong: "wk_chan w' = wk_chan w \<Longrightarrow> wk_batch w' = wk_batch w \<Longrightarrow> waiting w' = waiting w"
begin

definition ok :: "delivery_log \<Rightarrow> 'x worker_db \<Rightarrow> bool" where
  "ok log w = accounted log (wk_rows w) (wk_acks w) (wk_alerts w) (waiting w)"

lemma ok_grows: "ok log w \<Longrightarrow> grows w w' \<Longrightarrow> ok log w'"
  using waiting_cong [of w' w] by (auto simp: ok_def grows_def intro: accounted_rows)

lemma ok_ack:
  assumes "ok log w" "m \<notin> fst ` set log" "b \<Longrightarrow> mev = None \<or> (\<exists>e \<in> set (wk_rows w). mev = Some e)"
  shows "ok (log @ [(m, mev)]) (ack m b w)"
  using accounted_ack [OF assms(1) [unfolded ok_def] assms(2,3)] waiting_cong [of "ack m b w" w] by (simp add: ok_def ack_def)

lemma ok_announce:
  assumes "ok log w" "set as \<subseteq> set (wk_rows w)"
  shows "ok log (fold (announce p) as w)"
proof -
  have "waiting (fold (announce p) as w) = waiting w" by (rule waiting_cong) (simp_all add: fold_announce)
  moreover have "set (if pl_onAlert p = None then [] else as) \<subseteq> set (wk_rows w)" using assms(2) by simp
  ultimately show ?thesis using assms(1) accounted_alerts unfolding ok_def fold_announce by metis
qed

lemma ok_add:
  assumes "ok log w" "m \<notin> fst ` set log"
  shows "ok (log @ [(m, Some e)]) (add e m w)"
proof -
  let ?w = "add e m w"
  have t: "takes waiting e m w ?w" by (rule add_takes)
  have a: "accounted log (wk_rows ?w) (wk_acks w) (wk_alerts ?w) (waiting w)"
    using assms(1) t by (auto simp: ok_def takes_def intro: accounted_rows)
  from t consider (queued) "wk_acks ?w = wk_acks w" "mset (waiting ?w) = mset (waiting w) + {#(e, m)#}"
    | (answered) b where "wk_acks ?w = wk_acks w @ [(m, b)]" "waiting ?w = waiting w" "b \<longrightarrow> e \<in> set (wk_rows ?w)"
    unfolding takes_def by blast
  then show ?thesis
  proof cases
    case queued
    with accounted_queue [OF a assms(2)] show ?thesis by (simp add: ok_def)
  next
    case (answered b)
    with accounted_ack [OF a assms(2), of b "Some e"] show ?thesis by (simp add: ok_def)
  qed
qed

text \<open>The log entry of a delivery, as the handler sees its event.\<close>

lemma MsgHandler_ok:
  assumes "ok log w" "m \<notin> fst ` set log"
  shows "ok (log @ [(m, map_option (\<lambda>e0. fst (prepare p e0 w)) data)]) (MsgHandler p add m data w)"
proof (cases data)
  case None
  then show ?thesis using ok_ack [OF assms, of True None] by (simp add: MsgHandler_def)
next
  case (Some e0)
  obtain e w1 where pr: "prepare p e0 w = (e, w1)" by force
  obtain err fired w2 where rd: "run_detectors p e (pl_detectors p) [] w1 = ((err, fired), w2)" by (metis prod.exhaust)
  note g2 = run_detectors_grows [OF rd]
  have ok2: "ok log w2" using ok_grows [OF ok_grows [OF assms(1) prepare_grows [OF pr]]] g2 by simp
  let ?log = "log @ [(m, Some e)]"
  consider (error) err | (alert) "\<not> err" "dw_Label (ev_DeusWatch e) \<noteq> []" | (plain) "\<not> err" "dw_Label (ev_DeusWatch e) = []"
    by blast
  then have "ok ?log (MsgHandler p add m (Some e0) w)"
  proof cases
    case error
    then show ?thesis using ok_ack [OF ok2 assms(2), of False "Some e"] by (simp add: MsgHandler_def pr rd)
  next
    case plain
    moreover have "set fired \<subseteq> set (wk_rows (add e m w2))"
      using g2 add_takes [of e m w2] by (auto simp: takes_def)
    ultimately show ?thesis using ok_announce [OF ok_add [OF ok2 assms(2)]] by (simp add: MsgHandler_def pr rd)
  next
    case alert
    obtain quiet w3 where su: "suppress_with p e w2 = (quiet, w3)" by force
    obtain er w4 where ins: "InsertEvent e w3 = (er, w4)" by force
    have g4: "grows w2 w4" using grows_trans [OF suppress_grows [OF su]] InsertEvent_grows [OF ins] by blast
    then have ok4: "ok log w4" by (rule ok_grows [OF ok2])
    show ?thesis
    proof (cases er)
      case True
      with alert ok_ack [OF ok4 assms(2), of False "Some e"] show ?thesis by (simp add: MsgHandler_def pr rd su ins)
    next
      case False
      then have e: "e \<in> set (wk_rows w4)" using InsertEvent_grows [OF ins] by simp
      have f: "set fired \<subseteq> set (wk_rows w4)" using g2 g4 by (auto simp: grows_def)
      let ?w = "ack m True w4"
      have ok5: "ok ?log ?w" using ok_ack [OF ok4 assms(2), of True "Some e"] e by simp
      have "ok ?log (announce p e ?w)" using ok_announce [OF ok5, of "[e]" p] e by (simp add: ack_def)
      moreover have "wk_rows (announce p e ?w) = wk_rows w4" "wk_rows ?w = wk_rows w4"
        by (simp_all add: announce_def ack_def split: option.splits)
      ultimately show ?thesis
        using False alert f ok_announce [OF ok5, of fired p] ok_announce [of ?log "announce p e ?w" fired p]
        by (simp add: MsgHandler_def pr rd su ins)
    qed
  qed
  then show ?thesis by (simp add: Some pr)
qed

end

text \<open>Both queues keep the contract.\<close>

lemma DirectAdd_takes: "takes (\<lambda>_. []) e m w (DirectAdd e m w)"
proof -
  obtain er w1 where "InsertEvent e w = (er, w1)" by force
  with InsertEvent_grows [of e w er w1] show ?thesis
    by (auto simp: takes_def DirectAdd_def ack_def grows_def)
qed

interpretation direct: event_queue DirectAdd "\<lambda>_. []"
  by unfold_locales (simp_all add: DirectAdd_takes)

definition batch_waiting :: "'x worker_db \<Rightarrow> (event \<times> delivery) list" where
  "batch_waiting w = wk_batch w @ wk_chan w"

lemma BatchAdd_takes: "takes batch_waiting e m w (BatchAdd seen choice e m w)"
  by (auto simp: takes_def BatchAdd_def ack_def batch_waiting_def split: select_choice.splits)

interpretation batched: event_queue "BatchAdd seen choice" batch_waiting for seen choice
  by unfold_locales (simp_all add: BatchAdd_takes batch_waiting_def)

section \<open>Runs of the worker\<close>

text \<open>
  The bus callback, which is serial, and the loop of the batcher take turns. A delivery has a number
  of its own; a redelivery is another one. Outside the worker the clock, the outcomes of the database
  and the environment of the hooks change.
\<close>

inductive wk_step :: "'x pipeline \<Rightarrow> delivery_log \<times> 'x worker_db \<Rightarrow> delivery_log \<times> 'x worker_db \<Rightarrow> bool" for p where
  deliver: "m \<notin> fst ` set log \<Longrightarrow> add_enabled seen choice w \<Longrightarrow>
    wk_step p (log, w) (log @ [(m, map_option (\<lambda>e0. fst (prepare p e0 w)) data)], MsgHandler p (BatchAdd seen choice) m data w)"
| receive: "\<not> wk_stopped w \<Longrightarrow> wk_chan w = q # qs \<Longrightarrow> wk_step p (log, w) (log, run_receive q (w\<lparr>wk_chan := qs\<rparr>))"
| timer: "\<not> wk_stopped w \<Longrightarrow> wk_timing w \<Longrightarrow> wk_step p (log, w) (log, run_timer w)"
| close: "wk_step p (log, w) (log, Close w)"
| outside: "wk_step p (log, w) (log, w\<lparr>db_clock := t, db_faults := fs, wk_env := x\<rparr>)"

definition wk_start :: "'x worker_db \<Rightarrow> bool" where
  "wk_start w = (\<exists>w0 maxRows linger. w = NewBatcher maxRows linger w0 \<and> wk_acks w0 = [] \<and> wk_alerts w0 = [])"

text \<open>The channel has room for two batches, and a batch that is full is flushed.\<close>

definition bounded :: "'x worker_db \<Rightarrow> bool" where
  "bounded w = (0 < wk_maxRows w \<and> int (length (wk_chan w)) \<le> 2 * wk_maxRows w \<and> int (length (wk_batch w)) < wk_maxRows w)"

definition wk_ok :: "delivery_log \<times> 'x worker_db \<Rightarrow> bool" where
  "wk_ok s = (batched.ok (fst s) (snd s) \<and> bounded (snd s))"

lemma ok_batch: "batched.ok log w = accounted log (wk_rows w) (wk_acks w) (wk_alerts w) (wk_batch w @ wk_chan w)"
  by (simp add: batched.ok_def batch_waiting_def)

lemma flush_effect:
  obtains rows ok where "set (wk_rows w) \<subseteq> set rows" "ok \<Longrightarrow> fst ` set batch \<subseteq> set rows"
    "wk_rows (flush batch w) = rows" "wk_acks (flush batch w) = wk_acks w @ map (\<lambda>(e, m). (m, ok)) batch"
    "wk_alerts (flush batch w) = wk_alerts w" "wk_chan (flush batch w) = wk_chan w" "wk_batch (flush batch w) = wk_batch w"
    "wk_maxRows (flush batch w) = wk_maxRows w" "wk_stopped (flush batch w) = wk_stopped w"
proof (cases "batch = []")
  case True
  then show ?thesis using that [of "wk_rows w" True] by (simp add: flush_def)
next
  case False
  obtain er w1 where i: "InsertEvents (map fst batch) w = (er, w1)" by force
  from InsertEvents_grows [OF i] False show ?thesis
    using that [of "wk_rows w1" "\<not> er"] by (simp add: flush_def i grows_def)
qed

lemma flush_frame [simp]:
  "wk_chan (flush batch w) = wk_chan w" "wk_batch (flush batch w) = wk_batch w"
  "wk_maxRows (flush batch w) = wk_maxRows w" "wk_stopped (flush batch w) = wk_stopped w"
  by (rule flush_effect [of w batch]; simp)+

text \<open>Flushing answers the batch and leaves the rest.\<close>

lemma flush_ok:
  assumes "accounted log (wk_rows w) (wk_acks w) (wk_alerts w) (batch @ rest)"
  shows "accounted log (wk_rows (flush batch w)) (wk_acks (flush batch w)) (wk_alerts (flush batch w)) rest"
proof (rule flush_effect [of w batch])
  fix rows ok
  assume f: "set (wk_rows w) \<subseteq> set rows" "ok \<Longrightarrow> fst ` set batch \<subseteq> set rows" "wk_rows (flush batch w) = rows"
    "wk_acks (flush batch w) = wk_acks w @ map (\<lambda>(e, m). (m, ok)) batch" "wk_alerts (flush batch w) = wk_alerts w"
  show ?thesis unfolding f(3-5) by (rule accounted_flush [OF accounted_rows [OF assms f(1)] f(2)])
qed

lemma flush_batch_ok:
  assumes "batched.ok log w" "0 < wk_maxRows w" "int (length (wk_chan w)) \<le> 2 * wk_maxRows w"
  shows "wk_ok (log, flush_batch w)"
proof -
  let ?w = "w\<lparr>wk_timing := False\<rparr>"
  have "accounted log (wk_rows (flush (wk_batch ?w) ?w)) (wk_acks (flush (wk_batch ?w) ?w))
      (wk_alerts (flush (wk_batch ?w) ?w)) (wk_chan ?w)"
    using assms(1) by (intro flush_ok) (simp add: ok_batch)
  then show ?thesis using assms(2,3) by (simp add: wk_ok_def ok_batch flush_batch_def bounded_def)
qed

lemma receive_ok:
  assumes "wk_ok (log, w)" "wk_chan w = q # qs"
  shows "wk_ok (log, run_receive q (w\<lparr>wk_chan := qs\<rparr>))"
proof -
  let ?w = "w\<lparr>wk_chan := qs, wk_batch := wk_batch w @ [q]\<rparr>"
  have "batched.ok log ?w" "0 < wk_maxRows ?w" "int (length (wk_chan ?w)) \<le> 2 * wk_maxRows ?w"
    using assms by (simp_all add: wk_ok_def ok_batch bounded_def)
  then show ?thesis
    using flush_batch_ok [of log ?w] by (auto simp: run_receive_def Let_def wk_ok_def ok_batch bounded_def)
qed

lemma drain_ok:
  assumes "accounted log (wk_rows w) (wk_acks w) (wk_alerts w) (wk_batch w @ qs)" "wk_chan w = []" "0 < wk_maxRows w"
    "int (length (wk_batch w)) < wk_maxRows w"
  shows "wk_ok (log, drain qs w) \<and> wk_chan (drain qs w) = []"
  using assms
proof (induction qs arbitrary: w)
  case Nil
  then show ?case by (simp add: wk_ok_def ok_batch bounded_def)
next
  case (Cons q qs)
  let ?w = "w\<lparr>wk_batch := wk_batch w @ [q]\<rparr>"
  have a: "accounted log (wk_rows ?w) (wk_acks ?w) (wk_alerts ?w) (wk_batch ?w @ qs)" using Cons.prems(1) by simp
  show ?case
  proof (cases "int (length (wk_batch ?w)) \<ge> wk_maxRows ?w")
    case False
    with Cons.IH [of ?w] a Cons.prems(2,3) show ?thesis by (simp add: Let_def)
  next
    case True
    let ?v = "(flush (wk_batch ?w) ?w)\<lparr>wk_batch := []\<rparr>"
    have "accounted log (wk_rows ?v) (wk_acks ?v) (wk_alerts ?v) (wk_batch ?v @ qs)"
      using flush_ok [OF a] by simp
    with Cons.IH [of ?v] True Cons.prems(2,3) show ?thesis by (simp add: Let_def)
  qed
qed

lemma Close_ok:
  assumes "wk_ok (log, w)"
  shows "wk_ok (log, Close w)" "\<not> wk_stopped w \<Longrightarrow> batch_waiting (Close w) = []"
proof -
  let ?w = "w\<lparr>wk_chan := []\<rparr>"
  have d: "wk_ok (log, drain (wk_chan w) ?w)" "wk_chan (drain (wk_chan w) ?w) = []"
    using assms drain_ok [of log ?w "wk_chan w"] by (auto simp: wk_ok_def ok_batch bounded_def)
  then have "wk_ok (log, flush_batch (drain (wk_chan w) ?w))"
    by (intro flush_batch_ok) (simp_all add: wk_ok_def bounded_def)
  then show "wk_ok (log, Close w)" using assms by (simp add: Close_def wk_ok_def ok_batch bounded_def)
  show "batch_waiting (Close w) = []" if "\<not> wk_stopped w"
    using that d(2) by (simp add: Close_def batch_waiting_def flush_batch_def)
qed

lemma announce_bounded: "bounded (fold (announce p) as w) = bounded w"
  by (simp add: bounded_def fold_announce)

lemma ack_bounded [simp]: "bounded (ack m b w) = bounded w"
  by (simp add: bounded_def ack_def)

lemma grows_bounded: "grows w w' \<Longrightarrow> bounded w' = bounded w \<and> add_enabled seen choice w' = add_enabled seen choice w"
  by (simp add: grows_def bounded_def add_enabled_def)

lemma BatchAdd_bounded:
  "add_enabled seen choice w \<Longrightarrow> bounded w \<Longrightarrow> bounded (BatchAdd seen choice e m w)"
  by (auto simp: BatchAdd_def add_enabled_def bounded_def ack_def split: select_choice.splits)

lemma MsgHandler_bounded:
  assumes "add_enabled seen choice w" "bounded w"
  shows "bounded (MsgHandler p (BatchAdd seen choice) m data w)"
proof (cases data)
  case None
  with assms show ?thesis by (simp add: MsgHandler_def)
next
  case (Some e0)
  obtain e w1 where pr: "prepare p e0 w = (e, w1)" by force
  obtain err fired w2 where rd: "run_detectors p e (pl_detectors p) [] w1 = ((err, fired), w2)" by (metis prod.exhaust)
  have g2: "grows w w2" using grows_trans [OF prepare_grows [OF pr]] run_detectors_grows [OF rd] by simp
  obtain quiet w3 where su: "suppress_with p e w2 = (quiet, w3)" by force
  obtain er w4 where ins: "InsertEvent e w3 = (er, w4)" by force
  have g4: "grows w w4"
    using grows_trans [OF g2] grows_trans [OF suppress_grows [OF su]] InsertEvent_grows [OF ins] by blast
  have ann: "bounded (announce p e v) = bounded v" for v
    using announce_bounded [of p "[e]" v] by simp
  show ?thesis
    using assms grows_bounded [OF g2, of seen choice] grows_bounded [OF g4, of seen choice] BatchAdd_bounded [of seen choice w2 e m]
    by (simp add: MsgHandler_def Some pr rd su ins announce_bounded ann split: bool.splits)
qed

lemma wk_step_ok: "wk_step p s s' \<Longrightarrow> wk_ok s \<Longrightarrow> wk_ok s'"
proof (induction rule: wk_step.induct)
  case (deliver m log seen choice w data)
  then show ?case using batched.MsgHandler_ok [of log w m p data seen choice] MsgHandler_bounded [of seen choice w p m data]
    by (simp add: wk_ok_def)
next
  case (receive w q qs log)
  then show ?case by (rule_tac receive_ok)
next
  case (timer w log)
  then show ?case using flush_batch_ok [of log "w\<lparr>wk_timing := False\<rparr>"]
    by (simp add: run_timer_def wk_ok_def ok_batch bounded_def)
next
  case (close log w)
  then show ?case by (rule Close_ok(1))
next
  case (outside log w t fs x)
  then show ?case by (simp add: wk_ok_def ok_batch bounded_def)
qed

lemma wk_start_ok: "wk_start w \<Longrightarrow> wk_ok ([], w)"
  by (auto simp: wk_start_def wk_ok_def ok_batch bounded_def NewBatcher_def accounted_def DefaultBatchRows_def)

lemma wk_run_ok:
  assumes "(wk_step p)\<^sup>*\<^sup>* ([], w0) (log, w)" "wk_start w0"
  shows "wk_ok (log, w)"
  using assms(1) by (induction rule: rtranclp_induct) (auto intro: wk_step_ok wk_start_ok assms(2))

lemma accounted_once:
  assumes "accounted log rows acks alerts wait" "m \<in> fst ` set log"
  shows "count (mset (map fst acks)) m + count (mset (map snd wait)) m = 1"
proof -
  have "count (mset (map fst log)) m = 1"
    using assms by (simp add: accounted_def distinct_count_atmost_1 [THEN iffD1] del: mset_map)
  with assms(1) show ?thesis unfolding accounted_def by (metis count_union)
qed

section \<open>Properties\<close>

text \<open>
  C19: Along every run of the worker (messages, the batch loop, its timer, a shutdown, and a database
  that fails at any time) each delivery is answered at most once, and one not yet answered is still
  held in the channel or the batch; an event whose delivery was acknowledged is in the table unless it
  did not decode; every alert that was announced is in the table; and fewer than three batches of
  events are held in memory.
\<close>
theorem every_delivery_accounted:
  assumes "(wk_step p)\<^sup>*\<^sup>* ([], w0) (log, w)" "wk_start w0"
  shows "distinct (map fst log) \<and>
    (\<forall>m \<in> fst ` set log. count (mset (map fst (wk_acks w))) m + count (mset (map snd (batch_waiting w))) m = 1) \<and>
    (\<forall>m. (m, True) \<in> set (wk_acks w) \<longrightarrow> (m, None) \<in> set log \<or> (\<exists>e \<in> set (wk_rows w). (m, Some e) \<in> set log)) \<and>
    set (wk_alerts w) \<subseteq> set (wk_rows w) \<and>
    int (length (batch_waiting w)) < 3 * wk_maxRows w"
proof -
  have ok: "wk_ok (log, w)" by (rule wk_run_ok [OF assms])
  then have a: "accounted log (wk_rows w) (wk_acks w) (wk_alerts w) (batch_waiting w)"
    by (simp add: wk_ok_def ok_batch batch_waiting_def)
  moreover have "int (length (batch_waiting w)) < 3 * wk_maxRows w"
    using ok by (simp add: wk_ok_def bounded_def batch_waiting_def)
  ultimately show ?thesis using accounted_once [OF a] by (auto simp: accounted_def)
qed

text \<open>
  A shutdown forgets nothing: when the batcher is closed every delivery so far has been answered
  exactly once.
\<close>
theorem shutdown_answers_everything:
  assumes "(wk_step p)\<^sup>*\<^sup>* ([], w0) (log, w)" "wk_start w0" "\<not> wk_stopped w"
  shows "wk_stopped (Close w) \<and> batch_waiting (Close w) = [] \<and>
    (\<forall>m \<in> fst ` set log. count (mset (map fst (wk_acks (Close w)))) m = 1)"
proof -
  have ok: "wk_ok (log, w)" by (rule wk_run_ok [OF assms(1,2)])
  note c = Close_ok [OF ok]
  have e: "batch_waiting (Close w) = []" by (rule c(2) [OF assms(3)])
  have "accounted log (wk_rows (Close w)) (wk_acks (Close w)) (wk_alerts (Close w)) []"
    using c(1) e by (simp add: wk_ok_def ok_batch batch_waiting_def)
  from accounted_once [OF this] e assms(3) show ?thesis by (simp add: Close_def)
qed

text \<open>
  Without faults a batch of at most one statement is stored and acknowledged as a whole, or,
  when the server refuses a single row of it (a source address that is no \<^verbatim>\<open>inet\<close>, say), nothing of
  it is stored and every delivery is sent back, the ones with good rows among them.
\<close>
theorem batch_all_or_nothing:
  assumes "db_faults w = []" "batch \<noteq> []" "length batch \<le> maxEventsPerInsert"
  shows "wk_rows (flush batch w) = (if list_ex (wk_refuses w) (map fst batch) then wk_rows w else wk_rows w @ map fst batch) \<and>
    wk_acks (flush batch w) = wk_acks w @ map (\<lambda>(e, m). (m, \<not> list_ex (wk_refuses w) (map fst batch))) batch"
proof -
  have q: "query w = (False, w)" using assms(1) by simp
  have "InsertEvents (map fst batch) w = (if list_ex (wk_refuses w) (map fst batch) then (True, w)
      else (False, w\<lparr>wk_rows := wk_rows w @ map fst batch\<rparr>))"
    using assms(2,3) by (subst InsertEvents.simps) (simp add: q min_absorb1 InsertEvents.simps [of "[]"])
  then show ?thesis using assms(2) by (simp add: flush_def)
qed

section \<open>An alert whose insert fails\<close>

text \<open>The worker with the brute-force detector as its only one.\<close>

definition ssh_pipeline :: "bf_detector pipeline" where
  "ssh_pipeline = \<lparr>pl_enricher = None, pl_onAlert = Some (\<lambda>a d. d), pl_suppress = None, pl_annotate = None,
     pl_detectors = [\<lambda>e d. bf_Inspect d 0 (Some e)]\<rparr>"

text \<open>A detector that has just raised an alert stays silent for the same event.\<close>

lemma Inspect_again_silent:
  assumes "bf_Inspect d c (Some e) = (Some a, d1)" "0 < bf_Cooldown (bf_cfg d)" "ev_Timestamp e \<noteq> 0"
  shows "fst (bf_Inspect d1 c (Some e)) = None"
proof -
  let ?t = "ev_Timestamp e"
  obtain d0 where f: "isFailedSSHLogin e" and g: "bf_gate (source_ip e) ?t d0 = (True, d1)" and cfg: "bf_cfg d0 = bf_cfg d"
    using assms(1,3) by (auto simp: bf_Inspect_def Let_def event_time_def split: if_splits prod.splits bool.splits)
  have l: "bf_lastAlert d1 (source_ip e) = Some ?t" using g by (auto simp: bf_gate_def split: option.splits if_splits)
  have c: "0 < bf_Cooldown (bf_cfg d1)" using bf_gate_keeps [OF g] cfg assms(2) by simp
  show ?thesis
    using f l c assms(3) by (simp add: bf_Inspect_def Let_def event_time_def bf_gate_def split: prod.splits bool.splits)
qed

lemma prepare_plain:
  assumes "0 < ev_Timestamp e" "ev_Timestamp e \<le> db_clock w + futureSkewGrace" "dw_Label (ev_DeusWatch e) = []"
  shows "prepare ssh_pipeline e w = (e, w)"
  using assms by (simp add: prepare_def ssh_pipeline_def clamp_time_def)

text \<open>
  A database failure at the wrong moment loses an alert for good. When the insert of a brute-force
  alert fails, the message is sent back, but the detector already counts the alert as raised: on the
  redelivery it is in its cooldown, so the event is stored as an ordinary one and the alert is neither
  stored nor announced, with either queue.
\<close>
theorem failed_insert_loses_alert:
  assumes "bf_Inspect (wk_env w) 0 (Some e) = (Some a, d1)" "0 < bf_Cooldown (bf_cfg (wk_env w))"
    and "0 < ev_Timestamp e" "ev_Timestamp e \<le> db_clock w + futureSkewGrace" "dw_Label (ev_DeusWatch e) = []"
    and "db_faults w = [True]"
  shows "\<exists>v. MsgHandler ssh_pipeline add m' (Some e) (MsgHandler ssh_pipeline add m (Some e) w) = add e m' v \<and>
    wk_rows v = wk_rows w \<and> wk_alerts v = wk_alerts w \<and> wk_acks v = wk_acks w @ [(m, False)]"
proof -
  let ?w1 = "w\<lparr>wk_env := d1, db_faults := []\<rparr>"
  let ?w2 = "ack m False ?w1"
  have first: "MsgHandler ssh_pipeline add m (Some e) w = ?w2"
    using assms(1,6) prepare_plain [OF assms(3-5)]
    by (simp add: MsgHandler_def ssh_pipeline_def suppress_with_def InsertEvent_def query_def Let_def)
  obtain d2 where silent: "bf_Inspect d1 0 (Some e) = (None, d2)"
    using Inspect_again_silent [OF assms(1,2)] assms(3) by (metis less_irrefl prod.collapse)
  have "wk_env ?w2 = d1" "db_clock ?w2 = db_clock w" by (simp_all add: ack_def)
  then have "MsgHandler ssh_pipeline add m' (Some e) ?w2 = add e m' (?w2\<lparr>wk_env := d2\<rparr>)"
    using silent prepare_plain [of e ?w2] assms(3-5) by (simp add: MsgHandler_def ssh_pipeline_def)
  then show ?thesis unfolding first by (intro exI [of _ "?w2\<lparr>wk_env := d2\<rparr>"]) (simp add: ack_def)
qed

section \<open>Examples\<close>

text \<open>A deployment without hooks, and the worker that only looks for brute force.\<close>

definition demo_worker :: "'x \<Rightarrow> 'x worker_db" where
  "demo_worker x = NewBatcher 2 0 \<lparr>db_faults = [], db_clock = 1000, db_uuid = (\<lambda>_. []), db_seq = 0, wk_env = x, wk_rows = [],
     wk_refuses = (\<lambda>e. source_ip e = ''999.1.1.1''), wk_acks = [], wk_alerts = [], wk_chan = [], wk_batch = [], wk_maxRows = 0,
     wk_linger = 0, wk_timing = False, wk_stopped = False\<rparr>"

definition plain_pipeline :: "unit pipeline" where
  "plain_pipeline = \<lparr>pl_enricher = None, pl_onAlert = None, pl_suppress = None, pl_annotate = None, pl_detectors = []\<rparr>"

definition demo_event :: event where
  "demo_event = empty_event\<lparr>ev_Timestamp := 7\<rparr>"

definition demo_delivered :: "unit worker_db" where
  "demo_delivered = MsgHandler plain_pipeline (BatchAdd False SendCase) 2 None
     (MsgHandler plain_pipeline (BatchAdd False SendCase) 1 (Some demo_event) (demo_worker ()))"

lemma demo_run:
  "(wk_step plain_pipeline)\<^sup>*\<^sup>* ([], demo_worker ()) ([(1, Some demo_event), (2, None)], demo_delivered)"
proof -
  let ?w1 = "MsgHandler plain_pipeline (BatchAdd False SendCase) 1 (Some demo_event) (demo_worker ())"
  have p: "fst (prepare plain_pipeline demo_event (demo_worker ())) = demo_event" by code_simp
  have e: "add_enabled False SendCase (demo_worker ())" "add_enabled False SendCase ?w1" by code_simp+
  have "wk_step plain_pipeline ([], demo_worker ()) ([(1, Some demo_event)], ?w1)"
    using wk_step.deliver [of 1 "[]" False SendCase "demo_worker ()" plain_pipeline "Some demo_event"] e(1) p by simp
  moreover have "wk_step plain_pipeline ([(1, Some demo_event)], ?w1) ([(1, Some demo_event), (2, None)], demo_delivered)"
    using wk_step.deliver [of 2 "[(1, Some demo_event)]" False SendCase ?w1 plain_pipeline None] e(2)
    by (simp add: demo_delivered_def)
  ultimately show ?thesis by (meson converse_rtranclp_into_rtranclp r_into_rtranclp)
qed

lemma demo_wk_start: "wk_start (demo_worker x)"
  unfolding wk_start_def demo_worker_def by (intro exI conjI) (rule refl, simp_all)

theorem every_delivery_accounted_witness:
  "wk_acks demo_delivered = [(2, True)] \<and> batch_waiting demo_delivered = [(demo_event, 1)] \<and>
   count (mset (map fst (wk_acks demo_delivered))) 1 + count (mset (map snd (batch_waiting demo_delivered))) 1 = 1"
proof -
  have "wk_acks demo_delivered = [(2, True)]" "batch_waiting demo_delivered = [(demo_event, 1)]" by code_simp+
  then show ?thesis using every_delivery_accounted [OF demo_run demo_wk_start] by simp
qed

theorem shutdown_answers_everything_witness:
  "wk_acks (Close demo_delivered) = [(2, True), (1, True)] \<and> wk_rows (Close demo_delivered) = [demo_event] \<and>
   count (mset (map fst (wk_acks (Close demo_delivered)))) 1 = 1"
proof -
  have "\<not> wk_stopped demo_delivered" by code_simp
  moreover have "wk_acks (Close demo_delivered) = [(2, True), (1, True)]" "wk_rows (Close demo_delivered) = [demo_event]" by code_simp+
  ultimately show ?thesis using shutdown_answers_everything [OF demo_run demo_wk_start] by simp
qed

theorem batch_all_or_nothing_witness:
  "wk_rows (flush [(demo_event, 1), (failed_login ''999.1.1.1'' 3, 2)] (demo_worker ())) = [] \<and>
   wk_acks (flush [(demo_event, 1), (failed_login ''999.1.1.1'' 3, 2)] (demo_worker ())) = [(1, False), (2, False)] \<and>
   wk_rows (flush [(demo_event, 1)] (demo_worker ())) = [demo_event]"
proof -
  let ?b = "[(demo_event, 1 :: nat), (failed_login ''999.1.1.1'' 3, 2)]" and ?g = "[(demo_event, 1 :: nat)]"
  have f: "db_faults (demo_worker ()) = []" by code_simp
  have r: "list_ex (wk_refuses (demo_worker ())) (map fst ?b)" "\<not> list_ex (wk_refuses (demo_worker ())) (map fst ?g)" by code_simp+
  have w: "wk_rows (demo_worker ()) = []" "wk_acks (demo_worker ()) = []" by code_simp+
  show ?thesis
    using batch_all_or_nothing [of "demo_worker ()" ?b] batch_all_or_nothing [of "demo_worker ()" ?g] f r w
    by (simp add: maxEventsPerInsert_def)
qed

text \<open>The second of two failures reaches the threshold, and the insert of the alert fails.\<close>

definition ssh_before :: "bf_detector worker_db" where
  "ssh_before = (MsgHandler ssh_pipeline DirectAdd 1 (Some (failed_login ''10.0.0.1'' 5))
     (demo_worker (NewBruteForceDetector (DefaultBruteForceConfig\<lparr>bf_Threshold := 2\<rparr>))))\<lparr>db_faults := [True]\<rparr>"

theorem failed_insert_loses_alert_witness:
  "\<exists>v. MsgHandler ssh_pipeline DirectAdd 3 (Some (failed_login ''10.0.0.1'' 6))
        (MsgHandler ssh_pipeline DirectAdd 2 (Some (failed_login ''10.0.0.1'' 6)) ssh_before) =
      DirectAdd (failed_login ''10.0.0.1'' 6) 3 v \<and>
    wk_rows v = [failed_login ''10.0.0.1'' 5] \<and> wk_alerts v = []"
proof -
  let ?e = "failed_login ''10.0.0.1'' 6"
  have "fst (bf_Inspect (wk_env ssh_before) 0 (Some ?e)) \<noteq> None" by code_simp
  then obtain a d1 where i: "bf_Inspect (wk_env ssh_before) 0 (Some ?e) = (Some a, d1)" by (metis not_None_eq prod.collapse)
  have "0 < bf_Cooldown (bf_cfg (wk_env ssh_before))" "0 < ev_Timestamp ?e" "ev_Timestamp ?e \<le> db_clock ssh_before + futureSkewGrace"
    "dw_Label (ev_DeusWatch ?e) = []" "db_faults ssh_before = [True]" by code_simp+
  from failed_insert_loses_alert [OF i this, of DirectAdd 3 2] show ?thesis
  proof (elim exE conjE, intro exI conjI)
    fix v assume "wk_rows v = wk_rows ssh_before" "wk_alerts v = wk_alerts ssh_before"
    moreover have "wk_rows ssh_before = [failed_login ''10.0.0.1'' 5]" "wk_alerts ssh_before = []" by code_simp+
    ultimately show "wk_rows v = [failed_login ''10.0.0.1'' 5]" "wk_alerts v = []" by simp_all
  qed
qed

end
