(* ===== verification/Enrollment.thy ===== *)
theory Enrollment
  imports Database
begin

text \<open>
  Agent registration, \<^verbatim>\<open>internal/enroll\<close>: single-use enrolment tokens, the agents table with
  revocation and serial pinning, heartbeats and self-update requests, the configuration of agents and
  groups (\<^verbatim>\<open>enroll.go\<close>, \<^verbatim>\<open>groups.go\<close>), and the reaper of \<^verbatim>\<open>internal/store/agents.go\<close>. Every
  operation runs with the rights of a super administrator, so row-level security does not show.

  The \<^verbatim>\<open>jsonb\<close> columns hold the configuration they encode. PostgreSQL's reading of a \<^verbatim>\<open>uuid\<close> and its
  \<^verbatim>\<open>lower\<close> and collation (\<open>en_rank\<close> is the place of a text in it), SHA-256, the random source and the certificate authority (\<open>en_cert n\<close> is its \<open>n\<close>-th
  answer: certificate, key and serial) are fields of the state.
\<close>

section \<open>Data\<close>

record source =
  src_Dataset :: string
  src_Type :: string
  src_Path :: string
  src_Interval :: int
  src_Exclude :: "string list"
  src_SnapshotMode :: string
  src_SnapshotStorage :: string
  src_SnapshotRetention :: int

record agent_config =
  cfg_Version :: int
  cfg_Sources :: "source list"

definition plain_source :: "string \<Rightarrow> string \<Rightarrow> string \<Rightarrow> source" where
  "plain_source d t p = \<lparr>src_Dataset = d, src_Type = t, src_Path = p, src_Interval = 0, src_Exclude = [],
     src_SnapshotMode = [], src_SnapshotStorage = [], src_SnapshotRetention = 0\<rparr>"

definition DefaultSourcesFor :: "string \<Rightarrow> source list" where
  "DefaultSourcesFor goos =
     (if goos = ''linux'' then
        [plain_source ''sshd'' ''file'' ''/var/log/auth.log'',
         plain_source ''syslog'' ''file'' ''/var/log/syslog'',
         plain_source ''firewall'' ''file'' ''/var/log/ufw.log'',
         plain_source ''web'' ''file'' ''/var/log/nginx/access.log'',
         plain_source ''sca'' ''sca'' []]
      else if goos = ''windows'' then
        [plain_source ''windows-security'' ''wineventlog'' ''Security'',
         plain_source ''windows-system'' ''wineventlog'' ''System'',
         plain_source ''sca'' ''sca'' []]
      else [])"

record agent_row =
  ag_id :: string
  ag_name :: string
  ag_os :: "string option"
  ag_cert_serial :: "string option"
  ag_enrolled_at :: gotime
  ag_last_seen_at :: "gotime option"
  ag_config :: "agent_config option"
  ag_revoked :: bool
  ag_tenant_id :: string
  ag_status :: string
  ag_health_degraded :: bool
  ag_health_detail :: string
  ag_deleted_at :: "gotime option"
  ag_agent_version :: "string option"
  ag_update_requested_at :: "gotime option"
  ag_group_id :: "string option"
  ag_config_rev :: int
  ag_config_is_override :: bool

record token_row =
  tk_hash :: string
  tk_created_by :: string
  tk_expires_at :: gotime
  tk_tenant_id :: string
  tk_used_at :: "gotime option"
  tk_used_by_agent :: "string option"

record group_row =
  gr_id :: string
  gr_name :: string
  gr_description :: string
  gr_config :: "agent_config option"

record enroll_db = db +
  en_agents :: "agent_row list"
  en_tokens :: "token_row list"
  en_groups :: "group_row list"
  en_telemetry :: "(string \<times> string) list"
  en_uuid_in :: "string \<Rightarrow> string option"
  en_lower :: "string \<Rightarrow> string"
  en_rank :: "string \<Rightarrow> int"
  en_rand :: "nat \<Rightarrow> string option"
  en_draws :: nat
  en_sha :: "string \<Rightarrow> string"
  en_cert :: "nat \<Rightarrow> string \<Rightarrow> (string \<times> string \<times> string) option"
  en_issued :: nat
  en_ca :: string

datatype enroll_error =
  EnDB | EnToken | EnNameRequired | EnIssue | EnNameTaken string | EnAgentNotFound | EnUnknownAgent
| EnRandom | EnGroupNotFound | EnGroupNameTaken

record cert_bundle =
  bn_AgentID :: string
  bn_Name :: string
  bn_CACert :: string
  bn_ClientCert :: string
  bn_ClientKey :: string

definition TokenTTL :: duration where "TokenTTL = 1 * hour"

text \<open>An aborted transaction: the tables of \<open>w\<close>, with what \<open>w'\<close> has used up.\<close>

definition rollback :: "enroll_db \<Rightarrow> enroll_db \<Rightarrow> enroll_db" where
  "rollback w w' = w\<lparr>db_faults := db_faults w', db_seq := db_seq w', en_draws := en_draws w', en_issued := en_issued w'\<rparr>"

section \<open>Tokens and enrolment\<close>

definition token_hash_of :: "string \<Rightarrow> enroll_db \<Rightarrow> string" where
  "token_hash_of raw w = en_sha w raw"

definition CreateToken :: "string \<Rightarrow> string \<Rightarrow> enroll_db \<Rightarrow> (enroll_error + string \<times> gotime) \<times> enroll_db" where
  "CreateToken createdBy tenantID w =
     (let tenant = (if tenantID = [] then DefaultTenantID else tenantID); w0 = w\<lparr>en_draws := Suc (en_draws w)\<rparr> in
      case en_rand w (en_draws w) of
        None \<Rightarrow> (Inl EnRandom, w0)
      | Some raw \<Rightarrow>
          let expires = db_clock w0 + TokenTTL; h = token_hash_of raw w0 in
          (case query w0 of
             (True, w1) \<Rightarrow> (Inl EnDB, w1)
           | (False, w1) \<Rightarrow>
               (case en_uuid_in w1 tenant of
                  None \<Rightarrow> (Inl EnDB, w1)
                | Some t \<Rightarrow>
                    if list_ex (\<lambda>r. tk_hash r = h) (en_tokens w1) then (Inl EnDB, w1)
                    else (Inr (raw, expires), w1\<lparr>en_tokens := en_tokens w1 @
                           [\<lparr>tk_hash = h, tk_created_by = createdBy, tk_expires_at = expires, tk_tenant_id = t,
                             tk_used_at = None, tk_used_by_agent = None\<rparr>]\<rparr>))))"

text \<open>\<^verbatim>\<open>UPDATE agent_enroll_tokens SET used_at=now() WHERE ... RETURNING tenant_id\<close>.\<close>

definition claimable :: "string \<Rightarrow> gotime \<Rightarrow> token_row \<Rightarrow> bool" where
  "claimable h t r = (tk_hash r = h \<and> tk_used_at r = None \<and> tk_expires_at r > t)"

definition claim_token :: "string \<Rightarrow> enroll_db \<Rightarrow> (string \<times> enroll_db) option" where
  "claim_token h w =
     (case find (claimable h (db_clock w)) (en_tokens w) of
        None \<Rightarrow> None
      | Some r \<Rightarrow> Some (tk_tenant_id r, w\<lparr>en_tokens := map (\<lambda>r. if claimable h (db_clock w) r
                    then r\<lparr>tk_used_at := Some (db_clock w)\<rparr> else r) (en_tokens w)\<rparr>))"

definition IssueClient :: "string \<Rightarrow> enroll_db \<Rightarrow> (string \<times> string \<times> string) option \<times> enroll_db" where
  "IssueClient name w = (en_cert w (en_issued w) name, w\<lparr>en_issued := Suc (en_issued w)\<rparr>)"

definition seeded_config :: "string \<Rightarrow> agent_config option" where
  "seeded_config os = (let srcs = DefaultSourcesFor os in
     if srcs \<noteq> [] then Some \<lparr>cfg_Version = 1, cfg_Sources = srcs\<rparr> else None)"

text \<open>The insert; a revoked row of the name is taken over, an active one keeps the name.\<close>

definition new_agent :: "string \<Rightarrow> string \<Rightarrow> string \<Rightarrow> string \<Rightarrow> string \<Rightarrow> gotime \<Rightarrow> agent_row" where
  "new_agent uid name os serial tenant t =
     \<lparr>ag_id = uid, ag_name = name, ag_os = strOrNil os, ag_cert_serial = Some serial, ag_enrolled_at = t,
      ag_last_seen_at = None, ag_config = seeded_config os, ag_revoked = False, ag_tenant_id = tenant, ag_status = ''unknown'',
      ag_health_degraded = False, ag_health_detail = [], ag_deleted_at = None, ag_agent_version = None,
      ag_update_requested_at = None, ag_group_id = None, ag_config_rev = 0, ag_config_is_override = False\<rparr>"

definition taken_over :: "string \<Rightarrow> string \<Rightarrow> string \<Rightarrow> gotime \<Rightarrow> agent_row \<Rightarrow> agent_row" where
  "taken_over os serial tenant t r =
     r\<lparr>ag_os := strOrNil os, ag_cert_serial := Some serial, ag_revoked := False, ag_enrolled_at := t,
       ag_last_seen_at := None, ag_deleted_at := None, ag_status := ''unknown'', ag_health_degraded := False,
       ag_health_detail := [],
       ag_config := (case ag_config r of None \<Rightarrow> seeded_config os | Some c \<Rightarrow> Some c),
       ag_tenant_id := tenant\<rparr>"

definition upsert_agent :: "string \<Rightarrow> string \<Rightarrow> string \<Rightarrow> string \<Rightarrow> enroll_db \<Rightarrow> (string \<times> enroll_db) option" where
  "upsert_agent name os serial tenant w =
     (case find (\<lambda>r. ag_name r = name) (en_agents w) of
        None \<Rightarrow> (case fresh_id w of (uid, w1) \<Rightarrow>
                   Some (uid, w1\<lparr>en_agents := en_agents w1 @ [new_agent uid name os serial tenant (db_clock w1)]\<rparr>))
      | Some r \<Rightarrow>
          if ag_revoked r then
            Some (ag_id r, w\<lparr>en_agents := map (\<lambda>a. if ag_name a = name
                     then taken_over os serial tenant (db_clock w) a else a) (en_agents w)\<rparr>)
          else None)"

text \<open>
  One transaction. A failure to record which agent used the token aborts it, although the code drops
  that error: the commit then fails.
\<close>

definition Enroll :: "string \<Rightarrow> string \<Rightarrow> string \<Rightarrow> enroll_db \<Rightarrow> (enroll_error + cert_bundle) \<times> enroll_db" where
  "Enroll rawToken name os w =
     (if name = [] then (Inl EnNameRequired, w)
      else case query w of
        (True, w1) \<Rightarrow> (Inl EnDB, w1)
      | (False, w1) \<Rightarrow>
     (case query w1 of
        (True, w2) \<Rightarrow> (Inl EnDB, w2)
      | (False, w2) \<Rightarrow>
          let h = token_hash_of rawToken w2 in
     (case claim_token h w2 of
        None \<Rightarrow> (Inl EnToken, w2)
      | Some (tenant, w3) \<Rightarrow>
     (case IssueClient name w3 of
        (None, w4) \<Rightarrow> (Inl EnIssue, rollback w2 w4)
      | (Some (cert, key, serial), w4) \<Rightarrow>
     (case query w4 of
        (True, w5) \<Rightarrow> (Inl EnDB, rollback w2 w5)
      | (False, w5) \<Rightarrow>
     (case upsert_agent name os serial tenant w5 of
        None \<Rightarrow> (Inl (EnNameTaken name), rollback w2 w5)
      | Some (uid, w6) \<Rightarrow>
     (case query w6 of
        (True, w7) \<Rightarrow> (Inl EnDB, rollback w2 w7)
      | (False, w7) \<Rightarrow>
          let w8 = w7\<lparr>en_tokens := map (\<lambda>r. if tk_hash r = h then r\<lparr>tk_used_by_agent := Some uid\<rparr> else r) (en_tokens w7)\<rparr> in
     (case query w8 of
        (True, w9) \<Rightarrow> (Inl EnDB, rollback w2 w9)
      | (False, w9) \<Rightarrow>
          (Inr \<lparr>bn_AgentID = uid, bn_Name = name, bn_CACert = en_ca w9, bn_ClientCert = cert, bn_ClientKey = key\<rparr>, w9)))))))))"

section \<open>Revocation and deletion\<close>

text \<open>An update of the agents that match, and its row count.\<close>

definition update_agents :: "(agent_row \<Rightarrow> bool) \<Rightarrow> (agent_row \<Rightarrow> agent_row) \<Rightarrow> enroll_db \<Rightarrow> int \<times> enroll_db" where
  "update_agents P f w = (let (rs, n) = update_rows P f (en_agents w) in (n, w\<lparr>en_agents := rs\<rparr>))"

definition update_agent_id ::
    "string \<Rightarrow> (agent_row \<Rightarrow> agent_row) \<Rightarrow> enroll_db \<Rightarrow> (enroll_error + unit) \<times> enroll_db" where
  "update_agent_id aid f w =
     (case query w of
        (True, w1) \<Rightarrow> (Inl EnDB, w1)
      | (False, w1) \<Rightarrow>
          (case en_uuid_in w1 aid of
             None \<Rightarrow> (Inl EnDB, w1)
           | Some u \<Rightarrow> (case update_agents (\<lambda>r. ag_id r = u) f w1 of
                          (n, w2) \<Rightarrow> (if n = 0 then Inl EnAgentNotFound else Inr (), w2))))"

definition Revoke :: "string \<Rightarrow> enroll_db \<Rightarrow> (enroll_error + unit) \<times> enroll_db" where
  "Revoke aid = update_agent_id aid (\<lambda>r. r\<lparr>ag_revoked := True\<rparr>)"

definition telemetry_tables :: "string list" where
  "telemetry_tables = [''agent_vulnerabilities'', ''agent_sca_findings'', ''agent_manifests'', ''agent_packages'',
     ''agent_os_inventory'', ''fim_snapshots'', ''agent_file_actions'', ''file_restores'']"

fun purge_tables :: "string list \<Rightarrow> string \<Rightarrow> enroll_db \<Rightarrow> (enroll_error + unit) \<times> enroll_db" where
  "purge_tables [] name w = (Inr (), w)"
| "purge_tables (t # ts) name w =
     (case query w of
        (True, w1) \<Rightarrow> (Inl EnDB, w1)
      | (False, w1) \<Rightarrow> purge_tables ts name (w1\<lparr>en_telemetry := filter (\<lambda>x. x \<noteq> (t, name)) (en_telemetry w1)\<rparr>))"

definition purgeAgentTelemetry :: "string \<Rightarrow> enroll_db \<Rightarrow> (enroll_error + unit) \<times> enroll_db" where
  "purgeAgentTelemetry = purge_tables telemetry_tables"

record delete_result =
  dr_Name :: string
  dr_WasRevoked :: bool
  dr_SelfUninstall :: bool

text \<open>Deleted agents leave their tokens without a reference to them.\<close>

definition delete_agents :: "(agent_row \<Rightarrow> bool) \<Rightarrow> enroll_db \<Rightarrow> enroll_db" where
  "delete_agents P w =
     w\<lparr>en_agents := filter (\<lambda>r. \<not> P r) (en_agents w),
       en_tokens := map (\<lambda>t. if list_ex (\<lambda>r. P r \<and> tk_used_by_agent t = Some (ag_id r)) (en_agents w)
         then t\<lparr>tk_used_by_agent := None\<rparr> else t) (en_tokens w)\<rparr>"

definition DeleteAgent :: "string \<Rightarrow> enroll_db \<Rightarrow> (enroll_error + delete_result) \<times> enroll_db" where
  "DeleteAgent aid w =
     (case query w of
        (True, w1) \<Rightarrow> (Inl EnDB, w1)
      | (False, w1) \<Rightarrow>
     (case en_uuid_in w1 aid of
        None \<Rightarrow> (Inl EnDB, w1)
      | Some u \<Rightarrow>
     (case find (\<lambda>r. ag_id r = u) (en_agents w1) of
        None \<Rightarrow> (Inl EnAgentNotFound, w1)
      | Some a \<Rightarrow>
     (case query w1 of
        (True, w2) \<Rightarrow> (Inl EnDB, w2)
      | (False, w2) \<Rightarrow>
     (case purgeAgentTelemetry (ag_name a) w2 of
        (Inl e, w3) \<Rightarrow> (Inl e, rollback w2 w3)
      | (Inr _, w3) \<Rightarrow>
     (case query w3 of
        (True, w4) \<Rightarrow> (Inl EnDB, rollback w2 w4)
      | (False, w4) \<Rightarrow>
          let w5 = (if ag_revoked a then delete_agents (\<lambda>r. ag_id r = u) w4
                    else snd (update_agents (\<lambda>r. ag_id r = u) (\<lambda>r. r\<lparr>ag_revoked := True, ag_deleted_at := Some (db_clock w4)\<rparr>) w4))
          in (case query w5 of
                (True, w6) \<Rightarrow> (Inl EnDB, rollback w2 w6)
              | (False, w6) \<Rightarrow>
                  (Inr \<lparr>dr_Name = ag_name a, dr_WasRevoked = ag_revoked a, dr_SelfUninstall = \<not> ag_revoked a\<rparr>, w6))))))))"

definition ReapDeletedAgents :: "duration \<Rightarrow> enroll_db \<Rightarrow> (enroll_error + int) \<times> enroll_db" where
  "ReapDeletedAgents grace w =
     (case query w of
        (True, w1) \<Rightarrow> (Inl EnDB, w1)
      | (False, w1) \<Rightarrow>
          let cutoff = db_clock w1 - grace;
              reaped = (\<lambda>r. (case ag_deleted_at r of None \<Rightarrow> False | Some d \<Rightarrow> d < cutoff) \<and>
                            (case ag_last_seen_at r of None \<Rightarrow> True | Some s \<Rightarrow> s < cutoff))
          in (Inr (count_rows reaped (en_agents w1)), delete_agents reaped w1))"

definition IsRevoked :: "string \<Rightarrow> string \<Rightarrow> enroll_db \<Rightarrow> (enroll_error + bool) \<times> enroll_db" where
  "IsRevoked name certSerial w =
     (case query w of
        (True, w1) \<Rightarrow> (Inl EnDB, w1)
      | (False, w1) \<Rightarrow>
          (case find (\<lambda>r. ag_name r = name) (en_agents w1) of
             None \<Rightarrow> (Inr False, w1)
           | Some r \<Rightarrow>
               if ag_revoked r then (Inr True, w1)
               else (case ag_cert_serial r of
                       None \<Rightarrow> (Inr False, w1)
                     | Some s \<Rightarrow> (Inr (s \<noteq> [] \<and> certSerial \<noteq> [] \<and> certSerial \<noteq> s), w1))))"

section \<open>Heartbeats and updates\<close>

text \<open>An update of the agent of a name; no row is an unknown agent.\<close>

definition update_agent_name ::
    "string \<Rightarrow> (agent_row \<Rightarrow> agent_row) \<Rightarrow> enroll_error \<Rightarrow> enroll_db \<Rightarrow> (enroll_error + unit) \<times> enroll_db" where
  "update_agent_name name f e w =
     (case query w of
        (True, w1) \<Rightarrow> (Inl EnDB, w1)
      | (False, w1) \<Rightarrow> (case update_agents (\<lambda>r. ag_name r = name) f w1 of
                          (n, w2) \<Rightarrow> (if n = 0 then Inl e else Inr (), w2)))"

definition MarkSeen :: "string \<Rightarrow> enroll_db \<Rightarrow> (enroll_error + unit) \<times> enroll_db" where
  "MarkSeen name w = update_agent_name name (\<lambda>r. r\<lparr>ag_last_seen_at := Some (db_clock w)\<rparr>) EnUnknownAgent w"

definition MarkHealth :: "string \<Rightarrow> bool \<Rightarrow> string \<Rightarrow> enroll_db \<Rightarrow> (enroll_error + unit) \<times> enroll_db" where
  "MarkHealth name degraded detail w =
     update_agent_name name (\<lambda>r. r\<lparr>ag_last_seen_at := Some (db_clock w), ag_health_degraded := degraded,
       ag_health_detail := detail\<rparr>) EnUnknownAgent w"

definition MarkHealthWithVersion ::
    "string \<Rightarrow> bool \<Rightarrow> string \<Rightarrow> string \<Rightarrow> string \<Rightarrow> enroll_db \<Rightarrow> (enroll_error + unit) \<times> enroll_db" where
  "MarkHealthWithVersion name degraded detail version managerVersion w =
     (if version = [] then MarkHealth name degraded detail w
      else if managerVersion \<noteq> [] \<and> version = managerVersion then
        update_agent_name name (\<lambda>r. r\<lparr>ag_last_seen_at := Some (db_clock w), ag_health_degraded := degraded,
          ag_health_detail := detail, ag_agent_version := Some version, ag_update_requested_at := None\<rparr>) EnUnknownAgent w
      else
        update_agent_name name (\<lambda>r. r\<lparr>ag_last_seen_at := Some (db_clock w), ag_health_degraded := degraded,
          ag_health_detail := detail, ag_agent_version := Some version\<rparr>) EnUnknownAgent w)"

definition RequestAgentUpdate :: "string \<Rightarrow> enroll_db \<Rightarrow> (enroll_error + unit) \<times> enroll_db" where
  "RequestAgentUpdate name w =
     update_agent_name name (\<lambda>r. r\<lparr>ag_update_requested_at := Some (db_clock w)\<rparr>) EnAgentNotFound w"

definition PendingAgentUpdate :: "string \<Rightarrow> string \<Rightarrow> enroll_db \<Rightarrow> (enroll_error + bool) \<times> enroll_db" where
  "PendingAgentUpdate name managerVersion w =
     (case query w of
        (True, w1) \<Rightarrow> (Inl EnDB, w1)
      | (False, w1) \<Rightarrow>
          (case find (\<lambda>r. ag_name r = name) (en_agents w1) of
             None \<Rightarrow> (Inr False, w1)
           | Some r \<Rightarrow>
               (case ag_update_requested_at r of
                  None \<Rightarrow> (Inr False, w1)
                | Some t \<Rightarrow>
                    if db_clock w1 - t > 24 * hour then (Inr False, w1)
                    else if managerVersion \<noteq> [] \<and> ag_agent_version r = Some managerVersion then (Inr False, w1)
                    else (Inr True, w1))))"

section \<open>Configuration\<close>

definition SetAgentConfig :: "string \<Rightarrow> source list \<Rightarrow> enroll_db \<Rightarrow> (enroll_error + int) \<times> enroll_db" where
  "SetAgentConfig aid sources w =
     (case query w of
        (True, w1) \<Rightarrow> (Inl EnDB, w1)
      | (False, w1) \<Rightarrow>
          (case en_uuid_in w1 aid of
             None \<Rightarrow> (Inl EnDB, w1)
           | Some u \<Rightarrow>
               (case update_agents (\<lambda>r. ag_id r = u)
                       (\<lambda>r. r\<lparr>ag_config := Some \<lparr>cfg_Version = 0, cfg_Sources = sources\<rparr>, ag_config_is_override := True,
                              ag_config_rev := ag_config_rev r + 1\<rparr>) w1 of
                  (n, w2) \<Rightarrow>
                    (case find (\<lambda>r. ag_id r = u) (en_agents w2) of
                       None \<Rightarrow> (Inl EnAgentNotFound, w2)
                     | Some r \<Rightarrow> (Inr (ag_config_rev r), w2)))))"

definition ClearConfig :: "string \<Rightarrow> enroll_db \<Rightarrow> (enroll_error + unit) \<times> enroll_db" where
  "ClearConfig aid = update_agent_id aid
     (\<lambda>r. r\<lparr>ag_config := None, ag_config_is_override := False, ag_config_rev := ag_config_rev r + 1\<rparr>)"

definition effectiveConfig :: "agent_config option \<Rightarrow> bool \<Rightarrow> agent_config option \<Rightarrow> agent_config option" where
  "effectiveConfig own override grp =
     (if override \<and> own \<noteq> None then own else if grp \<noteq> None then grp else own)"

text \<open>The group's configuration in the left join.\<close>

definition group_config :: "group_row list \<Rightarrow> agent_row \<Rightarrow> agent_config option" where
  "group_config gs r = (case ag_group_id r of
     None \<Rightarrow> None
   | Some g \<Rightarrow> (case find (\<lambda>x. gr_id x = g) gs of None \<Rightarrow> None | Some x \<Rightarrow> gr_config x))"

definition GetConfigByName :: "string \<Rightarrow> enroll_db \<Rightarrow> (enroll_error + agent_config option) \<times> enroll_db" where
  "GetConfigByName name w =
     (case query w of
        (True, w1) \<Rightarrow> (Inl EnDB, w1)
      | (False, w1) \<Rightarrow>
          (case find (\<lambda>r. ag_name r = name \<and> \<not> ag_revoked r) (en_agents w1) of
             None \<Rightarrow> (Inr None, w1)
           | Some r \<Rightarrow>
               (Inr (map_option (\<lambda>c. c\<lparr>cfg_Version := ag_config_rev r\<rparr>)
                  (effectiveConfig (ag_config r) (ag_config_is_override r) (group_config (en_groups w1) r))), w1)))"

record agent_info =
  ai_ID :: string
  ai_Name :: string
  ai_OS :: string
  ai_EnrolledAt :: gotime
  ai_LastSeenAt :: "gotime option"
  ai_Revoked :: bool
  ai_Status :: string
  ai_HealthDetail :: string
  ai_ConfigVersion :: int
  ai_Sources :: "source list"
  ai_OwnConfig :: bool
  ai_GroupID :: string
  ai_GroupName :: string
  ai_AgentVersion :: string
  ai_UpdateRequestedAt :: "gotime option"

definition agent_info_of :: "group_row list \<Rightarrow> agent_row \<Rightarrow> agent_info" where
  "agent_info_of gs r =
     \<lparr>ai_ID = ag_id r, ai_Name = ag_name r, ai_OS = coalesce_str (ag_os r), ai_EnrolledAt = ag_enrolled_at r,
      ai_LastSeenAt = ag_last_seen_at r, ai_Revoked = ag_revoked r, ai_Status = ag_status r, ai_HealthDetail = ag_health_detail r,
      ai_ConfigVersion = ag_config_rev r,
      ai_Sources = (case effectiveConfig (ag_config r) (ag_config_is_override r) (group_config gs r) of
         None \<Rightarrow> [] | Some c \<Rightarrow> cfg_Sources c),
      ai_OwnConfig = ag_config_is_override r, ai_GroupID = coalesce_str (ag_group_id r),
      ai_GroupName = (case ag_group_id r of None \<Rightarrow> [] | Some g \<Rightarrow>
         (case find (\<lambda>x. gr_id x = g) gs of None \<Rightarrow> [] | Some x \<Rightarrow> gr_name x)),
      ai_AgentVersion = coalesce_str (ag_agent_version r), ai_UpdateRequestedAt = ag_update_requested_at r\<rparr>"

definition ListAgents :: "enroll_db \<Rightarrow> (enroll_error + agent_info list) \<times> enroll_db" where
  "ListAgents w =
     (case query w of
        (True, w1) \<Rightarrow> (Inl EnDB, w1)
      | (False, w1) \<Rightarrow>
          (Inr (map (agent_info_of (en_groups w1))
             (sort_key (\<lambda>r. - ag_enrolled_at r) (filter (\<lambda>r. ag_deleted_at r = None) (en_agents w1)))), w1))"

section \<open>Groups\<close>

definition sourcesFromConfig :: "agent_config option \<Rightarrow> source list" where
  "sourcesFromConfig raw = (case raw of None \<Rightarrow> [] | Some c \<Rightarrow> cfg_Sources c)"

record agent_group =
  gp_ID :: string
  gp_Name :: string
  gp_Description :: string
  gp_Sources :: "source list"
  gp_Members :: int

definition group_taken :: "string \<Rightarrow> enroll_db \<Rightarrow> bool" where
  "group_taken name w = list_ex (\<lambda>g. en_lower w (gr_name g) = en_lower w name) (en_groups w)"

definition CreateGroup :: "string \<Rightarrow> string \<Rightarrow> source list \<Rightarrow> enroll_db \<Rightarrow> (enroll_error + string) \<times> enroll_db" where
  "CreateGroup name description sources w =
     (case query w of
        (True, w1) \<Rightarrow> (Inl EnDB, w1)
      | (False, w1) \<Rightarrow>
          (case fresh_id w1 of
             (gid, w2) \<Rightarrow>
               if group_taken name w2 then (Inl EnGroupNameTaken, w2)
               else (Inr gid, w2\<lparr>en_groups := en_groups w2 @
                      [\<lparr>gr_id = gid, gr_name = name, gr_description = description,
                        gr_config = Some \<lparr>cfg_Version = 0, cfg_Sources = sources\<rparr>\<rparr>]\<rparr>)))"

definition SetGroupConfig :: "string \<Rightarrow> source list \<Rightarrow> enroll_db \<Rightarrow> (enroll_error + int) \<times> enroll_db" where
  "SetGroupConfig gid sources w =
     (case query w of
        (True, w1) \<Rightarrow> (Inl EnDB, w1)
      | (False, w1) \<Rightarrow>
     (case query w1 of
        (True, w2) \<Rightarrow> (Inl EnDB, w2)
      | (False, w2) \<Rightarrow>
     (case en_uuid_in w2 gid of
        None \<Rightarrow> (Inl EnDB, w2)
      | Some u \<Rightarrow>
          if \<not> list_ex (\<lambda>g. gr_id g = u) (en_groups w2) then (Inl EnGroupNotFound, w2)
          else
            let w3 = w2\<lparr>en_groups := map (\<lambda>g. if gr_id g = u
                       then g\<lparr>gr_config := Some \<lparr>cfg_Version = 0, cfg_Sources = sources\<rparr>\<rparr> else g) (en_groups w2)\<rparr>
            in (case query w3 of
                  (True, w4) \<Rightarrow> (Inl EnDB, rollback w2 w4)
                | (False, w4) \<Rightarrow>
                    (case update_agents (\<lambda>r. ag_group_id r = Some u \<and> \<not> ag_revoked r)
                            (\<lambda>r. r\<lparr>ag_config_rev := ag_config_rev r + 1\<rparr>) w4 of
                       (n, w5) \<Rightarrow>
                         (case query w5 of
                            (True, w6) \<Rightarrow> (Inl EnDB, rollback w2 w6)
                          | (False, w6) \<Rightarrow> (Inr n, w6)))))))"

text \<open>\<^verbatim>\<open>ON DELETE SET NULL\<close> clears the members' assignment.\<close>

definition DeleteGroup :: "string \<Rightarrow> enroll_db \<Rightarrow> (enroll_error + unit) \<times> enroll_db" where
  "DeleteGroup gid w =
     (case query w of
        (True, w1) \<Rightarrow> (Inl EnDB, w1)
      | (False, w1) \<Rightarrow>
     (case query w1 of
        (True, w2) \<Rightarrow> (Inl EnDB, w2)
      | (False, w2) \<Rightarrow>
     (case en_uuid_in w2 gid of
        None \<Rightarrow> (Inl EnDB, w2)
      | Some u \<Rightarrow>
          let w3 = snd (update_agents (\<lambda>r. ag_group_id r = Some u) (\<lambda>r. r\<lparr>ag_config_rev := ag_config_rev r + 1\<rparr>) w2)
          in (case query w3 of
                (True, w4) \<Rightarrow> (Inl EnDB, rollback w2 w4)
              | (False, w4) \<Rightarrow>
                  if \<not> list_ex (\<lambda>g. gr_id g = u) (en_groups w4) then (Inl EnGroupNotFound, rollback w2 w4)
                  else
                    let w5 = w4\<lparr>en_groups := filter (\<lambda>g. gr_id g \<noteq> u) (en_groups w4),
                               en_agents := map (\<lambda>r. if ag_group_id r = Some u then r\<lparr>ag_group_id := None\<rparr> else r) (en_agents w4)\<rparr>
                    in (case query w5 of
                          (True, w6) \<Rightarrow> (Inl EnDB, rollback w2 w6)
                        | (False, w6) \<Rightarrow> (Inr (), w6))))))"

text \<open>The assignment is refused when there is no such group.\<close>

definition SetAgentGroup :: "string \<Rightarrow> string \<Rightarrow> enroll_db \<Rightarrow> (enroll_error + unit) \<times> enroll_db" where
  "SetAgentGroup agentID groupID w =
     (case query w of
        (True, w1) \<Rightarrow> (Inl EnDB, w1)
      | (False, w1) \<Rightarrow>
     (case (if groupID = [] then Some None else map_option Some (en_uuid_in w1 groupID), en_uuid_in w1 agentID) of
        (Some gid, Some u) \<Rightarrow>
          if gid \<noteq> None \<and> \<not> list_ex (\<lambda>g. Some (gr_id g) = gid) (en_groups w1) \<and>
             list_ex (\<lambda>r. ag_id r = u) (en_agents w1) then (Inl EnDB, w1)
          else (case update_agents (\<lambda>r. ag_id r = u)
                       (\<lambda>r. r\<lparr>ag_group_id := gid, ag_config_rev := ag_config_rev r + 1\<rparr>) w1 of
                  (n, w2) \<Rightarrow> (if n = 0 then Inl EnAgentNotFound else Inr (), w2))
      | _ \<Rightarrow> (Inl EnDB, w1)))"

definition Groups :: "enroll_db \<Rightarrow> (enroll_error + agent_group list) \<times> enroll_db" where
  "Groups w =
     (case query w of
        (True, w1) \<Rightarrow> (Inl EnDB, w1)
      | (False, w1) \<Rightarrow>
          (Inr (map (\<lambda>g. \<lparr>gp_ID = gr_id g, gp_Name = gr_name g, gp_Description = gr_description g,
                         gp_Sources = sourcesFromConfig (gr_config g),
                         gp_Members = count_rows (\<lambda>r. ag_group_id r = Some (gr_id g) \<and> \<not> ag_revoked r) (en_agents w1)\<rparr>)
             (sort_key (\<lambda>g. en_rank w1 (en_lower w1 (gr_name g))) (en_groups w1))), w1))"

end
