(* ===== verification/Gateway.thy ===== *)
theory Gateway
  imports Enrollment File_Actions Go_Path
begin

text \<open>
  The ingest gateway, \<^verbatim>\<open>internal/gateway/gateway.go\<close>: the handlers agents call over mutual TLS, with
  the functions they are given as arguments (\<open>None\<close> is \<^verbatim>\<open>nil\<close>), and the wiring of those functions to the
  stores in \<^verbatim>\<open>cmd/gateway/main.go\<close>.

  A handler takes the request and the state of whatever stands behind its functions, and returns the
  response and the new state. JSON decoding and the normaliser are arguments; log lines are left out.
\<close>

section \<open>Requests and responses\<close>

text \<open>The common name and the serial number of the first peer certificate; a body that arrives or not.\<close>

record request =
  rq_Method :: string
  rq_Cert :: "(string \<times> string) option"
  rq_Body :: "string option"

datatype 'a response = HttpError int string | NoContent | Reply 'a

definition peer_cn :: "request \<Rightarrow> string" where
  "peer_cn r = (case rq_Cert r of None \<Rightarrow> [] | Some (cn, _) \<Rightarrow> cn)"

definition peer_serial :: "request \<Rightarrow> string" where
  "peer_serial r = (case rq_Cert r of None \<Rightarrow> [] | Some (_, serial) \<Rightarrow> serial)"

definition maxBodyBytes :: nat where "maxBodyBytes = 8 * 2 ^ 20"
definition max_report_bytes :: nat where "max_report_bytes = 16 * 2 ^ 20"

text \<open>\<^verbatim>\<open>io.ReadAll(http.MaxBytesReader(...))\<close>.\<close>

definition read_all :: "nat \<Rightarrow> request \<Rightarrow> string option" where
  "read_all limit r = (case rq_Body r of None \<Rightarrow> None | Some b \<Rightarrow> if length b \<le> limit then Some b else None)"

text \<open>\<open>None\<close> is an error.\<close>

type_synonym 's revoked_func = "string \<Rightarrow> string \<Rightarrow> 's \<Rightarrow> bool option \<times> 's"

definition turned_away :: "'s revoked_func option \<Rightarrow> request \<Rightarrow> 's \<Rightarrow> bool \<times> 's" where
  "turned_away revoked r s =
     (case revoked of
        None \<Rightarrow> (False, s)
      | Some f \<Rightarrow>
          if peer_cn r = [] then (False, s)
          else (case f (peer_cn r) (peer_serial r) s of
                  (Some gone, s1) \<Rightarrow> (gone, s1)
                | (None, s1) \<Rightarrow> (False, s1)))"

section \<open>Logs\<close>

record raw_log =
  rl_Timestamp :: gotime
  rl_Host :: string
  rl_AgentID :: string
  rl_Dataset :: string
  rl_Message :: string

definition SubjectLogsNormalized :: string where "SubjectLogsNormalized = ''logs.normalized''"

text \<open>
  The loop over a batch. \<open>encode\<close> is the normaliser with the encoding of its event, \<open>publish\<close> answers
  whether the bus took the message.
\<close>

fun publish_logs ::
    "(raw_log \<Rightarrow> string option) \<Rightarrow> (string \<Rightarrow> string \<Rightarrow> 's \<Rightarrow> bool \<times> 's) \<Rightarrow> string \<Rightarrow> raw_log list \<Rightarrow> int \<Rightarrow> 's
     \<Rightarrow> int response \<times> 's" where
  "publish_logs encode publish certCN [] accepted s = (Reply accepted, s)"
| "publish_logs encode publish certCN (raw # raws) accepted s =
     (if rl_Message raw = [] then publish_logs encode publish certCN raws accepted s
      else
        let raw1 = (if certCN \<noteq> [] then raw\<lparr>rl_AgentID := certCN\<rparr> else raw) in
        case encode raw1 of
          None \<Rightarrow> publish_logs encode publish certCN raws accepted s
        | Some data \<Rightarrow>
            (case publish SubjectLogsNormalized data s of
               (False, s1) \<Rightarrow> (HttpError 503 ''publish failed'', s1)
             | (True, s1) \<Rightarrow> publish_logs encode publish certCN raws (accepted + 1) s1))"

definition LogsHandler ::
    "(string \<Rightarrow> raw_log list option) \<Rightarrow> (raw_log \<Rightarrow> string option) \<Rightarrow> (string \<Rightarrow> string \<Rightarrow> 's \<Rightarrow> bool \<times> 's) \<Rightarrow>
     's revoked_func option \<Rightarrow> request \<Rightarrow> 's \<Rightarrow> int response \<times> 's" where
  "LogsHandler json encode publish revoked r s =
     (if rq_Method r \<noteq> ''POST'' then (HttpError 405 ''method not allowed'', s)
      else case read_all maxBodyBytes r of
        None \<Rightarrow> (HttpError 400 ''failed to read body'', s)
      | Some body \<Rightarrow>
          (case json body of
             None \<Rightarrow> (HttpError 400 ''invalid JSON (expected a RawLog array)'', s)
           | Some raws \<Rightarrow>
               (case turned_away revoked r s of
                  (True, s1) \<Rightarrow> (HttpError 403 ''agent revoked'', s1)
                | (False, s1) \<Rightarrow> publish_logs encode publish (peer_cn r) raws 0 s1)))"

section \<open>Reports\<close>

record snapshot_meta =
  sm_Path :: string
  sm_SHA256 :: string
  sm_Size :: int
  sm_Trigger :: string
  sm_Diff :: string
  sm_Content :: string

definition SnapshotHandler ::
    "(string \<Rightarrow> snapshot_meta list option) \<Rightarrow> (string \<Rightarrow> snapshot_meta list \<Rightarrow> 's \<Rightarrow> bool \<times> 's) option \<Rightarrow>
     's revoked_func option \<Rightarrow> request \<Rightarrow> 's \<Rightarrow> unit response \<times> 's" where
  "SnapshotHandler json fn revoked r s =
     (if rq_Method r \<noteq> ''POST'' then (HttpError 405 ''method not allowed'', s)
      else case turned_away revoked r s of
        (True, s1) \<Rightarrow> (HttpError 410 ''agent revoked'', s1)
      | (False, s1) \<Rightarrow>
     (case read_all maxBodyBytes r of
        None \<Rightarrow> (HttpError 400 ''failed to read body'', s1)
      | Some body \<Rightarrow>
     (case json body of
        None \<Rightarrow> (HttpError 400 ''invalid JSON (expected a SnapshotMeta array)'', s1)
      | Some snaps \<Rightarrow>
     (case fn of
        None \<Rightarrow> (NoContent, s1)
      | Some f \<Rightarrow>
          if peer_cn r \<noteq> [] \<and> snaps \<noteq> [] then
            (case f (peer_cn r) snaps s1 of
               (False, s2) \<Rightarrow> (HttpError 503 ''record failed'', s2)
             | (True, s2) \<Rightarrow> (NoContent, s2))
          else (NoContent, s1)))))"

definition InventoryHandler ::
    "(string \<Rightarrow> string \<Rightarrow> 's \<Rightarrow> bool \<times> 's) option \<Rightarrow> 's revoked_func option \<Rightarrow> request \<Rightarrow> 's \<Rightarrow> unit response \<times> 's" where
  "InventoryHandler fn revoked r s =
     (if rq_Method r \<noteq> ''POST'' then (HttpError 405 ''method not allowed'', s)
      else case turned_away revoked r s of
        (True, s1) \<Rightarrow> (HttpError 410 ''agent revoked'', s1)
      | (False, s1) \<Rightarrow>
     (case read_all max_report_bytes r of
        None \<Rightarrow> (HttpError 400 ''failed to read body'', s1)
      | Some body \<Rightarrow>
     (case fn of
        None \<Rightarrow> (NoContent, s1)
      | Some f \<Rightarrow>
          if peer_cn r \<noteq> [] \<and> body \<noteq> [] then
            (case f (peer_cn r) body s1 of
               (False, s2) \<Rightarrow> (HttpError 503 ''record failed'', s2)
             | (True, s2) \<Rightarrow> (NoContent, s2))
          else (NoContent, s1))))"

definition BenchmarkHandler ::
    "(string \<Rightarrow> string \<Rightarrow> 's \<Rightarrow> bool \<times> 's) option \<Rightarrow> 's revoked_func option \<Rightarrow> request \<Rightarrow> 's \<Rightarrow> unit response \<times> 's" where
  "BenchmarkHandler fn revoked r s =
     (if rq_Method r \<noteq> ''POST'' then (HttpError 405 ''method not allowed'', s)
      else case turned_away revoked r s of
        (True, s1) \<Rightarrow> (HttpError 410 ''agent revoked'', s1)
      | (False, s1) \<Rightarrow>
     (case read_all max_report_bytes r of
        None \<Rightarrow> (HttpError 400 ''failed to read body'', s1)
      | Some body \<Rightarrow>
     (case fn of
        None \<Rightarrow> (NoContent, s1)
      | Some f \<Rightarrow>
          if peer_cn r \<noteq> [] \<and> body \<noteq> [] then
            (case f (peer_cn r) body s1 of
               (False, s2) \<Rightarrow> (HttpError 503 ''record failed'', s2)
             | (True, s2) \<Rightarrow> (NoContent, s2))
          else (NoContent, s1))))"

section \<open>File actions\<close>

record file_action_item =
  fi_ID :: int
  fi_Path :: string
  fi_Action :: string
  fi_VersionSHA256 :: string
  fi_Content :: string
  fi_PID :: int
  fi_ProcName :: string
  fi_ProcStart :: string

definition FileActionsHandler ::
    "(string \<Rightarrow> 's \<Rightarrow> file_action_item list option \<times> 's) option \<Rightarrow> 's revoked_func option \<Rightarrow> request \<Rightarrow> 's \<Rightarrow>
     file_action_item list response \<times> 's" where
  "FileActionsHandler fn revoked r s =
     (case turned_away revoked r s of
        (True, s1) \<Rightarrow> (HttpError 410 ''agent revoked'', s1)
      | (False, s1) \<Rightarrow>
     (case fn of
        None \<Rightarrow> (Reply [], s1)
      | Some f \<Rightarrow>
          if peer_cn r \<noteq> [] then
            (case f (peer_cn r) s1 of
               (None, s2) \<Rightarrow> (Reply [], s2)
             | (Some got, s2) \<Rightarrow> (Reply got, s2))
          else (Reply [], s1)))"

text \<open>\<open>decode\<close> reads the first JSON value: action id, status and result.\<close>

definition FileActionResultHandler ::
    "(string \<Rightarrow> (int \<times> string \<times> string) option) \<Rightarrow> (int \<Rightarrow> string \<Rightarrow> string \<Rightarrow> 's \<Rightarrow> bool \<times> 's) option \<Rightarrow>
     's revoked_func option \<Rightarrow> request \<Rightarrow> 's \<Rightarrow> unit response \<times> 's" where
  "FileActionResultHandler decode fn revoked r s =
     (if rq_Method r \<noteq> ''POST'' then (HttpError 405 ''method not allowed'', s)
      else case turned_away revoked r s of
        (True, s1) \<Rightarrow> (HttpError 410 ''agent revoked'', s1)
      | (False, s1) \<Rightarrow>
     (case (case rq_Body r of None \<Rightarrow> None | Some b \<Rightarrow> decode (take maxBodyBytes b)) of
        None \<Rightarrow> (HttpError 400 ''invalid JSON'', s1)
      | Some (i, status, result) \<Rightarrow>
     (case fn of
        None \<Rightarrow> (NoContent, s1)
      | Some f \<Rightarrow>
          if i \<noteq> 0 then
            (case f i status result s1 of
               (False, s2) \<Rightarrow> (HttpError 503 ''record failed'', s2)
             | (True, s2) \<Rightarrow> (NoContent, s2))
          else (NoContent, s1))))"

section \<open>Heartbeats\<close>

record heartbeat_body =
  hb_Degraded :: bool
  hb_Detail :: string
  hb_Version :: string

record update_directive =
  ud_URL :: string
  ud_Version :: string

datatype hb_error = HbUnknownAgent | HbStore

text \<open>
  The three writers, of which the first that is there runs; \<open>decode\<close> is the body after an attempt to
  decode it, which is never an error.
\<close>

definition write_heartbeat ::
    "(string \<Rightarrow> 's \<Rightarrow> hb_error option \<times> 's) option \<Rightarrow> (string \<Rightarrow> bool \<Rightarrow> string \<Rightarrow> 's \<Rightarrow> hb_error option \<times> 's) option \<Rightarrow>
     (string \<Rightarrow> bool \<Rightarrow> string \<Rightarrow> string \<Rightarrow> 's \<Rightarrow> hb_error option \<times> 's) option \<Rightarrow> string \<Rightarrow> heartbeat_body \<Rightarrow> 's \<Rightarrow> hb_error option \<times> 's" where
  "write_heartbeat seen health healthV cn hb s =
     (case healthV of
        Some f \<Rightarrow> f cn (hb_Degraded hb) (hb_Detail hb) (hb_Version hb) s
      | None \<Rightarrow>
          (case health of
             Some f \<Rightarrow> f cn (hb_Degraded hb) (hb_Detail hb) s
           | None \<Rightarrow> (case seen of Some f \<Rightarrow> f cn s | None \<Rightarrow> (None, s))))"

definition HeartbeatHandlerFull ::
    "(string \<Rightarrow> heartbeat_body) \<Rightarrow> (string \<Rightarrow> 's \<Rightarrow> hb_error option \<times> 's) option \<Rightarrow>
     (string \<Rightarrow> bool \<Rightarrow> string \<Rightarrow> 's \<Rightarrow> hb_error option \<times> 's) option \<Rightarrow>
     (string \<Rightarrow> bool \<Rightarrow> string \<Rightarrow> string \<Rightarrow> 's \<Rightarrow> hb_error option \<times> 's) option \<Rightarrow> 's revoked_func option \<Rightarrow>
     (string \<Rightarrow> 's \<Rightarrow> update_directive option option \<times> 's) option \<Rightarrow> request \<Rightarrow> 's \<Rightarrow> update_directive response \<times> 's" where
  "HeartbeatHandlerFull decode seen health healthV revoked updFn r s =
     (case turned_away revoked r s of
        (True, s1) \<Rightarrow> (HttpError 410 ''agent revoked'', s1)
      | (False, s1) \<Rightarrow>
          let cn = peer_cn r;
              hb = (case rq_Body r of None \<Rightarrow> \<lparr>hb_Degraded = False, hb_Detail = [], hb_Version = []\<rparr>
                    | Some b \<Rightarrow> decode (take 4096 b))
          in (case (if cn \<noteq> [] then write_heartbeat seen health healthV cn hb s1 else (None, s1)) of
                (Some HbUnknownAgent, s2) \<Rightarrow>
                  (HttpError 409 ''unknown agent: this certificate's CN is not enrolled, re-run the installer to enroll this host'', s2)
              | (Some HbStore, s2) \<Rightarrow> (HttpError 503 ''heartbeat store error'', s2)
              | (None, s2) \<Rightarrow>
                  (case updFn of
                     None \<Rightarrow> (NoContent, s2)
                   | Some f \<Rightarrow>
                       if cn \<noteq> [] then
                         (case f cn s2 of
                            (Some (Some d), s3) \<Rightarrow> (Reply d, s3)
                          | (_, s3) \<Rightarrow> (NoContent, s3))
                       else (NoContent, s2))))"

section \<open>What agents fetch\<close>

definition ConfigHandler :: "(string \<Rightarrow> 's \<Rightarrow> 'c option option \<times> 's) option \<Rightarrow> request \<Rightarrow> 's \<Rightarrow> 'c response \<times> 's" where
  "ConfigHandler cfg r s =
     (case cfg of
        None \<Rightarrow> (NoContent, s)
      | Some f \<Rightarrow>
          if peer_cn r = [] then (HttpError 401 ''unauthorized'', s)
          else (case f (peer_cn r) s of
                  (None, s1) \<Rightarrow> (HttpError 500 ''failed to fetch config'', s1)
                | (Some None, s1) \<Rightarrow> (NoContent, s1)
                | (Some (Some c), s1) \<Rightarrow> (Reply c, s1)))"

definition SCAPoliciesHandler :: "(string \<Rightarrow> 's \<Rightarrow> 'c option option \<times> 's) option \<Rightarrow> request \<Rightarrow> 's \<Rightarrow> 'c response \<times> 's" where
  "SCAPoliciesHandler fn r s =
     (case fn of
        None \<Rightarrow> (NoContent, s)
      | Some f \<Rightarrow>
          if peer_cn r = [] then (HttpError 401 ''unauthorized'', s)
          else (case f (peer_cn r) s of
                  (None, s1) \<Rightarrow> (HttpError 500 ''failed to fetch policies'', s1)
                | (Some None, s1) \<Rightarrow> (NoContent, s1)
                | (Some (Some c), s1) \<Rightarrow> (Reply c, s1)))"

record containment_directive =
  cd_Isolate :: bool
  cd_AllowIPs :: "string list"
  cd_Reason :: string

definition no_isolation :: containment_directive where
  "no_isolation = \<lparr>cd_Isolate = False, cd_AllowIPs = [], cd_Reason = []\<rparr>"

definition ContainmentHandler ::
    "(string \<Rightarrow> 's \<Rightarrow> containment_directive option \<times> 's) option \<Rightarrow> request \<Rightarrow> 's \<Rightarrow> containment_directive response \<times> 's" where
  "ContainmentHandler fn r s =
     (case fn of
        None \<Rightarrow> (Reply no_isolation, s)
      | Some f \<Rightarrow>
          if peer_cn r = [] then (Reply no_isolation, s)
          else (case f (peer_cn r) s of
                  (Some d, s1) \<Rightarrow> (Reply d, s1)
                | (None, s1) \<Rightarrow> (Reply no_isolation, s1)))"

definition RestoreHandler :: "(string \<Rightarrow> 's \<Rightarrow> string list option \<times> 's) option \<Rightarrow> request \<Rightarrow> 's \<Rightarrow> string list response \<times> 's" where
  "RestoreHandler fn r s =
     (case fn of
        None \<Rightarrow> (Reply [], s)
      | Some f \<Rightarrow>
          if peer_cn r = [] then (Reply [], s)
          else (case f (peer_cn r) s of
                  (Some paths, s1) \<Rightarrow> (Reply paths, s1)
                | (None, s1) \<Rightarrow> (Reply [], s1)))"

record file_target =
  ft_Path :: string
  ft_SHA256 :: string

definition QuarantineHandler :: "('s \<Rightarrow> file_target list option \<times> 's) option \<Rightarrow> request \<Rightarrow> 's \<Rightarrow> file_target list response \<times> 's" where
  "QuarantineHandler fn r s =
     (case fn of
        None \<Rightarrow> (Reply [], s)
      | Some f \<Rightarrow> (case f s of (Some files, s1) \<Rightarrow> (Reply files, s1) | (None, s1) \<Rightarrow> (Reply [], s1)))"

definition BlocklistHandler :: "('s \<Rightarrow> string list option \<times> 's) option \<Rightarrow> request \<Rightarrow> 's \<Rightarrow> string list response \<times> 's" where
  "BlocklistHandler fn r s =
     (case fn of
        None \<Rightarrow> (Reply [], s)
      | Some f \<Rightarrow> (case f s of (Some ips, s1) \<Rightarrow> (Reply ips, s1) | (None, s1) \<Rightarrow> (Reply [], s1)))"

record blocklist_config =
  bc_Enabled :: bool
  bc_Table :: string
  bc_Set :: string
  bc_IPs :: "string list"

definition BlocklistConfigHandler ::
    "(string \<Rightarrow> 's \<Rightarrow> blocklist_config option \<times> 's) option \<Rightarrow> request \<Rightarrow> 's \<Rightarrow> blocklist_config response \<times> 's" where
  "BlocklistConfigHandler fn r s =
     (let none = \<lparr>bc_Enabled = False, bc_Table = [], bc_Set = [], bc_IPs = []\<rparr> in
      case fn of
        None \<Rightarrow> (Reply none, s)
      | Some f \<Rightarrow> (case f (peer_cn r) s of (Some c, s1) \<Rightarrow> (Reply c, s1) | (None, s1) \<Rightarrow> (Reply none, s1)))"

text \<open>The binary and its signature; \<open>open_file\<close> looks a name up in the directory of the binaries.\<close>

definition AgentBinaryHandler ::
    "(string \<Rightarrow> string option) \<Rightarrow> string \<Rightarrow> (string \<times> string option) response" where
  "AgentBinaryHandler open_file arch =
     (let safeArch = path_base arch in
      if safeArch \<noteq> ''amd64'' \<and> safeArch \<noteq> ''arm64'' then
        HttpError 400 ''unsupported arch (want amd64 or arm64)''
      else
        let name = ''deuswatch-agent-linux-'' @ safeArch in
        case open_file name of
          None \<Rightarrow> HttpError 404 ''agent binary not found''
        | Some content \<Rightarrow> Reply (content, map_option trim_space (open_file (name @ ''.sig''))))"

end
