(* ===== verification/Enrollment_Moves.thy ===== *)
theory Enrollment_Moves
  imports Enrollment
begin

text \<open>
  An abstract view of \<^verbatim>\<open>internal/enroll\<close>: the few kinds of move of \<open>en_move\<close> that the agents, tokens and
  groups make, with the lemma that every operation, on every branch, is one of them (\<open>exec_op_move\<close>), and
  the runs of the operations.
\<close>

lemma en_query_frame [simp]:
  assumes "query (w::enroll_db) = (b, w')"
  shows "en_agents w' = en_agents w" "en_tokens w' = en_tokens w" "en_groups w' = en_groups w"
    "en_uuid_in w' = en_uuid_in w" "en_sha w' = en_sha w" "en_cert w' = en_cert w" "en_issued w' = en_issued w"
    "en_draws w' = en_draws w" "en_lower w' = en_lower w" "en_rand w' = en_rand w"
  using assms by (auto simp: query_def split: list.splits)

text \<open>A statement in one equation, for rewriting a whole operation.\<close>

definition fails :: "enroll_db \<Rightarrow> bool" where
  "fails w = fst (query w)"

definition after :: "enroll_db \<Rightarrow> enroll_db" where
  "after w = snd (query w)"

lemma query_eq: "query (w::enroll_db) = (fails w, after w)"
  by (simp add: fails_def after_def)

lemma after_frame [simp]:
  "en_agents (after w) = en_agents w" "en_tokens (after w) = en_tokens w" "en_groups (after w) = en_groups w"
  "en_uuid_in (after w) = en_uuid_in w" "en_sha (after w) = en_sha w" "en_cert (after w) = en_cert w"
  "en_issued (after w) = en_issued w" "en_draws (after w) = en_draws w" "en_lower (after w) = en_lower w"
  "en_rand (after w) = en_rand w" "db_clock (after w) = db_clock w" "db_uuid (after w) = db_uuid w" "db_seq (after w) = db_seq w"
  by (cases "query w"; simp add: after_def)+

lemmas en_run = query_eq Let_def case_bool_if prod.case
lemmas en_rows = update_agents_def update_rows_def Let_def prod.case

section \<open>Moves\<close>

text \<open>What no operation changes, and the counters that only grow.\<close>

definition same_world :: "enroll_db \<Rightarrow> enroll_db \<Rightarrow> bool" where
  "same_world w w' \<longleftrightarrow> db_uuid w' = db_uuid w \<and> en_uuid_in w' = en_uuid_in w \<and> en_sha w' = en_sha w \<and>
     en_cert w' = en_cert w \<and> db_seq w \<le> db_seq w' \<and> en_issued w \<le> en_issued w' \<and> db_clock w \<le> db_clock w'"

lemma same_world_refl [simp]: "same_world w w"
  by (simp add: same_world_def)

lemma same_world_query [simp]: "query w = (b, w') \<Longrightarrow> same_world w w'"
  by (simp add: same_world_def)

lemma same_world_trans: "same_world a b \<Longrightarrow> same_world b c \<Longrightarrow> same_world a c"
  by (auto simp: same_world_def)

text \<open>
  An update of an agent that keeps who it is, never lifts a revocation, and raises the revision
  whenever it touches what its configuration is made of.
\<close>

definition tame :: "enroll_db \<Rightarrow> (agent_row \<Rightarrow> agent_row) \<Rightarrow> bool" where
  "tame w f \<longleftrightarrow> (\<forall>r. ag_id (f r) = ag_id r \<and> ag_name (f r) = ag_name r \<and> ag_cert_serial (f r) = ag_cert_serial r \<and>
     (ag_revoked r \<longrightarrow> ag_revoked (f r)) \<and> ag_config_rev r \<le> ag_config_rev (f r) \<and>
     (ag_config_rev (f r) = ag_config_rev r \<longrightarrow>
        ag_config (f r) = ag_config r \<and> ag_config_is_override (f r) = ag_config_is_override r \<and> ag_group_id (f r) = ag_group_id r) \<and>
     (ag_group_id (f r) = ag_group_id r \<or> ag_group_id (f r) = None \<or> ag_group_id (f r) \<in> Some ` gr_id ` set (en_groups w)))"

text \<open>What a token is, whether it is used, and until when it could be.\<close>

definition token_view :: "enroll_db \<Rightarrow> (string \<times> gotime option \<times> gotime) list" where
  "token_view w = map (\<lambda>t. (tk_hash t, tk_used_at t, tk_expires_at t)) (en_tokens w)"

definition spend :: "string \<Rightarrow> gotime \<Rightarrow> string \<times> gotime option \<times> gotime \<Rightarrow> string \<times> gotime option \<times> gotime" where
  "spend h t = (\<lambda>(x, u, e). if x = h \<and> u = None \<and> e > t then (x, Some t, e) else (x, u, e))"

definition spends :: "string \<Rightarrow> enroll_db \<Rightarrow> enroll_db \<Rightarrow> bool" where
  "spends h w w' \<longleftrightarrow> token_view w' = map (spend h (db_clock w)) (token_view w) \<and>
     (\<exists>e > db_clock w. (h, None, e) \<in> set (token_view w))"

definition fresh_serial :: "enroll_db \<Rightarrow> enroll_db \<Rightarrow> string \<Rightarrow> string \<Rightarrow> bool" where
  "fresh_serial w w' name s \<longleftrightarrow> (\<exists>c k. en_cert w (en_issued w) name = Some (c, k, s)) \<and> en_issued w < en_issued w'"

inductive en_move :: "enroll_db \<Rightarrow> enroll_db \<Rightarrow> bool" where
  move_update: "same_world w w' \<Longrightarrow> tame w f \<Longrightarrow> en_agents w' = map f (en_agents w) \<Longrightarrow> token_view w' = token_view w \<Longrightarrow>
     en_groups w' = en_groups w \<Longrightarrow> en_move w w'"
| move_token: "same_world w w' \<Longrightarrow> en_agents w' = en_agents w \<Longrightarrow> token_view w' = token_view w @ [(h, None, e)] \<Longrightarrow>
     h \<notin> fst ` set (token_view w) \<Longrightarrow> en_groups w' = en_groups w \<Longrightarrow> en_move w w'"
| move_new: "same_world w w' \<Longrightarrow> spends h w w' \<Longrightarrow> en_groups w' = en_groups w \<Longrightarrow> fresh_serial w w' name s \<Longrightarrow>
     uid = db_uuid w (db_seq w) \<Longrightarrow> db_seq w < db_seq w' \<Longrightarrow> name \<notin> ag_name ` set (en_agents w) \<Longrightarrow>
     en_agents w' = en_agents w @ [new_agent uid name os s tenant t] \<Longrightarrow> en_move w w'"
| move_again: "same_world w w' \<Longrightarrow> spends h w w' \<Longrightarrow> en_groups w' = en_groups w \<Longrightarrow> fresh_serial w w' name s \<Longrightarrow>
     find (\<lambda>r. ag_name r = name) (en_agents w) = Some r \<Longrightarrow> ag_revoked r \<Longrightarrow>
     en_agents w' = map (\<lambda>a. if ag_name a = name then taken_over os s tenant t a else a) (en_agents w) \<Longrightarrow> en_move w w'"
| move_delete: "same_world w w' \<Longrightarrow> en_agents w' = filter (\<lambda>r. \<not> P r) (en_agents w) \<Longrightarrow> token_view w' = token_view w \<Longrightarrow>
     en_groups w' = en_groups w \<Longrightarrow> en_move w w'"
| move_group_add: "same_world w w' \<Longrightarrow> en_agents w' = en_agents w \<Longrightarrow> token_view w' = token_view w \<Longrightarrow>
     gr_id g = db_uuid w (db_seq w) \<Longrightarrow> db_seq w < db_seq w' \<Longrightarrow> en_groups w' = en_groups w @ [g] \<Longrightarrow> en_move w w'"
| move_group_set: "same_world w w' \<Longrightarrow> token_view w' = token_view w \<Longrightarrow>
     en_agents w' = map (\<lambda>r. if ag_group_id r = Some u \<and> \<not> ag_revoked r then r\<lparr>ag_config_rev := ag_config_rev r + 1\<rparr> else r) (en_agents w) \<Longrightarrow>
     en_groups w' = map (\<lambda>g. if gr_id g = u then g\<lparr>gr_config := c\<rparr> else g) (en_groups w) \<Longrightarrow> en_move w w'"
| move_group_delete: "same_world w w' \<Longrightarrow> token_view w' = token_view w \<Longrightarrow>
     en_agents w' = map (\<lambda>r. if ag_group_id r = Some u then r\<lparr>ag_config_rev := ag_config_rev r + 1, ag_group_id := None\<rparr> else r) (en_agents w) \<Longrightarrow>
     en_groups w' = filter (\<lambda>g. gr_id g \<noteq> u) (en_groups w) \<Longrightarrow> en_move w w'"

section \<open>Every operation is a move\<close>

lemma tame_id [simp]: "tame w id" "tame w (\<lambda>r. r)"
  by (simp_all add: tame_def)

lemma tame_if [intro]: "tame w f \<Longrightarrow> tame w (\<lambda>r. if P r then f r else r)"
  by (simp add: tame_def)

text \<open>An operation that leaves the three tables as they are.\<close>

definition idle :: "enroll_db \<Rightarrow> enroll_db \<Rightarrow> bool" where
  "idle w w' \<longleftrightarrow> same_world w w' \<and> en_agents w' = en_agents w \<and> token_view w' = token_view w \<and> en_groups w' = en_groups w"

lemma idle_move: "idle w w' \<Longrightarrow> en_move w w'"
  by (rule move_update [where f = "\<lambda>r. r"]) (auto simp: idle_def)

lemma idle_refl [simp]: "idle w w"
  by (simp add: idle_def)

lemma idle_trans: "idle a b \<Longrightarrow> idle b c \<Longrightarrow> idle a c"
  by (auto simp: idle_def intro: same_world_trans)

lemma idle_query [simp, intro]: "query w = (b, w') \<Longrightarrow> idle w w'"
  by (simp add: idle_def token_view_def)

lemma idle_rollback:
  "idle w w2 \<Longrightarrow> same_world w2 w' \<Longrightarrow> idle w (rollback w2 w')"
  by (auto simp: idle_def rollback_def same_world_def token_view_def)

lemma tame_congs:
  assumes "same_world w w'" "en_groups w' = en_groups w"
  shows "tame w' f = tame w f"
  using assms by (simp add: tame_def)

lemma update_agents_move:
  assumes "update_agents P f w1 = (n, w2)" "idle w w1" "tame w f"
  shows "en_move w w2"
proof (rule move_update [where f = "\<lambda>r. if P r then f r else r"])
  show "same_world w w2" "en_agents w2 = map (\<lambda>r. if P r then f r else r) (en_agents w)"
    "token_view w2 = token_view w" "en_groups w2 = en_groups w"
    using assms by (auto simp: update_agents_def update_rows_def idle_def same_world_def token_view_def)
  show "tame w (\<lambda>r. if P r then f r else r)" using assms(3) by (rule tame_if)
qed

lemma update_agent_id_move: "tame w f \<Longrightarrow> en_move w (snd (update_agent_id aid f w))"
  by (auto simp: update_agent_id_def split: prod.splits bool.splits option.splits
      intro: idle_move update_agents_move)

lemma update_agent_name_move: "tame w f \<Longrightarrow> en_move w (snd (update_agent_name name f e w))"
  by (auto simp: update_agent_name_def split: prod.splits bool.splits option.splits
      intro: idle_move update_agents_move)

lemma Revoke_move: "en_move w (snd (Revoke aid w))"
  by (simp add: Revoke_def, rule update_agent_id_move) (simp add: tame_def)

lemma ClearConfig_move: "en_move w (snd (ClearConfig aid w))"
  by (simp add: ClearConfig_def, rule update_agent_id_move) (simp add: tame_def)

lemma MarkSeen_move: "en_move w (snd (MarkSeen name w))"
  by (simp add: MarkSeen_def, rule update_agent_name_move) (simp add: tame_def)

lemma MarkHealth_move: "en_move w (snd (MarkHealth name d t w))"
  by (simp add: MarkHealth_def, rule update_agent_name_move) (simp add: tame_def)

lemma MarkHealthWithVersion_move: "en_move w (snd (MarkHealthWithVersion name d t v m w))"
  by (auto simp: MarkHealthWithVersion_def tame_def intro!: update_agent_name_move MarkHealth_move)

lemma RequestAgentUpdate_move: "en_move w (snd (RequestAgentUpdate name w))"
  by (simp add: RequestAgentUpdate_def, rule update_agent_name_move) (simp add: tame_def)

lemma SetAgentConfig_move: "en_move w (snd (SetAgentConfig aid srcs w))"
  by (auto simp: SetAgentConfig_def split: prod.splits bool.splits option.splits
      intro: idle_move update_agents_move [where f = "\<lambda>r. r\<lparr>ag_config := Some \<lparr>cfg_Version = 0, cfg_Sources = srcs\<rparr>,
        ag_config_is_override := True, ag_config_rev := ag_config_rev r + 1\<rparr>"] simp: tame_def)

text \<open>A statement over no agents, and the groups.\<close>

lemma SetAgentGroup_cases:
  assumes "SetAgentGroup aid gid w = (res, w')"
  obtains "idle w w'"
  | w1 n g u where "idle w w1"
      "update_agents (\<lambda>r. ag_id r = u) (\<lambda>r. r\<lparr>ag_group_id := g, ag_config_rev := ag_config_rev r + 1\<rparr>) w1 = (n, w')"
      "g = None \<or> g \<in> Some ` gr_id ` set (en_groups w) \<or> \<not> list_ex (\<lambda>r. ag_id r = u) (en_agents w1)"
proof (cases "query w")
  case (Pair b w1)
  show ?thesis
  proof (cases "b \<or> (gid \<noteq> [] \<and> en_uuid_in w1 gid = None) \<or> en_uuid_in w1 aid = None")
    case True
    then have "w' = w1" using assms Pair
      by (auto simp: SetAgentGroup_def split: if_splits option.splits bool.splits)
    with Pair that(1) show ?thesis by simp
  next
    case False
    then obtain u where u: "en_uuid_in w1 aid = Some u" by auto
    define g where "g = (if gid = [] then None else en_uuid_in w1 gid)"
    have g: "(if gid = [] then Some None else map_option Some (en_uuid_in w1 gid)) = Some g"
      using False by (auto simp: g_def)
    have "w' = w1 \<or> (g = None \<or> g \<in> Some ` gr_id ` set (en_groups w1) \<or> \<not> list_ex (\<lambda>r. ag_id r = u) (en_agents w1)) \<and>
       (\<exists>n. update_agents (\<lambda>r. ag_id r = u) (\<lambda>r. r\<lparr>ag_group_id := g, ag_config_rev := ag_config_rev r + 1\<rparr>) w1 = (n, w'))"
      using assms Pair False u g
      by (cases "g \<noteq> None \<and> \<not> list_ex (\<lambda>x. Some (gr_id x) = g) (en_groups w1) \<and> list_ex (\<lambda>r. ag_id r = u) (en_agents w1)")
        (auto simp: SetAgentGroup_def list_ex_iff split: prod.splits if_splits)
    then consider "w' = w1" | n where "g = None \<or> g \<in> Some ` gr_id ` set (en_groups w) \<or> \<not> list_ex (\<lambda>r. ag_id r = u) (en_agents w1)"
        "update_agents (\<lambda>r. ag_id r = u) (\<lambda>r. r\<lparr>ag_group_id := g, ag_config_rev := ag_config_rev r + 1\<rparr>) w1 = (n, w')"
      using Pair by auto
    then show ?thesis
    proof cases
      case 1
      with Pair show ?thesis by (intro that(1)) simp
    next
      case 2
      with Pair show ?thesis by (intro that(2) [of w1 u g n]) simp_all
    qed
  qed
qed

lemma SetAgentGroup_move: "en_move w (snd (SetAgentGroup aid gid w))"
proof -
  obtain res w' where eq: "SetAgentGroup aid gid w = (res, w')" by (cases "SetAgentGroup aid gid w")
  then show ?thesis
  proof (cases rule: SetAgentGroup_cases)
    case 1
    then show ?thesis by (simp add: eq idle_move)
  next
    case (2 w1 n g u)
    show ?thesis
    proof (cases "list_ex (\<lambda>r. ag_id r = u) (en_agents w1)")
      case True
      then have "tame w (\<lambda>r. r\<lparr>ag_group_id := g, ag_config_rev := ag_config_rev r + 1\<rparr>)"
        using 2(3) by (auto simp: tame_def)
      with 2 show ?thesis by (auto simp: eq intro: update_agents_move)
    next
      case False
      then have "w' = w1"
        using 2(2) by (auto simp: update_agents_def update_rows_def list_ex_iff map_idI cong: map_cong)
      with 2(1) show ?thesis by (simp add: eq idle_move)
    qed
  qed
qed

lemma CreateToken_move: "en_move w (snd (CreateToken by t w))"
proof -
  obtain res w1 where eq: "CreateToken by t w = (res, w1)" by (cases "CreateToken by t w")
  show ?thesis
  proof (cases res)
    case (Inr x)
    obtain raw e where x: "x = (raw, e)" by (cases x)
    have "CreateToken by t w = (Inr (raw, e), w1)" using eq Inr x by simp
    then have "en_move w w1"
      unfolding CreateToken_def en_run
      by (intro move_token [where h = "en_sha w raw" and e = e])
        (auto simp: token_hash_of_def token_view_def same_world_def list_ex_iff split: option.splits if_splits)
    then show ?thesis by (simp add: eq)
  next
    case (Inl e)
    have "CreateToken by t w = (Inl e, w1)" using eq Inl by simp
    then have "idle w w1"
      unfolding CreateToken_def en_run
      by (auto simp: idle_def same_world_def token_view_def split: option.splits if_splits)
    then show ?thesis by (simp add: eq idle_move)
  qed
qed

lemma CreateGroup_move: "en_move w (snd (CreateGroup name d srcs w))"
proof -
  obtain res w1 where eq: "CreateGroup name d srcs w = (res, w1)" by (cases "CreateGroup name d srcs w")
  show ?thesis
  proof (cases res)
    case (Inr x)
    have "CreateGroup name d srcs w = (Inr x, w1)" using eq Inr by simp
    then have "en_move w w1"
      unfolding CreateGroup_def fresh_id_def en_run
      by (intro move_group_add [where g = "\<lparr>gr_id = x, gr_name = name, gr_description = d,
           gr_config = Some \<lparr>cfg_Version = 0, cfg_Sources = srcs\<rparr>\<rparr>"])
        (auto simp: token_view_def same_world_def split: if_splits)
    then show ?thesis by (simp add: eq)
  next
    case (Inl e)
    have "CreateGroup name d srcs w = (Inl e, w1)" using eq Inl by simp
    then have "idle w w1"
      unfolding CreateGroup_def fresh_id_def en_run
      by (auto simp: idle_def same_world_def token_view_def split: if_splits)
    then show ?thesis by (simp add: eq idle_move)
  qed
qed

lemma SetGroupConfig_move: "en_move w (snd (SetGroupConfig gid srcs w))"
proof -
  obtain res w1 where eq: "SetGroupConfig gid srcs w = (res, w1)" by (cases "SetGroupConfig gid srcs w")
  show ?thesis
  proof (cases res)
    case (Inr x)
    have "SetGroupConfig gid srcs w = (Inr x, w1)" using eq Inr by simp
    then have "en_move w w1"
      unfolding SetGroupConfig_def en_run en_rows
      by (intro move_group_set [where u = "the (en_uuid_in w gid)" and c = "Some \<lparr>cfg_Version = 0, cfg_Sources = srcs\<rparr>"])
        (auto simp: token_view_def same_world_def split: option.splits if_splits)
    then show ?thesis by (simp add: eq)
  next
    case (Inl e)
    have "SetGroupConfig gid srcs w = (Inl e, w1)" using eq Inl by simp
    then have "idle w w1"
      unfolding SetGroupConfig_def en_run en_rows
      by (auto simp: idle_def same_world_def token_view_def rollback_def split: option.splits if_splits)
    then show ?thesis by (simp add: eq idle_move)
  qed
qed

lemma DeleteGroup_move: "en_move w (snd (DeleteGroup gid w))"
proof -
  obtain res w1 where eq: "DeleteGroup gid w = (res, w1)" by (cases "DeleteGroup gid w")
  show ?thesis
  proof (cases res)
    case (Inr x)
    have "DeleteGroup gid w = (Inr x, w1)" using eq Inr by simp
    then have "en_move w w1"
      unfolding DeleteGroup_def en_run en_rows
      by (intro move_group_delete [where u = "the (en_uuid_in w gid)"])
        (auto simp: token_view_def same_world_def split: option.splits if_splits)
    then show ?thesis by (simp add: eq)
  next
    case (Inl e)
    have "DeleteGroup gid w = (Inl e, w1)" using eq Inl by simp
    then have "idle w w1"
      unfolding DeleteGroup_def en_run en_rows
      by (auto simp: idle_def same_world_def token_view_def rollback_def split: option.splits if_splits)
    then show ?thesis by (simp add: eq idle_move)
  qed
qed

lemma token_view_delete [simp]: "token_view (delete_agents P w) = token_view w"
  by (simp add: token_view_def delete_agents_def)

lemma delete_agents_frame [simp]:
  "en_agents (delete_agents P w) = filter (\<lambda>r. \<not> P r) (en_agents w)" "en_groups (delete_agents P w) = en_groups w"
  "same_world w (delete_agents P w)"
  by (simp_all add: delete_agents_def same_world_def)

lemma update_agents_frame [simp]:
  "en_agents (snd (update_agents P f w)) = map (\<lambda>r. if P r then f r else r) (en_agents w)"
  "en_groups (snd (update_agents P f w)) = en_groups w" "token_view (snd (update_agents P f w)) = token_view w"
  "same_world w (snd (update_agents P f w))"
  by (simp_all add: update_agents_def update_rows_def same_world_def token_view_def)

lemma same_world_after [simp]: "same_world w (after w)"
  by (simp add: same_world_def)

lemma token_view_after [simp]: "token_view (after w) = token_view w"
  by (simp add: token_view_def)

lemma idle_after [simp]: "idle w (after w)"
  by (simp add: idle_def)

lemma same_world_chain [intro]:
  assumes "same_world w x"
  shows "same_world w (after x)" "same_world w (delete_agents P x)" "same_world w (snd (update_agents Q f x))"
  by (rule same_world_trans [OF assms]; simp)+

lemma idle_chain [intro]: "idle w x \<Longrightarrow> idle w (after x)"
  by (erule idle_trans) simp

lemma delete_agents_move:
  assumes "idle w w1"
  shows "en_move w (delete_agents P w1)" "en_move w (after (delete_agents P w1))"
  by (rule move_delete [where P = P]; use assms in \<open>auto simp: idle_def\<close>)+

lemma ReapDeletedAgents_move: "en_move w (snd (ReapDeletedAgents grace w))"
  by (cases "query w") (auto simp: ReapDeletedAgents_def Let_def split: bool.splits intro: idle_move delete_agents_move)

lemma purge_tables_idle: "purge_tables ts name w = (res, w') \<Longrightarrow> idle w w'"
proof (induction ts arbitrary: w)
  case (Cons t ts)
  obtain b w1 where q: "query w = (b, w1)" by (cases "query w")
  have "idle w (w1\<lparr>en_telemetry := x\<rparr>)" for x
    using q by (simp add: idle_def same_world_def token_view_def)
  with Cons q show ?case
    by (cases b) (auto intro: idle_trans)
qed simp

text \<open>A deletion either changes nothing or removes or tombstones the agent it found.\<close>

lemma DeleteAgent_cases:
  assumes "DeleteAgent aid w = (res, w')"
  obtains (nothing) e where "res = Inl e" "idle w w'"
  | (removed) u a w4 where "en_uuid_in w aid = Some u" "find (\<lambda>r. ag_id r = u) (en_agents w) = Some a" "ag_revoked a"
      "res = Inr \<lparr>dr_Name = ag_name a, dr_WasRevoked = True, dr_SelfUninstall = False\<rparr>"
      "idle w w4" "w' = after (delete_agents (\<lambda>r. ag_id r = u) w4)"
  | (tombstoned) u a w4 where "en_uuid_in w aid = Some u" "find (\<lambda>r. ag_id r = u) (en_agents w) = Some a" "\<not> ag_revoked a"
      "res = Inr \<lparr>dr_Name = ag_name a, dr_WasRevoked = False, dr_SelfUninstall = True\<rparr>"
      "idle w w4"
      "w' = after (snd (update_agents (\<lambda>r. ag_id r = u) (\<lambda>r. r\<lparr>ag_revoked := True, ag_deleted_at := Some (db_clock w4)\<rparr>) w4))"
proof -
  define w2 where "w2 = after (after w)"
  have i2: "idle w w2" unfolding w2_def by (rule idle_trans [OF idle_after idle_after])
  consider (quiet) e where "idle w w'" "res = Inl e"
    | (purge) u a where "en_uuid_in w aid = Some u" "find (\<lambda>r. ag_id r = u) (en_agents w) = Some a"
      "(case purgeAgentTelemetry (ag_name a) w2 of
          (Inl e, w3) \<Rightarrow> (Inl e, rollback w2 w3)
        | (Inr _, w3) \<Rightarrow> if fails w3 then (Inl EnDB, rollback w2 (after w3))
          else let w5 = (if ag_revoked a then delete_agents (\<lambda>r. ag_id r = u) (after w3)
                  else snd (update_agents (\<lambda>r. ag_id r = u) (\<lambda>r. r\<lparr>ag_revoked := True, ag_deleted_at := Some (db_clock (after w3))\<rparr>) (after w3)))
               in if fails w5 then (Inl EnDB, rollback w2 (after w5))
                  else (Inr \<lparr>dr_Name = ag_name a, dr_WasRevoked = ag_revoked a, dr_SelfUninstall = \<not> ag_revoked a\<rparr>, after w5)) = (res, w')"
    using assms unfolding DeleteAgent_def query_eq case_bool_if prod.case Let_def w2_def
    by (auto split: if_splits option.splits simp: i2 [unfolded w2_def])
  then show ?thesis
  proof cases
    case quiet
    then show ?thesis using that(1) by blast
  next
    case purge
    obtain r3 w3 where p: "purgeAgentTelemetry (ag_name a) w2 = (r3, w3)"
      by (cases "purgeAgentTelemetry (ag_name a) w2")
    have i3: "idle w2 w3" using p unfolding purgeAgentTelemetry_def by (rule purge_tables_idle)
    then have s3: "same_world w2 w3" and i4: "idle w (after w3)"
      using i2 by (auto simp: idle_def intro: same_world_trans)
    have roll: "idle w (rollback w2 x)" if "same_world w3 x" for x
      using i2 by (rule idle_rollback) (rule same_world_trans [OF s3 that])
    show ?thesis
    proof (cases "(\<exists>e. r3 = Inl e) \<or> fails w3 \<or> (\<exists>e. res = Inl e)")
      case True
      then have "\<exists>e. res = Inl e \<and> idle w w'"
        using purge(3) p
        by (auto simp: Let_def split: sum.splits if_splits intro!: roll same_world_chain)
      then show ?thesis using that(1) by blast
    next
      case False
      then show ?thesis
        using purge p i4
        by (cases "ag_revoked a") (auto simp: Let_def split: sum.splits if_splits intro: that(2,3))
    qed
  qed
qed

lemma DeleteAgent_move: "en_move w (snd (DeleteAgent aid w))"
proof -
  obtain res w' where eq: "DeleteAgent aid w = (res, w')" by (cases "DeleteAgent aid w")
  then show ?thesis
  proof (cases rule: DeleteAgent_cases)
    case nothing
    then show ?thesis by (simp add: eq idle_move)
  next
    case (removed u a w4)
    then show ?thesis by (simp add: eq delete_agents_move)
  next
    case (tombstoned u a w4)
    let ?f = "\<lambda>r. r\<lparr>ag_revoked := True, ag_deleted_at := Some (db_clock w4)\<rparr>"
    have "tame w ?f" by (simp add: tame_def)
    then have "tame w (\<lambda>r. if ag_id r = u then ?f r else r)" by (rule tame_if)
    then show ?thesis
      by (rule move_update [rotated 1]) (use tombstoned(5,6) in \<open>auto simp: eq idle_def\<close>)
  qed
qed

text \<open>An enrolment either changes nothing or spends its token and writes its agent.\<close>

lemma claim_token_spends:
  assumes "claim_token h w = Some (tenant, w')"
  shows "spends h w w'" "same_world w w'" "en_agents w' = en_agents w" "en_groups w' = en_groups w" "en_issued w' = en_issued w"
    "db_seq w' = db_seq w" "db_clock w' = db_clock w"
proof -
  obtain r where r: "find (claimable h (db_clock w)) (en_tokens w) = Some r"
    and w': "w' = w\<lparr>en_tokens := map (\<lambda>r. if claimable h (db_clock w) r then r\<lparr>tk_used_at := Some (db_clock w)\<rparr> else r) (en_tokens w)\<rparr>"
    using assms by (auto simp: claim_token_def split: option.splits)
  from r have "r \<in> set (en_tokens w)" "claimable h (db_clock w) r"
    by (auto simp: find_Some_iff in_set_conv_nth)
  then have "\<exists>e > db_clock w. (h, None, e) \<in> set (token_view w)"
    by (force simp: claimable_def token_view_def)
  moreover have "token_view w' = map (spend h (db_clock w)) (token_view w)"
    by (auto simp: w' token_view_def spend_def claimable_def)
  ultimately show "spends h w w'" by (simp add: spends_def)
  show "same_world w w'" "en_agents w' = en_agents w" "en_groups w' = en_groups w" "en_issued w' = en_issued w"
    "db_seq w' = db_seq w" "db_clock w' = db_clock w"
    by (simp_all add: w' same_world_def)
qed

lemma spends_cong:
  assumes "spends h w x" "idle w0 w" "db_clock w0 = db_clock w" "token_view w' = token_view x"
  shows "spends h w0 w'"
  using assms by (simp add: spends_def idle_def)

lemma upsert_agent_cases:
  assumes "upsert_agent name os s tenant w = Some (uid, w')"
  obtains (new) "find (\<lambda>r. ag_name r = name) (en_agents w) = None" "uid = db_uuid w (db_seq w)" "db_seq w' = Suc (db_seq w)"
      "en_agents w' = en_agents w @ [new_agent uid name os s tenant (db_clock w)]"
      "w' = w\<lparr>db_seq := Suc (db_seq w), en_agents := en_agents w'\<rparr>"
  | (again) r where "find (\<lambda>r. ag_name r = name) (en_agents w) = Some r" "ag_revoked r" "uid = ag_id r"
      "en_agents w' = map (\<lambda>a. if ag_name a = name then taken_over os s tenant (db_clock w) a else a) (en_agents w)"
      "w' = w\<lparr>en_agents := en_agents w'\<rparr>"
  using assms by (auto simp: upsert_agent_def fresh_id_def split: option.splits if_splits)

lemma Enroll_cases:
  assumes "Enroll raw name os w = (res, w')"
  obtains (failed) e where "res = Inl e" "idle w w'"
  | (enrolled) tenant w3 cert key s uid w6 where "name \<noteq> []"
      "claim_token (en_sha w raw) (after (after w)) = Some (tenant, w3)"
      "en_cert w (en_issued w) name = Some (cert, key, s)"
      "upsert_agent name os s tenant (after (w3\<lparr>en_issued := Suc (en_issued w)\<rparr>)) = Some (uid, w6)"
      "w' = after ((after w6)\<lparr>en_tokens := map (\<lambda>r. if tk_hash r = en_sha w raw then r\<lparr>tk_used_by_agent := Some uid\<rparr> else r)
              (en_tokens w6)\<rparr>)"
      "\<exists>b. res = Inr b \<and> bn_AgentID b = uid \<and> bn_Name b = name \<and> bn_ClientCert b = cert"
proof (cases "name = [] \<or> fails w \<or> fails (after w) \<or> claim_token (en_sha w raw) (after (after w)) = None")
  case True
  then have "(\<exists>e. res = Inl e) \<and> idle w w'"
    using assms unfolding Enroll_def query_eq case_bool_if prod.case Let_def token_hash_of_def
    by (auto split: if_splits intro: idle_chain)
  then show ?thesis using failed by blast
next
  case False
  then obtain tenant w3 where c: "claim_token (en_sha w raw) (after (after w)) = Some (tenant, w3)" by auto
  let ?w2 = "after (after w)"
  let ?w4 = "w3\<lparr>en_issued := Suc (en_issued w)\<rparr>"
  have w3: "en_issued w3 = en_issued w" "en_cert w3 = en_cert w" "same_world w w3" "same_world ?w2 w3"
    using claim_token_spends [OF c] by (auto simp: same_world_def)
  have roll: "idle w (rollback ?w2 x)" if "same_world ?w4 x" for x
    by (rule idle_rollback) (use that w3 in \<open>auto simp: same_world_def\<close>)
  have ups: "same_world ?w4 w6"
    if "upsert_agent name os s tenant (after ?w4) = Some (uid, w6)" for s uid w6
    using that by (cases rule: upsert_agent_cases; auto simp: same_world_def)
  have tok: "same_world x (y\<lparr>en_tokens := z\<rparr>)" if "same_world x y" for x y z
    using that by (simp add: same_world_def)
  note E = assms [unfolded Enroll_def query_eq case_bool_if prod.case Let_def token_hash_of_def IssueClient_def]
  show ?thesis
  proof (cases "\<exists>e. res = Inl e")
    case True
    then have "idle w w'"
      using E False c w3 by (auto split: option.splits if_splits dest!: ups intro!: roll same_world_chain(1) tok)
    with True failed show ?thesis by blast
  next
    case ok: False
    obtain cert key s where i: "en_cert w (en_issued w) name = Some (cert, key, s)"
      using E ok False c w3 by (auto split: option.splits if_splits)
    obtain uid w6 where u: "upsert_agent name os s tenant (after ?w4) = Some (uid, w6)"
      using E ok False c w3 i by (auto split: option.splits if_splits)
    show ?thesis
      by (rule enrolled [OF _ c i u]) (use E ok False c w3 i u in \<open>auto split: if_splits\<close>)
  qed
qed

lemma token_view_by [simp]: "token_view (w\<lparr>en_tokens := map (\<lambda>r. if P r then r\<lparr>tk_used_by_agent := x\<rparr> else r) (en_tokens w')\<rparr>) = token_view w'"
  by (simp add: token_view_def)

lemma Enroll_enrolled:
  assumes "Enroll raw name os w = (Inr b, w')"
  obtains tenant s where "same_world w w'" "spends (en_sha w raw) w w'" "en_groups w' = en_groups w" "fresh_serial w w' name s"
      "find (\<lambda>r. ag_name r = name) (en_agents w) = None" "db_seq w < db_seq w'" "bn_Name b = name"
      "en_agents w' = en_agents w @ [new_agent (db_uuid w (db_seq w)) name os s tenant (db_clock w)]"
  | tenant s r where "same_world w w'" "spends (en_sha w raw) w w'" "en_groups w' = en_groups w" "fresh_serial w w' name s"
      "find (\<lambda>r. ag_name r = name) (en_agents w) = Some r" "ag_revoked r" "bn_Name b = name"
      "en_agents w' = map (\<lambda>a. if ag_name a = name then taken_over os s tenant (db_clock w) a else a) (en_agents w)"
  using assms
proof (cases rule: Enroll_cases)
  case (enrolled tenant w3 cert key s uid w6)
  note c = claim_token_spends [OF enrolled(2)]
  have sp: "spends (en_sha w raw) w w'" if "token_view w6 = token_view w3"
    by (rule spends_cong [OF c(1)]) (use enrolled(5) that in \<open>auto simp: idle_def intro: same_world_chain\<close>)
  from enrolled(4) show ?thesis
  proof (cases rule: upsert_agent_cases)
    case new
    have t: "token_view w6 = token_view w3" by (subst new(5)) (simp add: token_view_def)
    show ?thesis
      by (rule that(1) [of s tenant]; use sp [OF t] new c enrolled in \<open>auto simp: same_world_def fresh_serial_def\<close>)
  next
    case (again r)
    have t: "token_view w6 = token_view w3" by (subst again(5)) (simp add: token_view_def)
    show ?thesis
      by (rule that(2) [of s r tenant]; use sp [OF t] again c enrolled in \<open>auto simp: same_world_def fresh_serial_def\<close>)
  qed
qed simp

lemma Enroll_move: "en_move w (snd (Enroll raw name os w))"
proof -
  obtain res w' where eq: "Enroll raw name os w = (res, w')" by (cases "Enroll raw name os w")
  show ?thesis
  proof (cases res)
    case (Inl e)
    with eq have "idle w w'" by (auto elim: Enroll_cases)
    then show ?thesis by (simp add: eq idle_move)
  next
    case (Inr b)
    with eq have "Enroll raw name os w = (Inr b, w')" by simp
    then show ?thesis
    proof (cases rule: Enroll_enrolled)
      case (1 tenant s)
      show ?thesis unfolding eq snd_conv by (rule move_new [OF 1(1-4) refl 1(6) _ 1(8)]) (use 1(5) in \<open>auto simp: find_None_iff\<close>)
    next
      case (2 tenant s r)
      then show ?thesis by (auto simp: eq intro: move_again)
    qed
  qed
qed

section \<open>Runs\<close>

text \<open>The operations, and time passing with statements about to fail.\<close>

datatype en_op =
  OpCreateToken string string
| OpEnroll string string string
| OpRevoke string
| OpDelete string
| OpReap duration
| OpMarkSeen string
| OpMarkHealth string bool string
| OpMarkHealthWithVersion string bool string string string
| OpRequestUpdate string
| OpSetConfig string "source list"
| OpClearConfig string
| OpCreateGroup string string "source list"
| OpSetGroupConfig string "source list"
| OpDeleteGroup string
| OpSetAgentGroup string string
| OpWait duration "bool list"

fun exec_op :: "en_op \<Rightarrow> enroll_db \<Rightarrow> enroll_db" where
  "exec_op (OpCreateToken c t) w = snd (CreateToken c t w)"
| "exec_op (OpEnroll raw name os) w = snd (Enroll raw name os w)"
| "exec_op (OpRevoke a) w = snd (Revoke a w)"
| "exec_op (OpDelete a) w = snd (DeleteAgent a w)"
| "exec_op (OpReap g) w = snd (ReapDeletedAgents g w)"
| "exec_op (OpMarkSeen n) w = snd (MarkSeen n w)"
| "exec_op (OpMarkHealth n d t) w = snd (MarkHealth n d t w)"
| "exec_op (OpMarkHealthWithVersion n d t v m) w = snd (MarkHealthWithVersion n d t v m w)"
| "exec_op (OpRequestUpdate n) w = snd (RequestAgentUpdate n w)"
| "exec_op (OpSetConfig a ss) w = snd (SetAgentConfig a ss w)"
| "exec_op (OpClearConfig a) w = snd (ClearConfig a w)"
| "exec_op (OpCreateGroup n d ss) w = snd (CreateGroup n d ss w)"
| "exec_op (OpSetGroupConfig g ss) w = snd (SetGroupConfig g ss w)"
| "exec_op (OpDeleteGroup g) w = snd (DeleteGroup g w)"
| "exec_op (OpSetAgentGroup a g) w = snd (SetAgentGroup a g w)"
| "exec_op (OpWait d fs) w = w\<lparr>db_clock := db_clock w + max 0 d, db_faults := fs\<rparr>"

text \<open>The token, the name and the moment of a successful enrolment.\<close>

fun redeemed :: "en_op \<Rightarrow> enroll_db \<Rightarrow> (string \<times> string \<times> gotime) list" where
  "redeemed (OpEnroll raw name os) w =
     (case fst (Enroll raw name os w) of Inl _ \<Rightarrow> [] | Inr b \<Rightarrow> [(en_sha w raw, bn_Name b, db_clock w)])"
| "redeemed _ w = []"

lemma exec_op_move: "en_move w (exec_op op w)"
proof (cases op)
  case (OpWait d fs)
  then show ?thesis by (auto simp: idle_def same_world_def token_view_def intro: idle_move)
qed (simp_all add: CreateToken_move Enroll_move Revoke_move DeleteAgent_move ReapDeletedAgents_move MarkSeen_move
    MarkHealth_move MarkHealthWithVersion_move RequestAgentUpdate_move SetAgentConfig_move ClearConfig_move
    CreateGroup_move SetGroupConfig_move DeleteGroup_move SetAgentGroup_move)

inductive en_reach :: "enroll_db \<Rightarrow> (string \<times> string \<times> gotime) list \<Rightarrow> bool" where
  reach_start: "en_agents w = [] \<Longrightarrow> en_tokens w = [] \<Longrightarrow> en_groups w = [] \<Longrightarrow> en_reach w []"
| reach_op: "en_reach w l \<Longrightarrow> en_reach (exec_op op w) (l @ redeemed op w)"

end
