(* ===== verification/Enrollment_Props.thy ===== *)
theory Enrollment_Props
  imports Enrollment_Moves
begin

text \<open>
  What holds of the agents, tokens and groups however the operations of \<^verbatim>\<open>internal/enroll\<close> are
  interleaved: a token enrolls once, a refused certificate stays refused while its name has a row, and a
  change of an agent's configuration raises its revision.
\<close>

section \<open>Invariants\<close>

text \<open>Names, identifiers and hashes are keys; a group assignment refers to a group.\<close>

definition en_wf :: "enroll_db \<Rightarrow> bool" where
  "en_wf w \<longleftrightarrow> distinct (map ag_name (en_agents w)) \<and> distinct (map ag_id (en_agents w)) \<and>
     ag_id ` set (en_agents w) \<subseteq> used_ids w \<and> distinct (map gr_id (en_groups w)) \<and> gr_id ` set (en_groups w) \<subseteq> used_ids w \<and>
     (\<forall>r \<in> set (en_agents w). ag_group_id r = None \<or> ag_group_id r \<in> Some ` gr_id ` set (en_groups w)) \<and>
     distinct (map fst (token_view w))"

lemma used_ids_grow:
  assumes "same_world w w'" shows "used_ids w \<subseteq> used_ids w'"
  using assms by (auto simp: used_ids_def same_world_def)

lemma used_ids_next:
  assumes "same_world w w'" "db_seq w < db_seq w'" shows "db_uuid w (db_seq w) \<in> used_ids w'"
  using assms by (auto simp: used_ids_def same_world_def)

lemma fst_spend [simp]: "fst (spend h t x) = fst x"
  by (cases x) (simp add: spend_def)

lemma spends_hashes: "spends h w w' \<Longrightarrow> map fst (token_view w') = map fst (token_view w)"
  by (simp add: spends_def o_def)

lemma distinct_map_filterI: "distinct (map f xs) \<Longrightarrow> distinct (map f (filter P xs))"
  by (simp add: distinct_map inj_on_def)

lemma map_if_keep:
  assumes "\<And>x. k (f x) = k x"
  shows "map (\<lambda>x. k (if P x then f x else x)) xs = map k xs"
  using assms by (intro map_cong) auto

lemma new_agent_sel [simp]:
  "ag_id (new_agent u n os s tn t) = u" "ag_name (new_agent u n os s tn t) = n" "ag_cert_serial (new_agent u n os s tn t) = Some s"
  "ag_group_id (new_agent u n os s tn t) = None" "ag_revoked (new_agent u n os s tn t) = False" "ag_config_rev (new_agent u n os s tn t) = 0"
  by (simp_all add: new_agent_def)

lemma taken_over_sel [simp]:
  "ag_id (taken_over os s tn t r) = ag_id r" "ag_name (taken_over os s tn t r) = ag_name r" "ag_cert_serial (taken_over os s tn t r) = Some s"
  "ag_group_id (taken_over os s tn t r) = ag_group_id r" "ag_revoked (taken_over os s tn t r) = False"
  "ag_config_rev (taken_over os s tn t r) = ag_config_rev r"
  by (simp_all add: taken_over_def)

lemma en_wf_frame:
  assumes "en_wf w" "same_world w w'" "map ag_name (en_agents w') = map ag_name (en_agents w)"
    "map ag_id (en_agents w') = map ag_id (en_agents w)" "map gr_id (en_groups w') = map gr_id (en_groups w)"
    "map fst (token_view w') = map fst (token_view w)"
    "\<forall>r \<in> set (en_agents w'). ag_group_id r = None \<or> ag_group_id r \<in> Some ` gr_id ` set (en_groups w)"
  shows "en_wf w'"
proof -
  have "ag_id ` set (en_agents w') = ag_id ` set (en_agents w)" "gr_id ` set (en_groups w') = gr_id ` set (en_groups w)"
    using assms(4,5) by (metis list.set_map)+
  then show ?thesis
    using assms(1,3-7) used_ids_grow [OF assms(2)] unfolding en_wf_def by (simp add: subset_trans [of _ "used_ids w" "used_ids w'"])
qed

lemma en_wf_move:
  assumes "en_move w w'" "en_wf w" "inj (db_uuid w)"
  shows "en_wf w'"
  using assms(1)
proof cases
  case (move_update f)
  then have k: "map ag_name (en_agents w') = map ag_name (en_agents w)" "map ag_id (en_agents w') = map ag_id (en_agents w)"
    by (simp_all add: tame_def)
  have "\<forall>r \<in> set (en_agents w'). ag_group_id r = None \<or> ag_group_id r \<in> Some ` gr_id ` set (en_groups w)"
    using move_update(2,3) assms(2) unfolding tame_def en_wf_def by (smt (verit) imageE list.set_map)
  with move_update k show ?thesis by (intro en_wf_frame [OF assms(2)]) simp_all
next
  case (move_token h e)
  then show ?thesis using assms(2) used_ids_grow [OF move_token(1)] by (auto simp: en_wf_def)
next
  case (move_new h name s uid os tenant t)
  have "db_uuid w (db_seq w) \<notin> used_ids w" using assms(3) by (rule fresh_id_not_used)
  then show ?thesis
    using move_new assms(2) used_ids_grow [OF move_new(1)] used_ids_next [OF move_new(1,6)] spends_hashes [OF move_new(2)]
    by (auto simp: en_wf_def)
next
  case (move_again h name s r os tenant t)
  then show ?thesis
    using assms(2) spends_hashes [OF move_again(2)]
    by (intro en_wf_frame [OF assms(2)]) (auto simp: en_wf_def o_def map_if_keep)
next
  case (move_delete P)
  then show ?thesis
    using assms(2) used_ids_grow [OF move_delete(1)] by (auto simp: en_wf_def distinct_map_filterI)
next
  case (move_group_add g)
  have "db_uuid w (db_seq w) \<notin> used_ids w" using assms(3) by (rule fresh_id_not_used)
  then show ?thesis
    using move_group_add assms(2) used_ids_grow [OF move_group_add(1)] used_ids_next [OF move_group_add(1,5)]
    by (auto simp: en_wf_def)
next
  case (move_group_set u c)
  then show ?thesis
    using assms(2) by (intro en_wf_frame [OF assms(2)]) (force simp: en_wf_def intro!: map_cong)+
next
  case (move_group_delete u)
  then have k: "map ag_name (en_agents w') = map ag_name (en_agents w)" "map ag_id (en_agents w') = map ag_id (en_agents w)"
    by (auto intro!: map_cong)
  from k have ids: "ag_id ` set (en_agents w') = ag_id ` set (en_agents w)" by (metis list.set_map)
  have "\<forall>r \<in> set (en_agents w'). ag_group_id r = None \<or> ag_group_id r \<in> Some ` gr_id ` set (en_groups w')"
    using assms(2) move_group_delete(3,4) by (auto simp: en_wf_def)
  then show ?thesis
    using assms(2) used_ids_grow [OF move_group_delete(1)] k ids move_group_delete(2,4)
    unfolding en_wf_def by (simp add: distinct_map_filterI) blast
qed

definition en_inv :: "enroll_db \<Rightarrow> (string \<times> string \<times> gotime) list \<Rightarrow> bool" where
  "en_inv w l \<longleftrightarrow> distinct (map fst l) \<and> (\<forall>(h, n, t) \<in> set l. \<exists>e > t. (h, Some t, e) \<in> set (token_view w))"

text \<open>A used token stays as it is.\<close>

lemma used_token_stays:
  assumes "en_move w w'" "(h, Some t, e) \<in> set (token_view w)"
  shows "(h, Some t, e) \<in> set (token_view w')"
proof -
  have sp: "(h, Some t, e) \<in> spend k c ` set (token_view w)" for k c
    using assms(2) by (rule rev_image_eqI) (simp add: spend_def)
  show ?thesis
    using assms(1) by (cases; use sp assms(2) in \<open>auto simp: spends_def\<close>)
qed

lemma en_inv_move:
  assumes "en_move w w'" "en_inv w l"
  shows "en_inv w' l"
  using assms(2) used_token_stays [OF assms(1)] unfolding en_inv_def by fast

text \<open>A redeemed token was unused before and is used afterwards.\<close>

lemma redeemed_fresh:
  assumes "en_wf w" "(h, n, t) \<in> set (redeemed op w)"
  shows "(h, Some u, e) \<notin> set (token_view w)" "\<exists>e > t. (h, Some t, e) \<in> set (token_view (exec_op op w))"
proof -
  obtain raw name os where op: "op = OpEnroll raw name os" using assms(2) by (cases op) simp_all
  obtain res w' where E': "Enroll raw name os w = (res, w')" by (cases "Enroll raw name os w")
  obtain b where E: "Enroll raw name os w = (Inr b, w')" and h: "h = en_sha w raw" "t = db_clock w"
    using assms(2) E' by (auto simp: op split: sum.splits)
  have sp: "spends h w w'" using E by (cases rule: Enroll_enrolled) (simp_all add: h)
  then obtain e' where e': "e' > t" "(h, None, e') \<in> set (token_view w)" by (auto simp: spends_def h)
  show "(h, Some u, e) \<notin> set (token_view w)"
  proof
    assume "(h, Some u, e) \<in> set (token_view w)"
    with e'(2) assms(1) show False unfolding en_wf_def by (metis (no_types, lifting) distinct_map fst_conv inj_onD option.discI prod.inject)
  qed
  have "spend h t (h, None, e') = (h, Some t, e')" using e'(1) by (simp add: spend_def)
  with sp e' have "(h, Some t, e') \<in> set (token_view w')" unfolding spends_def h(2) by (metis image_eqI list.set_map)
  with e'(1) show "\<exists>e > t. (h, Some t, e) \<in> set (token_view (exec_op op w))" by (auto simp: op E)
qed

lemma redeemed_short: "redeemed op w = [] \<or> (\<exists>x. redeemed op w = [x])"
  by (cases "(op, w)" rule: redeemed.cases) (auto split: sum.splits)

lemma reach_uuid: "en_reach w l \<Longrightarrow> inj (db_uuid w) \<Longrightarrow> en_wf w \<and> en_inv w l"
proof (induction rule: en_reach.induct)
  case (reach_start w)
  then show ?case by (simp add: en_wf_def en_inv_def token_view_def)
next
  case (reach_op w l op)
  have m: "en_move w (exec_op op w)" by (rule exec_op_move)
  then have "db_uuid (exec_op op w) = db_uuid w" by cases (simp_all add: same_world_def)
  with reach_op have IH: "en_wf w" "en_inv w l" and inj: "inj (db_uuid w)" by simp_all
  have wf: "en_wf (exec_op op w)" using m IH(1) inj by (rule en_wf_move)
  have inv: "en_inv (exec_op op w) l" using m IH(2) by (rule en_inv_move)
  show ?case
  proof (cases "redeemed op w")
    case Nil
    with wf inv show ?thesis by simp
  next
    case (Cons x xs)
    then obtain h n t where r: "redeemed op w = [(h, n, t)]" using redeemed_short [of op w] by (cases x) auto
    have "h \<notin> fst ` set l"
      using redeemed_fresh(1) [OF IH(1), of h n t op] r IH(2) by (fastforce simp: en_inv_def)
    then show ?thesis
      using wf inv redeemed_fresh(2) [OF IH(1), of h n t op] r by (auto simp: en_inv_def)
  qed
qed

text \<open>
  C20: an enrolment token registers at most one agent. Over every run of the operations, the tokens of the
  successful enrolments are pairwise different, and each was used before it expired.
\<close>

theorem token_enrolls_once:
  assumes "en_reach w l" "inj (db_uuid w)"
  shows "distinct (map fst l) \<and> (\<forall>(h, n, t) \<in> set l. \<exists>r \<in> set (en_tokens w). tk_hash r = h \<and> tk_used_at r = Some t \<and> t < tk_expires_at r)"
  using reach_uuid [OF assms] by (force simp: en_inv_def token_view_def image_iff)

section \<open>Lock-out\<close>

text \<open>The certificate of serial \<open>s\<close> for the name \<open>n\<close> cannot pass as long as the name has a row.\<close>

definition locked :: "string \<Rightarrow> string \<Rightarrow> enroll_db \<Rightarrow> bool" where
  "locked n s w \<longleftrightarrow> (\<forall>r \<in> set (en_agents w). ag_name r = n \<longrightarrow>
     ag_revoked r \<or> (\<exists>x. ag_cert_serial r = Some x \<and> x \<noteq> [] \<and> x \<noteq> s))"

definition later_serials_differ :: "string \<Rightarrow> enroll_db \<Rightarrow> bool" where
  "later_serials_differ s w \<longleftrightarrow> (\<forall>k \<ge> en_issued w. \<forall>n c p x. en_cert w k n = Some (c, p, x) \<longrightarrow> x \<noteq> [] \<and> x \<noteq> s)"

lemma later_serials_same:
  assumes "same_world w w'" "later_serials_differ s w" shows "later_serials_differ s w'"
  using assms unfolding later_serials_differ_def same_world_def by (metis order_trans)

lemma fresh_serial_differs:
  assumes "fresh_serial w w' n x" "later_serials_differ s w" shows "x \<noteq> [] \<and> x \<noteq> s"
  using assms unfolding fresh_serial_def later_serials_differ_def by blast

lemma move_world: "en_move w w' \<Longrightarrow> same_world w w'"
  by (erule en_move.cases) simp_all

lemma locked_move:
  assumes "en_move w w'" "locked n s w" "later_serials_differ s w"
  shows "locked n s w'"
  using assms(1)
proof cases
  case (move_update f)
  then show ?thesis using assms(2) by (fastforce simp: locked_def tame_def)
next
  case (move_new h name x uid os tenant t)
  then show ?thesis using assms(2) fresh_serial_differs [OF move_new(4) assms(3)] by (auto simp: locked_def)
next
  case (move_again h name x r os tenant t)
  then show ?thesis using assms(2) fresh_serial_differs [OF move_again(4) assms(3)] by (auto simp: locked_def)
qed (use assms(2) in \<open>auto simp: locked_def\<close>)

lemma IsRevoked_locked:
  assumes "locked n s w" "s \<noteq> []" "r \<in> set (en_agents w)" "ag_name r = n"
  shows "fst (IsRevoked n s w) = (if fails w then Inl EnDB else Inr True)"
proof -
  from assms(3,4) obtain a where a: "find (\<lambda>r. ag_name r = n) (en_agents w) = Some a"
    by (cases "find (\<lambda>r. ag_name r = n) (en_agents w)") (auto simp: find_None_iff)
  then have "a \<in> set (en_agents w)" "ag_name a = n" by (auto simp: find_Some_iff in_set_conv_nth)
  with assms(1) have "ag_revoked a \<or> (\<exists>x. ag_cert_serial a = Some x \<and> x \<noteq> [] \<and> x \<noteq> s)" by (auto simp: locked_def)
  with a assms(2) show ?thesis
    unfolding IsRevoked_def query_eq case_bool_if prod.case by (auto split: option.splits)
qed

lemma refused_locked:
  assumes "fst (IsRevoked n s w) = Inr True" "en_wf w"
  shows "locked n s w"
proof -
  obtain a where a: "find (\<lambda>r. ag_name r = n) (en_agents w) = Some a"
    and k: "ag_revoked a \<or> (\<exists>x. ag_cert_serial a = Some x \<and> x \<noteq> [] \<and> x \<noteq> s)"
    using assms(1) unfolding IsRevoked_def query_eq case_bool_if prod.case
    by (auto split: if_splits option.splits)
  then have in_a: "a \<in> set (en_agents w)" "ag_name a = n" by (auto simp: find_Some_iff in_set_conv_nth)
  have "r = a" if "r \<in> set (en_agents w)" "ag_name r = n" for r
    using in_a that assms(2) unfolding en_wf_def by (metis distinct_map inj_onD)
  with k show ?thesis by (auto simp: locked_def)
qed

lemma exec_ops_locked:
  "locked n s w \<Longrightarrow> later_serials_differ s w \<Longrightarrow> locked n s (fold exec_op ops w)"
proof (induction ops arbitrary: w)
  case (Cons op ops)
  have m: "en_move w (exec_op op w)" by (rule exec_op_move)
  show ?case
    using Cons.IH [OF locked_move [OF m Cons.prems] later_serials_same [OF move_world [OF m] Cons.prems(2)]] by simp
qed simp

text \<open>
  once the gateway's check refuses a certificate (its agent is revoked, or the name was enrolled again),
  it refuses it after any further operations, re-enrolment of the name included, as long as the agents table
  has a row of that name. The hypothesis on serials is that the authority does not issue the same one again.
\<close>

theorem locked_certificate_stays_locked:
  assumes "en_reach w l" "inj (db_uuid w)" "fst (IsRevoked n s w) = Inr True" "s \<noteq> []" "later_serials_differ s w"
    and "r \<in> set (en_agents (fold exec_op ops w))" "ag_name r = n"
  shows "fst (IsRevoked n s (fold exec_op ops w)) = (if fails (fold exec_op ops w) then Inl EnDB else Inr True)"
proof -
  have "locked n s w" using assms(3) reach_uuid [OF assms(1,2)] by (blast intro: refused_locked)
  then have "locked n s (fold exec_op ops w)" using assms(5) by (rule exec_ops_locked)
  then show ?thesis using assms(4,6,7) by (rule IsRevoked_locked)
qed

text \<open>
  deleting an agent that is already revoked readmits its certificates. The row whose survival is what
  keeps them locked out is removed, and the check then answers \<^verbatim>\<open>false\<close> for every serial.
\<close>

theorem deleting_revoked_readmits:
  assumes "en_reach w l" "inj (db_uuid w)" "DeleteAgent aid w = (Inr res, w')" "dr_WasRevoked res"
  shows "fst (IsRevoked (dr_Name res) s w') = (if fails w' then Inl EnDB else Inr False)"
  using assms(3)
proof (cases rule: DeleteAgent_cases)
  case (removed u a w4)
  have a: "a \<in> set (en_agents w)" "ag_id a = u" using removed(2) by (auto simp: find_Some_iff in_set_conv_nth)
  have wf: "distinct (map ag_name (en_agents w))" using reach_uuid [OF assms(1,2)] by (simp add: en_wf_def)
  have "r = a" if "r \<in> set (en_agents w)" "ag_name r = ag_name a" for r
    using wf a(1) that by (metis distinct_map inj_onD)
  then have "find (\<lambda>r. ag_name r = ag_name a) (en_agents w') = None"
    using removed(5,6) a(2) by (auto simp: find_None_iff idle_def)
  then show ?thesis
    using removed(4) unfolding IsRevoked_def query_eq case_bool_if prod.case by simp
qed (use assms(4) in auto)

section \<open>Configuration\<close>

text \<open>What an agent is served, but for the version.\<close>

definition served :: "enroll_db \<Rightarrow> agent_row \<Rightarrow> agent_config option" where
  "served w r = effectiveConfig (ag_config r) (ag_config_is_override r) (group_config (en_groups w) r)"

lemma served_same:
  assumes "ag_config r' = ag_config r" "ag_config_is_override r' = ag_config_is_override r" "ag_group_id r' = ag_group_id r"
    "\<And>g. ag_group_id r = Some g \<Longrightarrow> find (\<lambda>x. gr_id x = g) (en_groups w') = find (\<lambda>x. gr_id x = g) (en_groups w)"
  shows "served w' r' = served w r"
  using assms by (auto simp: served_def group_config_def split: option.splits)

lemma find_append: "find P (xs @ ys) = (case find P xs of None \<Rightarrow> find P ys | Some x \<Rightarrow> Some x)"
  by (induction xs) auto

lemma find_group_set: "g \<noteq> u \<Longrightarrow>
  find (\<lambda>x. gr_id x = g) (map (\<lambda>x. if gr_id x = u then x\<lparr>gr_config := c\<rparr> else x) gs) = find (\<lambda>x. gr_id x = g) gs"
  by (induction gs) auto

lemma find_group_delete: "g \<noteq> u \<Longrightarrow> find (\<lambda>x. gr_id x = g) (filter (\<lambda>x. gr_id x \<noteq> u) gs) = find (\<lambda>x. gr_id x = g) gs"
  by (induction gs) auto

lemma rev_move:
  assumes "en_move w w'" "en_wf w" "inj (db_uuid w)"
    and r: "r \<in> set (en_agents w)" "r' \<in> set (en_agents w')" "ag_id r' = ag_id r"
  shows "ag_config_rev r \<le> ag_config_rev r' \<and> (\<not> ag_revoked r \<longrightarrow> served w' r' \<noteq> served w r \<longrightarrow> ag_config_rev r < ag_config_rev r')"
proof -
  have ids: "x = y" if "x \<in> set (en_agents w)" "y \<in> set (en_agents w)" "ag_id x = ag_id y" for x y
    using assms(2) that unfolding en_wf_def by (metis distinct_map inj_onD)
  have unchanged: ?thesis if "r' \<in> set (en_agents w)" "en_groups w' = en_groups w"
    using ids [OF that(1) r(1) r(3)] that(2) by (simp add: served_def)
  from assms(1) show ?thesis
  proof cases
    case (move_update f)
    then obtain x where x: "x \<in> set (en_agents w)" "r' = f x" using r(2) by auto
    with move_update(2) r(3) have "x = r" by (intro ids [OF x(1) r(1)]) (simp add: tame_def)
    with x have "r' = f r" by simp
    with move_update(2) show ?thesis
      using served_same [of r' r w' w] move_update(5) unfolding tame_def by (metis order_le_less)
  next
    case (move_token h e)
    with r(2) unchanged show ?thesis by simp
  next
    case (move_new h name s uid os tenant t)
    have "db_uuid w (db_seq w) \<notin> used_ids w" using assms(3) by (rule fresh_id_not_used)
    moreover have "ag_id r \<in> used_ids w" using assms(2) r(1) by (auto simp: en_wf_def)
    ultimately have "r' \<in> set (en_agents w)" using move_new(5,8) r(2,3) by auto
    with move_new(3) unchanged show ?thesis by simp
  next
    case (move_again h name s a os tenant t)
    then obtain x where x: "x \<in> set (en_agents w)" "r' = (if ag_name x = name then taken_over os s tenant t x else x)"
      using r(2) by auto
    with r(3) have "x = r" by (intro ids [OF x(1) r(1)]) (auto split: if_splits)
    have "ag_revoked r" if "ag_name r = name"
    proof -
      have "a \<in> set (en_agents w)" "ag_name a = name" using move_again(5) by (auto simp: find_Some_iff in_set_conv_nth)
      then have "a = r" using that r(1) assms(2) unfolding en_wf_def by (metis distinct_map inj_onD)
      with move_again(6) show ?thesis by simp
    qed
    with x \<open>x = r\<close> move_again(3) show ?thesis by (auto simp: served_def)
  next
    case (move_delete P)
    with r(2) unchanged show ?thesis by simp
  next
    case (move_group_add g)
    then have "r' = r" using ids [of r' r] r by simp
    moreover have "served w' r = served w r"
    proof (rule served_same)
      fix k assume "ag_group_id r = Some k"
      then have "\<exists>x \<in> set (en_groups w). gr_id x = k" using assms(2) r(1) by (fastforce simp: en_wf_def)
      then show "find (\<lambda>x. gr_id x = k) (en_groups w') = find (\<lambda>x. gr_id x = k) (en_groups w)"
        using move_group_add(6) by (auto simp: find_append find_None_iff split: option.splits)
    qed simp_all
    ultimately show ?thesis by simp
  next
    case (move_group_set u c)
    then obtain x where x: "x \<in> set (en_agents w)"
      "r' = (if ag_group_id x = Some u \<and> \<not> ag_revoked x then x\<lparr>ag_config_rev := ag_config_rev x + 1\<rparr> else x)"
      using r(2) by auto
    with r(3) have "x = r" by (intro ids [OF x(1) r(1)]) (auto split: if_splits)
    have "served w' r = served w r" if "ag_group_id r \<noteq> Some u"
      by (rule served_same) (use that move_group_set(4) find_group_set in auto)
    with x \<open>x = r\<close> show ?thesis by auto
  next
    case (move_group_delete u)
    then obtain x where x: "x \<in> set (en_agents w)"
      "r' = (if ag_group_id x = Some u then x\<lparr>ag_config_rev := ag_config_rev x + 1, ag_group_id := None\<rparr> else x)"
      using r(2) by auto
    with r(3) have "x = r" by (intro ids [OF x(1) r(1)]) (auto split: if_splits)
    have "served w' r = served w r" if "ag_group_id r \<noteq> Some u"
      by (rule served_same) (use that move_group_delete(4) find_group_delete in auto)
    with x \<open>x = r\<close> show ?thesis by auto
  qed
qed

text \<open>
  C21: the revision an agent is served never goes down, and every operation that changes what a registered,
  unrevoked agent is served (its own configuration, its group assignment, its group's configuration or the
  group's deletion) raises it strictly.
\<close>

theorem config_change_raises_revision:
  assumes "en_reach w l" "inj (db_uuid w)" "r \<in> set (en_agents w)" "r' \<in> set (en_agents (exec_op op w))" "ag_id r' = ag_id r"
  shows "ag_config_rev r \<le> ag_config_rev r' \<and>
    (\<not> ag_revoked r \<longrightarrow> served (exec_op op w) r' \<noteq> served w r \<longrightarrow> ag_config_rev r < ag_config_rev r')"
  using exec_op_move conjunct1 [OF reach_uuid [OF assms(1,2)]] assms(2-5) by (rule rev_move)

section \<open>An example run\<close>

definition demo_world :: enroll_db where
  "demo_world = \<lparr>db_faults = [], db_clock = 0, db_uuid = (\<lambda>n. replicate n CHR ''u''), db_seq = 0, en_agents = [], en_tokens = [],
     en_groups = [], en_telemetry = [], en_uuid_in = Some, en_lower = to_lower, en_rank = (\<lambda>s. 0), en_rand = (\<lambda>n. Some (replicate n CHR ''r'')),
     en_draws = 0, en_sha = (\<lambda>s. CHR ''h'' # s),
     en_cert = (\<lambda>n name. Some (''cert'', ''key'', replicate (Suc n) CHR ''s'')), en_issued = 0, en_ca = ''ca''\<rparr>"

definition demo_ops :: "en_op list" where
  "demo_ops = [OpCreateToken ''admin'' [], OpEnroll [] ''web-1'' ''linux'', OpCreateToken ''admin'' []]"

lemma inj_replicate: "inj (\<lambda>n. replicate n c)"
  by (rule injI) (metis length_replicate)

lemma exec_op_uuid [simp]: "db_uuid (exec_op op w) = db_uuid w"
  using move_world [OF exec_op_move] by (simp add: same_world_def)

lemma enroll_demo_inj: "inj (db_uuid (fold exec_op ops demo_world))"
proof -
  have "db_uuid (fold exec_op ops w) = db_uuid w" for w
    by (induction ops arbitrary: w) simp_all
  then show ?thesis by (simp add: demo_world_def inj_replicate)
qed

lemma reach_ops: "en_reach w l \<Longrightarrow> \<exists>l'. en_reach (fold exec_op ops w) l'"
proof (induction ops arbitrary: w l)
  case (Cons op ops)
  from Cons.IH [OF reach_op [OF Cons.prems]] show ?case by simp
qed auto

lemma enroll_reach_wf:
  assumes "en_reach w l" "inj (db_uuid w)"
  shows "en_wf (fold exec_op ops w)"
proof -
  obtain l' where "en_reach (fold exec_op ops w) l'" using reach_ops [OF assms(1)] by blast
  moreover have "db_uuid (fold exec_op ops w) = db_uuid w" by (induction ops arbitrary: w) simp_all
  ultimately show ?thesis using reach_uuid assms(2) by metis
qed

lemma enroll_demo_reach: "\<exists>l. en_reach (fold exec_op ops demo_world) l"
  by (rule reach_ops [OF reach_start]) (simp_all add: demo_world_def)

definition demo_enrolled :: enroll_db where "demo_enrolled = fold exec_op demo_ops demo_world"
definition demo_revoked :: enroll_db where "demo_revoked = exec_op (OpRevoke []) demo_enrolled"

lemma demo_enrolled_reach: "\<exists>l. en_reach demo_enrolled l" "inj (db_uuid demo_enrolled)"
  unfolding demo_enrolled_def by (rule enroll_demo_reach enroll_demo_inj)+

lemma demo_revoked_reach: "\<exists>l. en_reach demo_revoked l" "inj (db_uuid demo_revoked)"
proof -
  have "demo_revoked = fold exec_op (demo_ops @ [OpRevoke []]) demo_world"
    by (simp add: demo_revoked_def demo_enrolled_def)
  then show "\<exists>l. en_reach demo_revoked l" "inj (db_uuid demo_revoked)"
    using enroll_demo_reach [of "demo_ops @ [OpRevoke []]"] enroll_demo_inj [of "demo_ops @ [OpRevoke []]"] by simp_all
qed

lemma demo_serials: "later_serials_differ ''s'' demo_revoked"
proof -
  have "en_cert (fold exec_op ops w) = en_cert w" for ops w
  proof (induction ops arbitrary: w)
    case (Cons op ops)
    have "en_cert (exec_op op w) = en_cert w" using move_world [OF exec_op_move] by (simp add: same_world_def)
    with Cons show ?case by simp
  qed simp
  from this [of "demo_ops @ [OpRevoke []]"] have c: "en_cert demo_revoked = en_cert demo_world"
    by (simp add: demo_revoked_def demo_enrolled_def)
  have i: "en_issued demo_revoked = 1" by code_simp
  have "replicate (Suc k) CHR ''s'' \<noteq> ''s''" if "1 \<le> k" for k using that by (cases k) auto
  then show ?thesis by (auto simp: later_serials_differ_def c i demo_world_def)
qed

theorem token_enrolls_once_witness:
  "\<exists>w. en_reach w [(''h'', ''web-1'', 0)] \<and> (\<exists>r \<in> set (en_tokens w). tk_hash r = ''h'' \<and> tk_used_at r = Some 0 \<and> 0 < tk_expires_at r)"
proof -
  let ?w1 = "exec_op (OpCreateToken ''admin'' []) demo_world" and ?op = "OpEnroll [] ''web-1'' ''linux''"
  have "en_reach demo_world []" by (rule reach_start) (simp_all add: demo_world_def)
  from reach_op [OF reach_op [OF this], of ?op "OpCreateToken ''admin'' []"]
  have "en_reach (exec_op ?op ?w1) (([] @ redeemed (OpCreateToken ''admin'' []) demo_world) @ redeemed ?op ?w1)" .
  moreover have "([] @ redeemed (OpCreateToken ''admin'' []) demo_world) @ redeemed ?op ?w1 = [(''h'', ''web-1'', 0)]" by code_simp
  ultimately have r: "en_reach (exec_op ?op ?w1) [(''h'', ''web-1'', 0)]" by simp
  have "inj (db_uuid (exec_op ?op ?w1))" using enroll_demo_inj [of "[OpCreateToken ''admin'' [], ?op]"] by simp
  from token_enrolls_once [OF r this] r show ?thesis by auto
qed

theorem locked_certificate_stays_locked_witness:
  "fst (IsRevoked ''web-1'' ''s'' (fold exec_op [OpEnroll ''r'' ''web-1'' ''linux''] demo_revoked)) = Inr True"
proof -
  let ?w = "fold exec_op [OpEnroll ''r'' ''web-1'' ''linux''] demo_revoked"
  obtain l where l: "en_reach demo_revoked l" using demo_revoked_reach(1) by blast
  have a: "fst (IsRevoked ''web-1'' ''s'' demo_revoked) = Inr True" by code_simp
  have r: "hd (en_agents ?w) \<in> set (en_agents ?w)" by (rule hd_in_set) code_simp
  have n: "ag_name (hd (en_agents ?w)) = ''web-1''" by code_simp
  have f: "\<not> fails ?w" by code_simp
  from locked_certificate_stays_locked [OF l demo_revoked_reach(2) a _ demo_serials r n] f show ?thesis by simp
qed

theorem deleting_revoked_readmits_witness:
  "fst (IsRevoked ''web-1'' ''s'' demo_revoked) = Inr True \<and>
   fst (IsRevoked ''web-1'' ''s'' (exec_op (OpDelete []) demo_revoked)) = Inr False"
proof -
  obtain l where l: "en_reach demo_revoked l" using demo_revoked_reach(1) by blast
  have d: "fst (DeleteAgent [] demo_revoked) = Inr \<lparr>dr_Name = ''web-1'', dr_WasRevoked = True, dr_SelfUninstall = False\<rparr>" by code_simp
  then have "DeleteAgent [] demo_revoked =
      (Inr \<lparr>dr_Name = ''web-1'', dr_WasRevoked = True, dr_SelfUninstall = False\<rparr>, exec_op (OpDelete []) demo_revoked)"
    by (simp add: prod_eq_iff)
  from deleting_revoked_readmits [OF l demo_revoked_reach(2) this, of "''s''"]
  have "fst (IsRevoked ''web-1'' ''s'' (exec_op (OpDelete []) demo_revoked)) =
      (if fails (exec_op (OpDelete []) demo_revoked) then Inl EnDB else Inr False)" by simp
  moreover have "\<not> fails (exec_op (OpDelete []) demo_revoked)" by code_simp
  moreover have "fst (IsRevoked ''web-1'' ''s'' demo_revoked) = Inr True" by code_simp
  ultimately show ?thesis by simp
qed

theorem config_change_raises_revision_witness:
  "ag_config_rev (hd (en_agents demo_enrolled)) < ag_config_rev (hd (en_agents (exec_op (OpSetConfig [] []) demo_enrolled)))"
proof -
  let ?w = "exec_op (OpSetConfig [] []) demo_enrolled"
  obtain l where l: "en_reach demo_enrolled l" using demo_enrolled_reach(1) by blast
  have r: "hd (en_agents demo_enrolled) \<in> set (en_agents demo_enrolled)" by (rule hd_in_set) code_simp
  have r': "hd (en_agents ?w) \<in> set (en_agents ?w)" by (rule hd_in_set) code_simp
  have i: "ag_id (hd (en_agents ?w)) = ag_id (hd (en_agents demo_enrolled))" by code_simp
  have c: "served ?w (hd (en_agents ?w)) \<noteq> served demo_enrolled (hd (en_agents demo_enrolled))" by code_simp
  have v: "\<not> ag_revoked (hd (en_agents demo_enrolled))" by code_simp
  from config_change_raises_revision [OF l demo_enrolled_reach(2) r r' i] c v show ?thesis by blast
qed

end
