(* ===== verification/Gateway_Wiring.thy ===== *)
theory Gateway_Wiring
  imports Gateway Enrollment_Props Containment_Store
begin

text \<open>
  The functions \<^verbatim>\<open>cmd/gateway/main.go\<close> gives the handlers, over the stores of the other theories, and what
  an agent can do through them: the revocation check and its failure, the publication of a batch, the
  results of file actions, the isolation directive and the agent binary.
\<close>

section \<open>The wiring\<close>

text \<open>
  The bus keeps what it took; \<open>gw_bus_ok\<close> is the outcome of the next publications. \<open>gw_content\<close> is the
  stored content of a file version.
\<close>

record ('i, 'f) gateway_world =
  gw_enroll :: enroll_db
  gw_files :: fa_db
  gw_contain :: "('i, 'f) cn_db"
  gw_content :: "string \<Rightarrow> string \<Rightarrow> string \<Rightarrow> string option"
  gw_bus :: "(string \<times> string) list"
  gw_bus_ok :: "bool list"

definition gw_publish :: "string \<Rightarrow> string \<Rightarrow> ('i, 'f) gateway_world \<Rightarrow> bool \<times> ('i, 'f) gateway_world" where
  "gw_publish subject data g =
     (case gw_bus_ok g of
        False # oks \<Rightarrow> (False, g\<lparr>gw_bus_ok := oks\<rparr>)
      | oks \<Rightarrow> (True, g\<lparr>gw_bus := gw_bus g @ [(subject, data)], gw_bus_ok := tl oks\<rparr>))"

text \<open>A call of the enrolment store, its error an absent answer.\<close>

definition on_enroll ::
    "(enroll_db \<Rightarrow> (enroll_error + 'a) \<times> enroll_db) \<Rightarrow> ('i, 'f) gateway_world \<Rightarrow> 'a option \<times> ('i, 'f) gateway_world" where
  "on_enroll f g = (case f (gw_enroll g) of
     (Inl _, w) \<Rightarrow> (None, g\<lparr>gw_enroll := w\<rparr>)
   | (Inr x, w) \<Rightarrow> (Some x, g\<lparr>gw_enroll := w\<rparr>))"

definition revokedFunc :: "('i, 'f) gateway_world revoked_func" where
  "revokedFunc cn serial = on_enroll (IsRevoked cn serial)"

definition cfgFunc :: "string \<Rightarrow> ('i, 'f) gateway_world \<Rightarrow> agent_config option option \<times> ('i, 'f) gateway_world" where
  "cfgFunc cn = on_enroll (GetConfigByName cn)"

definition asGatewayErr :: "enroll_error \<Rightarrow> hb_error" where
  "asGatewayErr e = (if e = EnUnknownAgent then HbUnknownAgent else HbStore)"

definition healthVFunc ::
    "string \<Rightarrow> string \<Rightarrow> bool \<Rightarrow> string \<Rightarrow> string \<Rightarrow> ('i, 'f) gateway_world \<Rightarrow> hb_error option \<times> ('i, 'f) gateway_world" where
  "healthVFunc managerVersion cn degraded detail version g =
     (case MarkHealthWithVersion cn degraded detail version managerVersion (gw_enroll g) of
        (Inl e, w) \<Rightarrow> (Some (asGatewayErr e), g\<lparr>gw_enroll := w\<rparr>)
      | (Inr _, w) \<Rightarrow> (None, g\<lparr>gw_enroll := w\<rparr>))"

definition updateFunc ::
    "string \<Rightarrow> string \<Rightarrow> ('i, 'f) gateway_world \<Rightarrow> update_directive option option \<times> ('i, 'f) gateway_world" where
  "updateFunc managerVersion cn g =
     (case on_enroll (PendingAgentUpdate cn managerVersion) g of
        (None, g1) \<Rightarrow> (None, g1)
      | (Some due, g1) \<Rightarrow>
          (Some (if due then Some \<lparr>ud_URL = ''/v1/agent-binary/{arch}'', ud_Version = managerVersion\<rparr> else None), g1))"

definition file_action_item_of ::
    "(string \<Rightarrow> string \<Rightarrow> string \<Rightarrow> string option) \<Rightarrow> string \<Rightarrow> file_action \<Rightarrow> file_action_item" where
  "file_action_item_of content cn a =
     \<lparr>fi_ID = fa_ID a, fi_Path = fa_Path a, fi_Action = fa_Action a, fi_VersionSHA256 = fa_VersionSHA a,
      fi_Content = (if fa_Action a = ''restore_version'' \<and> fa_VersionSHA a \<noteq> [] then
                      coalesce_str (content cn (fa_Path a) (fa_VersionSHA a)) else []),
      fi_PID = fa_PID a, fi_ProcName = fa_ProcName a, fi_ProcStart = fa_ProcStart a\<rparr>"

definition fileActionsFunc ::
    "string \<Rightarrow> ('i, 'f) gateway_world \<Rightarrow> file_action_item list option \<times> ('i, 'f) gateway_world" where
  "fileActionsFunc cn g =
     (case PendingFileActions cn (gw_files g) of
        (Inl _, w) \<Rightarrow> (None, g\<lparr>gw_files := w\<rparr>)
      | (Inr acts, w) \<Rightarrow> (Some (map (file_action_item_of (gw_content g) cn) acts), g\<lparr>gw_files := w\<rparr>))"

definition fileActionResultFunc ::
    "int \<Rightarrow> string \<Rightarrow> string \<Rightarrow> ('i, 'f) gateway_world \<Rightarrow> bool \<times> ('i, 'f) gateway_world" where
  "fileActionResultFunc i status res g =
     (case SetFileActionResult i status res (gw_files g) of
        (Inl _, w) \<Rightarrow> (False, g\<lparr>gw_files := w\<rparr>)
      | (Inr _, w) \<Rightarrow> (True, g\<lparr>gw_files := w\<rparr>))"

definition containFunc ::
    "string list \<Rightarrow> string \<Rightarrow> ('i, 'f) gateway_world \<Rightarrow> containment_directive option \<times> ('i, 'f) gateway_world" where
  "containFunc allowIPs cn g =
     (case pg_ActiveContainmentByAgent cn (gw_contain g) of
        (Inl _, w) \<Rightarrow> (None, g\<lparr>gw_contain := w\<rparr>)
      | (Inr None, w) \<Rightarrow> (Some no_isolation, g\<lparr>gw_contain := w\<rparr>)
      | (Inr (Some c), w) \<Rightarrow>
          (Some \<lparr>cd_Isolate = True, cd_AllowIPs = allowIPs, cd_Reason = c_Reason c\<rparr>, g\<lparr>gw_contain := w\<rparr>))"

text \<open>The routes.\<close>

definition serve_logs ::
    "(string \<Rightarrow> raw_log list option) \<Rightarrow> (raw_log \<Rightarrow> string option) \<Rightarrow> request \<Rightarrow> ('i, 'f) gateway_world \<Rightarrow>
     int response \<times> ('i, 'f) gateway_world" where
  "serve_logs json encode = LogsHandler json encode gw_publish (Some revokedFunc)"

definition serve_heartbeat ::
    "(string \<Rightarrow> heartbeat_body) \<Rightarrow> string \<Rightarrow> request \<Rightarrow> ('i, 'f) gateway_world \<Rightarrow>
     update_directive response \<times> ('i, 'f) gateway_world" where
  "serve_heartbeat decode managerVersion =
     HeartbeatHandlerFull decode None None (Some (healthVFunc managerVersion)) (Some revokedFunc) (Some (updateFunc managerVersion))"

definition serve_file_actions ::
    "request \<Rightarrow> ('i, 'f) gateway_world \<Rightarrow> file_action_item list response \<times> ('i, 'f) gateway_world" where
  "serve_file_actions = FileActionsHandler (Some fileActionsFunc) (Some revokedFunc)"

definition serve_file_result ::
    "(string \<Rightarrow> (int \<times> string \<times> string) option) \<Rightarrow> request \<Rightarrow> ('i, 'f) gateway_world \<Rightarrow>
     unit response \<times> ('i, 'f) gateway_world" where
  "serve_file_result decode = FileActionResultHandler decode (Some fileActionResultFunc) (Some revokedFunc)"

definition serve_config :: "request \<Rightarrow> ('i, 'f) gateway_world \<Rightarrow> agent_config response \<times> ('i, 'f) gateway_world" where
  "serve_config = ConfigHandler (Some cfgFunc)"

definition serve_containment ::
    "string list \<Rightarrow> request \<Rightarrow> ('i, 'f) gateway_world \<Rightarrow> containment_directive response \<times> ('i, 'f) gateway_world" where
  "serve_containment allowIPs = ContainmentHandler (Some (containFunc allowIPs))"

end
