(* ===== verification/Gateway_Props.thy ===== *)
theory Gateway_Props
  imports Gateway_Wiring
begin

text \<open>
  What an agent can do through the gateway: a refused certificate does nothing, a failed revocation lookup
  refuses nobody, a batch of logs is published in order or reported as failed, a result is accepted from
  any agent, and the isolation directive disappears when the database does not answer.
\<close>

section \<open>The revocation check\<close>

abbreviation refused :: "request \<Rightarrow> ('i, 'f) gateway_world \<Rightarrow> bool" where
  "refused r g \<equiv> peer_cn r \<noteq> [] \<and> fst (IsRevoked (peer_cn r) (peer_serial r) (gw_enroll g)) = Inr True"

lemma IsRevoked_state: "snd (IsRevoked n s w) = after w"
  unfolding IsRevoked_def query_eq case_bool_if prod.case by (auto split: option.splits)

lemma IsRevoked_fails: "fst (IsRevoked n s w) = Inl e \<longleftrightarrow> fails w \<and> e = EnDB"
  unfolding IsRevoked_def query_eq case_bool_if prod.case by (auto split: option.splits)

lemma turned_away_refused:
  "refused r g \<Longrightarrow> turned_away (Some revokedFunc) r g = (True, g\<lparr>gw_enroll := after (gw_enroll g)\<rparr>)"
  using IsRevoked_state [of "peer_cn r" "peer_serial r" "gw_enroll g"]
  by (cases "IsRevoked (peer_cn r) (peer_serial r) (gw_enroll g)")
    (auto simp: turned_away_def revokedFunc_def on_enroll_def split: sum.splits)

lemma turned_away_fails:
  "fails (gw_enroll g) \<Longrightarrow> peer_cn r \<noteq> [] \<Longrightarrow>
   turned_away (Some revokedFunc) r g = (False, g\<lparr>gw_enroll := after (gw_enroll g)\<rparr>)"
  using IsRevoked_state [of "peer_cn r" "peer_serial r" "gw_enroll g"]
    IsRevoked_fails [of "peer_cn r" "peer_serial r" "gw_enroll g"]
  by (cases "IsRevoked (peer_cn r) (peer_serial r) (gw_enroll g)")
    (auto simp: turned_away_def revokedFunc_def on_enroll_def split: sum.splits)

lemma turned_away_admitted:
  assumes "turned_away (Some revokedFunc) r g = (b, g1)" "\<not> refused r g"
  shows "\<not> b" "gw_bus g1 = gw_bus g" "gw_bus_ok g1 = gw_bus_ok g" "gw_files g1 = gw_files g" "gw_contain g1 = gw_contain g"
  using assms by (auto simp: turned_away_def revokedFunc_def on_enroll_def split: prod.splits sum.splits if_splits)


text \<open>
  the check fails open. When its database lookup fails, the request of any certificate, a locked one
  included, is handled exactly as by a gateway without a revocation check.
\<close>

theorem revocation_lookup_failure_admits:
  assumes "fails (gw_enroll g)" "peer_cn r \<noteq> []" "rq_Method r = ''POST''"
    "read_all maxBodyBytes r = Some body" "json body = Some raws"
  shows "serve_logs json encode r g = LogsHandler json encode gw_publish None r (g\<lparr>gw_enroll := after (gw_enroll g)\<rparr>)"
  using turned_away_fails [OF assms(1,2)] assms(3-)
  by (simp add: serve_logs_def LogsHandler_def) (simp add: turned_away_def)

section \<open>Batches of logs\<close>

text \<open>The messages of a batch: entries without text are skipped, the agent's name replaces what it claims.\<close>

definition stamped :: "string \<Rightarrow> raw_log \<Rightarrow> raw_log" where
  "stamped cn raw = (if cn \<noteq> [] then raw\<lparr>rl_AgentID := cn\<rparr> else raw)"

fun deliverable :: "(raw_log \<Rightarrow> string option) \<Rightarrow> string \<Rightarrow> raw_log list \<Rightarrow> (string \<times> string) list" where
  "deliverable encode cn [] = []"
| "deliverable encode cn (raw # raws) =
     (if rl_Message raw = [] then deliverable encode cn raws
      else case encode (stamped cn raw) of
        None \<Rightarrow> deliverable encode cn raws
      | Some d \<Rightarrow> (SubjectLogsNormalized, d) # deliverable encode cn raws)"

lemma publish_logs_Cons [simp]:
  "publish_logs encode publish cn (raw # raws) accepted s =
     (if rl_Message raw = [] then publish_logs encode publish cn raws accepted s
      else case encode (stamped cn raw) of
        None \<Rightarrow> publish_logs encode publish cn raws accepted s
      | Some d \<Rightarrow>
          (case publish SubjectLogsNormalized d s of
             (False, s1) \<Rightarrow> (HttpError 503 ''publish failed'', s1)
           | (True, s1) \<Rightarrow> publish_logs encode publish cn raws (accepted + 1) s1))"
  by (simp add: stamped_def Let_def)

declare publish_logs.simps(2) [simp del]

lemma gw_publish_cases:
  obtains (taken) g1 where "gw_publish s d g = (True, g1)" "gw_bus g1 = gw_bus g @ [(s, d)]" "set (gw_bus_ok g1) \<subseteq> set (gw_bus_ok g)"
  | (refused) g1 where "gw_publish s d g = (False, g1)" "gw_bus g1 = gw_bus g" "False \<in> set (gw_bus_ok g)"
proof (cases "gw_bus_ok g")
  case Nil
  then show ?thesis using that(1) by (simp add: gw_publish_def)
next
  case (Cons b oks)
  then show ?thesis using that by (cases b) (auto simp: gw_publish_def)
qed

lemma publish_logs_spec:
  assumes "publish_logs encode gw_publish cn raws acc g = (resp, g')"
  shows "(resp = Reply (acc + int (length (deliverable encode cn raws))) \<and> gw_bus g' = gw_bus g @ deliverable encode cn raws) \<or>
     (resp = HttpError 503 ''publish failed'' \<and> False \<in> set (gw_bus_ok g) \<and>
      (\<exists>k < length (deliverable encode cn raws). gw_bus g' = gw_bus g @ take k (deliverable encode cn raws)))"
  using assms
proof (induction raws arbitrary: acc g)
  case (Cons raw raws)
  show ?case
  proof (cases "rl_Message raw = [] \<or> encode (stamped cn raw) = None")
    case True
    then have "publish_logs encode gw_publish cn raws acc g = (resp, g')" "deliverable encode cn (raw # raws) = deliverable encode cn raws"
      using Cons.prems by (auto split: option.splits)
    with Cons.IH show ?thesis by simp
  next
    case False
    then obtain d where d: "encode (stamped cn raw) = Some d" by auto
    have del: "deliverable encode cn (raw # raws) = (SubjectLogsNormalized, d) # deliverable encode cn raws"
      using False d by simp
    show ?thesis
    proof (cases rule: gw_publish_cases [of SubjectLogsNormalized d g])
      case (taken g1)
      with False d Cons.prems have "publish_logs encode gw_publish cn raws (acc + 1) g1 = (resp, g')" by simp
      from Cons.IH [OF this] show ?thesis
      proof (elim disjE conjE exE)
        fix k assume k: "k < length (deliverable encode cn raws)" "gw_bus g' = gw_bus g1 @ take k (deliverable encode cn raws)"
          and "resp = HttpError 503 ''publish failed''" "False \<in> set (gw_bus_ok g1)"
        then show ?thesis unfolding del using taken by (intro disjI2 conjI exI [of _ "Suc k"]) auto
      qed (use False d taken in auto)
    next
      case (refused g1)
      with False d Cons.prems have "resp = HttpError 503 ''publish failed''" "g' = g1" by simp_all
      with refused show ?thesis unfolding del by (intro disjI2 conjI exI [of _ 0]) auto
    qed
  qed
qed simp

text \<open>
  a batch the gateway accepts is published whole and in order, every entry under the name of the
  certificate and with the number of entries in the reply; when the bus fails, the reply is 503 and a strict
  prefix is out, so an agent that resends the batch repeats that prefix and loses nothing.
\<close>

theorem logs_published_in_order:
  assumes "rq_Method r = ''POST''" "read_all maxBodyBytes r = Some body" "json body = Some raws"
    "peer_cn r = [] \<or> fst (IsRevoked (peer_cn r) (peer_serial r) (gw_enroll g)) \<noteq> Inr True"
    "serve_logs json encode r g = (resp, g')"
  defines "out \<equiv> deliverable encode (peer_cn r) raws"
  shows "(resp = Reply (int (length out)) \<and> gw_bus g' = gw_bus g @ out) \<or>
    (resp = HttpError 503 ''publish failed'' \<and> False \<in> set (gw_bus_ok g) \<and> (\<exists>k < length out. gw_bus g' = gw_bus g @ take k out))"
proof -
  obtain b g1 where t: "turned_away (Some revokedFunc) r g = (b, g1)" by (cases "turned_away (Some revokedFunc) r g")
  note t' = turned_away_admitted [OF t]
  have "publish_logs encode gw_publish (peer_cn r) raws 0 g1 = (resp, g')"
    using assms(1-5) t t'(1) by (auto simp: serve_logs_def LogsHandler_def split: bool.splits)
  from publish_logs_spec [OF this] show ?thesis using assms(4) t' unfolding out_def by auto
qed

section \<open>Results of file actions\<close>

text \<open>
  a result is recorded for the action it names, whoever sends it. Any certificate that is not refused can
  report on the action of another agent; a request that has not been delivered yet is then never delivered to
  the agent it was meant for.
\<close>

theorem any_agent_closes_any_action:
  assumes "rq_Method r = ''POST''" "rq_Body r = Some body" "dec (take maxBodyBytes body) = Some (i, ''done'', res)" "i \<noteq> 0"
    "\<not> refused r g" "db_faults (gw_files g) = []"
    "a \<in> set (fa_rows (gw_files g))" "q_id a = i" "q_agent_name a \<noteq> peer_cn r"
  shows "fst (serve_file_result dec r g) = NoContent \<and>
    (\<exists>a' \<in> set (fa_rows (gw_files (snd (serve_file_result dec r g)))).
       q_id a' = i \<and> q_agent_name a' = q_agent_name a \<and> q_status a' = ''done'' \<and> q_result a' = Some res) \<and>
    (\<forall>cn. \<exists>acts w. PendingFileActions cn (gw_files (snd (serve_file_result dec r g))) = (Inr acts, w) \<and> i \<notin> fa_ID ` set acts)"
proof -
  obtain b g1 where t: "turned_away (Some revokedFunc) r g = (b, g1)" by (cases "turned_away (Some revokedFunc) r g")
  note t' = turned_away_admitted [OF t assms(5)]
  let ?f = "\<lambda>r. r\<lparr>q_status := ''done'', q_result := Some res, q_result_at := Some (db_clock (gw_files g))\<rparr>"
  let ?rows = "map (\<lambda>r. if q_id r = i then ?f r else r) (fa_rows (gw_files g))"
  have q: "query (gw_files g) = (False, gw_files g)" using assms(6) by (rule query_no_faults)
  have "SetFileActionResult i ''done'' res (gw_files g) = (Inr (), (gw_files g)\<lparr>fa_rows := ?rows\<rparr>)"
    by (simp add: SetFileActionResult_def fa_update_def update_rows_def q del: query_frame)
  then have f: "fileActionResultFunc i ''done'' res g1 = (True, g1\<lparr>gw_files := (gw_files g)\<lparr>fa_rows := ?rows\<rparr>\<rparr>)"
    by (simp add: fileActionResultFunc_def t'(4))
  have s: "serve_file_result dec r g = (NoContent, g1\<lparr>gw_files := (gw_files g)\<lparr>fa_rows := ?rows\<rparr>\<rparr>)"
    using assms(4) t'(1) by (simp add: serve_file_result_def FileActionResultHandler_def t assms(1-3) f del: query_frame)
  have "\<exists>acts w. PendingFileActions cn ((gw_files g)\<lparr>fa_rows := ?rows\<rparr>) = (Inr acts, w) \<and> i \<notin> fa_ID ` set acts" for cn
  proof -
    let ?acts = "map (\<lambda>r. file_action_of (r\<lparr>q_status := ''delivered'', q_delivered_at := Some (db_clock (gw_files g))\<rparr>))
        (filter (\<lambda>r. q_agent_name r = cn \<and> q_status r = ''requested'') ?rows)"
    have acts: "\<exists>w. PendingFileActions cn ((gw_files g)\<lparr>fa_rows := ?rows\<rparr>) = (Inr ?acts, w)"
      using assms(6) by (simp add: PendingFileActions_def Let_def)
    have ids: "fa_ID ` set ?acts = q_id ` {r \<in> set ?rows. q_agent_name r = cn \<and> q_status r = ''requested''}"
      by (simp add: image_image file_action_of_def set_filter)
    have "q_id r \<noteq> i" if "r \<in> set ?rows" "q_status r = ''requested''" for r
    proof
      assume "q_id r = i"
      from that(1) obtain x where x: "r = (if q_id x = i then ?f x else x)" unfolding set_map by (rule imageE)
      show False
      proof (cases "q_id x = i")
        case True
        with x that(2) show False by simp
      next
        case False
        with x \<open>q_id r = i\<close> show False by simp
      qed
    qed
    then have "i \<notin> fa_ID ` set ?acts" unfolding ids by blast
    with acts show ?thesis by blast
  qed
  moreover have "\<exists>a' \<in> set ?rows. q_id a' = i \<and> q_agent_name a' = q_agent_name a \<and> q_status a' = ''done'' \<and> q_result a' = Some res"
    by (rule bexI [of _ "?f a"]) (use assms(7,8) in \<open>auto simp: image_iff\<close>)
  ultimately show ?thesis unfolding s by simp
qed

section \<open>The agent binary\<close>

text \<open>
  whatever the path parameter holds, the handler reads at most the two binaries and their signatures: its
  answer is the same when every other file of the directory, and beyond it, is gone.
\<close>

theorem agent_binary_reads_only_releases:
  "AgentBinaryHandler open_file arch =
   AgentBinaryHandler (\<lambda>n. if n \<in> {''deuswatch-agent-linux-amd64'', ''deuswatch-agent-linux-amd64.sig'',
       ''deuswatch-agent-linux-arm64'', ''deuswatch-agent-linux-arm64.sig''} then open_file n else None) arch"
proof -
  consider "path_base arch = ''amd64''" | "path_base arch = ''arm64''" | "path_base arch \<noteq> ''amd64''" "path_base arch \<noteq> ''arm64''"
    by blast
  then show ?thesis by cases (simp_all add: AgentBinaryHandler_def Let_def split: option.split)
qed

section \<open>Examples\<close>

text \<open>The agent \<^verbatim>\<open>web-1\<close>, revoked, with a kill approved for it and an active containment.\<close>

definition demo_contain :: "(string, unit) cn_db" where
  "demo_contain = \<lparr>db_faults = [], db_clock = 0, db_uuid = (\<lambda>n. replicate n CHR ''x''), db_seq = 1,
     cn_rows = [\<lparr>k_id = [], k_created_at = 0, k_agent_id = ''web-1'', k_host_name = None, k_ip = None, k_reason = Some ''worm'',
       k_rule_id = None, k_timeout_seconds = 0, k_status = ContainContained, k_auto = True, k_decided_by = None,
       k_contained_at = Some 0, k_expires_at = None, k_released_at = None, k_error = None\<rparr>],
     cn_inet_in = Some, cn_inet_text = (\<lambda>s. s), cn_fw = ()\<rparr>"

definition demo_gateway :: "(string, unit) gateway_world" where
  "demo_gateway = \<lparr>gw_enroll = demo_revoked, gw_files = demo_fa2, gw_contain = demo_contain, gw_content = (\<lambda>_ _ _. None),
     gw_bus = [], gw_bus_ok = []\<rparr>"

definition demo_post :: "string \<Rightarrow> string \<Rightarrow> request" where
  "demo_post cn serial = \<lparr>rq_Method = ''POST'', rq_Cert = Some (cn, serial), rq_Body = Some ''x''\<rparr>"

definition demo_json :: "string \<Rightarrow> raw_log list option" where
  "demo_json b = Some [\<lparr>rl_Timestamp = 0, rl_Host = ''h'', rl_AgentID = ''db-9'', rl_Dataset = ''sshd'', rl_Message = b\<rparr>]"

definition demo_encode :: "raw_log \<Rightarrow> string option" where
  "demo_encode raw = Some (rl_AgentID raw @ '': '' @ rl_Message raw)"

definition demo_result :: "string \<Rightarrow> (int \<times> string \<times> string) option" where
  "demo_result b = Some (1, ''done'', ''killed'')"

lemma demo_refused: "peer_cn (demo_post ''web-1'' ''s'') \<noteq> []"
  "fst (IsRevoked (peer_cn (demo_post ''web-1'' ''s'')) (peer_serial (demo_post ''web-1'' ''s'')) (gw_enroll demo_gateway)) = Inr True"
  by code_simp+

lemma demo_body: "read_all maxBodyBytes (demo_post cn s) = Some ''x''"
  by (simp add: read_all_def demo_post_def maxBodyBytes_def)


theorem revocation_lookup_failure_admits_witness:
  "gw_bus (snd (serve_logs demo_json demo_encode (demo_post ''web-1'' ''s'') (demo_gateway\<lparr>gw_enroll := demo_revoked\<lparr>db_faults := [True]\<rparr>\<rparr>)))
     = [(''logs.normalized'', ''web-1: x'')]"
proof -
  let ?g = "demo_gateway\<lparr>gw_enroll := demo_revoked\<lparr>db_faults := [True]\<rparr>\<rparr>"
  have f: "fails (gw_enroll ?g)" by code_simp
  have j: "demo_json ''x'' = Some (the (demo_json ''x''))" by code_simp
  have m: "rq_Method (demo_post ''web-1'' ''s'') = ''POST''" by code_simp
  note e = revocation_lookup_failure_admits [where g = ?g and r = "demo_post ''web-1'' ''s''" and body = "''x''" and json = demo_json
    and raws = "the (demo_json ''x'')" and encode = demo_encode, OF f demo_refused(1) m demo_body j]
  have l: "LogsHandler demo_json demo_encode gw_publish None (demo_post ''web-1'' ''s'') x =
      publish_logs demo_encode gw_publish (peer_cn (demo_post ''web-1'' ''s'')) (the (demo_json ''x'')) 0 x" for x :: "(string, unit) gateway_world"
    unfolding LogsHandler_def demo_body by (simp add: m turned_away_def demo_json_def)
  show ?thesis unfolding e l by code_simp
qed

theorem logs_published_in_order_witness:
  "gw_bus (snd (serve_logs demo_json demo_encode (demo_post ''db-1'' ''s'') demo_gateway)) = [(''logs.normalized'', ''db-1: x'')]"
proof -
  let ?r = "demo_post ''db-1'' ''s''"
  obtain resp g' where s: "serve_logs demo_json demo_encode ?r demo_gateway = (resp, g')"
    by (cases "serve_logs demo_json demo_encode ?r demo_gateway")
  have m: "rq_Method ?r = ''POST''" by code_simp
  have j: "demo_json ''x'' = Some (the (demo_json ''x''))" by code_simp
  have a: "peer_cn ?r = [] \<or> fst (IsRevoked (peer_cn ?r) (peer_serial ?r) (gw_enroll demo_gateway)) \<noteq> Inr True" by code_simp
  have o: "deliverable demo_encode (peer_cn ?r) (the (demo_json ''x'')) = [(''logs.normalized'', ''db-1: x'')]" by code_simp
  have "gw_bus_ok demo_gateway = []" "gw_bus demo_gateway = []" by (simp_all add: demo_gateway_def)
  with logs_published_in_order [OF m demo_body j a s, unfolded o] show ?thesis by (simp add: s)
qed

theorem any_agent_closes_any_action_witness:
  "1 \<in> fa_ID ` set (projr (fst (PendingFileActions ''web-1'' (gw_files demo_gateway)))) \<and>
   1 \<notin> fa_ID ` set (projr (fst (PendingFileActions ''web-1''
     (gw_files (snd (serve_file_result demo_result (demo_post ''db-1'' ''s'') demo_gateway))))))"
proof -
  let ?r = "demo_post ''db-1'' ''s''" let ?g' = "snd (serve_file_result demo_result ?r demo_gateway)"
  have b: "1 \<in> fa_ID ` set (projr (fst (PendingFileActions ''web-1'' (gw_files demo_gateway))))" by code_simp
  have m: "rq_Method ?r = ''POST''" "rq_Body ?r = Some ''x''" by (simp_all add: demo_post_def)
  have d: "demo_result (take maxBodyBytes ''x'') = Some (1, ''done'', ''killed'')" by (simp add: demo_result_def)
  have n: "\<not> refused ?r demo_gateway" by code_simp
  have f: "db_faults (gw_files demo_gateway) = []" by code_simp
  have a: "hd (fa_rows (gw_files demo_gateway)) \<in> set (fa_rows (gw_files demo_gateway))" by (rule hd_in_set) code_simp
  have i: "q_id (hd (fa_rows (gw_files demo_gateway))) = 1" by code_simp
  have o: "q_agent_name (hd (fa_rows (gw_files demo_gateway))) \<noteq> peer_cn ?r" by code_simp
  have "\<exists>acts w. PendingFileActions ''web-1'' (gw_files ?g') = (Inr acts, w) \<and> 1 \<notin> fa_ID ` set acts"
    using any_agent_closes_any_action [where r = ?r and g = demo_gateway and body = "''x''" and dec = demo_result and i = 1
      and res = "''killed''" and a = "hd (fa_rows (gw_files demo_gateway))", OF m d _ n f a i o] by simp
  then obtain acts w where "PendingFileActions ''web-1'' (gw_files ?g') = (Inr acts, w)" "1 \<notin> fa_ID ` set acts" by blast
  then show ?thesis using b by simp
qed

end
