(* ===== verification/Agent_Isolation.thy ===== *)
theory Agent_Isolation
  imports Gateway_Props Go_Net
begin

text \<open>
  Host isolation on a Linux endpoint: the rules \<^verbatim>\<open>internal/agent/isolation_linux.go\<close> hands to
  \<^verbatim>\<open>nft\<close>, and the loop of \<^verbatim>\<open>cmd/agent/main.go\<close> that polls the manager's directive. Of the host the model
  keeps the containment table in force (its script) and the outcome of the next calls of \<^verbatim>\<open>nft\<close>.
\<close>

section \<open>The rules\<close>

definition isolationTable :: string where "isolationTable = ''deuswatch_containment''"

text \<open>The addresses of the list that parse, IPv4 and IPv6 apart.\<close>

definition allow_v4 :: "string list \<Rightarrow> string list" where
  "allow_v4 ips = List.map_filter (\<lambda>s. case parse_ip (trim_space s) of None \<Rightarrow> None
     | Some ip \<Rightarrow> if to4 ip \<noteq> None then Some (ip_string ip) else None) ips"

definition allow_v6 :: "string list \<Rightarrow> string list" where
  "allow_v6 ips = List.map_filter (\<lambda>s. case parse_ip (trim_space s) of None \<Rightarrow> None
     | Some ip \<Rightarrow> if to4 ip = None then Some (ip_string ip) else None) ips"

definition set_elements :: "string list \<Rightarrow> string" where
  "set_elements ips = (if ips = [] then [] else ''elements = { '' @ join_with '', '' ips @ '' }; '')"

definition isolation_script :: "string list \<Rightarrow> string" where
  "isolation_script allowIPs =
     ''add table inet '' @ isolationTable @ nl @
     ''delete table inet '' @ isolationTable @ nl @
     ''table inet '' @ isolationTable @ '' {'' @ nl @
     ''  set allow4 { type ipv4_addr; '' @ set_elements (allow_v4 allowIPs) @ ''}'' @ nl @
     ''  set allow6 { type ipv6_addr; '' @ set_elements (allow_v6 allowIPs) @ ''}'' @ nl @
     ''  chain input { type filter hook input priority -150; policy drop;'' @ nl @
     ''    iif lo accept'' @ nl @ ''    ct state established,related accept'' @ nl @
     ''    ip saddr @allow4 accept'' @ nl @ ''    ip6 saddr @allow6 accept'' @ nl @ ''  }'' @ nl @
     ''  chain output { type filter hook output priority -150; policy drop;'' @ nl @
     ''    oif lo accept'' @ nl @ ''    ct state established,related accept'' @ nl @
     ''    ip daddr @allow4 accept'' @ nl @ ''    ip6 daddr @allow6 accept'' @ nl @ ''  }'' @ nl @
     ''  chain forward { type filter hook forward priority -150; policy drop; }'' @ nl @
     ''}'' @ nl"

record host_fw =
  hf_rules :: "string option"
  hf_nft :: "bool list"

definition run_nft :: "string option \<Rightarrow> host_fw \<Rightarrow> bool \<times> host_fw" where
  "run_nft rules h =
     (case hf_nft h of
        False # oks \<Rightarrow> (False, h\<lparr>hf_nft := oks\<rparr>)
      | oks \<Rightarrow> (True, h\<lparr>hf_rules := rules, hf_nft := tl oks\<rparr>))"

definition ApplyIsolation :: "string list \<Rightarrow> host_fw \<Rightarrow> bool \<times> host_fw" where
  "ApplyIsolation allowIPs h = run_nft (Some (isolation_script allowIPs)) h"

text \<open>The outcome of the deletion is ignored, and the answer is always that there is no error.\<close>

definition ClearIsolation :: "host_fw \<Rightarrow> bool \<times> host_fw" where
  "ClearIsolation h = (True, snd (run_nft None h))"

section \<open>The loop\<close>

text \<open>\<^verbatim>\<open>AGENT_CONTAINMENT\<close> opts in.\<close>

definition containmentEnabled :: "string \<Rightarrow> bool" where
  "containmentEnabled v = (to_lower (trim_space v) \<notin> {'''', ''0'', ''false'', ''off'', ''no''})"

text \<open>What the fetch makes of the response; \<open>None\<close> is an error, a broken connection included.\<close>

definition FetchContainment :: "containment_directive response option \<Rightarrow> containment_directive option" where
  "FetchContainment resp = (case resp of Some (Reply d) \<Rightarrow> Some d | _ \<Rightarrow> None)"

record iso_loop =
  il_isolated :: bool
  il_lastKey :: string

definition iso_start :: iso_loop where
  "iso_start = \<lparr>il_isolated = False, il_lastKey = []\<rparr>"

text \<open>One tick of the loop of \<^verbatim>\<open>runContainment\<close>.\<close>

definition containment_tick ::
    "string list \<Rightarrow> containment_directive option \<Rightarrow> iso_loop \<times> host_fw \<Rightarrow> iso_loop \<times> host_fw" where
  "containment_tick selfAllow fetched s =
     (case s of (l, h) \<Rightarrow>
        (case fetched of
           None \<Rightarrow> (l, h)
         | Some d \<Rightarrow>
             if cd_Isolate d then
               let allow = selfAllow @ cd_AllowIPs d; key = join_with '','' allow in
               if il_isolated l \<and> key = il_lastKey l then (l, h)
               else (case ApplyIsolation allow h of
                       (False, h1) \<Rightarrow> (l, h1)
                     | (True, h1) \<Rightarrow> (\<lparr>il_isolated = True, il_lastKey = key\<rparr>, h1))
             else if il_isolated l then
               (case ClearIsolation h of
                  (False, h1) \<Rightarrow> (l, h1)
                | (True, h1) \<Rightarrow> (iso_start, h1))
             else (l, h)))"

text \<open>A poll: the request goes through the gateway, and the loop acts on the answer.\<close>

definition poll_containment ::
    "string list \<Rightarrow> string list \<Rightarrow> request \<Rightarrow> ('i, 'f) gateway_world \<Rightarrow> iso_loop \<times> host_fw \<Rightarrow>
     (iso_loop \<times> host_fw) \<times> ('i, 'f) gateway_world" where
  "poll_containment selfAllow allowIPs r g s =
     (case serve_containment allowIPs r g of
        (resp, g1) \<Rightarrow> (containment_tick selfAllow (FetchContainment (Some resp)) s, g1))"

section \<open>Lemmas\<close>

definition contained :: "string \<Rightarrow> ('i, 'f) gateway_world \<Rightarrow> bool" where
  "contained cn g \<longleftrightarrow> (\<exists>k \<in> set (cn_rows (gw_contain g)). k_agent_id k = cn \<and> k_status k = ContainContained)"

text \<open>The loop knows what the host enforces: the script of its key's allow list, or nothing.\<close>

definition in_step :: "iso_loop \<times> host_fw \<Rightarrow> bool" where
  "in_step s \<longleftrightarrow> (if il_isolated (fst s)
     then \<exists>allow. hf_rules (snd s) = Some (isolation_script allow) \<and> il_lastKey (fst s) = join_with '','' allow
     else hf_rules (snd s) = None)"

lemma run_nft_ok: "hf_nft h = [] \<Longrightarrow> run_nft rules h = (True, h\<lparr>hf_rules := rules\<rparr>)"
  by (cases h) (simp add: run_nft_def)

lemma containFunc_answer:
  assumes "db_faults (gw_contain g) = []"
  shows "(\<exists>d. fst (containFunc allowIPs cn g) = Some d \<and> (cd_Isolate d \<longleftrightarrow> contained cn g) \<and> (cd_Isolate d \<longrightarrow> cd_AllowIPs d = allowIPs))"
proof -
  have q: "query (gw_contain g) = (False, gw_contain g)" using assms by (rule query_no_faults)
  define ks where "ks = sort_key (\<lambda>r. - k_created_at r)
     (filter (\<lambda>r. k_agent_id r = cn \<and> k_status r = ContainContained) (cn_rows (gw_contain g)))"
  have ks: "ks = [] \<longleftrightarrow> \<not> contained cn g"
  proof -
    have "set ks = {r \<in> set (cn_rows (gw_contain g)). k_agent_id r = cn \<and> k_status r = ContainContained}" by (simp add: ks_def)
    then show ?thesis by (auto simp: contained_def simp flip: set_empty)
  qed
  show ?thesis
  proof (cases ks)
    case Nil
    then have "fst (containFunc allowIPs cn g) = Some no_isolation"
      unfolding containFunc_def pg_ActiveContainmentByAgent_def q prod.case bool.case ks_def [symmetric] by simp
    with Nil ks show ?thesis by (simp add: no_isolation_def)
  next
    case (Cons k rest)
    then have "\<exists>rsn. fst (containFunc allowIPs cn g) = Some \<lparr>cd_Isolate = True, cd_AllowIPs = allowIPs, cd_Reason = rsn\<rparr>"
      unfolding containFunc_def pg_ActiveContainmentByAgent_def q prod.case bool.case ks_def [symmetric] by simp
    with Cons ks show ?thesis by auto
  qed
qed

text \<open>
  C23: the manager's decision reaches the host. When the database and \<^verbatim>\<open>nft\<close> answer, one poll of an agent
  whose loop is in step leaves the host isolated exactly if the containment table holds an active row for it,
  and keeps the loop in step.
\<close>

theorem isolation_follows_manager:
  assumes "in_step s" "peer_cn r \<noteq> []" "db_faults (gw_contain g) = []" "hf_nft (snd s) = []"
  shows "in_step (fst (poll_containment selfAllow allowIPs r g s)) \<and>
    (hf_rules (snd (fst (poll_containment selfAllow allowIPs r g s))) \<noteq> None \<longleftrightarrow> contained (peer_cn r) g)"
proof -
  obtain l h where s: "s = (l, h)" by (cases s)
  obtain d g1 where d: "containFunc allowIPs (peer_cn r) g = (Some d, g1)" "cd_Isolate d \<longleftrightarrow> contained (peer_cn r) g"
    using containFunc_answer [OF assms(3), of allowIPs "peer_cn r"] by (cases "containFunc allowIPs (peer_cn r) g") auto
  have p: "fst (poll_containment selfAllow allowIPs r g s) = containment_tick selfAllow (Some d) s"
    using assms(2) d(1) by (simp add: poll_containment_def serve_containment_def ContainmentHandler_def FetchContainment_def)
  have h: "hf_nft h = []" using assms(4) s by simp
  show ?thesis
  proof (cases "cd_Isolate d")
    case True
    show ?thesis
      unfolding p using assms(1) True d(2) run_nft_ok [OF h]
      by (auto simp: s containment_tick_def Let_def ApplyIsolation_def in_step_def split: if_splits)
  next
    case False
    then show ?thesis
      unfolding p using assms(1) d(2) run_nft_ok [OF h]
      by (auto simp: s containment_tick_def ClearIsolation_def in_step_def iso_start_def split: if_splits)
  qed
qed

text \<open>
  a failed database query lifts the isolation of a host that the manager still wants isolated: the handler
  answers the error with a directive not to isolate, and the agent obeys it.
\<close>

theorem database_fault_lifts_isolation:
  assumes "il_isolated (fst s)" "peer_cn r \<noteq> []" "db_faults (gw_contain g) = True # fs" "hf_nft (snd s) = []" "contained (peer_cn r) g"
  shows "hf_rules (snd (fst (poll_containment selfAllow allowIPs r g s))) = None \<and>
    contained (peer_cn r) (snd (poll_containment selfAllow allowIPs r g s))"
proof -
  obtain l h where s: "s = (l, h)" by (cases s)
  have q: "query (gw_contain g) = (True, (gw_contain g)\<lparr>db_faults := fs\<rparr>)" using assms(3) by (simp add: query_def)
  then have c: "containFunc allowIPs (peer_cn r) g = (None, g\<lparr>gw_contain := (gw_contain g)\<lparr>db_faults := fs\<rparr>\<rparr>)"
    unfolding containFunc_def pg_ActiveContainmentByAgent_def by simp
  show ?thesis
    using assms run_nft_ok [of h None]
    by (simp add: poll_containment_def serve_containment_def ContainmentHandler_def FetchContainment_def c s
        containment_tick_def no_isolation_def ClearIsolation_def contained_def)
qed

text \<open>
  an agent process that starts on a host still isolated by an earlier one never lifts that isolation: as
  long as the manager asks for no isolation, any number of polls leaves the rules in force.
\<close>

theorem restart_strands_isolation:
  assumes "\<forall>d \<in> set ds. d = None \<or> (\<exists>x. d = Some x \<and> \<not> cd_Isolate x)"
  shows "fold (containment_tick selfAllow) ds (iso_start, h) = (iso_start, h)"
  using assms by (induction ds) (auto simp: containment_tick_def iso_start_def)

text \<open>Whatever \<^verbatim>\<open>nft\<close> answers, the rules in force were written for the gateway's addresses and more.\<close>

definition for_gateway :: "string list \<Rightarrow> host_fw \<Rightarrow> bool" where
  "for_gateway selfAllow h \<longleftrightarrow> hf_rules h = None \<or> (\<exists>xs. hf_rules h = Some (isolation_script (selfAllow @ xs)))"

lemma run_nft_for_gateway:
  "for_gateway selfAllow h \<Longrightarrow> rules = None \<or> (\<exists>xs. rules = Some (isolation_script (selfAllow @ xs))) \<Longrightarrow>
   for_gateway selfAllow (snd (run_nft rules h))"
  by (auto simp: run_nft_def for_gateway_def split: list.splits bool.splits)

lemma tick_for_gateway:
  assumes "for_gateway selfAllow (snd s)"
  shows "for_gateway selfAllow (snd (containment_tick selfAllow d s))"
proof -
  obtain l h where s: "s = (l, h)" by (cases s)
  have h: "for_gateway selfAllow h" using assms s by simp
  have a: "for_gateway selfAllow (snd (ApplyIsolation (selfAllow @ xs) h))" for xs
    unfolding ApplyIsolation_def by (rule run_nft_for_gateway [OF h]) blast
  have c: "for_gateway selfAllow (snd (ClearIsolation h))"
    unfolding ClearIsolation_def by (simp add: run_nft_for_gateway [OF h])
  show ?thesis
  proof (cases d)
    case None
    then show ?thesis using h by (simp add: s containment_tick_def)
  next
    case (Some x)
    then show ?thesis
      using h c a [of "cd_AllowIPs x"]
      by (auto simp: s containment_tick_def Let_def split: prod.splits bool.splits)
  qed
qed

text \<open>
  isolation keeps the link to the manager. Over any polls and whatever \<^verbatim>\<open>nft\<close> answers, while rules are in
  force every address of the gateway that parses is an element of the sets they accept traffic to and from.
\<close>

theorem isolation_keeps_gateway:
  assumes "hf_rules h = None" "a \<in> set selfAllow" "parse_ip (trim_space a) = Some ip"
    "hf_rules (snd (fold (containment_tick selfAllow) ds (l, h))) = Some rules"
  shows "\<exists>allow. rules = isolation_script allow \<and> ip_string ip \<in> set (if to4 ip \<noteq> None then allow_v4 allow else allow_v6 allow)"
proof -
  have "for_gateway selfAllow (snd (fold (containment_tick selfAllow) ds s))" if "for_gateway selfAllow (snd s)" for s
    using that by (induction ds arbitrary: s) (simp_all add: tick_for_gateway)
  from this [of "(l, h)"] assms(1,4) obtain xs where "rules = isolation_script (selfAllow @ xs)"
    by (auto simp: for_gateway_def)
  moreover have "ip_string ip \<in> set (if to4 ip \<noteq> None then allow_v4 (selfAllow @ xs) else allow_v6 (selfAllow @ xs))"
    using assms(2,3) by (auto simp: allow_v4_def allow_v6_def List.map_filter_def image_iff intro!: bexI [of _ a])
  ultimately show ?thesis by blast
qed

section \<open>Examples\<close>

definition demo_host :: host_fw where "demo_host = \<lparr>hf_rules = None, hf_nft = []\<rparr>"

definition demo_poll :: request where
  "demo_poll = \<lparr>rq_Method = ''GET'', rq_Cert = Some (''web-1'', ''s''), rq_Body = Some []\<rparr>"

definition demo_isolated :: "iso_loop \<times> host_fw" where
  "demo_isolated = fst (poll_containment [''10.0.0.1''] [''10.0.0.53''] demo_poll demo_gateway (iso_start, demo_host))"

lemma demo_poll_facts:
  "peer_cn demo_poll = ''web-1''" "db_faults (gw_contain demo_gateway) = []" "contained ''web-1'' demo_gateway"
  by (simp_all add: demo_poll_def peer_cn_def demo_gateway_def demo_contain_def contained_def)

theorem isolation_follows_manager_witness: "in_step demo_isolated \<and> hf_rules (snd demo_isolated) \<noteq> None"
  using isolation_follows_manager [of "(iso_start, demo_host)" demo_poll demo_gateway "[''10.0.0.1'']" "[''10.0.0.53'']"] demo_poll_facts
  by (simp add: demo_isolated_def in_step_def iso_start_def demo_host_def)

theorem database_fault_lifts_isolation_witness:
  "hf_rules (snd (fst (poll_containment [''10.0.0.1''] [''10.0.0.53''] demo_poll
     (demo_gateway\<lparr>gw_contain := demo_contain\<lparr>db_faults := [True]\<rparr>\<rparr>) demo_isolated))) = None"
proof -
  let ?g = "demo_gateway\<lparr>gw_contain := demo_contain\<lparr>db_faults := [True]\<rparr>\<rparr>"
  have i: "il_isolated (fst demo_isolated)" by code_simp
  have h: "hf_nft (snd demo_isolated) = []" by code_simp
  have c: "contained (peer_cn demo_poll) ?g" using demo_poll_facts by (simp add: contained_def demo_gateway_def)
  have n: "peer_cn demo_poll \<noteq> []" "db_faults (gw_contain ?g) = True # []" using demo_poll_facts by simp_all
  from database_fault_lifts_isolation [OF i n h c] show ?thesis by blast
qed

theorem restart_strands_isolation_witness:
  "hf_rules (snd (fold (containment_tick [''10.0.0.1'']) [Some no_isolation, None, Some no_isolation] (iso_start, snd demo_isolated)))
     = hf_rules (snd demo_isolated)"
  using restart_strands_isolation [of "[Some no_isolation, None, Some no_isolation]" "[''10.0.0.1'']" "snd demo_isolated"]
  by (simp add: no_isolation_def del: fold_simps)

theorem isolation_keeps_gateway_witness:
  "\<exists>rules allow. hf_rules (snd demo_isolated) = Some rules \<and> rules = isolation_script allow \<and> ''10.0.0.1'' \<in> set (allow_v4 allow)"
proof -
  let ?d = "Some \<lparr>cd_Isolate = True, cd_AllowIPs = [''10.0.0.53''], cd_Reason = ''worm''\<rparr>"
  let ?ip = "the (parse_ip (trim_space ''10.0.0.1''))"
  have h: "hf_rules demo_host = None" by (simp add: demo_host_def)
  have p: "parse_ip (trim_space ''10.0.0.1'') = Some ?ip" "to4 ?ip \<noteq> None" "ip_string ?ip = ''10.0.0.1''" by code_simp+
  have f: "snd demo_isolated = snd (fold (containment_tick [''10.0.0.1'']) [?d] (iso_start, demo_host))" by code_simp
  obtain rules where r: "hf_rules (snd demo_isolated) = Some rules"
    using isolation_follows_manager [of "(iso_start, demo_host)" demo_poll demo_gateway "[''10.0.0.1'']" "[''10.0.0.53'']"] demo_poll_facts
    by (auto simp: demo_isolated_def in_step_def iso_start_def demo_host_def)
  have a: "''10.0.0.1'' \<in> set [''10.0.0.1'']" by simp
  from isolation_keeps_gateway [OF h a p(1) r [unfolded f]] p(2,3) show ?thesis using r by auto
qed

end
