(* ===== verification/Agent_Config.thy ===== *)
theory Agent_Config
  imports Gateway_Props
begin

text \<open>
  How a configuration reaches an endpoint: the agent asks once when it starts, then polls and restarts on a
  higher version (\<^verbatim>\<open>cmd/agent/main.go\<close>, \<^verbatim>\<open>FetchConfig\<close> of \<^verbatim>\<open>internal/agent/shipper.go\<close>), against the
  gateway's handler and the revisions of \<^verbatim>\<open>internal/enroll\<close>.
\<close>

section \<open>The agent\<close>

text \<open>What a fetch makes of the response: an error, no configuration (204), or one.\<close>

definition FetchConfig :: "agent_config response option \<Rightarrow> agent_config option option" where
  "FetchConfig resp = (case resp of
     None \<Rightarrow> None
   | Some NoContent \<Rightarrow> Some None
   | Some (Reply c) \<Rightarrow> Some (Some c)
   | Some (HttpError _ _) \<Rightarrow> None)"

text \<open>\<^verbatim>\<open>resolveSources\<close>: one log file from the environment, or the defaults of the platform.\<close>

definition resolveSources :: "string \<Rightarrow> string \<Rightarrow> string \<Rightarrow> source list" where
  "resolveSources LOG_FILE DATASET goos =
     (if LOG_FILE \<noteq> [] then [plain_source (if DATASET \<noteq> [] then DATASET else ''file'') ''file'' LOG_FILE]
      else DefaultSourcesFor goos)"

text \<open>The sources and version an agent starts with; \<open>None\<close> is the fatal end of an agent without sources.\<close>

definition agent_start :: "source list \<Rightarrow> agent_config option option \<Rightarrow> (source list \<times> int) option" where
  "agent_start defaults fetched =
     (let (sources, version) =
        (case fetched of
           Some (Some cfg) \<Rightarrow> if cfg_Sources cfg \<noteq> [] then (cfg_Sources cfg, cfg_Version cfg) else (defaults, 0)
         | _ \<Rightarrow> (defaults, 0))
      in if sources = [] then None else Some (sources, version))"

text \<open>A tick of \<^verbatim>\<open>watchConfig\<close>: whether the agent stops, to be started again.\<close>

definition watchConfig :: "int \<Rightarrow> agent_config option option \<Rightarrow> bool" where
  "watchConfig current fetched =
     (case fetched of Some (Some cfg) \<Rightarrow> cfg_Version cfg > current | _ \<Rightarrow> False)"

section \<open>What is served\<close>

definition fetch_config :: "request \<Rightarrow> ('i, 'f) gateway_world \<Rightarrow> agent_config option option" where
  "fetch_config r g = FetchConfig (Some (fst (serve_config r g)))"

lemma fetch_served:
  assumes "en_wf (gw_enroll g)" "db_faults (gw_enroll g) = []" "a \<in> set (en_agents (gw_enroll g))" "\<not> ag_revoked a"
    "ag_name a = peer_cn r" "peer_cn r \<noteq> []"
  shows "fetch_config r g = Some (map_option (\<lambda>c. c\<lparr>cfg_Version := ag_config_rev a\<rparr>) (served (gw_enroll g) a))"
proof -
  let ?w = "gw_enroll g"
  have q: "query ?w = (False, ?w)" using assms(2) by (rule query_no_faults)
  have u: "x = a" if "x \<in> set (en_agents ?w)" "ag_name x = peer_cn r" for x
    using that assms(1,3,5) unfolding en_wf_def by (metis distinct_map inj_onD)
  have "find (\<lambda>x. ag_name x = peer_cn r \<and> \<not> ag_revoked x) (en_agents ?w) = Some a"
  proof (cases "find (\<lambda>x. ag_name x = peer_cn r \<and> \<not> ag_revoked x) (en_agents ?w)")
    case None
    then show ?thesis using assms(3-5) by (auto simp: find_None_iff)
  next
    case (Some y)
    then have "y \<in> set (en_agents ?w)" "ag_name y = peer_cn r" by (auto simp: find_Some_iff in_set_conv_nth)
    with u Some show ?thesis by simp
  qed
  then have "GetConfigByName (peer_cn r) ?w =
      (Inr (map_option (\<lambda>c. c\<lparr>cfg_Version := ag_config_rev a\<rparr>) (served ?w a)), ?w)"
    unfolding GetConfigByName_def q prod.case bool.case served_def by simp
  then show ?thesis
    using assms(6) by (simp add: fetch_config_def serve_config_def ConfigHandler_def cfgFunc_def on_enroll_def FetchConfig_def
        split: option.split)
qed

text \<open>The agent stays registered and unrevoked through a run.\<close>

fun stays :: "string \<Rightarrow> en_op list \<Rightarrow> enroll_db \<Rightarrow> bool" where
  "stays u [] w \<longleftrightarrow> (\<exists>a \<in> set (en_agents w). ag_id a = u \<and> \<not> ag_revoked a)"
| "stays u (op # ops) w \<longleftrightarrow> (\<exists>a \<in> set (en_agents w). ag_id a = u \<and> \<not> ag_revoked a) \<and> stays u ops (exec_op op w)"

lemma stays_now: "stays u ops w \<Longrightarrow> \<exists>a \<in> set (en_agents w). ag_id a = u \<and> \<not> ag_revoked a"
  by (cases ops) auto

lemma revision_run:
  assumes "en_wf w" "inj (db_uuid w)" "stays u ops w" "a \<in> set (en_agents w)" "ag_id a = u"
    "b \<in> set (en_agents (fold exec_op ops w))" "ag_id b = u"
    "v \<le> ag_config_rev a" "served w a \<noteq> c \<longrightarrow> v < ag_config_rev a"
  shows "served (fold exec_op ops w) b \<noteq> c \<longrightarrow> v < ag_config_rev b"
  using assms
proof (induction ops arbitrary: w a)
  case Nil
  then have "a = b" unfolding en_wf_def by (metis distinct_map fold_simps(1) inj_onD)
  with Nil show ?case by simp
next
  case (Cons op ops)
  let ?w = "exec_op op w"
  have m: "en_move w ?w" by (rule exec_op_move)
  have wf: "en_wf ?w" using m Cons.prems(1,2) by (rule en_wf_move)
  have s: "stays u ops ?w" using Cons.prems(3) by simp
  then obtain a' where a': "a' \<in> set (en_agents ?w)" "ag_id a' = u" using stays_now by blast
  have na: "\<not> ag_revoked a"
    using stays_now [OF Cons.prems(3)] Cons.prems(1,4,5) unfolding en_wf_def by (metis distinct_map inj_onD)
  have "ag_id a' = ag_id a" using a'(2) Cons.prems(5) by simp
  from rev_move [OF m Cons.prems(1,2,4) a'(1) this] na
  have r: "ag_config_rev a \<le> ag_config_rev a'" "served ?w a' \<noteq> served w a \<longrightarrow> ag_config_rev a < ag_config_rev a'" by simp_all
  have "v \<le> ag_config_rev a'" "served ?w a' \<noteq> c \<longrightarrow> v < ag_config_rev a'"
    using r Cons.prems(8,9) by auto
  from Cons.IH [OF wf _ s a' _ _ this] Cons.prems(2,6,7) show ?case by simp
qed

text \<open>
  C24: a configuration push reaches the endpoint. An agent that started on a configuration of the manager, and
  whose registration lasts through any operations since, either finds at its next poll that it must restart, and
  then starts on the sources it is served now, or is already running them. Nothing is overlooked because two
  configurations carry the same number.
\<close>

theorem config_push_reaches_agent:
  assumes "en_reach w l" "inj (db_uuid w)" "stays u ops w"
    "a \<in> set (en_agents w)" "ag_id a = u" "served w a = Some c" "cfg_Sources c \<noteq> []"
    "gw_enroll g = fold exec_op ops w" "db_faults (gw_enroll g) = []"
    "b \<in> set (en_agents (gw_enroll g))" "ag_id b = u" "ag_name b = peer_cn r" "peer_cn r \<noteq> []"
    "served (gw_enroll g) b = Some c'" "cfg_Sources c' \<noteq> []"
    and running: "agent_start defaults (Some (Some (c\<lparr>cfg_Version := ag_config_rev a\<rparr>))) = Some (sources, version)"
  shows "if watchConfig version (fetch_config r g)
    then agent_start defaults (fetch_config r g) = Some (cfg_Sources c', ag_config_rev b)
    else sources = cfg_Sources c'"
proof -
  have wf: "en_wf w" using reach_uuid [OF assms(1,2)] by simp
  have wf': "en_wf (fold exec_op ops w)"
    using enroll_reach_wf [OF assms(1,2)] by blast
  have "\<exists>x \<in> set (en_agents (fold exec_op ops w)). ag_id x = u \<and> \<not> ag_revoked x"
    using assms(3) by (induction ops arbitrary: w) simp_all
  then have nb: "\<not> ag_revoked b" using wf' assms(8,10,11) unfolding en_wf_def by (metis distinct_map inj_onD)
  have f: "fetch_config r g = Some (Some (c'\<lparr>cfg_Version := ag_config_rev b\<rparr>))"
    using fetch_served [OF _ assms(9,10) nb assms(12,13)] wf' assms(8,14) by simp
  have sv: "sources = cfg_Sources c" "version = ag_config_rev a"
    using running assms(7) by (simp_all add: agent_start_def)
  have "served (gw_enroll g) b \<noteq> Some c \<longrightarrow> ag_config_rev a < ag_config_rev b"
    using revision_run [OF wf assms(2-5), of b "ag_config_rev a" "Some c"] assms(6,8,10,11) by simp
  then show ?thesis using f sv assms(14,15) by (auto simp: watchConfig_def agent_start_def)
qed

text \<open>
  an agent whose policy has no sources restarts for ever. Whenever the configuration it is served lists none
  and its revision is not zero, every start falls back to the defaults with version zero, and the first poll
  after it stops the agent again.
\<close>

theorem empty_policy_restarts_forever:
  assumes "en_wf (gw_enroll g)" "db_faults (gw_enroll g) = []" "a \<in> set (en_agents (gw_enroll g))" "\<not> ag_revoked a"
    "ag_name a = peer_cn r" "peer_cn r \<noteq> []" "served (gw_enroll g) a = Some c" "cfg_Sources c = []" "0 < ag_config_rev a"
    "agent_start defaults (fetch_config r g) = Some (sources, version)"
  shows "sources = defaults \<and> watchConfig version (fetch_config r g)"
  using fetch_served [OF assms(1-6)] assms(7-) by (auto simp: agent_start_def watchConfig_def Let_def split: if_splits)

text \<open>
  taking a configuration away does not reach a running agent. When neither the agent nor a group has one any
  more, the poll never stops the agent, whatever version it runs and however far its revision has risen, so it
  keeps collecting by the configuration that was cleared.
\<close>

theorem cleared_config_never_applied:
  assumes "en_wf (gw_enroll g)" "db_faults (gw_enroll g) = []" "a \<in> set (en_agents (gw_enroll g))" "\<not> ag_revoked a"
    "ag_name a = peer_cn r" "peer_cn r \<noteq> []" "served (gw_enroll g) a = None"
  shows "\<not> watchConfig version (fetch_config r g)"
  using fetch_served [OF assms(1-6)] assms(7) by (simp add: watchConfig_def)

section \<open>Examples\<close>

definition demo_with :: "enroll_db \<Rightarrow> (string, unit) gateway_world" where
  "demo_with w = demo_gateway\<lparr>gw_enroll := w\<rparr>"

definition demo_get :: request where
  "demo_get = \<lparr>rq_Method = ''GET'', rq_Cert = Some (''web-1'', ''s''), rq_Body = Some []\<rparr>"

abbreviation demo_agent :: "enroll_db \<Rightarrow> agent_row" where
  "demo_agent w \<equiv> hd (en_agents w)"

definition demo_push :: "en_op list" where
  "demo_push = [OpSetConfig [] [plain_source ''app'' ''file'' ''/var/log/app.log'']]"

definition demo_label :: "en_op list" where
  "demo_label = [OpCreateGroup ''servers'' [] [], OpSetAgentGroup [] ''u'']"

lemma demo_enrolled_wf: "en_wf (fold exec_op ops demo_enrolled)"
  using demo_enrolled_reach enroll_reach_wf by blast

lemma demo_get_cn: "peer_cn demo_get \<noteq> []" "peer_cn demo_get = ''web-1''"
  by (simp_all add: demo_get_def peer_cn_def)

theorem config_push_reaches_agent_witness:
  "\<exists>sources version. agent_start [] (fetch_config demo_get (demo_with demo_enrolled)) = Some (sources, version) \<and>
     watchConfig version (fetch_config demo_get (demo_with (fold exec_op demo_push demo_enrolled))) \<and>
     agent_start [] (fetch_config demo_get (demo_with (fold exec_op demo_push demo_enrolled)))
       = Some ([plain_source ''app'' ''file'' ''/var/log/app.log''], 1)"
proof -
  let ?w = demo_enrolled and ?w' = "fold exec_op demo_push demo_enrolled"
  let ?c = "the (served ?w (demo_agent ?w))" and ?c' = "the (served ?w' (demo_agent ?w'))"
  obtain l where l: "en_reach ?w l" using demo_enrolled_reach(1) by blast
  have st: "stays [] demo_push ?w" by code_simp
  have a: "demo_agent ?w \<in> set (en_agents ?w)" by (rule hd_in_set) code_simp
  have b: "demo_agent ?w' \<in> set (en_agents (gw_enroll (demo_with ?w')))"
    unfolding demo_with_def by simp (rule hd_in_set, code_simp)
  have i: "ag_id (demo_agent ?w) = []" "ag_id (demo_agent ?w') = []" by code_simp+
  have s: "served ?w (demo_agent ?w) = Some ?c" "cfg_Sources ?c \<noteq> []" by code_simp+
  have s': "served ?w' (demo_agent ?w') = Some ?c'" "cfg_Sources ?c' \<noteq> []" by code_simp+
  have g: "gw_enroll (demo_with ?w') = ?w'" by (simp add: demo_with_def)
  have f: "db_faults (gw_enroll (demo_with ?w')) = []" unfolding g by code_simp
  have n: "ag_name (demo_agent ?w') = peer_cn demo_get" by code_simp
  have st0: "agent_start [] (fetch_config demo_get (demo_with ?w)) = Some (cfg_Sources ?c, 0)" by code_simp
  have run: "agent_start [] (Some (Some (?c\<lparr>cfg_Version := ag_config_rev (demo_agent ?w)\<rparr>))) = Some (cfg_Sources ?c, 0)" by code_simp
  have w: "watchConfig 0 (fetch_config demo_get (demo_with ?w'))" by code_simp
  have c: "cfg_Sources ?c' = [plain_source ''app'' ''file'' ''/var/log/app.log'']" by code_simp
  note push = config_push_reaches_agent [OF l demo_enrolled_reach(2) st a i(1) s g f b i(2) n demo_get_cn(1) _ s'(2) run]
  have "agent_start [] (fetch_config demo_get (demo_with ?w')) = Some (cfg_Sources ?c', ag_config_rev (demo_agent ?w'))"
    using push w s'(1) g by simp
  moreover have "ag_config_rev (demo_agent ?w') = 1" by code_simp
  ultimately show ?thesis using st0 w c by simp
qed

theorem empty_policy_restarts_forever_witness:
  "watchConfig 0 (fetch_config demo_get (demo_with (fold exec_op demo_label demo_enrolled)))"
proof -
  let ?w = "fold exec_op demo_label demo_enrolled" let ?g = "demo_with ?w"
  have g: "gw_enroll ?g = ?w" by (simp add: demo_with_def)
  have f: "db_faults (gw_enroll ?g) = []" unfolding g by code_simp
  have a: "demo_agent ?w \<in> set (en_agents (gw_enroll ?g))" unfolding g by (rule hd_in_set) code_simp
  have r: "\<not> ag_revoked (demo_agent ?w)" "ag_name (demo_agent ?w) = peer_cn demo_get" by code_simp+
  have s: "served (gw_enroll ?g) (demo_agent ?w) = Some \<lparr>cfg_Version = 0, cfg_Sources = []\<rparr>" unfolding g by code_simp
  have v: "0 < ag_config_rev (demo_agent ?w)" by code_simp
  have e: "agent_start (DefaultSourcesFor ''linux'') (fetch_config demo_get ?g) = Some (DefaultSourcesFor ''linux'', 0)" by code_simp
  have wf: "en_wf (gw_enroll ?g)" unfolding g by (rule demo_enrolled_wf)
  show ?thesis using empty_policy_restarts_forever [OF wf f a r demo_get_cn(1) s _ v e] by simp
qed

theorem cleared_config_never_applied_witness:
  "0 < ag_config_rev (demo_agent (exec_op (OpClearConfig []) demo_enrolled)) \<and>
   \<not> watchConfig 0 (fetch_config demo_get (demo_with (exec_op (OpClearConfig []) demo_enrolled)))"
proof -
  let ?w = "exec_op (OpClearConfig []) demo_enrolled" let ?g = "demo_with ?w"
  have g: "gw_enroll ?g = ?w" by (simp add: demo_with_def)
  have f: "db_faults (gw_enroll ?g) = []" unfolding g by code_simp
  have a: "demo_agent ?w \<in> set (en_agents (gw_enroll ?g))" unfolding g by (rule hd_in_set) code_simp
  have r: "\<not> ag_revoked (demo_agent ?w)" "ag_name (demo_agent ?w) = peer_cn demo_get" by code_simp+
  have s: "served (gw_enroll ?g) (demo_agent ?w) = None" unfolding g by code_simp
  have v: "0 < ag_config_rev (demo_agent ?w)" by code_simp
  have wf: "en_wf (gw_enroll ?g)" unfolding g using demo_enrolled_wf [of "[OpClearConfig []]"] by simp
  show ?thesis using cleared_config_never_applied [OF wf f a r demo_get_cn(1) s] v by blast
qed

end
