(* ===== verification/Agent_Buffer.thy ===== *)
theory Agent_Buffer
  imports Gateway_Props "HOL-Library.Multiset"
begin

text \<open>
  Store and forward on the endpoint: the buffer of \<^verbatim>\<open>internal/agent/buffer.go\<close>, the batches of
  \<^verbatim>\<open>cmd/agent/main.go\<close> that are sent or buffered, and the loop that resends them, down to the gateway's
  answer.

  The directory is the list of its entries, name and content; \<open>dk_faults\<close> is the outcome of the next disk
  operations (a failed one changes nothing). A batch is sent through a function that answers whether the gateway
  replied 200.
\<close>

section \<open>File names\<close>

definition buffer_name :: "nat \<Rightarrow> nat \<Rightarrow> string" where
  "buffer_name t s = pad_dec 20 t @ ''-'' @ pad_dec 6 (s mod 1000000) @ ''.json''"

section \<open>The buffer\<close>

record disk =
  dk_files :: "(string \<times> string) list"
  dk_time :: nat
  dk_seq :: nat
  dk_faults :: "bool list"

definition disk_op :: "disk \<Rightarrow> bool \<times> disk" where
  "disk_op d = (case dk_faults d of [] \<Rightarrow> (False, d) | b # bs \<Rightarrow> (b, d\<lparr>dk_faults := bs\<rparr>))"

definition buffer_max :: "int \<Rightarrow> nat" where
  "buffer_max limit = nat (if limit \<le> 0 then 1000 else limit)"

definition json_files :: "(string \<times> string) list \<Rightarrow> string list" where
  "json_files fs = sort (filter (\<lambda>n. has_suffix n ''.json'') (map fst fs))"

definition Pending :: "disk \<Rightarrow> string list option \<times> disk" where
  "Pending d = (case disk_op d of (True, d1) \<Rightarrow> (None, d1) | (False, d1) \<Rightarrow> (Some (json_files (dk_files d1)), d1))"

definition Remove :: "string \<Rightarrow> disk \<Rightarrow> disk" where
  "Remove path d = (case disk_op d of
     (True, d1) \<Rightarrow> d1
   | (False, d1) \<Rightarrow> d1\<lparr>dk_files := filter (\<lambda>f. fst f \<noteq> path) (dk_files d1)\<rparr>)"

definition prune_files :: "nat \<Rightarrow> disk \<Rightarrow> bool \<times> disk" where
  "prune_files limit d = (case Pending d of
     (None, d1) \<Rightarrow> (False, d1)
   | (Some files, d1) \<Rightarrow>
       if length files \<le> limit then (True, d1)
       else (True, fold Remove (take (length files - limit) files) d1))"

definition Save :: "nat \<Rightarrow> string \<Rightarrow> disk \<Rightarrow> bool \<times> disk" where
  "Save limit body d =
     (let name = buffer_name (dk_time d) (dk_seq d + 1) in
      case disk_op (d\<lparr>dk_seq := dk_seq d + 1\<rparr>) of
        (True, d1) \<Rightarrow> (False, d1)
      | (False, d1) \<Rightarrow> prune_files limit (d1\<lparr>dk_files := filter (\<lambda>f. fst f \<noteq> name) (dk_files d1) @ [(name, body)]\<rparr>))"

definition read_file :: "string \<Rightarrow> disk \<Rightarrow> string option \<times> disk" where
  "read_file path d = (case disk_op d of
     (True, d1) \<Rightarrow> (None, d1)
   | (False, d1) \<Rightarrow> (map_of (dk_files d1) path, d1))"

section \<open>Sending\<close>

text \<open>\<open>flush\<close> of the agent's main loop, for a batch that is not empty, with the body it encodes to.\<close>

definition flush_lines :: "(string \<Rightarrow> 's \<Rightarrow> bool \<times> 's) \<Rightarrow> nat \<Rightarrow> string \<Rightarrow> disk \<times> 's \<Rightarrow> disk \<times> 's" where
  "flush_lines send limit body x =
     (case x of (d, s) \<Rightarrow>
        (case send body s of
           (True, s1) \<Rightarrow> (d, s1)
         | (False, s1) \<Rightarrow> (snd (Save limit body d), s1)))"

text \<open>One round of \<^verbatim>\<open>drainBuffer\<close>: a file that cannot be read is dropped, the first failed resend ends the round.\<close>

fun drain_files :: "(string \<Rightarrow> 's \<Rightarrow> bool \<times> 's) \<Rightarrow> string list \<Rightarrow> disk \<times> 's \<Rightarrow> disk \<times> 's" where
  "drain_files send [] x = x"
| "drain_files send (f # fs) (d, s) =
     (case read_file f d of
        (None, d1) \<Rightarrow> drain_files send fs (Remove f d1, s)
      | (Some body, d1) \<Rightarrow>
          (case send body s of
             (False, s1) \<Rightarrow> (d1, s1)
           | (True, s1) \<Rightarrow> drain_files send fs (Remove f d1, s1)))"

definition drainBuffer :: "(string \<Rightarrow> 's \<Rightarrow> bool \<times> 's) \<Rightarrow> disk \<times> 's \<Rightarrow> disk \<times> 's" where
  "drainBuffer send x =
     (case x of (d, s) \<Rightarrow>
        (case Pending d of
           (None, d1) \<Rightarrow> (d1, s)
         | (Some files, d1) \<Rightarrow> drain_files send files (d1, s)))"

text \<open>\<^verbatim>\<open>SendRaw\<close> to a gateway that can be reached, with the agent's certificate.\<close>

definition SendRaw ::
    "(string \<Rightarrow> raw_log list option) \<Rightarrow> (raw_log \<Rightarrow> string option) \<Rightarrow> string \<times> string \<Rightarrow>
     string \<Rightarrow> ('i, 'f) gateway_world \<Rightarrow> bool \<times> ('i, 'f) gateway_world" where
  "SendRaw json encode cert body g =
     (case serve_logs json encode \<lparr>rq_Method = ''POST'', rq_Cert = Some cert, rq_Body = Some body\<rparr> g of
        (Reply _, g1) \<Rightarrow> (True, g1)
      | (_, g1) \<Rightarrow> (False, g1))"

section \<open>Names sort by age\<close>

lemma length_nat_to_dec: "n < 10 ^ w \<Longrightarrow> 0 < w \<Longrightarrow> length (nat_to_dec n) \<le> w"
proof (induction w arbitrary: n)
  case (Suc w)
  show ?case
  proof (cases "n < 10")
    case True
    then show ?thesis by (subst nat_to_dec.simps) simp
  next
    case False
    then have "0 < w" using Suc.prems by (cases w) auto
    moreover have "n div 10 < 10 ^ w" using Suc.prems by (simp add: less_mult_imp_div_less mult.commute)
    ultimately show ?thesis using Suc.IH [of "n div 10"] False by (subst nat_to_dec.simps) simp
  qed
qed simp

fun fixed :: "nat \<Rightarrow> nat \<Rightarrow> string" where
  "fixed 0 n = []"
| "fixed (Suc w) n = fixed w (n div 10) @ [char_of (48 + n mod 10)]"

lemma length_fixed [simp]: "length (fixed w n) = w"
  by (induction w arbitrary: n) auto

lemma char_zero: "char_of (48 :: nat) = CHR ''0''"
  by code_simp

lemma fixed_zero: "fixed w 0 = replicate w CHR ''0''"
  by (induction w) (simp_all add: replicate_append_same [symmetric] char_zero)

lemma pad_fixed: "n < 10 ^ w \<Longrightarrow> 0 < w \<Longrightarrow> pad_dec w n = fixed w n"
proof (induction w arbitrary: n)
  case (Suc w)
  show ?case
  proof (cases "n < 10")
    case True
    then have "nat_to_dec n = [char_of (48 + n)]" by (subst nat_to_dec.simps) simp
    with True show ?thesis by (simp add: pad_dec_def fixed_zero)
  next
    case False
    then have w: "0 < w" using Suc.prems by (cases w) auto
    have n: "n div 10 < 10 ^ w" using Suc.prems by (simp add: less_mult_imp_div_less mult.commute)
    have d: "nat_to_dec n = nat_to_dec (n div 10) @ [char_of (48 + n mod 10)]" using False by (subst nat_to_dec.simps) simp
    show ?thesis using Suc.IH [OF n w] by (simp add: pad_dec_def d)
  qed
qed simp

lemma char_digit_less: "a < b \<Longrightarrow> b < 10 \<Longrightarrow> char_of (48 + a :: nat) < char_of (48 + b)"
  by (simp add: less_char_def)

lemma less_append_same:
  fixes xs ys :: string
  assumes "length xs = length ys"
  shows "xs @ us < ys @ vs \<longleftrightarrow> xs < ys \<or> (xs = ys \<and> us < vs)"
  using assms by (induction xs ys rule: list_induct2) auto

lemma fixed_less: "a < b \<Longrightarrow> b < 10 ^ w \<Longrightarrow> fixed w a < fixed w b"
proof (induction w arbitrary: a b)
  case (Suc w)
  show ?case
  proof (cases "a div 10 < b div 10")
    case True
    moreover have "b div 10 < 10 ^ w" using Suc.prems by (simp add: less_mult_imp_div_less mult.commute)
    ultimately show ?thesis using Suc.IH by (simp add: less_append_same)
  next
    case False
    then have "a div 10 = b div 10" using Suc.prems(1) by (meson div_le_mono le_antisym not_less less_imp_le)
    moreover have "a mod 10 < b mod 10"
      using Suc.prems(1) \<open>a div 10 = b div 10\<close> by (metis div_mult_mod_eq nat_add_left_cancel_less)
    ultimately show ?thesis by (simp add: less_append_same char_digit_less)
  qed
qed simp

text \<open>A later name is a greater one, up to the year 5138 and a million files within a nanosecond.\<close>

lemma buffer_name_less:
  assumes "t < t' \<or> (t = t' \<and> s mod 1000000 < s' mod 1000000)" "t' < 10 ^ 20"
  shows "buffer_name t s < buffer_name t' s'"
proof -
  have t: "pad_dec 20 t = fixed 20 t" "pad_dec 20 t' = fixed 20 t'" using assms by (auto intro: pad_fixed)
  have s: "pad_dec 6 (s mod 1000000) = fixed 6 (s mod 1000000)" "pad_dec 6 (s' mod 1000000) = fixed 6 (s' mod 1000000)"
    by (auto intro: pad_fixed)
  show ?thesis
    using assms(1)
  proof
    assume "t < t'"
    then show ?thesis using fixed_less [OF _ assms(2)] by (simp add: buffer_name_def t less_append_same)
  next
    assume "t = t' \<and> s mod 1000000 < s' mod 1000000"
    then show ?thesis using fixed_less [of "s mod 1000000" "s' mod 1000000" 6]
      by (simp add: buffer_name_def t s less_append_same)
  qed
qed

section \<open>The disk without failures\<close>

definition file_names :: "disk \<Rightarrow> string list" where
  "file_names d = map fst (dk_files d)"

text \<open>Only buffer files, of earlier moments, each once, and the disk works.\<close>

definition disk_ok :: "disk \<Rightarrow> bool" where
  "disk_ok d \<longleftrightarrow> dk_faults d = [] \<and> distinct (file_names d) \<and>
     (\<forall>n \<in> set (file_names d). has_suffix n ''.json'' \<and> (\<exists>t s. n = buffer_name t s \<and> t < dk_time d))"

lemma disk_op_ok [simp]: "dk_faults d = [] \<Longrightarrow> disk_op d = (False, d)"
  by (simp add: disk_op_def)

lemma Pending_ok [simp]: "dk_faults d = [] \<Longrightarrow> Pending d = (Some (json_files (dk_files d)), d)"
  by (simp add: Pending_def)

lemma Remove_ok [simp]: "dk_faults d = [] \<Longrightarrow> Remove f d = d\<lparr>dk_files := filter (\<lambda>x. fst x \<noteq> f) (dk_files d)\<rparr>"
  by (simp add: Remove_def)

lemma fold_Remove_ok:
  "dk_faults d = [] \<Longrightarrow> fold Remove fs d = d\<lparr>dk_files := filter (\<lambda>x. fst x \<notin> set fs) (dk_files d)\<rparr>"
proof (induction fs arbitrary: d)
  case (Cons f fs)
  then show ?case by (simp add: conj_commute)
qed simp

lemma buffer_name_json [simp]: "has_suffix (buffer_name t s) ''.json''"
  unfolding has_suffix_iff buffer_name_def by (simp add: suffix_def)

lemma json_files_all:
  assumes "\<forall>n \<in> set (map fst fs). has_suffix n ''.json''"
  shows "json_files fs = sort (map fst fs)"
  unfolding json_files_def using assms by (simp cong: filter_cong)

lemma disk_ok_json: "disk_ok d \<Longrightarrow> json_files (dk_files d) = sort (file_names d)"
  by (simp add: disk_ok_def file_names_def json_files_all)

lemma sort_snoc_greatest:
  assumes "\<forall>x \<in> set xs. x < (y :: string)"
  shows "sort (xs @ [y]) = sort xs @ [y]"
  by (rule properties_for_sort) (use assms in \<open>auto simp: sorted_append less_imp_le\<close>)

lemma filter_not_take: "distinct xs \<Longrightarrow> filter (\<lambda>x. x \<notin> set (take k xs)) xs = drop k xs"
proof -
  assume "distinct xs"
  then have "set (take k xs) \<inter> set (drop k xs) = {}" by (metis append_take_drop_id distinct_append)
  then have "filter (\<lambda>x. x \<notin> set (take k xs)) (take k xs @ drop k xs) = drop k xs"
    unfolding filter_append by (simp add: filter_empty_conv filter_id_conv) blast
  then show ?thesis by simp
qed

lemma map_fst_filter: "map fst (filter (\<lambda>x. P (fst x)) fs) = filter P (map fst fs)"
  by (simp add: filter_map o_def)

lemma map_of_filter_key: "P k \<Longrightarrow> map_of (filter (\<lambda>x. P (fst x)) fs) k = map_of fs k"
  by (induction fs) auto

lemma prune_files_ok:
  assumes "dk_faults d = []"
  shows "prune_files limit d = (True, d\<lparr>dk_files := filter (\<lambda>x. fst x \<notin>
     set (take (length (json_files (dk_files d)) - limit) (json_files (dk_files d)))) (dk_files d)\<rparr>)"
proof (cases "length (json_files (dk_files d)) \<le> limit")
  case True
  have "d\<lparr>dk_files := dk_files d\<rparr> = d" by simp
  with True assms show ?thesis by (simp add: prune_files_def)
next
  case False
  then show ?thesis using assms by (simp add: prune_files_def fold_Remove_ok)
qed

text \<open>The file a save writes.\<close>

lemma save_writes:
  assumes "disk_ok d" "dk_time d < 10 ^ 20"
  shows "\<forall>n \<in> set (file_names d). n < buffer_name (dk_time d) (dk_seq d + 1)"
    "filter (\<lambda>f. fst f \<noteq> buffer_name (dk_time d) (dk_seq d + 1)) (dk_files d) = dk_files d"
proof -
  show less: "\<forall>n \<in> set (file_names d). n < buffer_name (dk_time d) (dk_seq d + 1)"
  proof
    fix n assume "n \<in> set (file_names d)"
    then obtain t s where "n = buffer_name t s" "t < dk_time d" using assms(1) unfolding disk_ok_def by blast
    then show "n < buffer_name (dk_time d) (dk_seq d + 1)" using buffer_name_less [OF _ assms(2)] by simp
  qed
  show "filter (\<lambda>f. fst f \<noteq> buffer_name (dk_time d) (dk_seq d + 1)) (dk_files d) = dk_files d"
    by (intro filter_True ballI) (use less in \<open>force simp: file_names_def\<close>)
qed

text \<open>
  the buffer holds at most its limit, and what it drops are the oldest batches. After a save to a working
  disk the files, oldest first, are the last \<open>limit\<close> of the earlier ones with the new one at the end, and the
  new one holds the batch.
\<close>

theorem save_keeps_newest:
  assumes "disk_ok d" "0 < limit" "dk_time d < 10 ^ 20" "Save limit body d = (ok, d')"
  defines "names \<equiv> sort (file_names d) @ [buffer_name (dk_time d) (dk_seq d + 1)]"
  shows "ok \<and> sort (file_names d') = drop (length names - limit) names \<and> length (dk_files d') \<le> limit \<and>
    map_of (dk_files d') (buffer_name (dk_time d) (dk_seq d + 1)) = Some body"
proof -
  define N where "N = buffer_name (dk_time d) (dk_seq d + 1)"
  define fs where "fs = dk_files d @ [(N, body)]"
  let ?k = "length names - limit"
  note new = save_writes [OF assms(1,3), folded N_def]
  have names: "names = sort (file_names d) @ [N]" by (simp add: names_def N_def)
  have f: "dk_faults d = []" using assms(1) by (simp add: disk_ok_def)
  have N: "N \<notin> set (file_names d)" using new(1) by blast
  have dist: "distinct names" using assms(1) N by (simp add: names disk_ok_def)
  have sn: "sort (file_names d @ [N]) = names" unfolding names by (rule sort_snoc_greatest) (rule new(1))
  have "json_files fs = sort (map fst fs)"
    by (rule json_files_all) (use assms(1) in \<open>simp add: disk_ok_def file_names_def fs_def N_def\<close>)
  then have json: "json_files fs = names" using sn by (simp add: file_names_def fs_def)
  have len: "length names = length (dk_files d) + 1" by (simp add: names file_names_def)
  have d': "ok \<and> dk_files d' = filter (\<lambda>x. fst x \<notin> set (take ?k names)) fs"
  proof -
    let ?d = "d\<lparr>dk_seq := dk_seq d + 1, dk_files := fs\<rparr>"
    have "Save limit body d = prune_files limit ?d"
      unfolding Save_def Let_def N_def [symmetric] using f new(2) by (simp add: fs_def)
    moreover have "prune_files limit ?d = (True, ?d\<lparr>dk_files := filter (\<lambda>x. fst x \<notin> set (take ?k names)) fs\<rparr>)"
      using prune_files_ok [of ?d limit] f by (simp add: json)
    ultimately show ?thesis using assms(4) by simp
  qed
  have srt: "sort (file_names d') = drop ?k names"
  proof -
    have "sort (file_names d') = sort (filter (\<lambda>n. n \<notin> set (take ?k names)) (file_names d @ [N]))"
      using d' map_fst_filter [of "\<lambda>n. n \<notin> set (take ?k names)" fs] by (simp add: file_names_def fs_def)
    also have "\<dots> = filter (\<lambda>n. n \<notin> set (take ?k names)) (sort (file_names d @ [N]))"
      by (simp add: filter_sort)
    also note sn
    finally show ?thesis using filter_not_take [OF dist] by simp
  qed
  have "length (dk_files d') = length (sort (file_names d'))" by (simp add: file_names_def)
  then have short: "length (dk_files d') \<le> limit" unfolding srt by simp
  have "N \<notin> set (take ?k names)"
  proof -
    have "take ?k names = take ?k (sort (file_names d))" using assms(2) by (simp add: names)
    then show ?thesis using N by (metis in_set_takeD set_sort)
  qed
  then have "map_of (dk_files d') N = map_of fs N"
    unfolding conjunct2 [OF d'] by (rule map_of_filter_key)
  moreover have "map_of fs N = Some body" using N by (simp add: fs_def file_names_def map_add_def map_of_eq_None_iff [THEN iffD2])
  ultimately show ?thesis unfolding N_def [symmetric] using d' srt short by simp
qed

section \<open>Runs\<close>

text \<open>A send that keeps the batches it was told had arrived.\<close>

definition logged :: "(string \<Rightarrow> 's \<Rightarrow> bool \<times> 's) \<Rightarrow> string \<Rightarrow> 's \<times> string list \<Rightarrow> bool \<times> ('s \<times> string list)" where
  "logged send body x = (case x of (s, l) \<Rightarrow>
     (case send body s of (True, s1) \<Rightarrow> (True, (s1, l @ [body])) | (False, s1) \<Rightarrow> (False, (s1, l))))"

text \<open>A batch of lines, a round of the resending loop, time passing, and anything that happens to the manager.\<close>

datatype 's ship_op = ShFlush string | ShDrain | ShWait nat | ShManager "'s \<Rightarrow> 's"

text \<open>Two batches are at least a nanosecond apart.\<close>

fun exec_ship :: "(string \<Rightarrow> 's \<Rightarrow> bool \<times> 's) \<Rightarrow> nat \<Rightarrow> 's ship_op \<Rightarrow> disk \<times> 's \<times> string list \<Rightarrow> disk \<times> 's \<times> string list" where
  "exec_ship send limit (ShFlush body) x =
     (case flush_lines (logged send) limit body x of (d, y) \<Rightarrow> (d\<lparr>dk_time := dk_time d + 1\<rparr>, y))"
| "exec_ship send limit ShDrain x = drainBuffer (logged send) x"
| "exec_ship send limit (ShWait n) (d, y) = (d\<lparr>dk_time := dk_time d + n\<rparr>, y)"
| "exec_ship send limit (ShManager f) (d, s, l) = (d, f s, l)"

fun flushed :: "'s ship_op list \<Rightarrow> string list" where
  "flushed [] = []"
| "flushed (ShFlush body # ops) = body # flushed ops"
| "flushed (_ # ops) = flushed ops"

text \<open>How far the clock moves over a run.\<close>

fun elapsed :: "'s ship_op list \<Rightarrow> nat" where
  "elapsed [] = 0"
| "elapsed (ShFlush body # ops) = 1 + elapsed ops"
| "elapsed (ShWait n # ops) = n + elapsed ops"
| "elapsed (_ # ops) = elapsed ops"

definition ship_inv :: "nat \<Rightarrow> string list \<Rightarrow> disk \<times> 's \<times> string list \<Rightarrow> bool" where
  "ship_inv n bs x \<longleftrightarrow> (case x of (d, s, l) \<Rightarrow>
     disk_ok d \<and> length (dk_files d) \<le> n \<and> (\<forall>b \<in> set bs. b \<in> set l \<or> b \<in> snd ` set (dk_files d)))"

lemma disk_ok_later: "disk_ok d \<Longrightarrow> t \<le> t' \<Longrightarrow> dk_time d = t \<Longrightarrow> disk_ok (d\<lparr>dk_time := t'\<rparr>)"
  unfolding disk_ok_def file_names_def by fastforce

lemma read_ok: "dk_faults d = [] \<Longrightarrow> read_file f d = (map_of (dk_files d) f, d)"
  by (simp add: read_file_def)

text \<open>Removing a file that was delivered, or was not there, keeps the invariant.\<close>

lemma ship_inv_remove:
  assumes "ship_inv n bs (d, s, l)" "\<forall>b. map_of (dk_files d) f = Some b \<longrightarrow> b \<in> set l'" "set l \<subseteq> set l'"
  shows "ship_inv n bs (Remove f d, s', l')"
proof -
  have ok: "disk_ok d" and len: "length (dk_files d) \<le> n"
    and all: "\<forall>b \<in> set bs. b \<in> set l \<or> b \<in> snd ` set (dk_files d)" using assms(1) by (simp_all add: ship_inv_def)
  have r: "Remove f d = d\<lparr>dk_files := filter (\<lambda>x. fst x \<noteq> f) (dk_files d)\<rparr>" using ok by (simp add: disk_ok_def)
  have "disk_ok (Remove f d)"
    using ok unfolding r disk_ok_def file_names_def by (auto simp: distinct_map_filter)
  moreover have "length (dk_files (Remove f d)) \<le> n" using len unfolding r by (simp add: le_trans [OF length_filter_le])
  moreover have "b \<in> set l' \<or> b \<in> snd ` set (dk_files (Remove f d))" if "b \<in> set bs" for b
  proof (cases "b \<in> set l")
    case True
    then show ?thesis using assms(3) by blast
  next
    case False
    then have "b \<in> snd ` set (dk_files d)" using all that by blast
    then obtain k where k: "(k, b) \<in> set (dk_files d)" by force
    show ?thesis
    proof (cases "k = f")
      case True
      have "map_of (dk_files d) f = Some b" using k True ok by (simp add: disk_ok_def file_names_def)
      then show ?thesis using assms(2) by blast
    next
      case False
      with k show ?thesis unfolding r by force
    qed
  qed
  ultimately show ?thesis by (simp add: ship_inv_def)
qed

lemma ship_inv_drain:
  "ship_inv n bs (d, s, l) \<Longrightarrow> ship_inv n bs (drain_files (logged send) fs (d, s, l))"
proof (induction fs arbitrary: d s l)
  case (Cons f fs)
  have ok: "dk_faults d = []" using Cons.prems by (simp add: ship_inv_def disk_ok_def)
  show ?case
  proof (cases "map_of (dk_files d) f")
    case None
    have "ship_inv n bs (Remove f d, s, l)" by (rule ship_inv_remove [OF Cons.prems]) (simp_all add: None)
    then show ?thesis using Cons.IH by (simp add: read_ok ok None)
  next
    case (Some body)
    obtain b s1 where snd: "send body s = (b, s1)" by (cases "send body s")
    show ?thesis
    proof (cases b)
      case True
      have "ship_inv n bs (Remove f d, s1, l @ [body])" by (rule ship_inv_remove [OF Cons.prems]) (auto simp: Some)
      then show ?thesis using Cons.IH True by (simp add: read_ok ok Some logged_def snd)
    next
      case False
      have "ship_inv n bs (d, s1, l)" using Cons.prems by (simp add: ship_inv_def)
      then show ?thesis using False by (simp add: read_ok ok Some logged_def snd)
    qed
  qed
qed simp

lemma ship_inv_save:
  assumes "ship_inv n bs (d, s, l)" "n < limit" "dk_time d < 10 ^ 20" "Save limit body d = (ok, d')"
  shows "ship_inv (Suc n) (body # bs) (d'\<lparr>dk_time := dk_time d + 1\<rparr>, s', l)"
proof -
  let ?N = "buffer_name (dk_time d) (dk_seq d + 1)"
  have d: "disk_ok d" "length (dk_files d) \<le> n" using assms(1) by (simp_all add: ship_inv_def)
  have f: "dk_faults d = []" using d(1) by (simp add: disk_ok_def)
  note new = save_writes [OF d(1) assms(3)]
  define fs where "fs = dk_files d @ [(?N, body)]"
  let ?d = "d\<lparr>dk_seq := dk_seq d + 1, dk_files := fs\<rparr>"
  have s: "Save limit body d = prune_files limit ?d"
    unfolding Save_def Let_def using f new(2) by (simp add: fs_def)
  have "length (json_files fs) \<le> length fs"
    using length_filter_le [of _ "map fst fs"] by (simp add: json_files_def)
  then have "length (json_files fs) \<le> limit" using d(2) assms(2) by (simp add: fs_def)
  then have d': "d' = ?d" using assms(4) f unfolding s prune_files_def by simp
  have old: "\<forall>n \<in> set (file_names d). has_suffix n ''.json'' \<and> (\<exists>t s. n = buffer_name t s \<and> t < dk_time d + 1)"
    using d(1) unfolding disk_ok_def by (meson trans_less_add1)
  have "?N \<notin> set (file_names d)" using new(1) by blast
  moreover have "\<exists>t s. ?N = buffer_name t s \<and> t < dk_time d + 1" by (rule exI [of _ "dk_time d"]) auto
  moreover have "file_names (d'\<lparr>dk_time := dk_time d + 1\<rparr>) = file_names d @ [?N]" by (simp add: d' fs_def file_names_def)
  ultimately have "disk_ok (d'\<lparr>dk_time := dk_time d + 1\<rparr>)"
    using d(1) f old unfolding disk_ok_def by (simp add: d' ball_Un)
  moreover have "length (dk_files d') \<le> Suc n" using d(2) by (simp add: d' fs_def)
  ultimately show ?thesis using assms(1) by (auto simp: ship_inv_def d' fs_def)
qed


lemma ship_inv_exec:
  assumes "ship_inv n bs x" "n + length (flushed [op]) \<le> limit" "dk_time (fst (exec_ship send limit op x)) < 10 ^ 20"
  shows "ship_inv (n + length (flushed [op])) (flushed [op] @ bs) (exec_ship send limit op x)"
proof -
  obtain d s l where x: "x = (d, s, l)" by (cases x)
  have d: "disk_ok d" using assms(1) by (simp add: x ship_inv_def)
  show ?thesis
  proof (cases op)
    case (ShFlush body)
    obtain b s1 where snd: "send body s = (b, s1)" by (cases "send body s")
    show ?thesis
    proof (cases b)
      case True
      have "disk_ok (d\<lparr>dk_time := dk_time d + 1\<rparr>)" using d by (rule disk_ok_later) simp_all
      then show ?thesis using assms(1) True by (auto simp: x ShFlush flush_lines_def logged_def snd ship_inv_def)
    next
      case False
      obtain ok d' where sv: "Save limit body d = (ok, d')" by (cases "Save limit body d")
      have e: "exec_ship send limit op x = (d'\<lparr>dk_time := dk_time d' + 1\<rparr>, s1, l)"
        using False by (simp add: x ShFlush flush_lines_def logged_def snd sv)
      have "dk_time d' = dk_time d" using sv d by (auto simp: Save_def Let_def disk_ok_def prune_files_ok)
      moreover have "dk_time d < 10 ^ 20" using assms(3) calculation by (simp add: e)
      ultimately show ?thesis
        using ship_inv_save [OF assms(1) [unfolded x] _ _ sv] assms(2) unfolding e by (simp add: ShFlush)
    qed
  next
    case ShDrain
    have "dk_faults d = []" using d by (simp add: disk_ok_def)
    then show ?thesis using ship_inv_drain [OF assms(1) [unfolded x]] by (simp add: x ShDrain drainBuffer_def)
  next
    case (ShWait k)
    have "disk_ok (d\<lparr>dk_time := dk_time d + k\<rparr>)" using d by (rule disk_ok_later) simp_all
    then show ?thesis using assms(1) by (simp add: x ShWait ship_inv_def)
  next
    case (ShManager f)
    then show ?thesis using assms(1) by (simp add: x ship_inv_def)
  qed
qed

lemma flushed_append: "flushed (a @ b) = flushed a @ flushed b"
  by (induction a rule: flushed.induct) auto

lemma drain_frame:
  "dk_faults d = [] \<Longrightarrow> dk_faults (fst (drain_files send fs (d, s))) = [] \<and> dk_time (fst (drain_files send fs (d, s))) = dk_time d"
proof (induction fs arbitrary: d s)
  case (Cons f fs)
  then show ?case by (auto simp: read_ok split: option.splits prod.splits bool.splits)
qed simp

lemma exec_ship_frame:
  assumes "dk_faults (fst x) = []"
  shows "dk_faults (fst (exec_ship send limit op x)) = [] \<and> dk_time (fst (exec_ship send limit op x)) = dk_time (fst x) + elapsed [op]"
proof -
  obtain d s l where x: "x = (d, s, l)" by (cases x)
  have f: "dk_faults d = []" using assms by (simp add: x)
  have save: "dk_faults (snd (Save limit body d)) = [] \<and> dk_time (snd (Save limit body d)) = dk_time d" for body
    using f by (simp add: Save_def Let_def prune_files_ok)
  show ?thesis
  proof (cases op)
    case (ShFlush body)
    show ?thesis using f save [of body] unfolding x ShFlush exec_ship.simps flush_lines_def
      by (cases "logged send body (s, l)"; cases "fst (logged send body (s, l))") auto
  next
    case ShDrain
    then show ?thesis using f drain_frame [OF f, of "logged send"] by (simp add: x drainBuffer_def)
  qed (simp_all add: x f)
qed

lemma elapsed_Cons: "elapsed (op # ops) = elapsed [op] + elapsed ops"
  by (cases op) simp_all

lemma ship_inv_run:
  assumes "ship_inv n bs x" "n + length (flushed ops) \<le> limit" "dk_time (fst x) + elapsed ops < 10 ^ 20"
  shows "\<exists>bs'. set bs' = set bs \<union> set (flushed ops) \<and> ship_inv (n + length (flushed ops)) bs' (fold (exec_ship send limit) ops x)"
  using assms
proof (induction ops arbitrary: n bs x)
  case (Cons op ops)
  let ?x = "exec_ship send limit op x"
  have fl: "flushed (op # ops) = flushed [op] @ flushed ops" using flushed_append [of "[op]" ops] by simp
  have "dk_faults (fst x) = []" using Cons.prems(1) by (auto simp: ship_inv_def disk_ok_def)
  then have time: "dk_time (fst ?x) = dk_time (fst x) + elapsed [op]" using exec_ship_frame by blast
  then have t: "dk_time (fst ?x) < 10 ^ 20" "dk_time (fst ?x) + elapsed ops < 10 ^ 20"
    using Cons.prems(3) elapsed_Cons [of op ops] by simp_all
  have "ship_inv (n + length (flushed [op])) (flushed [op] @ bs) ?x"
    by (rule ship_inv_exec [OF Cons.prems(1) _ t(1)]) (use Cons.prems(2) fl in simp)
  from Cons.IH [OF this _ t(2)] Cons.prems(2) fl
  obtain bs' where "set bs' = set (flushed [op] @ bs) \<union> set (flushed ops)"
    "ship_inv (n + length (flushed [op]) + length (flushed ops)) bs' (fold (exec_ship send limit) ops ?x)" by auto
  then show ?case by (intro exI [of _ bs']) (auto simp: fl add.assoc)
qed auto

text \<open>
  C25: store and forward loses nothing within its limit. From an empty buffer on a working disk, however sends,
  resends and outages of the manager are interleaved, every batch of a run of at most \<open>limit\<close> batches has
  arrived or is still in the buffer.
\<close>

theorem nothing_lost_within_limit:
  assumes "dk_files d = []" "dk_faults d = []" "length (flushed ops) \<le> limit"
    "fold (exec_ship send limit) ops (d, s, []) = (d', s', l)" "dk_time d + elapsed ops < 10 ^ 20" "body \<in> set (flushed ops)"
  shows "body \<in> set l \<or> body \<in> snd ` set (dk_files d')"
proof -
  have "ship_inv 0 [] (d, s, [])" using assms(1,2) by (simp add: ship_inv_def disk_ok_def file_names_def)
  from ship_inv_run [OF this, of ops limit send] assms(3-5)
  obtain bs' where "set bs' = set (flushed ops)" "ship_inv (length (flushed ops)) bs' (d', s', l)" by auto
  with assms(6) show ?thesis by (auto simp: ship_inv_def)
qed

text \<open>
  when the manager is back, one round of resending empties the buffer, oldest batch first.
\<close>

theorem drain_delivers_oldest_first:
  assumes "disk_ok d" "\<And>b s. fst (send b s)"
  shows "\<exists>s'. drainBuffer (logged send) (d, s, l) =
    (d\<lparr>dk_files := []\<rparr>, s', l @ map (\<lambda>f. the (map_of (dk_files d) f)) (sort (file_names d)))"
proof -
  have step: "\<exists>s'. drain_files (logged send) fs (x, s, l) =
      (x\<lparr>dk_files := filter (\<lambda>f. fst f \<notin> set fs) (dk_files x)\<rparr>, s', l @ map (\<lambda>f. the (map_of (dk_files x) f)) fs)"
    if "dk_faults x = []" "distinct fs" "set fs \<subseteq> set (map fst (dk_files x))" for fs x s l
    using that
  proof (induction fs arbitrary: x s l)
    case (Cons f fs)
    obtain body where body: "map_of (dk_files x) f = Some body"
      using Cons.prems(3) by (cases "map_of (dk_files x) f") (auto simp: map_of_eq_None_iff)
    let ?x = "x\<lparr>dk_files := filter (\<lambda>y. fst y \<noteq> f) (dk_files x)\<rparr>"
    obtain s1 where s1: "send body s = (True, s1)" using assms(2) [of body s] by (cases "send body s") auto
    have lg: "logged send body (s, l) = (True, s1, l @ [body])" by (simp add: logged_def s1)
    have "set (map fst (dk_files ?x)) = set (map fst (dk_files x)) - {f}" by force
    then have sub: "set fs \<subseteq> set (map fst (dk_files ?x))" using Cons.prems(2,3) by auto
    have same: "map (\<lambda>g. the (map_of (dk_files ?x) g)) fs = map (\<lambda>g. the (map_of (dk_files x) g)) fs"
    proof (intro map_cong refl)
      fix g assume "g \<in> set fs"
      then have "g \<noteq> f" using Cons.prems(2) by auto
      then show "the (map_of (dk_files ?x) g) = the (map_of (dk_files x) g)" by (simp add: map_of_filter_key [of "\<lambda>k. k \<noteq> f"])
    qed
    from Cons.IH [of ?x s1 "l @ [body]"] Cons.prems(1,2) sub
    obtain s' where "drain_files (logged send) fs (?x, s1, l @ [body]) =
        (?x\<lparr>dk_files := filter (\<lambda>y. fst y \<notin> set fs) (dk_files ?x)\<rparr>, s', (l @ [body]) @ map (\<lambda>g. the (map_of (dk_files ?x) g)) fs)" by auto
    then show ?case
      unfolding same using Cons.prems(1) body by (intro exI [of _ s']) (simp add: read_ok lg conj_commute)
  qed simp
  have f: "dk_faults d = []" "distinct (sort (file_names d))" using assms(1) by (simp_all add: disk_ok_def)
  have sub: "set (sort (file_names d)) \<subseteq> set (map fst (dk_files d))" by (simp add: file_names_def)
  have "filter (\<lambda>f. fst f \<notin> set (sort (file_names d))) (dk_files d) = []" by (simp add: file_names_def filter_empty_conv)
  with step [OF f sub] show ?thesis
    using disk_ok_json [OF assms(1)] by (simp add: drainBuffer_def f(1))
qed

text \<open>
  a batch the gateway cannot accept blocks the buffer. While the oldest batch is longer than the gateway's
  limit for a body, every round of resending leaves the buffer and the gateway as they are, whatever the other
  batches are and although the gateway would take them.
\<close>

theorem oversized_batch_blocks_buffer:
  assumes "disk_ok d" "sort (file_names d) = f # fs" "map_of (dk_files d) f = Some body" "maxBodyBytes < length body"
  shows "(drainBuffer (SendRaw json encode cert) ^^ n) (d, g) = (d, g)"
proof (induction n)
  case (Suc n)
  have f: "dk_faults d = []" using assms(1) by (simp add: disk_ok_def)
  have "SendRaw json encode cert body g = (False, g)"
    using assms(4) by (simp add: SendRaw_def serve_logs_def LogsHandler_def read_all_def)
  then have "drainBuffer (SendRaw json encode cert) (d, g) = (d, g)"
    using disk_ok_json [OF assms(1)] assms(2,3) by (simp add: drainBuffer_def f read_ok)
  with Suc show ?case by simp
qed simp

section \<open>Examples\<close>

definition demo_disk :: disk where
  "demo_disk = \<lparr>dk_files = [(buffer_name 7 1, ''[1]''), (buffer_name 8 2, ''[2]'')], dk_time = 9, dk_seq = 2, dk_faults = []\<rparr>"

lemma demo_disk_ok: "disk_ok demo_disk"
  using buffer_name_less [of 7 8 1 2] by (auto simp: disk_ok_def demo_disk_def file_names_def)

lemma demo_disk_names: "sort (file_names demo_disk) = [buffer_name 7 1, buffer_name 8 2]"
  using buffer_name_less [of 7 8 1 2] by (simp add: demo_disk_def file_names_def less_imp_le)

theorem save_keeps_newest_witness:
  "length (dk_files (snd (Save 2 ''[3]'' demo_disk))) \<le> 2 \<and>
   map_of (dk_files (snd (Save 2 ''[3]'' demo_disk))) (buffer_name 9 3) = Some ''[3]''"
proof -
  obtain ok d' where s: "Save 2 ''[3]'' demo_disk = (ok, d')" by (cases "Save 2 ''[3]'' demo_disk")
  have "dk_time demo_disk < 10 ^ 20" "dk_time demo_disk = 9" "dk_seq demo_disk = 2" by (simp_all add: demo_disk_def)
  with save_keeps_newest [OF demo_disk_ok _ _ s] show ?thesis by (simp add: s)
qed

definition demo_ship :: "bool ship_op list" where
  "demo_ship = [ShFlush ''[1]'', ShManager (\<lambda>_. False), ShFlush ''[2]'', ShDrain, ShManager (\<lambda>_. True), ShWait 5, ShDrain]"

theorem nothing_lost_within_limit_witness:
  "\<exists>d' s' l. fold (exec_ship (\<lambda>b up. (up, up)) 1000) demo_ship
       (\<lparr>dk_files = [], dk_time = 0, dk_seq = 0, dk_faults = []\<rparr>, True, []) = (d', s', l) \<and>
     (''[2]'' \<in> set l \<or> ''[2]'' \<in> snd ` set (dk_files d'))"
proof -
  let ?d = "\<lparr>dk_files = [], dk_time = 0, dk_seq = 0, dk_faults = []\<rparr> :: disk"
  let ?x = "fold (exec_ship (\<lambda>b up. (up, up)) 1000) demo_ship (?d, True, [])"
  obtain d' s' l where x: "?x = (d', s', l)" by (cases ?x)
  have t: "dk_time ?d + elapsed demo_ship < 10 ^ 20" by (simp add: demo_ship_def)
  have n: "length (flushed demo_ship) \<le> 1000" "''[2]'' \<in> set (flushed demo_ship)" by (simp_all add: demo_ship_def)
  from nothing_lost_within_limit [OF _ _ n(1) x t n(2)] x show ?thesis by auto
qed

theorem drain_delivers_oldest_first_witness:
  "snd (snd (drainBuffer (logged (\<lambda>b s. (True, s))) (demo_disk, (), []))) = [''[1]'', ''[2]'']"
proof -
  obtain s' where "drainBuffer (logged (\<lambda>b s. (True, s))) (demo_disk, (), []) =
      (demo_disk\<lparr>dk_files := []\<rparr>, s', [] @ map (\<lambda>f. the (map_of (dk_files demo_disk) f)) (sort (file_names demo_disk)))"
    using drain_delivers_oldest_first [OF demo_disk_ok, of "\<lambda>b s. (True, s)" "()" "[]"] by auto
  moreover have "map (\<lambda>f. the (map_of (dk_files demo_disk) f)) (sort (file_names demo_disk)) = [''[1]'', ''[2]'']"
    using buffer_name_less [of 7 8 1 2] unfolding demo_disk_names by (auto simp: demo_disk_def)
  ultimately show ?thesis by simp
qed

theorem oversized_batch_blocks_buffer_witness:
  "\<exists>d. length (dk_files d) = 2 \<and> (drainBuffer (SendRaw demo_json demo_encode (''db-1'', ''s'')) ^^ 100) (d, demo_gateway) = (d, demo_gateway)"
proof -
  let ?big = "replicate (Suc maxBodyBytes) CHR ''x''"
  let ?d = "demo_disk\<lparr>dk_files := [(buffer_name 7 1, ?big), (buffer_name 8 2, ''[2]'')]\<rparr>"
  have n: "file_names ?d = file_names demo_disk" by (simp add: file_names_def demo_disk_def)
  have ok: "disk_ok ?d" using demo_disk_ok n by (simp add: disk_ok_def demo_disk_def)
  have m: "map_of (dk_files ?d) (buffer_name 7 1) = Some ?big" by simp
  have s: "sort (file_names ?d) = [buffer_name 7 1, buffer_name 8 2]" unfolding n by (rule demo_disk_names)
  from oversized_batch_blocks_buffer [OF ok s m, where n = 100] show ?thesis by (intro exI [of _ ?d]) simp
qed

end
