(* ===== verification/Agent_Kill.thy ===== *)
theory Agent_Kill
  imports Go_Net Go_Path
begin

text \<open>
  The endpoint's side of the kill switch, \<^verbatim>\<open>internal/agent/killproc.go\<close> and the parser of
  \<^verbatim>\<open>/proc/<pid>/stat\<close> in \<^verbatim>\<open>killproc_procstat.go\<close>: what is never killed, how the process under a PID
  is compared with the one that was detected, and the kill itself over any process table.

  The operating system is the pair of functions of \<^verbatim>\<open>ProcSource\<close> over a state of its own; the state may change
  with every call, so a process may exit or its PID be reused between two of them.
\<close>

section \<open>Targets\<close>

record proc_info =
  pi_PID :: int
  pi_PPID :: int
  pi_Name :: string
  pi_Exe :: string
  pi_Start :: string

record kill_target =
  kt_PID :: int
  kt_WantExe :: string
  kt_WantName :: string
  kt_WantStart :: string

datatype kill_outcome = KillDone | KillFailed | KillSkippedProtected | KillSkippedGone | KillSkippedMismatch | KillSkippedNoID

definition protectedNames :: "string list" where
  "protectedNames =
     [''init'', ''systemd'', ''kthreadd'', ''sshd'', ''dbus-daemon'', ''systemd-journald'', ''systemd-logind'', ''systemd-udevd'',
      ''auditd'', ''containerd'', ''dockerd'', ''launchd'', ''cron'', ''crond'', ''system'', ''smss.exe'', ''csrss.exe'',
      ''wininit.exe'', ''services.exe'', ''lsass.exe'', ''winlogon.exe'', ''svchost.exe'', ''lsm.exe'', ''spoolsv.exe'',
      ''memory compression'', ''deuswatch-agent'', ''deuswatch-agent.exe'', ''deuswatch'']"

definition backslash :: char where "backslash = CHR 0x5C"

definition normalizeProcName :: "string \<Rightarrow> string" where
  "normalizeProcName s = rev (takeWhile (\<lambda>c. c \<noteq> CHR ''/'' \<and> c \<noteq> backslash) (rev (trim_space (to_lower s))))"

text \<open>The reason is the text for the audit trail.\<close>

definition IsProtected :: "proc_info \<Rightarrow> int \<Rightarrow> int \<Rightarrow> string list \<Rightarrow> string option" where
  "IsProtected p selfPID selfPPID extraNames =
     (if pi_PID p \<le> 1 then Some ''pid <= 1 (init/kernel)''
      else if pi_PID p = selfPID then Some ''the DeusWatch agent itself''
      else if selfPPID > 1 \<and> pi_PID p = selfPPID then Some ''the DeusWatch agent's parent (service manager)''
      else
        let name = normalizeProcName (pi_Name p); exeName = normalizeProcName (pi_Exe p) in
        case find (\<lambda>n. n \<noteq> [] \<and> n \<in> set protectedNames) [name, exeName] of
          Some n \<Rightarrow> Some (''protected system process '' @ n)
        | None \<Rightarrow>
            (case find (\<lambda>e. e \<noteq> [] \<and> (e = name \<or> e = exeName)) (map normalizeProcName extraNames) of
               Some e \<Rightarrow> Some (''operator-protected process '' @ e)
             | None \<Rightarrow> None))"

section \<open>Identity\<close>

definition samePath :: "bool \<Rightarrow> string \<Rightarrow> string \<Rightarrow> bool" where
  "samePath windows a b =
     (let norm = (\<lambda>s. let c = path_clean (map (\<lambda>c. if c = backslash then CHR ''/'' else c) (trim_space s))
                      in if windows then to_lower c else c)
      in norm a = norm b)"

text \<open>\<open>None\<close> is a match, otherwise the reason.\<close>

definition identityMatches :: "bool \<Rightarrow> kill_target \<Rightarrow> proc_info \<Rightarrow> string option" where
  "identityMatches windows t p =
     (if kt_WantStart t \<noteq> [] \<and> pi_Start p \<noteq> [] then
        if kt_WantStart t \<noteq> pi_Start p then
          Some (''start time differs (want '' @ kt_WantStart t @ '', live '' @ pi_Start p @ '') - the PID was recycled'')
        else None
      else if kt_WantExe t \<noteq> [] \<and> pi_Exe p \<noteq> [] then
        if \<not> samePath windows (kt_WantExe t) (pi_Exe p) then
          Some (''executable differs (want '' @ kt_WantExe t @ '', live '' @ pi_Exe p @ '')'')
        else None
      else if kt_WantName t \<noteq> [] \<and> pi_Name p \<noteq> [] then
        if normalizeProcName (kt_WantName t) \<noteq> normalizeProcName (pi_Name p) then
          Some (''process name differs (want '' @ kt_WantName t @ '', live '' @ pi_Name p @ '')'')
        else None
      else Some ''no identity evidence to verify the PID against'')"

section \<open>The decision and the kill\<close>

definition Decide ::
    "bool \<Rightarrow> kill_target \<Rightarrow> proc_info option \<Rightarrow> int \<Rightarrow> int \<Rightarrow> string list \<Rightarrow> kill_outcome \<times> string" where
  "Decide windows t live selfPID selfPPID extraProtected =
     (if kt_PID t \<le> 0 then (KillSkippedNoID, ''no pid supplied'')
      else case live of
        None \<Rightarrow> (KillSkippedGone, ''process is no longer running'')
      | Some p \<Rightarrow>
          (case IsProtected p selfPID selfPPID extraProtected of
             Some why \<Rightarrow> (KillSkippedProtected, why)
           | None \<Rightarrow>
               if kt_WantStart t = [] \<and> kt_WantExe t = [] \<and> kt_WantName t = [] then
                 (KillSkippedNoID, ''no identity captured at detection - refusing to kill by pid alone'')
               else (case identityMatches windows t p of
                       Some why \<Rightarrow> (KillSkippedMismatch, why)
                     | None \<Rightarrow> (KillDone, []))))"

record 's proc_source =
  ps_Lookup :: "int \<Rightarrow> 's \<Rightarrow> proc_info option \<times> 's"
  ps_Kill :: "int \<Rightarrow> 's \<Rightarrow> string option \<times> 's"

definition KillSwitch ::
    "bool \<Rightarrow> kill_target \<Rightarrow> 's proc_source option \<Rightarrow> int \<Rightarrow> int \<Rightarrow> string list \<Rightarrow> 's \<Rightarrow>
     (kill_outcome \<times> string) \<times> 's" where
  "KillSwitch windows t src selfPID selfPPID extraProtected s =
     (case src of
        None \<Rightarrow> ((KillFailed, ''process control is not supported on this platform''), s)
      | Some ps \<Rightarrow>
     (case ps_Lookup ps (kt_PID t) s of
        (live, s1) \<Rightarrow>
     (case Decide windows t live selfPID selfPPID extraProtected of
        (outcome, why) \<Rightarrow>
          if outcome \<noteq> KillDone then ((outcome, why), s1)
          else (case ps_Kill ps (kt_PID t) s1 of
                  (Some err, s2) \<Rightarrow> ((KillFailed, err), s2)
                | (None, s2) \<Rightarrow>
                    (case ps_Lookup ps (kt_PID t) s2 of
                       (after, s3) \<Rightarrow>
                         (case (after, live) of
                            (Some a, Some l) \<Rightarrow>
                              if pi_Start a = pi_Start l then ((KillFailed, ''kill issued but the process is still running''), s3)
                              else ((KillDone, ''killed pid '' @ go_itoa (kt_PID t) @ '' ('' @ pi_Name l @ '')''), s3)
                          | (_, Some l) \<Rightarrow> ((KillDone, ''killed pid '' @ go_itoa (kt_PID t) @ '' ('' @ pi_Name l @ '')''), s3)
                          | (_, None) \<Rightarrow> ((KillDone, ''killed pid '' @ go_itoa (kt_PID t) @ '' ()''), s3)))))))"

section \<open>Reading /proc\<close>

definition parseProcStat :: "string \<Rightarrow> (string \<times> string \<times> string) option" where
  "parseProcStat s =
     (case (index_byte s CHR ''('', last_index_byte s CHR '')'') of
        (Some o1, Some c1) \<Rightarrow>
          if c1 < o1 then None
          else
            let comm = take (c1 - Suc o1) (drop (Suc o1) s); rest = Prelude.fields (drop (Suc c1) s) in
            if length rest \<le> 19 then None else Some (comm, rest ! 1, rest ! 19)
      | _ \<Rightarrow> None)"

section \<open>A process table\<close>

text \<open>
  A concrete source for the properties below: the state is the list of processes, a kill removes one, a missing
  process is the kernel's error.
\<close>

definition table_source :: "proc_info list proc_source" where
  "table_source =
     \<lparr>ps_Lookup = (\<lambda>pid s. (find (\<lambda>p. pi_PID p = pid) s, s)),
      ps_Kill = (\<lambda>pid s. if pid \<in> set (map pi_PID s) then (None, filter (\<lambda>p. pi_PID p \<noteq> pid) s)
                          else (Some ''no such process'', s))\<rparr>"

definition demo_miner :: proc_info where
  "demo_miner = \<lparr>pi_PID = 42, pi_PPID = 7, pi_Name = ''xmrig'', pi_Exe = ''/tmp/xmrig'', pi_Start = ''512''\<rparr>"

definition demo_target :: kill_target where
  "demo_target = \<lparr>kt_PID = 42, kt_WantExe = ''/tmp/xmrig'', kt_WantName = ''xmrig'', kt_WantStart = ''512''\<rparr>"

lemmas demo_defs = table_source_def demo_miner_def demo_target_def

section \<open>Properties\<close>

text \<open>A source that keeps the PIDs it was told to kill.\<close>

definition counted :: "'s proc_source \<Rightarrow> ('s \<times> int list) proc_source" where
  "counted ps =
     \<lparr>ps_Lookup = (\<lambda>pid x. case x of (s, l) \<Rightarrow> (case ps_Lookup ps pid s of (r, s1) \<Rightarrow> (r, (s1, l)))),
      ps_Kill = (\<lambda>pid x. case x of (s, l) \<Rightarrow> (case ps_Kill ps pid s of (e, s1) \<Rightarrow> (e, (s1, l @ [pid]))))\<rparr>"

lemma find_pair_None: "find P [a, b] = None \<longleftrightarrow> \<not> P a \<and> \<not> P b"
  by (auto split: if_splits)

lemma IsProtected_None:
  "IsProtected p selfPID selfPPID extra = None \<longleftrightarrow>
     pi_PID p > 1 \<and> pi_PID p \<noteq> selfPID \<and> (selfPPID > 1 \<longrightarrow> pi_PID p \<noteq> selfPPID) \<and>
     (\<forall>n \<in> {normalizeProcName (pi_Name p), normalizeProcName (pi_Exe p)}. n \<noteq> [] \<longrightarrow>
        n \<notin> set protectedNames \<and> n \<notin> normalizeProcName ` set extra)"
proof -
  define name where "name = normalizeProcName (pi_Name p)"
  define exe where "exe = normalizeProcName (pi_Exe p)"
  have a: "find (\<lambda>n. n \<noteq> [] \<and> n \<in> set protectedNames) [name, exe] = None \<longleftrightarrow>
      (\<forall>n \<in> {name, exe}. n \<noteq> [] \<longrightarrow> n \<notin> set protectedNames)"
    by (simp only: find_pair_None) blast
  have b: "find (\<lambda>e. e \<noteq> [] \<and> (e = name \<or> e = exe)) (map normalizeProcName extra) = None \<longleftrightarrow>
      (\<forall>n \<in> {name, exe}. n \<noteq> [] \<longrightarrow> n \<notin> normalizeProcName ` set extra)"
    by (simp only: find_None_iff set_map) blast
  have split: "(case x of None \<Rightarrow> (case y of None \<Rightarrow> None | Some e \<Rightarrow> Some (k e)) | Some n \<Rightarrow> Some (h n)) = None \<longleftrightarrow>
      x = None \<and> y = None" for x y :: "string option" and k h :: "string \<Rightarrow> string"
    by (auto split: option.splits)
  show ?thesis
    unfolding IsProtected_def Let_def name_def [symmetric] exe_def [symmetric]
    using a b by (simp only: if_split_eq1 split option.distinct split: if_splits) (simp add: not_le, blast)
qed

lemma identityMatches_None:
  "identityMatches windows t p = None \<longleftrightarrow>
     (if kt_WantStart t \<noteq> [] \<and> pi_Start p \<noteq> [] then kt_WantStart t = pi_Start p
      else if kt_WantExe t \<noteq> [] \<and> pi_Exe p \<noteq> [] then samePath windows (kt_WantExe t) (pi_Exe p)
      else kt_WantName t \<noteq> [] \<and> pi_Name p \<noteq> [] \<and> normalizeProcName (kt_WantName t) = normalizeProcName (pi_Name p))"
  by (simp add: identityMatches_def)

lemma Decide_kills:
  "fst (Decide windows t live selfPID selfPPID extra) = KillDone \<longleftrightarrow>
     kt_PID t > 0 \<and> (\<exists>p. live = Some p \<and> IsProtected p selfPID selfPPID extra = None \<and>
       (kt_WantStart t \<noteq> [] \<or> kt_WantExe t \<noteq> [] \<or> kt_WantName t \<noteq> []) \<and> identityMatches windows t p = None)"
  by (auto simp: Decide_def split: option.splits)

lemma KillSwitch_cases:
  assumes "KillSwitch windows t (Some ps) selfPID selfPPID extra s = (r, s')"
  obtains (left_alone) live where "ps_Lookup ps (kt_PID t) s = (live, s')"
      "fst (Decide windows t live selfPID selfPPID extra) \<noteq> KillDone" "r = Decide windows t live selfPID selfPPID extra"
  | (refused) live s1 err where "ps_Lookup ps (kt_PID t) s = (live, s1)"
      "fst (Decide windows t live selfPID selfPPID extra) = KillDone" "ps_Kill ps (kt_PID t) s1 = (Some err, s')" "r = (KillFailed, err)"
  | (killed) p s1 s2 now where "ps_Lookup ps (kt_PID t) s = (Some p, s1)"
      "fst (Decide windows t (Some p) selfPID selfPPID extra) = KillDone" "ps_Kill ps (kt_PID t) s1 = (None, s2)"
      "ps_Lookup ps (kt_PID t) s2 = (now, s')"
      "fst r = (case now of Some a \<Rightarrow> if pi_Start a = pi_Start p then KillFailed else KillDone | None \<Rightarrow> KillDone)"
proof -
  obtain live s1 where l: "ps_Lookup ps (kt_PID t) s = (live, s1)" by (cases "ps_Lookup ps (kt_PID t) s")
  obtain out why where d: "Decide windows t live selfPID selfPPID extra = (out, why)"
    by (cases "Decide windows t live selfPID selfPPID extra")
  show ?thesis
  proof (cases "out = KillDone")
    case False
    then have "KillSwitch windows t (Some ps) selfPID selfPPID extra s = ((out, why), s1)" using l d by (simp add: KillSwitch_def)
    then show ?thesis using assms l d False by (intro left_alone [of live]) simp_all
  next
    case True
    then obtain p where p: "live = Some p" using Decide_kills [of windows t live selfPID selfPPID extra] d by auto
    obtain e s2 where k: "ps_Kill ps (kt_PID t) s1 = (e, s2)" by (cases "ps_Kill ps (kt_PID t) s1")
    obtain now s3 where n: "ps_Lookup ps (kt_PID t) s2 = (now, s3)" by (cases "ps_Lookup ps (kt_PID t) s2")
    show ?thesis
    proof (cases e)
      case (Some err)
      then show ?thesis using assms l d k True by (intro refused) (auto simp: KillSwitch_def)
    next
      case None
      then show ?thesis using assms l d k n p True
        by (intro killed [of p s1 s2 now]) (auto simp: KillSwitch_def split: option.splits if_splits)
    qed
  qed
qed

text \<open>
  C26: the endpoint kills only what it has verified. The kill switch sends at most one kill, to the PID it was asked
  for, and only when the process found there is not the init process, the agent or its parent, has neither a
  protected name nor a protected executable, and is the one that was detected: the same start time, or, when one
  side lacks it, the same executable, or, when that is lacking too, the same name.
\<close>

theorem kills_only_verified_process:
  "snd (snd (KillSwitch windows t (Some (counted ps)) selfPID selfPPID extra (s, []))) = [] \<or>
   (snd (snd (KillSwitch windows t (Some (counted ps)) selfPID selfPPID extra (s, []))) = [kt_PID t] \<and>
    (\<exists>p s1. ps_Lookup ps (kt_PID t) s = (Some p, s1) \<and>
       pi_PID p > 1 \<and> pi_PID p \<noteq> selfPID \<and> (selfPPID > 1 \<longrightarrow> pi_PID p \<noteq> selfPPID) \<and>
       (\<forall>n \<in> {normalizeProcName (pi_Name p), normalizeProcName (pi_Exe p)}. n \<noteq> [] \<longrightarrow>
          n \<notin> set protectedNames \<and> n \<notin> normalizeProcName ` set extra) \<and>
       (if kt_WantStart t \<noteq> [] \<and> pi_Start p \<noteq> [] then kt_WantStart t = pi_Start p
        else if kt_WantExe t \<noteq> [] \<and> pi_Exe p \<noteq> [] then samePath windows (kt_WantExe t) (pi_Exe p)
        else kt_WantName t \<noteq> [] \<and> pi_Name p \<noteq> [] \<and> normalizeProcName (kt_WantName t) = normalizeProcName (pi_Name p))))"
proof -
  obtain r s' l where k: "KillSwitch windows t (Some (counted ps)) selfPID selfPPID extra (s, []) = (r, (s', l))"
    by (cases "KillSwitch windows t (Some (counted ps)) selfPID selfPPID extra (s, [])") auto
  have ok: "\<exists>p s1. ps_Lookup ps (kt_PID t) s = (Some p, s1) \<and> IsProtected p selfPID selfPPID extra = None \<and> identityMatches windows t p = None"
    if "fst (Decide windows t (fst (ps_Lookup ps (kt_PID t) s)) selfPID selfPPID extra) = KillDone"
    using that unfolding Decide_kills by (cases "ps_Lookup ps (kt_PID t) s") auto
  have "l = [] \<or> (l = [kt_PID t] \<and> fst (Decide windows t (fst (ps_Lookup ps (kt_PID t) s)) selfPID selfPPID extra) = KillDone)"
    using k by (cases rule: KillSwitch_cases) (auto simp: counted_def split: prod.splits)
  then show ?thesis
    using ok unfolding k snd_conv IsProtected_None identityMatches_None by blast
qed

theorem kills_only_verified_process_witness:
  "snd (snd (KillSwitch False demo_target (Some (counted table_source)) 9 1 [] ([demo_miner], []))) = [42] \<and>
   normalizeProcName (pi_Name demo_miner) \<notin> set protectedNames"
proof -
  have k: "snd (snd (KillSwitch False demo_target (Some (counted table_source)) 9 1 [] ([demo_miner], []))) = [42]"
    by code_simp
  have n: "normalizeProcName (pi_Name demo_miner) \<noteq> []" by code_simp
  have "ps_Lookup table_source (kt_PID demo_target) [demo_miner] = (Some demo_miner, [demo_miner])" by (simp add: demo_defs)
  with kills_only_verified_process [of False demo_target table_source 9 1 "[]" "[demo_miner]"] k n show ?thesis by auto
qed

text \<open>
  a recycled PID is never killed. When the start time of the detected process is known and the process found
  under the PID started at another time, no kill is sent and the outcome says so.
\<close>

theorem recycled_pid_never_killed:
  assumes "ps_Lookup ps (kt_PID t) s = (Some p, s1)" "kt_WantStart t \<noteq> []" "pi_Start p \<noteq> []" "kt_WantStart t \<noteq> pi_Start p"
  shows "snd (snd (KillSwitch windows t (Some (counted ps)) selfPID selfPPID extra (s, []))) = [] \<and>
    fst (fst (KillSwitch windows t (Some (counted ps)) selfPID selfPPID extra (s, []))) \<in> {KillSkippedProtected, KillSkippedMismatch, KillSkippedNoID}"
proof -
  have "fst (Decide windows t (Some p) selfPID selfPPID extra) \<in> {KillSkippedProtected, KillSkippedMismatch, KillSkippedNoID}"
    using assms(2-4) by (auto simp: Decide_def identityMatches_def split: option.splits)
  moreover have "ps_Lookup (counted ps) (kt_PID t) (s, []) = (Some p, (s1, []))" by (simp add: counted_def assms(1))
  ultimately show ?thesis
    by (cases "Decide windows t (Some p) selfPID selfPPID extra") (auto simp: KillSwitch_def)
qed

theorem recycled_pid_never_killed_witness:
  "snd (snd (KillSwitch False (demo_target\<lparr>kt_WantStart := ''333''\<rparr>) (Some (counted table_source)) 9 1 [] ([demo_miner], []))) = []"
  using recycled_pid_never_killed [of table_source "demo_target\<lparr>kt_WantStart := ''333''\<rparr>" "[demo_miner]" demo_miner "[demo_miner]"
    False 9 1 "[]"]
  by (simp add: demo_defs)

text \<open>
  a kill is reported only when it happened. If the outcome is that the process was killed, the kill was sent
  without an error, and the process found under the PID afterwards, if any, is another one.
\<close>

theorem reported_kill_happened:
  assumes "fst (fst (KillSwitch windows t (Some ps) selfPID selfPPID extra s)) = KillDone"
  shows "\<exists>p s1 s2 now. ps_Lookup ps (kt_PID t) s = (Some p, s1) \<and> ps_Kill ps (kt_PID t) s1 = (None, s2) \<and>
    ps_Lookup ps (kt_PID t) s2 = (now, snd (KillSwitch windows t (Some ps) selfPID selfPPID extra s)) \<and>
    (case now of None \<Rightarrow> True | Some a \<Rightarrow> pi_Start a \<noteq> pi_Start p)"
proof -
  obtain r s' where k: "KillSwitch windows t (Some ps) selfPID selfPPID extra s = (r, s')"
    by (cases "KillSwitch windows t (Some ps) selfPID selfPPID extra s")
  then show ?thesis
  proof (cases rule: KillSwitch_cases)
    case (killed p s1 s2 now)
    then show ?thesis using assms k by (auto split: option.splits if_splits)
  qed (use assms k in auto)
qed

lemma demo_kill: "fst (fst (KillSwitch False demo_target (Some table_source) 9 1 [] [demo_miner])) = KillDone"
  by code_simp

theorem reported_kill_happened_witness:
  "fst (ps_Kill table_source 42 [demo_miner]) = None \<and>
   fst (fst (KillSwitch False demo_target (Some table_source) 9 1 [] [demo_miner])) = KillDone"
  using reported_kill_happened [OF demo_kill] demo_kill by (auto simp: demo_defs)

text \<open>
  a process escapes the kill switch by renaming itself. With a name of the protected list, which any process
  can give itself, it is left alone whatever its executable and however exact its identity.
\<close>

theorem renamed_process_escapes:
  assumes "ps_Lookup ps (kt_PID t) s = (Some p, s1)" "0 < kt_PID t" "normalizeProcName (pi_Name p) \<in> set protectedNames"
  shows "fst (fst (KillSwitch windows t (Some (counted ps)) selfPID selfPPID extra (s, []))) = KillSkippedProtected \<and>
    snd (snd (KillSwitch windows t (Some (counted ps)) selfPID selfPPID extra (s, []))) = []"
proof -
  have "normalizeProcName (pi_Name p) \<noteq> []" using assms(3) by (auto simp: protectedNames_def)
  then have "IsProtected p selfPID selfPPID extra \<noteq> None" using assms(3) unfolding IsProtected_None by blast
  then have "fst (Decide windows t (Some p) selfPID selfPPID extra) = KillSkippedProtected"
    using assms(2) by (auto simp: Decide_def)
  moreover have "ps_Lookup (counted ps) (kt_PID t) (s, []) = (Some p, (s1, []))" by (simp add: counted_def assms(1))
  ultimately show ?thesis
    by (cases "Decide windows t (Some p) selfPID selfPPID extra") (auto simp: KillSwitch_def)
qed

theorem renamed_process_escapes_witness:
  "fst (fst (KillSwitch False demo_target (Some (counted table_source)) 9 1 [] ([demo_miner\<lparr>pi_Name := ''sshd''\<rparr>], []))) =
     KillSkippedProtected"
proof -
  have l: "ps_Lookup table_source (kt_PID demo_target) [demo_miner\<lparr>pi_Name := ''sshd''\<rparr>] =
      (Some (demo_miner\<lparr>pi_Name := ''sshd''\<rparr>), [demo_miner\<lparr>pi_Name := ''sshd''\<rparr>])" by (simp add: demo_defs)
  have n: "normalizeProcName (pi_Name (demo_miner\<lparr>pi_Name := ''sshd''\<rparr>)) \<in> set protectedNames" by code_simp
  have "0 < kt_PID demo_target" by (simp add: demo_defs)
  from renamed_process_escapes [OF l this n] show ?thesis by simp
qed

text \<open>
  the system's log daemon loses its protection when its file is replaced. Linux cuts the name of
  \<^verbatim>\<open>systemd-journald\<close> to fifteen characters and marks the executable of a process whose file is gone, so
  after an upgrade neither text is on the list.
\<close>

theorem upgraded_journald_unprotected:
  "IsProtected \<lparr>pi_PID = 300, pi_PPID = 1, pi_Name = ''systemd-journal'', pi_Exe = ''/usr/lib/systemd/systemd-journald (deleted)'',
     pi_Start = ''512''\<rparr> 900 1 [] = None \<and>
   IsProtected \<lparr>pi_PID = 300, pi_PPID = 1, pi_Name = ''systemd-journal'', pi_Exe = ''/usr/lib/systemd/systemd-journald'',
     pi_Start = ''512''\<rparr> 900 1 [] \<noteq> None"
  by code_simp

section \<open>The stat line\<close>

lemma last_index_byte_None: "last_index_byte s d = None \<longleftrightarrow> d \<notin> set s"
  by (induction s) (auto split: option.splits)

lemma last_index_byte_append: "d \<notin> set ys \<Longrightarrow> last_index_byte (xs @ d # ys) d = Some (length xs)"
proof (induction xs)
  case Nil
  then show ?case using last_index_byte_None [of ys d] by simp
qed simp

text \<open>
  a process cannot forge its identity through its name. Whatever parentheses and spaces the name holds, the
  parser returns the name, the parent and the start time the kernel wrote.
\<close>

theorem stat_line_roundtrip:
  assumes "CHR ''('' \<notin> set pid" "CHR '')'' \<notin> set rest" "19 < length (Prelude.fields rest)"
  shows "parseProcStat (pid @ ''('' @ comm @ '')'' @ rest) = Some (comm, Prelude.fields rest ! 1, Prelude.fields rest ! 19)"
proof -
  have i: "index_byte (pid @ ''('' @ comm @ '')'' @ rest) CHR ''('' = Some (length pid)"
    using index_byte_append [OF assms(1), of "comm @ '')'' @ rest"] by simp
  have l: "last_index_byte (pid @ ''('' @ comm @ '')'' @ rest) CHR '')'' = Some (length pid + Suc (length comm))"
    using last_index_byte_append [OF assms(2), of "pid @ ''('' @ comm"] by simp
  show ?thesis using assms(3) unfolding parseProcStat_def i l by (simp add: Let_def)
qed

theorem stat_line_roundtrip_witness:
  "parseProcStat (''42 '' @ ''('' @ ''a) R 1 (b'' @ '')'' @ '' S 7 0 0 0 0 0 0 0 0 0 0 0 0 0 0 0 0 0 512 0'') = Some (''a) R 1 (b'', ''7'', ''512'')"
proof -
  have f: "Prelude.fields '' S 7 0 0 0 0 0 0 0 0 0 0 0 0 0 0 0 0 0 512 0'' =
      [''S'', ''7'', ''0'', ''0'', ''0'', ''0'', ''0'', ''0'', ''0'', ''0'', ''0'', ''0'', ''0'', ''0'', ''0'', ''0'', ''0'', ''0'', ''0'',
       ''512'', ''0'']" by code_simp
  show ?thesis
    using stat_line_roundtrip [of "''42 ''" "'' S 7 0 0 0 0 0 0 0 0 0 0 0 0 0 0 0 0 0 512 0''" "''a) R 1 (b''"] unfolding f by simp
qed

end
