(* ===== verification/Agent_Diff.thy ===== *)
theory Agent_Diff
  imports Go_Net "HOL-Library.Multiset"
begin

text \<open>
  The line diff that the file integrity monitor attaches to a changed file,
  \<^verbatim>\<open>internal/agent/fimdiff.go\<close>: the table of longest common subsequences, the walk that emits the changed
  lines up to a limit, and the summary for large files. Properties: the lines emitted are a shortest edit script.

  Texts are byte strings; the ellipsis and the arrow of the messages are their UTF-8 bytes.
\<close>

section \<open>Definitions\<close>

fun crlf_to_lf :: "string \<Rightarrow> string" where
  "crlf_to_lf (c # d # s) =
     (if c = CHR 0x0D \<and> d = CHR 0x0A then d # crlf_to_lf s else c # crlf_to_lf (d # s))"
| "crlf_to_lf s = s"

definition splitLines :: "string \<Rightarrow> string list" where
  "splitLines s = (if s = [] then [] else split_char (CHR 0x0A) (crlf_to_lf s))"

definition maxDiffLines :: nat where "maxDiffLines = 200"
definition maxDiffCells :: int where "maxDiffCells = 2000000"

definition ellipsis :: string where "ellipsis = [CHR 0xE2, CHR 0x80, CHR 0xA6]"
definition arrow :: string where "arrow = [CHR 0xE2, CHR 0x86, CHR 0x92]"

text \<open>
  The table, from its last row up: the row of a line of the old text from the row below it (\<open>below\<close>), from its
  last column down.
\<close>

fun lcs_row :: "string \<Rightarrow> string list \<Rightarrow> nat list \<Rightarrow> nat list" where
  "lcs_row x (y # ys) (d # below) =
     (let row = lcs_row x ys below in
      (if x = y then hd below + 1 else if d \<ge> hd row then d else hd row) # row)"
| "lcs_row x _ _ = [0]"

fun lcs_table :: "string list \<Rightarrow> string list \<Rightarrow> nat list list" where
  "lcs_table [] b = [replicate (Suc (length b)) 0]"
| "lcs_table (x # a) b = (let t = lcs_table a b in lcs_row x b (hd t) # t)"

text \<open>
  The three loops of the walk; \<open>room\<close> is what is left of the limit. A line that uses it up ends the walk.
\<close>

function diff_walk :: "string list \<Rightarrow> string list \<Rightarrow> nat list list \<Rightarrow> nat \<Rightarrow> nat \<Rightarrow> nat \<Rightarrow> string list" where
  "diff_walk a b t room i j =
     (if i < length a \<and> j < length b then
        if a ! i = b ! j then diff_walk a b t room (Suc i) (Suc j)
        else if t ! Suc i ! j \<ge> t ! i ! Suc j then
          (''- '' @ a ! i) # (if room \<le> 1 then [] else diff_walk a b t (room - 1) (Suc i) j)
        else (''+ '' @ b ! j) # (if room \<le> 1 then [] else diff_walk a b t (room - 1) i (Suc j))
      else if i < length a then
        (''- '' @ a ! i) # (if room \<le> 1 then [] else diff_walk a b t (room - 1) (Suc i) j)
      else if j < length b then
        (''+ '' @ b ! j) # (if room \<le> 1 then [] else diff_walk a b t (room - 1) i (Suc j))
      else [])"
  by auto
termination
  by (relation "measure (\<lambda>(a, b, t, room, i, j). (length a - i) + (length b - j))") auto

declare diff_walk.simps [simp del]

text \<open>\<^verbatim>\<open>diffSummary\<close>: the count of every old line, the new lines that find none left, and what remains.\<close>

definition line_counts :: "string list \<Rightarrow> string \<Rightarrow> int" where
  "line_counts a = fold (\<lambda>l old. old(l := old l + 1)) a (\<lambda>_. 0)"

definition diff_counts :: "string list \<Rightarrow> string list \<Rightarrow> int \<times> int" where
  "diff_counts a b =
     (let (old, added) = fold (\<lambda>l (old, added). if old l > 0 then (old(l := old l - 1), added) else (old, added + 1))
                           b (line_counts a, 0 :: int)
      in (added, sum_list (map old (remdups a))))"

definition diffSummary :: "string list \<Rightarrow> string list \<Rightarrow> string" where
  "diffSummary a b =
     (let (added, removed) = diff_counts a b in
      ellipsis @ '' large file: ~'' @ go_itoa added @ '' line(s) added, ~'' @ go_itoa removed @
      '' line(s) removed (full diff omitted; '' @ go_itoa (int (length a)) @ '' '' @ arrow @ '' '' @
      go_itoa (int (length b)) @ '' lines)'')"

definition unifiedDiff :: "string \<Rightarrow> string \<Rightarrow> string" where
  "unifiedDiff oldText newText =
     (if oldText = newText then []
      else
        let a = splitLines oldText; b = splitLines newText in
        if int (length a) * int (length b) > maxDiffCells then diffSummary a b
        else
          let out = diff_walk a b (lcs_table a b) maxDiffLines 0 0 in
          join_with nl (if length out \<ge> maxDiffLines then out @ [ellipsis @ '' (diff truncated)''] else out))"

section \<open>The table\<close>

text \<open>The length of a longest common subsequence, by recursion on both lists.\<close>

fun lcs_len :: "'a list \<Rightarrow> 'a list \<Rightarrow> nat" where
  "lcs_len (x # a) (y # b) = (if x = y then Suc (lcs_len a b) else max (lcs_len a (y # b)) (lcs_len (x # a) b))"
| "lcs_len _ _ = 0"

lemma lcs_len_Nil2 [simp]: "lcs_len a [] = 0"
  by (cases a) simp_all

text \<open>No common subsequence is longer, and one has this length.\<close>

lemma lcs_len_greatest: "subseq c a \<Longrightarrow> subseq c b \<Longrightarrow> length c \<le> lcs_len a b"
proof (induction a b arbitrary: c rule: lcs_len.induct)
  case (1 x a y b)
  show ?case
  proof (cases c)
    case (Cons z c')
    have a: "if z = x then subseq c' a else subseq c a" and b: "if z = y then subseq c' b else subseq c b"
      using "1.prems" unfolding Cons by (simp_all only: subseq_Cons2_iff)
    show ?thesis
    proof (cases "x = y")
      case True
      have "subseq c' a" "subseq c' b" using a b Cons by (auto split: if_splits dest: subseq_Cons')
      with "1.IH"(1) [OF True] show ?thesis using True Cons by simp
    next
      case False
      show ?thesis
      proof (cases "z = x")
        case True
        then have "subseq c b" using b False by simp
        then show ?thesis using "1.IH"(3) [OF False "1.prems"(1)] False by simp
      next
        case z: False
        then have "subseq c a" using a by simp
        then show ?thesis using "1.IH"(2) [OF False _ "1.prems"(2)] False by simp
      qed
    qed
  qed simp
qed (auto dest: list_emb_Nil2)

definition row_of :: "string list \<Rightarrow> string list \<Rightarrow> nat list" where
  "row_of a b = map (\<lambda>j. lcs_len a (drop j b)) [0..<Suc (length b)]"

lemma row_of_Nil: "row_of a [] = [0]"
  by (simp add: row_of_def)

lemma row_of_Cons: "row_of a (y # b) = lcs_len a (y # b) # row_of a b"
  unfolding row_of_def by (subst upt_conv_Cons) (simp_all add: map_Suc_upt [symmetric] comp_def del: upt_Suc)

lemma row_of_hd: "hd (row_of a b) = lcs_len a b"
  by (cases b) (simp_all add: row_of_Nil row_of_Cons)

lemma lcs_row_row: "lcs_row x b (row_of a b) = row_of (x # a) b"
  by (induction b) (simp_all add: row_of_Nil row_of_Cons row_of_hd Let_def)

lemma lcs_table_row: "i \<le> length a \<Longrightarrow> lcs_table a b ! i = row_of (drop i a) b"
proof (induction a arbitrary: i)
  case Nil
  then show ?case by (simp add: row_of_def map_replicate_const)
next
  case (Cons x a)
  have "hd (lcs_table a b) = lcs_table a b ! 0" by (cases a) (simp_all add: Let_def)
  with Cons.IH [of 0] have "hd (lcs_table a b) = row_of a b" by simp
  then show ?case using Cons.IH [of "i - 1"] Cons.prems by (cases i) (simp_all add: lcs_row_row Let_def)
qed

lemma lcs_table_entry:
  "i \<le> length a \<Longrightarrow> j \<le> length b \<Longrightarrow> lcs_table a b ! i ! j = lcs_len (drop i a) (drop j b)"
  by (simp add: lcs_table_row row_of_def del: upt_Suc)

section \<open>The walk\<close>

text \<open>The whole script, without a limit.\<close>

fun script :: "string list \<Rightarrow> string list \<Rightarrow> string list" where
  "script (x # a) (y # b) =
     (if x = y then script a b
      else if lcs_len a (y # b) \<ge> lcs_len (x # a) b then (''- '' @ x) # script a (y # b)
      else (''+ '' @ y) # script (x # a) b)"
| "script (x # a) [] = (''- '' @ x) # script a []"
| "script [] (y # b) = (''+ '' @ y) # script [] b"
| "script [] [] = []"

lemma diff_walk_script:
  assumes "0 < room" "i \<le> length a" "j \<le> length b"
  shows "diff_walk a b (lcs_table a b) room i j = take room (script (drop i a) (drop j b))"
  using assms
proof (induction "(length a - i) + (length b - j)" arbitrary: room i j rule: less_induct)
  case less
  have da: "drop i a = a ! i # drop (Suc i) a" if "i < length a" using that by (simp add: Cons_nth_drop_Suc)
  have db: "drop j b = b ! j # drop (Suc j) b" if "j < length b" using that by (simp add: Cons_nth_drop_Suc)
  obtain n where n: "room = Suc n" using less.prems(1) gr0_implies_Suc by blast
  have ia: "diff_walk a b (lcs_table a b) m (Suc i) j = take m (script (drop (Suc i) a) (drop j b))"
    if "i < length a" "0 < m" for m using less.hyps [of "Suc i" j m] that less.prems by simp
  have ib: "diff_walk a b (lcs_table a b) m i (Suc j) = take m (script (drop i a) (drop (Suc j) b))"
    if "j < length b" "0 < m" for m using less.hyps [of i "Suc j" m] that less.prems by simp
  consider (both) "i < length a" "j < length b" | (old) "i < length a" "j = length b" | (new) "i = length a" "j < length b"
    | (stop) "i = length a" "j = length b"
    using less.prems by linarith
  then show ?case
  proof cases
    case both
    then have c: "lcs_table a b ! Suc i ! j = lcs_len (drop (Suc i) a) (b ! j # drop (Suc j) b)"
        "lcs_table a b ! i ! Suc j = lcs_len (a ! i # drop (Suc i) a) (drop (Suc j) b)"
      using lcs_table_entry [of "Suc i" a j b] lcs_table_entry [of i a "Suc j" b] da db by simp_all
    have eq: "diff_walk a b (lcs_table a b) room (Suc i) (Suc j) = take room (script (drop (Suc i) a) (drop (Suc j) b))"
      using less.hyps [of "Suc i" "Suc j" room] both less.prems by simp
    show ?thesis
      using ia [of n] ib [of n] both eq c n by (subst diff_walk.simps, cases n) (simp_all add: da db)
  next
    case old
    then show ?thesis using ia [of n] n by (subst diff_walk.simps, cases n) (simp_all add: da)
  next
    case new
    then show ?thesis using ib [of n] n by (subst diff_walk.simps, cases n) (simp_all add: db)
  next
    case stop
    then show ?thesis by (subst diff_walk.simps) simp
  qed
qed

text \<open>What the script leaves out on both sides is one and the same list, as long as possible.\<close>

lemma script_split:
  "\<exists>c r p. a \<in> shuffles c r \<and> b \<in> shuffles c p \<and> length c = lcs_len a b \<and>
     script a b \<in> shuffles (map ((@) ''- '') r) (map ((@) ''+ '') p)"
proof (induction a b rule: script.induct)
  case (1 x a y b)
  show ?case
  proof (cases "x = y")
    case True
    with "1.IH"(1) obtain c r p where "a \<in> shuffles c r" "b \<in> shuffles c p" "length c = lcs_len a b"
        "script a b \<in> shuffles (map ((@) ''- '') r) (map ((@) ''+ '') p)" by blast
    then have "x # a \<in> shuffles (x # c) r" "y # b \<in> shuffles (x # c) p" "length (x # c) = lcs_len (x # a) (y # b)"
        "script (x # a) (y # b) \<in> shuffles (map ((@) ''- '') r) (map ((@) ''+ '') p)"
      using True by (simp_all add: Cons_in_shuffles_leftI)
    then show ?thesis by blast
  next
    case neq: False
    show ?thesis
    proof (cases "lcs_len a (y # b) \<ge> lcs_len (x # a) b")
      case True
      with "1.IH"(2) [OF neq] obtain c r p where "a \<in> shuffles c r" "y # b \<in> shuffles c p" "length c = lcs_len a (y # b)"
          "script a (y # b) \<in> shuffles (map ((@) ''- '') r) (map ((@) ''+ '') p)" by blast
      then have "x # a \<in> shuffles c (x # r)" "length c = lcs_len (x # a) (y # b)"
          "script (x # a) (y # b) \<in> shuffles (map ((@) ''- '') (x # r)) (map ((@) ''+ '') p)"
        using neq True by (simp_all add: Cons_in_shuffles_rightI Cons_in_shuffles_leftI max_def)
      with \<open>y # b \<in> shuffles c p\<close> show ?thesis by blast
    next
      case False
      with "1.IH"(3) [OF neq] obtain c r p where "x # a \<in> shuffles c r" "b \<in> shuffles c p" "length c = lcs_len (x # a) b"
          "script (x # a) b \<in> shuffles (map ((@) ''- '') r) (map ((@) ''+ '') p)" by blast
      then have "y # b \<in> shuffles c (y # p)" "length c = lcs_len (x # a) (y # b)"
          "script (x # a) (y # b) \<in> shuffles (map ((@) ''- '') r) (map ((@) ''+ '') (y # p))"
        using neq False by (simp_all add: Cons_in_shuffles_rightI Cons_in_shuffles_leftI max_def)
      with \<open>x # a \<in> shuffles c r\<close> show ?thesis by blast
    qed
  qed
next
  case (2 x a)
  then obtain r where "a \<in> shuffles [] r" "script a [] \<in> shuffles (map ((@) ''- '') r) []" by auto
  then have "x # a \<in> shuffles [] (x # r)" "[] \<in> shuffles [] ([] :: string list)" "length [] = lcs_len (x # a) []"
      "script (x # a) [] \<in> shuffles (map ((@) ''- '') (x # r)) (map ((@) ''+ '') [])" by simp_all
  then show ?case by blast
next
  case (3 y b)
  then obtain p where "b \<in> shuffles [] p" "script [] b \<in> shuffles [] (map ((@) ''+ '') p)" by auto
  then have "y # b \<in> shuffles [] (y # p)" "[] \<in> shuffles [] ([] :: string list)" "length [] = lcs_len [] (y # b)"
      "script [] (y # b) \<in> shuffles (map ((@) ''- '') []) (map ((@) ''+ '') (y # p))" by simp_all
  then show ?case by blast
qed simp

section \<open>Properties\<close>

text \<open>
  C27: The diff is a shortest one. Two texts that are not too large share a list of lines that is a longest common
  subsequence of theirs; the diff lists the other lines, those of the old text marked as removed and those of the
  new text as added, each in its order, up to the limit of lines.
\<close>

theorem diff_is_shortest_script:
  assumes "oldText \<noteq> newText" "int (length (splitLines oldText)) * int (length (splitLines newText)) \<le> maxDiffCells"
  shows "\<exists>c r p full. splitLines oldText \<in> shuffles c r \<and> splitLines newText \<in> shuffles c p \<and>
    (\<forall>c'. subseq c' (splitLines oldText) \<and> subseq c' (splitLines newText) \<longrightarrow> length c' \<le> length c) \<and>
    full \<in> shuffles (map ((@) ''- '') r) (map ((@) ''+ '') p) \<and>
    unifiedDiff oldText newText = join_with nl
      (if length full < maxDiffLines then full else take maxDiffLines full @ [ellipsis @ '' (diff truncated)''])"
proof -
  let ?a = "splitLines oldText" and ?b = "splitLines newText"
  obtain c r p where s: "?a \<in> shuffles c r" "?b \<in> shuffles c p" "length c = lcs_len ?a ?b"
      "script ?a ?b \<in> shuffles (map ((@) ''- '') r) (map ((@) ''+ '') p)"
    using script_split [of ?a ?b] by blast
  have w: "diff_walk ?a ?b (lcs_table ?a ?b) maxDiffLines 0 0 = take maxDiffLines (script ?a ?b)"
    using diff_walk_script [of maxDiffLines 0 ?a 0 ?b] by (simp add: maxDiffLines_def)
  have "unifiedDiff oldText newText = join_with nl
      (if length (script ?a ?b) < maxDiffLines then script ?a ?b
       else take maxDiffLines (script ?a ?b) @ [ellipsis @ '' (diff truncated)''])"
    using assms by (auto simp: unifiedDiff_def Let_def w not_less)
  moreover have "\<forall>c'. subseq c' ?a \<and> subseq c' ?b \<longrightarrow> length c' \<le> length c"
    using lcs_len_greatest [of _ ?a ?b] s(3) by simp
  ultimately show ?thesis using s(1,2,4) by blast
qed

definition demo_old :: string where "demo_old = ''allow'' @ nl @ ''deny''"
definition demo_new :: string where "demo_new = ''allow'' @ nl @ ''permit''"

lemma demo_lines: "splitLines demo_old = [''allow'', ''deny'']" "splitLines demo_new = [''allow'', ''permit'']"
  by code_simp+

lemma demo_diff: "unifiedDiff demo_old demo_new = ''- deny'' @ nl @ ''+ permit''"
  by code_simp

theorem diff_is_shortest_script_witness:
  "\<exists>c r. [''allow'', ''deny''] \<in> shuffles c r \<and> length c \<ge> 1 \<and> unifiedDiff demo_old demo_new = ''- deny'' @ nl @ ''+ permit''"
proof -
  have "demo_old \<noteq> demo_new" "int (length (splitLines demo_old)) * int (length (splitLines demo_new)) \<le> maxDiffCells"
    by (simp_all add: demo_lines maxDiffCells_def) (simp add: demo_old_def demo_new_def)
  from diff_is_shortest_script [OF this] obtain c r p where c: "[''allow'', ''deny''] \<in> shuffles c r"
      "\<forall>c'. subseq c' [''allow'', ''deny''] \<and> subseq c' [''allow'', ''permit''] \<longrightarrow> length c' \<le> length c"
    unfolding demo_lines by blast
  have "length [''allow''] \<le> length c" using c(2) by (intro c(2) [rule_format]) simp
  with c(1) demo_diff show ?thesis by (intro exI [of _ c] exI [of _ r]) simp
qed

text \<open>The counts of the summary for large files are those of the multisets of lines.\<close>

lemma line_counts_eq: "fold (\<lambda>l old. old(l := old l + 1)) a f l = f l + int (count (mset a) l)"
  by (induction a arbitrary: f) auto

theorem summary_counts:
  "diff_counts a b = (int (size (mset b - mset a)), int (size (mset a - mset b)))"
proof -
  let ?step = "\<lambda>l (old, added). if old l > 0 then (old(l := old l - 1 :: int), added) else (old, added + 1 :: int)"
  have f: "fold ?step b (\<lambda>l. int (count M l), n) = (\<lambda>l. int (count (M - mset b) l), n + int (size (mset b - M)))" for M n
  proof (induction b arbitrary: M n)
    case (Cons x b)
    show ?case
    proof (cases "x \<in># M")
      case True
      then obtain N where N: "M = add_mset x N" by (meson multi_member_split)
      have m: "(\<lambda>l. int (count M l))(x := int (count M x) - 1) = (\<lambda>l. int (count N l))"
        by (auto simp: N)
      have "0 < int (count M x)" by (simp add: N)
      then have "fold ?step (x # b) (\<lambda>l. int (count M l), n) = fold ?step b (\<lambda>l. int (count N l), n)"
        by (simp add: m)
      then show ?thesis unfolding Cons.IH by (simp add: N)
    next
      case False
      then have z: "count M x = 0" by (simp add: not_in_iff)
      have d: "add_mset x (mset b) - M = add_mset x (mset b - M)" using False by (rule diff_add_mset_swap)
      have m: "M - add_mset x (mset b) = M - mset b" using z by (intro multiset_eqI) auto
      show ?thesis using z Cons.IH [of M "n + 1"] by (simp add: d m)
    qed
  qed simp
  have c: "line_counts a = (\<lambda>l. int (count (mset a) l))"
    by (rule ext) (simp add: line_counts_def line_counts_eq)
  have "sum_list (map (\<lambda>l. int (count (mset a - mset b) l)) (remdups a)) = int (size (mset a - mset b))"
    (is "?l = _")
  proof -
    have "?l = (\<Sum>l \<in> set a. int (count (mset a - mset b) l))"
      by (simp add: sum_list_distinct_conv_sum_set)
    also have "\<dots> = int (\<Sum>l \<in> set_mset (mset a - mset b). count (mset a - mset b) l)"
      unfolding of_nat_sum by (rule sum.mono_neutral_right) (auto dest: in_diffD simp: count_eq_zero_iff simp del: count_diff)
    finally show ?thesis by (simp add: size_multiset_overloaded_eq)
  qed
  then show ?thesis unfolding diff_counts_def c f by simp
qed

text \<open>
  A change of line ends is invisible. Two texts that differ only in carriage returns before line feeds have an
  empty diff, the answer meant for identical texts.
\<close>

theorem line_end_change_has_empty_diff:
  assumes "crlf_to_lf oldText = crlf_to_lf newText" "oldText \<noteq> []" "newText \<noteq> []"
    "int (length (splitLines oldText)) * int (length (splitLines oldText)) \<le> maxDiffCells"
  shows "unifiedDiff oldText newText = []"
proof -
  have e: "splitLines newText = splitLines oldText" using assms(1-3) by (simp add: splitLines_def)
  have "script a a = []" for a by (induction a) simp_all
  then have "diff_walk a a (lcs_table a a) maxDiffLines 0 0 = []" for a
    using diff_walk_script [of maxDiffLines 0 a 0 a] by (simp add: maxDiffLines_def)
  then show ?thesis using assms(4) by (auto simp: unifiedDiff_def e maxDiffLines_def)
qed

theorem line_end_change_has_empty_diff_witness:
  "unifiedDiff (''a'' @ [CHR 0x0D, CHR 0x0A] @ ''b'') (''a'' @ [CHR 0x0A] @ ''b'') = []"
proof -
  have l: "splitLines (''a'' @ [CHR 0x0D, CHR 0x0A] @ ''b'') = [''a'', ''b'']" by code_simp
  show ?thesis
    by (rule line_end_change_has_empty_diff) (simp_all add: l [simplified] maxDiffCells_def)
qed

end
