(* ===== verification/Agent_FIM.thy ===== *)
theory Agent_FIM
  imports Complex_Main Agent_Diff Agent_Kill Enrollment "HOL-Library.AList"
begin

text \<open>
  File integrity monitoring on the endpoint: the known-good and versioned snapshots
  (\<^verbatim>\<open>internal/agent/fimsnap.go\<close>), the scanner with its baseline and the capture of versions
  (\<^verbatim>\<open>internal/agent/fim.go\<close>).

  A watched tree is given as the nodes found under the roots at the time of a scan. Of the host the snapshots
  change, the model keeps the files with their permissions and the outcome of the next calls that write; a write
  can stop in the middle. SHA-256, the entropy of a byte string (a floating point computation) and the limits read
  from the environment are fields of \<open>fim_env\<close>. Go visits a map in any order; here it is the order of the walk.
\<close>

section \<open>The host\<close>

datatype io_outcome = IoOk | IoFail | IoPartial nat

record host =
  ho_files :: "string \<rightharpoonup> string \<times> string"
  ho_io :: "io_outcome list"

definition next_io :: "host \<Rightarrow> io_outcome \<times> host" where
  "next_io h = (case ho_io h of [] \<Rightarrow> (IoOk, h) | x # xs \<Rightarrow> (x, h\<lparr>ho_io := xs\<rparr>))"

text \<open>\<^verbatim>\<open>os.WriteFile\<close>: a new file gets the mode, an existing one keeps its own.\<close>

definition os_WriteFile :: "string \<Rightarrow> string \<Rightarrow> string \<Rightarrow> host \<Rightarrow> bool \<times> host" where
  "os_WriteFile p c perm h =
     (let m = (case ho_files h p of Some (_, m) \<Rightarrow> m | None \<Rightarrow> perm) in
      case next_io h of
        (IoOk, h1) \<Rightarrow> (True, h1\<lparr>ho_files := (ho_files h1)(p \<mapsto> (c, m))\<rparr>)
      | (IoFail, h1) \<Rightarrow> (False, h1)
      | (IoPartial n, h1) \<Rightarrow> (False, h1\<lparr>ho_files := (ho_files h1)(p \<mapsto> (take n c, m))\<rparr>))"

definition os_ReadFile :: "string \<Rightarrow> host \<Rightarrow> string option \<times> host" where
  "os_ReadFile p h =
     (case next_io h of
        (IoOk, h1) \<Rightarrow> (map_option fst (ho_files h1 p), h1)
      | (_, h1) \<Rightarrow> (None, h1))"

section \<open>Snapshots\<close>

text \<open>The store is its directory; \<open>None\<close> is the nil store of a host where snapshots are disabled.\<close>

type_synonym snapshot_store = "string option"

definition NewSnapshotStore :: "string \<Rightarrow> host \<Rightarrow> (string + snapshot_store) \<times> host" where
  "NewSnapshotStore dir h =
     (if dir = [] then (Inr None, h)
      else case next_io h of
        (IoOk, h1) \<Rightarrow> (Inr (Some dir), h1)
      | (_, h1) \<Rightarrow> (Inl ''agent: fim snapshot dir'', h1))"

definition snap_key :: "(string \<Rightarrow> string) \<Rightarrow> string \<Rightarrow> string \<Rightarrow> string" where
  "snap_key sha dir p = path_join dir (sha p)"

definition hex_digit :: "char \<Rightarrow> bool" where
  "hex_digit c = (let n = (of_char c :: nat) in (48 \<le> n \<and> n \<le> 57) \<or> (97 \<le> n \<and> n \<le> 102) \<or> (65 \<le> n \<and> n \<le> 70))"

definition validBlobKey :: "string \<Rightarrow> bool" where
  "validBlobKey k = (length k = 64 \<and> list_all hex_digit k)"

definition blobPath :: "string \<Rightarrow> string \<Rightarrow> string option" where
  "blobPath dir k = (if validBlobKey k then Some (path_join (path_join dir ''blobs'') k) else None)"

definition SaveVersion :: "snapshot_store \<Rightarrow> string \<Rightarrow> string \<Rightarrow> host \<Rightarrow> (string + bool) \<times> host" where
  "SaveVersion s k content h =
     (case s of
        None \<Rightarrow> (Inr False, h)
      | Some dir \<Rightarrow>
          if k = [] then (Inr False, h)
          else case blobPath dir k of
            None \<Rightarrow> (Inl (''refusing to store a version under '' @ k), h)
          | Some p \<Rightarrow>
              if ho_files h p \<noteq> None then (Inr False, h)
              else (case next_io h of
                  (IoOk, h1) \<Rightarrow>
                    (case os_WriteFile p content ''0600'' h1 of
                       (True, h2) \<Rightarrow> (Inr True, h2)
                     | (False, h2) \<Rightarrow> (Inl (''save version '' @ k), h2))
                | (_, h1) \<Rightarrow> (Inl ''fim blobs dir'', h1)))"

definition ReadVersion :: "snapshot_store \<Rightarrow> string \<Rightarrow> host \<Rightarrow> string option \<times> host" where
  "ReadVersion s k h =
     (case s of
        None \<Rightarrow> (None, h)
      | Some dir \<Rightarrow>
          if k = [] then (None, h)
          else (case blobPath dir k of None \<Rightarrow> (None, h) | Some p \<Rightarrow> os_ReadFile p h))"

text \<open>\<^verbatim>\<open>Ensure\<close>: written only when there is none yet; the outcome of the write is ignored.\<close>

definition Ensure :: "(string \<Rightarrow> string) \<Rightarrow> snapshot_store \<Rightarrow> string \<Rightarrow> string \<Rightarrow> host \<Rightarrow> host" where
  "Ensure sha s p content h =
     (case s of
        None \<Rightarrow> h
      | Some dir \<Rightarrow>
          let k = snap_key sha dir p in
          if ho_files h k \<noteq> None then h else snd (os_WriteFile k content ''0600'' h))"

definition snap_Read :: "(string \<Rightarrow> string) \<Rightarrow> snapshot_store \<Rightarrow> string \<Rightarrow> host \<Rightarrow> string option \<times> host" where
  "snap_Read sha s p h =
     (case s of None \<Rightarrow> (None, h) | Some dir \<Rightarrow> os_ReadFile (snap_key sha dir p) h)"

text \<open>
  \<^verbatim>\<open>writeAtomic\<close>: a temporary file beside the target, written, closed, given the permissions of the target and
  renamed over it. The temporary file is gone in every case and is not part of the state.
\<close>

definition keep_mode :: "string \<Rightarrow> host \<Rightarrow> string \<times> host" where
  "keep_mode p h =
     (case ho_files h p of
        None \<Rightarrow> (''0600'', h)
      | Some (_, m) \<Rightarrow> (case next_io h of (IoOk, h1) \<Rightarrow> (m, h1) | (_, h1) \<Rightarrow> (''0600'', h1)))"

definition writeAtomic :: "string \<Rightarrow> string \<Rightarrow> host \<Rightarrow> string option \<times> host" where
  "writeAtomic p content h =
     (case next_io h of
        (IoOk, h1) \<Rightarrow>
          (case next_io h1 of
             (IoOk, h2) \<Rightarrow>
               (case next_io h2 of
                  (IoOk, h3) \<Rightarrow>
                    (case keep_mode p h3 of
                       (m, h4) \<Rightarrow>
                         (case next_io h4 of
                            (IoOk, h5) \<Rightarrow> (None, h5\<lparr>ho_files := (ho_files h5)(p \<mapsto> (content, m))\<rparr>)
                          | (_, h5) \<Rightarrow> (Some ''rename'', h5)))
                | (_, h3) \<Rightarrow> (Some ''close'', h3))
           | (_, h2) \<Rightarrow> (Some ''write'', h2))
      | (_, h1) \<Rightarrow> (Some ''temp'', h1))"

definition RestoreVersion :: "snapshot_store \<Rightarrow> string \<Rightarrow> string \<Rightarrow> host \<Rightarrow> string option \<times> host" where
  "RestoreVersion s p k h =
     (case ReadVersion s k h of
        (None, h1) \<Rightarrow> (Some (''version '' @ k @ '' not available on this agent''), h1)
      | (Some c, h1) \<Rightarrow> writeAtomic p c h1)"

definition RestoreContent :: "string \<Rightarrow> string \<Rightarrow> host \<Rightarrow> string option \<times> host" where
  "RestoreContent = writeAtomic"

definition Restore :: "(string \<Rightarrow> string) \<Rightarrow> snapshot_store \<Rightarrow> string \<Rightarrow> host \<Rightarrow> string option \<times> host" where
  "Restore sha s p h =
     (case snap_Read sha s p h of
        (None, h1) \<Rightarrow> (Some (''no snapshot for '' @ p), h1)
      | (Some c, h1) \<Rightarrow> writeAtomic p c h1)"

section \<open>The state of a file\<close>

record fim_env =
  fe_sha :: "string \<Rightarrow> string"
  fe_entropy :: "string \<Rightarrow> rat"
  fe_maxSnapshotBytes :: int
  fe_entropyThreshold :: rat

definition maxHashBytes :: int where "maxHashBytes = 67108864"
definition minEntropyBytes :: int where "minEntropyBytes = 64"
definition entropySampleBytes :: nat where "entropySampleBytes = 65536"

definition isProbablyText :: "string \<Rightarrow> bool" where
  "isProbablyText b = (CHR 0x00 \<notin> set (take 8000 b))"

record file_state =
  st_sha256 :: string
  st_size :: int
  st_mode :: string
  st_content :: string
  st_isText :: bool
  st_entropy :: rat

definition looksEncrypted :: "fim_env \<Rightarrow> file_state \<Rightarrow> bool" where
  "looksEncrypted v st =
     (fe_entropyThreshold v \<le> 8 \<and> st_size st \<ge> minEntropyBytes \<and> \<not> st_isText st \<and> st_entropy st \<ge> fe_entropyThreshold v)"

text \<open>What is found under a path: a file with its content, its permissions and whether it can be read, a directory with its entries in lexical order, or anything else (a symbolic link, a device).\<close>

datatype fs_node =
  Regular string string bool
| Directory bool "(string \<times> fs_node) list"
| Special

datatype stat_result = Missing | StatError | Found fs_node

definition stateOf :: "fim_env \<Rightarrow> string \<Rightarrow> string \<Rightarrow> bool \<Rightarrow> file_state option" where
  "stateOf v content mode readable =
     (let st = \<lparr>st_sha256 = [], st_size = int (length content), st_mode = mode, st_content = [], st_isText = False,
                st_entropy = 0\<rparr> in
      if st_size st \<le> fe_maxSnapshotBytes v then
        if \<not> readable then None
        else
          let st1 = st\<lparr>st_sha256 := fe_sha v content, st_entropy := fe_entropy v content\<rparr> in
          Some (if isProbablyText content then st1\<lparr>st_content := content, st_isText := True\<rparr> else st1)
      else if st_size st \<le> maxHashBytes then
        if \<not> readable then None
        else Some (st\<lparr>st_sha256 := fe_sha v content, st_entropy := fe_entropy v (take entropySampleBytes content)\<rparr>)
      else Some st)"

section \<open>The scanner\<close>

record who_data =
  wd_Actor :: string
  wd_Exe :: string
  wd_PID :: int
  wd_User :: string
  wd_Syscall :: string
  wd_LoginUser :: string
  wd_EffectiveUser :: string

record fim_change =
  fc_Path :: string
  fc_Action :: string
  fc_Kind :: string
  fc_SHA256 :: string
  fc_Size :: int
  fc_Mode :: string
  fc_Diff :: string
  fc_Entropy :: rat
  fc_Actor :: string
  fc_ActorExe :: string
  fc_ActorPID :: int
  fc_ActorStart :: string
  fc_User :: string
  fc_Syscall :: string
  fc_LoginUser :: string
  fc_EffectiveUser :: string

record fim_scanner =
  sc_roots :: "string list"
  sc_excludes :: "string list"
  sc_baseline :: "(string \<times> file_state) list"
  sc_primed :: bool
  sc_snaps :: snapshot_store
  sc_who :: "(string \<Rightarrow> who_data option) option"
  sc_procs :: "(int \<Rightarrow> proc_info option) option"

definition NewFIMScanner :: "string list \<Rightarrow> fim_scanner" where
  "NewFIMScanner roots =
     \<lparr>sc_roots = roots, sc_excludes = [], sc_baseline = [], sc_primed = False, sc_snaps = None, sc_who = None, sc_procs = None\<rparr>"

definition WithExcludes :: "string list \<Rightarrow> fim_scanner \<Rightarrow> fim_scanner" where
  "WithExcludes ex s = s\<lparr>sc_excludes := sc_excludes s @ filter (\<lambda>e. trim_space e \<noteq> []) ex\<rparr>"

definition WithSnapshots :: "snapshot_store \<Rightarrow> fim_scanner \<Rightarrow> fim_scanner" where
  "WithSnapshots st s = s\<lparr>sc_snaps := st\<rparr>"

definition WithWhoData :: "(string \<Rightarrow> who_data option) option \<Rightarrow> fim_scanner \<Rightarrow> fim_scanner" where
  "WithWhoData w s = s\<lparr>sc_who := w\<rparr>"

definition WithProcs :: "(int \<Rightarrow> proc_info option) option \<Rightarrow> fim_scanner \<Rightarrow> fim_scanner" where
  "WithProcs p s = s\<lparr>sc_procs := p\<rparr>"

definition excluded :: "string list \<Rightarrow> string \<Rightarrow> bool" where
  "excluded ex p = list_ex (contains_str p) ex"

definition attachWho :: "fim_scanner \<Rightarrow> fim_change \<Rightarrow> fim_change" where
  "attachWho s c =
     (case sc_who s of
        None \<Rightarrow> c
      | Some lookup \<Rightarrow>
          (case lookup (fc_Path c) of
             None \<Rightarrow> c
           | Some w \<Rightarrow>
               let c1 = c\<lparr>fc_Actor := wd_Actor w, fc_ActorExe := wd_Exe w, fc_ActorPID := wd_PID w, fc_User := wd_User w,
                          fc_Syscall := wd_Syscall w, fc_LoginUser := wd_LoginUser w, fc_EffectiveUser := wd_EffectiveUser w\<rparr> in
               (case sc_procs s of
                  None \<Rightarrow> c1
                | Some procs \<Rightarrow>
                    if wd_PID w > 0 then
                      (case procs (wd_PID w) of None \<Rightarrow> c1 | Some live \<Rightarrow> c1\<lparr>fc_ActorStart := pi_Start live\<rparr>)
                    else c1)))"

definition splitFIMPaths :: "string \<Rightarrow> string list" where
  "splitFIMPaths p = filter (\<lambda>q. q \<noteq> []) (map trim_space (split_char CHR '','' p))"

definition fim_change_of :: "string \<Rightarrow> string \<Rightarrow> file_state \<Rightarrow> fim_change" where
  "fim_change_of p action st =
     \<lparr>fc_Path = p, fc_Action = action, fc_Kind = [],
      fc_SHA256 = (if action \<noteq> ''deleted'' then st_sha256 st else []), fc_Size = st_size st, fc_Mode = st_mode st,
      fc_Diff = [], fc_Entropy = (if action \<noteq> ''deleted'' then st_entropy st else 0),
      fc_Actor = [], fc_ActorExe = [], fc_ActorPID = 0, fc_ActorStart = [], fc_User = [], fc_Syscall = [],
      fc_LoginUser = [], fc_EffectiveUser = []\<rparr>"

definition put_state :: "fim_env \<Rightarrow> string \<Rightarrow> string \<Rightarrow> string \<Rightarrow> bool \<Rightarrow> (string \<times> file_state) list \<Rightarrow> (string \<times> file_state) list" where
  "put_state v p content mode readable dst =
     (case stateOf v content mode readable of None \<Rightarrow> dst | Some st \<Rightarrow> AList.update p st dst)"

text \<open>\<^verbatim>\<open>filepath.WalkDir\<close> with the callback of \<^verbatim>\<open>walk\<close>: a directory that cannot be read is skipped.\<close>

fun walk_node :: "fim_env \<Rightarrow> string list \<Rightarrow> string \<Rightarrow> fs_node \<Rightarrow> (string \<times> file_state) list \<Rightarrow> (string \<times> file_state) list"
and walk_entries :: "fim_env \<Rightarrow> string list \<Rightarrow> string \<Rightarrow> (string \<times> fs_node) list \<Rightarrow> (string \<times> file_state) list \<Rightarrow>
      (string \<times> file_state) list" where
  "walk_node v ex p (Regular content mode readable) dst = (if excluded ex p then dst else put_state v p content mode readable dst)"
| "walk_node v ex p (Directory readable es) dst =
     (if excluded ex p then dst else if readable then walk_entries v ex p es dst else dst)"
| "walk_node v ex p Special dst = dst"
| "walk_entries v ex p [] dst = dst"
| "walk_entries v ex p ((name, n) # es) dst = walk_entries v ex p es (walk_node v ex (path_join p name) n dst)"

text \<open>A root that is a file is not tested against the excludes. The \<open>None\<close> of a walk is its error.\<close>

definition walk_root :: "fim_env \<Rightarrow> string list \<Rightarrow> (string \<Rightarrow> stat_result) \<Rightarrow> string \<Rightarrow> (string \<times> file_state) list \<Rightarrow>
    (string \<times> file_state) list option" where
  "walk_root v ex look r dst =
     (case look r of
        Missing \<Rightarrow> Some dst
      | StatError \<Rightarrow> None
      | Found (Regular content mode readable) \<Rightarrow> Some (put_state v r content mode readable dst)
      | Found Special \<Rightarrow> Some dst
      | Found (Directory readable es) \<Rightarrow> Some (walk_node v ex r (Directory readable es) dst))"

fun walk_roots :: "fim_env \<Rightarrow> string list \<Rightarrow> (string \<Rightarrow> stat_result) \<Rightarrow> string list \<Rightarrow> (string \<times> file_state) list \<Rightarrow>
    (string \<times> file_state) list option" where
  "walk_roots v ex look [] dst = Some dst"
| "walk_roots v ex look (r # rs) dst =
     (case walk_root v ex look r dst of None \<Rightarrow> None | Some d \<Rightarrow> walk_roots v ex look rs d)"

text \<open>The two loops of \<^verbatim>\<open>Scan\<close> over the current states and over the baseline.\<close>

definition changed_file :: "fim_env \<Rightarrow> fim_scanner \<Rightarrow> string \<times> file_state \<Rightarrow> fim_change option" where
  "changed_file v s pc =
     (case pc of (p, cur) \<Rightarrow>
        (case map_of (sc_baseline s) p of
           None \<Rightarrow> Some (attachWho s (fim_change_of p (if looksEncrypted v cur then ''encrypted'' else ''created'') cur))
         | Some old \<Rightarrow>
             if st_sha256 old \<noteq> st_sha256 cur \<or> st_size old \<noteq> st_size cur \<or> st_mode old \<noteq> st_mode cur then
               let c = fim_change_of p (if st_isText old \<and> looksEncrypted v cur then ''encrypted'' else ''modified'') cur in
               Some (attachWho s (if st_isText old \<and> st_isText cur
                                  then c\<lparr>fc_Diff := unifiedDiff (st_content old) (st_content cur)\<rparr> else c))
             else None))"

definition deleted_file :: "fim_scanner \<Rightarrow> (string \<times> file_state) list \<Rightarrow> string \<times> file_state \<Rightarrow> fim_change option" where
  "deleted_file s current pc =
     (case pc of (p, old) \<Rightarrow>
        if map_of current p = None then Some (attachWho s (fim_change_of p ''deleted'' old)) else None)"

definition ensure_all :: "fim_env \<Rightarrow> snapshot_store \<Rightarrow> (string \<times> file_state) list \<Rightarrow> host \<Rightarrow> host" where
  "ensure_all v snaps current h =
     (if snaps = None then h
      else fold (\<lambda>(p, st) h. if st_isText st then Ensure (fe_sha v) snaps p (st_content st) h else h) current h)"

text \<open>\<open>None\<close> is the error, after which the scanner is as before.\<close>

definition Scan :: "fim_env \<Rightarrow> (string \<Rightarrow> stat_result) \<Rightarrow> fim_scanner \<Rightarrow> host \<Rightarrow> fim_change list option \<times> fim_scanner \<times> host" where
  "Scan v look s h =
     (case walk_roots v (sc_excludes s) look (sc_roots s) [] of
        None \<Rightarrow> (None, s, h)
      | Some current \<Rightarrow>
          let h1 = ensure_all v (sc_snaps s) current h in
          if \<not> sc_primed s then (Some [], s\<lparr>sc_baseline := current, sc_primed := True\<rparr>, h1)
          else (Some (List.map_filter (changed_file v s) current @ List.map_filter (deleted_file s current) (sc_baseline s)),
                s\<lparr>sc_baseline := current\<rparr>, h1))"

section \<open>Versions\<close>

record snapshot_upload =
  su_Path :: string
  su_SHA256 :: string
  su_Size :: int
  su_Trigger :: string
  su_Diff :: string
  su_Content :: string

text \<open>
  A file as \<^verbatim>\<open>os.Stat\<close> and \<^verbatim>\<open>os.ReadFile\<close> give it, when it is one of the small text files of which versions
  are kept. The tree is the one the scan walked.
\<close>

definition small_text :: "fim_env \<Rightarrow> stat_result \<Rightarrow> string option" where
  "small_text v r =
     (case r of
        Found (Regular content mode readable) \<Rightarrow>
          if int (length content) > fe_maxSnapshotBytes v \<or> \<not> readable \<or> \<not> isProbablyText content then None else Some content
      | _ \<Rightarrow> None)"

definition CaptureVersionNow ::
    "fim_env \<Rightarrow> (string \<Rightarrow> stat_result) \<Rightarrow> snapshot_store \<Rightarrow> string \<Rightarrow> host \<Rightarrow> snapshot_upload option \<times> host" where
  "CaptureVersionNow v look snaps p h =
     (if snaps = None then (None, h)
      else case small_text v (look p) of
        None \<Rightarrow> (None, h)
      | Some b \<Rightarrow>
          (case SaveVersion snaps (fe_sha v b) b h of
             (Inl _, h1) \<Rightarrow> (None, h1)
           | (Inr _, h1) \<Rightarrow>
               (Some \<lparr>su_Path = p, su_SHA256 = fe_sha v b, su_Size = int (length b), su_Trigger = ''manual'', su_Diff = [],
                      su_Content = []\<rparr>, h1)))"

definition snapshotOnChange :: "source \<Rightarrow> bool" where
  "snapshotOnChange s = (src_SnapshotMode s = ''on_change'' \<or> src_SnapshotMode s = ''both'')"

definition snapshotScheduled :: "source \<Rightarrow> bool" where
  "snapshotScheduled s = (src_SnapshotMode s = ''scheduled'' \<or> src_SnapshotMode s = ''both'')"

text \<open>The state of one collector: its scanner, the last version captured of each file, and what it has sent.\<close>

record collector =
  co_scanner :: fim_scanner
  co_lastHash :: "string \<rightharpoonup> string"
  co_uploads :: "snapshot_upload list"
  co_lines :: "fim_change list"
  co_host :: host

definition captureVersion :: "fim_env \<Rightarrow> source \<Rightarrow> (string \<Rightarrow> stat_result) \<Rightarrow> string \<Rightarrow> string \<Rightarrow> collector \<Rightarrow> collector" where
  "captureVersion v src look p trig c =
     (if sc_snaps (co_scanner c) = None then c
      else case small_text v (look p) of
        None \<Rightarrow> c
      | Some b \<Rightarrow>
          let sum = fe_sha v b in
          if co_lastHash c p = Some sum then c
          else
            let (diff, h1) =
              (case co_lastHash c p of
                 None \<Rightarrow> ([], co_host c)
               | Some old \<Rightarrow>
                   (case ReadVersion (sc_snaps (co_scanner c)) old (co_host c) of
                      (Some oldContent, h) \<Rightarrow> (unifiedDiff oldContent b, h)
                    | (None, h) \<Rightarrow> ([], h)))
            in (case SaveVersion (sc_snaps (co_scanner c)) sum b h1 of
                  (Inl _, h2) \<Rightarrow> c\<lparr>co_host := h2\<rparr>
                | (Inr _, h2) \<Rightarrow>
                    c\<lparr>co_lastHash := (co_lastHash c)(p \<mapsto> sum), co_host := h2,
                      co_uploads := co_uploads c @
                        [\<lparr>su_Path = p, su_SHA256 = sum, su_Size = int (length b), su_Trigger = trig, su_Diff = diff,
                          su_Content = (if src_SnapshotStorage src = ''manager'' then b else [])\<rparr>]\<rparr>))"

definition scanAndEmit :: "fim_env \<Rightarrow> source \<Rightarrow> (string \<Rightarrow> stat_result) \<Rightarrow> collector \<Rightarrow> collector" where
  "scanAndEmit v src look c =
     (case Scan v look (co_scanner c) (co_host c) of
        (None, s, h) \<Rightarrow> c\<lparr>co_scanner := s, co_host := h\<rparr>
      | (Some changes, s, h) \<Rightarrow>
          fold (\<lambda>ch c.
                  let c1 = (if snapshotOnChange src \<and> fc_Action ch \<noteq> ''deleted''
                            then captureVersion v src look (fc_Path ch) ''on_change'' c else c)
                  in c1\<lparr>co_lines := co_lines c1 @ [ch]\<rparr>)
               changes (c\<lparr>co_scanner := s, co_host := h\<rparr>))"

text \<open>The paths a scheduled pass visits, in the order of the walk.\<close>

fun node_paths :: "string list \<Rightarrow> string \<Rightarrow> fs_node \<Rightarrow> string list"
and entry_paths :: "string list \<Rightarrow> string \<Rightarrow> (string \<times> fs_node) list \<Rightarrow> string list" where
  "node_paths ex p (Regular content mode readable) = (if excluded ex p then [] else [p])"
| "node_paths ex p (Directory readable es) = (if excluded ex p then [] else if readable then entry_paths ex p es else [])"
| "node_paths ex p Special = []"
| "entry_paths ex p [] = []"
| "entry_paths ex p ((name, n) # es) = node_paths ex (path_join p name) n @ entry_paths ex p es"

definition scheduledSnapshot :: "fim_env \<Rightarrow> source \<Rightarrow> (string \<Rightarrow> stat_result) \<Rightarrow> collector \<Rightarrow> collector" where
  "scheduledSnapshot v src look c =
     fold (\<lambda>r c. case look r of
             Found n \<Rightarrow> fold (\<lambda>p. captureVersion v src look p ''scheduled'') (node_paths (sc_excludes (co_scanner c)) r n) c
           | _ \<Rightarrow> c)
          (splitFIMPaths (src_Path src)) c"

text \<open>\<^verbatim>\<open>collectFIM\<close> up to its loop: the scanner and the baseline scan, whose error is only logged.\<close>

definition start_collector ::
    "fim_env \<Rightarrow> source \<Rightarrow> (string \<Rightarrow> stat_result) \<Rightarrow> snapshot_store \<Rightarrow> (string \<Rightarrow> who_data option) option \<Rightarrow>
     (int \<Rightarrow> proc_info option) option \<Rightarrow> host \<Rightarrow> collector option" where
  "start_collector v src look snaps who procs h =
     (let roots = splitFIMPaths (src_Path src) in
      if roots = [] then None
      else
        let s = WithProcs procs (WithWhoData who (WithSnapshots snaps (WithExcludes (src_Exclude src) (NewFIMScanner roots))))
        in (case Scan v look s h of
              (_, s1, h1) \<Rightarrow> Some \<lparr>co_scanner = s1, co_lastHash = Map.empty, co_uploads = [], co_lines = [], co_host = h1\<rparr>))"

end
