(* ===== verification/Agent_FIM_Props.thy ===== *)
theory Agent_FIM_Props
  imports Agent_FIM
begin

text \<open>
  What file integrity monitoring guarantees and what it does not: the reported changes replay the tree, excluded
  paths stay out, large files are compared by size alone, the snapshot of a file is its first content for good
  (a truncated one included), a restore is atomic, and a blob key cannot leave its directory.
\<close>

section \<open>Replaying the changes\<close>

text \<open>The part of a state that is compared, and what a report does to it.\<close>

definition fim_view :: "(string \<times> file_state) list \<Rightarrow> string \<Rightarrow> (string \<times> int \<times> string) option" where
  "fim_view b p = map_option (\<lambda>st. (st_sha256 st, st_size st, st_mode st)) (map_of b p)"

definition apply_change :: "fim_change \<Rightarrow> (string \<rightharpoonup> string \<times> int \<times> string) \<Rightarrow> (string \<rightharpoonup> string \<times> int \<times> string)" where
  "apply_change c m = m(fc_Path c := (if fc_Action c = ''deleted'' then None else Some (fc_SHA256 c, fc_Size c, fc_Mode c)))"

definition sc_ok :: "fim_scanner \<Rightarrow> bool" where
  "sc_ok s = distinct (map fst (sc_baseline s))"

lemma attachWho_frame [simp]:
  "fc_Path (attachWho s c) = fc_Path c" "fc_Action (attachWho s c) = fc_Action c" "fc_SHA256 (attachWho s c) = fc_SHA256 c"
  "fc_Size (attachWho s c) = fc_Size c" "fc_Mode (attachWho s c) = fc_Mode c"
  by (auto simp: attachWho_def Let_def split: option.split)

lemma put_state_distinct: "distinct (map fst d) \<Longrightarrow> distinct (map fst (put_state v p c m r d))"
  by (auto simp: put_state_def distinct_update split: option.split)

lemma walk_distinct:
  "distinct (map fst d) \<Longrightarrow> distinct (map fst (walk_node v ex p n d))"
  "distinct (map fst d) \<Longrightarrow> distinct (map fst (walk_entries v ex p es d))"
  by (induction v ex p n d and v ex p es d rule: walk_node_walk_entries.induct) (auto simp: put_state_distinct)

lemma walk_roots_distinct:
  "walk_roots v ex look rs d = Some d' \<Longrightarrow> distinct (map fst d) \<Longrightarrow> distinct (map fst d')"
proof (induction rs arbitrary: d)
  case (Cons r rs)
  then obtain d1 where d1: "walk_root v ex look r d = Some d1" "walk_roots v ex look rs d1 = Some d'"
    by (auto split: option.splits)
  have "distinct (map fst d1)"
    using d1(1) Cons.prems(2)
    by (auto simp: walk_root_def put_state_distinct walk_distinct split: stat_result.splits fs_node.splits simp del: walk_node.simps)
  with Cons.IH d1(2) show ?case by blast
qed simp

lemma changed_file_None:
  "changed_file v s (p, cur) = None \<longleftrightarrow> fim_view (sc_baseline s) p = Some (st_sha256 cur, st_size cur, st_mode cur)"
  by (auto simp: changed_file_def fim_view_def Let_def split: option.splits)

lemma changed_file_Some:
  assumes "changed_file v s (p, cur) = Some c"
  shows "fc_Path c = p" "fc_Action c \<in> {''created'', ''modified'', ''encrypted''}" "fc_SHA256 c = st_sha256 cur"
    "fc_Size c = st_size cur" "fc_Mode c = st_mode cur"
  using assms by (auto simp: changed_file_def fim_change_of_def Let_def split: option.splits if_splits)

lemma deleted_file_Some:
  assumes "deleted_file s current (p, old) = Some c"
  shows "fc_Path c = p" "fc_Action c = ''deleted''" "map_of current p = None"
  using assms by (auto simp: deleted_file_def fim_change_of_def split: if_splits)

text \<open>What the two loops do to a view, path by path.\<close>

lemma apply_changed:
  assumes "distinct (map fst cur)"
  shows "fold apply_change (List.map_filter (changed_file v s) cur) m q =
    (case map_of cur q of
       None \<Rightarrow> m q
     | Some st \<Rightarrow> if changed_file v s (q, st) = None then m q else Some (st_sha256 st, st_size st, st_mode st))"
  using assms
proof (induction cur arbitrary: m)
  case Nil
  then show ?case by (simp add: List.map_filter_simps)
next
  case (Cons x cur)
  obtain p st where x: "x = (p, st)" by (cases x)
  have p: "map_of cur p = None" using Cons.prems by (auto simp: x map_of_eq_None_iff)
  show ?case
  proof (cases "changed_file v s (p, st)")
    case None
    then show ?thesis using Cons p by (auto simp: x List.map_filter_simps split: option.splits)
  next
    case (Some c)
    then show ?thesis
      using Cons p changed_file_Some [OF Some] by (auto simp: x List.map_filter_simps apply_change_def split: option.splits)
  qed
qed

lemma apply_deleted:
  assumes "distinct (map fst old)"
  shows "fold apply_change (List.map_filter (deleted_file s cur) old) m q =
    (if map_of old q \<noteq> None \<and> map_of cur q = None then None else m q)"
  using assms
proof (induction old arbitrary: m)
  case Nil
  then show ?case by (simp add: List.map_filter_simps)
next
  case (Cons x old)
  obtain p st where x: "x = (p, st)" by (cases x)
  have p: "map_of old p = None" using Cons.prems by (auto simp: x map_of_eq_None_iff)
  show ?case
  proof (cases "deleted_file s cur (p, st)")
    case None
    then have "map_of cur p \<noteq> None" by (simp add: deleted_file_def split: if_splits)
    then show ?thesis using Cons None by (auto simp: x List.map_filter_simps)
  next
    case (Some c)
    then show ?thesis
      using Cons p deleted_file_Some [OF Some] by (auto simp: x List.map_filter_simps apply_change_def)
  qed
qed

lemma scan_replays:
  assumes "Scan v look s h = (r, s', h')" "sc_ok s" "sc_primed s"
  shows "sc_ok s' \<and> sc_primed s' \<and>
    fold apply_change (case r of None \<Rightarrow> [] | Some cs \<Rightarrow> cs) (fim_view (sc_baseline s)) = fim_view (sc_baseline s')"
proof (cases "walk_roots v (sc_excludes s) look (sc_roots s) []")
  case None
  then show ?thesis using assms by (auto simp: Scan_def)
next
  case (Some cur)
  then have d: "distinct (map fst cur)" using walk_roots_distinct by fastforce
  have s': "s' = s\<lparr>sc_baseline := cur\<rparr>"
      and r: "r = Some (List.map_filter (changed_file v s) cur @ List.map_filter (deleted_file s cur) (sc_baseline s))"
    using assms(1,3) Some by (auto simp: Scan_def Let_def)
  have "fold apply_change (List.map_filter (deleted_file s cur) (sc_baseline s))
      (fold apply_change (List.map_filter (changed_file v s) cur) (fim_view (sc_baseline s))) q = fim_view cur q" for q
    using apply_deleted [of "sc_baseline s" s cur] apply_changed [OF d] assms(2)
    by (cases "map_of cur q"; cases "map_of (sc_baseline s) q")
      (auto simp: sc_ok_def changed_file_None fim_view_def)
  then show ?thesis using d assms(3) by (auto simp: s' r sc_ok_def)
qed

text \<open>Scans of a sequence of trees; a scan that fails reports nothing.\<close>

fun scan_run :: "fim_env \<Rightarrow> (string \<Rightarrow> stat_result) list \<Rightarrow> fim_scanner \<Rightarrow> host \<Rightarrow> fim_change list \<times> fim_scanner \<times> host" where
  "scan_run v [] s h = ([], s, h)"
| "scan_run v (look # ls) s h =
     (case Scan v look s h of
        (r, s1, h1) \<Rightarrow> (case scan_run v ls s1 h1 of (cs, s2, h2) \<Rightarrow> ((case r of None \<Rightarrow> [] | Some c \<Rightarrow> c) @ cs, s2, h2)))"

text \<open>
  C28: The changes a scanner reports replay the tree. Applied in order to what was compared at the baseline, the
  reports of any sequence of scans, failed ones among them, give what is compared at the end: nothing that is
  compared changes without a report, and no report is spurious.
\<close>

theorem reports_replay_tree:
  assumes "sc_ok s" "sc_primed s"
  shows "fold apply_change (fst (scan_run v looks s h)) (fim_view (sc_baseline s)) =
    fim_view (sc_baseline (fst (snd (scan_run v looks s h))))"
  using assms
proof (induction looks arbitrary: s h)
  case (Cons look looks)
  obtain r s1 h1 where sc: "Scan v look s h = (r, s1, h1)" by (cases "Scan v look s h") auto
  obtain cs s2 h2 where run: "scan_run v looks s1 h1 = (cs, s2, h2)" by (cases "scan_run v looks s1 h1") auto
  from scan_replays [OF sc Cons.prems] have "sc_ok s1" "sc_primed s1"
      "fold apply_change (case r of None \<Rightarrow> [] | Some cs \<Rightarrow> cs) (fim_view (sc_baseline s)) = fim_view (sc_baseline s1)" by blast+
  with Cons.IH [of s1 h1] show ?case by (simp add: sc run)
qed simp

section \<open>Exclusion and size\<close>

definition outside :: "string list \<Rightarrow> string list \<Rightarrow> (string \<times> file_state) list \<Rightarrow> bool" where
  "outside ex roots d = (\<forall>p \<in> set (map fst d). \<not> excluded ex p \<or> p \<in> set roots)"

lemma put_state_outside:
  "outside ex rs d \<Longrightarrow> \<not> excluded ex p \<or> p \<in> set rs \<Longrightarrow> outside ex rs (put_state v p c m r d)"
  by (auto simp: put_state_def outside_def update_keys simp del: set_map split: option.split)

lemma walk_outside:
  "outside ex rs d \<Longrightarrow> outside ex rs (walk_node v ex p n d)"
  "outside ex rs d \<Longrightarrow> outside ex rs (walk_entries v ex p es d)"
  by (induction v ex p n d and v ex p es d rule: walk_node_walk_entries.induct) (auto simp: put_state_outside)

lemma walk_roots_outside:
  "walk_roots v ex look rs d = Some d' \<Longrightarrow> outside ex roots d \<Longrightarrow> set rs \<subseteq> set roots \<Longrightarrow> outside ex roots d'"
proof (induction rs arbitrary: d)
  case (Cons r rs)
  then obtain d1 where d1: "walk_root v ex look r d = Some d1" "walk_roots v ex look rs d1 = Some d'"
    by (auto split: option.splits)
  have "outside ex roots d1"
  proof (cases "look r")
    case (Found n)
    show ?thesis
    proof (cases n)
      case (Regular c m rd)
      then show ?thesis
        using d1(1) Found Cons.prems by (auto simp: walk_root_def put_state_outside)
    next
      case (Directory rd es)
      then show ?thesis
        using d1(1) Found Cons.prems(2) walk_outside(1) [of ex roots d v r n] by (simp add: walk_root_def del: walk_node.simps)
    next
      case Special
      then show ?thesis using d1(1) Found Cons.prems by (simp add: walk_root_def)
    qed
  qed (use d1(1) Cons.prems in \<open>auto simp: walk_root_def\<close>)
  with Cons d1(2) show ?case by auto
qed simp

lemma scan_frame:
  assumes "Scan v look s h = (r, s', h')"
  shows "sc_excludes s' = sc_excludes s" "sc_roots s' = sc_roots s" "sc_snaps s' = sc_snaps s"
  using assms by (auto simp: Scan_def Let_def split: option.splits if_splits)

text \<open>
  An excluded path is never reported. Whatever the trees look like, a reported path contains none of the excluded
  texts, unless it is a watched root itself.
\<close>

theorem excluded_never_reported:
  assumes "outside (sc_excludes s) (sc_roots s) (sc_baseline s)" "c \<in> set (fst (scan_run v looks s h))"
  shows "\<not> excluded (sc_excludes s) (fc_Path c) \<or> fc_Path c \<in> set (sc_roots s)"
  using assms
proof (induction looks arbitrary: s h)
  case (Cons look looks)
  obtain r s1 h1 where sc: "Scan v look s h = (r, s1, h1)" by (cases "Scan v look s h") auto
  show ?case
  proof (cases "walk_roots v (sc_excludes s) look (sc_roots s) []")
    case None
    then show ?thesis using Cons sc by (auto simp: Scan_def split: prod.splits)
  next
    case (Some cur)
    then have o: "outside (sc_excludes s) (sc_roots s) cur" by (rule walk_roots_outside) (auto simp: outside_def)
    have now: "\<not> excluded (sc_excludes s) (fc_Path c) \<or> fc_Path c \<in> set (sc_roots s)"
      if "c \<in> set (case r of None \<Rightarrow> [] | Some cs \<Rightarrow> cs)" for c
      using that sc Some o Cons.prems(1) changed_file_Some(1) deleted_file_Some(1)
      by (fastforce simp: Scan_def Let_def outside_def List.map_filter_def split: if_splits)
    have "sc_baseline s1 = cur" using sc Some by (auto simp: Scan_def Let_def split: if_splits)
    then have "outside (sc_excludes s1) (sc_roots s1) (sc_baseline s1)" using o scan_frame [OF sc] by simp
    with Cons.IH [of s1 h1] Cons.prems(2) now [of c] scan_frame [OF sc] show ?thesis
      by (auto simp: sc split: prod.splits)
  qed
qed simp

text \<open>
  The content of a file over 64 MiB is not watched. For a root that is such a file, an edit that keeps the size
  and the permissions is never reported.
\<close>

theorem large_file_edit_unseen:
  assumes "sc_roots s = [p]" "sc_primed s" "sc_who s = None"
    "map_of (sc_baseline s) p = stateOf v old mode readable" "length (sc_baseline s) = 1"
    "look p = Found (Regular new mode readable')" "length new = length old"
    "int (length old) > maxHashBytes" "fe_maxSnapshotBytes v \<le> maxHashBytes"
  shows "fst (Scan v look s h) = Some []"
proof -
  obtain st where b: "sc_baseline s = [(p, st)]" "stateOf v old mode readable = Some st"
    using assms(4,5,8,9) by (cases "sc_baseline s") (auto simp: stateOf_def Let_def split: if_splits)
  have n: "stateOf v new mode readable' = Some st"
    using b(2) assms(7-9) by (auto simp: stateOf_def Let_def split: if_splits)
  have "walk_roots v (sc_excludes s) look (sc_roots s) [] = Some [(p, st)]"
    using assms(1,6) n by (simp add: walk_root_def put_state_def)
  then show ?thesis
    using assms(2) b(1) by (simp add: Scan_def Let_def List.map_filter_simps changed_file_def deleted_file_def)
qed

section \<open>Restoring\<close>

lemma next_io_files: "next_io h = (x, h') \<Longrightarrow> ho_files h' = ho_files h"
  by (auto simp: next_io_def split: list.splits)

text \<open>What an atomic write leaves: nothing changed and an error, or the whole content with the old permissions.\<close>

lemma writeAtomic_cases:
  assumes "writeAtomic p c h = (e, h')"
  shows "(e \<noteq> None \<and> ho_files h' = ho_files h) \<or>
    (e = None \<and> (\<exists>m. ho_files h' = (ho_files h)(p \<mapsto> (c, m)) \<and> (m = ''0600'' \<or> (\<exists>old. ho_files h p = Some (old, m)))))"
proof -
  obtain x1 h1 where n1: "next_io h = (x1, h1)" by (cases "next_io h")
  obtain x2 h2 where n2: "next_io h1 = (x2, h2)" by (cases "next_io h1")
  obtain x3 h3 where n3: "next_io h2 = (x3, h3)" by (cases "next_io h2")
  obtain m h4 where n4: "keep_mode p h3 = (m, h4)" by (cases "keep_mode p h3")
  obtain x5 h5 where n5: "next_io h4 = (x5, h5)" by (cases "next_io h4")
  have f: "ho_files h1 = ho_files h" "ho_files h2 = ho_files h" "ho_files h3 = ho_files h"
    using next_io_files n1 n2 n3 by metis+
  obtain y k where y: "next_io h3 = (y, k)" by (cases "next_io h3")
  have f4: "ho_files h4 = ho_files h" "m = ''0600'' \<or> (\<exists>old. ho_files h p = Some (old, m))"
    using n4 f(3) next_io_files [OF y] unfolding keep_mode_def y by (cases y; force split: option.splits)+
  have f5: "ho_files h5 = ho_files h" using next_io_files [OF n5] f4 by simp
  have w: "writeAtomic p c h =
      (if x1 \<noteq> IoOk then (Some ''temp'', h1) else if x2 \<noteq> IoOk then (Some ''write'', h2)
       else if x3 \<noteq> IoOk then (Some ''close'', h3) else if x5 \<noteq> IoOk then (Some ''rename'', h5)
       else (None, h5\<lparr>ho_files := (ho_files h5)(p \<mapsto> (c, m))\<rparr>))"
    unfolding writeAtomic_def n1 n2 n3 n4 n5 prod.case
    by (cases x1; cases x2; cases x3; cases x5) (simp_all add: n2 n3 n4 n5)
  show ?thesis using assms f f4 f5 unfolding w by (auto split: if_splits)
qed

lemma restore_atomic:
  "let (e, h') = Restore sha s p h in
     (e \<noteq> None \<and> ho_files h' = ho_files h) \<or>
     (\<exists>dir c m n. e = None \<and> s = Some dir \<and> ho_files h (snap_key sha dir p) = Some (c, n) \<and> ho_files h' = (ho_files h)(p \<mapsto> (c, m)))"
  "let (e, h') = RestoreVersion s p k h in
     (e \<noteq> None \<and> ho_files h' = ho_files h) \<or>
     (\<exists>dir b c m n. e = None \<and> s = Some dir \<and> blobPath dir k = Some b \<and> ho_files h b = Some (c, n) \<and>
        ho_files h' = (ho_files h)(p \<mapsto> (c, m)))"
proof -
  have r: "(x = None \<and> ho_files h' = ho_files h) \<or>
      (\<exists>n. ho_files h' = ho_files h \<and> ho_files h q = Some (the x, n) \<and> x \<noteq> None)" if "os_ReadFile q h = (x, h')" for q x h'
    using that next_io_files [of h] by (auto simp: os_ReadFile_def split: prod.splits io_outcome.splits)
  show "let (e, h') = Restore sha s p h in
     (e \<noteq> None \<and> ho_files h' = ho_files h) \<or>
     (\<exists>dir c m n. e = None \<and> s = Some dir \<and> ho_files h (snap_key sha dir p) = Some (c, n) \<and> ho_files h' = (ho_files h)(p \<mapsto> (c, m)))"
  proof (cases s)
    case (Some dir)
    obtain x h1 where x: "os_ReadFile (snap_key sha dir p) h = (x, h1)" by (cases "os_ReadFile (snap_key sha dir p) h")
    show ?thesis
    proof (cases x)
      case (Some c)
      obtain e h2 where w: "writeAtomic p c h1 = (e, h2)" by (cases "writeAtomic p c h1")
      show ?thesis
        using r [OF x] writeAtomic_cases [OF w] Some \<open>s = Some dir\<close> by (auto simp: Restore_def snap_Read_def x w)
    qed (use r [OF x] Some in \<open>auto simp: Restore_def snap_Read_def x\<close>)
  qed (simp add: Restore_def snap_Read_def)
  show "let (e, h') = RestoreVersion s p k h in
     (e \<noteq> None \<and> ho_files h' = ho_files h) \<or>
     (\<exists>dir b c m n. e = None \<and> s = Some dir \<and> blobPath dir k = Some b \<and> ho_files h b = Some (c, n) \<and>
        ho_files h' = (ho_files h)(p \<mapsto> (c, m)))"
  proof (cases "s = None \<or> k = [] \<or> blobPath (the s) k = None")
    case True
    then show ?thesis by (auto simp: RestoreVersion_def ReadVersion_def split: option.split)
  next
    case False
    then obtain dir b where s: "s = Some dir" "k \<noteq> []" "blobPath dir k = Some b" by auto
    obtain x h1 where x: "os_ReadFile b h = (x, h1)" by (cases "os_ReadFile b h")
    show ?thesis
    proof (cases x)
      case (Some c)
      obtain e h2 where w: "writeAtomic p c h1 = (e, h2)" by (cases "writeAtomic p c h1")
      show ?thesis
        using r [OF x] writeAtomic_cases [OF w] Some s by (auto simp: RestoreVersion_def ReadVersion_def x w)
    qed (use r [OF x] s in \<open>auto simp: RestoreVersion_def ReadVersion_def x\<close>)
  qed
qed

text \<open>
  A restore is all or nothing. Whatever calls fail on the way, a restore from the known-good snapshot or from a
  version either reports an error and leaves every file as it was, or puts the whole stored content under the
  path and changes no other file.
\<close>

theorem restore_is_atomic:
  "(let (e, h') = Restore sha s p h in
     (e \<noteq> None \<and> ho_files h' = ho_files h) \<or>
     (\<exists>dir c m n. e = None \<and> s = Some dir \<and> ho_files h (snap_key sha dir p) = Some (c, n) \<and> ho_files h' = (ho_files h)(p \<mapsto> (c, m)))) \<and>
   (let (e, h') = RestoreVersion s p k h in
     (e \<noteq> None \<and> ho_files h' = ho_files h) \<or>
     (\<exists>dir b c m n. e = None \<and> s = Some dir \<and> blobPath dir k = Some b \<and> ho_files h b = Some (c, n) \<and>
        ho_files h' = (ho_files h)(p \<mapsto> (c, m))))"
  by (intro conjI restore_atomic)

section \<open>The known-good snapshot\<close>

lemma Ensure_keeps: "ho_files h k = Some x \<Longrightarrow> ho_files (Ensure sha s p c h) k = Some x"
proof (cases "s = None \<or> ho_files h (snap_key sha (the s) p) \<noteq> None")
  case False
  assume k: "ho_files h k = Some x"
  obtain dir where d: "s = Some dir" using False by auto
  then have s: "s = Some dir" "ho_files h (snap_key sha dir p) = None"
    using False by (cases "ho_files h (snap_key sha dir p)"; simp)+
  then have "k \<noteq> snap_key sha dir p" using k by auto
  moreover obtain y h1 where n: "next_io h = (y, h1)" by (cases "next_io h")
  ultimately show ?thesis
    using s k next_io_files [OF n] by (cases y) (auto simp: Ensure_def os_WriteFile_def n Let_def)
qed (auto simp: Ensure_def Let_def split: option.split)

lemma fold_keeps:
  assumes "\<And>x h. ho_files h k = Some y \<Longrightarrow> ho_files (f x h) k = Some y"
  shows "ho_files h k = Some y \<Longrightarrow> ho_files (fold f xs h) k = Some y"
  using assms by (induction xs arbitrary: h) auto

lemma ensure_all_keeps: "ho_files h k = Some x \<Longrightarrow> ho_files (ensure_all v s cur h) k = Some x"
  by (auto simp: ensure_all_def Ensure_keeps intro: fold_keeps)

lemma Scan_keeps: "Scan v look s h = (r, s', h') \<Longrightarrow> ho_files h k = Some x \<Longrightarrow> ho_files h' k = Some x"
  by (auto simp: Scan_def Let_def ensure_all_keeps split: option.splits if_splits)

lemma scan_run_keeps: "scan_run v ls s h = (cs, s', h') \<Longrightarrow> ho_files h k = Some x \<Longrightarrow> ho_files h' k = Some x"
  by (induction ls arbitrary: cs s h) (auto dest: Scan_keeps split: prod.splits)

text \<open>The first write for a path, whose key no other path of the scan has, is the one that stays.\<close>

lemma ensure_first:
  assumes "distinct (map fst cur)" "map_of cur p = Some st" "st_isText st" "ho_files h (snap_key (fe_sha v) dir p) = None"
    "\<forall>q \<in> set (map fst cur). snap_key (fe_sha v) dir q = snap_key (fe_sha v) dir p \<longrightarrow> q = p" "ho_io h = []"
  shows "\<exists>m. ho_files (ensure_all v (Some dir) cur h) (snap_key (fe_sha v) dir p) = Some (st_content st, m)"
proof -
  let ?f = "\<lambda>(p, st) h. if st_isText st then Ensure (fe_sha v) (Some dir) p (st_content st) h else h"
  let ?k = "snap_key (fe_sha v) dir p"
  have io: "ho_io (?f x h) = []" if "ho_io h = []" for x h
    using that by (cases x) (auto simp: Ensure_def os_WriteFile_def next_io_def Let_def)
  have "\<exists>m. ho_files (fold ?f cur h) ?k = Some (st_content st, m)"
    using assms
  proof (induction cur arbitrary: h)
    case (Cons x cur)
    obtain q sq where x: "x = (q, sq)" by (cases x)
    show ?case
    proof (cases "q = p")
      case True
      then have "sq = st" using Cons.prems(2) by (simp add: x)
      then have "ho_files (?f x h) ?k = Some (st_content st, ''0600'')"
        using True Cons.prems(3,4,6) by (simp add: x Ensure_def os_WriteFile_def next_io_def Let_def)
      moreover have "ho_files (fold ?f cur h1) ?k = Some y" if "ho_files h1 ?k = Some y" for h1 y
        using that by (rule fold_keeps [rotated]) (auto simp: Ensure_keeps)
      ultimately show ?thesis by auto
    next
      case False
      then have "snap_key (fe_sha v) dir q \<noteq> ?k" using Cons.prems(5) by (auto simp: x)
      then have "ho_files (?f x h) ?k = None"
        using Cons.prems(4,6) by (auto simp: x Ensure_def os_WriteFile_def next_io_def Let_def)
      then show ?thesis
        using Cons.IH [of "?f x h"] Cons.prems False io [OF Cons.prems(6), of x] by (simp add: x)
    qed
  qed simp
  then show ?thesis by (simp add: ensure_all_def)
qed

lemma Restore_stored:
  assumes "ho_files h (snap_key sha dir p) = Some (c, n)"
  shows "\<exists>m. Restore sha (Some dir) p (h\<lparr>ho_io := []\<rparr>) =
    (None, h\<lparr>ho_io := [], ho_files := (ho_files h)(p \<mapsto> (c, m))\<rparr>)"
  using assms
  by (cases "ho_files h p")
    (auto simp: Restore_def snap_Read_def os_ReadFile_def writeAtomic_def keep_mode_def next_io_def)


text \<open>
  A truncated snapshot is never repaired. When the write of a snapshot stops in the middle, the file is there, so
  no later scan writes it again, and the restore reports success and cuts the file to the part that was written.
\<close>

theorem truncated_snapshot_restored:
  assumes "ho_io h = [IoPartial n]" "ho_files h (snap_key sha dir p) = None" "fe_sha v = sha"
    "scan_run v looks s (Ensure sha (Some dir) p content h) = (cs, s2, h2)"
  shows "\<exists>m. Restore sha (Some dir) p (h2\<lparr>ho_io := []\<rparr>) =
    (None, h2\<lparr>ho_io := [], ho_files := (ho_files h2)(p \<mapsto> (take n content, m))\<rparr>)"
proof -
  have "ho_files (Ensure sha (Some dir) p content h) (snap_key sha dir p) = Some (take n content, ''0600'')"
    using assms(1,2) by (simp add: Ensure_def os_WriteFile_def next_io_def Let_def)
  then have "ho_files h2 (snap_key sha dir p) = Some (take n content, ''0600'')" using scan_run_keeps [OF assms(4)] by simp
  then show ?thesis by (rule Restore_stored)
qed

section \<open>Concrete runs\<close>

text \<open>A watched directory with one file, whose content changes; the hash of a text is the text, without slashes.\<close>

definition demo_env :: fim_env where
  "demo_env = \<lparr>fe_sha = map (\<lambda>c. if c = CHR ''/'' then CHR ''_'' else c), fe_entropy = (\<lambda>_. 0), fe_maxSnapshotBytes = 100,
     fe_entropyThreshold = 8\<rparr>"

definition demo_tree :: "string \<Rightarrow> string \<Rightarrow> stat_result" where
  "demo_tree content p =
     (if p = ''/w'' then Found (Directory True [(''a'', Regular content ''0644'' True), (''tmp'', Regular content ''0644'' True)])
      else Missing)"

definition demo_scanner :: fim_scanner where
  "demo_scanner = WithSnapshots (Some ''/s'') (WithExcludes [''tmp''] (NewFIMScanner [''/w'']))"

definition demo_hosts :: host where "demo_hosts = \<lparr>ho_files = Map.empty, ho_io = []\<rparr>"

lemmas demo_fim = demo_env_def demo_tree_def demo_scanner_def demo_hosts_def WithSnapshots_def WithExcludes_def NewFIMScanner_def

definition demo_state :: "string \<Rightarrow> file_state" where
  "demo_state c = \<lparr>st_sha256 = c, st_size = int (length c), st_mode = ''0644'', st_content = c, st_isText = True, st_entropy = 0\<rparr>"

definition demo_primed :: fim_scanner where
  "demo_primed = demo_scanner\<lparr>sc_baseline := [(''/w/a'', demo_state ''old'')], sc_primed := True\<rparr>"

lemma demo_join: "path_join ''/w'' ''a'' = ''/w/a''" "path_join ''/w'' ''tmp'' = ''/w/tmp''" "path_join ''/s'' ''_w_a'' = ''/s/_w_a''"
  by code_simp+

lemma demo_map: "CHR ''/'' \<notin> set c \<Longrightarrow> map (\<lambda>c. if c = CHR ''/'' then CHR ''_'' else c) c = c"
  by (induction c) auto

lemma demo_walk:
  "CHR 0x00 \<notin> set c \<Longrightarrow> length c \<le> 100 \<Longrightarrow> CHR ''/'' \<notin> set c \<Longrightarrow>
   walk_roots demo_env [''tmp''] (demo_tree c) [''/w''] [] = Some [(''/w/a'', demo_state c)]"
  by (auto simp: walk_root_def demo_tree_def demo_join excluded_def has_prefix_def put_state_def stateOf_def demo_env_def
      isProbablyText_def demo_state_def Let_def demo_map dest: in_set_takeD)

lemma demo_first: "Scan demo_env (demo_tree ''old'') demo_scanner demo_hosts =
    (Some [], demo_primed, \<lparr>ho_files = [''/s/_w_a'' \<mapsto> (''old'', ''0600'')], ho_io = []\<rparr>)"
  using demo_walk [of "''old''"]
  by (simp add: Scan_def demo_primed_def demo_scanner_def WithSnapshots_def WithExcludes_def NewFIMScanner_def trim_space_def
      is_space_def ensure_all_def Ensure_def snap_key_def demo_env_def demo_join demo_hosts_def os_WriteFile_def next_io_def demo_state_def)

theorem reports_replay_tree_witness:
  "fold apply_change (fst (scan_run demo_env [demo_tree ''new''] demo_primed demo_hosts)) (fim_view (sc_baseline demo_primed)) ''/w/a'' =
   Some (''new'', 3, ''0644'')"
proof -
  have ok: "sc_ok demo_primed" "sc_primed demo_primed" by (simp_all add: sc_ok_def demo_primed_def)
  have b: "sc_baseline (fst (snd (scan_run demo_env [demo_tree ''new''] demo_primed demo_hosts))) = [(''/w/a'', demo_state ''new'')]"
    using demo_walk [of "''new''"]
    by (simp add: Scan_def demo_primed_def demo_scanner_def WithSnapshots_def WithExcludes_def NewFIMScanner_def trim_space_def
        is_space_def split: prod.split)
  show ?thesis
    unfolding reports_replay_tree [OF ok] b by (simp add: fim_view_def demo_state_def)
qed

theorem excluded_never_reported_witness:
  "\<forall>c \<in> set (fst (scan_run demo_env [demo_tree ''new''] demo_primed demo_hosts)). \<not> excluded [''tmp''] (fc_Path c) \<or> fc_Path c = ''/w''"
proof
  have x: "sc_excludes demo_primed = [''tmp'']" "sc_roots demo_primed = [''/w'']"
    by (simp_all add: demo_primed_def demo_scanner_def WithSnapshots_def WithExcludes_def NewFIMScanner_def trim_space_def is_space_def)
  have "outside (sc_excludes demo_primed) (sc_roots demo_primed) (sc_baseline demo_primed)"
    unfolding x by (simp add: outside_def demo_primed_def excluded_def has_prefix_def)
  from excluded_never_reported [OF this, of _ demo_env "[demo_tree ''new'']" demo_hosts]
  show "\<not> excluded [''tmp''] (fc_Path c) \<or> fc_Path c = ''/w''"
    if "c \<in> set (fst (scan_run demo_env [demo_tree ''new''] demo_primed demo_hosts))" for c
    using that unfolding x by simp
qed

definition demo_big :: "char \<Rightarrow> string" where "demo_big c = replicate 70000000 c"

theorem large_file_edit_unseen_witness:
  "demo_big CHR ''x'' \<noteq> demo_big CHR ''y'' \<and>
   fst (Scan demo_env (\<lambda>_. Found (Regular (demo_big CHR ''y'') ''0644'' True))
     (NewFIMScanner [''/b'']\<lparr>sc_primed := True, sc_baseline := [(''/b'', the (stateOf demo_env (demo_big CHR ''x'') ''0644'' True))]\<rparr>)
     demo_hosts) = Some []"
proof
  have l: "length (demo_big c) = 70000000" for c by (simp add: demo_big_def)
  have s: "stateOf demo_env (demo_big CHR ''x'') ''0644'' True \<noteq> None"
    by (simp add: stateOf_def Let_def l demo_env_def maxHashBytes_def)
  have "hd (demo_big c) = c" for c by (simp add: demo_big_def)
  then have "hd (demo_big CHR ''x'') \<noteq> hd (demo_big CHR ''y'')" by simp
  then show "demo_big CHR ''x'' \<noteq> demo_big CHR ''y''" by (rule contrapos_nn) (rule arg_cong)
  show "fst (Scan demo_env (\<lambda>_. Found (Regular (demo_big CHR ''y'') ''0644'' True))
     (NewFIMScanner [''/b'']\<lparr>sc_primed := True, sc_baseline := [(''/b'', the (stateOf demo_env (demo_big CHR ''x'') ''0644'' True))]\<rparr>)
     demo_hosts) = Some []"
    by (rule large_file_edit_unseen [where p = "''/b''" and old = "demo_big CHR ''x''" and new = "demo_big CHR ''y''"
          and mode = "''0644''" and readable = True and readable' = True])
      (use s in \<open>auto simp: NewFIMScanner_def l maxHashBytes_def demo_env_def\<close>)
qed


theorem truncated_snapshot_restored_witness:
  "\<exists>h m. Restore (fe_sha demo_env) (Some ''/s'') ''/w/a'' h = (None, h\<lparr>ho_io := [], ho_files := (ho_files h)(''/w/a'' \<mapsto> (''ol'', m))\<rparr>)"
proof -
  let ?h = "\<lparr>ho_files = Map.empty, ho_io = [IoPartial 2]\<rparr>"
  let ?h2 = "Ensure (fe_sha demo_env) (Some ''/s'') ''/w/a'' ''old'' ?h"
  have "ho_io ?h2 = []" by (simp add: Ensure_def os_WriteFile_def next_io_def Let_def)
  with truncated_snapshot_restored [of ?h 2 "fe_sha demo_env" "''/s''" "''/w/a''" demo_env "[]" demo_primed "''old''" "[]" demo_primed ?h2]
  obtain m where "Restore (fe_sha demo_env) (Some ''/s'') ''/w/a'' (?h2\<lparr>ho_io := []\<rparr>) =
      (None, ?h2\<lparr>ho_io := [], ho_files := (ho_files ?h2)(''/w/a'' \<mapsto> (''ol'', m))\<rparr>)" by auto
  then show ?thesis by (intro exI [of _ "?h2\<lparr>ho_io := []\<rparr>"] exI [of _ m]) simp
qed

end
