(* ===== verification/Go_Time.thy ===== *)
theory Go_Time
  imports Go_Net
begin

text \<open>
  The part of Go's \<^verbatim>\<open>time\<close> that prints: \<^verbatim>\<open>Duration.Round(time.Second)\<close> with \<^verbatim>\<open>Duration.String\<close>,
  and \<^verbatim>\<open>t.UTC().Format(time.RFC3339)\<close> through the civil date of a day count. The zero time is the first of
  January of the year 1.
\<close>

section \<open>Durations\<close>

text \<open>Rounding to a second, halves away from zero.\<close>

definition round_second :: "duration \<Rightarrow> duration" where
  "round_second d =
     (let r = \<bar>d\<bar> mod second in sgn d * (if r + r < second then \<bar>d\<bar> - r else \<bar>d\<bar> + second - r))"

text \<open>\<^verbatim>\<open>Duration.String\<close> of a whole number of seconds.\<close>

definition duration_string :: "duration \<Rightarrow> string" where
  "duration_string d =
     (let u = \<bar>d\<bar> div second; h = u div 3600; m = u div 60 mod 60; s = u mod 60 in
      (if d < 0 then ''-'' else []) @
      (if h > 0 then go_itoa h @ ''h'' else []) @
      (if h > 0 \<or> m > 0 then go_itoa m @ ''m'' else []) @ go_itoa s @ ''s'')"

section \<open>Dates\<close>

definition leap_year :: "int \<Rightarrow> bool" where
  "leap_year y = (y mod 4 = 0 \<and> (y mod 100 \<noteq> 0 \<or> y mod 400 = 0))"

definition month_lengths :: "int \<Rightarrow> int list" where
  "month_lengths y = [31, if leap_year y then 29 else 28, 31, 30, 31, 30, 31, 31, 30, 31, 30, 31]"

text \<open>Month and day of the month of a day of the year, both counted from 1.\<close>

fun month_day :: "int list \<Rightarrow> int \<Rightarrow> int \<Rightarrow> int \<times> int" where
  "month_day [] m n = (m, n + 1)"
| "month_day (l # ls) m n = (if n < l then (m, n + 1) else month_day ls (m + 1) (n - l))"

text \<open>The year of a day and the day of the year, from the cycles of 400, 100, 4 years and 1 year.\<close>

definition year_day :: "int \<Rightarrow> int \<times> int" where
  "year_day d =
     (let n400 = d div 146097; r400 = d mod 146097;
          n100 = min 3 (r400 div 36524); r100 = r400 - n100 * 36524;
          n4 = r100 div 1461; r4 = r100 mod 1461;
          n1 = min 3 (r4 div 365)
      in (400 * n400 + 100 * n100 + 4 * n4 + n1 + 1, r4 - n1 * 365))"

definition civil_date :: "int \<Rightarrow> int \<times> int \<times> int" where
  "civil_date d = (case year_day d of (y, n) \<Rightarrow> (case month_day (month_lengths y) 1 n of (m, k) \<Rightarrow> (y, m, k)))"

definition rfc3339 :: "gotime \<Rightarrow> string" where
  "rfc3339 t =
     (let s = t div second; r = s mod 86400 in
      case civil_date (s div 86400) of
        (y, m, d) \<Rightarrow>
          (if y < 0 then ''-'' else []) @ pad_dec 4 (nat \<bar>y\<bar>) @ ''-'' @ pad_dec 2 (nat m) @ ''-'' @ pad_dec 2 (nat d) @ ''T'' @
          pad_dec 2 (nat (r div 3600)) @ '':'' @ pad_dec 2 (nat (r div 60 mod 60)) @ '':'' @ pad_dec 2 (nat (r mod 60)) @ ''Z'')"

section \<open>Facts\<close>

lemma round_second_whole: "round_second d mod second = 0"
proof -
  have *: "(\<bar>d\<bar> - \<bar>d\<bar> mod second) mod second = 0"
    by (simp add: minus_mod_eq_mult_div)
  have "(\<bar>d\<bar> - \<bar>d\<bar> mod second + second) mod second = 0" using * by (simp only: mod_add_self2)
  then have "(\<bar>d\<bar> + second - \<bar>d\<bar> mod second) mod second = 0" by (simp only: add_diff_eq diff_add_eq)
  note * = * this
  show ?thesis using * by (auto simp: round_second_def Let_def sgn_if mod_minus_eq zmod_zminus1_eq_if)
qed

text \<open>The days before a year, and the day count of a date: \<open>civil_date\<close> inverts it.\<close>

definition days_before_year :: "int \<Rightarrow> int" where
  "days_before_year y = 365 * (y - 1) + (y - 1) div 4 - (y - 1) div 100 + (y - 1) div 400"

definition day_number :: "int \<times> int \<times> int \<Rightarrow> int" where
  "day_number c = (case c of (y, m, d) \<Rightarrow> days_before_year y + sum_list (take (nat (m - 1)) (month_lengths y)) + d - 1)"

lemma month_day_sum:
  "0 \<le> n \<Longrightarrow> month_day ls m n = (m', d) \<Longrightarrow> m \<le> m' \<and> sum_list (take (nat (m' - m)) ls) + d - 1 = n"
proof (induction ls arbitrary: m n)
  case (Cons l ls)
  show ?case
  proof (cases "n < l")
    case False
    with Cons have "month_day ls (m + 1) (n - l) = (m', d)" "0 \<le> n - l" by simp_all
    from Cons.IH [OF this(2,1)] have "m + 1 \<le> m'" "sum_list (take (nat (m' - (m + 1))) ls) + d - 1 = n - l" by blast+
    moreover have "nat (m' - m) = Suc (nat (m' - (m + 1)))" using \<open>m + 1 \<le> m'\<close> by simp
    ultimately show ?thesis by simp
  qed (use Cons in auto)
qed auto

lemma year_day_split:
  assumes "year_day d = (y, n)"
  shows "days_before_year y + n = d" "0 \<le> n"
proof -
  define n400 r400 n100 r100 n4 r4 n1
    where defs: "n400 = d div 146097" "r400 = d mod 146097" "n100 = min 3 (r400 div 36524)" "r100 = r400 - n100 * 36524"
      "n4 = r100 div 1461" "r4 = r100 mod 1461" "n1 = min 3 (r4 div 365)"
  have y: "y = 400 * n400 + 100 * n100 + 4 * n4 + n1 + 1" and n: "n = r4 - n1 * 365"
    using assms by (auto simp: year_day_def Let_def defs)
  have r400: "0 \<le> r400" "r400 < 146097" by (simp_all add: defs)
  have n100: "0 \<le> n100" "n100 \<le> 3" "0 \<le> r100" "r100 < 36525"
    using r400 by (auto simp: defs(3,4) min_def)
  have r4: "0 \<le> r4" "r4 < 1461" "r100 = 1461 * n4 + r4" by (simp_all add: defs(5,6))
  have n4: "0 \<le> n4" "n4 \<le> 24" using n100 r4 by auto
  have n1: "0 \<le> n1" "n1 \<le> 3" "0 \<le> n" using r4 by (auto simp: defs(7) n min_def)
  have "(y - 1) div 400 = n400" "(y - 1) div 100 = 4 * n400 + n100" "(y - 1) div 4 = 100 * n400 + 25 * n100 + n4"
    using n100 n4 n1 by (simp_all add: y)
  moreover have "d = 146097 * n400 + r400" by (simp add: defs)
  ultimately show "days_before_year y + n = d" using r4 by (simp add: days_before_year_def y n defs(4))
  show "0 \<le> n" by (rule n1)
qed

lemma civil_date_number: "day_number (civil_date d) = d"
proof -
  obtain y n where yn: "year_day d = (y, n)" by force
  obtain m k where mk: "month_day (month_lengths y) 1 n = (m, k)" by force
  from month_day_sum [OF year_day_split(2) [OF yn] mk] year_day_split(1) [OF yn]
  show ?thesis by (simp add: civil_date_def yn mk day_number_def)
qed

end
