(* ===== verification/Tickets.thy ===== *)
theory Tickets
  imports Go_Time Database
begin

text \<open>
  Case management, \<^verbatim>\<open>internal/tickets\<close>: the tickets and their notes (\<^verbatim>\<open>tickets.go\<close>), the tickets that
  alerts raise (\<^verbatim>\<open>automation.go\<close>) and the statements behind the GLPI mirror (\<^verbatim>\<open>glpi.go\<close>), over the tables
  of migrations 9, 49, 54, 74 and 75.

  A request runs its statements in one transaction under the caller's tenants, the worker each on its own
  with the rights of a super administrator. \<open>tdb_super\<close> and \<open>tdb_tenants\<close> are the two session variables the
  row policy of \<^verbatim>\<open>tickets\<close> reads; \<open>tdb_intx\<close> says that a transaction is open and \<open>tdb_broken\<close> that one of its
  statements has failed, after which PostgreSQL refuses the others. \<^verbatim>\<open>ticket_comments\<close> has no policy, and
  foreign keys are checked without one. \<open>tdb_announced\<close> holds the tickets whose announcement has been started.
\<close>

section \<open>Data\<close>

record 'i ticket_row =
  tr_id :: string
  tr_title :: string
  tr_description :: string
  tr_severity :: int
  tr_status :: string
  tr_assignee :: "string option"
  tr_created_by :: string
  tr_source_ip :: "'i option"
  tr_rule_id :: "string option"
  tr_created_at :: gotime
  tr_updated_at :: gotime
  tr_resolved_at :: "gotime option"
  tr_closed_at :: "gotime option"
  tr_acked_at :: "gotime option"
  tr_acked_by :: "string option"
  tr_auto_created :: bool
  tr_recurrences :: int
  tr_dedupe_key :: "string option"
  tr_glpi_id :: "int option"
  tr_glpi_synced_at :: "gotime option"
  tr_tenant_id :: string

record ticket =
  tk_ID :: string
  tk_Title :: string
  tk_Description :: string
  tk_Severity :: int
  tk_Status :: string
  tk_Assignee :: "string option"
  tk_CreatedBy :: string
  tk_SourceIP :: "string option"
  tk_RuleID :: "string option"
  tk_CreatedAt :: gotime
  tk_UpdatedAt :: gotime
  tk_ResolvedAt :: "gotime option"
  tk_ClosedAt :: "gotime option"
  tk_AckedAt :: "gotime option"
  tk_AckedBy :: "string option"
  tk_AutoCreated :: bool
  tk_Recurrences :: int
  tk_DedupeKey :: string
  tk_GLPIID :: "int option"
  tk_GLPISyncedAt :: "gotime option"

record tk_comment =
  cm_ID :: int
  cm_Author :: string
  cm_Body :: string
  cm_CreatedAt :: gotime

record new_ticket =
  nt_Title :: string
  nt_Description :: string
  nt_Severity :: int
  nt_Assignee :: string
  nt_SourceIP :: string
  nt_RuleID :: string
  nt_AutoCreated :: bool
  nt_DedupeKey :: string

record update_fields =
  uf_Title :: "string option"
  uf_Description :: "string option"
  uf_Severity :: "int option"
  uf_Status :: "string option"
  uf_Assignee :: "string option"

record automation_config =
  ac_Enabled :: bool
  ac_MinSeverity :: int
  ac_DedupeWindowMins :: int
  ac_DefaultAssignee :: string
  ac_NotifyOnCreate :: bool
  ac_NotifyOnResolve :: bool

record alert_ticket =
  al_Title :: string
  al_Severity :: int
  al_RuleID :: string
  al_SourceIP :: string
  al_Agent :: string
  al_Detail :: string

record 'i ticket_db = db +
  tdb_tickets :: "'i ticket_row list"
  tdb_comments :: "(string \<times> tk_comment) list"
  tdb_automation :: "automation_config option"
  tdb_next_comment :: int
  tdb_super :: bool
  tdb_tenants :: "string list"
  tdb_intx :: bool
  tdb_broken :: bool
  tdb_inet_in :: "string \<Rightarrow> 'i option"
  tdb_inet_host :: "'i \<Rightarrow> string"
  tdb_uuid_in :: "string \<Rightarrow> string option"
  tdb_announced :: "ticket list"

datatype ticket_error = TkDB | TkNoRow | TkNoTitle | TkNoBody | TkBadStatus string

definition ticket_statuses :: "string list" where
  "ticket_statuses = [''open'', ''in_progress'', ''resolved'', ''closed'']"

definition live_status :: "string \<Rightarrow> bool" where
  "live_status s = (s = ''open'' \<or> s = ''in_progress'')"

section \<open>Statements under the row policy\<close>

definition abort_tx :: "'i ticket_db \<Rightarrow> 'i ticket_db" where
  "abort_tx w = w\<lparr>tdb_broken := tdb_intx w\<rparr>"

definition stmt :: "'i ticket_db \<Rightarrow> bool \<times> 'i ticket_db" where
  "stmt w =
     (if tdb_broken w then (True, w)
      else case query w of (True, w1) \<Rightarrow> (True, abort_tx w1) | (False, w1) \<Rightarrow> (False, w1))"

definition in_scope :: "'i ticket_db \<Rightarrow> string \<Rightarrow> bool" where
  "in_scope w tenant = (tdb_super w \<or> tenant \<in> set (tdb_tenants w))"

definition tk_visible :: "'i ticket_db \<Rightarrow> 'i ticket_row \<Rightarrow> bool" where
  "tk_visible w r = in_scope w (tr_tenant_id r)"

definition scanTicket :: "('i \<Rightarrow> string) \<Rightarrow> 'i ticket_row \<Rightarrow> ticket" where
  "scanTicket host r =
     \<lparr>tk_ID = tr_id r, tk_Title = tr_title r, tk_Description = tr_description r, tk_Severity = tr_severity r,
      tk_Status = tr_status r, tk_Assignee = tr_assignee r, tk_CreatedBy = tr_created_by r,
      tk_SourceIP = map_option host (tr_source_ip r), tk_RuleID = tr_rule_id r, tk_CreatedAt = tr_created_at r,
      tk_UpdatedAt = tr_updated_at r, tk_ResolvedAt = tr_resolved_at r, tk_ClosedAt = tr_closed_at r,
      tk_AckedAt = tr_acked_at r, tk_AckedBy = tr_acked_by r, tk_AutoCreated = tr_auto_created r,
      tk_Recurrences = tr_recurrences r, tk_DedupeKey = coalesce_str (tr_dedupe_key r), tk_GLPIID = tr_glpi_id r,
      tk_GLPISyncedAt = tr_glpi_synced_at r\<rparr>"

text \<open>\<^verbatim>\<open>UPDATE tickets ... WHERE id = $1\<close> on the rows of the scope.\<close>

definition set_ticket :: "string \<Rightarrow> ('i ticket_row \<Rightarrow> 'i ticket_row) \<Rightarrow> 'i ticket_db \<Rightarrow> 'i ticket_db" where
  "set_ticket u f w = w\<lparr>tdb_tickets := fst (update_rows (\<lambda>r. tr_id r = u \<and> tk_visible w r) f (tdb_tickets w))\<rparr>"

definition find_ticket :: "string \<Rightarrow> 'i ticket_db \<Rightarrow> 'i ticket_row option" where
  "find_ticket u w = find (\<lambda>r. tr_id r = u \<and> tk_visible w r) (tdb_tickets w)"

text \<open>\<^verbatim>\<open>nilIfEmpty(ip)\<close> through the cast \<^verbatim>\<open>$6::inet\<close>.\<close>

definition inet_arg :: "'i ticket_db \<Rightarrow> string \<Rightarrow> 'i option option" where
  "inet_arg w s = (if s = [] then Some None else map_option Some (tdb_inet_in w s))"

section \<open>Tickets\<close>

definition clamp_severity :: "int \<Rightarrow> int" where
  "clamp_severity n = (if n < 0 \<or> n > 4 then 2 else n)"

text \<open>The row of an insert, with the defaults of its other columns.\<close>

definition inserted_row :: "string \<Rightarrow> string \<Rightarrow> new_ticket \<Rightarrow> 'i option \<Rightarrow> gotime \<Rightarrow> 'i ticket_row" where
  "inserted_row uid createdBy n ip now =
     \<lparr>tr_id = uid, tr_title = nt_Title n, tr_description = nt_Description n,
      tr_severity = clamp_severity (nt_Severity n), tr_status = ''open'', tr_assignee = strOrNil (nt_Assignee n),
      tr_created_by = createdBy, tr_source_ip = ip, tr_rule_id = strOrNil (nt_RuleID n), tr_created_at = now,
      tr_updated_at = now, tr_resolved_at = None, tr_closed_at = None, tr_acked_at = None, tr_acked_by = None,
      tr_auto_created = nt_AutoCreated n, tr_recurrences = 0, tr_dedupe_key = strOrNil (nt_DedupeKey n),
      tr_glpi_id = None, tr_glpi_synced_at = None, tr_tenant_id = DefaultTenantID\<rparr>"

definition Create_ticket ::
    "string \<Rightarrow> new_ticket \<Rightarrow> 'i ticket_db \<Rightarrow> (ticket_error + ticket) \<times> 'i ticket_db" where
  "Create_ticket createdBy n w =
     (if nt_Title n = [] then (Inl TkNoTitle, w)
      else case stmt w of
        (True, w1) \<Rightarrow> (Inl TkDB, w1)
      | (False, w1) \<Rightarrow>
          (case inet_arg w1 (nt_SourceIP n) of
             None \<Rightarrow> (Inl TkDB, abort_tx w1)
           | Some ip \<Rightarrow>
               if \<not> in_scope w1 DefaultTenantID then (Inl TkDB, abort_tx w1)
               else let (uid, w2) = fresh_id w1; r = inserted_row uid createdBy n ip (db_clock w2)
                    in (Inr (scanTicket (tdb_inet_host w2) r), w2\<lparr>tdb_tickets := tdb_tickets w2 @ [r]\<rparr>)))"

definition List_tickets ::
    "string \<Rightarrow> int \<Rightarrow> 'i ticket_db \<Rightarrow> (ticket_error + ticket list) \<times> 'i ticket_db" where
  "List_tickets status limit w =
     (let n = (if limit \<le> 0 \<or> limit > 500 then 100 else limit) in
      case stmt w of
        (True, w1) \<Rightarrow> (Inl TkDB, w1)
      | (False, w1) \<Rightarrow>
          (Inr (map (scanTicket (tdb_inet_host w1)) (take (nat n) (sort_key (\<lambda>r. - tr_created_at r)
             (filter (\<lambda>r. tk_visible w1 r \<and> (status \<noteq> [] \<longrightarrow> tr_status r = status)) (tdb_tickets w1))))), w1))"

definition Get_ticket ::
    "string \<Rightarrow> 'i ticket_db \<Rightarrow> (ticket_error + ticket \<times> tk_comment list) \<times> 'i ticket_db" where
  "Get_ticket tid w =
     (case stmt w of
        (True, w1) \<Rightarrow> (Inl TkDB, w1)
      | (False, w1) \<Rightarrow>
          (case tdb_uuid_in w1 tid of
             None \<Rightarrow> (Inl TkDB, abort_tx w1)
           | Some u \<Rightarrow>
               (case find_ticket u w1 of
                  None \<Rightarrow> (Inl TkNoRow, w1)
                | Some r \<Rightarrow>
                    (case stmt w1 of
                       (True, w2) \<Rightarrow> (Inl TkDB, w2)
                     | (False, w2) \<Rightarrow>
                         (Inr (scanTicket (tdb_inet_host w2) r,
                            sort_key cm_CreatedAt (map snd (filter (\<lambda>c. fst c = u) (tdb_comments w2)))), w2)))))"

text \<open>
  The edit itself: \<open>Inl\<close> for a status that is none. The first touch of a person is recorded when the edit
  takes the ticket or moves it off \<^verbatim>\<open>open\<close>.
\<close>

definition picked_up :: "update_fields \<Rightarrow> bool" where
  "picked_up f =
     ((case uf_Assignee f of None \<Rightarrow> False | Some a \<Rightarrow> a \<noteq> []) \<or>
      (case uf_Status f of None \<Rightarrow> False | Some s \<Rightarrow> s \<noteq> ''open''))"

definition status_times :: "string \<Rightarrow> gotime \<Rightarrow> gotime option \<Rightarrow> gotime option \<times> gotime option" where
  "status_times status t resolvedAt =
     (let first = (if resolvedAt = None then Some t else resolvedAt) in
      if status = ''resolved'' then (first, None)
      else if status = ''closed'' then (first, Some t)
      else (None, None))"

definition edit_fields :: "update_fields \<Rightarrow> ticket \<Rightarrow> ticket" where
  "edit_fields f cur =
     cur\<lparr>tk_Title := (case uf_Title f of None \<Rightarrow> tk_Title cur | Some x \<Rightarrow> x),
         tk_Description := (case uf_Description f of None \<Rightarrow> tk_Description cur | Some x \<Rightarrow> x),
         tk_Severity := (case uf_Severity f of None \<Rightarrow> tk_Severity cur
                         | Some n \<Rightarrow> if 0 \<le> n \<and> n \<le> 4 then n else tk_Severity cur),
         tk_Assignee := (case uf_Assignee f of None \<Rightarrow> tk_Assignee cur | Some a \<Rightarrow> strOrNil a)\<rparr>"

definition edit_status :: "update_fields \<Rightarrow> gotime \<Rightarrow> ticket \<Rightarrow> ticket_error + ticket" where
  "edit_status f t c =
     (case uf_Status f of
        None \<Rightarrow> Inr c
      | Some s \<Rightarrow>
          if s \<notin> set ticket_statuses then Inl (TkBadStatus s)
          else Inr (c\<lparr>tk_Status := s, tk_ResolvedAt := fst (status_times s t (tk_ResolvedAt c)),
                      tk_ClosedAt := snd (status_times s t (tk_ResolvedAt c))\<rparr>))"

definition edit_ack :: "string \<Rightarrow> update_fields \<Rightarrow> gotime \<Rightarrow> ticket \<Rightarrow> ticket" where
  "edit_ack actor f t c =
     (if tk_AckedAt c = None \<and> picked_up f \<and> actor \<noteq> []
      then c\<lparr>tk_AckedAt := Some t, tk_AckedBy := Some actor\<rparr> else c)"

definition edit_ticket ::
    "string \<Rightarrow> update_fields \<Rightarrow> gotime \<Rightarrow> ticket \<Rightarrow> ticket_error + ticket" where
  "edit_ticket actor f t cur =
     (case edit_status f t (edit_fields f cur) of
        Inl e \<Rightarrow> Inl e
      | Inr c \<Rightarrow> Inr (edit_ack actor f t c))"

definition write_edit :: "ticket \<Rightarrow> gotime \<Rightarrow> 'i ticket_row \<Rightarrow> 'i ticket_row" where
  "write_edit c t r =
     r\<lparr>tr_title := tk_Title c, tr_description := tk_Description c, tr_severity := tk_Severity c,
       tr_status := tk_Status c, tr_assignee := tk_Assignee c, tr_resolved_at := tk_ResolvedAt c,
       tr_closed_at := tk_ClosedAt c, tr_acked_at := tk_AckedAt c, tr_acked_by := tk_AckedBy c, tr_updated_at := t\<rparr>"

text \<open>
  \<^verbatim>\<open>Update\<close> reads the ticket, edits the copy and writes every column of the copy back. The two halves are
  separate statements, so another request can run between them. A transition to resolved starts the
  announcement.
\<close>

definition Update_read ::
    "string \<Rightarrow> string \<Rightarrow> update_fields \<Rightarrow> 'i ticket_db \<Rightarrow> (ticket_error + bool \<times> ticket) \<times> 'i ticket_db" where
  "Update_read tid actor f w =
     (case Get_ticket tid w of
        (Inl e, w1) \<Rightarrow> (Inl e, w1)
      | (Inr (cur, _), w1) \<Rightarrow>
          (case edit_ticket actor f (db_clock w1) cur of
             Inl e \<Rightarrow> (Inl e, w1)
           | Inr c \<Rightarrow> (Inr (tk_ResolvedAt cur \<noteq> None, c), w1)))"

definition start_announcement :: "bool \<Rightarrow> ticket \<Rightarrow> 'i ticket_db \<Rightarrow> 'i ticket_db" where
  "start_announcement wasResolved t w =
     (if \<not> wasResolved \<and> tk_ResolvedAt t \<noteq> None then w\<lparr>tdb_announced := tdb_announced w @ [t]\<rparr> else w)"

definition Update_write ::
    "string \<Rightarrow> bool \<times> ticket \<Rightarrow> 'i ticket_db \<Rightarrow> (ticket_error + ticket) \<times> 'i ticket_db" where
  "Update_write tid edit w =
     (case edit of (wasResolved, c) \<Rightarrow>
        (case stmt w of
           (True, w1) \<Rightarrow> (Inl TkDB, w1)
         | (False, w1) \<Rightarrow>
             (case tdb_uuid_in w1 tid of
                None \<Rightarrow> (Inl TkDB, abort_tx w1)
              | Some u \<Rightarrow>
                  (case find_ticket u w1 of
                     None \<Rightarrow> (Inl TkNoRow, w1)
                   | Some r \<Rightarrow>
                       let t = scanTicket (tdb_inet_host w1) (write_edit c (db_clock w1) r)
                       in (Inr t, start_announcement wasResolved t (set_ticket u (write_edit c (db_clock w1)) w1))))))"

definition Update_ticket ::
    "string \<Rightarrow> string \<Rightarrow> update_fields \<Rightarrow> 'i ticket_db \<Rightarrow> (ticket_error + ticket) \<times> 'i ticket_db" where
  "Update_ticket tid actor f w =
     (case Update_read tid actor f w of
        (Inl e, w1) \<Rightarrow> (Inl e, w1)
      | (Inr edit, w1) \<Rightarrow> Update_write tid edit w1)"

text \<open>A note; the statement that records the first touch may fail without the caller learning it.\<close>

definition acknowledge :: "gotime \<Rightarrow> string \<Rightarrow> 'i ticket_row \<Rightarrow> 'i ticket_row" where
  "acknowledge t author r =
     r\<lparr>tr_updated_at := t, tr_acked_at := (if tr_acked_at r = None then Some t else tr_acked_at r),
       tr_acked_by := (if tr_acked_by r = None then Some author else tr_acked_by r)\<rparr>"

definition AddComment ::
    "string \<Rightarrow> string \<Rightarrow> string \<Rightarrow> 'i ticket_db \<Rightarrow> (ticket_error + tk_comment) \<times> 'i ticket_db" where
  "AddComment tid author body w =
     (if body = [] then (Inl TkNoBody, w)
      else case stmt w of
        (True, w1) \<Rightarrow> (Inl TkDB, w1)
      | (False, w1) \<Rightarrow>
          (case tdb_uuid_in w1 tid of
             None \<Rightarrow> (Inl TkDB, abort_tx w1)
           | Some u \<Rightarrow>
               let c = \<lparr>cm_ID = tdb_next_comment w1, cm_Author = author, cm_Body = body, cm_CreatedAt = db_clock w1\<rparr>;
                   w2 = w1\<lparr>tdb_next_comment := tdb_next_comment w1 + 1\<rparr>
               in if \<not> list_ex (\<lambda>r. tr_id r = u) (tdb_tickets w2) then (Inl TkDB, abort_tx w2)
                  else let w3 = w2\<lparr>tdb_comments := tdb_comments w2 @ [(u, c)]\<rparr> in
                       (case stmt w3 of
                          (True, w4) \<Rightarrow> (Inr c, w4)
                        | (False, w4) \<Rightarrow> (Inr c, set_ticket u (acknowledge (db_clock w4) author) w4))))"

section \<open>Tickets for alerts\<close>

definition DefaultAutomationConfig :: automation_config where
  "DefaultAutomationConfig =
     \<lparr>ac_Enabled = False, ac_MinSeverity = 3, ac_DedupeWindowMins = 60, ac_DefaultAssignee = [],
      ac_NotifyOnCreate = True, ac_NotifyOnResolve = False\<rparr>"

definition LoadAutomationConfig ::
    "'i ticket_db \<Rightarrow> (ticket_error + automation_config) \<times> 'i ticket_db" where
  "LoadAutomationConfig w =
     (case stmt w of
        (True, w1) \<Rightarrow> (Inl TkDB, w1)
      | (False, w1) \<Rightarrow>
          (Inr (case tdb_automation w1 of None \<Rightarrow> DefaultAutomationConfig | Some c \<Rightarrow> c), w1))"

definition clamp_config :: "automation_config \<Rightarrow> automation_config" where
  "clamp_config c =
     c\<lparr>ac_MinSeverity := (if ac_MinSeverity c < 0 \<or> ac_MinSeverity c > 4 then 3 else ac_MinSeverity c),
       ac_DedupeWindowMins :=
         (if ac_DedupeWindowMins c < 1 then 1 else if ac_DedupeWindowMins c > 7 * 24 * 60 then 7 * 24 * 60
          else ac_DedupeWindowMins c)\<rparr>"

definition SaveAutomationConfig ::
    "automation_config \<Rightarrow> 'i ticket_db \<Rightarrow> (ticket_error + unit) \<times> 'i ticket_db" where
  "SaveAutomationConfig c w =
     (case stmt w of
        (True, w1) \<Rightarrow> (Inl TkDB, w1)
      | (False, w1) \<Rightarrow> (Inr (), w1\<lparr>tdb_automation := Some (clamp_config c)\<rparr>))"

definition DedupeKey :: "alert_ticket \<Rightarrow> string" where
  "DedupeKey a = join_with ''|'' [al_RuleID a, al_SourceIP a, al_Agent a]"

definition absorbs :: "string \<Rightarrow> gotime \<Rightarrow> 'i ticket_db \<Rightarrow> 'i ticket_row \<Rightarrow> bool" where
  "absorbs key since w r =
     (tk_visible w r \<and> tr_dedupe_key r = Some key \<and> live_status (tr_status r) \<and> tr_created_at r \<ge> since)"

definition count_recurrence :: "gotime \<Rightarrow> 'i ticket_row \<Rightarrow> 'i ticket_row" where
  "count_recurrence t r = r\<lparr>tr_recurrences := tr_recurrences r + 1, tr_updated_at := t\<rparr>"

definition TicketForAlert ::
    "automation_config \<Rightarrow> alert_ticket \<Rightarrow> 'i ticket_db \<Rightarrow> (ticket_error + ticket option \<times> bool) \<times> 'i ticket_db" where
  "TicketForAlert c a w =
     (if \<not> ac_Enabled c \<or> al_Severity a < ac_MinSeverity c then (Inr (None, False), w)
      else
        let title = (if al_Title a = [] then ''DeusWatch alert'' else al_Title a);
            key = DedupeKey a;
            window = wrap64 (ac_DedupeWindowMins c * minute)
        in case stmt w of
             (True, w1) \<Rightarrow> (Inl TkDB, w1)
           | (False, w1) \<Rightarrow>
               (case sort_key (\<lambda>r. - tr_created_at r)
                       (filter (absorbs key (db_clock w1 - window) w1) (tdb_tickets w1)) of
                  r # _ \<Rightarrow>
                    let t = scanTicket (tdb_inet_host w1) r in
                    (case stmt w1 of
                       (True, w2) \<Rightarrow> (Inr (Some t, False), w2)
                     | (False, w2) \<Rightarrow>
                         if \<not> int4_ok (tr_recurrences r + 1) then (Inr (Some t, False), abort_tx w2)
                         else (Inr (Some (t\<lparr>tk_Recurrences := tk_Recurrences t + 1\<rparr>), False),
                               set_ticket (tr_id r) (count_recurrence (db_clock w2)) w2))
                | [] \<Rightarrow>
                    (case Create_ticket ''deuswatch''
                            \<lparr>nt_Title = title, nt_Description = al_Detail a, nt_Severity = al_Severity a,
                             nt_Assignee = ac_DefaultAssignee c, nt_SourceIP = al_SourceIP a, nt_RuleID = al_RuleID a,
                             nt_AutoCreated = True, nt_DedupeKey = key\<rparr> w1 of
                       (Inl e, w2) \<Rightarrow> (Inl e, w2)
                     | (Inr t, w2) \<Rightarrow> (Inr (Some t, True), w2))))"

section \<open>The statements of the GLPI mirror\<close>

definition GLPISyncActor :: string where "GLPISyncActor = ''(via GLPI)''"

definition UnpushedTickets :: "int \<Rightarrow> 'i ticket_db \<Rightarrow> (ticket_error + ticket list) \<times> 'i ticket_db" where
  "UnpushedTickets limit w =
     (let n = (if limit \<le> 0 \<or> limit > 200 then 50 else limit) in
      case stmt w of
        (True, w1) \<Rightarrow> (Inl TkDB, w1)
      | (False, w1) \<Rightarrow>
          (Inr (map (scanTicket (tdb_inet_host w1)) (take (nat n) (sort_key tr_created_at
             (filter (\<lambda>r. tk_visible w1 r \<and> tr_glpi_id r = None \<and> live_status (tr_status r)) (tdb_tickets w1))))), w1))"

definition synced_at :: "'i ticket_row \<Rightarrow> gotime" where
  "synced_at r = (case tr_glpi_synced_at r of Some t \<Rightarrow> t | None \<Rightarrow> tr_created_at r)"

definition LinkedLiveTickets :: "int \<Rightarrow> 'i ticket_db \<Rightarrow> (ticket_error + ticket list) \<times> 'i ticket_db" where
  "LinkedLiveTickets limit w =
     (let n = (if limit \<le> 0 \<or> limit > 500 then 100 else limit) in
      case stmt w of
        (True, w1) \<Rightarrow> (Inl TkDB, w1)
      | (False, w1) \<Rightarrow>
          (Inr (map (scanTicket (tdb_inet_host w1)) (take (nat n) (sort_key synced_at
             (filter (\<lambda>r. tk_visible w1 r \<and> tr_glpi_id r \<noteq> None \<and>
                         (live_status (tr_status r) \<or> tr_status r = ''resolved'')) (tdb_tickets w1))))), w1))"

definition MarkPushed :: "string \<Rightarrow> int \<Rightarrow> 'i ticket_db \<Rightarrow> (ticket_error + unit) \<times> 'i ticket_db" where
  "MarkPushed tid glpiID w =
     (case stmt w of
        (True, w1) \<Rightarrow> (Inl TkDB, w1)
      | (False, w1) \<Rightarrow>
          (case tdb_uuid_in w1 tid of
             None \<Rightarrow> (Inl TkDB, abort_tx w1)
           | Some u \<Rightarrow>
               if \<not> int4_ok glpiID then (Inl TkDB, abort_tx w1)
               else (Inr (), set_ticket u
                      (\<lambda>r. r\<lparr>tr_glpi_id := Some glpiID, tr_glpi_synced_at := Some (db_clock w1)\<rparr>) w1)))"

definition TouchGLPISync :: "string \<Rightarrow> 'i ticket_db \<Rightarrow> (ticket_error + unit) \<times> 'i ticket_db" where
  "TouchGLPISync tid w =
     (case stmt w of
        (True, w1) \<Rightarrow> (Inl TkDB, w1)
      | (False, w1) \<Rightarrow>
          (case tdb_uuid_in w1 tid of
             None \<Rightarrow> (Inl TkDB, abort_tx w1)
           | Some u \<Rightarrow> (Inr (), set_ticket u (\<lambda>r. r\<lparr>tr_glpi_synced_at := Some (db_clock w1)\<rparr>) w1)))"

definition only_status :: "string \<Rightarrow> update_fields" where
  "only_status s = \<lparr>uf_Title = None, uf_Description = None, uf_Severity = None, uf_Status = Some s, uf_Assignee = None\<rparr>"

definition ApplyGLPIStatus ::
    "string \<Rightarrow> string \<Rightarrow> 'i ticket_db \<Rightarrow> (ticket_error + ticket) \<times> 'i ticket_db" where
  "ApplyGLPIStatus tid status w =
     (case Update_ticket tid GLPISyncActor (only_status status) w of
        (Inl e, w1) \<Rightarrow> (Inl e, w1)
      | (Inr t, w1) \<Rightarrow>
          (case TouchGLPISync tid w1 of
             (Inl e, w2) \<Rightarrow> (Inl e, w2)
           | (Inr _, w2) \<Rightarrow> (Inr t, w2)))"

section \<open>Texts\<close>

definition severityName :: "int \<Rightarrow> string" where
  "severityName s =
     (if s < 0 \<or> s \<ge> 5 then ''UNKNOWN''
      else [''INFO'', ''LOW'', ''MEDIUM'', ''HIGH'', ''CRITICAL''] ! nat s)"

definition given :: "string option \<Rightarrow> bool" where
  "given x = (case x of None \<Rightarrow> False | Some s \<Rightarrow> s \<noteq> [])"

definition trim_right_nl :: "string \<Rightarrow> string" where
  "trim_right_nl s = rev (dropWhile (\<lambda>c. c = CHR 0x0A) (rev s))"

definition Message :: "ticket \<Rightarrow> string \<Rightarrow> string \<times> string" where
  "Message t event =
     (let icon = (if event = ''resolved'' then [CHR 0xE2, CHR 0x9C, CHR 0x85]
                  else [CHR 0xF0, CHR 0x9F, CHR 0x8E, CHR 0xAB]);
          body = icon @ '' Ticket '' @ event @ nl @ tk_Title t @ nl @
            ''Severity: '' @ severityName (tk_Severity t) @ nl @
            ''Status: '' @ tk_Status t @ nl @
            (if given (tk_Assignee t) then ''Assignee: '' @ the (tk_Assignee t) @ nl else ''Assignee: (unassigned)'' @ nl) @
            (if given (tk_SourceIP t) then ''Source IP: '' @ the (tk_SourceIP t) @ nl else []) @
            (if given (tk_RuleID t) then ''Rule: '' @ the (tk_RuleID t) @ nl else []) @
            (case tk_ResolvedAt t of
               None \<Rightarrow> []
             | Some r \<Rightarrow>
                 if event = ''resolved''
                 then ''Time to resolve: '' @ duration_string (round_second (r - tk_CreatedAt t)) @ nl else []) @
            ''Ticket: '' @ tk_ID t @ nl
      in (icon @ '' Ticket '' @ event @ '': '' @ tk_Title t, trim_right_nl body))"

definition GLPIContent :: "ticket \<Rightarrow> string" where
  "GLPIContent t =
     ''Raised by DeusWatch.'' @ nl @ nl @
     (if tk_Description t \<noteq> [] then tk_Description t @ nl @ nl else []) @
     ''Severity: '' @ severityName (tk_Severity t) @ nl @
     (if given (tk_SourceIP t) then ''Source IP: '' @ the (tk_SourceIP t) @ nl else []) @
     (if given (tk_RuleID t) then ''Rule: '' @ the (tk_RuleID t) @ nl else []) @
     (if tk_AutoCreated t then ''Opened automatically from a detection alert.'' @ nl else []) @
     ''DeusWatch ticket: '' @ tk_ID t @ nl @
     ''Created: '' @ rfc3339 (tk_CreatedAt t) @ nl"

text \<open>The announcement that runs in the background, outside the request's transaction: the message it sends.\<close>

definition announceResolved :: "bool \<Rightarrow> ticket \<Rightarrow> 'i ticket_db \<Rightarrow> (string \<times> string) option \<times> 'i ticket_db" where
  "announceResolved notifier t w =
     (if \<not> notifier then (None, w)
      else case LoadAutomationConfig w of
        (Inl _, w1) \<Rightarrow> (None, w1)
      | (Inr cfg, w1) \<Rightarrow> (if ac_NotifyOnResolve cfg then Some (Message t ''resolved'') else None, w1))"

end
