(* ===== verification/Ticket_Desk.thy ===== *)
theory Ticket_Desk
  imports Tickets Events
begin

text \<open>
  Who works on the tickets: the requests of \<^verbatim>\<open>internal/tickets/handlers.go\<close> inside the tenant scope that
  \<^verbatim>\<open>cmd/api/main.go\<close> and \<^verbatim>\<open>internal/store\<close> open for them, the worker's automation
  (\<^verbatim>\<open>cmd/worker/ticketing.go\<close>) and its GLPI mirror (\<^verbatim>\<open>cmd/worker/glpisync.go\<close>, \<^verbatim>\<open>internal/glpi\<close>). The JSON
  decoders hand over \<open>None\<close> for a body that does not decode; the GLPI server is a record of the two calls.
\<close>

section \<open>The scope of a request\<close>

text \<open>
  What a transaction that does not commit leaves behind: the outcomes and identifiers it used up, and the
  announcements it has started.
\<close>

definition roll_back :: "'i ticket_db \<Rightarrow> 'i ticket_db \<Rightarrow> 'i ticket_db" where
  "roll_back w w' =
     w\<lparr>db_faults := db_faults w', db_seq := db_seq w', tdb_next_comment := tdb_next_comment w',
       tdb_announced := tdb_announced w'\<rparr>"

definition leave_scope :: "'i ticket_db \<Rightarrow> 'i ticket_db \<Rightarrow> 'i ticket_db" where
  "leave_scope w w' =
     w'\<lparr>tdb_super := tdb_super w, tdb_tenants := tdb_tenants w, tdb_intx := tdb_intx w, tdb_broken := tdb_broken w\<rparr>"

definition enter_scope :: "string list \<Rightarrow> bool \<Rightarrow> 'i ticket_db \<Rightarrow> 'i ticket_db" where
  "enter_scope tenants super w =
     w\<lparr>tdb_super := super, tdb_tenants := tenants, tdb_intx := True, tdb_broken := False\<rparr>"

text \<open>\<^verbatim>\<open>BEGIN\<close>, the session variables and the role, each of which can fail before the handler has run.\<close>

definition begin_scope :: "bool \<Rightarrow> 'i ticket_db \<Rightarrow> bool \<times> 'i ticket_db" where
  "begin_scope super w =
     (case query w of
        (True, w1) \<Rightarrow> (True, w1)
      | (False, w1) \<Rightarrow>
          (case query w1 of
             (True, w2) \<Rightarrow> (True, w2)
           | (False, w2) \<Rightarrow> if super then (False, w2) else query w2))"

text \<open>The handler's answer, if it ran, and whether the transaction failed.\<close>

definition WithTenantScope ::
    "string list \<Rightarrow> bool \<Rightarrow> ('i ticket_db \<Rightarrow> 'a \<times> 'i ticket_db) \<Rightarrow> 'i ticket_db \<Rightarrow> ('a option \<times> bool) \<times> 'i ticket_db" where
  "WithTenantScope tenants super fn w =
     (case begin_scope super w of
        (True, w1) \<Rightarrow> ((None, True), w1)
      | (False, w1) \<Rightarrow>
          (case fn (enter_scope tenants super w1) of
             (a, w2) \<Rightarrow>
               if tdb_broken w2 then ((Some a, True), roll_back w1 w2)
               else (case query w2 of
                       (True, w3) \<Rightarrow> ((Some a, True), roll_back w1 w3)
                     | (False, w3) \<Rightarrow> ((Some a, False), leave_scope w1 w3))))"

datatype answer_body =
  BTicket ticket | BTickets "ticket list" | BCase ticket "tk_comment list" | BComment tk_comment
| BConfig automation_config | BError

type_synonym answer = "int \<times> answer_body"

text \<open>The user of a request: the name, the tenants its workspaces reach (\<open>None\<close>: the query failed), the bypass.\<close>

record caller =
  ca_Username :: string
  ca_Tenants :: "string list option"
  ca_ManageTenants :: bool

definition withScope :: "caller \<Rightarrow> ('i ticket_db \<Rightarrow> answer \<times> 'i ticket_db) \<Rightarrow> 'i ticket_db \<Rightarrow> answer \<times> 'i ticket_db" where
  "withScope u h w =
     (case ca_Tenants u of
        None \<Rightarrow> ((503, BError), w)
      | Some ts \<Rightarrow>
          (case WithTenantScope ts (ca_ManageTenants u) h w of
             ((Some a, _), w1) \<Rightarrow> (a, w1)
           | ((None, _), w1) \<Rightarrow> ((503, BError), w1)))"

section \<open>The handlers\<close>

definition ListTicketsHandler :: "string \<Rightarrow> 'i ticket_db \<Rightarrow> answer \<times> 'i ticket_db" where
  "ListTicketsHandler status w =
     (case List_tickets status 200 w of
        (Inl _, w1) \<Rightarrow> ((500, BError), w1)
      | (Inr ts, w1) \<Rightarrow> ((200, BTickets ts), w1))"

definition CreateTicketHandler :: "caller \<Rightarrow> new_ticket option \<Rightarrow> 'i ticket_db \<Rightarrow> answer \<times> 'i ticket_db" where
  "CreateTicketHandler u body w =
     (case body of
        None \<Rightarrow> ((400, BError), w)
      | Some n \<Rightarrow>
          (case Create_ticket (ca_Username u) (n\<lparr>nt_AutoCreated := False, nt_DedupeKey := []\<rparr>) w of
             (Inl _, w1) \<Rightarrow> ((400, BError), w1)
           | (Inr t, w1) \<Rightarrow> ((201, BTicket t), w1)))"

definition GetTicketHandler :: "string \<Rightarrow> 'i ticket_db \<Rightarrow> answer \<times> 'i ticket_db" where
  "GetTicketHandler tid w =
     (case Get_ticket tid w of
        (Inl _, w1) \<Rightarrow> ((404, BError), w1)
      | (Inr (t, cs), w1) \<Rightarrow> ((200, BCase t cs), w1))"

definition UpdateTicketHandler ::
    "caller \<Rightarrow> string \<Rightarrow> update_fields option \<Rightarrow> 'i ticket_db \<Rightarrow> answer \<times> 'i ticket_db" where
  "UpdateTicketHandler u tid body w =
     (case body of
        None \<Rightarrow> ((400, BError), w)
      | Some f \<Rightarrow>
          (case Update_ticket tid (ca_Username u) f w of
             (Inl _, w1) \<Rightarrow> ((400, BError), w1)
           | (Inr t, w1) \<Rightarrow> ((200, BTicket t), w1)))"

definition AutomationGetHandler :: "'i ticket_db \<Rightarrow> answer \<times> 'i ticket_db" where
  "AutomationGetHandler w =
     (case LoadAutomationConfig w of
        (Inl _, w1) \<Rightarrow> ((500, BError), w1)
      | (Inr c, w1) \<Rightarrow> ((200, BConfig c), w1))"

definition AutomationSetHandler :: "automation_config option \<Rightarrow> 'i ticket_db \<Rightarrow> answer \<times> 'i ticket_db" where
  "AutomationSetHandler body w =
     (case body of
        None \<Rightarrow> ((400, BError), w)
      | Some c \<Rightarrow>
          (case SaveAutomationConfig c w of
             (Inl _, w1) \<Rightarrow> ((500, BError), w1)
           | (Inr _, w1) \<Rightarrow>
               (case LoadAutomationConfig w1 of
                  (Inl _, w2) \<Rightarrow> ((500, BError), w2)
                | (Inr saved, w2) \<Rightarrow> ((200, BConfig saved), w2))))"

definition CommentHandler :: "caller \<Rightarrow> string \<Rightarrow> string option \<Rightarrow> 'i ticket_db \<Rightarrow> answer \<times> 'i ticket_db" where
  "CommentHandler u tid body w =
     (case body of
        None \<Rightarrow> ((400, BError), w)
      | Some b \<Rightarrow>
          (case AddComment tid (ca_Username u) b w of
             (Inl _, w1) \<Rightarrow> ((400, BError), w1)
           | (Inr c, w1) \<Rightarrow> ((201, BComment c), w1)))"

section \<open>The worker's automation\<close>

definition alertDetail :: "event \<Rightarrow> alert_ticket \<Rightarrow> string" where
  "alertDetail ev a =
     trim_right_nl
       (''Opened automatically by DeusWatch from a detection alert.'' @ nl @ nl @
        (if al_Agent a \<noteq> [] then ''Agent: '' @ al_Agent a @ nl else []) @
        (if al_SourceIP a \<noteq> [] then ''Source IP: '' @ al_SourceIP a @ nl else []) @
        (if al_RuleID a \<noteq> [] then ''Rule: '' @ al_RuleID a @ nl else []) @
        (case ev_Threat ev of
           None \<Rightarrow> []
         | Some t \<Rightarrow> if tech_ID (th_Technique t) \<noteq> []
                      then ''MITRE: '' @ tech_ID (th_Technique t) @ '' '' @ th_TacticName t @ nl else []) @
        (case ev_File ev of
           None \<Rightarrow> []
         | Some f \<Rightarrow> if file_Path f \<noteq> [] then ''File: '' @ file_Path f @ nl else []) @
        (if ev_Timestamp ev \<noteq> 0 then ''First seen: '' @ rfc3339 (ev_Timestamp ev) @ nl else []) @
        (if dw_Label (ev_DeusWatch ev) \<noteq> [] then ''Label: '' @ dw_Label (ev_DeusWatch ev) @ nl else []))"

definition alertTicketFrom :: "event \<Rightarrow> alert_ticket" where
  "alertTicketFrom ev =
     (let rid = (case ev_Rule ev of None \<Rightarrow> [] | Some r \<Rightarrow> er_ID r);
          title = (case ev_Rule ev of None \<Rightarrow> [] | Some r \<Rightarrow> if er_Name r = [] then er_ID r else er_Name r);
          src = (case ev_Source ev of None \<Rightarrow> [] | Some s \<Rightarrow> ep_IP s);
          ag = (case ev_Agent ev of None \<Rightarrow> [] | Some g \<Rightarrow> agent_ID g);
          a = \<lparr>al_Title = title, al_Severity = ef_Severity (ev_Event ev), al_RuleID = rid, al_SourceIP = src,
               al_Agent = ag, al_Detail = []\<rparr>
      in a\<lparr>al_Detail := alertDetail ev a\<rparr>)"

text \<open>The cached configuration; a failed read keeps the old one.\<close>

definition refresh_config ::
    "automation_config option \<Rightarrow> 'i ticket_db \<Rightarrow> automation_config option \<times> 'i ticket_db" where
  "refresh_config cfg w =
     (case LoadAutomationConfig w of
        (Inl _, w1) \<Rightarrow> (cfg, w1)
      | (Inr c, w1) \<Rightarrow> (Some c, w1))"

text \<open>One alert: the ticket, and the message for the channels when there are any.\<close>

definition handle_alert ::
    "automation_config option \<Rightarrow> bool \<Rightarrow> event \<Rightarrow> 'i ticket_db \<Rightarrow> (string \<times> string) option \<times> 'i ticket_db" where
  "handle_alert cfg channels ev w =
     (case cfg of
        None \<Rightarrow> (None, w)
      | Some c \<Rightarrow>
          if \<not> ac_Enabled c then (None, w)
          else (case TicketForAlert c (alertTicketFrom ev) w of
                  (Inr (Some t, True), w1) \<Rightarrow>
                    (if ac_NotifyOnCreate c \<and> channels then Some (Message t ''opened'') else None, w1)
                | (_, w1) \<Rightarrow> (None, w1)))"

section \<open>The GLPI mirror\<close>

definition UrgencyFromSeverity :: "int \<Rightarrow> int" where
  "UrgencyFromSeverity sev = (let u = sev + 1 in if u < 1 then 1 else if u > 5 then 5 else u)"

definition StatusToDeusWatch :: "int \<Rightarrow> string option" where
  "StatusToDeusWatch g =
     (if g = 1 then Some ''open''
      else if g = 2 \<or> g = 3 \<or> g = 4 then Some ''in_progress''
      else if g = 5 then Some ''resolved''
      else if g = 6 then Some ''closed''
      else None)"

record glpi_ticket =
  gt_Title :: string
  gt_Content :: string
  gt_Urgency :: int
  gt_Category :: int
  gt_Requester :: int

text \<open>The session: what the server does on the two calls, \<open>None\<close> for an error.\<close>

record 'g glpi_session =
  gs_CreateTicket :: "glpi_ticket \<Rightarrow> 'g \<Rightarrow> int option \<times> 'g"
  gs_TicketStatus :: "int \<Rightarrow> 'g \<Rightarrow> int option \<times> 'g"

definition glpi_request :: "int \<Rightarrow> int \<Rightarrow> ticket \<Rightarrow> glpi_ticket" where
  "glpi_request category requester t =
     \<lparr>gt_Title = tk_Title t, gt_Content = GLPIContent t, gt_Urgency = UrgencyFromSeverity (tk_Severity t),
      gt_Category = category, gt_Requester = requester\<rparr>"

fun push_list ::
    "'g glpi_session \<Rightarrow> int \<Rightarrow> int \<Rightarrow> ticket list \<Rightarrow> 'i ticket_db \<Rightarrow> 'g \<Rightarrow> 'i ticket_db \<times> 'g" where
  "push_list s category requester [] w g = (w, g)"
| "push_list s category requester (t # ts) w g =
     (case gs_CreateTicket s (glpi_request category requester t) g of
        (None, g1) \<Rightarrow> (w, g1)
      | (Some n, g1) \<Rightarrow>
          (case MarkPushed (tk_ID t) n w of
             (Inl _, w1) \<Rightarrow> (w1, g1)
           | (Inr _, w1) \<Rightarrow> push_list s category requester ts w1 g1))"

definition glpiPushBatch :: int where "glpiPushBatch = 50"
definition glpiPullBatch :: int where "glpiPullBatch = 100"

definition glpiPush ::
    "'g glpi_session \<Rightarrow> int \<Rightarrow> int \<Rightarrow> 'i ticket_db \<Rightarrow> 'g \<Rightarrow> 'i ticket_db \<times> 'g" where
  "glpiPush s category requester w g =
     (case UnpushedTickets glpiPushBatch w of
        (Inl _, w1) \<Rightarrow> (w1, g)
      | (Inr pending, w1) \<Rightarrow> push_list s category requester pending w1 g)"

text \<open>One linked ticket: \<open>None\<close> ends the round.\<close>

definition pull_one ::
    "'g glpi_session \<Rightarrow> ticket \<Rightarrow> 'i ticket_db \<Rightarrow> 'g \<Rightarrow> 'i ticket_db option \<times> 'g" where
  "pull_one s t w g =
     (case tk_GLPIID t of
        None \<Rightarrow> (Some w, g)
      | Some n \<Rightarrow>
          (case gs_TicketStatus s n g of
             (None, g1) \<Rightarrow> (None, g1)
           | (Some raw, g1) \<Rightarrow>
               (Some (case StatusToDeusWatch raw of
                        None \<Rightarrow> w
                      | Some status \<Rightarrow>
                          if status = tk_Status t then snd (TouchGLPISync (tk_ID t) w)
                          else snd (ApplyGLPIStatus (tk_ID t) status w)), g1)))"

fun pull_list :: "'g glpi_session \<Rightarrow> ticket list \<Rightarrow> 'i ticket_db \<Rightarrow> 'g \<Rightarrow> 'i ticket_db \<times> 'g" where
  "pull_list s [] w g = (w, g)"
| "pull_list s (t # ts) w g =
     (case pull_one s t w g of
        (None, g1) \<Rightarrow> (w, g1)
      | (Some w1, g1) \<Rightarrow> pull_list s ts w1 g1)"

definition glpiPull :: "'g glpi_session \<Rightarrow> 'i ticket_db \<Rightarrow> 'g \<Rightarrow> 'i ticket_db \<times> 'g" where
  "glpiPull s w g =
     (case LinkedLiveTickets glpiPullBatch w of
        (Inl _, w1) \<Rightarrow> (w1, g)
      | (Inr linked, w1) \<Rightarrow> pull_list s linked w1 g)"

end
