(* ===== verification/Ticket_Moves.thy ===== *)
theory Ticket_Moves
  imports Ticket_Desk
begin

text \<open>
  How the operations move the table of tickets. \<open>row_step\<close> lists the changes of one row, as a step relation;
  \<open>desk_moves S\<close> says that a state comes from another by appending rows and by steps on rows whose tenant
  satisfies \<open>S\<close>. Every operation is such a move with the tenants of its scope, so a fact about single steps
  holds for all of them.
\<close>

section \<open>Steps of a row\<close>

text \<open>The flag says whether the step may count a recurrence.\<close>

inductive row_step :: "bool \<Rightarrow> 'i ticket_row \<Rightarrow> 'i ticket_row \<Rightarrow> bool" where
  edited: "edit_ticket actor f t (scanTicket host r) = Inr c \<Longrightarrow> row_step b r (write_edit c t' r)"
| noted: "row_step b r (acknowledge t author r)"
| counted: "row_step True r (count_recurrence t r)"
| linked: "row_step b r (r\<lparr>tr_glpi_id := Some n, tr_glpi_synced_at := Some t\<rparr>)"
| touched: "row_step b r (r\<lparr>tr_glpi_synced_at := Some t\<rparr>)"

definition new_row :: "bool \<Rightarrow> 'i ticket_row \<Rightarrow> bool" where
  "new_row b r =
     (0 \<le> tr_severity r \<and> tr_severity r \<le> 4 \<and> tr_status r = ''open'' \<and> tr_resolved_at r = None \<and>
      tr_closed_at r = None \<and> tr_acked_at r = None \<and> tr_acked_by r = None \<and> tr_recurrences r = 0 \<and>
      tr_tenant_id r = DefaultTenantID \<and> (\<not> b \<longrightarrow> tr_dedupe_key r = None))"

definition row_moves :: "bool \<Rightarrow> (string \<Rightarrow> bool) \<Rightarrow> 'i ticket_row \<Rightarrow> 'i ticket_row \<Rightarrow> bool" where
  "row_moves b S r r' = (r' = r \<or> S (tr_tenant_id r) \<and> (row_step b)\<^sup>*\<^sup>* r r')"

definition desk_moves :: "bool \<Rightarrow> (string \<Rightarrow> bool) \<Rightarrow> 'i ticket_db \<Rightarrow> 'i ticket_db \<Rightarrow> bool" where
  "desk_moves b S w w' =
     (\<exists>olds news. tdb_tickets w' = olds @ news \<and> list_all2 (row_moves b S) (tdb_tickets w) olds \<and>
        (\<forall>r \<in> set news. S (tr_tenant_id r) \<and> (\<exists>r0. new_row b r0 \<and> (row_step b)\<^sup>*\<^sup>* r0 r)))"

lemma row_step_keeps:
  "row_step b r r' \<Longrightarrow> tr_id r' = tr_id r \<and> tr_tenant_id r' = tr_tenant_id r \<and> tr_dedupe_key r' = tr_dedupe_key r \<and>
     tr_created_at r' = tr_created_at r \<and> tr_source_ip r' = tr_source_ip r \<and> (\<not> b \<longrightarrow> tr_recurrences r' = tr_recurrences r)"
  by (induction rule: row_step.induct) (auto simp: write_edit_def acknowledge_def count_recurrence_def)

lemma row_steps_keep:
  "(row_step b)\<^sup>*\<^sup>* r r' \<Longrightarrow> tr_id r' = tr_id r \<and> tr_tenant_id r' = tr_tenant_id r \<and> tr_dedupe_key r' = tr_dedupe_key r \<and>
     tr_created_at r' = tr_created_at r \<and> tr_source_ip r' = tr_source_ip r \<and> (\<not> b \<longrightarrow> tr_recurrences r' = tr_recurrences r)"
  by (induction rule: rtranclp_induct) (auto dest!: row_step_keeps)

lemma row_step_mono: "row_step b r r' \<Longrightarrow> row_step True r r'"
  by (induction rule: row_step.induct) (auto intro: row_step.intros)

lemma row_steps_mono: "(row_step b)\<^sup>*\<^sup>* r r' \<Longrightarrow> (row_step True)\<^sup>*\<^sup>* r r'"
  by (erule rtranclp_mono [THEN predicate2D, rotated]) (auto intro: row_step_mono)

lemma row_moves_refl [simp]: "row_moves b S r r"
  by (simp add: row_moves_def)

lemma row_moves_trans: "row_moves b S r r' \<Longrightarrow> row_moves b S r' r'' \<Longrightarrow> row_moves b S r r''"
  by (auto simp: row_moves_def)

section \<open>Moves of the table\<close>

lemma desk_movesI:
  "tdb_tickets w' = olds @ news \<Longrightarrow> list_all2 (row_moves b S) (tdb_tickets w) olds \<Longrightarrow>
   (\<And>r. r \<in> set news \<Longrightarrow> S (tr_tenant_id r) \<and> (\<exists>r0. new_row b r0 \<and> (row_step b)\<^sup>*\<^sup>* r0 r)) \<Longrightarrow> desk_moves b S w w'"
  unfolding desk_moves_def by blast

lemma desk_moves_same: "tdb_tickets w' = tdb_tickets w \<Longrightarrow> desk_moves b S w w'"
  unfolding desk_moves_def by (rule exI [of _ "tdb_tickets w"], rule exI [of _ "[]"]) (simp add: list_all2_refl)

lemma desk_moves_cong:
  "tdb_tickets v = tdb_tickets w \<Longrightarrow> tdb_tickets v' = tdb_tickets w' \<Longrightarrow> desk_moves b S v v' = desk_moves b S w w'"
  by (simp add: desk_moves_def)

lemma desk_moves_trans:
  assumes "desk_moves b S w w1" "desk_moves b S w1 w2"
  shows "desk_moves b S w w2"
proof -
  let ?new = "\<lambda>r. S (tr_tenant_id r) \<and> (\<exists>r0. new_row b r0 \<and> (row_step b)\<^sup>*\<^sup>* r0 r)"
  from assms(1) obtain o1 n1 where 1: "tdb_tickets w1 = o1 @ n1" "list_all2 (row_moves b S) (tdb_tickets w) o1"
    "\<forall>r \<in> set n1. ?new r" by (auto simp: desk_moves_def)
  from assms(2) obtain o2 n2 where 2: "tdb_tickets w2 = o2 @ n2" "list_all2 (row_moves b S) (o1 @ n1) o2"
    "\<forall>r \<in> set n2. ?new r" by (auto simp: desk_moves_def 1(1))
  from 2(2) obtain a c where ac: "o2 = a @ c" "list_all2 (row_moves b S) o1 a" "list_all2 (row_moves b S) n1 c"
    by (auto simp: list_all2_append1)
  have "list_all2 (row_moves b S) (tdb_tickets w) a"
    by (rule list_all2_trans [OF _ 1(2) ac(2)]) (rule row_moves_trans)
  moreover have "\<forall>r \<in> set c. ?new r"
  proof
    fix r' assume "r' \<in> set c"
    with ac(3) obtain r where "r \<in> set n1" "row_moves b S r r'"
      by (metis in_set_conv_nth list_all2_conv_all_nth)
    with 1(3) show "?new r'"
      by (auto simp: row_moves_def dest: row_steps_keep) (meson rtranclp_trans)
  qed
  moreover have "tdb_tickets w2 = a @ c @ n2" by (simp add: 2(1) ac(1))
  ultimately show ?thesis using 2(3) by (intro desk_movesI [of w2 a "c @ n2"]) auto
qed

lemma desk_moves_set:
  assumes "\<And>r. r \<in> set (tdb_tickets w) \<Longrightarrow> tr_id r = u \<Longrightarrow> tk_visible w r \<Longrightarrow> row_step b r (f r)"
  shows "desk_moves b (in_scope w) w (set_ticket u f w)"
  unfolding desk_moves_def
  by (rule exI [of _ "tdb_tickets (set_ticket u f w)"], rule exI [of _ "[]"])
     (auto simp: set_ticket_def update_rows_def list_all2_map2 list_all2_same row_moves_def tk_visible_def dest: assms)

lemma desk_moves_new:
  "new_row b r \<Longrightarrow> in_scope w DefaultTenantID \<Longrightarrow> desk_moves b (in_scope w) w (w\<lparr>tdb_tickets := tdb_tickets w @ [r]\<rparr>)"
  unfolding desk_moves_def
  by (rule exI [of _ "tdb_tickets w"], rule exI [of _ "[r]"])
     (auto simp: list_all2_refl new_row_def)

lemma desk_moves_mono:
  assumes "desk_moves b S w w'"
  shows "desk_moves True S w w'"
proof -
  from assms obtain olds news where m: "tdb_tickets w' = olds @ news" "list_all2 (row_moves b S) (tdb_tickets w) olds"
    "\<forall>r \<in> set news. S (tr_tenant_id r) \<and> (\<exists>r0. new_row b r0 \<and> (row_step b)\<^sup>*\<^sup>* r0 r)"
    unfolding desk_moves_def by blast
  show ?thesis
  proof (rule desk_movesI [OF m(1)])
    show "list_all2 (row_moves True S) (tdb_tickets w) olds"
      by (rule list_all2_mono [OF m(2)]) (auto simp: row_moves_def row_steps_mono)
    fix r assume "r \<in> set news"
    with m(3) obtain r0 where "S (tr_tenant_id r)" "new_row b r0" "(row_step b)\<^sup>*\<^sup>* r0 r" by blast
    moreover from this(2) have "new_row True r0" by (simp add: new_row_def)
    ultimately show "S (tr_tenant_id r) \<and> (\<exists>r0. new_row True r0 \<and> (row_step True)\<^sup>*\<^sup>* r0 r)"
      using row_steps_mono by blast
  qed
qed

section \<open>Operations are moves of their scope\<close>

definition desk_env ::
    "'i ticket_db \<Rightarrow> bool \<times> string list \<times> bool \<times> (string \<Rightarrow> string option) \<times> (string \<Rightarrow> 'i option) \<times>
       ('i \<Rightarrow> string) \<times> gotime \<times> (nat \<Rightarrow> string)" where
  "desk_env w =
     (tdb_super w, tdb_tenants w, tdb_intx w, tdb_uuid_in w, tdb_inet_in w, tdb_inet_host w, db_clock w, db_uuid w)"

text \<open>Identifiers are a primary key.\<close>

definition keyed :: "'i ticket_db \<Rightarrow> bool" where
  "keyed w = distinct (map tr_id (tdb_tickets w))"

lemma keyed_unique: "keyed w \<Longrightarrow> r \<in> set (tdb_tickets w) \<Longrightarrow> r' \<in> set (tdb_tickets w) \<Longrightarrow> tr_id r' = tr_id r \<Longrightarrow> r' = r"
  by (auto simp: keyed_def distinct_map inj_on_def)

definition ids_ok :: "'i ticket_db \<Rightarrow> bool" where
  "ids_ok w = (inj (db_uuid w) \<and> keyed w \<and> tr_id ` set (tdb_tickets w) \<subseteq> used_ids w)"

text \<open>A database that answers goes on answering, and outside a transaction nothing stays refused.\<close>

definition calm_step :: "'i ticket_db \<Rightarrow> 'i ticket_db \<Rightarrow> bool" where
  "calm_step w w' =
     ((db_faults w = [] \<longrightarrow> db_faults w' = []) \<and> (\<not> tdb_intx w \<and> \<not> tdb_broken w \<longrightarrow> \<not> tdb_broken w'))"

lemma calm_same: "db_faults w' = db_faults w \<Longrightarrow> tdb_broken w' = tdb_broken w \<Longrightarrow> calm_step w w'"
  by (simp add: calm_step_def)

definition moves_to :: "bool \<Rightarrow> 'i ticket_db \<Rightarrow> 'i ticket_db \<Rightarrow> bool" where
  "moves_to b w w' =
     (desk_env w' = desk_env w \<and> desk_moves b (in_scope w) w w' \<and> db_seq w \<le> db_seq w' \<and> (ids_ok w \<longrightarrow> ids_ok w') \<and>
      calm_step w w')"

lemma env_fields:
  assumes "desk_env w' = desk_env w"
  shows "tdb_uuid_in w' = tdb_uuid_in w" "tdb_inet_in w' = tdb_inet_in w" "tdb_inet_host w' = tdb_inet_host w"
    "db_clock w' = db_clock w" "db_uuid w' = db_uuid w" "tdb_super w' = tdb_super w" "tdb_tenants w' = tdb_tenants w"
    "tdb_intx w' = tdb_intx w"
  using assms by (simp_all add: desk_env_def)

lemma env_scope: "desk_env w' = desk_env w \<Longrightarrow> in_scope w' = in_scope w"
  by (auto simp: desk_env_def in_scope_def fun_eq_iff)

lemma env_visible: "desk_env w' = desk_env w \<Longrightarrow> tk_visible w' = tk_visible w"
  by (auto simp: tk_visible_def fun_eq_iff dest: env_scope)

lemma ids_ok_keep:
  assumes "desk_env w' = desk_env w" "map tr_id (tdb_tickets w') = map tr_id (tdb_tickets w)" "db_seq w \<le> db_seq w'" "ids_ok w"
  shows "ids_ok w'"
proof -
  have "tr_id ` set (tdb_tickets w') = tr_id ` set (tdb_tickets w)" by (metis assms(2) set_map)
  moreover have "used_ids w \<subseteq> used_ids w'" using assms(3) env_fields(5) [OF assms(1)] by (auto simp: used_ids_def)
  ultimately show ?thesis using assms env_fields(5) [OF assms(1)] by (auto simp: ids_ok_def keyed_def)
qed

lemma moves_to_frame:
  "desk_env w' = desk_env w \<Longrightarrow> tdb_tickets w' = tdb_tickets w \<Longrightarrow> db_seq w \<le> db_seq w' \<Longrightarrow> calm_step w w' \<Longrightarrow>
   moves_to b w w'"
  by (simp add: moves_to_def desk_moves_same ids_ok_keep)

lemma moves_to_refl [simp]: "moves_to b w w"
  by (simp add: moves_to_frame calm_same)

lemma moves_to_trans [trans]: "moves_to b w w1 \<Longrightarrow> moves_to b w1 w2 \<Longrightarrow> moves_to b w w2"
  using env_scope [of w1 w] env_fields(8) [of w1 w]
  by (auto simp: moves_to_def calm_step_def intro: desk_moves_trans)

lemma moves_to_mono: "moves_to b w w' \<Longrightarrow> moves_to True w w'"
  unfolding moves_to_def using desk_moves_mono by blast

lemma query_result: "query w = (x, w') \<Longrightarrow> w' = w\<lparr>db_faults := tl (db_faults w)\<rparr>"
  by (cases w) (auto simp: query_def split: list.splits)

lemma stmt_eq:
  "stmt w = (x, w') \<Longrightarrow> w' = w\<lparr>db_faults := db_faults w', tdb_broken := tdb_broken w'\<rparr>"
  by (auto simp: stmt_def abort_tx_def split: if_splits prod.splits bool.splits dest!: query_result)

lemma stmt_frame:
  assumes "stmt w = (x, w')"
  shows "desk_env w' = desk_env w" "tdb_tickets w' = tdb_tickets w" "tdb_comments w' = tdb_comments w"
    "tdb_automation w' = tdb_automation w" "db_seq w' = db_seq w" "tdb_announced w' = tdb_announced w"
  by (subst stmt_eq [OF assms], simp add: desk_env_def)+

lemma stmt_calm: "stmt w = (x, w') \<Longrightarrow> calm_step w w'"
proof (cases "tdb_broken w")
  case False
  assume s: "stmt w = (x, w')"
  obtain y v where q: "query w = (y, v)" by force
  have v: "db_faults v = tl (db_faults w)" "tdb_broken v = tdb_broken w" "tdb_intx v = tdb_intx w"
    by (subst query_result [OF q], simp)+
  have "w' = (if y then abort_tx v else v)" using s False q by (cases y) (simp_all add: stmt_def)
  with v show ?thesis by (simp add: calm_step_def abort_tx_def)
qed (simp add: stmt_def calm_same)

lemma stmt_moves: "stmt w = (x, w') \<Longrightarrow> moves_to b w w'"
  by (simp add: stmt_frame moves_to_frame stmt_calm)

lemma abort_frame [simp]:
  "desk_env (abort_tx w) = desk_env w" "tdb_tickets (abort_tx w) = tdb_tickets w" "tdb_comments (abort_tx w) = tdb_comments w"
  "tdb_announced (abort_tx w) = tdb_announced w" "db_seq (abort_tx w) = db_seq w"
  by (simp_all add: abort_tx_def desk_env_def)

lemma set_ticket_env [simp]: "desk_env (set_ticket u f w) = desk_env w" "db_seq (set_ticket u f w) = db_seq w"
  by (simp_all add: set_ticket_def desk_env_def)

lemma set_ticket_moves:
  assumes "\<And>r. r \<in> set (tdb_tickets w) \<Longrightarrow> tr_id r = u \<Longrightarrow> tk_visible w r \<Longrightarrow> row_step b r (f r)"
  shows "moves_to b w (set_ticket u f w)"
proof -
  have "map tr_id (tdb_tickets (set_ticket u f w)) = map tr_id (tdb_tickets w)"
    by (auto simp: set_ticket_def update_rows_def dest: assms row_step_keeps)
  moreover have "calm_step w (set_ticket u f w)" by (rule calm_same) (simp_all add: set_ticket_def)
  ultimately show ?thesis using desk_moves_set [OF assms] by (simp add: moves_to_def ids_ok_keep)
qed

lemma inserted_row_new: "nt_DedupeKey n \<noteq> [] \<longrightarrow> b \<Longrightarrow> new_row b (inserted_row uid cb n ip t)"
  by (auto simp: new_row_def inserted_row_def clamp_severity_def strOrNil_def)

lemma abort_moves: "moves_to b w w1 \<Longrightarrow> moves_to b w (abort_tx w1)"
proof (erule moves_to_trans)
  have "calm_step w1 (abort_tx w1)" by (simp add: calm_step_def) (simp add: abort_tx_def)
  then show "moves_to b w1 (abort_tx w1)" by (simp add: moves_to_frame)
qed

lemma insert_moves:
  assumes "nt_DedupeKey n \<noteq> [] \<longrightarrow> b" "in_scope w DefaultTenantID" "uid = db_uuid w (db_seq w)"
  shows "moves_to b w (w\<lparr>db_seq := Suc (db_seq w), tdb_tickets := tdb_tickets w @ [inserted_row uid cb n ip t]\<rparr>)"
proof -
  let ?v = "w\<lparr>db_seq := Suc (db_seq w), tdb_tickets := tdb_tickets w @ [inserted_row uid cb n ip t]\<rparr>"
  have "desk_moves b (in_scope w) w ?v"
    using desk_moves_new [OF inserted_row_new [OF assms(1)] assms(2)] by (simp add: desk_moves_def)
  moreover have "ids_ok ?v" if ok: "ids_ok w"
  proof -
    have "tr_id (inserted_row uid cb n ip t) = uid" by (simp add: inserted_row_def)
    moreover have "uid \<notin> used_ids w" using ok fresh_id_not_used [of w] by (simp add: ids_ok_def assms(3))
    moreover have "used_ids ?v = insert uid (used_ids w)" by (simp add: used_ids_def lessThan_Suc assms(3))
    ultimately show ?thesis using ok by (auto simp: ids_ok_def keyed_def)
  qed
  ultimately show ?thesis by (simp add: moves_to_def desk_env_def calm_step_def)
qed

lemma Create_moves:
  assumes "nt_DedupeKey n \<noteq> [] \<longrightarrow> b"
  shows "moves_to b w (snd (Create_ticket cb n w))"
proof -
  obtain x w1 where q: "stmt w = (x, w1)" by force
  note q' = stmt_moves [OF q, of b]
  have "moves_to b w (w1\<lparr>db_seq := Suc (db_seq w1), tdb_tickets := tdb_tickets w1 @ [inserted_row (db_uuid w1 (db_seq w1)) cb n ip t]\<rparr>)"
    if "in_scope w1 DefaultTenantID" for ip t
    by (rule moves_to_trans [OF q' insert_moves [OF assms that refl]])
  with q' show ?thesis
    by (simp add: Create_ticket_def q Let_def fresh_id_def abort_moves split: bool.splits option.splits)
qed

lemma Get_moves: "moves_to b w (snd (Get_ticket tid w))"
proof -
  obtain x w1 where q: "stmt w = (x, w1)" by force
  obtain y w2 where q2: "stmt w1 = (y, w2)" by force
  note q' = stmt_moves [OF q, of b]
  from q' stmt_moves [OF q2, of b] have "moves_to b w w2" by (rule moves_to_trans)
  with q' show ?thesis by (simp add: Get_ticket_def q q2 abort_moves split: bool.splits option.splits)
qed

lemma find_ticket_Some:
  "find_ticket u w = Some r \<Longrightarrow> r \<in> set (tdb_tickets w) \<and> tr_id r = u \<and> tk_visible w r"
  by (auto simp: find_ticket_def find_Some_iff)

lemma Get_ticket_Inr:
  assumes "Get_ticket tid w = (Inr (t, cs), w')"
  obtains u r where "tdb_uuid_in w tid = Some u" "find_ticket u w = Some r" "t = scanTicket (tdb_inet_host w) r"
    "desk_env w' = desk_env w" "tdb_tickets w' = tdb_tickets w"
proof -
  obtain x w1 where q: "stmt w = (x, w1)" by force
  obtain y w2 where q2: "stmt w1 = (y, w2)" by force
  have e: "desk_env w1 = desk_env w" "tdb_tickets w1 = tdb_tickets w" using stmt_frame [OF q] by simp_all
  have e2: "desk_env w2 = desk_env w" "tdb_tickets w2 = tdb_tickets w" using stmt_frame [OF q2] e by simp_all
  from assms have x: "x = False" by (cases x) (simp_all add: Get_ticket_def q)
  from assms obtain u where u: "tdb_uuid_in w1 tid = Some u"
    by (cases "tdb_uuid_in w1 tid") (simp_all add: Get_ticket_def q x)
  from assms obtain r where r: "find_ticket u w1 = Some r"
    by (cases "find_ticket u w1") (simp_all add: Get_ticket_def q x u)
  from assms have y: "y = False" by (cases y) (simp_all add: Get_ticket_def q q2 x u r)
  from assms have "t = scanTicket (tdb_inet_host w2) r" "w' = w2"
    using q2 unfolding y by (auto simp: Get_ticket_def q x u r)
  moreover note u r
  moreover have "find_ticket u w1 = find_ticket u w"
    unfolding find_ticket_def e(2) env_visible [OF e(1)] by (rule refl)
  moreover note env_fields(1) [OF e(1)] env_fields(3) [OF e2(1)]
  ultimately show ?thesis using that e2 by simp
qed

text \<open>The edit that a read prepares is a step of the row as long as nothing has run in between.\<close>

lemma Update_read_Inr:
  assumes "Update_read tid actor f w = (Inr (rs, c), w')"
  obtains u r where "tdb_uuid_in w tid = Some u" "find_ticket u w = Some r" "desk_env w' = desk_env w"
    "tdb_tickets w' = tdb_tickets w" "edit_ticket actor f (db_clock w) (scanTicket (tdb_inet_host w) r) = Inr c"
    "rs = (tr_resolved_at r \<noteq> None)"
proof -
  obtain res w1 where g: "Get_ticket tid w = (res, w1)" by force
  from assms obtain t cs where t: "res = Inr (t, cs)" by (auto simp: Update_read_def g split: sum.splits)
  from Get_ticket_Inr [OF g [unfolded t]] obtain u r where u: "tdb_uuid_in w tid = Some u" "find_ticket u w = Some r"
    "t = scanTicket (tdb_inet_host w) r" "desk_env w1 = desk_env w" "tdb_tickets w1 = tdb_tickets w" by blast
  have "db_clock w1 = db_clock w" using u(4) by (simp add: desk_env_def)
  with assms u show ?thesis
    by (intro that [of u r]) (auto simp: Update_read_def g t scanTicket_def split: sum.splits)
qed

lemma Update_read_moves: "moves_to b w (snd (Update_read tid actor f w))"
proof (cases "Get_ticket tid w")
  case (Pair res w1)
  with Get_moves [of b w tid] show ?thesis
    by (auto simp: Update_read_def split: sum.splits)
qed

text \<open>What the writing half leaves: at most the rows with that identifier, and a started announcement.\<close>

lemma Update_write_cases:
  assumes "Update_write tid (rs, c) w = (res, w')"
  obtains (same) "desk_env w' = desk_env w" "tdb_tickets w' = tdb_tickets w" "tdb_announced w' = tdb_announced w" "\<exists>e. res = Inl e" "db_seq w' = db_seq w"
      "calm_step w w'"
  | (written) u r w1 where "tdb_uuid_in w tid = Some u" "find_ticket u w = Some r" "desk_env w1 = desk_env w"
      "tdb_tickets w1 = tdb_tickets w" "tdb_announced w1 = tdb_announced w" "db_seq w1 = db_seq w"
      "calm_step w w1" "res = Inr (scanTicket (tdb_inet_host w) (write_edit c (db_clock w) r))"
      "w' = start_announcement rs (scanTicket (tdb_inet_host w) (write_edit c (db_clock w) r))
              (set_ticket u (write_edit c (db_clock w)) w1)"
proof -
  obtain x w1 where q: "stmt w = (x, w1)" by force
  have e: "desk_env w1 = desk_env w" "tdb_tickets w1 = tdb_tickets w" "tdb_announced w1 = tdb_announced w" "db_seq w1 = db_seq w"
    using stmt_frame [OF q] by simp_all
  have v: "tdb_uuid_in w1 = tdb_uuid_in w" "tdb_inet_host w1 = tdb_inet_host w" "db_clock w1 = db_clock w"
    using e(1) by (simp_all add: desk_env_def)
  have fnd: "find_ticket u w1 = find_ticket u w" for u by (simp add: find_ticket_def e env_visible [OF e(1)])
  have cs: "calm_step w w1" "calm_step w (abort_tx w1)"
    using stmt_calm [OF q] env_fields(8) [OF e(1)] by (auto simp: calm_step_def abort_tx_def)
  show ?thesis
  proof (cases "x \<or> tdb_uuid_in w tid = None \<or> find_ticket (the (tdb_uuid_in w tid)) w = None")
    case True
    have "desk_env (snd (Update_write tid (rs, c) w)) = desk_env w \<and> tdb_tickets (snd (Update_write tid (rs, c) w)) = tdb_tickets w \<and>
        tdb_announced (snd (Update_write tid (rs, c) w)) = tdb_announced w \<and> (\<exists>e. fst (Update_write tid (rs, c) w) = Inl e) \<and>
        db_seq (snd (Update_write tid (rs, c) w)) = db_seq w \<and> calm_step w (snd (Update_write tid (rs, c) w))"
      using True e cs by (auto simp: Update_write_def q v fnd split: bool.splits option.splits)
    with assms show ?thesis by (intro same) simp_all
  next
    case False
    then obtain u r where ok: "\<not> x" "tdb_uuid_in w tid = Some u" "find_ticket u w = Some r" by auto
    then have "Update_write tid (rs, c) w =
        (Inr (scanTicket (tdb_inet_host w) (write_edit c (db_clock w) r)),
         start_announcement rs (scanTicket (tdb_inet_host w) (write_edit c (db_clock w) r))
              (set_ticket u (write_edit c (db_clock w)) w1))"
      by (simp add: Update_write_def q v fnd Let_def)
    with assms have "res = Inr (scanTicket (tdb_inet_host w) (write_edit c (db_clock w) r))"
      "w' = start_announcement rs (scanTicket (tdb_inet_host w) (write_edit c (db_clock w) r))
              (set_ticket u (write_edit c (db_clock w)) w1)" by (simp_all only: prod.inject)
    with ok e cs(1) show ?thesis by (intro written)
  qed
qed

lemma start_announcement_frame [simp]:
  "desk_env (start_announcement rs t w) = desk_env w" "tdb_tickets (start_announcement rs t w) = tdb_tickets w"
  "db_seq (start_announcement rs t w) = db_seq w" "db_faults (start_announcement rs t w) = db_faults w"
  "tdb_broken (start_announcement rs t w) = tdb_broken w"
  by (simp_all add: start_announcement_def desk_env_def)

lemma Update_moves:
  assumes "keyed w"
  shows "moves_to b w (snd (Update_ticket tid actor f w))"
proof -
  obtain e w1 where r: "Update_read tid actor f w = (e, w1)" by force
  have m: "moves_to b w w1" using Update_read_moves [of b w tid actor f] r by simp
  show ?thesis
  proof (cases e)
    case (Inl x)
    with m r show ?thesis by (simp add: Update_ticket_def)
  next
    case (Inr edit)
    obtain rs c where edit: "edit = (rs, c)" by force
    from Update_read_Inr [OF r [unfolded Inr edit]] obtain u r0 where u: "tdb_uuid_in w tid = Some u"
      "find_ticket u w = Some r0" "desk_env w1 = desk_env w" "tdb_tickets w1 = tdb_tickets w"
      "edit_ticket actor f (db_clock w) (scanTicket (tdb_inet_host w) r0) = Inr c" by blast
    obtain res w' where wr: "Update_write tid (rs, c) w1 = (res, w')" by force
    from wr have "moves_to b w1 w'"
    proof (cases rule: Update_write_cases)
      case (written u' r' w2)
      have "u' = u" using written(1) u(1,3) by (simp add: desk_env_def)
      have v: "tk_visible w2 = tk_visible w" by (rule env_visible) (simp add: written(3) u(3))
      have "moves_to b w2 (set_ticket u (write_edit c (db_clock w1)) w2)"
      proof (rule set_ticket_moves)
        fix r assume "r \<in> set (tdb_tickets w2)" "tr_id r = u" "tk_visible w2 r"
        then have "r \<in> set (tdb_tickets w)" "tr_id r = u" by (simp_all add: written(4) u(4))
        with find_ticket_Some [OF u(2)] keyed_unique [OF assms] have "r = r0" by metis
        with u(5) show "row_step b r (write_edit c (db_clock w1) r)" by (auto intro: row_step.edited)
      qed
      moreover have "moves_to b w1 w2" by (simp add: moves_to_frame written(3,4,6,7))
      moreover have "moves_to b (set_ticket u (write_edit c (db_clock w1)) w2) w'"
        by (simp add: moves_to_frame calm_same written(9) \<open>u' = u\<close>)
      ultimately show ?thesis by (blast intro: moves_to_trans)
    qed (simp add: moves_to_frame)
    with m show ?thesis by (simp add: Update_ticket_def r Inr edit wr) (rule moves_to_trans)
  qed
qed

lemma AddComment_moves: "moves_to b w (snd (AddComment tid author body w))"
proof -
  obtain x w1 where q: "stmt w = (x, w1)" by force
  note q' = stmt_moves [OF q, of b]
  define w2 where "w2 = w1\<lparr>tdb_next_comment := tdb_next_comment w1 + 1\<rparr>"
  have m2: "moves_to b w w2" by (rule moves_to_trans [OF q']) (simp add: w2_def moves_to_frame desk_env_def calm_same)
  have "moves_to b w (snd (case stmt (w2\<lparr>tdb_comments := cs\<rparr>) of
      (True, w4) \<Rightarrow> (Inr c, w4) | (False, w4) \<Rightarrow> (Inr c, set_ticket u (acknowledge (db_clock w4) author) w4)))"
    for cs c u
  proof -
    obtain y w4 where q4: "stmt (w2\<lparr>tdb_comments := cs\<rparr>) = (y, w4)" by force
    have "moves_to b w2 (w2\<lparr>tdb_comments := cs\<rparr>)" by (simp add: moves_to_frame desk_env_def calm_same)
    with m2 stmt_moves [OF q4] have m4: "moves_to b w w4" by (blast intro: moves_to_trans)
    moreover have "moves_to b w4 (set_ticket u (acknowledge (db_clock w4) author) w4)"
      by (rule set_ticket_moves) (rule row_step.noted)
    ultimately show ?thesis by (cases y) (auto simp: q4 intro: moves_to_trans)
  qed
  note last = this
  show ?thesis
  proof (cases "body = [] \<or> x \<or> tdb_uuid_in w1 tid = None")
    case True
    with q' show ?thesis by (auto simp: AddComment_def q abort_moves split: bool.splits)
  next
    case False
    then obtain u where "tdb_uuid_in w1 tid = Some u" "body \<noteq> []" "\<not> x" by auto
    then show ?thesis
      using m2 last by (simp add: AddComment_def q Let_def w2_def [symmetric] abort_moves) (intro impI last)
  qed
qed

lemma MarkPushed_moves: "moves_to b w (snd (MarkPushed tid n w))"
proof -
  obtain x w1 where q: "stmt w = (x, w1)" by force
  note q' = stmt_moves [OF q, of b]
  have "moves_to b w1 (set_ticket u (\<lambda>r. r\<lparr>tr_glpi_id := Some n, tr_glpi_synced_at := Some (db_clock w1)\<rparr>) w1)" for u
    by (rule set_ticket_moves) (rule row_step.linked)
  with q' have "moves_to b w (set_ticket u (\<lambda>r. r\<lparr>tr_glpi_id := Some n, tr_glpi_synced_at := Some (db_clock w1)\<rparr>) w1)" for u
    by (blast intro: moves_to_trans)
  with q' show ?thesis by (simp add: MarkPushed_def q abort_moves split: bool.splits option.splits)
qed

lemma Touch_moves: "moves_to b w (snd (TouchGLPISync tid w))"
proof -
  obtain x w1 where q: "stmt w = (x, w1)" by force
  note q' = stmt_moves [OF q, of b]
  have "moves_to b w1 (set_ticket u (\<lambda>r. r\<lparr>tr_glpi_synced_at := Some (db_clock w1)\<rparr>) w1)" for u
    by (rule set_ticket_moves) (rule row_step.touched)
  with q' have "moves_to b w (set_ticket u (\<lambda>r. r\<lparr>tr_glpi_synced_at := Some (db_clock w1)\<rparr>) w1)" for u
    by (blast intro: moves_to_trans)
  with q' show ?thesis by (simp add: TouchGLPISync_def q abort_moves split: bool.splits option.splits)
qed

lemma Apply_moves:
  assumes "keyed w"
  shows "moves_to b w (snd (ApplyGLPIStatus tid status w))"
proof -
  obtain x w1 where u: "Update_ticket tid GLPISyncActor (only_status status) w = (x, w1)" by force
  obtain y w2 where t: "TouchGLPISync tid w1 = (y, w2)" by force
  have "moves_to b w w1" "moves_to b w1 w2"
    using Update_moves [OF assms, of b tid GLPISyncActor "only_status status"] Touch_moves [of b w1 tid] u t by simp_all
  then show ?thesis by (auto simp: ApplyGLPIStatus_def u t split: sum.splits intro: moves_to_trans)
qed

lemma query_moves: "query w = (x, w') \<Longrightarrow> moves_to b w w'"
  by (auto dest!: query_result simp: moves_to_frame desk_env_def calm_step_def)

lemma Load_moves: "moves_to b w (snd (LoadAutomationConfig w))"
proof -
  obtain x w1 where q: "stmt w = (x, w1)" by force
  from stmt_moves [OF q, of b] show ?thesis by (cases x) (simp_all add: LoadAutomationConfig_def q)
qed

lemma Save_moves: "moves_to b w (snd (SaveAutomationConfig c w))"
proof -
  obtain x w1 where q: "stmt w = (x, w1)" by force
  have "moves_to b w1 (w1\<lparr>tdb_automation := Some (clamp_config c)\<rparr>)" by (simp add: moves_to_frame desk_env_def calm_same)
  with stmt_moves [OF q, of b] show ?thesis
    by (cases x) (auto simp: SaveAutomationConfig_def q intro: moves_to_trans)
qed

lemma count_moves: "moves_to True w (set_ticket u (count_recurrence t) w)"
  by (rule set_ticket_moves) (rule row_step.counted)

lemma Alert_moves: "moves_to True w (snd (TicketForAlert c a w))"
proof -
  obtain x w1 where q: "stmt w = (x, w1)" by force
  obtain y w2 where q2: "stmt w1 = (y, w2)" by force
  note q' = stmt_moves [OF q, of True]
  from q' stmt_moves [OF q2, of True] have m2: "moves_to True w w2" by (rule moves_to_trans)
  then have m3: "moves_to True w (set_ticket u (count_recurrence t) w2)" for u t
    using count_moves by (blast intro: moves_to_trans)
  have new: "moves_to True w (snd (Create_ticket cb n w1))" for cb n
    using Create_moves [of n True w1 cb] q' by (blast intro: moves_to_trans)
  have wrap: "snd (case Create_ticket cb n w1 of (Inl e, w2) \<Rightarrow> (Inl e, w2) | (Inr t, w2) \<Rightarrow> (Inr (Some t, True), w2)) =
      snd (Create_ticket cb n w1)" for cb n
    by (simp split: prod.splits sum.splits)
  show ?thesis
  proof (cases "\<not> ac_Enabled c \<or> al_Severity a < ac_MinSeverity c \<or> x")
    case True
    with q' show ?thesis by (cases x) (auto simp: TicketForAlert_def q Let_def)
  next
    case False
    let ?rs = "sort_key (\<lambda>r. - tr_created_at r)
      (filter (absorbs (DedupeKey a) (db_clock w1 - wrap64 (ac_DedupeWindowMins c * minute)) w1) (tdb_tickets w1))"
    show ?thesis
    proof (cases ?rs)
      case Nil
      with False show ?thesis by (simp add: TicketForAlert_def q Let_def wrap new)
    next
      case (Cons r rs)
      with False m2 m3 show ?thesis
        by (cases y) (simp_all add: TicketForAlert_def q q2 Let_def abort_moves)
    qed
  qed
qed

section \<open>Requests and rounds\<close>

lemma handler_moves:
  "moves_to b w (snd (ListTicketsHandler status w))"
  "moves_to b w (snd (CreateTicketHandler u nb w))"
  "moves_to b w (snd (GetTicketHandler tid w))"
  "keyed w \<Longrightarrow> moves_to b w (snd (UpdateTicketHandler u tid fb w))"
  "moves_to b w (snd (AutomationGetHandler w))"
  "moves_to b w (snd (AutomationSetHandler cb w))"
  "moves_to b w (snd (CommentHandler u tid bb w))"
proof -
  show "moves_to b w (snd (ListTicketsHandler status w))"
  proof -
    obtain x w1 where q: "stmt w = (x, w1)" by force
    from stmt_moves [OF q, of b] show ?thesis by (cases x) (simp_all add: ListTicketsHandler_def List_tickets_def q)
  qed
  show "moves_to b w (snd (CreateTicketHandler u nb w))"
    using Create_moves [of "_\<lparr>nt_AutoCreated := False, nt_DedupeKey := []\<rparr>" b w "ca_Username u"]
    by (auto simp: CreateTicketHandler_def split: option.splits prod.splits sum.splits) (metis snd_conv)+
  show "moves_to b w (snd (GetTicketHandler tid w))"
    using Get_moves [of b w tid] by (auto simp: GetTicketHandler_def split: prod.splits sum.splits)
  show "moves_to b w (snd (UpdateTicketHandler u tid fb w))" if "keyed w"
    using Update_moves [OF that, of b tid "ca_Username u"]
    by (auto simp: UpdateTicketHandler_def split: option.splits prod.splits sum.splits) (metis snd_conv)+
  show "moves_to b w (snd (AutomationGetHandler w))"
    using Load_moves [of b w] by (auto simp: AutomationGetHandler_def split: prod.splits sum.splits)
  show "moves_to b w (snd (AutomationSetHandler cb w))"
  proof (cases cb)
    case (Some c)
    obtain x w1 where s: "SaveAutomationConfig c w = (x, w1)" by force
    obtain y w2 where l: "LoadAutomationConfig w1 = (y, w2)" by force
    have "moves_to b w w1" "moves_to b w1 w2" using Save_moves [of b w c] Load_moves [of b w1] s l by simp_all
    then show ?thesis by (auto simp: AutomationSetHandler_def Some s l split: sum.splits intro: moves_to_trans)
  qed (simp add: AutomationSetHandler_def)
  show "moves_to b w (snd (CommentHandler u tid bb w))"
    using AddComment_moves [of b w tid "ca_Username u"]
    by (auto simp: CommentHandler_def split: option.splits prod.splits sum.splits) (metis snd_conv)+
qed

text \<open>A request moves the rows of its tenants, whether or not its transaction commits.\<close>

definition scope_pred :: "string list \<Rightarrow> bool \<Rightarrow> string \<Rightarrow> bool" where
  "scope_pred tenants super t = (super \<or> t \<in> set tenants)"

definition request_moves :: "bool \<Rightarrow> (string \<Rightarrow> bool) \<Rightarrow> 'i ticket_db \<Rightarrow> 'i ticket_db \<Rightarrow> bool" where
  "request_moves b S w w' =
     (desk_env w' = desk_env w \<and> desk_moves b S w w' \<and> (ids_ok w \<longrightarrow> ids_ok w') \<and> calm_step w w')"

lemma request_frame:
  "desk_env w' = desk_env w \<Longrightarrow> tdb_tickets w' = tdb_tickets w \<Longrightarrow> db_seq w \<le> db_seq w' \<Longrightarrow> calm_step w w' \<Longrightarrow>
   request_moves b S w w'"
  by (simp add: request_moves_def desk_moves_same ids_ok_keep)

lemma moves_to_seq: "ids_ok w \<Longrightarrow> moves_to b w w' \<Longrightarrow> ids_ok w'"
  by (simp add: moves_to_def)

lemma begin_scope_frame:
  assumes "begin_scope super w = (x, w')"
  shows "desk_env w' = desk_env w" "tdb_tickets w' = tdb_tickets w" "db_seq w' = db_seq w" "tdb_comments w' = tdb_comments w"
    "tdb_announced w' = tdb_announced w" "tdb_broken w' = tdb_broken w" "db_faults w = [] \<longrightarrow> db_faults w' = []"
proof -
  obtain x1 w1 where q1: "query w = (x1, w1)" by force
  obtain x2 w2 where q2: "query w1 = (x2, w2)" by force
  obtain x3 w3 where q3: "query w2 = (x3, w3)" by force
  have e1: "w1 = w\<lparr>db_faults := db_faults w1\<rparr>" by (subst (1 2) query_result [OF q1]) simp
  have e2: "w2 = w\<lparr>db_faults := db_faults w2\<rparr>" by (subst (1 2) query_result [OF q2], subst e1) simp
  have e3: "w3 = w\<lparr>db_faults := db_faults w3\<rparr>" by (subst (1 2) query_result [OF q3], subst e2) simp
  have "w' \<in> {w1, w2, w3}"
    using assms by (cases x1; cases x2; cases super) (simp_all add: begin_scope_def q1 q2 q3)
  with e1 e2 e3 have e: "w' = w\<lparr>db_faults := db_faults w'\<rparr>" by blast
  show "desk_env w' = desk_env w" "tdb_tickets w' = tdb_tickets w" "db_seq w' = db_seq w" "tdb_comments w' = tdb_comments w"
    "tdb_announced w' = tdb_announced w" "tdb_broken w' = tdb_broken w"
    by (subst e, simp add: desk_env_def)+
  have "db_faults w1 = tl (db_faults w)" "db_faults w2 = tl (db_faults w1)" "db_faults w3 = tl (db_faults w2)"
    by (subst query_result [OF q1], simp, subst query_result [OF q2], simp, subst query_result [OF q3], simp)
  with \<open>w' \<in> {w1, w2, w3}\<close> show "db_faults w = [] \<longrightarrow> db_faults w' = []" by auto
qed

lemma enter_fields [simp]:
  "tdb_tickets (enter_scope ts super w) = tdb_tickets w" "db_seq (enter_scope ts super w) = db_seq w"
  "tdb_comments (enter_scope ts super w) = tdb_comments w" "tdb_announced (enter_scope ts super w) = tdb_announced w"
  "in_scope (enter_scope ts super w) = scope_pred ts super" "keyed (enter_scope ts super w) = keyed w"
  "ids_ok (enter_scope ts super w) = ids_ok w"
  by (simp_all add: enter_scope_def in_scope_def scope_pred_def fun_eq_iff keyed_def ids_ok_def used_ids_def)

lemma leave_fields [simp]:
  "tdb_tickets (leave_scope w w') = tdb_tickets w'" "db_seq (leave_scope w w') = db_seq w'"
  "tdb_comments (leave_scope w w') = tdb_comments w'" "tdb_announced (leave_scope w w') = tdb_announced w'"
  "ids_ok (leave_scope w w') = ids_ok w'"
  by (simp_all add: leave_scope_def ids_ok_def keyed_def used_ids_def)

lemma roll_back_fields [simp]:
  "tdb_tickets (roll_back w w') = tdb_tickets w" "db_seq (roll_back w w') = db_seq w'"
  "tdb_comments (roll_back w w') = tdb_comments w" "tdb_announced (roll_back w w') = tdb_announced w'"
  "desk_env (roll_back w w') = desk_env w"
  by (simp_all add: roll_back_def desk_env_def)

lemma roll_back_more [simp]:
  "db_faults (roll_back w w') = db_faults w'" "tdb_broken (roll_back w w') = tdb_broken w"
  by (simp_all add: roll_back_def)

lemma leave_env: "desk_env w2 = desk_env (enter_scope ts super w) \<Longrightarrow> desk_env (leave_scope w w2) = desk_env w"
  by (simp add: desk_env_def leave_scope_def enter_scope_def)

lemma WithTenantScope_moves:
  assumes "\<And>v. keyed v \<Longrightarrow> moves_to b v (snd (fn v))" "keyed w"
  shows "request_moves b (scope_pred ts super) w (snd (WithTenantScope ts super fn w))"
proof -
  obtain x w1 where b: "begin_scope super w = (x, w1)" by force
  obtain a w2 where f: "fn (enter_scope ts super w1) = (a, w2)" by force
  obtain y w3 where q: "query w2 = (y, w3)" by force
  note e1 = begin_scope_frame [OF b]
  have k1: "keyed w1" using assms(2) by (simp add: keyed_def e1(2))
  have m: "moves_to b (enter_scope ts super w1) w2" using assms(1) [of "enter_scope ts super w1"] k1 f by simp
  have e3: "desk_env w3 = desk_env w2" "tdb_tickets w3 = tdb_tickets w2" "db_seq w3 = db_seq w2"
    "db_faults w3 = tl (db_faults w2)"
    by (subst query_result [OF q], simp add: desk_env_def)+
  have s2: "db_seq w \<le> db_seq w2" using m by (simp add: moves_to_def e1(3))
  have fl: "db_faults w2 = []" if "db_faults w = []"
    using m that e1(7) by (simp add: moves_to_def calm_step_def enter_scope_def)
  have rb: "request_moves b (scope_pred ts super) w (roll_back w1 v)"
    if "db_seq v = db_seq w2" "db_faults w2 = [] \<longrightarrow> db_faults v = []" for v
    by (rule request_frame) (use that fl in \<open>simp_all add: e1(1-3) s2 calm_step_def e1(6)\<close>)
  have lv: "request_moves b (scope_pred ts super) w (leave_scope w1 w3)"
  proof -
    have "desk_env w3 = desk_env (enter_scope ts super w1)" using m e3 by (simp add: moves_to_def)
    then have "desk_env (leave_scope w1 w3) = desk_env w" by (simp add: leave_env e1(1))
    moreover have "desk_moves b (scope_pred ts super) w (leave_scope w1 w3)"
      using m by (simp add: moves_to_def desk_moves_def e1(2) e3(2))
    moreover have "ids_ok w3" if "ids_ok w"
    proof -
      have "ids_ok w1" by (rule ids_ok_keep [OF e1(1) _ _ that]) (simp_all add: e1(2,3))
      with m have "ids_ok w2" by (simp add: moves_to_def)
      then show ?thesis by (rule ids_ok_keep [OF e3(1), rotated 2]) (simp_all add: e3(2,3))
    qed
    moreover have "calm_step w (leave_scope w1 w3)"
      using fl by (simp add: calm_step_def leave_scope_def e1(6) e3(4))
    ultimately show ?thesis by (simp add: request_moves_def)
  qed
  have "calm_step w w1" using e1(7) by (simp add: calm_step_def e1(6))
  then show ?thesis
    by (cases x; cases y) (simp_all add: WithTenantScope_def b f q rb lv e3(3,4) e1(1-3) request_frame)
qed

lemma withScope_moves:
  assumes "\<And>v. keyed v \<Longrightarrow> moves_to b v (snd (h v))" "keyed w"
  shows "request_moves b (scope_pred (case ca_Tenants u of None \<Rightarrow> [] | Some ts \<Rightarrow> ts) (ca_ManageTenants u)) w (snd (withScope u h w))"
proof (cases "ca_Tenants u")
  case None
  then show ?thesis by (simp add: withScope_def request_frame calm_same)
next
  case (Some ts)
  from WithTenantScope_moves [OF assms, of ts "ca_ManageTenants u"] show ?thesis
    by (auto simp: withScope_def Some split: prod.splits option.splits)
qed

lemma push_moves: "moves_to b w (fst (push_list s c r ts w g))"
proof (induction ts arbitrary: w g)
  case (Cons t ts)
  obtain n g1 where g: "gs_CreateTicket s (glpi_request c r t) g = (n, g1)" by force
  show ?case
  proof (cases n)
    case (Some k)
    obtain x w1 where m: "MarkPushed (tk_ID t) k w = (x, w1)" by force
    have "moves_to b w w1" using MarkPushed_moves [of b w "tk_ID t" k] m by simp
    with Cons.IH [of w1 g1] show ?thesis
      by (cases x) (auto simp: g Some m intro: moves_to_trans)
  qed (simp add: g)
qed simp

lemma glpiPush_moves: "moves_to b w (fst (glpiPush s c r w g))"
proof -
  obtain x w1 where q: "stmt w = (x, w1)" by force
  note q' = stmt_moves [OF q, of b]
  have "moves_to b w (fst (push_list s c r ts w1 g))" for ts
    by (rule moves_to_trans [OF q' push_moves])
  with q' show ?thesis by (cases x) (simp_all add: glpiPush_def UnpushedTickets_def q Let_def)
qed

lemma pull_one_moves:
  assumes "pull_one s t w g = (Some w', g')" "keyed w"
  shows "moves_to b w w'"
proof (cases "tk_GLPIID t")
  case (Some n)
  obtain raw g1 where r: "gs_TicketStatus s n g = (raw, g1)" by force
  show ?thesis
  proof (cases raw)
    case (Some k)
    with assms(1) \<open>tk_GLPIID t = Some n\<close> r show ?thesis
      using Touch_moves [of b w "tk_ID t"] Apply_moves [OF assms(2), of b "tk_ID t"]
      by (auto simp: pull_one_def split: option.splits if_splits)
  qed (use assms Some r in \<open>simp add: pull_one_def\<close>)
qed (use assms in \<open>simp add: pull_one_def\<close>)

lemma keyed_moves: "ids_ok w \<Longrightarrow> moves_to b w w' \<Longrightarrow> keyed w'"
  by (simp add: moves_to_def ids_ok_def)

lemma pull_moves: "ids_ok w \<Longrightarrow> moves_to b w (fst (pull_list s ts w g))"
proof (induction ts arbitrary: w g)
  case (Cons t ts)
  obtain r g1 where p: "pull_one s t w g = (r, g1)" by force
  show ?case
  proof (cases r)
    case (Some w1)
    have m: "moves_to b w w1"
      by (rule pull_one_moves [OF p [unfolded Some]]) (use Cons.prems in \<open>simp add: ids_ok_def\<close>)
    from Cons.IH [OF moves_to_seq [OF Cons.prems m], of g1] m show ?thesis
      by (auto simp: p Some intro: moves_to_trans)
  qed (simp add: p)
qed simp

lemma glpiPull_moves:
  assumes "ids_ok w"
  shows "moves_to b w (fst (glpiPull s w g))"
proof -
  obtain x w1 where q: "stmt w = (x, w1)" by force
  note q' = stmt_moves [OF q, of b]
  have "moves_to b w (fst (pull_list s ts w1 g))" for ts
    by (rule moves_to_trans [OF q' pull_moves [OF moves_to_seq [OF assms q']]])
  with q' show ?thesis by (cases x) (simp_all add: glpiPull_def LinkedLiveTickets_def q Let_def)
qed

lemma handle_moves: "moves_to True w (snd (handle_alert cfg ch ev w))"
proof (cases "cfg = None \<or> \<not> ac_Enabled (the cfg)")
  case False
  then obtain c where c: "cfg = Some c" "ac_Enabled c" by auto
  obtain r w1 where t: "TicketForAlert c (alertTicketFrom ev) w = (r, w1)" by force
  with Alert_moves [of w c "alertTicketFrom ev"] have "moves_to True w w1" by simp
  then show ?thesis by (simp add: handle_alert_def c t split: sum.splits option.splits bool.splits prod.splits)
qed (cases cfg, simp_all add: handle_alert_def)

end
