(* ===== verification/Ticket_Props.thy ===== *)
theory Ticket_Props
  imports Ticket_Moves
begin

text \<open>
  Properties of the tickets along runs: requests of any caller, alerts, rounds of the GLPI mirror and time,
  in any order and with any faults of the database. A run is an inductive relation on the state and the list
  of acts, so its properties are inductions over the acts with the moves of \<^verbatim>\<open>Ticket_Moves\<close> as single steps.
\<close>

section \<open>Runs\<close>

datatype desk_act =
  DCreate caller "new_ticket option"
| DUpdate caller string "update_fields option"
| DComment caller string "string option"
| DConfig caller "automation_config option"
| DAlert "automation_config option" bool event
| DPush
| DPull
| DWait nat

fun desk_step :: "'g glpi_session \<Rightarrow> int \<Rightarrow> int \<Rightarrow> desk_act \<Rightarrow> 'i ticket_db \<times> 'g \<Rightarrow> 'i ticket_db \<times> 'g" where
  "desk_step s c q (DCreate u b) (w, g) = (snd (withScope u (CreateTicketHandler u b) w), g)"
| "desk_step s c q (DUpdate u i b) (w, g) = (snd (withScope u (UpdateTicketHandler u i b) w), g)"
| "desk_step s c q (DComment u i b) (w, g) = (snd (withScope u (CommentHandler u i b) w), g)"
| "desk_step s c q (DConfig u b) (w, g) = (snd (withScope u (AutomationSetHandler b) w), g)"
| "desk_step s c q (DAlert cfg ch ev) (w, g) = (snd (handle_alert cfg ch ev w), g)"
| "desk_step s c q DPush (w, g) = glpiPush s c q w g"
| "desk_step s c q DPull (w, g) = glpiPull s w g"
| "desk_step s c q (DWait d) (w, g) = (w\<lparr>db_clock := db_clock w + int d\<rparr>, g)"

inductive desk_run ::
    "'g glpi_session \<Rightarrow> int \<Rightarrow> int \<Rightarrow> 'i ticket_db \<times> 'g \<Rightarrow> desk_act list \<Rightarrow> 'i ticket_db \<times> 'g \<Rightarrow> bool"
    for s c q x where
  start: "desk_run s c q x [] x"
| act: "desk_run s c q x acts y \<Longrightarrow> desk_run s c q x (acts @ [a]) (desk_step s c q a y)"

lemma desk_run_fold: "desk_run s c q x acts (fold (desk_step s c q) acts x)"
  by (induction acts rule: rev_induct) (auto intro: desk_run.intros)

lemma desk_moves_scope:
  assumes "desk_moves b S w w'" "\<And>t. S t \<Longrightarrow> S' t"
  shows "desk_moves b S' w w'"
proof -
  from assms(1) obtain olds news where m: "tdb_tickets w' = olds @ news" "list_all2 (row_moves b S) (tdb_tickets w) olds"
    "\<forall>r \<in> set news. S (tr_tenant_id r) \<and> (\<exists>r0. new_row b r0 \<and> (row_step b)\<^sup>*\<^sup>* r0 r)"
    unfolding desk_moves_def by blast
  show ?thesis
    by (rule desk_movesI [OF m(1)])
       (use m(2,3) assms(2) in \<open>auto simp: row_moves_def elim!: list_all2_mono\<close>)
qed

definition act_caller :: "desk_act \<Rightarrow> caller option" where
  "act_caller a =
     (case a of DCreate u _ \<Rightarrow> Some u | DUpdate u _ _ \<Rightarrow> Some u | DComment u _ _ \<Rightarrow> Some u | DConfig u _ \<Rightarrow> Some u | _ \<Rightarrow> None)"

definition caller_scope :: "caller \<Rightarrow> string \<Rightarrow> bool" where
  "caller_scope u = scope_pred (case ca_Tenants u of None \<Rightarrow> [] | Some ts \<Rightarrow> ts) (ca_ManageTenants u)"

lemma request_step:
  assumes "act_caller a = Some u" "keyed w"
  shows "request_moves b (caller_scope u) w (fst (desk_step s c q a (w, g)))"
proof (cases a)
  case (DCreate v x)
  with withScope_moves [OF handler_moves(2) assms(2), where u = u and b = b] assms(1) show ?thesis
    by (simp add: act_caller_def caller_scope_def)
next
  case (DUpdate v i x)
  with withScope_moves [OF handler_moves(4) assms(2), where u = u and b = b] assms(1) show ?thesis
    by (simp add: act_caller_def caller_scope_def)
next
  case (DComment v i x)
  with withScope_moves [OF handler_moves(7) assms(2), where u = u and b = b] assms(1) show ?thesis
    by (simp add: act_caller_def caller_scope_def)
next
  case (DConfig v x)
  with withScope_moves [OF handler_moves(6) assms(2), where u = u and b = b] assms(1) show ?thesis
    by (simp add: act_caller_def caller_scope_def)
qed (use assms(1) in \<open>simp_all add: act_caller_def\<close>)

lemma step_moves:
  assumes "ids_ok w"
  shows "desk_moves True (\<lambda>_. True) w (fst (desk_step s c q a (w, g))) \<and> ids_ok (fst (desk_step s c q a (w, g)))"
proof (cases "act_caller a")
  case (Some u)
  have "keyed w" using assms by (simp add: ids_ok_def)
  from request_step [OF Some this, of True s c q g] assms show ?thesis
    unfolding request_moves_def by (blast intro: desk_moves_scope)
next
  case None
  show ?thesis
  proof (cases a)
    case (DAlert cfg ch ev)
    with handle_moves [of w cfg ch ev] assms show ?thesis by (auto simp: moves_to_def intro: desk_moves_scope)
  next
    case DPush
    with glpiPush_moves [of True w s c q g] assms show ?thesis by (auto simp: moves_to_def intro: desk_moves_scope)
  next
    case DPull
    with glpiPull_moves [OF assms, of True s g] assms show ?thesis by (auto simp: moves_to_def intro: desk_moves_scope)
  next
    case (DWait d)
    have "ids_ok (w\<lparr>db_clock := t\<rparr>) = ids_ok w" for t by (simp add: ids_ok_def keyed_def used_ids_def)
    with DWait assms show ?thesis by (simp add: desk_moves_same)
  qed (use None in \<open>simp_all add: act_caller_def\<close>)
qed

lemma run_moves:
  assumes "desk_run s c q x acts y" "ids_ok (fst x)"
  shows "desk_moves True (\<lambda>_. True) (fst x) (fst y) \<and> ids_ok (fst y)"
  using assms
proof (induction rule: desk_run.induct)
  case start
  then show ?case by (simp add: desk_moves_same)
next
  case (act acts y a)
  from act step_moves [of "fst y" s c q a "snd y"] show ?case by (auto intro: desk_moves_trans)
qed

section \<open>What a ticket looks like\<close>

definition ticket_wf :: "'i ticket_row \<Rightarrow> bool" where
  "ticket_wf r =
     (0 \<le> tr_severity r \<and> tr_severity r \<le> 4 \<and> tr_status r \<in> set ticket_statuses \<and>
      (tr_resolved_at r \<noteq> None \<longleftrightarrow> tr_status r \<in> {''resolved'', ''closed''}) \<and>
      (tr_closed_at r \<noteq> None \<longleftrightarrow> tr_status r = ''closed'') \<and>
      (tr_acked_at r \<noteq> None \<longleftrightarrow> tr_acked_by r \<noteq> None))"

lemma edit_ticket_cases:
  assumes "edit_ticket actor f t cur = Inr c"
  obtains d where "edit_status f t (edit_fields f cur) = Inr d" "c = edit_ack actor f t d"
  using assms by (auto simp: edit_ticket_def split: sum.splits)

lemma edit_severity:
  assumes "edit_ticket actor f t cur = Inr c" "0 \<le> tk_Severity cur" "tk_Severity cur \<le> 4"
  shows "0 \<le> tk_Severity c" "tk_Severity c \<le> 4"
proof -
  from assms(1) obtain d where d: "edit_status f t (edit_fields f cur) = Inr d" "c = edit_ack actor f t d"
    by (rule edit_ticket_cases)
  have "tk_Severity c = tk_Severity d" by (simp add: d(2) edit_ack_def)
  also have "\<dots> = tk_Severity (edit_fields f cur)"
    using d(1) by (auto simp: edit_status_def split: option.splits if_splits)
  finally show "0 \<le> tk_Severity c" "tk_Severity c \<le> 4"
    using assms(2,3) by (auto simp: edit_fields_def split: option.splits)
qed

lemma edit_state:
  assumes "edit_ticket actor f t cur = Inr c"
  shows "(tk_Status c = tk_Status cur \<and> tk_ResolvedAt c = tk_ResolvedAt cur \<and> tk_ClosedAt c = tk_ClosedAt cur) \<or>
    (tk_Status c \<in> set ticket_statuses \<and> (tk_ResolvedAt c \<noteq> None \<longleftrightarrow> tk_Status c \<in> {''resolved'', ''closed''}) \<and>
     (tk_ClosedAt c \<noteq> None \<longleftrightarrow> tk_Status c = ''closed''))"
proof -
  from assms obtain d where d: "edit_status f t (edit_fields f cur) = Inr d" "c = edit_ack actor f t d"
    by (rule edit_ticket_cases)
  have "tk_Status c = tk_Status d" "tk_ResolvedAt c = tk_ResolvedAt d" "tk_ClosedAt c = tk_ClosedAt d"
    by (simp_all add: d(2) edit_ack_def)
  note c = this
  show ?thesis
  proof (cases "uf_Status f")
    case None
    with d(1) have "d = edit_fields f cur" by (simp add: edit_status_def)
    with c show ?thesis by (simp add: edit_fields_def)
  next
    case (Some x)
    with d(1) have x: "x \<in> set ticket_statuses" by (simp add: edit_status_def split: if_splits)
    with d(1) Some have "tk_Status d = x" "tk_ResolvedAt d = fst (status_times x t (tk_ResolvedAt (edit_fields f cur)))"
      "tk_ClosedAt d = snd (status_times x t (tk_ResolvedAt (edit_fields f cur)))" by (auto simp: edit_status_def)
    with c x show ?thesis by (simp add: status_times_def Let_def)
  qed
qed

lemma edit_acked:
  assumes "edit_ticket actor f t cur = Inr c"
  shows "tk_AckedAt c = (if tk_AckedAt cur = None \<and> picked_up f \<and> actor \<noteq> [] then Some t else tk_AckedAt cur)"
    "tk_AckedBy c = (if tk_AckedAt cur = None \<and> picked_up f \<and> actor \<noteq> [] then Some actor else tk_AckedBy cur)"
proof -
  from assms obtain d where d: "edit_status f t (edit_fields f cur) = Inr d" "c = edit_ack actor f t d"
    by (rule edit_ticket_cases)
  have "tk_AckedAt d = tk_AckedAt cur" "tk_AckedBy d = tk_AckedBy cur"
    using d(1) by (auto simp: edit_status_def edit_fields_def split: option.splits if_splits)
  then show "tk_AckedAt c = (if tk_AckedAt cur = None \<and> picked_up f \<and> actor \<noteq> [] then Some t else tk_AckedAt cur)"
    "tk_AckedBy c = (if tk_AckedAt cur = None \<and> picked_up f \<and> actor \<noteq> [] then Some actor else tk_AckedBy cur)"
    by (simp_all add: d(2) edit_ack_def)
qed

lemma row_step_wf: "row_step b r r' \<Longrightarrow> ticket_wf r \<Longrightarrow> ticket_wf r'"
proof (induction rule: row_step.induct)
  case (edited actor f t host r c b t')
  note e = edited(1)
  have "0 \<le> tk_Severity c" "tk_Severity c \<le> 4"
    using edit_severity [OF e] edited(2) by (simp_all add: scanTicket_def ticket_wf_def)
  moreover have "tk_AckedAt c \<noteq> None \<longleftrightarrow> tk_AckedBy c \<noteq> None"
    using edit_acked [OF e] edited(2) by (simp add: scanTicket_def ticket_wf_def)
  moreover note edit_state [OF e]
  ultimately show ?case
    using edited(2) by (auto simp: ticket_wf_def write_edit_def scanTicket_def)
qed (auto simp: ticket_wf_def acknowledge_def count_recurrence_def)

lemma row_steps_wf: "(row_step b)\<^sup>*\<^sup>* r r' \<Longrightarrow> ticket_wf r \<Longrightarrow> ticket_wf r'"
  by (induction rule: rtranclp_induct) (auto intro: row_step_wf)

lemma new_row_wf: "new_row b r \<Longrightarrow> ticket_wf r"
  by (simp add: new_row_def ticket_wf_def ticket_statuses_def)

lemma desk_moves_wf:
  assumes "desk_moves b S w w'" "\<forall>r \<in> set (tdb_tickets w). ticket_wf r"
  shows "\<forall>r \<in> set (tdb_tickets w'). ticket_wf r"
proof -
  from assms(1) obtain olds news where m: "tdb_tickets w' = olds @ news" "list_all2 (row_moves b S) (tdb_tickets w) olds"
    "\<forall>r \<in> set news. S (tr_tenant_id r) \<and> (\<exists>r0. new_row b r0 \<and> (row_step b)\<^sup>*\<^sup>* r0 r)"
    unfolding desk_moves_def by blast
  have "ticket_wf r'" if "r' \<in> set olds" for r'
    using that m(2) assms(2) by (metis in_set_conv_nth list_all2_conv_all_nth row_moves_def row_steps_wf)
  moreover have "ticket_wf r" if "r \<in> set news" for r using m(3) that new_row_wf row_steps_wf by blast
  ultimately show ?thesis by (auto simp: m(1))
qed


section \<open>Concrete states\<close>

definition demo_caller :: "string \<Rightarrow> caller" where
  "demo_caller tenant = \<lparr>ca_Username = ''ann'', ca_Tenants = Some [tenant], ca_ManageTenants = False\<rparr>"

definition demo_uuid :: "nat \<Rightarrow> string" where
  "demo_uuid n = replicate (Suc n) CHR ''u''"

definition demo_db :: "bool list \<Rightarrow> string ticket_row list \<Rightarrow> string ticket_db" where
  "demo_db fs rows =
     \<lparr>db_faults = fs, db_clock = 100, db_uuid = demo_uuid, db_seq = 9, tdb_tickets = rows,
      tdb_comments = [], tdb_automation = None, tdb_next_comment = 1, tdb_super = True, tdb_tenants = [],
      tdb_intx = False, tdb_broken = False, tdb_inet_in = (\<lambda>s. if CHR ''x'' \<in> set s then None else Some s),
      tdb_inet_host = (\<lambda>s. s), tdb_uuid_in = Some, tdb_announced = []\<rparr>"

definition demo_new :: new_ticket where
  "demo_new = \<lparr>nt_Title = ''disk'', nt_Description = [], nt_Severity = 3, nt_Assignee = [], nt_SourceIP = [],
     nt_RuleID = [], nt_AutoCreated = False, nt_DedupeKey = []\<rparr>"

definition demo_row :: "string \<Rightarrow> string ticket_row" where
  "demo_row uid = inserted_row uid ''bob'' demo_new None 50"

definition demo_server :: "(nat \<Rightarrow> int option) \<Rightarrow> (int \<Rightarrow> int option) \<Rightarrow> nat glpi_session" where
  "demo_server mk st = \<lparr>gs_CreateTicket = (\<lambda>_ n. (mk n, Suc n)), gs_TicketStatus = (\<lambda>i n. (st i, Suc n))\<rparr>"

lemma demo_uuid_inj: "inj demo_uuid"
  by (rule injI) (metis demo_uuid_def length_replicate nat.inject)


section \<open>The time of the first response\<close>

lemma row_step_acked:
  "row_step b r r' \<Longrightarrow> tr_acked_at r = Some t \<Longrightarrow> tr_acked_by r = Some a \<Longrightarrow> tr_acked_at r' = Some t \<and> tr_acked_by r' = Some a"
proof (induction rule: row_step.induct)
  case (edited actor f t2 host r c b t')
  with edit_acked [OF edited(1)] show ?case by (simp add: write_edit_def scanTicket_def)
qed (simp_all add: acknowledge_def count_recurrence_def)

lemma row_steps_acked:
  "(row_step b)\<^sup>*\<^sup>* r r' \<Longrightarrow> tr_acked_at r = Some t \<Longrightarrow> tr_acked_by r = Some a \<Longrightarrow> tr_acked_at r' = Some t \<and> tr_acked_by r' = Some a"
  by (induction rule: rtranclp_induct) (use row_step_acked in blast)+

lemma desk_moves_nth:
  assumes "desk_moves b S w w'" "i < length (tdb_tickets w)"
  shows "i < length (tdb_tickets w')" "row_moves b S (tdb_tickets w ! i) (tdb_tickets w' ! i)"
proof -
  from assms(1) obtain olds news where m: "tdb_tickets w' = olds @ news" "list_all2 (row_moves b S) (tdb_tickets w) olds"
    unfolding desk_moves_def by blast
  with assms(2) show "i < length (tdb_tickets w')" "row_moves b S (tdb_tickets w ! i) (tdb_tickets w' ! i)"
    by (auto simp: list_all2_conv_all_nth nth_append)
qed

text \<open>
  Who answered a ticket first, and when, stays as it was recorded through every run of acts: later edits,
  notes, recurrences and statuses from GLPI do not move it.
\<close>

theorem first_response_kept:
  assumes "desk_run s c q (w, g) acts (w', g')" "ids_ok w" "i < length (tdb_tickets w)"
    and "tr_acked_at (tdb_tickets w ! i) = Some t" "tr_acked_by (tdb_tickets w ! i) = Some who"
  shows "i < length (tdb_tickets w') \<and> tr_id (tdb_tickets w' ! i) = tr_id (tdb_tickets w ! i) \<and>
    tr_acked_at (tdb_tickets w' ! i) = Some t \<and> tr_acked_by (tdb_tickets w' ! i) = Some who"
proof -
  from run_moves [OF assms(1)] assms(2) have "desk_moves True (\<lambda>_. True) w w'" by simp
  note i = desk_moves_nth [OF this assms(3)]
  show ?thesis
  proof (cases "tdb_tickets w' ! i = tdb_tickets w ! i")
    case True
    with i(1) assms(4,5) show ?thesis by simp
  next
    case False
    with i(2) have m: "(row_step True)\<^sup>*\<^sup>* (tdb_tickets w ! i) (tdb_tickets w' ! i)" by (simp add: row_moves_def)
    from row_steps_acked [OF m assms(4,5)] row_steps_keep [OF m] i(1) show ?thesis by simp
  qed
qed

lemma demo_ids: "distinct (map tr_id rows) \<Longrightarrow> tr_id ` set rows \<subseteq> {''u'', ''uu''} \<Longrightarrow> ids_ok (demo_db fs rows)"
proof -
  assume a: "distinct (map tr_id rows)" "tr_id ` set rows \<subseteq> {''u'', ''uu''}"
  have "demo_uuid 0 \<in> demo_uuid ` {..<9}" "demo_uuid 1 \<in> demo_uuid ` {..<9}" by simp_all
  moreover have "demo_uuid 0 = ''u''" "demo_uuid 1 = ''uu''" by (simp_all add: demo_uuid_def)
  ultimately have "{''u'', ''uu''} \<subseteq> demo_uuid ` {..<9}" by (metis empty_subsetI insert_subset)
  with a(2) have "tr_id ` set rows \<subseteq> demo_uuid ` {..<9}" by (rule subset_trans)
  with a(1) demo_uuid_inj show ?thesis by (simp add: ids_ok_def keyed_def used_ids_def demo_db_def)
qed

lemma first_response_kept_witness:
  "tr_acked_at (tdb_tickets (fst (fold (desk_step (demo_server (\<lambda>n. Some 7) (\<lambda>i. Some 6)) 0 0)
       [DComment (demo_caller DefaultTenantID) ''u'' (Some ''hi''), DPush, DPull]
       (demo_db [] [acknowledge 60 ''bob'' (demo_row ''u'')], 0))) ! 0) = Some 60"
proof -
  let ?s = "demo_server (\<lambda>n. Some 7) (\<lambda>i. Some 6)" and ?r = "acknowledge 60 ''bob'' (demo_row ''u'')"
  let ?acts = "[DComment (demo_caller DefaultTenantID) ''u'' (Some ''hi''), DPush, DPull]"
  obtain w g where y: "fold (desk_step ?s 0 0) ?acts (demo_db [] [?r], 0) = (w, g)" by force
  have r: "tr_acked_at ?r = Some 60" "tr_acked_by ?r = Some ''bob''" "tr_id ?r = ''u''"
    by (simp_all add: acknowledge_def demo_row_def inserted_row_def)
  have "ids_ok (demo_db [] [?r])" by (rule demo_ids) (simp_all add: r)
  with first_response_kept [OF desk_run_fold [of ?s 0 0 "(demo_db [] [?r], 0)" ?acts, unfolded y], of 0 60 "''bob''"] r
  show ?thesis by (simp only: y fst_conv) (simp add: demo_db_def)
qed

lemma set_ticket_rows:
  "set (tdb_tickets (set_ticket u f w)) =
     (\<lambda>r. if tr_id r = u \<and> tk_visible w r then f r else r) ` set (tdb_tickets w)"
  by (simp add: set_ticket_def update_rows_def)

text \<open>
  An edit reads the ticket and later writes every column of its copy back. When a note arrives in between, it
  is stored and counts as the first response; the write of the edit takes that response away again.
\<close>

theorem concurrent_edit_erases_response:
  assumes "Update_read tid actor f w = (Inr edit, w1)" "\<not> picked_up f" "keyed w"
    and "\<And>u r. tdb_uuid_in w tid = Some u \<Longrightarrow> find_ticket u w = Some r \<Longrightarrow> tr_acked_at r = None"
    and "AddComment tid author body w1 = (Inr c, w2)" "db_faults w = []" "\<not> tdb_broken w"
    and "Update_write tid edit w2 = (Inr t, w3)"
  shows "(\<exists>r \<in> set (tdb_tickets w2). Some (tr_id r) = tdb_uuid_in w tid \<and> tr_acked_at r \<noteq> None) \<and>
    tk_AckedAt t = None \<and>
    (\<forall>r \<in> set (tdb_tickets w3). Some (tr_id r) = tdb_uuid_in w tid \<and> tk_visible w r \<longrightarrow> tr_acked_at r = None)"
proof -
  obtain rs c' where e: "edit = (rs, c')" by force
  from Update_read_Inr [OF assms(1) [unfolded e]] obtain u r where u: "tdb_uuid_in w tid = Some u"
    "find_ticket u w = Some r" "desk_env w1 = desk_env w" "tdb_tickets w1 = tdb_tickets w"
    "edit_ticket actor f (db_clock w) (scanTicket (tdb_inet_host w) r) = Inr c'" by blast
  have ca: "tk_AckedAt c' = None" using edit_acked(1) [OF u(5)] assms(2) assms(4) [OF u(1,2)] by (simp add: scanTicket_def)
  have w1: "db_faults w1 = []" "\<not> tdb_broken w1"
  proof -
    have q: "stmt w = (False, w)" using assms(6,7) by (simp add: stmt_def)
    have "snd (Update_read tid actor f w) = w"
      using u(1,2) by (simp add: Update_read_def Get_ticket_def q split: sum.splits)
    with assms(1,6,7) show "db_faults w1 = []" "\<not> tdb_broken w1" by simp_all
  qed
  have q1: "stmt v = (False, v)" if "db_faults v = []" "\<not> tdb_broken v" for v :: "'a ticket_db"
    using that by (simp add: stmt_def)
  note fr = find_ticket_Some [OF u(2)]
  have u1: "tdb_uuid_in w1 tid = Some u" using u(1) env_fields(1) [OF u(3)] by simp
  have b: "body \<noteq> []" using assms(5) by (auto simp: AddComment_def)
  have ex: "list_ex (\<lambda>r. tr_id r = u) (tdb_tickets w1)" using fr by (auto simp: list_ex_iff u(4))
  let ?v = "\<lambda>cs. w1\<lparr>tdb_next_comment := tdb_next_comment w1 + 1, tdb_comments := cs\<rparr>"
  have "snd (AddComment tid author body w1) =
      set_ticket u (acknowledge (db_clock w1) author) (?v (tdb_comments w1 @ [(u, \<lparr>cm_ID = tdb_next_comment w1,
        cm_Author = author, cm_Body = body, cm_CreatedAt = db_clock w1\<rparr>)]))"
    using b u1 ex by (simp add: AddComment_def q1 w1 Let_def)
  then obtain cs where w2: "w2 = set_ticket u (acknowledge (db_clock w1) author) (?v cs)"
    unfolding assms(5) by auto
  have "desk_env (?v cs) = desk_env w1" by (simp add: desk_env_def)
  then have env: "desk_env (?v cs) = desk_env w" by (simp only: u(3))
  then have vis: "tk_visible (?v cs) = tk_visible w" by (rule env_visible)
  have t2: "tdb_tickets w2 = map (\<lambda>r. if tr_id r = u \<and> tk_visible w r then acknowledge (db_clock w1) author r else r) (tdb_tickets w)"
    by (simp add: w2 set_ticket_def update_rows_def u(4) vis)
  have 1: "\<exists>r \<in> set (tdb_tickets w2). Some (tr_id r) = tdb_uuid_in w tid \<and> tr_acked_at r \<noteq> None"
  proof
    show "acknowledge (db_clock w1) author r \<in> set (tdb_tickets w2)"
      unfolding t2 set_map by (rule image_eqI [of _ _ r]) (use fr in simp_all)
    show "Some (tr_id (acknowledge (db_clock w1) author r)) = tdb_uuid_in w tid \<and>
        tr_acked_at (acknowledge (db_clock w1) author r) \<noteq> None"
      using fr u(1) by (simp add: acknowledge_def)
  qed
  have env2: "desk_env w2 = desk_env w" using env by (simp add: w2)
  from assms(8) [unfolded e] show ?thesis
  proof (cases rule: Update_write_cases)
    case (written u' r' v)
    have "u' = u" using written(1) u(1) env_fields(1) [OF env2] by simp
    have "tk_visible v = tk_visible w" by (rule env_visible) (simp add: written(3) env2)
    note vis' = this
    have none: "tr_acked_at (write_edit c' t' r) = None" for t' and r :: "'a ticket_row" by (simp add: write_edit_def ca)
    have "tr_acked_at r = None" if r: "r \<in> set (tdb_tickets w3)" "tr_id r = u" "tk_visible w r" for r
    proof -
      from r(1) obtain r0 where r0: "r = (if tr_id r0 = u \<and> tk_visible w r0 then write_edit c' (db_clock w2) r0 else r0)"
        unfolding written(9) start_announcement_frame \<open>u' = u\<close> set_ticket_rows vis' by blast
      with r(2,3) none show ?thesis by (cases "tr_id r0 = u \<and> tk_visible w r0") simp_all
    qed
    moreover have "tk_AckedAt t = None" using written(8) by (simp add: scanTicket_def none)
    ultimately show ?thesis using 1 u(1) by simp
  qed simp
qed

definition title_edit :: update_fields where
  "title_edit = \<lparr>uf_Title = Some ''typo'', uf_Description = None, uf_Severity = None, uf_Status = None, uf_Assignee = None\<rparr>"

lemma concurrent_edit_erases_response_witness:
  "\<exists>edit w1 w2 w3 c t.
     Update_read ''u'' ''bob'' title_edit (demo_db [] [demo_row ''u'']) = (Inr edit, w1) \<and>
     AddComment ''u'' ''ann'' ''on it'' w1 = (Inr c, w2) \<and> Update_write ''u'' edit w2 = (Inr t, w3) \<and>
     (\<exists>r \<in> set (tdb_tickets w2). tr_acked_at r \<noteq> None) \<and> tk_AckedAt t = None"
proof -
  let ?w = "demo_db [] [demo_row ''u'']"
  have f: "find_ticket ''u'' ?w = Some (demo_row ''u'')"
    by (simp add: find_ticket_def demo_db_def demo_row_def inserted_row_def tk_visible_def in_scope_def)
  have q: "stmt v = (False, v)" if "db_faults v = []" "\<not> tdb_broken v" for v :: "string ticket_db"
    using that by (simp add: stmt_def)
  have b: "db_faults ?w = []" "\<not> tdb_broken ?w" "tdb_uuid_in ?w = Some" by (simp_all add: demo_db_def)
  obtain edit w1 where 1: "Update_read ''u'' ''bob'' title_edit ?w = (Inr edit, w1)" "w1 = ?w"
    by (simp add: Update_read_def Get_ticket_def q b f edit_ticket_def edit_status_def title_edit_def)
  obtain c w2 where 2: "AddComment ''u'' ''ann'' ''on it'' w1 = (Inr c, w2)" "db_faults w2 = []" "\<not> tdb_broken w2"
    "tdb_uuid_in w2 = Some" "find_ticket ''u'' w2 \<noteq> None"
    by (simp add: 1(2) AddComment_def q b Let_def set_ticket_def update_rows_def find_ticket_def demo_db_def demo_row_def
        inserted_row_def tk_visible_def in_scope_def acknowledge_def)
  obtain t w3 where 3: "Update_write ''u'' edit w2 = (Inr t, w3)"
    using 2 by (cases edit) (auto simp: Update_write_def q Let_def)
  have "tr_acked_at (demo_row ''u'') = None" by (simp add: demo_row_def inserted_row_def)
  then have "(\<exists>r \<in> set (tdb_tickets w2). Some (tr_id r) = tdb_uuid_in ?w ''u'' \<and> tr_acked_at r \<noteq> None) \<and> tk_AckedAt t = None \<and>
    (\<forall>r \<in> set (tdb_tickets w3). Some (tr_id r) = tdb_uuid_in ?w ''u'' \<and> tk_visible ?w r \<longrightarrow> tr_acked_at r = None)"
    by (intro concurrent_edit_erases_response [OF 1(1) _ _ _ 2(1) b(1,2) 3])
       (use f b in \<open>simp_all add: picked_up_def title_edit_def keyed_def demo_db_def\<close>)
  with 1(1) 2(1) 3 show ?thesis by blast
qed

section \<open>Tenants\<close>

text \<open>
  A request of a caller who is not an administrator of the tenants changes no ticket outside the tenants its
  workspaces reach, whatever identifiers it names.
\<close>

theorem foreign_tickets_untouched:
  assumes "act_caller a = Some u" "\<not> ca_ManageTenants u" "keyed w" "i < length (tdb_tickets w)"
    and "\<And>ts. ca_Tenants u = Some ts \<Longrightarrow> tr_tenant_id (tdb_tickets w ! i) \<notin> set ts"
    and "desk_step s c q a (w, g) = (w', g')"
  shows "i < length (tdb_tickets w') \<and> tdb_tickets w' ! i = tdb_tickets w ! i"
proof -
  have "desk_moves True (caller_scope u) w w'"
    using request_step [OF assms(1,3), of True s c q g] assms(6) by (simp add: request_moves_def)
  from desk_moves_nth [OF this assms(4)] show ?thesis
    using assms(2,5) by (auto simp: row_moves_def caller_scope_def scope_pred_def split: option.splits)
qed

lemma foreign_tickets_untouched_witness:
  "tdb_tickets (fst (desk_step (demo_server (\<lambda>n. Some 7) (\<lambda>i. Some 6)) 0 0
      (DUpdate (demo_caller ''t2'') ''u'' (Some title_edit)) (demo_db [] [demo_row ''u''], 0))) ! 0 = demo_row ''u''"
proof -
  let ?s = "demo_server (\<lambda>n. Some 7) (\<lambda>i. Some 6)" and ?w = "demo_db [] [demo_row ''u'']"
  let ?a = "DUpdate (demo_caller ''t2'') ''u'' (Some title_edit)"
  obtain w g where d: "desk_step ?s 0 0 ?a (?w, 0) = (w, g)" by force
  have "act_caller ?a = Some (demo_caller ''t2'')" "\<not> ca_ManageTenants (demo_caller ''t2'')" "keyed ?w" "0 < length (tdb_tickets ?w)"
    "\<And>ts. ca_Tenants (demo_caller ''t2'') = Some ts \<Longrightarrow> tr_tenant_id (tdb_tickets ?w ! 0) \<notin> set ts"
    by (auto simp: act_caller_def demo_caller_def keyed_def demo_db_def demo_row_def inserted_row_def DefaultTenantID_def)
  from foreign_tickets_untouched [OF this d] show ?thesis unfolding d by (simp add: demo_db_def)
qed

text \<open>The notes of a ticket are not behind the row policy: a request on a fault-free database.\<close>

lemma begin_scope_ok: "db_faults w = [] \<Longrightarrow> begin_scope super w = (False, w)"
  by (simp add: begin_scope_def)

lemma stmt_ok: "db_faults w = [] \<Longrightarrow> \<not> tdb_broken w \<Longrightarrow> stmt w = (False, w)"
  by (simp add: stmt_def)

lemma enter_more [simp]:
  "db_faults (enter_scope ts super w) = db_faults w" "\<not> tdb_broken (enter_scope ts super w)"
  "tdb_uuid_in (enter_scope ts super w) = tdb_uuid_in w" "tdb_intx (enter_scope ts super w)"
  by (simp_all add: enter_scope_def)

text \<open>
  C32: A caller who cannot see a ticket, since it belongs to a tenant outside its workspaces, can write a note on
  it: the foreign key is checked without the row policy and the table of notes has none. The answer is 201
  and the note is stored under the foreign ticket, while reading the ticket answers 404.
\<close>

theorem foreign_ticket_gets_note:
  assumes "db_faults w = []" "tdb_uuid_in w tid = Some x" "r \<in> set (tdb_tickets w)" "tr_id r = x" "body \<noteq> []"
    and "ca_Tenants u = Some ts" "\<not> ca_ManageTenants u" "\<forall>r \<in> set (tdb_tickets w). tr_id r = x \<longrightarrow> tr_tenant_id r \<notin> set ts"
  shows "fst (fst (withScope u (CommentHandler u tid (Some body)) w)) = 201 \<and>
    (\<exists>cm. cm_Body cm = body \<and>
       tdb_comments (snd (withScope u (CommentHandler u tid (Some body)) w)) = tdb_comments w @ [(x, cm)]) \<and>
    fst (fst (withScope u (GetTicketHandler tid) w)) = 404"
proof -
  let ?w = "enter_scope ts False w"
  have "list_ex (\<lambda>r. tr_id r = x) (tdb_tickets w)" using assms(3,4) by (auto simp: list_ex_iff)
  then obtain cm w2 where c: "AddComment tid (ca_Username u) body ?w = (Inr cm, w2)" "cm_Body cm = body"
    "tdb_comments w2 = tdb_comments w @ [(x, cm)]" "db_faults w2 = []" "\<not> tdb_broken w2"
    by (auto simp: AddComment_def stmt_ok assms(1,2,5) Let_def set_ticket_def)
  have "find_ticket x ?w = None"
    using assms(7,8) by (auto simp: find_ticket_def find_None_iff tk_visible_def scope_pred_def)
  then have g: "Get_ticket tid ?w = (Inl TkNoRow, ?w)" by (simp add: Get_ticket_def stmt_ok assms(1,2))
  have "withScope u (CommentHandler u tid (Some body)) w = ((201, BComment cm), leave_scope w w2)"
    using c assms(6,7) by (simp add: withScope_def WithTenantScope_def begin_scope_ok assms(1) CommentHandler_def)
  moreover have "fst (withScope u (GetTicketHandler tid) w) = (404, BError)"
    using g assms(6,7) by (simp add: withScope_def WithTenantScope_def begin_scope_ok assms(1) GetTicketHandler_def)
  ultimately show ?thesis using c by auto
qed

lemma foreign_ticket_gets_note_witness:
  "fst (fst (withScope (demo_caller ''t2'') (CommentHandler (demo_caller ''t2'') ''u'' (Some ''hi'')) (demo_db [] [demo_row ''u'']))) = 201"
proof -
  let ?w = "demo_db [] [demo_row ''u'']"
  have "db_faults ?w = []" "tdb_uuid_in ?w ''u'' = Some ''u''" "demo_row ''u'' \<in> set (tdb_tickets ?w)" "tr_id (demo_row ''u'') = ''u''"
    "ca_Tenants (demo_caller ''t2'') = Some [''t2'']" "\<not> ca_ManageTenants (demo_caller ''t2'')"
    "\<forall>r \<in> set (tdb_tickets ?w). tr_id r = ''u'' \<longrightarrow> tr_tenant_id r \<notin> set [''t2'']"
    by (simp_all add: demo_db_def demo_row_def inserted_row_def demo_caller_def DefaultTenantID_def)
  from foreign_ticket_gets_note [OF this(1-4) _ this(5-7), of "''hi''"] show ?thesis by simp
qed

section \<open>Answers before the commit\<close>

text \<open>
  The statement that records the first touch of a note may fail, and the error is dropped; inside the
  transaction of a request the failure takes the note itself away when the transaction ends, after the caller
  has got its 201.
\<close>

theorem accepted_note_lost:
  assumes "db_faults w = [False, False, False, False, True]" "tdb_uuid_in w tid = Some x"
    and "r \<in> set (tdb_tickets w)" "tr_id r = x" "body \<noteq> []" "ca_Tenants u = Some ts" "\<not> ca_ManageTenants u"
  shows "fst (fst (withScope u (CommentHandler u tid (Some body)) w)) = 201 \<and>
    tdb_comments (snd (withScope u (CommentHandler u tid (Some body)) w)) = tdb_comments w \<and>
    tdb_tickets (snd (withScope u (CommentHandler u tid (Some body)) w)) = tdb_tickets w"
proof -
  let ?w1 = "w\<lparr>db_faults := [False, True]\<rparr>"
  have b: "begin_scope False w = (False, ?w1)" by (simp add: begin_scope_def query_def assms(1))
  have l: "list_ex (\<lambda>r. tr_id r = x) (tdb_tickets w)" using assms(3,4) by (auto simp: list_ex_iff)
  have "\<exists>cm w2. AddComment tid (ca_Username u) body (enter_scope ts False ?w1) = (Inr cm, w2) \<and> tdb_broken w2"
    using l assms(2,5) by (simp add: AddComment_def stmt_def query_def enter_scope_def Let_def abort_tx_def)
  then obtain cm w2 where c: "AddComment tid (ca_Username u) body (enter_scope ts False ?w1) = (Inr cm, w2)" "tdb_broken w2"
    by blast
  have "withScope u (CommentHandler u tid (Some body)) w = ((201, BComment cm), roll_back ?w1 w2)"
    using assms(6,7) c by (simp add: withScope_def WithTenantScope_def b CommentHandler_def)
  then show ?thesis by simp
qed

lemma accepted_note_lost_witness:
  "tdb_comments (snd (withScope (demo_caller DefaultTenantID) (CommentHandler (demo_caller DefaultTenantID) ''u'' (Some ''hi''))
     (demo_db [False, False, False, False, True] [demo_row ''u'']))) = []"
proof -
  let ?w = "demo_db [False, False, False, False, True] [demo_row ''u'']"
  have "db_faults ?w = [False, False, False, False, True]" "tdb_uuid_in ?w ''u'' = Some ''u''"
    "demo_row ''u'' \<in> set (tdb_tickets ?w)" "tr_id (demo_row ''u'') = ''u''" "tdb_comments ?w = []"
    "ca_Tenants (demo_caller DefaultTenantID) = Some [DefaultTenantID]" "\<not> ca_ManageTenants (demo_caller DefaultTenantID)"
    by (simp_all add: demo_db_def demo_row_def inserted_row_def demo_caller_def)
  from accepted_note_lost [OF this(1-4) _ this(6,7), of "''hi''"] this(5) show ?thesis by simp
qed

end
