(* ===== verification/Ticket_Mirror_Props.thy ===== *)
theory Ticket_Mirror_Props
  imports Ticket_Props
begin

text \<open>
  The GLPI mirror: what a round reaches when the server answers, what a single refused or deleted ticket
  does to every other one; and the accounting of the alerts that raise tickets.
\<close>

section \<open>Pushing\<close>

lemma set_ticket_more [simp]:
  "db_faults (set_ticket u f w) = db_faults w" "tdb_broken (set_ticket u f w) = tdb_broken w"
  "tdb_automation (set_ticket u f w) = tdb_automation w"
  by (simp_all add: set_ticket_def)

lemma MarkPushed_ok:
  "db_faults w = [] \<Longrightarrow> \<not> tdb_broken w \<Longrightarrow> tdb_uuid_in w tid = Some u \<Longrightarrow> int4_ok n \<Longrightarrow>
   MarkPushed tid n w = (Inr (), set_ticket u (\<lambda>r. r\<lparr>tr_glpi_id := Some n, tr_glpi_synced_at := Some (db_clock w)\<rparr>) w)"
  by (simp add: MarkPushed_def stmt_ok)

lemma push_list_links:
  assumes "db_faults w = []" "\<not> tdb_broken w" "\<forall>t \<in> set ts. tdb_uuid_in w (tk_ID t) = Some (tk_ID t)"
    and "\<And>rq g. \<exists>n g'. gs_CreateTicket s rq g = (Some n, g') \<and> int4_ok n"
    and "r \<in> set (tdb_tickets (fst (push_list s c q ts w g)))" "tr_glpi_id r = None"
  shows "r \<in> set (tdb_tickets w) \<and> (tk_visible w r \<longrightarrow> tr_id r \<notin> tk_ID ` set ts)"
  using assms
proof (induction ts arbitrary: w g)
  case (Cons t ts)
  obtain n g1 where g: "gs_CreateTicket s (glpi_request c q t) g = (Some n, g1)" "int4_ok n" using Cons.prems(4) by blast
  let ?f = "\<lambda>r. r\<lparr>tr_glpi_id := Some n, tr_glpi_synced_at := Some (db_clock w)\<rparr>"
  let ?w = "set_ticket (tk_ID t) ?f w"
  have m: "MarkPushed (tk_ID t) n w = (Inr (), ?w)"
    by (rule MarkPushed_ok [OF Cons.prems(1,2) _ g(2)]) (use Cons.prems(3) in simp)
  have v: "tk_visible ?w = tk_visible w" by (rule env_visible) simp
  have "tdb_uuid_in ?w = tdb_uuid_in w" by (rule env_fields(1)) simp
  then have "r \<in> set (tdb_tickets ?w) \<and> (tk_visible ?w r \<longrightarrow> tr_id r \<notin> tk_ID ` set ts)"
    using Cons.prems by (intro Cons.IH [of ?w g1]) (simp_all add: g m)
  then obtain r0 where r0: "r0 \<in> set (tdb_tickets w)" "r = (if tr_id r0 = tk_ID t \<and> tk_visible w r0 then ?f r0 else r0)"
    and ts: "tk_visible w r \<longrightarrow> tr_id r \<notin> tk_ID ` set ts"
    unfolding set_ticket_rows v by blast
  have "\<not> (tr_id r0 = tk_ID t \<and> tk_visible w r0)" using r0(2) Cons.prems(6) by auto
  with r0 ts show ?case by auto
qed simp

definition pending_push :: "'i ticket_db \<Rightarrow> 'i ticket_row list" where
  "pending_push w =
     sort_key tr_created_at (filter (\<lambda>r. tk_visible w r \<and> tr_glpi_id r = None \<and> live_status (tr_status r)) (tdb_tickets w))"

lemma Unpushed_ok:
  "db_faults w = [] \<Longrightarrow> \<not> tdb_broken w \<Longrightarrow>
   UnpushedTickets glpiPushBatch w = (Inr (map (scanTicket (tdb_inet_host w)) (take 50 (pending_push w))), w)"
  by (simp add: UnpushedTickets_def glpiPushBatch_def stmt_ok pending_push_def)

text \<open>
  With the database and the server answering, one round links every live ticket that was not linked, as long
  as they are no more than a batch.
\<close>

theorem push_links_all:
  assumes "db_faults w = []" "\<not> tdb_broken w" "length (pending_push w) \<le> 50"
    and "\<forall>r \<in> set (tdb_tickets w). tdb_uuid_in w (tr_id r) = Some (tr_id r)"
    and "\<And>rq g. \<exists>n g'. gs_CreateTicket s rq g = (Some n, g') \<and> int4_ok n"
    and "glpiPush s c q w g = (w', g')" "r \<in> set (tdb_tickets w')" "tk_visible w r" "live_status (tr_status r)"
  shows "tr_glpi_id r \<noteq> None"
proof
  assume n: "tr_glpi_id r = None"
  let ?ts = "map (scanTicket (tdb_inet_host w)) (pending_push w)"
  have ids: "tk_ID ` set ?ts = tr_id ` set (pending_push w)" by (simp add: image_image scanTicket_def)
  have "fst (push_list s c q ?ts w g) = w'"
    using assms(6) by (simp add: glpiPush_def Unpushed_ok assms(1-3))
  moreover have "\<forall>t \<in> set ?ts. tdb_uuid_in w (tk_ID t) = Some (tk_ID t)"
    using assms(4) by (auto simp: scanTicket_def pending_push_def)
  ultimately have "r \<in> set (tdb_tickets w)" "tr_id r \<notin> tr_id ` set (pending_push w)"
    using push_list_links [OF assms(1,2) _ assms(5), of ?ts r c q g] assms(7,8) n ids by auto
  then show False using assms(8,9) n by (auto simp: pending_push_def)
qed

lemma push_links_all_witness:
  "tr_glpi_id (tdb_tickets (fst (glpiPush (demo_server (\<lambda>n. Some 7) (\<lambda>i. None)) 0 0 (demo_db [] [demo_row ''u'', demo_row ''uu'']) 0)) ! 1)
     \<noteq> None"
proof -
  let ?s = "demo_server (\<lambda>n. Some 7) (\<lambda>i. None)" and ?w = "demo_db [] [demo_row ''u'', demo_row ''uu'']"
  obtain w g where d: "glpiPush ?s 0 0 ?w 0 = (w, g)" by force
  have m: "desk_moves True (in_scope ?w) ?w w" using glpiPush_moves [of True ?w ?s 0 0 0] d by (simp add: moves_to_def)
  have l: "1 < length (tdb_tickets ?w)" by (simp add: demo_db_def)
  note n = desk_moves_nth [OF m l]
  have pushed: "w = fst (glpiPush ?s 0 0 ?w 0)" by (simp add: d)
  have st: "tr_status (tdb_tickets w ! 1) = ''open''"
    unfolding pushed by code_simp
  have "tdb_tickets w ! 1 \<in> set (tdb_tickets w)" using n(1) by simp
  moreover have "db_faults ?w = []" "\<not> tdb_broken ?w" "length (pending_push ?w) \<le> 50"
    "\<forall>r \<in> set (tdb_tickets ?w). tdb_uuid_in ?w (tr_id r) = Some (tr_id r)" "tk_visible ?w (tdb_tickets w ! 1)"
    by (auto simp: demo_db_def pending_push_def tk_visible_def in_scope_def le_trans [OF length_filter_le])
  moreover have "\<exists>n g'. gs_CreateTicket ?s rq g = (Some n, g') \<and> int4_ok n" for rq g
    by (simp add: demo_server_def int4_ok_def)
  ultimately show ?thesis using push_links_all [OF _ _ _ _ _ d] st unfolding d by (simp add: live_status_def)
qed

lemma push_list_refused:
  assumes "\<And>g. fst (gs_CreateTicket s (glpi_request c q t) g) = None"
  shows "fst (push_list s c q (t # ts) w g) = w"
proof -
  obtain g1 where "gs_CreateTicket s (glpi_request c q t) g = (None, g1)" using assms [of g] by (metis prod.collapse)
  then show ?thesis by simp
qed

text \<open>
  A round stops at the first refusal, whatever its reason. So a single ticket that the server never accepts,
  the oldest of the unlinked, keeps every other ticket out of GLPI through any number of rounds.
\<close>

theorem refused_ticket_blocks_push:
  assumes "db_faults w = []" "\<not> tdb_broken w" "pending_push w = r # rs"
    and "\<And>g. fst (gs_CreateTicket s (glpi_request c q (scanTicket (tdb_inet_host w) r)) g) = None"
  shows "fst (((\<lambda>(w, g). glpiPush s c q w g) ^^ n) (w, g)) = w"
proof (induction n)
  case (Suc n)
  obtain v h where v: "((\<lambda>(w, g). glpiPush s c q w g) ^^ n) (w, g) = (v, h)" by force
  with Suc have "v = w" by simp
  have "fst (glpiPush s c q w h) = w"
    by (simp add: glpiPush_def Unpushed_ok assms(1-3) push_list_refused [OF assms(4)] del: push_list.simps)
  with v \<open>v = w\<close> show ?case by simp
qed simp

lemma refused_ticket_blocks_push_witness:
  "fst (((\<lambda>(w, g). glpiPush (demo_server (\<lambda>n. None) (\<lambda>i. None)) 0 0 w g) ^^ 5) (demo_db [] [demo_row ''u'', demo_row ''uu''], 0))
     = demo_db [] [demo_row ''u'', demo_row ''uu'']"
  by (rule refused_ticket_blocks_push [where r = "demo_row ''u''" and rs = "[demo_row ''uu'']"])
     (simp_all add: demo_db_def demo_server_def pending_push_def tk_visible_def in_scope_def demo_row_def inserted_row_def live_status_def)

section \<open>Pulling\<close>

definition linked_live :: "'i ticket_db \<Rightarrow> 'i ticket_row list" where
  "linked_live w =
     sort_key synced_at (filter (\<lambda>r. tk_visible w r \<and> tr_glpi_id r \<noteq> None \<and>
        (live_status (tr_status r) \<or> tr_status r = ''resolved'')) (tdb_tickets w))"

lemma Linked_ok:
  "db_faults w = [] \<Longrightarrow> \<not> tdb_broken w \<Longrightarrow>
   LinkedLiveTickets glpiPullBatch w = (Inr (map (scanTicket (tdb_inet_host w)) (take 100 (linked_live w))), w)"
  by (simp add: LinkedLiveTickets_def glpiPullBatch_def stmt_ok linked_live_def)

text \<open>
  The same on the way back. A ticket that was deleted in GLPI has no status to read; it is never marked as
  reconciled, so it stays the one whose turn it is, and no status of any other ticket is taken over again.
\<close>

theorem deleted_ticket_stops_pull:
  assumes "db_faults w = []" "\<not> tdb_broken w" "linked_live w = r # rs" "tr_glpi_id r = Some k"
    and "\<And>g. fst (gs_TicketStatus s k g) = None"
  shows "fst (((\<lambda>(w, g). glpiPull s w g) ^^ n) (w, g)) = w"
proof (induction n)
  case (Suc n)
  obtain v h where v: "((\<lambda>(w, g). glpiPull s w g) ^^ n) (w, g) = (v, h)" by force
  with Suc have "v = w" by simp
  obtain h' where "gs_TicketStatus s k h = (None, h')" using assms(5) [of h] by (metis prod.collapse)
  then have "pull_one s (scanTicket (tdb_inet_host w) r) w h = (None, h')"
    using assms(4) by (simp add: pull_one_def scanTicket_def)
  then have "fst (glpiPull s w h) = w" by (simp add: glpiPull_def Linked_ok assms(1-3))
  with v \<open>v = w\<close> show ?case by simp
qed simp

definition linked_row :: "string \<Rightarrow> int \<Rightarrow> gotime \<Rightarrow> string ticket_row" where
  "linked_row uid k t = (demo_row uid)\<lparr>tr_glpi_id := Some k, tr_glpi_synced_at := Some t\<rparr>"

lemma deleted_ticket_stops_pull_witness:
  "fst (((\<lambda>(w, g). glpiPull (demo_server (\<lambda>n. None) (\<lambda>i. if i = 8 then None else Some 6)) w g) ^^ 9)
     (demo_db [] [linked_row ''u'' 7 60, linked_row ''uu'' 8 55], 0)) = demo_db [] [linked_row ''u'' 7 60, linked_row ''uu'' 8 55]"
  by (rule deleted_ticket_stops_pull [where r = "linked_row ''uu'' 8 55" and rs = "[linked_row ''u'' 7 60]" and k = 8])
     (simp_all add: demo_db_def demo_server_def linked_live_def tk_visible_def in_scope_def linked_row_def demo_row_def
        inserted_row_def live_status_def synced_at_def)

text \<open>One linked ticket under a database that answers: only its row changes, to the status that was read.\<close>

lemma valid_status: "StatusToDeusWatch raw = Some st \<Longrightarrow> st \<in> set ticket_statuses"
  by (auto simp: StatusToDeusWatch_def ticket_statuses_def split: if_splits)

lemma only_status_edit:
  assumes "st \<in> set ticket_statuses"
  obtains c where "edit_ticket actor (only_status st) t cur = Inr c" "tk_Status c = st"
proof -
  have "edit_status (only_status st) t (edit_fields (only_status st) cur) =
      Inr ((edit_fields (only_status st) cur)\<lparr>tk_Status := st, tk_ResolvedAt := fst (status_times st t (tk_ResolvedAt cur)),
             tk_ClosedAt := snd (status_times st t (tk_ResolvedAt cur))\<rparr>)"
    using assms by (simp add: edit_status_def only_status_def edit_fields_def)
  then show ?thesis using that by (simp add: edit_ticket_def edit_ack_def)
qed

definition quiet :: "'i ticket_db \<Rightarrow> 'i ticket_db \<Rightarrow> bool" where
  "quiet w w' = (db_faults w' = [] \<and> \<not> tdb_broken w' \<and> desk_env w' = desk_env w)"

lemma start_announcement_more [simp]:
  "db_faults (start_announcement rs t w) = db_faults w" "tdb_broken (start_announcement rs t w) = tdb_broken w"
  by (simp_all add: start_announcement_def)

lemma Apply_ok:
  assumes "db_faults w = []" "\<not> tdb_broken w" "tdb_uuid_in w u = Some u" "find_ticket u w = Some r"
    and "st \<in> set ticket_statuses"
  obtains w' c where "snd (ApplyGLPIStatus u st w) = w'" "quiet w w'" "tk_Status c = st"
    "tdb_tickets w' = map (\<lambda>x. if tr_id x = u \<and> tk_visible w x
        then (write_edit c (db_clock w) x)\<lparr>tr_glpi_synced_at := Some (db_clock w)\<rparr> else x) (tdb_tickets w)"
proof -
  obtain c where c: "edit_ticket GLPISyncActor (only_status st) (db_clock w) (scanTicket (tdb_inet_host w) r) = Inr c"
    "tk_Status c = st" by (rule only_status_edit [OF assms(5)])
  note q = stmt_ok [OF assms(1,2)]
  define v where "v = set_ticket u (write_edit c (db_clock w)) w"
  obtain rs t where up: "Update_ticket u GLPISyncActor (only_status st) w = (Inr t, start_announcement rs t v)"
    by (simp add: Update_ticket_def Update_read_def Get_ticket_def Update_write_def q assms(3,4) c(1) Let_def v_def)
  define w1 where "w1 = start_announcement rs t v"
  have w1: "db_faults w1 = []" "\<not> tdb_broken w1" "desk_env w1 = desk_env w" "tdb_tickets w1 = tdb_tickets v"
    by (simp_all add: w1_def v_def assms(1,2))
  have f: "tdb_uuid_in w1 u = Some u" "db_clock w1 = db_clock w" "tk_visible w1 = tk_visible w"
    using env_fields [OF w1(3)] assms(3) env_visible [OF w1(3)] by simp_all
  let ?w' = "set_ticket u (\<lambda>r. r\<lparr>tr_glpi_synced_at := Some (db_clock w)\<rparr>) w1"
  have "TouchGLPISync u w1 = (Inr (), ?w')" by (simp add: TouchGLPISync_def stmt_ok w1 f)
  then have "snd (ApplyGLPIStatus u st w) = ?w'" by (simp add: ApplyGLPIStatus_def up w1_def)
  moreover have "quiet w ?w'" by (simp add: quiet_def w1)
  moreover have "tk_visible w (write_edit c t x) = tk_visible w x" "tr_id (write_edit c t x) = tr_id x" for t x
    by (simp_all add: tk_visible_def write_edit_def)
  then have "tdb_tickets ?w' = map (\<lambda>x. if tr_id x = u \<and> tk_visible w x
        then (write_edit c (db_clock w) x)\<lparr>tr_glpi_synced_at := Some (db_clock w)\<rparr> else x) (tdb_tickets w)"
    by (simp add: set_ticket_def update_rows_def w1(4) f(3) v_def)
  ultimately show ?thesis using that c(2) by blast
qed

lemma scan_fields:
  "tk_ID (scanTicket h r) = tr_id r" "tk_Status (scanTicket h r) = tr_status r" "tk_GLPIID (scanTicket h r) = tr_glpi_id r"
  by (simp_all add: scanTicket_def)

lemma find_keyed:
  assumes "keyed w" "r \<in> set (tdb_tickets w)" "tk_visible w r"
  shows "find_ticket (tr_id r) w = Some r"
proof -
  have "find_ticket (tr_id r) w \<noteq> None" using assms(2,3) by (auto simp: find_ticket_def find_None_iff)
  then obtain x where x: "find_ticket (tr_id r) w = Some x" by blast
  with find_ticket_Some [OF x] keyed_unique [OF assms(1,2)] show ?thesis by metis
qed

lemma pull_one_row:
  assumes "db_faults w = []" "\<not> tdb_broken w" "keyed w" "r \<in> set (tdb_tickets w)" "tk_visible w r"
    and "tdb_uuid_in w (tr_id r) = Some (tr_id r)" "tr_glpi_id r = Some k" "gs_TicketStatus s k g = (Some raw, g1)"
  obtains w' r' where "pull_one s (scanTicket (tdb_inet_host w) r) w g = (Some w', g1)" "quiet w w'"
    "r' \<in> set (tdb_tickets w')" "tr_id r' = tr_id r"
    "case StatusToDeusWatch raw of None \<Rightarrow> r' = r | Some st \<Rightarrow> tr_status r' = st"
    "\<And>x. tr_id x \<noteq> tr_id r \<Longrightarrow> x \<in> set (tdb_tickets w') \<longleftrightarrow> x \<in> set (tdb_tickets w)"
    "map tr_id (tdb_tickets w') = map tr_id (tdb_tickets w)"
proof -
  note found = that
  let ?t = "scanTicket (tdb_inet_host w) r"
  have p: "pull_one s ?t w g = (Some (case StatusToDeusWatch raw of None \<Rightarrow> w
      | Some status \<Rightarrow> if status = tr_status r then snd (TouchGLPISync (tr_id r) w)
                       else snd (ApplyGLPIStatus (tr_id r) status w)), g1)"
    by (cases "StatusToDeusWatch raw") (simp_all add: pull_one_def scan_fields assms(7,8))
  have upd: thesis
    if w': "w' = (case StatusToDeusWatch raw of None \<Rightarrow> w
      | Some status \<Rightarrow> if status = tr_status r then snd (TouchGLPISync (tr_id r) w)
                       else snd (ApplyGLPIStatus (tr_id r) status w))" "quiet w w'"
      and t: "tdb_tickets w' = map (\<lambda>x. if tr_id x = tr_id r \<and> tk_visible w x then h x else x) (tdb_tickets w)"
      and h: "\<And>x. tr_id (h x) = tr_id x" "case StatusToDeusWatch raw of None \<Rightarrow> h r = r | Some st \<Rightarrow> tr_status (h r) = st"
    for w' h
  proof (rule found [of w' "h r"])
    show "pull_one s ?t w g = (Some w', g1)" by (simp add: p w'(1))
    show "h r \<in> set (tdb_tickets w')" unfolding t set_map by (rule image_eqI [of _ _ r]) (simp_all add: assms(4,5))
    show "x \<in> set (tdb_tickets w') \<longleftrightarrow> x \<in> set (tdb_tickets w)" if "tr_id x \<noteq> tr_id r" for x
      using that h(1) by (auto simp: t image_iff split: if_splits)
    show "map tr_id (tdb_tickets w') = map tr_id (tdb_tickets w)" by (simp add: t h(1) comp_def if_distrib [of tr_id] cong: if_cong)
  qed (use w'(2) h in simp_all)
  show thesis
  proof (cases "StatusToDeusWatch raw")
    case None
    then show thesis by (intro upd [of w "\<lambda>x. x"]) (simp_all add: quiet_def assms(1,2))
  next
    case (Some st)
    show thesis
    proof (cases "st = tr_status r")
      case True
      let ?h = "\<lambda>x. x\<lparr>tr_glpi_synced_at := Some (db_clock w)\<rparr>"
      have "TouchGLPISync (tr_id r) w = (Inr (), set_ticket (tr_id r) ?h w)"
        by (simp add: TouchGLPISync_def stmt_ok assms(1,2,6))
      then show thesis using Some True
        by (intro upd [of "set_ticket (tr_id r) ?h w" ?h])
           (simp_all add: quiet_def assms(1,2), simp add: set_ticket_def update_rows_def)
    next
      case False
      obtain w' c where a: "snd (ApplyGLPIStatus (tr_id r) st w) = w'" "quiet w w'" "tk_Status c = st"
        "tdb_tickets w' = map (\<lambda>x. if tr_id x = tr_id r \<and> tk_visible w x
          then (write_edit c (db_clock w) x)\<lparr>tr_glpi_synced_at := Some (db_clock w)\<rparr> else x) (tdb_tickets w)"
        by (rule Apply_ok [OF assms(1,2,6) find_keyed [OF assms(3-5)] valid_status [OF Some]])
      show thesis
        by (rule upd [OF _ a(2,4)]) (use Some False a(1,3) in \<open>simp_all add: write_edit_def\<close>)
    qed
  qed
qed

lemma quiet_step: "quiet w w1 \<Longrightarrow> quiet w1 w2 \<Longrightarrow> quiet w w2"
  by (simp add: quiet_def)

lemma pull_list_rows:
  assumes "db_faults w = []" "\<not> tdb_broken w" "keyed w" "tdb_super w" "tdb_inet_host w = host"
    and "\<forall>r \<in> set rs. r \<in> set (tdb_tickets w) \<and> tdb_uuid_in w (tr_id r) = Some (tr_id r) \<and> tr_glpi_id r \<noteq> None"
    and "distinct (map tr_id rs)" "\<And>k g. \<exists>g'. gs_TicketStatus s k g = (Some (f k), g')"
  shows "(\<forall>r \<in> set rs. \<exists>r' \<in> set (tdb_tickets (fst (pull_list s (map (scanTicket host) rs) w g))). tr_id r' = tr_id r \<and>
      (case StatusToDeusWatch (f (the (tr_glpi_id r))) of None \<Rightarrow> r' = r | Some st \<Rightarrow> tr_status r' = st)) \<and>
    (\<forall>x. tr_id x \<notin> tr_id ` set rs \<longrightarrow>
      (x \<in> set (tdb_tickets (fst (pull_list s (map (scanTicket host) rs) w g))) \<longleftrightarrow> x \<in> set (tdb_tickets w)))"
  using assms
proof (induction rs arbitrary: w g)
  case (Cons r rs)
  obtain k where k: "tr_glpi_id r = Some k" using Cons.prems(6) by auto
  obtain g1 where g: "gs_TicketStatus s k g = (Some (f k), g1)" using Cons.prems(8) by blast
  have v: "tk_visible w r" by (simp add: tk_visible_def in_scope_def Cons.prems(4))
  have r: "r \<in> set (tdb_tickets w)" "tdb_uuid_in w (tr_id r) = Some (tr_id r)" using Cons.prems(6) by simp_all
  obtain w1 r1 where p: "pull_one s (scanTicket (tdb_inet_host w) r) w g = (Some w1, g1)" "quiet w w1"
    "r1 \<in> set (tdb_tickets w1)" "tr_id r1 = tr_id r" "case StatusToDeusWatch (f k) of None \<Rightarrow> r1 = r | Some st \<Rightarrow> tr_status r1 = st"
    "\<And>x. tr_id x \<noteq> tr_id r \<Longrightarrow> x \<in> set (tdb_tickets w1) \<longleftrightarrow> x \<in> set (tdb_tickets w)"
    "map tr_id (tdb_tickets w1) = map tr_id (tdb_tickets w)"
    by (rule pull_one_row [OF Cons.prems(1-3) r(1) v r(2) k g]) blast
  have e: "desk_env w1 = desk_env w" "db_faults w1 = []" "\<not> tdb_broken w1" using p(2) by (simp_all add: quiet_def)
  have other: "tr_id x \<noteq> tr_id r" if "x \<in> set rs" for x using that Cons.prems(7) by (metis distinct.simps(2) image_eqI list.simps(9) set_map)
  let ?v = "fst (pull_list s (map (scanTicket host) rs) w1 g1)"
  have "keyed w1" using Cons.prems(3) p(7) by (simp add: keyed_def)
  moreover have "\<forall>x \<in> set rs. x \<in> set (tdb_tickets w1) \<and> tdb_uuid_in w1 (tr_id x) = Some (tr_id x) \<and> tr_glpi_id x \<noteq> None"
    using Cons.prems(6) p(6) other env_fields(1) [OF e(1)] by simp
  ultimately have IH: "\<forall>x \<in> set rs. \<exists>x' \<in> set (tdb_tickets ?v). tr_id x' = tr_id x \<and>
      (case StatusToDeusWatch (f (the (tr_glpi_id x))) of None \<Rightarrow> x' = x | Some st \<Rightarrow> tr_status x' = st)"
    "\<And>x. tr_id x \<notin> tr_id ` set rs \<Longrightarrow> x \<in> set (tdb_tickets ?v) \<longleftrightarrow> x \<in> set (tdb_tickets w1)"
    using Cons.IH [of w1 g1] e Cons.prems(4,5,7,8) env_fields(3,6) [OF e(1)] by simp_all
  have fin: "fst (pull_list s (map (scanTicket host) (r # rs)) w g) = ?v"
    using p(1) by (simp add: Cons.prems(5) [symmetric])
  have "tr_id r \<notin> tr_id ` set rs" using Cons.prems(7) by simp
  then have "r1 \<in> set (tdb_tickets ?v)" using IH(2) [of r1] p(3,4) by simp
  with p(4,5) k have "\<exists>x' \<in> set (tdb_tickets ?v). tr_id x' = tr_id r \<and>
      (case StatusToDeusWatch (f (the (tr_glpi_id r))) of None \<Rightarrow> x' = r | Some st \<Rightarrow> tr_status x' = st)" by auto
  with IH(1) have 1: "\<forall>x \<in> set (r # rs). \<exists>x' \<in> set (tdb_tickets ?v). tr_id x' = tr_id x \<and>
      (case StatusToDeusWatch (f (the (tr_glpi_id x))) of None \<Rightarrow> x' = x | Some st \<Rightarrow> tr_status x' = st)" by simp
  have 2: "x \<in> set (tdb_tickets ?v) \<longleftrightarrow> x \<in> set (tdb_tickets w)" if "tr_id x \<notin> tr_id ` set (r # rs)" for x
    using that IH(2) [of x] p(6) [of x] by simp
  show ?case unfolding fin using 1 2 by blast
qed simp



section \<open>Every alert is counted\<close>

text \<open>How many alerts the tickets of a key stand for: each one for the alert that opened it and its recurrences.\<close>

definition key_weight :: "string \<Rightarrow> 'i ticket_row list \<Rightarrow> int" where
  "key_weight k rs = sum_list (map (\<lambda>r. if tr_dedupe_key r = Some k then 1 + tr_recurrences r else 0) rs)"

text \<open>An alert that qualifies: automation is on and it is severe enough. Its source may be no address.\<close>

definition qualifies :: "string \<Rightarrow> desk_act \<Rightarrow> bool" where
  "qualifies k a =
     (case a of
        DAlert (Some c) _ ev \<Rightarrow>
          let t = alertTicketFrom ev in
          ac_Enabled c \<and> ac_MinSeverity c \<le> al_Severity t \<and> DedupeKey t = k
      | _ \<Rightarrow> False)"

definition readable_source :: "(string \<Rightarrow> 'i option) \<Rightarrow> desk_act \<Rightarrow> bool" where
  "readable_source inet a =
     (case a of
        DAlert _ _ ev \<Rightarrow> let t = alertTicketFrom ev in al_SourceIP t = [] \<or> inet (al_SourceIP t) \<noteq> None
      | _ \<Rightarrow> True)"

lemma key_weight_append [simp]: "key_weight k (rs @ rs') = key_weight k rs + key_weight k rs'"
  by (simp add: key_weight_def)

lemma row_moves_weight:
  "row_moves False S r r' \<Longrightarrow> tr_dedupe_key r' = tr_dedupe_key r \<and> tr_recurrences r' = tr_recurrences r"
  by (auto simp: row_moves_def dest: row_steps_keep)

lemma quiet_weight:
  assumes "desk_moves False S w w'"
  shows "key_weight k (tdb_tickets w') = key_weight k (tdb_tickets w)"
proof -
  from assms obtain olds news where m: "tdb_tickets w' = olds @ news" "list_all2 (row_moves False S) (tdb_tickets w) olds"
    "\<forall>r \<in> set news. S (tr_tenant_id r) \<and> (\<exists>r0. new_row False r0 \<and> (row_step False)\<^sup>*\<^sup>* r0 r)"
    unfolding desk_moves_def by blast
  have "key_weight k olds = key_weight k (tdb_tickets w)"
    using m(2) by (induction rule: list_all2_induct) (auto simp: key_weight_def dest: row_moves_weight)
  moreover have "tr_dedupe_key r = None" if "r \<in> set news" for r
  proof -
    from that m(3) obtain r0 where "new_row False r0" "(row_step False)\<^sup>*\<^sup>* r0 r" by blast
    then show ?thesis using row_steps_keep by (fastforce simp: new_row_def)
  qed
  then have "key_weight k news = 0" by (simp add: key_weight_def cong: map_cong)
  ultimately show ?thesis by (simp add: m(1))
qed

lemma count_weight:
  assumes "keyed w" "r \<in> set (tdb_tickets w)" "tk_visible w r" "tr_dedupe_key r = Some k"
  shows "key_weight k' (tdb_tickets (set_ticket (tr_id r) (count_recurrence t) w)) =
    key_weight k' (tdb_tickets w) + (if k' = k then 1 else 0)"
proof -
  obtain xs ys where l: "tdb_tickets w = xs @ r # ys" using assms(2) by (meson split_list)
  let ?f = "\<lambda>x. if tr_id x = tr_id r \<and> tk_visible w x then count_recurrence t x else x"
  have d: "tr_id r \<notin> tr_id ` set xs" "tr_id r \<notin> tr_id ` set ys" using assms(1) by (simp_all add: l keyed_def)
  have "?f x = x" if "x \<in> set xs \<union> set ys" for x
  proof -
    have "tr_id x \<noteq> tr_id r" using that d by (metis Un_iff image_eqI)
    then show ?thesis by simp
  qed
  then have "map ?f xs = xs" "map ?f ys = ys" by (simp_all add: map_idI)
  then have "tdb_tickets (set_ticket (tr_id r) (count_recurrence t) w) = xs @ count_recurrence t r # ys"
    using assms(3) by (simp add: set_ticket_def update_rows_def l)
  then show ?thesis using assms(4) by (simp add: l key_weight_def count_recurrence_def)
qed

lemma weight_ge: "r \<in> set rs \<Longrightarrow> tr_dedupe_key r = Some k \<Longrightarrow> (\<forall>x \<in> set rs. 0 \<le> tr_recurrences x) \<Longrightarrow> tr_recurrences r + 1 \<le> key_weight k rs"
proof (induction rs)
  case (Cons a rs)
  have n: "0 \<le> key_weight k rs" using Cons.prems(3) by (auto simp: key_weight_def intro!: sum_list_nonneg)
  have a: "key_weight k (a # rs) = (if tr_dedupe_key a = Some k then 1 + tr_recurrences a else 0) + key_weight k rs"
    by (simp add: key_weight_def)
  show ?case
  proof (cases "r = a")
    case True
    with Cons.prems(2) n show ?thesis unfolding a by simp
  next
    case False
    with Cons.prems have "tr_recurrences r + 1 \<le> key_weight k rs" by (intro Cons.IH) simp_all
    moreover have "0 \<le> tr_recurrences a" using Cons.prems(3) by simp
    ultimately show ?thesis unfolding a by simp
  qed
qed simp

definition calm :: "'i ticket_db \<Rightarrow> bool" where
  "calm w = (db_faults w = [] \<and> \<not> tdb_broken w \<and> \<not> tdb_intx w \<and> tdb_super w \<and> ids_ok w \<and>
     (\<forall>r \<in> set (tdb_tickets w). 0 \<le> tr_recurrences r))"

lemma DedupeKey_nonempty [simp]: "DedupeKey a \<noteq> []"
  by (simp add: DedupeKey_def)

lemma alert_weight:
  assumes "calm w" "key_weight (DedupeKey (alertTicketFrom ev)) (tdb_tickets w) < 2 ^ 31 - 1"
    and "readable_source (tdb_inet_in w) (DAlert cfg ch ev)"
  shows "key_weight k (tdb_tickets (snd (handle_alert cfg ch ev w))) =
    key_weight k (tdb_tickets w) + (if qualifies k (DAlert cfg ch ev) then 1 else 0)"
proof (cases "cfg = None \<or> \<not> ac_Enabled (the cfg) \<or> al_Severity (alertTicketFrom ev) < ac_MinSeverity (the cfg)")
  case True
  then show ?thesis by (cases cfg) (auto simp: handle_alert_def qualifies_def TicketForAlert_def Let_def)
next
  case False
  then obtain c where c: "cfg = Some c" "ac_Enabled c" "ac_MinSeverity c \<le> al_Severity (alertTicketFrom ev)" by auto
  define a where "a = alertTicketFrom ev"
  define since where "since = db_clock w - wrap64 (ac_DedupeWindowMins c * minute)"
  let ?n = "\<lparr>nt_Title = (if al_Title a = [] then ''DeusWatch alert'' else al_Title a), nt_Description = al_Detail a,
     nt_Severity = al_Severity a, nt_Assignee = ac_DefaultAssignee c, nt_SourceIP = al_SourceIP a, nt_RuleID = al_RuleID a,
     nt_AutoCreated = True, nt_DedupeKey = DedupeKey a\<rparr>"
  have q: "stmt w = (False, w)" using assms(1) by (simp add: calm_def stmt_ok)
  have h: "tdb_tickets (snd (handle_alert cfg ch ev w)) = tdb_tickets (snd (TicketForAlert c a w))"
    by (simp add: handle_alert_def c(1,2) a_def split: prod.splits sum.splits option.splits bool.splits)
  have sev: "\<not> al_Severity a < ac_MinSeverity c" using c(3) by (simp add: a_def)
  let ?rs = "sort_key (\<lambda>r. - tr_created_at r) (filter (absorbs (DedupeKey a) since w) (tdb_tickets w))"
  show ?thesis
  proof (cases ?rs)
    case (Cons r rs)
    then have "r \<in> set ?rs" by simp
    then have r: "r \<in> set (tdb_tickets w)" "tk_visible w r" "tr_dedupe_key r = Some (DedupeKey a)" by (simp_all add: absorbs_def)
    have "tr_recurrences r + 1 \<le> key_weight (DedupeKey a) (tdb_tickets w)"
      using weight_ge [OF r(1,3)] assms(1) by (simp add: calm_def)
    moreover have "0 \<le> tr_recurrences r" using assms(1) r(1) by (simp add: calm_def)
    ultimately have "int4_ok (tr_recurrences r + 1)" using assms(2) by (simp add: int4_ok_def a_def)
    then have "snd (TicketForAlert c a w) = set_ticket (tr_id r) (count_recurrence (db_clock w)) w"
      using Cons by (simp add: TicketForAlert_def c(2) sev q Let_def since_def)
    then show ?thesis
      using count_weight [OF _ r] assms(1) c(2,3) by (simp add: h [unfolded c(1)] qualifies_def c(1) Let_def calm_def ids_ok_def a_def [symmetric])
  next
    case Nil
    then have t: "tdb_tickets (snd (TicketForAlert c a w)) = tdb_tickets (snd (Create_ticket ''deuswatch'' ?n w))"
      by (simp add: TicketForAlert_def c(2) sev q Let_def since_def split: prod.splits sum.splits)
    obtain ip where "inet_arg w (al_SourceIP a) = Some ip"
      using assms(3) by (cases "al_SourceIP a = []") (auto simp: readable_source_def inet_arg_def a_def [symmetric] Let_def)
    moreover have "in_scope w DefaultTenantID" using assms(1) by (simp add: calm_def in_scope_def)
    ultimately show ?thesis
      using c sev by (simp add: h [unfolded c(1)] t Create_ticket_def q qualifies_def Let_def a_def [symmetric] fresh_id_def key_weight_def
          inserted_row_def strOrNil_def)
  qed
qed

lemma row_steps_recurrences: "(row_step b)\<^sup>*\<^sup>* r r' \<Longrightarrow> tr_recurrences r \<le> tr_recurrences r'"
proof (induction rule: rtranclp_induct)
  case (step y z)
  have "tr_recurrences y \<le> tr_recurrences z"
    using step(2) by (induction rule: row_step.induct) (simp_all add: write_edit_def acknowledge_def count_recurrence_def)
  with step(3) show ?case by simp
qed simp

lemma desk_moves_recurrences:
  assumes "desk_moves b S w w'" "\<forall>r \<in> set (tdb_tickets w). 0 \<le> tr_recurrences r"
  shows "\<forall>r \<in> set (tdb_tickets w'). 0 \<le> tr_recurrences r"
proof -
  from assms(1) obtain olds news where m: "tdb_tickets w' = olds @ news" "list_all2 (row_moves b S) (tdb_tickets w) olds"
    "\<forall>r \<in> set news. S (tr_tenant_id r) \<and> (\<exists>r0. new_row b r0 \<and> (row_step b)\<^sup>*\<^sup>* r0 r)"
    unfolding desk_moves_def by blast
  have "0 \<le> tr_recurrences r'" if "r' \<in> set olds" for r'
  proof -
    from that m(2) obtain r where "r \<in> set (tdb_tickets w)" "row_moves b S r r'"
      by (metis in_set_conv_nth list_all2_conv_all_nth)
    with assms(2) row_steps_recurrences show ?thesis by (force simp: row_moves_def)
  qed
  moreover have "0 \<le> tr_recurrences r" if "r \<in> set news" for r
  proof -
    from that m(3) obtain r0 where "new_row b r0" "(row_step b)\<^sup>*\<^sup>* r0 r" by blast
    with row_steps_recurrences show ?thesis by (fastforce simp: new_row_def)
  qed
  ultimately show ?thesis by (auto simp: m(1))
qed

lemma calm_moves:
  assumes "calm w" "moves_to b w w'"
  shows "calm w'"
proof -
  have m: "desk_moves b (in_scope w) w w'" "desk_env w' = desk_env w" "ids_ok w'" "db_faults w' = []" "\<not> tdb_broken w'"
    using assms by (auto simp: moves_to_def calm_def calm_step_def)
  have "0 \<le> tr_recurrences r" if "r \<in> set (tdb_tickets w')" for r
    using that assms(1) desk_moves_recurrences [OF m(1)] by (simp add: calm_def)
  then show ?thesis using m assms(1) env_fields(6,8) [OF m(2)] by (simp add: calm_def)
qed

lemma step_weight:
  assumes "calm w" "readable_source (tdb_inet_in w) a" "\<And>k. key_weight k (tdb_tickets w) < 2 ^ 31 - 1"
  shows "calm (fst (desk_step s c q a (w, g)))" "tdb_inet_in (fst (desk_step s c q a (w, g))) = tdb_inet_in w"
    "key_weight k (tdb_tickets (fst (desk_step s c q a (w, g)))) = key_weight k (tdb_tickets w) + (if qualifies k a then 1 else 0)"
proof -
  let ?w = "fst (desk_step s c q a (w, g))"
  have ids: "ids_ok w" "keyed w" using assms(1) by (simp_all add: calm_def ids_ok_def)
  have "calm ?w \<and> tdb_inet_in ?w = tdb_inet_in w \<and> key_weight k (tdb_tickets ?w) = key_weight k (tdb_tickets w) + (if qualifies k a then 1 else 0)"
  proof (cases "act_caller a")
    case (Some u)
    then have nq: "\<not> qualifies k a" by (cases a) (simp_all add: act_caller_def qualifies_def)
    from request_step [OF Some ids(2), of False s c q g]
    have m: "desk_env ?w = desk_env w" "desk_moves False (caller_scope u) w ?w" "ids_ok ?w" "calm_step w ?w"
      using ids(1) by (simp_all add: request_moves_def)
    have "calm ?w" using assms(1) m(1,3,4) env_fields(6,8) [OF m(1)] desk_moves_recurrences [OF m(2)]
      by (simp add: calm_def calm_step_def)
    with quiet_weight [OF m(2)] env_fields(2) [OF m(1)] nq show ?thesis by simp
  next
    case None
    then consider cfg ch ev where "a = DAlert cfg ch ev" | "a = DPush" | "a = DPull" | d where "a = DWait d"
      by (cases a) (simp_all add: act_caller_def)
    then show ?thesis
    proof cases
      case (1 cfg ch ev)
      have m: "moves_to True w ?w" using handle_moves [of w cfg ch ev] by (simp add: 1)
      with calm_moves [OF assms(1) m] alert_weight [OF assms(1,3) assms(2) [unfolded 1], of k] show ?thesis
        using env_fields(2) by (auto simp: 1 moves_to_def)
    next
      case 2
      have m: "moves_to False w ?w" using glpiPush_moves [of False w s c q g] by (simp add: 2)
      with calm_moves [OF assms(1) m] quiet_weight [of "in_scope w" w ?w k] show ?thesis
        using env_fields(2) by (auto simp: moves_to_def qualifies_def 2)
    next
      case 3
      have m: "moves_to False w ?w" using glpiPull_moves [OF ids(1), of False s g] by (simp add: 3)
      with calm_moves [OF assms(1) m] quiet_weight [of "in_scope w" w ?w k] show ?thesis
        using env_fields(2) by (auto simp: moves_to_def qualifies_def 3)
    next
      case (4 d)
      then show ?thesis using assms(1) by (simp add: calm_def qualifies_def ids_ok_def keyed_def used_ids_def)
    qed
  qed
  then show "calm ?w" "tdb_inet_in ?w = tdb_inet_in w"
    "key_weight k (tdb_tickets ?w) = key_weight k (tdb_tickets w) + (if qualifies k a then 1 else 0)" by blast+
qed

text \<open>
  C31: On a database that answers, with sources that are addresses, no alert is lost and none is counted twice:
  through every run of acts the tickets of a rule, source and agent stand for exactly the alerts of that key
  that qualified, each as the ticket it opened or as a recurrence. Nothing else an analyst or GLPI does
  changes the count.
\<close>

theorem alerts_accounted:
  assumes "desk_run s c q (w, g) acts (w', g')" "calm w" "tdb_tickets w = []"
    and "\<forall>a \<in> set acts. readable_source (tdb_inet_in w) a" "int (length acts) < 2 ^ 31 - 1"
  shows "key_weight k (tdb_tickets w') = int (length (filter (qualifies k) acts))"
proof -
  have "calm (fst y) \<and> tdb_inet_in (fst y) = tdb_inet_in w \<and>
      (\<forall>k. key_weight k (tdb_tickets (fst y)) = int (length (filter (qualifies k) acts)))"
    if "desk_run s c q (w, g) acts y" "\<forall>a \<in> set acts. readable_source (tdb_inet_in w) a" "int (length acts) < 2 ^ 31 - 1" for acts y
    using that
  proof (induction rule: desk_run.induct)
    case start
    then show ?case using assms(2,3) by (simp add: key_weight_def)
  next
    case (act acts y a)
    obtain v h where y: "y = (v, h)" by force
    from act have IH: "calm v" "tdb_inet_in v = tdb_inet_in w" "\<And>k. key_weight k (tdb_tickets v) = int (length (filter (qualifies k) acts))"
      by (simp_all add: y)
    have "int (length (filter (qualifies k) acts)) < 2 ^ 31 - 1" for k
      using act.prems(2) le_less_trans [OF length_filter_le [of "qualifies k" acts]] by simp
    then have b: "key_weight k (tdb_tickets v) < 2 ^ 31 - 1" for k by (simp only: IH(3))
    have "readable_source (tdb_inet_in v) a" using act.prems(1) IH(2) by simp
    note st = step_weight [OF IH(1) this b, where s = s and c = c and q = q and g = h]
    show ?case using st IH(2,3) by (simp add: y)
  qed
  from this [OF assms(1,4,5)] show ?thesis by simp
qed

definition demo_alert :: desk_act where
  "demo_alert = DAlert (Some (DefaultAutomationConfig\<lparr>ac_Enabled := True\<rparr>)) False
     (empty_event\<lparr>ev_Event := (ev_Event empty_event)\<lparr>ef_Severity := 4\<rparr>, ev_Source := Some (endpoint_of ''9.9.9.9'')\<rparr>)"

lemma alerts_accounted_witness:
  "key_weight ''|9.9.9.9|'' (tdb_tickets (fst (fold (desk_step (demo_server (\<lambda>n. Some 7) (\<lambda>i. Some 2)) 0 0)
      [demo_alert, DPush, demo_alert, DWait 5, demo_alert] (demo_db [] [], 0)))) = 3"
proof -
  let ?s = "demo_server (\<lambda>n. Some 7) (\<lambda>i. Some 2)" and ?acts = "[demo_alert, DPush, demo_alert, DWait 5, demo_alert]"
  obtain w g where y: "fold (desk_step ?s 0 0) ?acts (demo_db [] [], 0) = (w, g)" by force
  have "ids_ok (demo_db [] [])" by (rule demo_ids) simp_all
  then have "calm (demo_db [] [])" "tdb_tickets (demo_db [] []) = []" by (simp_all add: calm_def, simp_all add: demo_db_def)
  moreover have "\<forall>a \<in> set ?acts. readable_source (tdb_inet_in (demo_db [] [])) a"
    by (simp add: readable_source_def demo_alert_def alertTicketFrom_def Let_def endpoint_of_def demo_db_def)
  moreover have "qualifies ''|9.9.9.9|'' demo_alert" by code_simp
  then have "filter (qualifies ''|9.9.9.9|'') ?acts = [demo_alert, demo_alert, demo_alert]" by (simp add: qualifies_def)
  ultimately show ?thesis
    using alerts_accounted [OF desk_run_fold [of ?s 0 0 "(demo_db [] [], 0)" ?acts, unfolded y], of "''|9.9.9.9|''"]
    by (simp only: y fst_conv) simp
qed

end
