(* ===== verification/Notify.thy ===== *)
theory Notify
  imports Events Go_Time Go_Strconv Cooldown
begin

text \<open>
  Alert notifications: \<^verbatim>\<open>internal/notify/notify.go\<close> and \<^verbatim>\<open>internal/notify/sinks.go\<close>. A sink is a record
  of what it does to the world \<open>'w\<close> the channels live in, with the error text it returns; the optional
  capability of free text is an \<open>option\<close>. The throttle of the dispatcher keeps the contract
  \<open>cooldown_gate\<close>. The HTTP client and the SMTP sender are arguments of the sinks that use them; a
  request is its address and the values it carries, before the encoding of the body.
\<close>

section \<open>Notifications\<close>

record notification =
  nn_Title :: string
  nn_Severity :: severity
  nn_SourceIP :: string
  nn_Agent :: string
  nn_FilePath :: string
  nn_Rule :: string
  nn_Technique :: string
  nn_Tactic :: string
  nn_Label :: string
  nn_Time :: gotime

definition FromEvent :: "event \<Rightarrow> notification" where
  "FromEvent ev =
     (let rule = (case ev_Rule ev of None \<Rightarrow> [] | Some r \<Rightarrow> if er_Name r = [] then er_ID r else er_Name r)
      in \<lparr>nn_Title = (if rule = [] then ''DeusWatch alert'' else rule),
          nn_Severity = ef_Severity (ev_Event ev),
          nn_SourceIP = (case ev_Source ev of None \<Rightarrow> [] | Some s \<Rightarrow> ep_IP s),
          nn_Agent = (case ev_Agent ev of None \<Rightarrow> [] | Some g \<Rightarrow> agent_ID g),
          nn_FilePath = (case ev_File ev of None \<Rightarrow> [] | Some f \<Rightarrow> file_Path f),
          nn_Rule = rule,
          nn_Technique = (case ev_Threat ev of None \<Rightarrow> [] | Some t \<Rightarrow> tech_ID (th_Technique t)),
          nn_Tactic = (case ev_Threat ev of None \<Rightarrow> [] | Some t \<Rightarrow> th_TacticName t),
          nn_Label = dw_Label (ev_DeusWatch ev),
          nn_Time = ev_Timestamp ev\<rparr>)"

definition dedupKey :: "notification \<Rightarrow> string" where
  "dedupKey n = nn_Rule n @ ''|'' @ nn_SourceIP n @ ''|'' @ nn_FilePath n"

definition Text :: "notification \<Rightarrow> string" where
  "Text n =
     (let labelled = (\<lambda>l v. if v = [] then [] else l @ v @ nl);
          body = [CHR 0xF0, CHR 0x9F, CHR 0x9A, CHR 0xA8] @ '' ['' @ to_upper (severity_String (nn_Severity n)) @ ''] '' @
            nn_Title n @ nl @
            labelled ''Agent: '' (nn_Agent n) @
            labelled ''Source IP: '' (nn_SourceIP n) @
            labelled ''Location: '' (nn_FilePath n) @
            (if nn_Technique n = [] then [] else ''MITRE: '' @ nn_Technique n @ '' '' @ nn_Tactic n @ nl) @
            (if nn_Time n = 0 then [] else ''Time: '' @ rfc3339 (nn_Time n) @ nl)
      in rev (dropWhile (\<lambda>c. c = CHR 0x0A) (rev body)))"

section \<open>The dispatcher\<close>

record 'w sink =
  sk_Name :: string
  sk_Notify :: "notification \<Rightarrow> 'w \<Rightarrow> string option \<times> 'w"
  sk_NotifyText :: "(string \<Rightarrow> string \<Rightarrow> 'w \<Rightarrow> string option \<times> 'w) option"

record 'w dispatcher =
  nd_sinks :: "'w sink list"
  nd_minSeverity :: severity
  nd_throttle :: duration
  nd_lastSent :: "string \<rightharpoonup> gotime"

definition NewDispatcher :: "severity \<Rightarrow> duration \<Rightarrow> 'w sink list \<Rightarrow> 'w dispatcher" where
  "NewDispatcher minSev throttle sinks =
     \<lparr>nd_sinks = sinks, nd_minSeverity = minSev, nd_throttle = throttle, nd_lastSent = Map.empty\<rparr>"

text \<open>The methods are called on a pointer: \<open>None\<close> is the dispatcher that was not built.\<close>

definition Enabled :: "'w dispatcher option \<Rightarrow> bool" where
  "Enabled d = (case d of None \<Rightarrow> False | Some x \<Rightarrow> nd_sinks x \<noteq> [])"

definition SetMinSeverity :: "severity \<Rightarrow> 'w dispatcher \<Rightarrow> 'w dispatcher" where
  "SetMinSeverity s d = d\<lparr>nd_minSeverity := s\<rparr>"

definition SinkNames :: "'w dispatcher \<Rightarrow> string list" where
  "SinkNames d = map sk_Name (nd_sinks d)"

text \<open>\<^verbatim>\<open>allow\<close>, the part under the lock: the last time a key was let through decides and is replaced.\<close>

definition allow_locked :: "string \<Rightarrow> gotime \<Rightarrow> 'w dispatcher \<Rightarrow> bool \<times> 'w dispatcher" where
  "allow_locked key t d =
     (case nd_lastSent d key of
        Some last_t \<Rightarrow>
          if t - last_t < nd_throttle d then (False, d)
          else (True, d\<lparr>nd_lastSent := (nd_lastSent d)(key \<mapsto> t)\<rparr>)
      | None \<Rightarrow> (True, d\<lparr>nd_lastSent := (nd_lastSent d)(key \<mapsto> t)\<rparr>))"

definition allow_notification :: "string \<Rightarrow> gotime \<Rightarrow> 'w dispatcher \<Rightarrow> bool \<times> 'w dispatcher" where
  "allow_notification key t d = (if nd_throttle d \<le> 0 then (True, d) else allow_locked key t d)"

text \<open>The loop over the sinks: the errors collected, and the world.\<close>

fun notify_each :: "notification \<Rightarrow> 'w sink list \<Rightarrow> string list \<Rightarrow> 'w \<Rightarrow> string list \<times> 'w" where
  "notify_each n [] errs w = (errs, w)"
| "notify_each n (s # ss) errs w =
     (case sk_Notify s n w of
        (Some e, w1) \<Rightarrow> notify_each n ss (errs @ [sk_Name s @ '': '' @ e]) w1
      | (None, w1) \<Rightarrow> notify_each n ss errs w1)"

definition joined_errors :: "string list \<Rightarrow> string option" where
  "joined_errors errs = (if errs = [] then None else Some (''notify: '' @ join_with ''; '' errs))"

definition Dispatch ::
    "'w dispatcher option \<Rightarrow> notification \<Rightarrow> gotime \<Rightarrow> 'w \<Rightarrow> string option \<times> 'w dispatcher option \<times> 'w" where
  "Dispatch dp n t w =
     (case dp of
        None \<Rightarrow> (None, dp, w)
      | Some d \<Rightarrow>
          if \<not> Enabled dp then (None, dp, w)
          else if nn_Severity n < nd_minSeverity d then (None, dp, w)
          else (case allow_notification (dedupKey n) t d of
                  (False, d1) \<Rightarrow> (None, Some d1, w)
                | (True, d1) \<Rightarrow>
                    (case notify_each n (nd_sinks d1) [] w of
                       (errs, w1) \<Rightarrow> (joined_errors errs, Some d1, w1))))"

fun text_each :: "string \<Rightarrow> string \<Rightarrow> 'w sink list \<Rightarrow> string list \<Rightarrow> nat \<Rightarrow> 'w \<Rightarrow> string list \<times> nat \<times> 'w" where
  "text_each subj body [] errs sent w = (errs, sent, w)"
| "text_each subj body (s # ss) errs sent w =
     (case sk_NotifyText s of
        None \<Rightarrow> text_each subj body ss errs sent w
      | Some f \<Rightarrow>
          (case f subj body w of
             (Some e, w1) \<Rightarrow> text_each subj body ss (errs @ [sk_Name s @ '': '' @ e]) sent w1
           | (None, w1) \<Rightarrow> text_each subj body ss errs (sent + 1) w1))"

definition SendText :: "'w dispatcher option \<Rightarrow> string \<Rightarrow> string \<Rightarrow> 'w \<Rightarrow> string option \<times> 'w" where
  "SendText dp subj body w =
     (case dp of
        None \<Rightarrow> (Some ''notify: no channel configured'', w)
      | Some d \<Rightarrow>
          if \<not> Enabled dp then (Some ''notify: no channel configured'', w)
          else (case text_each subj body (nd_sinks d) [] 0 w of
                  (errs, sent, w1) \<Rightarrow>
                    if errs \<noteq> [] then (joined_errors errs, w1)
                    else if sent = 0
                    then (Some ''notify: no channel supports text delivery (configure Telegram or email)'', w1)
                    else (None, w1)))"

section \<open>The sinks\<close>

datatype request_body = Form "(string \<times> string) list" | JSON "(string \<times> string) list"

text \<open>\<^verbatim>\<open>http.NewRequest\<close> and \<^verbatim>\<open>Client.Do\<close>: the error of either, or the status of the response.\<close>

type_synonym 'w http_post = "string \<Rightarrow> request_body \<Rightarrow> 'w \<Rightarrow> (string + int) \<times> 'w"

definition truncation_mark :: string where
  "truncation_mark = nl @ [CHR 0xE2, CHR 0x80, CHR 0xA6] @ ''(truncated)''"

definition telegram_text :: "string \<Rightarrow> string" where
  "telegram_text text = (if length text > 3900 then take 3900 text @ truncation_mark else text)"

definition telegram_sendText :: "'w http_post \<Rightarrow> string \<Rightarrow> string \<Rightarrow> string \<Rightarrow> 'w \<Rightarrow> string option \<times> 'w" where
  "telegram_sendText post token chatID text w =
     (case post (''https://api.telegram.org'' @ ''/bot'' @ token @ ''/sendMessage'')
             (Form [(''chat_id'', chatID), (''text'', telegram_text text)]) w of
        (Inl e, w1) \<Rightarrow> (Some e, w1)
      | (Inr code, w1) \<Rightarrow> (if code \<noteq> 200 then Some (''telegram: HTTP '' @ go_itoa code) else None, w1))"

definition NewTelegramNotifier :: "'w http_post \<Rightarrow> string \<Rightarrow> string \<Rightarrow> 'w sink" where
  "NewTelegramNotifier post token chatID =
     \<lparr>sk_Name = ''telegram'',
      sk_Notify = (\<lambda>n. telegram_sendText post token chatID (Text n)),
      sk_NotifyText = Some (\<lambda>subj body.
        telegram_sendText post token chatID (if subj \<noteq> [] then subj @ nl @ nl @ body else body))\<rparr>"

definition webhook_body :: "notification \<Rightarrow> (string \<times> string) list" where
  "webhook_body n =
     [(''title'', nn_Title n), (''severity'', severity_String (nn_Severity n)), (''source_ip'', nn_SourceIP n),
      (''rule'', nn_Rule n), (''technique'', nn_Technique n), (''tactic'', nn_Tactic n),
      (''label'', nn_Label n), (''time'', rfc3339 (nn_Time n))]"

definition NewWebhookNotifier :: "'w http_post \<Rightarrow> string \<Rightarrow> 'w sink" where
  "NewWebhookNotifier post url =
     \<lparr>sk_Name = ''webhook'',
      sk_Notify = (\<lambda>n w.
        case post url (JSON (webhook_body n)) w of
          (Inl e, w1) \<Rightarrow> (Some e, w1)
        | (Inr code, w1) \<Rightarrow> (if code \<ge> 300 then Some (''webhook: HTTP '' @ go_itoa code) else None, w1)),
      sk_NotifyText = None\<rparr>"

record email_config =
  em_host :: string
  em_port :: string
  em_user :: string
  em_pass :: string
  em_from :: string
  em_to :: "string list"

text \<open>\<^verbatim>\<open>smtp.SendMail\<close>: address, user and password of the authentication, sender, recipients, message.\<close>

type_synonym 'w send_mail =
  "string \<Rightarrow> (string \<times> string) option \<Rightarrow> string \<Rightarrow> string list \<Rightarrow> string \<Rightarrow> 'w \<Rightarrow> string option \<times> 'w"

definition crlf :: string where "crlf = [CHR 0x0D, CHR 0x0A]"

definition email_message :: "email_config \<Rightarrow> string \<Rightarrow> string \<Rightarrow> string" where
  "email_message c subj body =
     ''From: '' @ em_from c @ crlf @ ''To: '' @ join_with '', '' (em_to c) @ crlf @ ''Subject: '' @ subj @ crlf @
     ''MIME-Version: 1.0'' @ crlf @ ''Content-Type: text/plain; charset=UTF-8'' @ crlf @ crlf @ body"

definition email_deliver :: "'w send_mail \<Rightarrow> email_config \<Rightarrow> string \<Rightarrow> 'w \<Rightarrow> string option \<times> 'w" where
  "email_deliver send c msg w =
     (case send (em_host c @ '':'' @ em_port c) (if em_user c \<noteq> [] then Some (em_user c, em_pass c) else None)
             (em_from c) (em_to c) msg w of
        (Some e, w1) \<Rightarrow> (Some (''email: '' @ e), w1)
      | (None, w1) \<Rightarrow> (None, w1))"

definition email_alert :: "email_config \<Rightarrow> notification \<Rightarrow> string" where
  "email_alert c n =
     email_message c (''[DeusWatch]['' @ to_upper (severity_String (nn_Severity n)) @ ''] '' @ nn_Title n) (Text n)"

definition NewEmailNotifier :: "'w send_mail \<Rightarrow> email_config \<Rightarrow> 'w sink" where
  "NewEmailNotifier send c =
     \<lparr>sk_Name = ''email'',
      sk_Notify = (\<lambda>n. email_deliver send c (email_alert c n)),
      sk_NotifyText = Some (\<lambda>subj body.
        email_deliver send c (email_message c (if subj = [] then ''DeusWatch report'' else subj) body))\<rparr>"

section \<open>Construction from the environment\<close>

definition splitCSV :: "string \<Rightarrow> string list" where
  "splitCSV s = [p \<leftarrow> map trim_space (split_char (CHR '','') s). p \<noteq> []]"

definition minSeverityFromEnv :: "string \<Rightarrow> severity" where
  "minSeverityFromEnv v =
     (let s = to_lower v
      in if s = ''info'' then SeverityInfo
         else if s = ''low'' then SeverityLow
         else if s = ''medium'' then SeverityMedium
         else if s = ''critical'' then SeverityCritical
         else SeverityHigh)"

definition throttleFromEnv :: "string \<Rightarrow> duration" where
  "throttleFromEnv v = (if v = [] then 10 * minute else case ParseDuration v of None \<Rightarrow> 10 * minute | Some d \<Rightarrow> d)"

text \<open>The environment is a function from names to values, empty where the variable is not set.\<close>

definition sinks_from_env :: "'w http_post \<Rightarrow> 'w send_mail \<Rightarrow> (string \<Rightarrow> string) \<Rightarrow> 'w sink list" where
  "sinks_from_env post send env =
     (if env ''TELEGRAM_BOT_TOKEN'' \<noteq> [] \<and> env ''TELEGRAM_CHAT_ID'' \<noteq> []
      then [NewTelegramNotifier post (env ''TELEGRAM_BOT_TOKEN'') (env ''TELEGRAM_CHAT_ID'')] else []) @
     (if env ''WEBHOOK_URL'' \<noteq> [] then [NewWebhookNotifier post (env ''WEBHOOK_URL'')] else []) @
     (if env ''SMTP_HOST'' \<noteq> [] \<and> env ''SMTP_FROM'' \<noteq> [] \<and> splitCSV (env ''SMTP_TO'') \<noteq> []
      then [NewEmailNotifier send
              \<lparr>em_host = env ''SMTP_HOST'', em_port = (if env ''SMTP_PORT'' = [] then ''587'' else env ''SMTP_PORT''),
               em_user = env ''SMTP_USER'', em_pass = env ''SMTP_PASS'', em_from = env ''SMTP_FROM'',
               em_to = splitCSV (env ''SMTP_TO'')\<rparr>] else [])"

definition DispatcherFromEnv ::
    "'w http_post \<Rightarrow> 'w send_mail \<Rightarrow> (string \<Rightarrow> string) \<Rightarrow> 'w dispatcher option \<times> bool" where
  "DispatcherFromEnv post send env =
     (let sinks = sinks_from_env post send env
      in if sinks = [] then (None, False)
         else (Some (NewDispatcher (minSeverityFromEnv (env ''NOTIFY_MIN_SEVERITY''))
                 (throttleFromEnv (env ''NOTIFY_THROTTLE'')) sinks), True))"

section \<open>The throttle\<close>

interpretation nf: cooldown_gate allow_locked nd_throttle nd_lastSent
  by unfold_locales (auto simp: allow_locked_def split: option.splits if_splits)

lemma allow_locked_keeps:
  "nd_sinks (snd (allow_locked k t d)) = nd_sinks d" "nd_minSeverity (snd (allow_locked k t d)) = nd_minSeverity d"
  by (simp_all add: allow_locked_def split: option.splits)

text \<open>The verdict of the throttle, and what it leaves.\<close>

definition due :: "string \<Rightarrow> gotime \<Rightarrow> 'w dispatcher \<Rightarrow> bool" where
  "due key t d = (nd_throttle d \<le> 0 \<or> (\<forall>l. nd_lastSent d key = Some l \<longrightarrow> t - l \<ge> nd_throttle d))"

lemma allow_due: "fst (allow_notification key t d) = due key t d"
  by (simp add: allow_notification_def due_def nf.gate_fst)

lemma allow_keeps:
  "nd_sinks (snd (allow_notification k t d)) = nd_sinks d"
  "nd_minSeverity (snd (allow_notification k t d)) = nd_minSeverity d"
  "nd_throttle (snd (allow_notification k t d)) = nd_throttle d"
  by (simp_all add: allow_notification_def allow_locked_keeps nf.gate_cool)

lemma allow_lastSent:
  "nd_throttle d > 0 \<Longrightarrow>
   nd_lastSent (snd (allow_notification k t d)) = (if due k t d then (nd_lastSent d)(k \<mapsto> t) else nd_lastSent d)"
  using nf.gate_pass [of k t d] nf.gate_block [of k t d] allow_due [of k t d]
  by (simp add: allow_notification_def)

section \<open>Dispatching\<close>

definition reached :: "notification \<Rightarrow> 'w sink list \<Rightarrow> 'w \<Rightarrow> 'w" where
  "reached n ss w = fold (\<lambda>s u. snd (sk_Notify s n u)) ss w"

lemma notify_each_world: "snd (notify_each n ss errs w) = reached n ss w"
  by (induction n ss errs w rule: notify_each.induct) (auto simp: reached_def split: option.splits prod.splits)

lemma notify_each_errs:
  "fst (notify_each n ss errs w) = [] \<longleftrightarrow>
   errs = [] \<and> (\<forall>i < length ss. fst (sk_Notify (ss ! i) n (reached n (take i ss) w)) = None)"
proof (induction ss arbitrary: errs w)
  case (Cons s ss)
  obtain e w1 where r: "sk_Notify s n w = (e, w1)" by force
  have "fst (notify_each n (s # ss) errs w) = [] \<longleftrightarrow>
      (errs = [] \<and> e = None) \<and> (\<forall>i < length ss. fst (sk_Notify (ss ! i) n (reached n (take i ss) w1)) = None)"
    using Cons.IH by (auto simp: r split: option.splits)
  moreover have "reached n (take (Suc i) (s # ss)) w = reached n (take i ss) w1" for i
    by (simp add: reached_def r)
  moreover have "reached n (take 0 (s # ss)) w = w" by (simp add: reached_def)
  ultimately show ?case by (simp add: All_less_Suc2 r)
qed simp

lemma dispatch_due:
  assumes "nd_sinks d \<noteq> []" "nd_minSeverity d \<le> nn_Severity n" "due (dedupKey n) t d"
  shows "Dispatch (Some d) n t w =
    (joined_errors (fst (notify_each n (nd_sinks d) [] w)), Some (snd (allow_notification (dedupKey n) t d)),
     reached n (nd_sinks d) w)"
  using assms allow_due [of "dedupKey n" t d] allow_keeps(1) [of "dedupKey n" t d]
    notify_each_world [of n "nd_sinks d" "[]" w]
  by (cases "allow_notification (dedupKey n) t d"; cases "notify_each n (nd_sinks d) [] w")
    (simp add: Dispatch_def Enabled_def)

lemma dispatch_quiet:
  assumes "nd_sinks d = [] \<or> nn_Severity n < nd_minSeverity d \<or> \<not> due (dedupKey n) t d"
  shows "Dispatch (Some d) n t w = (None, Some d, w)"
proof -
  have "snd (allow_notification k t d) = d" if "\<not> due k t d" for k
    using that allow_due [of k t d]
    by (auto simp: allow_notification_def allow_locked_def split: option.splits if_splits)
  from this [of "dedupKey n"] assms allow_due [of "dedupKey n" t d] show ?thesis
    by (cases "allow_notification (dedupKey n) t d") (auto simp: Dispatch_def Enabled_def)
qed

end
