(* ===== verification/Alert_Hook.thy ===== *)
theory Alert_Hook
  imports Notify Containment Kill_Switch Ticket_Desk
begin

text \<open>
  What the worker does with an alert: \<^verbatim>\<open>makeAlertHook\<close> of \<^verbatim>\<open>cmd/worker/main.go\<close> composes the kill
  recommender, the ban engine, the containment engine, the notification dispatcher and the ticket
  automation, and the properties of the notifications.
\<close>

section \<open>The hook\<close>

text \<open>
  All parts act on one world \<open>'w\<close>; the engines and the ticket raiser may be absent. The raiser is told
  whether the channels are on and returns the message it wants sent.
\<close>

record 'w alert_parts =
  ah_engine :: "'w engine option"
  ah_contain :: "'w containment_engine option"
  ah_raise :: "(bool \<Rightarrow> event \<Rightarrow> 'w \<Rightarrow> (string \<times> string) option \<times> 'w) option"

definition recommend_with :: "'w alert_parts \<Rightarrow> gotime \<Rightarrow> event \<Rightarrow> 'w \<Rightarrow> 'w" where
  "recommend_with h t ev w = (case ah_engine h of None \<Rightarrow> w | Some e \<Rightarrow> snd (Recommend e t (Some ev) w))"

definition contain_with :: "'w alert_parts \<Rightarrow> gotime \<Rightarrow> event \<Rightarrow> 'w \<Rightarrow> 'w" where
  "contain_with h t ev w = (case ah_contain h of None \<Rightarrow> w | Some e \<Rightarrow> snd (Evaluate e t (Some ev) w))"

fun route_entities :: "'w alert_parts \<Rightarrow> gotime \<Rightarrow> event \<Rightarrow> entity_type list \<Rightarrow> 'w \<Rightarrow> 'w" where
  "route_entities h t ev [] w = w"
| "route_entities h t ev (x # xs) w =
     route_entities h t ev xs
       (case x of
          EntityExternalIP \<Rightarrow> recommend_with h t ev w
        | EntityHost \<Rightarrow> contain_with h t ev w
        | _ \<Rightarrow> w)"

definition raise_with :: "'w alert_parts \<Rightarrow> 'w dispatcher option \<Rightarrow> event \<Rightarrow> 'w \<Rightarrow> 'w" where
  "raise_with h d ev w =
     (case ah_raise h of
        None \<Rightarrow> w
      | Some f \<Rightarrow>
          (case f (Enabled d) ev w of
             (None, w1) \<Rightarrow> w1
           | (Some (subj, body), w1) \<Rightarrow> snd (SendText d subj body w1)))"

definition makeAlertHook ::
    "'w alert_parts \<Rightarrow> gotime \<Rightarrow> event \<Rightarrow> 'w kill_recommender \<times> 'w dispatcher option \<times> 'w \<Rightarrow>
     'w kill_recommender \<times> 'w dispatcher option \<times> 'w" where
  "makeAlertHook h t ev s =
     (case s of (k, d, w) \<Rightarrow>
      (case KillEvaluate k t (Some ev) w of
         (_, k1, w1) \<Rightarrow>
           let w2 = route_entities h t ev (Entities (Some ev)) w1 in
           (case (if Enabled d then Dispatch d (FromEvent ev) t w2 else (None, d, w2)) of
              (_, d1, w3) \<Rightarrow> (k1, d1, raise_with h d1 ev w3))))"

section \<open>Facts\<close>

lemma recommend_no_source:
  "EntityExternalIP \<notin> set (Entities (Some ev)) \<Longrightarrow> recommend_with h t ev w = w"
  by (auto simp: recommend_with_def Recommend_def Entities_def Let_def split: option.splits if_splits)

lemma contain_no_agent:
  "EntityHost \<notin> set (Entities (Some ev)) \<Longrightarrow> contain_with h t ev w = w"
  by (auto simp: contain_with_def Evaluate_def Entities_def Let_def split: option.splits if_splits)

lemma route_append: "route_entities h t ev (xs @ ys) w = route_entities h t ev ys (route_entities h t ev xs w)"
  by (induction xs arbitrary: w) auto

lemma route_idle:
  "set xs \<subseteq> {EntityUser, EntityHash} \<Longrightarrow> route_entities h t ev xs w = w"
  by (induction xs) auto

lemma entities_split:
  obtains b where "Entities (Some ev) = (if EntityExternalIP \<in> set (Entities (Some ev)) then [EntityExternalIP] else []) @
      (if EntityHost \<in> set (Entities (Some ev)) then [EntityHost] else []) @ b" "set b \<subseteq> {EntityUser, EntityHash}"
proof -
  define a1 where "a1 = (case ev_Source ev of Some x \<Rightarrow> if ep_IP x \<noteq> [] then [EntityExternalIP] else [] | None \<Rightarrow> [])"
  define a2 where "a2 = (case ev_Agent ev of Some x \<Rightarrow> if agent_ID x \<noteq> [] then [EntityHost] else [] | None \<Rightarrow> [])"
  define b where "b = (case ev_User ev of Some x \<Rightarrow> if eu_Name x \<noteq> [] then [EntityUser] else [] | None \<Rightarrow> []) @
          (case ev_File ev of Some x \<Rightarrow> if file_HashSHA256 x \<noteq> [] then [EntityHash] else [] | None \<Rightarrow> [])"
  have e: "Entities (Some ev) = a1 @ a2 @ b" by (simp add: Entities_def a1_def a2_def b_def)
  have b: "set b \<subseteq> {EntityUser, EntityHash}" by (auto simp: b_def split: option.splits)
  have "a1 = [] \<or> a1 = [EntityExternalIP]" "a2 = [] \<or> a2 = [EntityHost]"
    by (auto simp: a1_def a2_def split: option.splits)
  then have "Entities (Some ev) = (if EntityExternalIP \<in> set (Entities (Some ev)) then [EntityExternalIP] else []) @
      (if EntityHost \<in> set (Entities (Some ev)) then [EntityHost] else []) @ b"
    unfolding e using b by (elim disjE) auto
  then show thesis using b that by blast
qed

lemma route_is_both:
  "route_entities h t ev (Entities (Some ev)) w = contain_with h t ev (recommend_with h t ev w)"
proof -
  let ?e = "Entities (Some ev)"
  obtain b where e: "?e = (if EntityExternalIP \<in> set ?e then [EntityExternalIP] else []) @
      (if EntityHost \<in> set ?e then [EntityHost] else []) @ b" and b: "set b \<subseteq> {EntityUser, EntityHash}"
    by (rule entities_split)
  show ?thesis
    by (subst e) (use recommend_no_source [of ev h t] contain_no_agent [of ev h t] in \<open>simp add: route_append route_idle [OF b]\<close>)
qed

end
