(* ===== verification/Notify_Props.thy ===== *)
theory Notify_Props
  imports Alert_Hook
begin

text \<open>
  The properties of the notifications: which alerts reach the channels, how far apart those of one key
  are, what the environment configures, and what the channels are sent.
\<close>

section \<open>Runs of the dispatcher\<close>

text \<open>Alerts dispatched at their times and reloads of the threshold, one after the other.\<close>

datatype notify_op = Send notification gotime | SetMin severity

fun notify_step :: "notify_op \<Rightarrow> 'w dispatcher option \<times> 'w \<Rightarrow> 'w dispatcher option \<times> 'w" where
  "notify_step (Send n t) (d, w) = snd (Dispatch d n t w)"
| "notify_step (SetMin s) (d, w) = (map_option (SetMinSeverity s) d, w)"

definition notify_run :: "notify_op list \<Rightarrow> 'w dispatcher option \<times> 'w \<Rightarrow> 'w dispatcher option \<times> 'w" where
  "notify_run ops s = fold notify_step ops s"

fun not_before :: "gotime \<Rightarrow> notify_op \<Rightarrow> bool" where
  "not_before t (Send n u) = (t \<le> u)"
| "not_before t (SetMin s) = True"

text \<open>A key was let through at \<open>t\<close> or later.\<close>

definition sent_since :: "string \<Rightarrow> gotime \<Rightarrow> duration \<Rightarrow> 'w dispatcher option \<Rightarrow> bool" where
  "sent_since key t thr d = (\<exists>x l. d = Some x \<and> nd_throttle x = thr \<and> nd_lastSent x key = Some l \<and> t \<le> l)"

lemma dispatch_active:
  assumes "nd_throttle d > 0" "Dispatch (Some d) n t w = (r, d', w')" "(r, w') \<noteq> (None, w)"
  shows "sent_since (dedupKey n) t (nd_throttle d) d'"
proof -
  have *: "nd_sinks d \<noteq> []" "nd_minSeverity d \<le> nn_Severity n" "due (dedupKey n) t d"
    using assms(2,3) dispatch_quiet [of d n t w] by force+
  from dispatch_due [OF this] assms(2) have "d' = Some (snd (allow_notification (dedupKey n) t d))" by simp
  with * assms(1) show ?thesis by (simp add: sent_since_def allow_keeps allow_lastSent)
qed

lemma dispatch_state:
  "fst (snd (Dispatch (Some d) n t w)) = Some d \<or>
   fst (snd (Dispatch (Some d) n t w)) = Some (snd (allow_notification (dedupKey n) t d))"
  using dispatch_due [of d n t w] dispatch_quiet [of d n t w] by (metis fst_conv not_le snd_conv)

lemma step_keeps_sent:
  assumes "sent_since key t thr (fst s)" "0 < thr" "not_before t a"
  shows "sent_since key t thr (fst (notify_step a s))"
proof (cases s)
  case (Pair d w)
  from assms(1) Pair obtain x l where x: "d = Some x" "nd_throttle x = thr" "nd_lastSent x key = Some l" "t \<le> l"
    by (auto simp: sent_since_def)
  show ?thesis
  proof (cases a)
    case (Send n u)
    with assms(3) have u: "t \<le> u" by simp
    let ?y = "snd (allow_notification (dedupKey n) u x)"
    have "sent_since key t thr (Some x)" using x by (auto simp: sent_since_def)
    moreover have "sent_since key t thr (Some ?y)"
      using x u assms(2) by (auto simp: sent_since_def allow_keeps allow_lastSent)
    ultimately show ?thesis using dispatch_state [of x n u w] by (auto simp: Pair Send x(1))
  qed (use Pair x in \<open>auto simp: sent_since_def SetMinSeverity_def\<close>)
qed

lemma run_keeps_sent:
  "sent_since key t thr (fst s) \<Longrightarrow> 0 < thr \<Longrightarrow> list_all (not_before t) ops \<Longrightarrow>
   sent_since key t thr (fst (notify_run ops s))"
  unfolding notify_run_def by (induction ops arbitrary: s) (auto simp: step_keeps_sent)

lemma sent_blocks:
  assumes "sent_since key t thr d" "0 < thr" "dedupKey n = key" "u - t < thr"
  shows "Dispatch d n u w = (None, d, w)"
proof -
  from assms(1) obtain x l where x: "d = Some x" "nd_throttle x = thr" "nd_lastSent x key = Some l" "t \<le> l"
    by (auto simp: sent_since_def)
  with assms(2,4) have "\<not> due (dedupKey n) u x" by (simp add: due_def assms(3))
  then show ?thesis by (simp add: x(1) dispatch_quiet)
qed

section \<open>The properties of the dispatcher\<close>

text \<open>
  C34: The throttle, with failures: once an alert was handed to the channels, no alert of the same rule, source
  address and file path is handed to them for the throttle interval, whatever is dispatched and however the
  threshold is changed in between. This includes the case that every channel failed: the failed notification
  is not repeated, since the time is recorded before the sinks are called.
\<close>

theorem notifications_spaced:
  assumes "nd_throttle d > 0"
    and "Dispatch (Some d) n t w = (r, d1, w1)" "(r, w1) \<noteq> (None, w)"
    and "list_all (not_before t) ops" "notify_run ops (d1, w1) = (d2, w2)"
    and "dedupKey n' = dedupKey n" "t' - t < nd_throttle d"
  shows "Dispatch d2 n' t' w2 = (None, d2, w2)"
proof -
  have "sent_since (dedupKey n) t (nd_throttle d) (fst (d1, w1))"
    using dispatch_active [OF assms(1-3)] by simp
  from run_keeps_sent [OF this assms(1,4)] have "sent_since (dedupKey n) t (nd_throttle d) d2"
    by (simp add: assms(5))
  from sent_blocks [OF this assms(1,6,7)] show ?thesis .
qed

text \<open>A channel that is down, and one that counts what it is sent.\<close>

definition dead_sink :: "nat sink" where
  "dead_sink = \<lparr>sk_Name = ''webhook'', sk_Notify = (\<lambda>n w. (Some ''timeout'', w)), sk_NotifyText = None\<rparr>"

definition counting_sink :: "nat sink" where
  "counting_sink = \<lparr>sk_Name = ''telegram'', sk_Notify = (\<lambda>n w. (None, Suc w)),
     sk_NotifyText = Some (\<lambda>subj body w. (None, Suc w))\<rparr>"

definition demo_alert :: "string \<Rightarrow> event" where
  "demo_alert g = empty_event\<lparr>ev_Event := (ev_Event empty_event)\<lparr>ef_Severity := 4\<rparr>,
     ev_Rule := Some \<lparr>er_ID = ''fim-1'', er_Name = ''Critical file changed''\<rparr>,
     ev_File := Some \<lparr>file_Path = ''/etc/shadow'', file_HashSHA256 = [], file_Owner = [], file_Mode = [], file_Diff = []\<rparr>,
     ev_Agent := Some \<lparr>agent_ID = g, agent_Version = []\<rparr>\<rparr>"

theorem notifications_spaced_witness:
  "Dispatch (Some (NewDispatcher 3 600 [dead_sink])) (FromEvent (demo_alert ''web-1'')) 1000 (0::nat) =
     (Some ''notify: webhook: timeout'', Some ((NewDispatcher 3 600 [dead_sink])
        \<lparr>nd_lastSent := [dedupKey (FromEvent (demo_alert ''web-1'')) \<mapsto> 1000]\<rparr>), 0) \<and>
   Dispatch (Some ((NewDispatcher 3 600 [dead_sink])
        \<lparr>nd_lastSent := [dedupKey (FromEvent (demo_alert ''web-1'')) \<mapsto> 1000]\<rparr>)) (FromEvent (demo_alert ''web-1'')) 1500 0 =
     (None, Some ((NewDispatcher 3 600 [dead_sink])
        \<lparr>nd_lastSent := [dedupKey (FromEvent (demo_alert ''web-1'')) \<mapsto> 1000]\<rparr>), 0)"
    (is "?A \<and> ?B")
proof -
  have a: ?A
    by (simp add: Dispatch_def NewDispatcher_def Enabled_def allow_notification_def allow_locked_def dead_sink_def
        joined_errors_def FromEvent_def demo_alert_def Let_def)
  have thr: "nd_throttle (NewDispatcher 3 600 [dead_sink]) = 600" by (simp add: NewDispatcher_def)
  from notifications_spaced [OF _ a, of "[]"] have ?B by (simp add: thr notify_run_def)
  with a show ?thesis by blast
qed

text \<open>
  Which alerts are sent: with a channel configured, an alert at or above the threshold whose key was not
  let through within the throttle interval is handed to every sink in their order, a failing sink stopping
  none of those after it, and the result is an error exactly when some sink failed; any other alert leaves
  the channels and the dispatcher as they were and is no error.
\<close>

theorem dispatch_reaches_every_sink:
  "if nd_sinks d \<noteq> [] \<and> nd_minSeverity d \<le> nn_Severity n \<and> due (dedupKey n) t d
   then snd (snd (Dispatch (Some d) n t w)) = fold (\<lambda>s u. snd (sk_Notify s n u)) (nd_sinks d) w \<and>
        (fst (Dispatch (Some d) n t w) = None) =
          (\<forall>i < length (nd_sinks d).
             fst (sk_Notify (nd_sinks d ! i) n (fold (\<lambda>s u. snd (sk_Notify s n u)) (take i (nd_sinks d)) w)) = None)
   else Dispatch (Some d) n t w = (None, Some d, w)"
proof (cases "nd_sinks d \<noteq> [] \<and> nd_minSeverity d \<le> nn_Severity n \<and> due (dedupKey n) t d")
  case True
  with dispatch_due [of d n t w] notify_each_errs [of n "nd_sinks d" "[]" w] show ?thesis
    by (simp add: joined_errors_def reached_def)
qed (auto simp: dispatch_quiet)

text \<open>
  C35: The throttle key has no host: when an alert was handed to the channels, the same rule firing for the same
  file and the same source address on another agent within the interval is not announced at all.
\<close>

theorem other_host_unannounced:
  assumes "nd_throttle d > 0"
    and "Dispatch (Some d) (FromEvent ev) t w = (r, d1, w1)" "(r, w1) \<noteq> (None, w)"
    and "ev_Rule ev' = ev_Rule ev" "ev_Source ev' = ev_Source ev"
    and "map_option file_Path (ev_File ev') = map_option file_Path (ev_File ev)"
    and "t' - t < nd_throttle d"
  shows "Dispatch d1 (FromEvent ev') t' w2 = (None, d1, w2)"
proof -
  have p: "(case f of None \<Rightarrow> [] | Some x \<Rightarrow> file_Path x) = (case map_option file_Path f of None \<Rightarrow> [] | Some x \<Rightarrow> x)" for f
    by (cases f) simp_all
  have "dedupKey (FromEvent ev') = dedupKey (FromEvent ev)"
    using assms(4-6) by (simp add: dedupKey_def FromEvent_def Let_def p)
  from sent_blocks [OF dispatch_active [OF assms(1-3)] assms(1) this assms(7)] show ?thesis .
qed

theorem other_host_unannounced_witness:
  "snd (snd (Dispatch (Some (NewDispatcher 3 600 [counting_sink])) (FromEvent (demo_alert ''web-1'')) 1000 0)) = 1 \<and>
   (let d1 = fst (snd (Dispatch (Some (NewDispatcher 3 600 [counting_sink])) (FromEvent (demo_alert ''web-1'')) 1000 0))
    in Dispatch d1 (FromEvent (demo_alert ''web-2'')) 1001 1 = (None, d1, 1))"
proof -
  let ?d = "NewDispatcher 3 600 [counting_sink]"
  let ?x = "Dispatch (Some ?d) (FromEvent (demo_alert ''web-1'')) 1000 0"
  have a: "snd (snd ?x) = 1"
    by (simp add: Dispatch_def NewDispatcher_def Enabled_def allow_notification_def allow_locked_def counting_sink_def
        FromEvent_def demo_alert_def Let_def)
  have x: "?x = (fst ?x, fst (snd ?x), snd (snd ?x))" by simp
  have "Dispatch (fst (snd ?x)) (FromEvent (demo_alert ''web-2'')) 1001 1 = (None, fst (snd ?x), 1)"
  proof (rule other_host_unannounced [OF _ x])
    show "(fst ?x, snd (snd ?x)) \<noteq> (None, 0)" by (simp only: a prod.inject) simp
  qed (simp_all add: NewDispatcher_def demo_alert_def)
  with a show ?thesis by (simp add: Let_def)
qed

section \<open>The hook of the worker\<close>

text \<open>
  C36: Routing by the decision table changes nothing: for every alert the hook runs the kill recommender, then
  the ban engine and the containment engine exactly as if both were called unconditionally, then the
  dispatcher, then the ticket automation, each on what the one before left, whatever result they return.
\<close>

theorem alert_routing_exact:
  "makeAlertHook h t ev (k, d, w) =
     (let w1 = snd (snd (KillEvaluate k t (Some ev) w));
          w2 = (case ah_engine h of None \<Rightarrow> w1 | Some e \<Rightarrow> snd (Recommend e t (Some ev) w1));
          w3 = (case ah_contain h of None \<Rightarrow> w2 | Some e \<Rightarrow> snd (Evaluate e t (Some ev) w2));
          d' = fst (snd (Dispatch d (FromEvent ev) t w3));
          w4 = snd (snd (Dispatch d (FromEvent ev) t w3))
      in (fst (snd (KillEvaluate k t (Some ev) w)), d', raise_with h d' ev w4))"
proof -
  obtain r k1 w1 where k: "KillEvaluate k t (Some ev) w = (r, k1, w1)" by (metis prod_cases3)
  have off: "Dispatch d n t u = (None, d, u)" if "\<not> Enabled d" for n u
    using that by (cases d) (simp_all add: Dispatch_def)
  show ?thesis
    by (cases "Enabled d")
      (simp_all add: makeAlertHook_def k route_is_both off recommend_with_def contain_with_def Let_def split: prod.split)
qed

section \<open>The environment\<close>

lemma min_severity_range: "severity_Valid (minSeverityFromEnv v)"
  by (simp add: minSeverityFromEnv_def severity_Valid_def severity_defs Let_def)

text \<open>
  The dispatcher built from the environment: there is one exactly when at least one channel is fully
  configured, it is then enabled, has each channel at most once in the order telegram, webhook, email, one
  of the five severities as threshold, and nothing sent yet.
\<close>

theorem dispatcher_from_env:
  "case DispatcherFromEnv post send env of
     (None, ok) \<Rightarrow> \<not> ok \<and> sinks_from_env post send env = []
   | (Some d, ok) \<Rightarrow> ok \<and> Enabled (Some d) \<and> severity_Valid (nd_minSeverity d) \<and> nd_lastSent d = Map.empty \<and>
       SinkNames d =
         (if env ''TELEGRAM_BOT_TOKEN'' \<noteq> [] \<and> env ''TELEGRAM_CHAT_ID'' \<noteq> [] then [''telegram''] else []) @
         (if env ''WEBHOOK_URL'' \<noteq> [] then [''webhook''] else []) @
         (if env ''SMTP_HOST'' \<noteq> [] \<and> env ''SMTP_FROM'' \<noteq> [] \<and> splitCSV (env ''SMTP_TO'') \<noteq> [] then [''email''] else [])"
  by (simp add: DispatcherFromEnv_def Let_def NewDispatcher_def Enabled_def min_severity_range SinkNames_def)
    (simp add: sinks_from_env_def NewTelegramNotifier_def NewWebhookNotifier_def NewEmailNotifier_def)

section \<open>The text of a message\<close>

lemma telegram_text_length: "length (telegram_text x) \<le> 3915"
  by (simp add: telegram_text_def truncation_mark_def nl_def)

text \<open>\<^verbatim>\<open>utf8.ValidString\<close>: the continuation bytes a first byte asks for, and the range of the first of them.\<close>

definition utf8_head :: "nat \<Rightarrow> (nat \<times> nat \<times> nat) option" where
  "utf8_head n =
     (if n < 0x80 then Some (0, 0, 0)
      else if 0xC2 \<le> n \<and> n \<le> 0xDF then Some (1, 0x80, 0xBF)
      else if n = 0xE0 then Some (2, 0xA0, 0xBF)
      else if n = 0xED then Some (2, 0x80, 0x9F)
      else if 0xE1 \<le> n \<and> n \<le> 0xEF then Some (2, 0x80, 0xBF)
      else if n = 0xF0 then Some (3, 0x90, 0xBF)
      else if 0xF1 \<le> n \<and> n \<le> 0xF3 then Some (3, 0x80, 0xBF)
      else if n = 0xF4 then Some (3, 0x80, 0x8F)
      else None)"

fun utf8_valid_from :: "nat list \<Rightarrow> nat \<Rightarrow> string \<Rightarrow> bool" where
  "utf8_valid_from acc need [] = (need = 0)"
| "utf8_valid_from rng need (c # s) =
     (let n = (of_char c :: nat) in
      if need = 0 then
        (case utf8_head n of None \<Rightarrow> False | Some (k, lo, hi) \<Rightarrow> utf8_valid_from [lo, hi] k s)
      else rng ! 0 \<le> n \<and> n \<le> rng ! 1 \<and> utf8_valid_from [0x80, 0xBF] (need - 1) s)"

definition utf8_valid :: "string \<Rightarrow> bool" where
  "utf8_valid s = utf8_valid_from [] 0 s"

lemma utf8_ascii_prefix: "\<forall>c \<in> set p. (of_char c :: nat) < 0x80 \<Longrightarrow> utf8_valid (p @ s) = utf8_valid s"
  unfolding utf8_valid_def
proof (induction p)
  case (Cons c p)
  have "utf8_valid_from [0, 0] 0 u = utf8_valid_from [] 0 u" for u by (cases u) simp_all
  with Cons show ?case by (simp add: utf8_head_def)
qed simp

text \<open>
  The truncation of a long text counts bytes, not characters: there is a well-formed UTF-8 report whose
  text as posted to Telegram is not well-formed, its last character being cut in two.
\<close>

theorem telegram_cuts_characters:
  "\<exists>report. utf8_valid report \<and>
     (case the (sk_NotifyText (NewTelegramNotifier (\<lambda>url b w. (Inr 200, Some b)) token chat)) [] report None of
        (None, Some (Form ps)) \<Rightarrow> \<not> utf8_valid (the (map_of ps ''text''))
      | _ \<Rightarrow> False)"
proof (intro exI conjI)
  let ?p = "replicate 3899 CHR ''a''" and ?dots = "[CHR 0xE2, CHR 0x80, CHR 0xA6]"
  show "utf8_valid (?p @ ?dots)"
    by (subst utf8_ascii_prefix) (simp_all add: utf8_valid_def utf8_head_def)
  have "telegram_text (?p @ ?dots) = ?p @ (CHR 0xE2 # truncation_mark)"
    by (simp add: telegram_text_def)
  moreover have "\<not> utf8_valid (?p @ (CHR 0xE2 # truncation_mark))"
    by (subst utf8_ascii_prefix) (simp_all add: utf8_valid_def utf8_head_def truncation_mark_def nl_def)
  ultimately show "case the (sk_NotifyText (NewTelegramNotifier (\<lambda>url b w. (Inr 200, Some b)) token chat)) []
      (?p @ ?dots) None of (None, Some (Form ps)) \<Rightarrow> \<not> utf8_valid (the (map_of ps ''text'')) | _ \<Rightarrow> False"
    by (simp add: NewTelegramNotifier_def telegram_sendText_def)
qed

end
