(* ===== verification/Agent_Tail.thy ===== *)
theory Agent_Tail
  imports Prelude
begin

text \<open>
  The file tailer of the agent, \<^verbatim>\<open>FollowFile\<close> of \<^verbatim>\<open>internal/agent/tail.go\<close>, and the file sources of
  \<^verbatim>\<open>internal/agent/collector.go\<close>. The tailer runs beside the programs that write and rotate the log, so
  it is a state with one step per system call, interleaved with the steps of the file system. A file is
  an inode with its bytes; the path names one inode or none, and an open file is read whatever the path
  names by then.
\<close>

section \<open>The file system\<close>

type_synonym inode = nat

record log_fs =
  fs_path :: "inode option"
  fs_data :: "inode \<Rightarrow> string"
  fs_next :: inode
  fs_denied :: bool

text \<open>What writers and log rotation do. A new file gets an inode that was never used.\<close>

datatype fs_op = FsAppend inode string | FsRename | FsCreate | FsTruncate inode | FsDeny bool

fun fs_step :: "fs_op \<Rightarrow> log_fs \<Rightarrow> log_fs" where
  "fs_step (FsAppend i s) fs = fs\<lparr>fs_data := (fs_data fs)(i := fs_data fs i @ s)\<rparr>"
| "fs_step FsRename fs = fs\<lparr>fs_path := None\<rparr>"
| "fs_step FsCreate fs =
     fs\<lparr>fs_path := Some (fs_next fs), fs_data := (fs_data fs)(fs_next fs := []), fs_next := fs_next fs + 1\<rparr>"
| "fs_step (FsTruncate i) fs = fs\<lparr>fs_data := (fs_data fs)(i := [])\<rparr>"
| "fs_step (FsDeny b) fs = fs\<lparr>fs_denied := b\<rparr>"

section \<open>The tailer\<close>

datatype tail_error = OpenDenied

datatype tail_phase =
    Opening bool
  | Reading
  | AtEOF
  | Stopped "tail_error option"

text \<open>
  The open file and the position of its descriptor, the bytes the buffered reader holds, the offset of
  what was returned, and the lines sent, in order.
\<close>

record tailer =
  tl_phase :: tail_phase
  tl_inode :: inode
  tl_pos :: nat
  tl_buf :: string
  tl_offset :: nat
  tl_out :: "string list"

definition is_eol :: "char \<Rightarrow> bool" where
  "is_eol c = (c = CHR 0x0D \<or> c = CHR 0x0A)"

definition trim_eol :: "string \<Rightarrow> string" where
  "trim_eol s = rev (dropWhile is_eol (rev s))"

definition start_tailer :: "bool \<Rightarrow> tailer" where
  "start_tailer fromStart =
     \<lparr>tl_phase = Opening (\<not> fromStart), tl_inode = 0, tl_pos = 0, tl_buf = [], tl_offset = 0, tl_out = []\<rparr>"

text \<open>\<^verbatim>\<open>openFollow\<close>, one attempt: a missing file is waited for, and then read from its start.\<close>

definition openFollow :: "log_fs \<Rightarrow> bool \<Rightarrow> tailer \<Rightarrow> tailer" where
  "openFollow fs seekEnd t =
     (if fs_denied fs then t\<lparr>tl_phase := Stopped (Some OpenDenied)\<rparr>
      else case fs_path fs of
        None \<Rightarrow> t\<lparr>tl_phase := Opening False\<rparr>
      | Some i \<Rightarrow>
          let off = (if seekEnd then length (fs_data fs i) else 0) in
          t\<lparr>tl_phase := Reading, tl_inode := i, tl_pos := off, tl_buf := [], tl_offset := off\<rparr>)"

text \<open>A line that was read: counted, and sent unless nothing but line ends is in it.\<close>

definition got_line :: "string \<Rightarrow> tailer \<Rightarrow> tailer" where
  "got_line line t =
     (if line = [] then t
      else let t1 = t\<lparr>tl_offset := tl_offset t + length line\<rparr>; trimmed = trim_eol line
           in if trimmed = [] then t1 else t1\<lparr>tl_out := tl_out t1 @ [trimmed]\<rparr>)"

definition unread :: "log_fs \<Rightarrow> tailer \<Rightarrow> string" where
  "unread fs t = drop (tl_pos t) (fs_data fs (tl_inode t))"

text \<open>
  One step inside \<^verbatim>\<open>ReadString('\n')\<close>: a complete line in the buffer is returned; otherwise up to \<open>n\<close>
  bytes are read; at the end of the file the rest of the buffer is returned with the error \<^verbatim>\<open>io.EOF\<close>.
\<close>

definition read_step :: "nat \<Rightarrow> log_fs \<Rightarrow> tailer \<Rightarrow> tailer" where
  "read_step n fs t =
     (case index_byte (tl_buf t) (CHR 0x0A) of
        Some k \<Rightarrow> (got_line (take (k + 1) (tl_buf t)) t)\<lparr>tl_buf := drop (k + 1) (tl_buf t)\<rparr>
      | None \<Rightarrow>
          (let chunk = take n (unread fs t) in
           if chunk \<noteq> [] then t\<lparr>tl_pos := tl_pos t + length chunk, tl_buf := tl_buf t @ chunk\<rparr>
           else (got_line (tl_buf t) t)\<lparr>tl_buf := [], tl_phase := AtEOF\<rparr>))"

datatype path_state = PathSame | PathRotated | PathTruncated

definition classifyPath :: "log_fs \<Rightarrow> inode \<Rightarrow> nat \<Rightarrow> path_state" where
  "classifyPath fs openIno offset =
     (if fs_denied fs then PathSame
      else case fs_path fs of
        None \<Rightarrow> PathSame
      | Some cur \<Rightarrow>
          if cur \<noteq> openIno then PathRotated
          else if length (fs_data fs cur) < offset then PathTruncated
          else PathSame)"

definition eof_step :: "log_fs \<Rightarrow> tailer \<Rightarrow> tailer" where
  "eof_step fs t =
     (case classifyPath fs (tl_inode t) (tl_offset t) of
        PathRotated \<Rightarrow> t\<lparr>tl_phase := Opening False\<rparr>
      | PathTruncated \<Rightarrow> t\<lparr>tl_phase := Reading, tl_pos := 0, tl_buf := [], tl_offset := 0\<rparr>
      | PathSame \<Rightarrow> t\<lparr>tl_phase := Reading\<rparr>)"

text \<open>One step of \<^verbatim>\<open>FollowFile\<close>, \<open>n\<close> the most a read may return, and its end by the context.\<close>

definition follow_step :: "nat \<Rightarrow> log_fs \<Rightarrow> tailer \<Rightarrow> tailer" where
  "follow_step n fs t =
     (case tl_phase t of
        Opening seekEnd \<Rightarrow> openFollow fs seekEnd t
      | Reading \<Rightarrow> read_step n fs t
      | AtEOF \<Rightarrow> eof_step fs t
      | Stopped e \<Rightarrow> t)"

definition cancel :: "tailer \<Rightarrow> tailer" where
  "cancel t = (case tl_phase t of Stopped e \<Rightarrow> t | _ \<Rightarrow> t\<lparr>tl_phase := Stopped None\<rparr>)"

section \<open>Draining the file\<close>

text \<open>The reads from one wait to the next, on a file nobody touches meanwhile.\<close>

definition backlog :: "log_fs \<Rightarrow> tailer \<Rightarrow> nat" where
  "backlog fs t = 2 * length (unread fs t) + length (tl_buf t)"

lemma index_byte_split: "index_byte s d = Some k \<Longrightarrow> k < length s \<and> s ! k = d \<and> d \<notin> set (take k s)"
  by (induction s arbitrary: k) (fastforce split: if_splits)+

lemma index_byte_none: "index_byte s d = None \<longleftrightarrow> d \<notin> set s"
  by (induction s) auto

lemma got_line_keeps [simp]:
  "tl_phase (got_line l t) = tl_phase t" "tl_inode (got_line l t) = tl_inode t" "tl_pos (got_line l t) = tl_pos t"
  "tl_buf (got_line l t) = tl_buf t" "tl_offset (got_line l t) = tl_offset t + length l"
  by (simp_all add: got_line_def Let_def)

lemma read_step_backlog:
  assumes "0 < n" "tl_phase (read_step n fs t) \<noteq> AtEOF"
  shows "backlog fs (read_step n fs t) < backlog fs t"
proof (cases "index_byte (tl_buf t) (CHR 0x0A)")
  case (Some k)
  with index_byte_split [OF this] show ?thesis by (simp add: read_step_def backlog_def unread_def) linarith
next
  case None
  with assms have "take n (unread fs t) \<noteq> []" by (auto simp: read_step_def Let_def)
  then have "0 < n" "tl_pos t < length (fs_data fs (tl_inode t))" by (auto simp: unread_def)
  then show ?thesis using None by (auto simp: read_step_def backlog_def unread_def Let_def min_def)
qed

function drain_file :: "nat \<Rightarrow> log_fs \<Rightarrow> tailer \<Rightarrow> tailer" where
  "drain_file n fs t =
     (if n = 0 then t
      else let t1 = read_step n fs t in if tl_phase t1 = AtEOF then t1 else drain_file n fs t1)"
  by auto
termination by (relation "measure (\<lambda>(n, fs, t). backlog fs t)") (auto simp: read_step_backlog)

declare drain_file.simps [simp del]

section \<open>File sources\<close>

text \<open>
  \<^verbatim>\<open>followFileSource\<close> when the tailer has ended: the lines that went on with the dataset, and the result,
  which drops the error of \<^verbatim>\<open>FollowFile\<close>.
\<close>

record log_line =
  ln_Dataset :: string
  ln_Message :: string

definition followFileSource :: "string \<Rightarrow> tailer \<Rightarrow> (log_line list \<times> tail_error option) option" where
  "followFileSource dataset t =
     (case tl_phase t of
        Stopped e \<Rightarrow> Some (map (\<lambda>l. \<lparr>ln_Dataset = dataset, ln_Message = l\<rparr>) (tl_out t), None)
      | _ \<Rightarrow> None)"

end
