(* ===== verification/Agent_Tail_Props.thy ===== *)
theory Agent_Tail_Props
  imports Agent_Tail
begin

text \<open>
  The properties of the tailer: it drains a file in finitely many reads and sends exactly its lines;
  under rotation by rename and create, with writers that write whole lines to the named file, it sends
  every line once and in order; and the cases in which it does not.
\<close>

section \<open>The lines of a text\<close>

definition log_lines :: "string \<Rightarrow> string list" where
  "log_lines s = [l \<leftarrow> map trim_eol (split_char (CHR 0x0A) s). l \<noteq> []]"

lemma split_char_at: "split_char d (a @ d # b) = split_char d a @ split_char d b"
proof (induction a)
  case (Cons c a)
  have "split_char d a \<noteq> []" by (cases a) (auto split: list.splits)
  with Cons show ?case by (auto split: list.splits)
qed simp

lemma split_char_none: "d \<notin> set s \<Longrightarrow> split_char d s = [s]"
  by (induction s) auto

lemma trim_eol_nil [simp]: "trim_eol [] = []"
  by (simp add: trim_eol_def)

lemma trim_eol_newline [simp]: "trim_eol (s @ [CHR 0x0A]) = trim_eol s"
  by (simp add: trim_eol_def is_eol_def)

lemma log_lines_at: "log_lines (a @ CHR 0x0A # b) = log_lines a @ log_lines b"
  by (simp add: log_lines_def split_char_at)

lemma log_lines_nil [simp]: "log_lines [] = []"
  by (simp add: log_lines_def)

lemma log_lines_one: "CHR 0x0A \<notin> set s \<Longrightarrow> log_lines s = (if trim_eol s = [] then [] else [trim_eol s])"
  by (simp add: log_lines_def split_char_none)

text \<open>The texts that stop at the end of a line.\<close>

definition whole :: "string \<Rightarrow> bool" where
  "whole s = (s = [] \<or> last s = CHR 0x0A)"

lemma whole_append: "whole a \<Longrightarrow> whole b \<Longrightarrow> whole (a @ b)"
  by (auto simp: whole_def last_append)

lemma whole_tail: "whole (a @ b) \<Longrightarrow> whole b"
  by (auto simp: whole_def last_append split: if_splits)

lemma whole_no_newline: "whole s \<Longrightarrow> CHR 0x0A \<notin> set s \<Longrightarrow> s = []"
  by (auto simp: whole_def) (metis last_in_set)

lemma log_lines_append: "whole a \<Longrightarrow> log_lines (a @ b) = log_lines a @ log_lines b"
proof -
  assume "whole a"
  then consider "a = []" | c where "a = c @ [CHR 0x0A]" by (auto simp: whole_def) (metis append_butlast_last_id)
  then show ?thesis by cases (simp_all add: log_lines_at log_lines_at [of _ "[]", simplified])
qed

section \<open>One read\<close>

lemma got_line_out:
  "tl_out (got_line l t) = tl_out t @ (if trim_eol l = [] then [] else [trim_eol l])"
  by (simp add: got_line_def Let_def)

lemma read_step_none:
  assumes "index_byte (tl_buf t) (CHR 0x0A) = None"
  shows "read_step n fs t =
    (if take n (unread fs t) = [] then (got_line (tl_buf t) t)\<lparr>tl_buf := [], tl_phase := AtEOF\<rparr>
     else t\<lparr>tl_pos := tl_pos t + length (take n (unread fs t)), tl_buf := tl_buf t @ take n (unread fs t)\<rparr>)"
  using assms by (simp add: read_step_def Let_def del: take_eq_Nil)

text \<open>A read that is not at the end of the file: the bytes to come and the lines sent stay together.\<close>

lemma read_step_more:
  assumes "tl_phase t = Reading" "tl_phase (read_step n fs t) \<noteq> AtEOF"
  shows "\<exists>l. whole l \<and> tl_buf t @ unread fs t = l @ tl_buf (read_step n fs t) @ unread fs (read_step n fs t) \<and>
    tl_out (read_step n fs t) = tl_out t @ log_lines l \<and> tl_phase (read_step n fs t) = Reading \<and>
    tl_inode (read_step n fs t) = tl_inode t \<and> tl_offset (read_step n fs t) = tl_offset t + length l"
proof (cases "index_byte (tl_buf t) (CHR 0x0A)")
  case (Some k)
  note k = index_byte_split [OF Some]
  define l where "l = take (k + 1) (tl_buf t)"
  have l: "l = take k (tl_buf t) @ [CHR 0x0A]" using k by (simp add: l_def take_Suc_conv_app_nth)
  have "log_lines l = (if trim_eol l = [] then [] else [trim_eol l])"
    using k by (simp only: l log_lines_at [of _ "[]", simplified] trim_eol_newline log_lines_one append_Nil2 simp_thms
        log_lines_nil)
  moreover have "whole l" by (simp add: l whole_def)
  moreover have "read_step n fs t = (got_line l t)\<lparr>tl_buf := drop (k + 1) (tl_buf t)\<rparr>"
    by (simp add: read_step_def Some l_def)
  moreover have "tl_buf t = l @ drop (k + 1) (tl_buf t)" by (simp add: l_def)
  ultimately show ?thesis using assms(1)
    by (intro exI [of _ l]) (simp add: unread_def got_line_out)
next
  case None
  let ?c = "take n (unread fs t)"
  from assms(2) have ne: "?c \<noteq> []" by (cases "?c = []") (simp_all add: read_step_none [OF None] del: take_eq_Nil)
  have r: "read_step n fs t = t\<lparr>tl_pos := tl_pos t + length ?c, tl_buf := tl_buf t @ ?c\<rparr>"
    by (simp only: read_step_none [OF None] ne if_False)
  have "unread fs t = ?c @ unread fs (read_step n fs t)"
    unfolding r by (simp add: unread_def) (metis add.commute append_take_drop_id drop_drop drop_take length_drop
        linorder_le_cases min.absorb1 min.absorb2 take_all)
  then show ?thesis using assms(1) by (intro exI [of _ "[]"]) (simp add: r whole_def)
qed

lemma read_step_eof:
  assumes "0 < n" "tl_phase t = Reading" "tl_phase (read_step n fs t) = AtEOF"
  shows "unread fs t = [] \<and> CHR 0x0A \<notin> set (tl_buf t) \<and> tl_buf (read_step n fs t) = [] \<and>
    tl_out (read_step n fs t) = tl_out t @ log_lines (tl_buf t) \<and> tl_inode (read_step n fs t) = tl_inode t \<and>
    tl_pos (read_step n fs t) = tl_pos t \<and> tl_offset (read_step n fs t) = tl_offset t + length (tl_buf t)"
proof -
  have none: "index_byte (tl_buf t) (CHR 0x0A) = None"
    using assms by (cases "index_byte (tl_buf t) (CHR 0x0A)") (auto simp: read_step_def)
  have "take n (unread fs t) = []"
    using assms(2,3) by (cases "take n (unread fs t) = []") (simp_all add: read_step_none [OF none] del: take_eq_Nil)
  then have "unread fs t = []" using assms(1) by simp
  moreover have "CHR 0x0A \<notin> set (tl_buf t)" using none by (simp add: index_byte_none)
  ultimately show ?thesis by (simp add: read_step_none [OF none] got_line_out log_lines_one)
qed

section \<open>Draining\<close>

lemma drain_lines:
  assumes "0 < n" "tl_phase t = Reading"
  shows "tl_phase (drain_file n fs t) = AtEOF \<and> tl_buf (drain_file n fs t) = [] \<and> unread fs (drain_file n fs t) = [] \<and>
    tl_out (drain_file n fs t) = tl_out t @ log_lines (tl_buf t @ unread fs t) \<and>
    tl_inode (drain_file n fs t) = tl_inode t \<and> tl_offset (drain_file n fs t) = tl_offset t + length (tl_buf t @ unread fs t) \<and>
    (\<exists>k \<le> backlog fs t + 1. (read_step n fs ^^ k) t = drain_file n fs t)"
  using assms
proof (induction n fs t rule: drain_file.induct)
  case (1 n fs t)
  let ?u = "read_step n fs t"
  show ?case
  proof (cases "tl_phase ?u = AtEOF")
    case True
    from read_step_eof [OF 1(2,3) True] True have
      "drain_file n fs t = ?u" "unread fs ?u = []" using 1(2) by (auto simp: drain_file.simps unread_def)
    with read_step_eof [OF 1(2,3) True] True show ?thesis
      by (auto intro!: exI [of _ 1])
  next
    case False
    from read_step_more [OF 1(3) False] obtain l where l: "whole l" "tl_buf t @ unread fs t = l @ tl_buf ?u @ unread fs ?u"
      "tl_out ?u = tl_out t @ log_lines l" "tl_phase ?u = Reading" "tl_inode ?u = tl_inode t"
      "tl_offset ?u = tl_offset t + length l" by blast
    have d: "drain_file n fs t = drain_file n fs ?u" using False 1(2) by (simp add: drain_file.simps [of n fs t])
    from 1(1) [OF _ refl False 1(2) l(4)] 1(2)
    have ih: "tl_phase (drain_file n fs ?u) = AtEOF" "tl_buf (drain_file n fs ?u) = []" "unread fs (drain_file n fs ?u) = []"
      "tl_out (drain_file n fs ?u) = tl_out ?u @ log_lines (tl_buf ?u @ unread fs ?u)"
      "tl_inode (drain_file n fs ?u) = tl_inode ?u" "tl_offset (drain_file n fs ?u) = tl_offset ?u + length (tl_buf ?u @ unread fs ?u)"
      and "\<exists>k \<le> backlog fs ?u + 1. (read_step n fs ^^ k) ?u = drain_file n fs ?u" by blast+
    from this(7) obtain k where k: "k \<le> backlog fs ?u + 1" "(read_step n fs ^^ k) ?u = drain_file n fs ?u" by blast
    have "Suc k \<le> backlog fs t + 1" "(read_step n fs ^^ Suc k) t = drain_file n fs ?u"
      using k read_step_backlog [OF 1(2) False] by (simp_all add: funpow_Suc_right del: funpow.simps)
    then have "\<exists>k \<le> backlog fs t + 1. (read_step n fs ^^ k) t = drain_file n fs ?u" by blast
    moreover have "log_lines (tl_buf t @ unread fs t) = log_lines l @ log_lines (tl_buf ?u @ unread fs ?u)"
      by (simp only: l(2) log_lines_append [OF l(1)])
    ultimately show ?thesis using ih l(3,5,6) unfolding d l(2) by simp
  qed
qed

section \<open>Rotation by rename and create\<close>

text \<open>
  A log, its tailer and all that was ever written to the log. Writers append whole lines to the file the path
  names; the file is renamed when the tailer follows it, and not between its last read and its check of the
  path with bytes left to read; a new file is created when there is none.
\<close>

inductive log_step :: "log_fs \<times> tailer \<times> string \<Rightarrow> log_fs \<times> tailer \<times> string \<Rightarrow> bool" where
  append: "fs_path fs = Some i \<Longrightarrow> whole s \<Longrightarrow> log_step (fs, t, w) (fs_step (FsAppend i s) fs, t, w @ s)"
| rename: "fs_path fs = Some (tl_inode t) \<Longrightarrow> tl_phase t = Reading \<or> tl_phase t = AtEOF \<and> unread fs t = [] \<Longrightarrow>
     log_step (fs, t, w) (fs_step FsRename fs, t, w)"
| create: "fs_path fs = None \<Longrightarrow> log_step (fs, t, w) (fs_step FsCreate fs, t, w)"
| follow: "0 < n \<Longrightarrow> log_step (fs, t, w) (fs, follow_step n fs t, w)"

inductive_cases log_stepE: "log_step s s'"

definition log_start :: "log_fs \<times> tailer \<times> string \<Rightarrow> bool" where
  "log_start s = (case s of (fs, t, w) \<Rightarrow>
     \<not> fs_denied fs \<and> t = start_tailer True \<and>
     (case fs_path fs of None \<Rightarrow> w = [] | Some i \<Rightarrow> i < fs_next fs \<and> w = fs_data fs i \<and> whole w))"

text \<open>What is still to come: of the open file, and of the file that has taken its name.\<close>

definition newer :: "log_fs \<Rightarrow> tailer \<Rightarrow> string" where
  "newer fs t = (case fs_path fs of None \<Rightarrow> [] | Some i \<Rightarrow> if i = tl_inode t then [] else fs_data fs i)"

definition to_come :: "log_fs \<Rightarrow> tailer \<Rightarrow> string" where
  "to_come fs t =
     (case tl_phase t of
        Opening b \<Rightarrow> (case fs_path fs of None \<Rightarrow> [] | Some i \<Rightarrow> fs_data fs i)
      | Stopped e \<Rightarrow> []
      | _ \<Rightarrow> tl_buf t @ unread fs t @ newer fs t)"

definition holding :: "log_fs \<Rightarrow> tailer \<Rightarrow> bool" where
  "holding fs t =
     (tl_inode t < fs_next fs \<and> whole (tl_buf t @ unread fs t) \<and>
      tl_offset t + length (tl_buf t) = tl_pos t \<and> tl_pos t \<le> length (fs_data fs (tl_inode t)))"

definition log_inv :: "log_fs \<times> tailer \<times> string \<Rightarrow> bool" where
  "log_inv s = (case s of (fs, t, w) \<Rightarrow>
     \<not> fs_denied fs \<and>
     (\<forall>i. fs_path fs = Some i \<longrightarrow> i < fs_next fs \<and> whole (fs_data fs i)) \<and>
     (case tl_phase t of
        Opening b \<Rightarrow> \<not> b
      | Reading \<Rightarrow> holding fs t
      | AtEOF \<Rightarrow> holding fs t \<and> tl_buf t = [] \<and> (fs_path fs = Some (tl_inode t) \<or> unread fs t = [])
      | Stopped e \<Rightarrow> False) \<and>
     (\<exists>p. whole p \<and> w = p @ to_come fs t \<and> tl_out t = log_lines p))"

lemma log_inv_start: "log_start s \<Longrightarrow> log_inv s"
  by (cases s) (auto simp: log_start_def log_inv_def start_tailer_def to_come_def whole_def split: option.splits)

lemma unread_append:
  "tl_pos t \<le> length (fs_data fs (tl_inode t)) \<Longrightarrow>
   unread (fs_step (FsAppend i s) fs) t = unread fs t @ (if i = tl_inode t then s else [])"
  by (simp add: unread_def)

lemma holding_append:
  "holding fs t \<Longrightarrow> whole s \<Longrightarrow> holding (fs_step (FsAppend i s) fs) t"
  using whole_append [of "tl_buf t @ unread fs t" s] by (auto simp: holding_def unread_def)

lemma log_inv_append:
  assumes "log_inv (fs, t, w)" "fs_path fs = Some i" "whole s"
  shows "log_inv (fs_step (FsAppend i s) fs, t, w @ s)"
proof -
  let ?f = "fs_step (FsAppend i s) fs"
  from assms(1) obtain p where p: "whole p" "w = p @ to_come fs t" "tl_out t = log_lines p" by (auto simp: log_inv_def)
  have "to_come ?f t = to_come fs t @ s"
    using assms by (auto simp: to_come_def newer_def log_inv_def holding_def unread_append [simplified] split: tail_phase.splits)
  then have "\<exists>p. whole p \<and> w @ s = p @ to_come ?f t \<and> tl_out t = log_lines p" using p by (intro exI [of _ p]) simp
  moreover have "unread ?f t = unread fs t" if "fs_path fs \<noteq> Some (tl_inode t)" using that assms(2) by (simp add: unread_def)
  ultimately show ?thesis
    using assms holding_append [of fs t s i] whole_append [of "fs_data fs i" s]
    by (simp add: log_inv_def split: tail_phase.splits) (auto simp: unread_def)
qed

lemma log_inv_rename:
  assumes "log_inv (fs, t, w)" "fs_path fs = Some (tl_inode t)" "tl_phase t = Reading \<or> tl_phase t = AtEOF \<and> unread fs t = []"
  shows "log_inv (fs_step FsRename fs, t, w)"
proof -
  have "unread (fs_step FsRename fs) t = unread fs t" by (simp add: unread_def)
  with assms show ?thesis by (auto simp: log_inv_def holding_def to_come_def newer_def)
qed

lemma log_inv_create:
  assumes "log_inv (fs, t, w)" "fs_path fs = None"
  shows "log_inv (fs_step FsCreate fs, t, w)"
proof -
  have "unread (fs_step FsCreate fs) t = unread fs t" if "tl_inode t < fs_next fs" using that by (simp add: unread_def)
  with assms show ?thesis
    by (auto simp: log_inv_def holding_def to_come_def newer_def whole_def split: tail_phase.splits)
qed

lemma newer_same: "tl_inode t' = tl_inode t \<Longrightarrow> newer fs t' = newer fs t"
  by (cases "fs_path fs") (simp_all add: newer_def)

lemma log_inv_read:
  assumes "log_inv (fs, t, w)" "0 < n" "tl_phase t = Reading"
  shows "log_inv (fs, read_step n fs t, w)"
proof -
  let ?u = "read_step n fs t"
  from assms obtain p where p: "whole p" "w = p @ tl_buf t @ unread fs t @ newer fs t" "tl_out t = log_lines p"
    and h: "holding fs t" by (auto simp: log_inv_def to_come_def)
  have pos: "tl_pos ?u \<le> length (fs_data fs (tl_inode t)) \<and> tl_offset ?u + length (tl_buf ?u) = tl_pos ?u"
  proof (cases "index_byte (tl_buf t) (CHR 0x0A)")
    case (Some k)
    with index_byte_split [OF this] h show ?thesis by (simp add: read_step_def holding_def)
  qed (use h in \<open>auto simp: read_step_none holding_def unread_def\<close>)
  show ?thesis
  proof (cases "tl_phase ?u = AtEOF")
    case True
    note e = read_step_eof [OF assms(2,3) True]
    have b: "tl_buf t = []" using h e whole_no_newline [of "tl_buf t"] by (simp add: holding_def)
    have "holding fs ?u" using h e b pos by (simp add: holding_def unread_def)
    moreover have "unread fs ?u = []" using e by (simp add: unread_def)
    moreover have "to_come fs ?u = newer fs t" using True e calculation(2) by (simp add: to_come_def newer_same [of ?u t])
    ultimately show ?thesis using assms(1) True p e b by (auto simp: log_inv_def intro!: exI [of _ p])
  next
    case False
    from read_step_more [OF assms(3) False] obtain l where l: "whole l"
      "tl_buf t @ unread fs t = l @ tl_buf ?u @ unread fs ?u" "tl_out ?u = tl_out t @ log_lines l"
      "tl_phase ?u = Reading" "tl_inode ?u = tl_inode t" by blast
    have "whole (tl_buf ?u @ unread fs ?u)" using h l(2) whole_tail by (metis holding_def)
    then have "holding fs ?u" using h l(5) pos by (simp add: holding_def)
    moreover have "w = (p @ l) @ to_come fs ?u" using p(2) l(2,4) newer_same [OF l(5), of fs]
      by (simp add: to_come_def flip: append_assoc)
    moreover have "tl_out ?u = log_lines (p @ l)" using p l by (simp add: log_lines_append)
    ultimately show ?thesis using assms(1) l(4) whole_append [OF p(1) l(1)]
      by (auto simp: log_inv_def simp del: append_assoc)
  qed
qed

lemma log_inv_open:
  assumes "log_inv (fs, t, w)" "tl_phase t = Opening b"
  shows "log_inv (fs, openFollow fs b t, w)"
  using assms by (auto simp: log_inv_def openFollow_def to_come_def newer_def holding_def unread_def split: option.splits)

lemma log_inv_eof:
  assumes "log_inv (fs, t, w)" "tl_phase t = AtEOF"
  shows "log_inv (fs, eof_step fs t, w)"
proof -
  from assms have h: "holding fs t" "tl_buf t = []" "fs_path fs = Some (tl_inode t) \<or> unread fs t = []" "\<not> fs_denied fs"
    by (auto simp: log_inv_def)
  then have fits: "tl_offset t \<le> length (fs_data fs (tl_inode t))" by (simp add: holding_def)
  show ?thesis
  proof (cases "fs_path fs = None \<or> fs_path fs = Some (tl_inode t)")
    case True
    with fits h(4) have "eof_step fs t = t\<lparr>tl_phase := Reading\<rparr>"
      by (auto simp: eof_step_def classifyPath_def)
    moreover have "newer fs (t\<lparr>tl_phase := Reading\<rparr>) = newer fs t" by (rule newer_same) simp
    ultimately show ?thesis using assms h(2) by (simp add: log_inv_def to_come_def holding_def unread_def)
  next
    case False
    then obtain j where j: "fs_path fs = Some j" "j \<noteq> tl_inode t" by auto
    with h(4) have "eof_step fs t = t\<lparr>tl_phase := Opening False\<rparr>" by (simp add: eof_step_def classifyPath_def)
    with assms h(2,3) j show ?thesis by (auto simp: log_inv_def to_come_def newer_def)
  qed
qed

lemma log_inv_follow: "log_inv (fs, t, w) \<Longrightarrow> 0 < n \<Longrightarrow> log_inv (fs, follow_step n fs t, w)"
  unfolding follow_step_def
  by (cases "tl_phase t") (simp_all add: log_inv_open log_inv_read log_inv_eof)

lemma log_inv_step: "log_step s s' \<Longrightarrow> log_inv s \<Longrightarrow> log_inv s'"
  by (induction rule: log_step.induct)
    (simp_all only: log_inv_append log_inv_rename log_inv_create log_inv_follow)

lemma log_inv_run: "log_step\<^sup>*\<^sup>* s s' \<Longrightarrow> log_start s \<Longrightarrow> log_inv s'"
  by (induction rule: rtranclp_induct) (auto simp: log_inv_start log_inv_step)

section \<open>Every line, once, in order\<close>


definition demo_log :: "log_fs \<times> tailer \<times> string" where
  "demo_log = (\<lparr>fs_path = Some 0, fs_data = (\<lambda>_. []), fs_next = 1, fs_denied = False\<rparr>, start_tailer True, [])"

definition demo_rotation :: "log_fs" where
  "demo_rotation = fs_step (FsAppend 1 (''two'' @ nl)) (fs_step FsCreate (fs_step FsRename
     (fs_step (FsAppend 0 (''one'' @ nl)) (fst demo_log))))"

definition demo_tailer :: "tailer" where
  "demo_tailer = (follow_step 64 demo_rotation ^^ 8)
     (follow_step 64 (fs_step (FsAppend 0 (''one'' @ nl)) (fst demo_log)) (start_tailer True))"

lemma demo_rotation_run: "log_step\<^sup>*\<^sup>* demo_log (demo_rotation, demo_tailer, ''one'' @ nl @ ''two'' @ nl)"
proof -
  let ?f0 = "fst demo_log" and ?t0 = "start_tailer True"
  let ?f1 = "fs_step (FsAppend 0 (''one'' @ nl)) ?f0"
  let ?t1 = "follow_step 64 ?f1 ?t0"
  have nlw: "whole (s @ nl)" for s by (simp add: whole_def nl_def)
  have follows: "log_step\<^sup>*\<^sup>* (f, t, w) (f, (follow_step 64 f ^^ k) t, w)" for f t w and k :: nat
  proof (induction k)
    case (Suc k)
    show ?case by (simp, rule rtranclp.rtrancl_into_rtrancl [OF Suc], rule follow) simp
  qed simp
  have d: "demo_log = (?f0, ?t0, [])" by (simp add: demo_log_def)
  have 1: "log_step (?f0, ?t0, []) (?f1, ?t0, ''one'' @ nl)"
    using append [of ?f0 0 "''one'' @ nl" ?t0 "[]", OF _ nlw] by (simp add: demo_log_def)
  have 2: "log_step\<^sup>*\<^sup>* (?f1, ?t0, ''one'' @ nl) (?f1, ?t1, ''one'' @ nl)"
    using follows [of ?f1 ?t0 _ 1] by simp
  have 3: "log_step (?f1, ?t1, ''one'' @ nl) (fs_step FsRename ?f1, ?t1, ''one'' @ nl)"
    by (rule rename) (simp_all add: demo_log_def follow_step_def start_tailer_def openFollow_def)
  have 4: "log_step (fs_step FsRename ?f1, ?t1, ''one'' @ nl) (fs_step FsCreate (fs_step FsRename ?f1), ?t1, ''one'' @ nl)"
    by (rule create) simp
  have 5: "log_step (fs_step FsCreate (fs_step FsRename ?f1), ?t1, ''one'' @ nl) (demo_rotation, ?t1, (''one'' @ nl) @ (''two'' @ nl))"
    unfolding demo_rotation_def by (rule append [OF _ nlw]) (simp add: demo_log_def)
  have 6: "log_step\<^sup>*\<^sup>* (demo_rotation, ?t1, (''one'' @ nl) @ (''two'' @ nl)) (demo_rotation, demo_tailer, (''one'' @ nl) @ (''two'' @ nl))"
    unfolding demo_tailer_def by (rule follows)
  from 3 4 5 6 have "log_step\<^sup>*\<^sup>* (?f1, ?t1, ''one'' @ nl) (demo_rotation, demo_tailer, (''one'' @ nl) @ (''two'' @ nl))"
    by (meson converse_rtranclp_into_rtranclp)
  from converse_rtranclp_into_rtranclp [OF 1 rtranclp_trans [OF 2 this]]
  show ?thesis unfolding d [symmetric] append_assoc .
qed

lemma demo_log_start: "log_start demo_log"
  by (simp add: demo_log_def log_start_def whole_def)

lemma demo_tailer_out: "tl_out demo_tailer = [''one'', ''two'']"
  by code_simp


section \<open>Catching up\<close>

lemma follow_read: "tl_phase t = Reading \<Longrightarrow> follow_step n fs t = read_step n fs t"
  by (simp add: follow_step_def)

lemma follow_reads:
  assumes "0 < n" "tl_phase t = Reading"
  shows "\<exists>k. (follow_step n fs ^^ k) t = drain_file n fs t"
proof -
  have "\<exists>k. (follow_step n fs ^^ k) t = drain_file n fs t"
    using assms
  proof (induction n fs t rule: drain_file.induct)
    case (1 n fs t)
    let ?u = "read_step n fs t"
    show ?case
    proof (cases "tl_phase ?u = AtEOF")
      case True
      then have "(follow_step n fs ^^ 1) t = drain_file n fs t" using 1(2,3) by (simp add: drain_file.simps follow_read)
      then show ?thesis by blast
    next
      case False
      with read_step_more [OF 1(3)] have "tl_phase ?u = Reading" by blast
      with 1(1) [OF _ refl False] 1(2) obtain k where "(follow_step n fs ^^ k) ?u = drain_file n fs ?u" by auto
      then have "(follow_step n fs ^^ Suc k) t = drain_file n fs t"
        using False 1(2,3) by (simp add: drain_file.simps [of n fs t] follow_read funpow_Suc_right del: funpow.simps)
      then show ?thesis by blast
    qed
  qed
  then show ?thesis .
qed

text \<open>Steps of the tailer on a file system at rest.\<close>

definition leads_to :: "nat \<Rightarrow> log_fs \<Rightarrow> tailer \<Rightarrow> (tailer \<Rightarrow> bool) \<Rightarrow> bool" where
  "leads_to n fs t P = (\<exists>k. P ((follow_step n fs ^^ k) t))"

lemma leads_to_now: "P t \<Longrightarrow> leads_to n fs t P"
  unfolding leads_to_def by (rule exI [of _ 0]) simp

lemma leads_to_next: "leads_to n fs (follow_step n fs t) P \<Longrightarrow> leads_to n fs t P"
  unfolding leads_to_def by (elim exE, rule exI [of _ "Suc k" for k]) (simp add: funpow_Suc_right del: funpow.simps)

lemma leads_to_drain: "0 < n \<Longrightarrow> tl_phase t = Reading \<Longrightarrow> leads_to n fs (drain_file n fs t) P \<Longrightarrow> leads_to n fs t P"
  using follow_reads [of n t fs] unfolding leads_to_def by (metis comp_apply funpow_add)

definition caught_up :: "string \<Rightarrow> tailer \<Rightarrow> bool" where
  "caught_up w t = (tl_out t = log_lines w)"

lemma log_inv_drain:
  assumes "log_inv (fs, t, w)" "0 < n" "tl_phase t = Reading"
  shows "log_inv (fs, drain_file n fs t, w)"
proof -
  from follow_reads [OF assms(2,3)] obtain k where k: "(follow_step n fs ^^ k) t = drain_file n fs t" by blast
  have "log_inv (fs, (follow_step n fs ^^ k) t, w)" by (induction k) (simp_all add: assms log_inv_follow)
  then show ?thesis by (simp add: k)
qed

lemma nothing_to_come: "log_inv (fs, t, w) \<Longrightarrow> to_come fs t = [] \<Longrightarrow> caught_up w t"
  by (auto simp: log_inv_def caught_up_def)

lemma catch_up_last:
  assumes "log_inv (fs, t, w)" "0 < n" "tl_phase t = Reading" "newer fs t = []"
  shows "leads_to n fs t (caught_up w)"
proof -
  note d = drain_lines [OF assms(2,3), of fs]
  have "newer fs (drain_file n fs t) = []" using assms(4) d by (simp add: newer_same [of "drain_file n fs t" t])
  then have "to_come fs (drain_file n fs t) = []" using d by (simp add: to_come_def)
  from nothing_to_come [OF log_inv_drain [OF assms(1-3)] this] leads_to_drain [OF assms(2,3) leads_to_now]
  show ?thesis by blast
qed

lemma catch_up_open:
  assumes "log_inv (fs, t, w)" "0 < n" "tl_phase t = Opening b"
  shows "leads_to n fs t (caught_up w)"
proof (cases "fs_path fs")
  case None
  with assms(3) have "to_come fs t = []" by (simp add: to_come_def)
  from nothing_to_come [OF assms(1) this] show ?thesis by (rule leads_to_now)
next
  case (Some i)
  let ?u = "follow_step n fs t"
  have "tl_phase ?u = Reading" "newer fs ?u = []"
    using assms Some by (auto simp: follow_step_def openFollow_def log_inv_def newer_def)
  from catch_up_last [OF log_inv_follow [OF assms(1,2)] assms(2) this] show ?thesis by (rule leads_to_next)
qed

lemma catch_up_eof:
  assumes "log_inv (fs, t, w)" "0 < n" "tl_phase t = AtEOF"
  shows "leads_to n fs t (caught_up w)"
proof -
  let ?u = "follow_step n fs t"
  have i: "log_inv (fs, ?u, w)" by (rule log_inv_follow [OF assms(1,2)])
  have "(tl_phase ?u = Reading \<and> newer fs ?u = []) \<or> tl_phase ?u = Opening False"
    using assms by (auto simp: follow_step_def eof_step_def classifyPath_def log_inv_def holding_def newer_def split: option.split)
  with catch_up_last [OF i assms(2)] catch_up_open [OF i assms(2)] show ?thesis by (blast intro: leads_to_next)
qed

lemma catch_up:
  assumes "log_inv (fs, t, w)" "0 < n"
  shows "leads_to n fs t (caught_up w)"
proof (cases "tl_phase t")
  case Reading
  from drain_lines [OF assms(2) Reading] catch_up_eof [OF log_inv_drain [OF assms Reading] assms(2)]
  show ?thesis by (blast intro: leads_to_drain [OF assms(2) Reading])
qed (use assms catch_up_open catch_up_eof in \<open>auto simp: log_inv_def\<close>)



text \<open>
  C39: The reads between two waits end: on a file that does not change, at most twice the unread bytes and the
  buffered ones plus one steps lead to the end of the file, with an empty buffer, every byte counted in the
  offset and exactly the lines in between sent, a last one without its line end included.
\<close>

theorem reads_terminate:
  assumes "0 < n" "tl_phase t = Reading"
  shows "\<exists>k \<le> 2 * length (unread fs t) + length (tl_buf t) + 1. \<exists>u.
    (read_step n fs ^^ k) t = u \<and> tl_phase u = AtEOF \<and> tl_buf u = [] \<and> unread fs u = [] \<and>
    tl_offset u = tl_offset t + length (tl_buf t @ unread fs t) \<and>
    tl_out u = tl_out t @ log_lines (tl_buf t @ unread fs t)"
proof -
  from drain_lines [OF assms, of fs] obtain k where "k \<le> backlog fs t + 1" "(read_step n fs ^^ k) t = drain_file n fs t" by blast
  with drain_lines [OF assms, of fs] show ?thesis unfolding backlog_def by metis
qed

definition idle_tailer :: "string \<Rightarrow> tailer" where
  "idle_tailer s = \<lparr>tl_phase = Reading, tl_inode = 0, tl_pos = length s, tl_buf = [], tl_offset = length s, tl_out = []\<rparr>"

theorem reads_terminate_witness:
  "\<exists>k \<le> 11. \<exists>u. (read_step 2 (fs_step (FsAppend 0 (''ab'' @ nl @ ''cd'')) (fst demo_log)) ^^ k) (idle_tailer []) = u \<and>
     tl_out u = [''ab'', ''cd'']"
proof -
  let ?f = "fs_step (FsAppend 0 (''ab'' @ nl @ ''cd'')) (fst demo_log)"
  have "log_lines (''ab'' @ nl @ ''cd'') = [''ab'', ''cd'']" "unread ?f (idle_tailer []) = ''ab'' @ nl @ ''cd''"
    "length (unread ?f (idle_tailer [])) = 5" by code_simp+
  with reads_terminate [of 2 "idle_tailer []" ?f] show ?thesis by (auto simp: idle_tailer_def)
qed

section \<open>Where lines are cut or lost\<close>

lemma trim_eol_plain: "\<forall>c \<in> set s. \<not> is_eol c \<Longrightarrow> trim_eol s = s"
  by (cases "rev s") (auto simp: trim_eol_def)

lemma plain_lines: "\<forall>c \<in> set a. \<not> is_eol c \<Longrightarrow> a \<noteq> [] \<Longrightarrow> log_lines a = [a] \<and> log_lines (a @ nl) = [a]"
  using log_lines_at [of a "[]"] log_lines_one [of a] by (auto simp: trim_eol_plain is_eol_def nl_def)

text \<open>The tailer waiting at the end of the file the path names.\<close>

definition idle_at_end :: "log_fs \<Rightarrow> tailer \<Rightarrow> bool" where
  "idle_at_end fs t = (tl_phase t = Reading \<and> tl_buf t = [] \<and> fs_path fs = Some (tl_inode t) \<and>
     tl_pos t = length (fs_data fs (tl_inode t)) \<and> tl_offset t = tl_pos t)"

text \<open>Reading on until the next wait.\<close>

definition poll :: "nat \<Rightarrow> log_fs \<Rightarrow> tailer \<Rightarrow> tailer" where
  "poll n fs t = eof_step fs (drain_file n fs t)"

lemma drain_pos: "0 < n \<Longrightarrow> tl_phase t = Reading \<Longrightarrow> tl_pos t \<le> length (fs_data fs (tl_inode t)) \<Longrightarrow>
   tl_pos (drain_file n fs t) = length (fs_data fs (tl_inode t))"
proof (induction n fs t rule: drain_file.induct)
  case (1 n fs t)
  let ?u = "read_step n fs t"
  show ?case
  proof (cases "tl_phase ?u = AtEOF")
    case True
    with read_step_eof [OF 1(2,3) True] 1(2,4) show ?thesis by (simp add: drain_file.simps unread_def)
  next
    case False
    from read_step_more [OF 1(3) False] have u: "tl_phase ?u = Reading" "tl_inode ?u = tl_inode t" by auto
    have "tl_pos ?u \<le> length (fs_data fs (tl_inode t))"
      using 1(4) by (cases "index_byte (tl_buf t) (CHR 0x0A)") (auto simp: read_step_def Let_def unread_def)
    with 1(1) [OF _ refl False 1(2) u(1)] 1(2) u False show ?thesis by (simp add: drain_file.simps [of n fs t])
  qed
qed

lemma poll_same:
  assumes "0 < n" "tl_phase t = Reading" "tl_pos t \<le> length (fs_data fs (tl_inode t))" "fs_path fs = Some (tl_inode t)"
    "tl_offset t + length (tl_buf t) = tl_pos t"
  shows "idle_at_end fs (poll n fs t) \<and> tl_out (poll n fs t) = tl_out t @ log_lines (tl_buf t @ unread fs t) \<and>
    tl_inode (poll n fs t) = tl_inode t"
proof -
  note d = drain_lines [OF assms(1,2), of fs] drain_pos [OF assms(1,2,3)]
  have o: "tl_offset (drain_file n fs t) = length (fs_data fs (tl_inode t))"
    using d(1) assms(3,5) by (simp add: unread_def)
  have "classifyPath fs (tl_inode t) (tl_offset (drain_file n fs t)) = PathSame"
    using assms(4) by (simp add: classifyPath_def o)
  then show ?thesis using d assms(4) o by (simp add: poll_def eof_step_def idle_at_end_def)
qed

text \<open>
  C40: A line is cut where a poll finds it: when the first part of a line has been written at the time the
  tailer looks and the rest at the next, two lines are sent, neither of which was ever written.
\<close>

theorem partial_line_sent:
  assumes "0 < n" "idle_at_end fs t"
    and "\<forall>c \<in> set (a @ b). \<not> is_eol c" "a \<noteq> []" "b \<noteq> []"
    and "fs1 = fs_step (FsAppend (tl_inode t) a) fs" "fs2 = fs_step (FsAppend (tl_inode t) (b @ nl)) fs1"
  shows "tl_out (poll n fs2 (poll n fs1 t)) = tl_out t @ [a, b]"
proof -
  have t: "tl_phase t = Reading" "tl_buf t = []" "fs_path fs = Some (tl_inode t)"
    "tl_pos t = length (fs_data fs (tl_inode t))" "tl_offset t = tl_pos t" using assms(2) by (auto simp: idle_at_end_def)
  have "unread fs1 t = a" by (simp add: assms(6) unread_def t)
  with poll_same [of n t fs1] assms(1,3,4) t plain_lines [of a]
  have p: "idle_at_end fs1 (poll n fs1 t)" "tl_out (poll n fs1 t) = tl_out t @ [a]" "tl_inode (poll n fs1 t) = tl_inode t"
    by (auto simp: assms(6))
  let ?u = "poll n fs1 t"
  have u: "tl_phase ?u = Reading" "tl_buf ?u = []" "fs_path fs1 = Some (tl_inode ?u)"
    "tl_pos ?u = length (fs_data fs1 (tl_inode ?u))" "tl_offset ?u = tl_pos ?u" using p(1) by (auto simp: idle_at_end_def)
  have "unread fs2 ?u = b @ nl" using u(4) p(3) by (simp add: assms(7) unread_def)
  with poll_same [of n ?u fs2] assms(1,3,5) u p plain_lines [of b] show ?thesis by (auto simp: assms(7))
qed

theorem partial_line_sent_witness:
  "tl_out (poll 64 (fs_step (FsAppend 0 (''Accepted'' @ nl)) (fs_step (FsAppend 0 ''sshd: '') (fst demo_log)))
     (poll 64 (fs_step (FsAppend 0 ''sshd: '') (fst demo_log)) (idle_tailer []))) = [''sshd: '', ''Accepted'']"
  using partial_line_sent [of 64 "fst demo_log" "idle_tailer []" "''sshd: ''" "''Accepted''", OF _ _ _ _ _ refl refl]
  by (simp add: idle_tailer_def idle_at_end_def demo_log_def is_eol_def)

text \<open>
  A truncation is seen only while the file is short: when the file is emptied and has grown past the old
  offset before the next poll, the path counts as unchanged and what was written below that offset is never
  sent.
\<close>

theorem regrown_log_lost:
  assumes "0 < n" "idle_at_end fs t" "length (fs_data fs (tl_inode t)) \<le> length s"
    and "fs' = fs_step (FsAppend (tl_inode t) s) (fs_step (FsTruncate (tl_inode t)) fs)"
  shows "idle_at_end fs' (poll n fs' t) \<and>
    tl_out (poll n fs' t) = tl_out t @ log_lines (drop (length (fs_data fs (tl_inode t))) s)"
proof -
  have t: "tl_phase t = Reading" "tl_buf t = []" "fs_path fs = Some (tl_inode t)"
    "tl_pos t = length (fs_data fs (tl_inode t))" "tl_offset t = tl_pos t" using assms(2) by (auto simp: idle_at_end_def)
  have "unread fs' t = drop (length (fs_data fs (tl_inode t))) s" by (simp add: assms(4) unread_def t)
  with poll_same [of n t fs'] assms(1,3) t show ?thesis by (auto simp: assms(4))
qed

theorem regrown_log_lost_witness:
  "tl_out (poll 64 (fs_step (FsAppend 0 (''su: root'' @ nl)) (fs_step (FsTruncate 0)
     (fs_step (FsAppend 0 (''ok'' @ nl)) (fst demo_log)))) (idle_tailer (''ok'' @ nl))) = ['' root'']"
proof -
  let ?f = "fs_step (FsAppend 0 (''ok'' @ nl)) (fst demo_log)"
  have i: "idle_at_end ?f (idle_tailer (''ok'' @ nl))" by (simp add: idle_at_end_def idle_tailer_def demo_log_def)
  have l: "log_lines (drop (length (fs_data ?f (tl_inode (idle_tailer (''ok'' @ nl))))) (''su: root'' @ nl)) = ['' root'']"
    by code_simp
  have "length (fs_data ?f (tl_inode (idle_tailer (''ok'' @ nl)))) \<le> length (''su: root'' @ nl)" by code_simp
  from regrown_log_lost [OF _ i this refl, of 64] l show ?thesis by (simp add: idle_tailer_def)
qed

text \<open>
  A source that fails says so to nobody: when the file cannot be opened the tailer ends, and what runs the
  source reports a source that ended without error.
\<close>

theorem failed_source_silent:
  assumes "fs_denied fs" "tl_phase t = Opening b"
  shows "tl_phase (follow_step n fs t) = Stopped (Some OpenDenied) \<and>
    followFileSource ds (follow_step n fs t) = Some (map (\<lambda>l. \<lparr>ln_Dataset = ds, ln_Message = l\<rparr>) (tl_out t), None)"
  using assms by (simp add: follow_step_def openFollow_def followFileSource_def)

theorem failed_source_silent_witness:
  "followFileSource ''sshd'' (follow_step 64 (fs_step (FsDeny True) (fst demo_log)) (start_tailer False)) = Some ([], None)"
  using failed_source_silent [of "fs_step (FsDeny True) (fst demo_log)" "start_tailer False" True 64 "''sshd''"]
  by (simp add: start_tailer_def)

end
