(* ===== verification/Spec2Isabelle.thy ===== *)
theory Spec2Isabelle
  imports Response_Props Pipeline Auth_Props Vuln_Match Worker_Props Agent_Isolation Agent_Config Agent_Buffer Agent_Kill Agent_FIM_Props Ticket_Mirror_Props Notify_Props Agent_Tail_Props
begin

text \<open>
  DeusWatch is a security monitoring platform written in Go. Agents ship events to a manager; the
  worker runs detection over them; an alert may lead to a recommendation to block an address, to
  isolate a host or to kill a process, which an analyst approves or which a policy lets through; the
  API serves analysts behind its own authentication. This library models the parts that decide: what
  raises an alert, what may be enforced and who may decide, down to the statements on the tables that
  hold the decisions; how an endpoint is admitted and what it is served; and what the agent does with
  its orders, its configuration, its buffer and the files it watches.

  \<^bold>\<open>Conventions.\<close> Every operation that reads or writes a table takes the database as a record and
  returns its result with the updated record (\<open>Database\<close>): the clock, the supply of generated
  identifiers and the outcome of the next statements, so a failing database is an input. A result is
  \<open>error + value\<close>. Go's \<open>int\<close> and \<open>time.Duration\<close> are \<open>int\<close> with the wrap-around at 64 bits
  written out where the code can reach it, IP addresses are words of 32 and 128 bits, a nil pointer is
  \<open>None\<close>, a string a list of bytes. A method under a mutex is one step. \<open>Prelude\<close> holds the parts
  of Go's \<^verbatim>\<open>strings\<close> and \<^verbatim>\<open>time\<close>, \<open>Go_Net\<close> those of \<^verbatim>\<open>net\<close> and \<^verbatim>\<open>net/netip\<close>, \<open>Go_Strconv\<close>
  those of \<^verbatim>\<open>strconv\<close> and \<^verbatim>\<open>time.ParseDuration\<close> that the components call.

  \<^bold>\<open>Events\<close> (\<^verbatim>\<open>internal/ingest/schema.go\<close>, theory \<open>Events\<close>): the record every component
  passes along, and the severity scale.

  \<^bold>\<open>Detection\<close> (\<^verbatim>\<open>internal/detect\<close>).
  \<open>Sigma\<close> models \<^verbatim>\<open>sigma.go\<close>, \<^verbatim>\<open>mapping.go\<close> and \<^verbatim>\<open>ruleset.go\<close>: rules from the decoded document
  on, selections, the field taxonomy, and the condition language with its tokenizer and recursive
  evaluator, panics included. \<open>Sigma_Props\<close> gives conditions an abstract syntax and shows that the
  text of a condition evaluates to the value of its tree, and which conditions make the evaluator
  panic. \<open>Sigma_SQL\<close> models \<^verbatim>\<open>sigma/aggregate.go\<close>, which compiles a rule to the text of a query and
  its arguments; \<open>Sigma_SQL_Props\<close> shows that the compiler reads conditions like the evaluator does
  and that no literal of a rule reaches the text. \<open>Detector\<close> (\<^verbatim>\<open>detector.go\<close>) turns the first rule
  that matches into an alert. \<open>Brute_Force\<close> (\<^verbatim>\<open>bruteforce.go\<close>) is a sliding window, refined from a
  reference that keeps the whole history. \<open>Aggregation\<close> (\<^verbatim>\<open>aggregate.go\<close>) runs the compiled queries.
  The last two keep the contract \<open>cooldown_gate\<close> of \<open>Cooldown\<close>, where the spacing of alerts is
  proved once.

  \<^bold>\<open>Blocking addresses\<close> (\<^verbatim>\<open>internal/respond\<close>).
  \<open>Ban_Policy\<close> (\<^verbatim>\<open>respond.go\<close>) is the ladder of ban lengths, \<open>Whitelist\<close> (\<^verbatim>\<open>whitelist.go\<close>) the
  trusted networks, \<open>Action_Store\<close> (\<^verbatim>\<open>store.go\<close>) the statements on \<^verbatim>\<open>response_actions\<close>, and
  \<open>Response_Engine\<close> (\<^verbatim>\<open>engine.go\<close>, \<^verbatim>\<open>decision.go\<close>) the engine over the interface \<^verbatim>\<open>ActionStore\<close>
  and a backend. What the store promises is the locale \<open>action_log\<close> (\<open>Action_Log\<close>), an abstract log
  of actions; \<open>Response_Contract\<close> proves the engine's facts inside \<open>ban_engine\<close> from that contract
  alone and interprets it on the Postgres store; \<open>Response\<close> defines runs of engine operations mixed
  with reloads, time and database faults; \<open>Response_Props\<close> states the properties.

  \<^bold>\<open>Isolating hosts.\<close> \<open>Containment\<close> models \<^verbatim>\<open>containment.go\<close> over its store interface,
  \<open>Containment_Store\<close> the statements of \<^verbatim>\<open>containment_store.go\<close> with the partial unique index, and
  \<open>Containment_Props\<close> the runs of both.

  \<^bold>\<open>Killing processes.\<close> \<open>Kill_Switch\<close> models \<^verbatim>\<open>killswitch.go\<close> and \<^verbatim>\<open>kill_policy.go\<close>;
  \<open>File_Actions\<close> the queue through which an agent gets its orders (\<^verbatim>\<open>internal/store/killswitch.go\<close>,
  \<^verbatim>\<open>fimsnapshots.go\<close>). \<open>Pipeline\<close> composes detection with both engines and states what must hold of
  a rule and an event before a host is isolated.

  \<^bold>\<open>Authentication\<close> (\<^verbatim>\<open>internal/auth\<close>).
  \<open>Auth_RBAC\<close> (\<^verbatim>\<open>rbac.go\<close>, \<^verbatim>\<open>policy.go\<close>) has roles, overrides and the password policy,
  \<open>Login_Limiter\<close> (\<^verbatim>\<open>ratelimit.go\<close>) the lockout, \<open>Auth_Store\<close> (\<^verbatim>\<open>store.go\<close>, \<^verbatim>\<open>lastadmin.go\<close>,
  \<^verbatim>\<open>token.go\<close>) users, sessions and the last-administrator guard, \<open>Auth_Handlers\<close> (\<^verbatim>\<open>handlers.go\<close>,
  \<^verbatim>\<open>middleware.go\<close>) the requests. \<open>Auth_Props\<close> shows that sequential requests never remove the last
  administrator, how two defects do, and that a client behind the proxies cannot choose its address.

  \<^bold>\<open>Vulnerability matching\<close> (\<^verbatim>\<open>internal/vuln\<close>). \<open>Versions\<close> (\<^verbatim>\<open>dpkgver.go\<close>) shows that the
  comparison loop is a lexicographic order on keys and so a total preorder (the contract
  \<open>comparison\<close>); \<open>Vuln_Match\<close> (\<^verbatim>\<open>match.go\<close>) builds the exactness of the matcher on it.

  \<^bold>\<open>Storing events\<close> (\<^verbatim>\<open>internal/worker\<close>, \<^verbatim>\<open>internal/store/store.go\<close>). \<open>Worker\<close> models the message
  handler, the batcher (\<^verbatim>\<open>Add\<close>, the loop's two branches, \<^verbatim>\<open>flush\<close>, \<^verbatim>\<open>Close\<close>) and the insert, with
  the channel of waiting entries as the locale \<open>event_queue\<close>; \<open>Worker_Props\<close> runs them in any order
  and shows that every delivery is answered once or still held, and that a positive answer means
  stored.

  \<^bold>\<open>Admitting endpoints\<close> (\<^verbatim>\<open>internal/enroll\<close>, \<^verbatim>\<open>internal/gateway\<close>, \<^verbatim>\<open>cmd/gateway\<close>).
  \<open>Enrollment\<close> models \<^verbatim>\<open>enroll.go\<close> and \<^verbatim>\<open>groups.go\<close>: tokens, the registration with its upsert,
  revocation, configuration and its revisions. \<open>Enrollment_Moves\<close> says for each operation how it
  moves the two tables, and \<open>Enrollment_Props\<close> follows tokens, locked certificates and revisions
  along runs. \<open>Gateway\<close> models the handlers of \<^verbatim>\<open>gateway.go\<close> over the callbacks they are built with,
  \<open>Gateway_Wiring\<close> the callbacks of \<^verbatim>\<open>cmd/gateway/main.go\<close> over the stores, and \<open>Gateway_Props\<close>
  what the composed server does.

  \<^bold>\<open>The agent\<close> (\<^verbatim>\<open>internal/agent\<close>, \<^verbatim>\<open>cmd/agent/main.go\<close>).
  \<open>Agent_Isolation\<close> has the isolation loop and the text of the firewall rules, \<open>Agent_Config\<close> the
  start of an agent and the watch on its configuration, both closed with the gateway's handlers;
  \<open>Agent_Buffer\<close> the offline buffer and its drain against the gateway; \<open>Agent_Kill\<close> the decision
  of \<^verbatim>\<open>killproc.go\<close> over the process table, with the reader of \<^verbatim>\<open>/proc/<pid>/stat\<close>.
  \<open>Agent_Diff\<close> (\<^verbatim>\<open>fimdiff.go\<close>) shows that the printed difference is a script of least length,
  \<open>Agent_FIM\<close> models \<^verbatim>\<open>fim.go\<close> and \<^verbatim>\<open>fimsnap.go\<close> (scan, comparison, snapshots, restore) over a
  file system with failing writes, and \<open>Agent_FIM_Props\<close> shows that the reports of a scan replay the
  tree, and what can be restored. \<open>Go_Path\<close> holds the parts of \<^verbatim>\<open>path/filepath\<close> they share.

  \<open>Agent_Tail\<close> (\<^verbatim>\<open>tail.go\<close>) has \<^verbatim>\<open>FollowFile\<close> with one step per system call, interleaved with
  writers and log rotation; \<open>Agent_Tail_Props\<close> shows that its reads end, that under rotation by rename
  and create every line is sent once and in order, and the cases in which lines are cut or lost.

  \<^bold>\<open>Telling people.\<close> \<open>Notify\<close> models the dispatcher and the sinks of \<^verbatim>\<open>internal/notify\<close>, a third
  implementation of \<open>cooldown_gate\<close>; \<open>Alert_Hook\<close> the hook of \<^verbatim>\<open>cmd/worker/main.go\<close> that composes kill
  switch, ban engine, containment engine, dispatcher and tickets; \<open>Notify_Props\<close> which alerts reach the
  channels.
  \<open>Tickets\<close> models the tables and statements of \<^verbatim>\<open>internal/tickets\<close> with the row policy of migrations
  50 and 54, \<open>Ticket_Desk\<close> its handlers inside the tenant scope (\<^verbatim>\<open>WithTenantScope\<close>, \<^verbatim>\<open>withScope\<close>), the
  automation of \<^verbatim>\<open>cmd/worker/ticketing.go\<close> and the mirror to GLPI of \<^verbatim>\<open>cmd/worker/glpisync.go\<close>.
  \<open>Ticket_Moves\<close> says how each operation moves the rows; \<open>Ticket_Props\<close> and \<open>Ticket_Mirror_Props\<close>
  follow tickets, notes and links along runs. \<open>Go_Time\<close> prints the times and durations in their texts.

  \<^bold>\<open>Bounds and termination.\<close> No definition uses fuel. The parsers of conditions and of SQL conditions
  are mutually recursive functions whose termination is proved from the position they return, the
  version comparison from the progress of a segment, the walk over the difference table and the
  chunked insert and the reads of the tailer from measures; every other loop is structural. A loop that never ends by design (the
  agent's polls, the tailer, the batcher) is modelled by its body, and runs are lists of steps in any order.

  \<^bold>\<open>Parameters.\<close> PostgreSQL's reading and printing of \<^verbatim>\<open>inet\<close>, \<^verbatim>\<open>cidr\<close> and \<^verbatim>\<open>uuid\<close> values, regular
  expressions, Argon2id, SHA-256, TOTP, the random source, the signing of certificates, the firewall
  backends, the outcome of \<^verbatim>\<open>nft\<close>, the HTTP client and SMTP sender of the channels, the GLPI server, the JSON decoders and the query executor are fields of the states
  or arguments; what is assumed of them stands in the hypotheses of the theorem that needs it and is
  instantiated in its witness.

  \<^bold>\<open>Not modelled.\<close> Wire formats (JSON, protobuf, YAML) and HTTP routing; the rest of the wiring in
  \<^verbatim>\<open>cmd/api\<close>, \<^verbatim>\<open>cmd/worker\<close> and of \<^verbatim>\<open>cmd/agent\<close>; the firewall and edge backends (\<^verbatim>\<open>responders.go\<close>,
  \<^verbatim>\<open>sshcli.go\<close>), which run external commands; the report and dashboard queries of \<^verbatim>\<open>internal/store\<close>,
  which aggregate in SQL, among them the scorecard of tickets; decoders and normalizers of log formats; the agent's other collectors and its
  kernel and registry watchers; enrichment, reputation, malware, YARA, OSV and Trivy clients and the
  language-model assistant, which call external services; scores, whose substance is floating-point
  arithmetic; certificates and signing, whose substance is in the crypto libraries. The component list
  of the manifest names each package with the reason. Case mapping is that of the ASCII range.
\<close>

end
